(* ===== verification/Prelude.thy ===== *)
theory Prelude
  imports Main "HOL-Library.Word" "HOL-Library.Char_ord" "HOL-Library.List_Lexorder"
    "HOL-Library.Monad_Syntax"
begin

text \<open>
  The shared vocabulary of the development: machine integers, raw bytes and text, the
  little-endian loops that every encoder of the runtime repeats (\<open>canonical.cpp\<close>,
  \<open>journal.cpp\<close>, \<open>snapshot.cpp\<close>, \<open>wire.cpp\<close>), and \<open>std::map\<close> as a strictly sorted
  association list with its interface locale. The named collections declared here are filled
  by the component theories.
\<close>

unbundle bit_operations_syntax

section \<open>Named collections\<close>

named_theorems map_simps \<open>lookups and updates of ordered maps\<close>
named_theorems roundtrip \<open>decode-after-encode equations\<close>
named_theorems writes_intros \<open>what a writer action appends\<close>

section \<open>Machine integers, bytes, text\<close>

type_synonym u8 = "8 word"
type_synonym u16 = "16 word"
type_synonym u32 = "32 word"
type_synonym u64 = "64 word"

text \<open>A signed 64-bit integer is its two's complement bit pattern, read by \<^const>\<open>sint\<close>.\<close>

type_synonym i64 = "64 word"
type_synonym bytes = "u8 list"

definition byte_of_char :: "char \<Rightarrow> u8" where
  "byte_of_char c = of_char c"

definition char_of_byte :: "u8 \<Rightarrow> char" where
  "char_of_byte b = char_of (unat b)"

definition bytes_of_text :: "string \<Rightarrow> bytes" where
  "bytes_of_text t = map byte_of_char t"

definition text_of_bytes :: "bytes \<Rightarrow> string" where
  "text_of_bytes bs = map char_of_byte bs"

lemma of_char_less_256: "(of_char c :: nat) < 256"
  by (metis char_of_char mod_less_divisor of_char_of zero_less_numeral)

lemma unat_byte_of_char: "unat (byte_of_char c) = of_char c"
proof -
  have "(of_char c :: nat) < 256"
    by (rule of_char_less_256)
  moreover have "byte_of_char c = of_nat (of_char c)"
    by (simp add: byte_of_char_def of_nat_of_char)
  ultimately show ?thesis
    by (simp add: unat_of_nat)
qed

lemma char_of_byte_of_char [simp]: "char_of_byte (byte_of_char c) = c"
  by (simp add: char_of_byte_def unat_byte_of_char)

lemma byte_of_char_of_byte [simp]: "byte_of_char (char_of_byte b) = b"
proof (rule word_unat_eq_iff [THEN iffD2])
  have "unat b < 256" using unsigned_less [of b, where ?'a = nat] by simp
  then show "unat (byte_of_char (char_of_byte b)) = unat b"
    by (simp add: unat_byte_of_char char_of_byte_def)
qed

lemma text_of_bytes_of_text [simp]: "text_of_bytes (bytes_of_text t) = t"
  by (simp add: text_of_bytes_def bytes_of_text_def comp_def)

lemma bytes_of_text_of_bytes [simp]: "bytes_of_text (text_of_bytes bs) = bs"
  by (simp add: text_of_bytes_def bytes_of_text_def comp_def)

lemma length_bytes_of_text [simp]: "length (bytes_of_text t) = length t"
  by (simp add: bytes_of_text_def)

lemma length_text_of_bytes [simp]: "length (text_of_bytes bs) = length bs"
  by (simp add: text_of_bytes_def)

lemma bytes_of_text_inject [simp]: "bytes_of_text s = bytes_of_text t \<longleftrightarrow> s = t"
  by (metis text_of_bytes_of_text)

section \<open>Little-endian loops\<close>

text \<open>
  \<open>for (shift = 0; shift < 8 n; shift += 8) put((value >> shift) & 0xff)\<close> and its inverse
  \<open>value |= byte << shift\<close>: the pair of loops behind PutU16/32/64, ReadU16/32/64, StoreU16/32/64
  and LoadU16/32/64.
\<close>

definition le_store :: "nat \<Rightarrow> 'a::len word \<Rightarrow> bytes" where
  "le_store n v = map (\<lambda>i. ucast (drop_bit (8 * i) v AND 0xff)) [0..<n]"

fun le_load_at :: "nat \<Rightarrow> bytes \<Rightarrow> 'a::len word \<Rightarrow> 'a word" where
  "le_load_at shift [] v = v"
| "le_load_at shift (b # bs) v = le_load_at (shift + 8) bs (v OR push_bit shift (ucast b))"

definition le_load :: "bytes \<Rightarrow> 'a::len word" where
  "le_load bs = le_load_at 0 bs 0"

lemma length_le_store [simp]: "length (le_store n v) = n"
  by (simp add: le_store_def)

lemma bit_le_load_at:
  fixes v :: "'a::len word"
  shows "bit (le_load_at s bs v) k \<longleftrightarrow>
    bit v k \<or> (s \<le> k \<and> k < s + 8 * length bs \<and> k < LENGTH('a)
      \<and> bit (bs ! ((k - s) div 8)) ((k - s) mod 8))"
proof (induction s bs v rule: le_load_at.induct)
  case (1 s v)
  show ?case by (simp only: le_load_at.simps list.size) auto
next
  case (2 s b bs v)
  have first: "bit (v OR push_bit s (ucast b)) k \<longleftrightarrow>
      bit v k \<or> (s \<le> k \<and> k < s + 8 \<and> k < LENGTH('a) \<and> bit b (k - s))"
    by (auto simp: bit_simps dest: bit_imp_le_length)
  show ?case
  proof (cases "s + 8 \<le> k")
    case True
    then obtain d where k: "k = s + 8 + d" using le_Suc_ex by blast
    have "(k - s) div 8 = Suc (d div 8)" "(k - s) mod 8 = d mod 8"
      by (simp_all add: k)
    moreover have "s \<le> k" "k - (s + 8) = d"
      by (simp_all add: k)
    ultimately show ?thesis
      using True by (simp only: le_load_at.simps "2.IH" first list.size nth_Cons_Suc) (auto simp: k)
  next
    case False
    then have "s \<le> k \<Longrightarrow> (k - s) div 8 = 0 \<and> (k - s) mod 8 = k - s" by simp
    with False show ?thesis
      by (simp only: le_load_at.simps "2.IH" first) auto
  qed
qed

lemma byte_mask: "(0xff :: 'a::len word) = mask 8"
  by (simp add: mask_eq_exp_minus_1)

lemma bit_le_store:
  fixes v :: "'a::len word"
  assumes "i < n" "m < 8"
  shows "bit (le_store n v ! i) m \<longleftrightarrow> bit v (8 * i + m)"
  using assms by (auto simp: le_store_def byte_mask bit_simps dest: bit_imp_le_length)

text \<open>Reading back the bytes a store loop wrote gives the value, at every width.\<close>

lemma le_load_store [simp]:
  fixes v :: "'a::len word"
  assumes "LENGTH('a) \<le> 8 * n"
  shows "le_load (le_store n v) = v"
proof (rule bit_word_eqI)
  fix k assume k: "k < LENGTH('a)"
  then have "k div 8 < n" using assms by linarith
  then have "bit (le_store n v ! (k div 8)) (k mod 8) \<longleftrightarrow> bit v k"
    by (simp add: bit_le_store)
  with k assms show "bit (le_load (le_store n v) :: 'a word) k \<longleftrightarrow> bit v k"
    by (simp add: le_load_def bit_le_load_at)
qed

lemma le_store_inject:
  fixes v w :: "'a::len word"
  assumes "LENGTH('a) \<le> 8 * n" "le_store n v = le_store n w"
  shows "v = w"
  using assms by (metis le_load_store)

text \<open>Conversely, the bytes are recovered from the loaded value when it is wide enough.\<close>

lemma le_store_le_load:
  assumes "length bs = n" "8 * n \<le> LENGTH('a::len)"
  shows "le_store n (le_load bs :: 'a word) = bs"
proof (rule nth_equalityI)
  show "length (le_store n (le_load bs :: 'a word)) = length bs" using assms by simp
  fix i assume "i < length (le_store n (le_load bs :: 'a word))"
  then have i: "i < n" by simp
  show "le_store n (le_load bs :: 'a word) ! i = bs ! i"
  proof (rule bit_word_eqI)
    fix m assume "m < LENGTH(8)"
    then have m: "m < 8" by simp
    then have "(8 * i + m) div 8 = i" "(8 * i + m) mod 8 = m" "8 * i + m < 8 * n"
      using i by simp_all
    then show "bit (le_store n (le_load bs :: 'a word) ! i) m \<longleftrightarrow> bit (bs ! i) m"
      using assms i m by (simp add: bit_le_store le_load_def bit_le_load_at)
  qed
qed

section \<open>Ordered maps\<close>

text \<open>
  \<open>std::map\<close> iterates in key order and its contents are written in that order into every
  digest and every durable record, so the model keeps the iteration order: a map is the list of
  its entries with strictly increasing keys.
\<close>

type_synonym ('k, 'v) omap = "('k \<times> 'v) list"

definition wf_map :: "('k::linorder, 'v) omap \<Rightarrow> bool" where
  "wf_map m \<longleftrightarrow> sorted_wrt (<) (map fst m)"

definition map_keys :: "('k, 'v) omap \<Rightarrow> 'k set" where
  "map_keys m = fst ` set m"

definition map_find :: "'k \<Rightarrow> ('k, 'v) omap \<Rightarrow> 'v option" where
  "map_find k m = map_of m k"

text \<open>\<open>m[k] = v\<close>: replaces the entry or inserts it at its place.\<close>

fun map_set :: "'k::linorder \<Rightarrow> 'v \<Rightarrow> ('k, 'v) omap \<Rightarrow> ('k, 'v) omap" where
  "map_set k v [] = [(k, v)]"
| "map_set k v (e # m) =
     (if fst e < k then e # map_set k v m
      else if fst e = k then (k, v) # m
      else (k, v) # e # m)"

text \<open>\<open>m.emplace(k, v)\<close>: \<^const>\<open>None\<close> is the result \<open>.second == false\<close>, the key being taken.\<close>

definition map_emplace :: "'k::linorder \<Rightarrow> 'v \<Rightarrow> ('k, 'v) omap \<Rightarrow> ('k, 'v) omap option" where
  "map_emplace k v m = (if map_find k m = None then Some (map_set k v m) else None)"

definition map_erase :: "'k \<Rightarrow> ('k, 'v) omap \<Rightarrow> ('k, 'v) omap" where
  "map_erase k m = filter (\<lambda>e. fst e \<noteq> k) m"

lemma wf_map_Nil [simp]: "wf_map []"
  by (simp add: wf_map_def)

lemma wf_map_Cons [simp]: "wf_map (e # m) \<longleftrightarrow> (\<forall>x \<in> set m. fst e < fst x) \<and> wf_map m"
  by (simp add: wf_map_def)

lemma wf_map_append:
  "wf_map (m @ n) \<longleftrightarrow> wf_map m \<and> wf_map n \<and> (\<forall>x \<in> set m. \<forall>y \<in> set n. fst x < fst y)"
  by (auto simp: wf_map_def sorted_wrt_append)

lemma wf_map_sorted: "wf_map m \<Longrightarrow> sorted_wrt (<) (map fst m)"
  by (simp add: wf_map_def)

lemma wf_map_distinct: "wf_map m \<Longrightarrow> distinct (map fst m)"
  by (induction m) auto

lemma map_find_Nil [simp]: "map_find k [] = None"
  by (simp add: map_find_def)

lemma map_find_Cons [simp]: "map_find k (e # m) = (if fst e = k then Some (snd e) else map_find k m)"
  by (cases e) (simp add: map_find_def)

lemma map_find_None_iff: "map_find k m = None \<longleftrightarrow> k \<notin> map_keys m"
  by (auto simp: map_find_def map_keys_def map_of_eq_None_iff)

lemma map_find_mem: "map_find k m = Some v \<Longrightarrow> (k, v) \<in> set m"
  by (simp add: map_find_def map_of_SomeD)

lemma map_find_iff_mem: "wf_map m \<Longrightarrow> map_find k m = Some v \<longleftrightarrow> (k, v) \<in> set m"
  by (simp add: map_find_def wf_map_distinct map_of_eq_Some_iff)

lemma map_find_below: "wf_map (e # m) \<Longrightarrow> k < fst e \<Longrightarrow> map_find k m = None"
  by (auto simp: map_find_None_iff map_keys_def)

lemma set_map_set: "set (map_set k v m) \<subseteq> insert (k, v) (set m)"
  by (induction m) auto

lemma map_keys_set [simp]: "map_keys (map_set k v m) = insert k (map_keys m)"
  by (induction m) (auto simp: map_keys_def)

lemma wf_map_set: "wf_map m \<Longrightarrow> wf_map (map_set k v m)"
proof (induction m)
  case Nil
  then show ?case by simp
next
  case (Cons e m)
  then have "\<forall>x \<in> set (map_set k v m). fst e < k \<longrightarrow> fst e < fst x"
    using set_map_set [of k v m] by auto
  with Cons show ?case by auto
qed

lemma map_find_set [map_simps]:
  "map_find j (map_set k v m) = (if j = k then Some v else map_find j m)"
  by (induction m) auto

lemma wf_map_erase: "wf_map m \<Longrightarrow> wf_map (map_erase k m)"
  by (simp add: wf_map_def map_erase_def sorted_wrt_map sorted_wrt_filter)

lemma map_find_erase [map_simps]:
  "map_find j (map_erase k m) = (if j = k then None else map_find j m)"
  by (induction m) (auto simp: map_erase_def)

lemma length_map_set_le: "length (map_set k v m) \<le> Suc (length m)"
  by (induction m) auto

lemma map_set_at_end:
  "\<forall>x \<in> set m. fst x < k \<Longrightarrow> map_set k v m = m @ [(k, v)]"
  by (induction m) auto

text \<open>Two ordered maps with the same lookups are the same list of entries.\<close>

lemma omap_eqI:
  assumes "wf_map m" "wf_map n" "\<And>k. map_find k m = map_find k n"
  shows "m = n"
proof -
  have "set m = set n"
    using assms by (metis map_find_iff_mem subrelI subset_antisym)
  moreover have "sorted_wrt (\<lambda>x y. fst x < fst y) m" "sorted_wrt (\<lambda>x y. fst x < fst y) n"
    using assms(1,2) by (simp_all add: wf_map_def sorted_wrt_map)
  ultimately show ?thesis
  proof (induction m arbitrary: n)
    case Nil
    then show ?case by simp
  next
    case (Cons x m)
    then obtain y n' where n: "n = y # n'" by (cases n) auto
    have xy: "x = y"
    proof (rule ccontr)
      assume "x \<noteq> y"
      moreover have "insert x (set m) = insert y (set n')" using Cons.prems(1) n by simp
      ultimately have "x \<in> set n'" "y \<in> set m" by (metis insertE insertI1)+
      then have "fst y < fst x" "fst x < fst y" using Cons.prems(2,3) n by auto
      then show False by simp
    qed
    have "x \<notin> set m" "y \<notin> set n'" using Cons.prems n by auto
    with Cons.prems n xy have "set m = set n'" by (metis insert_ident list.simps(15))
    with Cons n xy show ?case by simp
  qed
qed

text \<open>
  The interface the clients of \<open>std::map\<close> rely on: what a lookup returns after each operation,
  and that each operation keeps the keys strictly sorted. \<open>entries\<close> is the iteration order.
\<close>

locale ordered_map =
  fixes find :: "'k::linorder \<Rightarrow> 'm \<Rightarrow> 'v option"
    and assign :: "'k \<Rightarrow> 'v \<Rightarrow> 'm \<Rightarrow> 'm"
    and erase :: "'k \<Rightarrow> 'm \<Rightarrow> 'm"
    and entries :: "'m \<Rightarrow> ('k \<times> 'v) list"
    and inv :: "'m \<Rightarrow> bool"
  assumes find_assign: "inv m \<Longrightarrow> find j (assign k v m) = (if j = k then Some v else find j m)"
    and find_erase: "inv m \<Longrightarrow> find j (erase k m) = (if j = k then None else find j m)"
    and find_entries: "inv m \<Longrightarrow> find k m = Some v \<longleftrightarrow> (k, v) \<in> set (entries m)"
    and entries_sorted: "inv m \<Longrightarrow> sorted_wrt (<) (map fst (entries m))"
    and inv_assign: "inv m \<Longrightarrow> inv (assign k v m)"
    and inv_erase: "inv m \<Longrightarrow> inv (erase k m)"
begin

lemma assign_same: "inv m \<Longrightarrow> find k (assign k v m) = Some v"
  by (simp add: find_assign)

lemma assign_keeps: "inv m \<Longrightarrow> j \<noteq> k \<Longrightarrow> find j (assign k v m) = find j m"
  by (simp add: find_assign)

lemma mem_assign:
  "inv m \<Longrightarrow> e \<in> set (entries (assign k v m)) \<longleftrightarrow>
     e = (k, v) \<or> (fst e \<noteq> k \<and> e \<in> set (entries m))"
  by (cases e) (auto simp: find_entries [symmetric] find_assign inv_assign)

lemma mem_erase:
  "inv m \<Longrightarrow> e \<in> set (entries (erase k m)) \<longleftrightarrow> fst e \<noteq> k \<and> e \<in> set (entries m)"
  by (cases e) (auto simp: find_entries [symmetric] find_erase inv_erase)

lemma assign_all:
  "inv m \<Longrightarrow> P k v \<Longrightarrow> \<forall>e \<in> set (entries m). P (fst e) (snd e) \<Longrightarrow>
     \<forall>e \<in> set (entries (assign k v m)). P (fst e) (snd e)"
  by (auto simp: mem_assign)

lemma erase_all:
  "inv m \<Longrightarrow> \<forall>e \<in> set (entries m). P (fst e) (snd e) \<Longrightarrow>
     \<forall>e \<in> set (entries (erase k m)). P (fst e) (snd e)"
  by (auto simp: mem_erase)

end

interpretation stdmap: ordered_map map_find map_set map_erase "\<lambda>m. m" wf_map
  by unfold_locales
    (simp_all add: map_find_set map_find_erase map_find_iff_mem wf_map_set wf_map_erase wf_map_sorted)

end
