(* ===== verification/Identity.thy ===== *)
theory Identity
  imports Prelude
begin

text \<open>
  \<open>identity.hpp\<close> and \<open>identity.cpp\<close>: validated textual identities, tagged counters and the
  128-bit incarnation and store identities. The C++ templates \<open>StringId<Tag>\<close> and
  \<open>Counter<Tag>\<close> are types with a phantom tag, so differently tagged quantities stay
  incomparable here too. Entropy (\<open>FillEntropy\<close>), clocks and process numbers are inputs of the
  operations that use them.
\<close>

section \<open>Textual identities\<close>

definition kMaxIdentityLength :: nat where
  "kMaxIdentityLength = 200"

definition IsAlphaNumeric :: "char \<Rightarrow> bool" where
  "IsAlphaNumeric c \<longleftrightarrow>
     (CHR ''a'' \<le> c \<and> c \<le> CHR ''z'') \<or> (CHR ''A'' \<le> c \<and> c \<le> CHR ''Z'') \<or>
     (CHR ''0'' \<le> c \<and> c \<le> CHR ''9'')"

definition IsSeparator :: "char \<Rightarrow> bool" where
  "IsSeparator c \<longleftrightarrow> c = CHR ''.'' \<or> c = CHR ''_'' \<or> c = CHR ''-'' \<or> c = CHR ''/'' \<or> c = CHR '':''"

text \<open>The character loop, with the previous character as its state.\<close>

fun identity_chars_ok :: "char \<Rightarrow> string \<Rightarrow> bool" where
  "identity_chars_ok previous [] = True"
| "identity_chars_ok previous (c # cs) =
     (if c = CHR 0x00 \<or> c = CHR 0x5C then False
      else if byte_of_char c < 0x20 \<or> byte_of_char c = 0x7f then False
      else if \<not> IsSeparator c \<and> \<not> IsAlphaNumeric c then False
      else if IsSeparator c \<and> IsSeparator previous then False
      else identity_chars_ok c cs)"

text \<open>The component loop: splits at \<open>/\<close> and refuses \<open>.\<close> and \<open>..\<close>.\<close>

function no_traversal_component :: "string \<Rightarrow> bool" where
  "no_traversal_component t =
     (let component = takeWhile (\<lambda>c. c \<noteq> CHR ''/'') t;
          after = dropWhile (\<lambda>c. c \<noteq> CHR ''/'') t
      in if component = ''.'' \<or> component = ''..'' then False
         else case after of [] \<Rightarrow> True | _ # rest \<Rightarrow> no_traversal_component rest)"
  by pat_completeness auto
termination
proof (relation "measure length", goal_cases)
  case (2 t component after c rest)
  have "length (dropWhile (\<lambda>c. c \<noteq> CHR ''/'') t) \<le> length t"
    by (rule length_dropWhile_le)
  moreover have "length (dropWhile (\<lambda>c. c \<noteq> CHR ''/'') t) = Suc (length rest)"
    using 2 by (metis length_Cons)
  ultimately show ?case by simp
qed simp

declare no_traversal_component.simps [simp del]

definition IsValidIdentityText :: "string \<Rightarrow> bool" where
  "IsValidIdentityText t =
     (if t = [] \<or> length t > kMaxIdentityLength then False
      else if hd t = CHR ''/'' \<or> hd t = CHR ''.'' \<or> last t = CHR ''/'' \<or> last t = CHR ''.'' then False
      else if \<not> identity_chars_ok (CHR 0x00) t then False
      else no_traversal_component t)"

datatype 'tag string_id = StringId (str: string)

definition id_empty :: "'tag string_id \<Rightarrow> bool" where
  "id_empty i \<longleftrightarrow> str i = []"

definition TryParseId :: "string \<Rightarrow> 'tag string_id option" where
  "TryParseId t = (if \<not> IsValidIdentityText t then None else Some (StringId t))"

text \<open>The \<open>operator<=>\<close> of the class: identities are ordered as their texts.\<close>

instantiation string_id :: (type) linorder
begin

definition less_eq_string_id :: "'a string_id \<Rightarrow> 'a string_id \<Rightarrow> bool" where
  "less_eq_string_id i j \<longleftrightarrow> str i \<le> str j"

definition less_string_id :: "'a string_id \<Rightarrow> 'a string_id \<Rightarrow> bool" where
  "less_string_id i j \<longleftrightarrow> str i < str j"

instance
  by standard
    (auto simp: less_eq_string_id_def less_string_id_def string_id.expand)

end

datatype ScopeIdTag = ScopeIdTag
datatype SubjectIdTag = SubjectIdTag
datatype AttributeKeyTag = AttributeKeyTag
datatype ReporterIdTag = ReporterIdTag
datatype PolicyIdTag = PolicyIdTag
datatype DefinitionIdTag = DefinitionIdTag
datatype ObservationIdTag = ObservationIdTag
datatype IntentIdTag = IntentIdTag
datatype FenceIdTag = FenceIdTag

type_synonym ScopeId = "ScopeIdTag string_id"
type_synonym SubjectId = "SubjectIdTag string_id"
type_synonym AttributeKey = "AttributeKeyTag string_id"
type_synonym ReporterId = "ReporterIdTag string_id"
type_synonym PolicyId = "PolicyIdTag string_id"
type_synonym DefinitionId = "DefinitionIdTag string_id"
type_synonym ObservationId = "ObservationIdTag string_id"
type_synonym IntentId = "IntentIdTag string_id"
type_synonym FenceId = "FenceIdTag string_id"

text \<open>
  A \<open>StringId\<close> can only be built by \<open>TryParse\<close> or as the empty default: every identity of a
  running program is valid or empty. The first predicate is the one decoders establish.
\<close>

definition valid_id :: "'tag string_id \<Rightarrow> bool" where
  "valid_id i \<longleftrightarrow> IsValidIdentityText (str i)"

definition wf_id :: "'tag string_id \<Rightarrow> bool" where
  "wf_id i \<longleftrightarrow> id_empty i \<or> valid_id i"

lemma TryParseId_str [simp]: "valid_id i \<Longrightarrow> TryParseId (str i) = Some i"
  by (simp add: TryParseId_def valid_id_def)

lemma TryParseId_eq_Some: "TryParseId t = Some i \<longleftrightarrow> IsValidIdentityText t \<and> i = StringId t"
  by (auto simp: TryParseId_def)

lemma TryParseId_SomeD [dest]: "TryParseId t = Some i \<Longrightarrow> valid_id i \<and> str i = t"
  by (auto simp: TryParseId_eq_Some valid_id_def)

lemma valid_id_length: "valid_id i \<Longrightarrow> length (str i) \<le> kMaxIdentityLength"
  by (auto simp: valid_id_def IsValidIdentityText_def split: if_splits)

lemma valid_id_nonempty: "valid_id i \<Longrightarrow> \<not> id_empty i"
  by (auto simp: valid_id_def id_empty_def IsValidIdentityText_def)

lemma wf_id_cases: "wf_id i \<Longrightarrow> str i = [] \<or> valid_id i"
  by (auto simp: wf_id_def id_empty_def)

lemma wf_id_length: "wf_id i \<Longrightarrow> length (str i) \<le> kMaxIdentityLength"
  by (auto simp: wf_id_def id_empty_def dest: valid_id_length)

section \<open>Counters\<close>

datatype 'tag counter = Counter (cval: u64)

definition TryNext :: "'tag counter \<Rightarrow> 'tag counter option" where
  "TryNext c = (if cval c = - 1 then None else Some (Counter (cval c + 1)))"

text \<open>The \<open>operator<=>\<close> of the class: counters are ordered as their values.\<close>

instantiation counter :: (type) linorder
begin

definition less_eq_counter :: "'a counter \<Rightarrow> 'a counter \<Rightarrow> bool" where
  "less_eq_counter c d \<longleftrightarrow> cval c \<le> cval d"

definition less_counter :: "'a counter \<Rightarrow> 'a counter \<Rightarrow> bool" where
  "less_counter c d \<longleftrightarrow> cval c < cval d"

instance
  by standard (auto simp: less_eq_counter_def less_counter_def counter.expand)

end

datatype IntentGenerationTag = IntentGenerationTag
datatype ObservationGenerationTag = ObservationGenerationTag
datatype CoordinatorEpochTag = CoordinatorEpochTag
datatype PolicyVersionTag = PolicyVersionTag
datatype RecordSequenceTag = RecordSequenceTag
datatype AttemptIdTag = AttemptIdTag

type_synonym IntentGeneration = "IntentGenerationTag counter"
type_synonym ObservationGeneration = "ObservationGenerationTag counter"
type_synonym CoordinatorEpoch = "CoordinatorEpochTag counter"
type_synonym PolicyVersion = "PolicyVersionTag counter"
type_synonym RecordSequence = "RecordSequenceTag counter"
type_synonym AttemptId = "AttemptIdTag counter"
type_synonym UnixMillis = i64

lemma TryNext_Some: "TryNext c = Some d \<Longrightarrow> unat (cval d) = unat (cval c) + 1 \<and> c < d"
proof -
  assume "TryNext c = Some d"
  then have ne: "cval c \<noteq> - 1" and d: "d = Counter (cval c + 1)"
    by (auto simp: TryNext_def split: if_splits)
  then have "unat (cval c + 1) = Suc (unat (cval c))"
    by (metis add.commute add_eq_0_iff unatSuc)
  with d show ?thesis by (simp add: less_counter_def word_less_nat_alt)
qed

section \<open>Incarnation and store identities\<close>

datatype BootId = BootId (boot_bytes: bytes)
datatype StoreId = StoreId (store_bytes: bytes)

definition wf_boot :: "BootId \<Rightarrow> bool" where
  "wf_boot b \<longleftrightarrow> length (boot_bytes b) = 16"

definition wf_store_id :: "StoreId \<Rightarrow> bool" where
  "wf_store_id s \<longleftrightarrow> length (store_bytes s) = 16"

definition store_id_is_zero :: "StoreId \<Rightarrow> bool" where
  "store_id_is_zero s = list_all (\<lambda>b. b = 0) (store_bytes s)"

definition kDigits :: string where
  "kDigits = ''0123456789abcdef''"

fun HexOf :: "bytes \<Rightarrow> string" where
  "HexOf [] = []"
| "HexOf (b # bs) =
     kDigits ! unat (drop_bit 4 b AND 0x0f) # kDigits ! unat (b AND 0x0f) # HexOf bs"

lemma length_HexOf [simp]: "length (HexOf bs) = 2 * length bs"
  by (induction bs) auto

section \<open>What a valid identity is\<close>

text \<open>
  The accepted texts, without the two loops: bounded, non-empty, only letters, digits and
  separators, no two adjacent separators, and no leading or trailing slash or dot. The
  path-traversal loop never rejects a text the other checks accept.
\<close>

definition identity_spec :: "string \<Rightarrow> bool" where
  "identity_spec t \<longleftrightarrow>
     0 < length t \<and> length t \<le> kMaxIdentityLength \<and>
     hd t \<notin> {CHR ''/'', CHR ''.''} \<and> last t \<notin> {CHR ''/'', CHR ''.''} \<and>
     (\<forall>c \<in> set t. IsAlphaNumeric c \<or> IsSeparator c) \<and>
     successively (\<lambda>a b. \<not> (IsSeparator a \<and> IsSeparator b)) t"

lemma identity_char_printable:
  "IsAlphaNumeric c \<or> IsSeparator c \<Longrightarrow>
     c \<noteq> CHR 0x00 \<and> c \<noteq> CHR 0x5C \<and> \<not> byte_of_char c < 0x20 \<and> byte_of_char c \<noteq> 0x7f"
  by (auto simp: IsAlphaNumeric_def IsSeparator_def less_eq_char_def word_less_nat_alt
      word_unat_eq_iff unat_byte_of_char)

lemma identity_chars_ok_iff:
  "identity_chars_ok p t \<longleftrightarrow>
     (\<forall>c \<in> set t. IsAlphaNumeric c \<or> IsSeparator c) \<and>
     successively (\<lambda>a b. \<not> (IsSeparator a \<and> IsSeparator b)) (p # t)"
proof (induction p t rule: identity_chars_ok.induct)
  case (1 p)
  show ?case by simp
next
  case (2 p c cs)
  show ?case
  proof (cases "IsAlphaNumeric c \<or> IsSeparator c")
    case True
    note printable = identity_char_printable [OF True]
    have step: "identity_chars_ok p (c # cs) \<longleftrightarrow>
        \<not> (IsSeparator c \<and> IsSeparator p) \<and> identity_chars_ok c cs"
      using True printable by (simp only: identity_chars_ok.simps) auto
    show ?thesis
      using True printable "2.IH" unfolding step by (cases "IsSeparator c \<and> IsSeparator p") auto
  next
    case False
    then show ?thesis by simp
  qed
qed

lemma no_traversal_if_spaced:
  assumes "t \<noteq> []" "hd t \<noteq> CHR ''.''" "last t \<noteq> CHR ''/''"
    "successively (\<lambda>a b. \<not> (IsSeparator a \<and> IsSeparator b)) t"
  shows "no_traversal_component t"
  using assms
proof (induction t rule: no_traversal_component.induct)
  case (1 t)
  let ?p = "\<lambda>c. c \<noteq> CHR ''/''"
  have split: "t = takeWhile ?p t @ dropWhile ?p t" by simp
  then have dot: "takeWhile ?p t \<noteq> ''.''" "takeWhile ?p t \<noteq> ''..''"
    using "1.prems"(2) by (metis append_Cons list.sel(1))+
  show ?case
  proof (cases "dropWhile ?p t")
    case Nil
    show ?thesis
      unfolding no_traversal_component.simps [of t] Let_def Nil list.case using dot by simp
  next
    case (Cons c rest)
    have "dropWhile ?p t \<noteq> []" unfolding Cons by simp
    from hd_dropWhile [OF this] have c: "c = CHR ''/''" unfolding Cons by simp
    obtain pre where t: "t = pre @ c # rest" using split unfolding Cons by blast
    have "rest \<noteq> []" using "1.prems"(3) unfolding t c by auto
    moreover from this have "last rest \<noteq> CHR ''/''"
      using "1.prems"(3) unfolding t by simp
    moreover have sp: "successively (\<lambda>a b. \<not> (IsSeparator a \<and> IsSeparator b)) (c # rest)"
      using "1.prems"(4) unfolding t successively_append_iff by blast
    moreover have "hd rest \<noteq> CHR ''.''"
      using sp c calculation(1) by (cases rest) (auto simp: IsSeparator_def)
    ultimately have "no_traversal_component rest"
      using "1.IH" [OF refl refl _ Cons] dot by (cases rest) auto
    then show ?thesis
      unfolding no_traversal_component.simps [of t] Let_def Cons list.case using dot by simp
  qed
qed

lemma successively_from_null:
  "successively (\<lambda>a b. \<not> (IsSeparator a \<and> IsSeparator b)) (CHR 0x00 # t) =
   successively (\<lambda>a b. \<not> (IsSeparator a \<and> IsSeparator b)) t"
  by (cases t) (simp_all add: IsSeparator_def)

lemma IsValidIdentityText_iff: "IsValidIdentityText t \<longleftrightarrow> identity_spec t"
proof (cases "t = []")
  case True
  then show ?thesis by (simp add: IsValidIdentityText_def identity_spec_def)
next
  case False
  then show ?thesis
    using no_traversal_if_spaced [of t]
    by (auto simp only: IsValidIdentityText_def identity_spec_def identity_chars_ok_iff
        successively_from_null length_greater_0_conv insert_iff empty_iff not_less
        split: if_splits)
qed

end
