(* ===== verification/Status_Model.thy ===== *)
theory Status_Model
  imports Identity
begin

text \<open>
  \<open>status.hpp\<close>, \<open>status.cpp\<close> and \<open>limits.hpp\<close>: the outcome vocabulary and the resource
  envelope. A reason is the 16-bit code the enumeration fixes: the decoders cast any number up to
  803 to \<open>ReasonCode\<close>, so the type is the underlying integer and the enumerators name its values.
  The free-text detail of a \<open>Status\<close> never decides a branch and is not carried.
\<close>

section \<open>Status codes\<close>

datatype StatusCode = Code_Ok | Code_Rejected | Code_ConflictState | Code_NotFound
  | Code_StaleAuthority | Code_LimitExceeded | Code_IntegrityFailure | Code_Unsupported
  | Code_Indeterminate | Code_PreconditionFailed | Code_InternalError

fun StatusCode_text :: "StatusCode \<Rightarrow> string" where
  "StatusCode_text Code_Ok = ''OK''"
| "StatusCode_text Code_Rejected = ''REJECTED''"
| "StatusCode_text Code_ConflictState = ''CONFLICT''"
| "StatusCode_text Code_NotFound = ''NOT_FOUND''"
| "StatusCode_text Code_StaleAuthority = ''STALE_AUTHORITY''"
| "StatusCode_text Code_LimitExceeded = ''LIMIT_EXCEEDED''"
| "StatusCode_text Code_IntegrityFailure = ''INTEGRITY_FAILURE''"
| "StatusCode_text Code_Unsupported = ''UNSUPPORTED''"
| "StatusCode_text Code_Indeterminate = ''INDETERMINATE''"
| "StatusCode_text Code_PreconditionFailed = ''PRECONDITION_FAILED''"
| "StatusCode_text Code_InternalError = ''INTERNAL_ERROR''"

section \<open>Reason codes\<close>

type_synonym ReasonCode = u16

abbreviation Reason_None :: ReasonCode where "Reason_None \<equiv> 0"
abbreviation Reason_ClassifiedAlreadyConverged :: ReasonCode where "Reason_ClassifiedAlreadyConverged \<equiv> 100"
abbreviation Reason_ClassifiedSubjectMissing :: ReasonCode where "Reason_ClassifiedSubjectMissing \<equiv> 101"
abbreviation Reason_ClassifiedSubjectUnexpected :: ReasonCode where "Reason_ClassifiedSubjectUnexpected \<equiv> 102"
abbreviation Reason_ClassifiedAttributeMismatch :: ReasonCode where "Reason_ClassifiedAttributeMismatch \<equiv> 103"
abbreviation Reason_ClassifiedAttributeMissing :: ReasonCode where "Reason_ClassifiedAttributeMissing \<equiv> 104"
abbreviation Reason_ClassifiedAttributeUnexpected :: ReasonCode where "Reason_ClassifiedAttributeUnexpected \<equiv> 105"
abbreviation Reason_ClassifiedAttributeNotComparable :: ReasonCode where "Reason_ClassifiedAttributeNotComparable \<equiv> 106"
abbreviation Reason_ObservationExpired :: ReasonCode where "Reason_ObservationExpired \<equiv> 200"
abbreviation Reason_ObservationForeignEpoch :: ReasonCode where "Reason_ObservationForeignEpoch \<equiv> 201"
abbreviation Reason_ObservationClockRegression :: ReasonCode where "Reason_ObservationClockRegression \<equiv> 202"
abbreviation Reason_ObservationGenerationRegressed :: ReasonCode where "Reason_ObservationGenerationRegressed \<equiv> 203"
abbreviation Reason_IntentGenerationRegressed :: ReasonCode where "Reason_IntentGenerationRegressed \<equiv> 204"
abbreviation Reason_DuplicateObservationIdentical :: ReasonCode where "Reason_DuplicateObservationIdentical \<equiv> 205"
abbreviation Reason_DuplicateIntentIdentical :: ReasonCode where "Reason_DuplicateIntentIdentical \<equiv> 206"
abbreviation Reason_ConflictingRepublishers :: ReasonCode where "Reason_ConflictingRepublishers \<equiv> 207"
abbreviation Reason_NoObservationForScope :: ReasonCode where "Reason_NoObservationForScope \<equiv> 208"
abbreviation Reason_NoIntentForScope :: ReasonCode where "Reason_NoIntentForScope \<equiv> 209"
abbreviation Reason_ObservationCoverageIncomplete :: ReasonCode where "Reason_ObservationCoverageIncomplete \<equiv> 220"
abbreviation Reason_IntentCoverageIncomplete :: ReasonCode where "Reason_IntentCoverageIncomplete \<equiv> 221"
abbreviation Reason_ObservationCannotAssertAbsence :: ReasonCode where "Reason_ObservationCannotAssertAbsence \<equiv> 222"
abbreviation Reason_AttributeCoverageIncomplete :: ReasonCode where "Reason_AttributeCoverageIncomplete \<equiv> 223"
abbreviation Reason_AttributeNotManagedByPolicy :: ReasonCode where "Reason_AttributeNotManagedByPolicy \<equiv> 224"
abbreviation Reason_AuthorityProven :: ReasonCode where "Reason_AuthorityProven \<equiv> 300"
abbreviation Reason_AuthorityEpochMismatch :: ReasonCode where "Reason_AuthorityEpochMismatch \<equiv> 301"
abbreviation Reason_AuthorityBootMismatch :: ReasonCode where "Reason_AuthorityBootMismatch \<equiv> 302"
abbreviation Reason_AuthorityPolicyMismatch :: ReasonCode where "Reason_AuthorityPolicyMismatch \<equiv> 303"
abbreviation Reason_AuthorityIntentGenerationMismatch :: ReasonCode where "Reason_AuthorityIntentGenerationMismatch \<equiv> 304"
abbreviation Reason_AuthorityObservationGenerationMismatch :: ReasonCode where "Reason_AuthorityObservationGenerationMismatch \<equiv> 305"
abbreviation Reason_AuthorityDefinitionMismatch :: ReasonCode where "Reason_AuthorityDefinitionMismatch \<equiv> 306"
abbreviation Reason_ScopeFenced :: ReasonCode where "Reason_ScopeFenced \<equiv> 310"
abbreviation Reason_SubjectFenced :: ReasonCode where "Reason_SubjectFenced \<equiv> 311"
abbreviation Reason_FenceEpochNotNewer :: ReasonCode where "Reason_FenceEpochNotNewer \<equiv> 312"
abbreviation Reason_AttemptInterruptedByRestart :: ReasonCode where "Reason_AttemptInterruptedByRestart \<equiv> 313"
abbreviation Reason_AttemptFencedByEpochAdvance :: ReasonCode where "Reason_AttemptFencedByEpochAdvance \<equiv> 314"
abbreviation Reason_ActionEligible :: ReasonCode where "Reason_ActionEligible \<equiv> 400"
abbreviation Reason_ActionNotRequired :: ReasonCode where "Reason_ActionNotRequired \<equiv> 401"
abbreviation Reason_PolicyForbidsApplyMissing :: ReasonCode where "Reason_PolicyForbidsApplyMissing \<equiv> 402"
abbreviation Reason_PolicyForbidsApplyMismatch :: ReasonCode where "Reason_PolicyForbidsApplyMismatch \<equiv> 403"
abbreviation Reason_PolicyForbidsWithdrawUnexpected :: ReasonCode where "Reason_PolicyForbidsWithdrawUnexpected \<equiv> 404"
abbreviation Reason_DriftIsIndeterminate :: ReasonCode where "Reason_DriftIsIndeterminate \<equiv> 405"
abbreviation Reason_DriftIsConflicted :: ReasonCode where "Reason_DriftIsConflicted \<equiv> 406"
abbreviation Reason_SubjectKindUnsupported :: ReasonCode where "Reason_SubjectKindUnsupported \<equiv> 407"
abbreviation Reason_PlanActionLimitReached :: ReasonCode where "Reason_PlanActionLimitReached \<equiv> 408"
abbreviation Reason_PlanTruncated :: ReasonCode where "Reason_PlanTruncated \<equiv> 409"
abbreviation Reason_UnsupportedInput :: ReasonCode where "Reason_UnsupportedInput \<equiv> 410"
abbreviation Reason_MalformedPayload :: ReasonCode where "Reason_MalformedPayload \<equiv> 411"
abbreviation Reason_JournalHeaderInvalid :: ReasonCode where "Reason_JournalHeaderInvalid \<equiv> 500"
abbreviation Reason_JournalVersionUnsupported :: ReasonCode where "Reason_JournalVersionUnsupported \<equiv> 501"
abbreviation Reason_JournalRecordDigestMismatch :: ReasonCode where "Reason_JournalRecordDigestMismatch \<equiv> 502"
abbreviation Reason_JournalSequenceRegression :: ReasonCode where "Reason_JournalSequenceRegression \<equiv> 503"
abbreviation Reason_JournalTornTailRecovered :: ReasonCode where "Reason_JournalTornTailRecovered \<equiv> 504"
abbreviation Reason_JournalTrailingGarbage :: ReasonCode where "Reason_JournalTrailingGarbage \<equiv> 505"
abbreviation Reason_JournalPayloadLengthInvalid :: ReasonCode where "Reason_JournalPayloadLengthInvalid \<equiv> 506"
abbreviation Reason_JournalRecordTypeUnknown :: ReasonCode where "Reason_JournalRecordTypeUnknown \<equiv> 507"
abbreviation Reason_JournalEnumInvalid :: ReasonCode where "Reason_JournalEnumInvalid \<equiv> 508"
abbreviation Reason_SnapshotDigestMismatch :: ReasonCode where "Reason_SnapshotDigestMismatch \<equiv> 509"
abbreviation Reason_SnapshotStoreMismatch :: ReasonCode where "Reason_SnapshotStoreMismatch \<equiv> 510"
abbreviation Reason_SnapshotAheadOfJournal :: ReasonCode where "Reason_SnapshotAheadOfJournal \<equiv> 511"
abbreviation Reason_DurableWriteFailed :: ReasonCode where "Reason_DurableWriteFailed \<equiv> 512"
abbreviation Reason_SnapshotReplacementFailed :: ReasonCode where "Reason_SnapshotReplacementFailed \<equiv> 513"
abbreviation Reason_FrameMagicInvalid :: ReasonCode where "Reason_FrameMagicInvalid \<equiv> 600"
abbreviation Reason_FrameVersionUnsupported :: ReasonCode where "Reason_FrameVersionUnsupported \<equiv> 601"
abbreviation Reason_FrameTypeUnknown :: ReasonCode where "Reason_FrameTypeUnknown \<equiv> 602"
abbreviation Reason_FramePayloadTooLarge :: ReasonCode where "Reason_FramePayloadTooLarge \<equiv> 603"
abbreviation Reason_FrameDigestMismatch :: ReasonCode where "Reason_FrameDigestMismatch \<equiv> 604"
abbreviation Reason_FrameTruncated :: ReasonCode where "Reason_FrameTruncated \<equiv> 605"
abbreviation Reason_FrameTrailingBytes :: ReasonCode where "Reason_FrameTrailingBytes \<equiv> 606"
abbreviation Reason_SessionUnknown :: ReasonCode where "Reason_SessionUnknown \<equiv> 607"
abbreviation Reason_SessionIdentityMismatch :: ReasonCode where "Reason_SessionIdentityMismatch \<equiv> 608"
abbreviation Reason_SessionEpochMismatch :: ReasonCode where "Reason_SessionEpochMismatch \<equiv> 609"
abbreviation Reason_SessionBootMismatch :: ReasonCode where "Reason_SessionBootMismatch \<equiv> 610"
abbreviation Reason_SessionSequenceRegression :: ReasonCode where "Reason_SessionSequenceRegression \<equiv> 611"
abbreviation Reason_SessionLimitReached :: ReasonCode where "Reason_SessionLimitReached \<equiv> 612"
abbreviation Reason_SessionClosed :: ReasonCode where "Reason_SessionClosed \<equiv> 613"
abbreviation Reason_AttemptIssued :: ReasonCode where "Reason_AttemptIssued \<equiv> 700"
abbreviation Reason_AttemptAcknowledged :: ReasonCode where "Reason_AttemptAcknowledged \<equiv> 701"
abbreviation Reason_AttemptApplied :: ReasonCode where "Reason_AttemptApplied \<equiv> 702"
abbreviation Reason_AttemptVerified :: ReasonCode where "Reason_AttemptVerified \<equiv> 703"
abbreviation Reason_AttemptFailed :: ReasonCode where "Reason_AttemptFailed \<equiv> 704"
abbreviation Reason_AttemptAbandoned :: ReasonCode where "Reason_AttemptAbandoned \<equiv> 705"
abbreviation Reason_AttemptSuperseded :: ReasonCode where "Reason_AttemptSuperseded \<equiv> 706"
abbreviation Reason_AttemptTerminalAlready :: ReasonCode where "Reason_AttemptTerminalAlready \<equiv> 707"
abbreviation Reason_AttemptUnknown :: ReasonCode where "Reason_AttemptUnknown \<equiv> 708"
abbreviation Reason_AttemptTransitionIllegal :: ReasonCode where "Reason_AttemptTransitionIllegal \<equiv> 709"
abbreviation Reason_VerificationNotIndependent :: ReasonCode where "Reason_VerificationNotIndependent \<equiv> 710"
abbreviation Reason_VerificationNotNewer :: ReasonCode where "Reason_VerificationNotNewer \<equiv> 711"
abbreviation Reason_ReconciliationOutcomeCommitted :: ReasonCode where "Reason_ReconciliationOutcomeCommitted \<equiv> 712"
abbreviation Reason_RestartEpochAdvanced :: ReasonCode where "Reason_RestartEpochAdvanced \<equiv> 800"
abbreviation Reason_RestartFreshnessNotRestored :: ReasonCode where "Reason_RestartFreshnessNotRestored \<equiv> 801"
abbreviation Reason_RestartAttemptsFenced :: ReasonCode where "Reason_RestartAttemptsFenced \<equiv> 802"
abbreviation Reason_RestartLeasesNotRestored :: ReasonCode where "Reason_RestartLeasesNotRestored \<equiv> 803"

definition reason_table :: "(ReasonCode \<times> string) list" where
  "reason_table =
    [(Reason_None, ''NONE''),
     (Reason_ClassifiedAlreadyConverged, ''ALREADY_CONVERGED''),
     (Reason_ClassifiedSubjectMissing, ''SUBJECT_MISSING''),
     (Reason_ClassifiedSubjectUnexpected, ''SUBJECT_UNEXPECTED''),
     (Reason_ClassifiedAttributeMismatch, ''ATTRIBUTE_MISMATCH''),
     (Reason_ClassifiedAttributeMissing, ''ATTRIBUTE_MISSING''),
     (Reason_ClassifiedAttributeUnexpected, ''ATTRIBUTE_UNEXPECTED''),
     (Reason_ClassifiedAttributeNotComparable, ''ATTRIBUTE_NOT_COMPARABLE''),
     (Reason_ObservationExpired, ''OBSERVATION_EXPIRED''),
     (Reason_ObservationForeignEpoch, ''OBSERVATION_FOREIGN_EPOCH''),
     (Reason_ObservationClockRegression, ''OBSERVATION_CLOCK_REGRESSION''),
     (Reason_ObservationGenerationRegressed, ''OBSERVATION_GENERATION_REGRESSED''),
     (Reason_IntentGenerationRegressed, ''INTENT_GENERATION_REGRESSED''),
     (Reason_DuplicateObservationIdentical, ''DUPLICATE_OBSERVATION_IDENTICAL''),
     (Reason_DuplicateIntentIdentical, ''DUPLICATE_INTENT_IDENTICAL''),
     (Reason_ConflictingRepublishers, ''CONFLICTING_REPUBLISHERS''),
     (Reason_NoObservationForScope, ''NO_OBSERVATION_FOR_SCOPE''),
     (Reason_NoIntentForScope, ''NO_INTENT_FOR_SCOPE''),
     (Reason_ObservationCoverageIncomplete, ''OBSERVATION_COVERAGE_INCOMPLETE''),
     (Reason_IntentCoverageIncomplete, ''INTENT_COVERAGE_INCOMPLETE''),
     (Reason_ObservationCannotAssertAbsence, ''OBSERVATION_CANNOT_ASSERT_ABSENCE''),
     (Reason_AttributeCoverageIncomplete, ''ATTRIBUTE_COVERAGE_INCOMPLETE''),
     (Reason_AttributeNotManagedByPolicy, ''ATTRIBUTE_NOT_MANAGED_BY_POLICY''),
     (Reason_AuthorityProven, ''AUTHORITY_PROVEN''),
     (Reason_AuthorityEpochMismatch, ''AUTHORITY_EPOCH_MISMATCH''),
     (Reason_AuthorityBootMismatch, ''AUTHORITY_BOOT_MISMATCH''),
     (Reason_AuthorityPolicyMismatch, ''AUTHORITY_POLICY_MISMATCH''),
     (Reason_AuthorityIntentGenerationMismatch, ''AUTHORITY_INTENT_GENERATION_MISMATCH''),
     (Reason_AuthorityObservationGenerationMismatch, ''AUTHORITY_OBSERVATION_GENERATION_MISMATCH''),
     (Reason_AuthorityDefinitionMismatch, ''AUTHORITY_DEFINITION_MISMATCH''),
     (Reason_ScopeFenced, ''SCOPE_FENCED''),
     (Reason_SubjectFenced, ''SUBJECT_FENCED''),
     (Reason_FenceEpochNotNewer, ''FENCE_EPOCH_NOT_NEWER''),
     (Reason_AttemptInterruptedByRestart, ''ATTEMPT_INTERRUPTED_BY_RESTART''),
     (Reason_AttemptFencedByEpochAdvance, ''ATTEMPT_FENCED_BY_EPOCH_ADVANCE''),
     (Reason_ActionEligible, ''ACTION_ELIGIBLE''),
     (Reason_ActionNotRequired, ''ACTION_NOT_REQUIRED''),
     (Reason_PolicyForbidsApplyMissing, ''POLICY_FORBIDS_APPLY_MISSING''),
     (Reason_PolicyForbidsApplyMismatch, ''POLICY_FORBIDS_APPLY_MISMATCH''),
     (Reason_PolicyForbidsWithdrawUnexpected, ''POLICY_FORBIDS_WITHDRAW_UNEXPECTED''),
     (Reason_DriftIsIndeterminate, ''DRIFT_IS_INDETERMINATE''),
     (Reason_DriftIsConflicted, ''DRIFT_IS_CONFLICTED''),
     (Reason_SubjectKindUnsupported, ''SUBJECT_KIND_UNSUPPORTED''),
     (Reason_PlanActionLimitReached, ''PLAN_ACTION_LIMIT_REACHED''),
     (Reason_PlanTruncated, ''PLAN_TRUNCATED''),
     (Reason_UnsupportedInput, ''UNSUPPORTED_INPUT''),
     (Reason_MalformedPayload, ''MALFORMED_PAYLOAD''),
     (Reason_JournalHeaderInvalid, ''JOURNAL_HEADER_INVALID''),
     (Reason_JournalVersionUnsupported, ''JOURNAL_VERSION_UNSUPPORTED''),
     (Reason_JournalRecordDigestMismatch, ''JOURNAL_RECORD_DIGEST_MISMATCH''),
     (Reason_JournalSequenceRegression, ''JOURNAL_SEQUENCE_REGRESSION''),
     (Reason_JournalTornTailRecovered, ''JOURNAL_TORN_TAIL_RECOVERED''),
     (Reason_JournalTrailingGarbage, ''JOURNAL_TRAILING_GARBAGE''),
     (Reason_JournalPayloadLengthInvalid, ''JOURNAL_PAYLOAD_LENGTH_INVALID''),
     (Reason_JournalRecordTypeUnknown, ''JOURNAL_RECORD_TYPE_UNKNOWN''),
     (Reason_JournalEnumInvalid, ''JOURNAL_ENUM_INVALID''),
     (Reason_SnapshotDigestMismatch, ''SNAPSHOT_DIGEST_MISMATCH''),
     (Reason_SnapshotStoreMismatch, ''SNAPSHOT_STORE_MISMATCH''),
     (Reason_SnapshotAheadOfJournal, ''SNAPSHOT_AHEAD_OF_JOURNAL''),
     (Reason_DurableWriteFailed, ''DURABLE_WRITE_FAILED''),
     (Reason_SnapshotReplacementFailed, ''SNAPSHOT_REPLACEMENT_FAILED''),
     (Reason_FrameMagicInvalid, ''FRAME_MAGIC_INVALID''),
     (Reason_FrameVersionUnsupported, ''FRAME_VERSION_UNSUPPORTED''),
     (Reason_FrameTypeUnknown, ''FRAME_TYPE_UNKNOWN''),
     (Reason_FramePayloadTooLarge, ''FRAME_PAYLOAD_TOO_LARGE''),
     (Reason_FrameDigestMismatch, ''FRAME_DIGEST_MISMATCH''),
     (Reason_FrameTruncated, ''FRAME_TRUNCATED''),
     (Reason_FrameTrailingBytes, ''FRAME_TRAILING_BYTES''),
     (Reason_SessionUnknown, ''SESSION_UNKNOWN''),
     (Reason_SessionIdentityMismatch, ''SESSION_IDENTITY_MISMATCH''),
     (Reason_SessionEpochMismatch, ''SESSION_EPOCH_MISMATCH''),
     (Reason_SessionBootMismatch, ''SESSION_BOOT_MISMATCH''),
     (Reason_SessionSequenceRegression, ''SESSION_SEQUENCE_REGRESSION''),
     (Reason_SessionLimitReached, ''SESSION_LIMIT_REACHED''),
     (Reason_SessionClosed, ''SESSION_CLOSED''),
     (Reason_AttemptIssued, ''ATTEMPT_ISSUED''),
     (Reason_AttemptAcknowledged, ''ATTEMPT_ACKNOWLEDGED''),
     (Reason_AttemptApplied, ''ATTEMPT_APPLIED''),
     (Reason_AttemptVerified, ''ATTEMPT_VERIFIED''),
     (Reason_AttemptFailed, ''ATTEMPT_FAILED''),
     (Reason_AttemptAbandoned, ''ATTEMPT_ABANDONED''),
     (Reason_AttemptSuperseded, ''ATTEMPT_SUPERSEDED''),
     (Reason_AttemptTerminalAlready, ''ATTEMPT_TERMINAL_ALREADY''),
     (Reason_AttemptUnknown, ''ATTEMPT_UNKNOWN''),
     (Reason_AttemptTransitionIllegal, ''ATTEMPT_TRANSITION_ILLEGAL''),
     (Reason_VerificationNotIndependent, ''VERIFICATION_NOT_INDEPENDENT''),
     (Reason_VerificationNotNewer, ''VERIFICATION_NOT_NEWER''),
     (Reason_ReconciliationOutcomeCommitted, ''RECONCILIATION_OUTCOME_COMMITTED''),
     (Reason_RestartEpochAdvanced, ''RESTART_EPOCH_ADVANCED''),
     (Reason_RestartFreshnessNotRestored, ''RESTART_FRESHNESS_NOT_RESTORED''),
     (Reason_RestartAttemptsFenced, ''RESTART_ATTEMPTS_FENCED''),
     (Reason_RestartLeasesNotRestored, ''RESTART_LEASES_NOT_RESTORED'')]"

definition ReasonCode_text :: "ReasonCode \<Rightarrow> string" where
  "ReasonCode_text r =
     (case map_of reason_table r of Some t \<Rightarrow> t | None \<Rightarrow> ''UNKNOWN_REASON'')"

definition IsDriftReason :: "ReasonCode \<Rightarrow> bool" where
  "IsDriftReason r \<longleftrightarrow> 100 \<le> r \<and> r < 200"

definition IsAuthorityReason :: "ReasonCode \<Rightarrow> bool" where
  "IsAuthorityReason r \<longleftrightarrow> 300 \<le> r \<and> r < 400"

section \<open>Status and Result\<close>

datatype Status = Status (status_code: StatusCode) (status_reason: ReasonCode)

text \<open>\<open>Result<T>\<close>: \<^const>\<open>Inl\<close> carries the failing status, \<^const>\<open>Inr\<close> the value.\<close>

type_synonym 'a Result = "Status + 'a"

abbreviation Status_Ok :: Status where
  "Status_Ok \<equiv> Status Code_Ok Reason_None"

definition status_ok :: "Status \<Rightarrow> bool" where
  "status_ok s \<longleftrightarrow> status_code s = Code_Ok"

lemma status_ok_Status [simp]: "status_ok (Status c r) \<longleftrightarrow> c = Code_Ok"
  by (simp add: status_ok_def)

definition Status_ToString :: "Status \<Rightarrow> string" where
  "Status_ToString s = StatusCode_text (status_code s) @ ''('' @ ReasonCode_text (status_reason s) @ '')''"

section \<open>Evidence class\<close>

datatype EvidenceClass = Evidence_Unknown | Evidence_Real | Evidence_Synthetic | Evidence_Unsupported

fun EvidenceClass_text :: "EvidenceClass \<Rightarrow> string" where
  "EvidenceClass_text Evidence_Unknown = ''UNKNOWN''"
| "EvidenceClass_text Evidence_Real = ''REAL''"
| "EvidenceClass_text Evidence_Synthetic = ''SYNTHETIC''"
| "EvidenceClass_text Evidence_Unsupported = ''UNSUPPORTED''"

definition TryParseEvidenceClass :: "string \<Rightarrow> EvidenceClass option" where
  "TryParseEvidenceClass t =
     (if t = ''REAL'' then Some Evidence_Real
      else if t = ''SYNTHETIC'' then Some Evidence_Synthetic
      else if t = ''UNSUPPORTED'' then Some Evidence_Unsupported
      else if t = ''UNKNOWN'' then Some Evidence_Unknown
      else None)"

text \<open>The underlying byte of the enumeration, and the cast behind a range check.\<close>

fun EvidenceClass_u8 :: "EvidenceClass \<Rightarrow> u8" where
  "EvidenceClass_u8 Evidence_Unknown = 0"
| "EvidenceClass_u8 Evidence_Real = 1"
| "EvidenceClass_u8 Evidence_Synthetic = 2"
| "EvidenceClass_u8 Evidence_Unsupported = 3"

definition EvidenceClass_of_u8 :: "u8 \<Rightarrow> EvidenceClass option" where
  "EvidenceClass_of_u8 b =
     (if b = 0 then Some Evidence_Unknown else if b = 1 then Some Evidence_Real
      else if b = 2 then Some Evidence_Synthetic else if b = 3 then Some Evidence_Unsupported
      else None)"

lemma EvidenceClass_of_u8_of [simp]: "EvidenceClass_of_u8 (EvidenceClass_u8 e) = Some e"
  by (cases e) (simp_all add: EvidenceClass_of_u8_def)

lemma EvidenceClass_text_parse: "TryParseEvidenceClass (EvidenceClass_text e) = Some e"
  by (cases e) (simp_all add: TryParseEvidenceClass_def)

section \<open>Resource envelope\<close>

record RuntimeLimits =
  max_scopes :: nat
  max_subjects_per_scope :: nat
  max_attributes_per_subject :: nat
  max_subjects_per_document :: nat
  max_journal_payload_bytes :: nat
  max_journal_bytes :: nat
  max_retained_observations_per_scope :: nat
  max_retained_attempts :: nat
  max_retained_outcomes :: nat
  max_attempt_transitions :: nat
  max_plan_actions :: nat
  max_explanation_steps :: nat
  max_sessions :: nat
  max_in_flight_frames_per_session :: nat
  max_wire_payload_bytes :: nat

definition default_limits :: RuntimeLimits where
  "default_limits = \<lparr>max_scopes = 4096, max_subjects_per_scope = 4000000,
     max_attributes_per_subject = 256, max_subjects_per_document = 4000000,
     max_journal_payload_bytes = 8 * 1024 * 1024, max_journal_bytes = 512 * 1024 * 1024,
     max_retained_observations_per_scope = 8, max_retained_attempts = 16384,
     max_retained_outcomes = 16384, max_attempt_transitions = 16, max_plan_actions = 262144,
     max_explanation_steps = 32, max_sessions = 256, max_in_flight_frames_per_session = 8,
     max_wire_payload_bytes = 16 * 1024 * 1024\<rparr>"

text \<open>No enumerator value is listed twice: every reason has one text.\<close>

lemma reason_codes_distinct: "distinct (map fst reason_table)"
  by (simp add: reason_table_def)

end
