(* ===== verification/Hash.thy ===== *)
theory Hash
  imports Status_Model
begin

text \<open>
  \<open>hash.hpp\<close> and \<open>hash.cpp\<close>: streaming SHA-256, hexadecimal digests and FNV-1a. The streaming
  state is the class's four members; \<open>Update\<close> keeps its three phases (top up the buffer, whole
  blocks straight from the input, buffer the rest). The lemmas show that the digest depends on
  the concatenation of the updates only, and that padding always ends on a block boundary.
  No other theory unfolds the compression function: durable integrity is argued from the digest
  being a function of the bytes.
\<close>

section \<open>The compression function\<close>

definition kRoundConstants :: "u32 list" where
  "kRoundConstants =
    concat
     [[0x428a2f98, 0x71374491, 0xb5c0fbcf, 0xe9b5dba5, 0x3956c25b, 0x59f111f1, 0x923f82a4, 0xab1c5ed5],
      [0xd807aa98, 0x12835b01, 0x243185be, 0x550c7dc3, 0x72be5d74, 0x80deb1fe, 0x9bdc06a7, 0xc19bf174],
      [0xe49b69c1, 0xefbe4786, 0x0fc19dc6, 0x240ca1cc, 0x2de92c6f, 0x4a7484aa, 0x5cb0a9dc, 0x76f988da],
      [0x983e5152, 0xa831c66d, 0xb00327c8, 0xbf597fc7, 0xc6e00bf3, 0xd5a79147, 0x06ca6351, 0x14292967],
      [0x27b70a85, 0x2e1b2138, 0x4d2c6dfc, 0x53380d13, 0x650a7354, 0x766a0abb, 0x81c2c92e, 0x92722c85],
      [0xa2bfe8a1, 0xa81a664b, 0xc24b8b70, 0xc76c51a3, 0xd192e819, 0xd6990624, 0xf40e3585, 0x106aa070],
      [0x19a4c116, 0x1e376c08, 0x2748774c, 0x34b0bcb5, 0x391c0cb3, 0x4ed8aa4a, 0x5b9cca4f, 0x682e6ff3],
      [0x748f82ee, 0x78a5636f, 0x84c87814, 0x8cc70208, 0x90befffa, 0xa4506ceb, 0xbef9a3f7, 0xc67178f2]]"

definition RotateRight :: "u32 \<Rightarrow> nat \<Rightarrow> u32" where
  "RotateRight v n = drop_bit n v OR push_bit (32 - n) v"

definition Choose :: "u32 \<Rightarrow> u32 \<Rightarrow> u32 \<Rightarrow> u32" where
  "Choose x y z = (x AND y) XOR (NOT x AND z)"

definition Majority :: "u32 \<Rightarrow> u32 \<Rightarrow> u32 \<Rightarrow> u32" where
  "Majority x y z = (x AND y) XOR (x AND z) XOR (y AND z)"

definition BigSigma0 :: "u32 \<Rightarrow> u32" where
  "BigSigma0 x = RotateRight x 2 XOR RotateRight x 13 XOR RotateRight x 22"

definition BigSigma1 :: "u32 \<Rightarrow> u32" where
  "BigSigma1 x = RotateRight x 6 XOR RotateRight x 11 XOR RotateRight x 25"

definition SmallSigma0 :: "u32 \<Rightarrow> u32" where
  "SmallSigma0 x = RotateRight x 7 XOR RotateRight x 18 XOR drop_bit 3 x"

definition SmallSigma1 :: "u32 \<Rightarrow> u32" where
  "SmallSigma1 x = RotateRight x 17 XOR RotateRight x 19 XOR drop_bit 10 x"

definition schedule_word :: "bytes \<Rightarrow> nat \<Rightarrow> u32" where
  "schedule_word block i =
     push_bit 24 (ucast (block ! (4 * i))) OR push_bit 16 (ucast (block ! (4 * i + 1))) OR
     push_bit 8 (ucast (block ! (4 * i + 2))) OR ucast (block ! (4 * i + 3))"

text \<open>The loop from index 16 to 63: \<open>n\<close> more words are appended to the schedule.\<close>

fun schedule_extend :: "nat \<Rightarrow> u32 list \<Rightarrow> u32 list" where
  "schedule_extend 0 s = s"
| "schedule_extend (Suc n) s =
     (let i = length s in
      schedule_extend n (s @ [SmallSigma1 (s ! (i - 2)) + s ! (i - 7) +
                              SmallSigma0 (s ! (i - 15)) + s ! (i - 16)]))"

type_synonym sha_words = "u32 \<times> u32 \<times> u32 \<times> u32 \<times> u32 \<times> u32 \<times> u32 \<times> u32"

fun compress_round :: "u32 \<times> u32 \<Rightarrow> sha_words \<Rightarrow> sha_words" where
  "compress_round (k, w) (a, b, c, d, e, f, g, h) =
     (let temp1 = h + BigSigma1 e + Choose e f g + k + w;
          temp2 = BigSigma0 a + Majority a b c
      in (temp1 + temp2, a, b, c, d + temp1, e, f, g))"

fun add_words :: "sha_words \<Rightarrow> sha_words \<Rightarrow> sha_words" where
  "add_words (a, b, c, d, e, f, g, h) (a', b', c', d', e', f', g', h') =
     (a + a', b + b', c + c', d + d', e + e', f + f', g + g', h + h')"

definition Compress :: "bytes \<Rightarrow> sha_words \<Rightarrow> sha_words" where
  "Compress block st =
     (let schedule = schedule_extend 48 (map (schedule_word block) [0..<16])
      in add_words st (fold compress_round (zip kRoundConstants schedule) st))"

section \<open>Streaming state\<close>

record Sha256 =
  sha_state :: sha_words
  sha_bit_length :: u64
  sha_buffer :: bytes

text \<open>
  \<open>sha_buffer\<close> is the first \<open>buffered_\<close> bytes of \<open>buffer_\<close>; the rest of the array is never read.
\<close>

definition Sha256_new :: Sha256 where
  "Sha256_new = \<lparr>sha_state = (0x6a09e667, 0xbb67ae85, 0x3c6ef372, 0xa54ff53a, 0x510e527f,
     0x9b05688c, 0x1f83d9ab, 0x5be0cd19), sha_bit_length = 0, sha_buffer = []\<rparr>"

text \<open>The loop \<open>while (size >= 64)\<close> and the final copy into the buffer.\<close>

function absorb_blocks :: "bytes \<Rightarrow> sha_words \<Rightarrow> sha_words \<times> bytes" where
  "absorb_blocks bs st =
     (if length bs \<ge> 64 then absorb_blocks (drop 64 bs) (Compress (take 64 bs) st) else (st, bs))"
  by pat_completeness auto
termination by (relation "measure (\<lambda>(bs, st). length bs)") auto

declare absorb_blocks.simps [simp del]

definition Update :: "bytes \<Rightarrow> Sha256 \<Rightarrow> Sha256" where
  "Update data s =
     (if data = [] then s
      else
        let s = s\<lparr>sha_bit_length := sha_bit_length s + of_nat (length data) * 8\<rparr>
        in if sha_buffer s \<noteq> [] then
             let need = 64 - length (sha_buffer s);
                 taken = (if length data < need then length data else need);
                 buffer = sha_buffer s @ take taken data;
                 s = (if length buffer = 64
                      then s\<lparr>sha_state := Compress buffer (sha_state s), sha_buffer := []\<rparr>
                      else s\<lparr>sha_buffer := buffer\<rparr>)
             in if taken = length data then s
                else let (st, rest) = absorb_blocks (drop taken data) (sha_state s)
                     in s\<lparr>sha_state := st, sha_buffer := rest\<rparr>
           else let (st, rest) = absorb_blocks data (sha_state s)
                in s\<lparr>sha_state := st, sha_buffer := rest\<rparr>)"

text \<open>
  \<open>while (buffered_ != 56) Update(&zero, 1)\<close>. The buffer holds fewer than 64 bytes, so at most 64
  rounds are needed; the lemma \<open>pad_zero_enough\<close> shows that 64 units of fuel always reach 56.
\<close>

fun pad_zero :: "nat \<Rightarrow> Sha256 \<Rightarrow> Sha256" where
  "pad_zero 0 s = s"
| "pad_zero (Suc n) s = (if length (sha_buffer s) = 56 then s else pad_zero n (Update [0] s))"

definition be_bytes64 :: "u64 \<Rightarrow> bytes" where
  "be_bytes64 v = map (\<lambda>i. ucast (drop_bit (56 - 8 * i) v AND 0xff)) [0..<8]"

definition be_bytes32 :: "u32 \<Rightarrow> bytes" where
  "be_bytes32 v = [ucast (drop_bit 24 v AND 0xff), ucast (drop_bit 16 v AND 0xff),
     ucast (drop_bit 8 v AND 0xff), ucast (v AND 0xff)]"

fun words_bytes :: "sha_words \<Rightarrow> bytes" where
  "words_bytes (a, b, c, d, e, f, g, h) = concat (map be_bytes32 [a, b, c, d, e, f, g, h])"

definition Final :: "Sha256 \<Rightarrow> bytes" where
  "Final s =
     (let total_bits = sha_bit_length s;
          s = pad_zero 64 (Update [0x80] s);
          s = Update (be_bytes64 total_bits) s
      in words_bytes (sha_state s))"

definition Sha256Of :: "bytes \<Rightarrow> bytes" where
  "Sha256Of data = Final (Update data Sha256_new)"

definition kSha256Bytes :: nat where
  "kSha256Bytes = 32"

type_synonym Sha256Digest = bytes

definition wf_digest :: "Sha256Digest \<Rightarrow> bool" where
  "wf_digest d \<longleftrightarrow> length d = kSha256Bytes"

section \<open>Hexadecimal digests and FNV-1a\<close>

definition ToHex :: "Sha256Digest \<Rightarrow> string" where
  "ToHex d = HexOf d"

definition hex_nibble :: "char \<Rightarrow> nat option" where
  "hex_nibble c =
     (if CHR ''0'' \<le> c \<and> c \<le> CHR ''9'' then Some (of_char c - of_char CHR ''0'')
      else if CHR ''a'' \<le> c \<and> c \<le> CHR ''f'' then Some (of_char c - of_char CHR ''a'' + 10)
      else if CHR ''A'' \<le> c \<and> c \<le> CHR ''F'' then Some (of_char c - of_char CHR ''A'' + 10)
      else None)"

fun parse_hex :: "string \<Rightarrow> bytes option" where
  "parse_hex (a # b # t) =
     do { x \<leftarrow> hex_nibble a; y \<leftarrow> hex_nibble b; bs \<leftarrow> parse_hex t; Some (of_nat (x * 16 + y) # bs) }"
| "parse_hex _ = Some []"

definition TryParseHexDigest :: "string \<Rightarrow> Sha256Digest option" where
  "TryParseHexDigest t = (if length t \<noteq> kSha256Bytes * 2 then None else parse_hex t)"

definition Fnv1a64 :: "string \<Rightarrow> u64" where
  "Fnv1a64 t =
     fold (\<lambda>c h. (h XOR ucast (byte_of_char c)) * 1099511628211) t 1469598103934665603"

section \<open>The streaming state is a function of the concatenated input\<close>

definition sha_inv :: "Sha256 \<Rightarrow> bool" where
  "sha_inv s \<longleftrightarrow> length (sha_buffer s) < 64"

lemma absorb_blocks_short: "length bs < 64 \<Longrightarrow> absorb_blocks bs st = (st, bs)"
  by (subst absorb_blocks.simps) simp

lemma absorb_blocks_block:
  "length b = 64 \<Longrightarrow> absorb_blocks (b @ bs) st = absorb_blocks bs (Compress b st)"
  by (subst absorb_blocks.simps) simp

lemma absorb_blocks_rest: "absorb_blocks bs st = (st', rest) \<Longrightarrow> length rest < 64"
  by (induction bs st rule: absorb_blocks.induct)
    (metis absorb_blocks.simps not_less prod.inject)

lemma absorb_blocks_append:
  "absorb_blocks (as @ bs) st =
     (let (st', rest) = absorb_blocks as st in absorb_blocks (rest @ bs) st')"
proof (induction as st rule: absorb_blocks.induct)
  case (1 as st)
  show ?case
  proof (cases "length as \<ge> 64")
    case True
    have "absorb_blocks (as @ bs) st = absorb_blocks (drop 64 as @ bs) (Compress (take 64 as) st)"
      using True by (subst absorb_blocks.simps) simp
    also have "\<dots> = (let (st', rest) = absorb_blocks as st in absorb_blocks (rest @ bs) st')"
      using 1 True by (simp add: absorb_blocks.simps [of as])
    finally show ?thesis .
  next
    case False
    then show ?thesis by (simp add: absorb_blocks_short)
  qed
qed

text \<open>All three phases of \<open>Update\<close> are one absorption of the buffer followed by the input.\<close>

lemma Update_absorb:
  assumes "sha_inv s"
  shows "Update data s =
    (let (st, rest) = absorb_blocks (sha_buffer s @ data) (sha_state s)
     in s\<lparr>sha_state := st, sha_buffer := rest,
          sha_bit_length := sha_bit_length s + of_nat (length data) * 8\<rparr>)"
proof -
  let ?need = "64 - length (sha_buffer s)"
  have len: "length (sha_buffer s) < 64" using assms by (simp add: sha_inv_def)
  consider "data = []" | "data \<noteq> []" "sha_buffer s = []"
    | "data \<noteq> []" "sha_buffer s \<noteq> []" "length data < ?need"
    | "data \<noteq> []" "sha_buffer s \<noteq> []" "\<not> length data < ?need" by blast
  then show ?thesis
  proof cases
    case 1
    then show ?thesis using len by (simp add: Update_def absorb_blocks_short)
  next
    case 2
    then show ?thesis by (simp add: Update_def Let_def split: prod.splits)
  next
    case 3
    then have "length (sha_buffer s @ data) < 64" by simp
    with 3 show ?thesis by (simp add: Update_def Let_def absorb_blocks_short)
  next
    case 4
    let ?b = "sha_buffer s @ take ?need data"
    have b: "length ?b = 64" using 4 len by simp
    have "sha_buffer s @ data = ?b @ drop ?need data" by simp
    then have "absorb_blocks (sha_buffer s @ data) (sha_state s) =
        absorb_blocks (drop ?need data) (Compress ?b (sha_state s))"
      by (simp only: absorb_blocks_block [OF b])
    with 4 b show ?thesis
      by (cases "?need = length data")
        (simp_all add: Update_def Let_def absorb_blocks_short split: prod.splits)
  qed
qed

lemma Sha256_new_fields [simp]: "sha_buffer Sha256_new = []" "sha_bit_length Sha256_new = 0"
  by (simp_all add: Sha256_new_def)

lemma sha_inv_new [simp]: "sha_inv Sha256_new"
  by (simp add: sha_inv_def Sha256_new_def)

lemma sha_inv_Update [simp]: "sha_inv s \<Longrightarrow> sha_inv (Update data s)"
  by (auto simp: Update_absorb sha_inv_def dest: absorb_blocks_rest split: prod.splits)

lemma Update_append:
  assumes "sha_inv s"
  shows "Update b (Update a s) = Update (a @ b) s"
proof -
  obtain st rest where ab: "absorb_blocks (sha_buffer s @ a) (sha_state s) = (st, rest)"
    by (meson surj_pair)
  obtain st' rest' where bb: "absorb_blocks (rest @ b) st = (st', rest')"
    by (meson surj_pair)
  have first: "Update a s = s\<lparr>sha_state := st, sha_buffer := rest,
      sha_bit_length := sha_bit_length s + of_nat (length a) * 8\<rparr>"
    by (simp add: Update_absorb [OF assms] ab)
  have both: "absorb_blocks (sha_buffer s @ a @ b) (sha_state s) = (st', rest')"
    using absorb_blocks_append [of "sha_buffer s @ a" b "sha_state s"] ab bb by simp
  have "Update b (Update a s) = s\<lparr>sha_state := st', sha_buffer := rest',
      sha_bit_length := sha_bit_length s + of_nat (length a) * 8 + of_nat (length b) * 8\<rparr>"
    by (simp only: Update_absorb [OF sha_inv_Update [OF assms], of b a]) (simp add: first bb)
  then show ?thesis
    by (simp add: both Update_absorb [OF assms] algebra_simps)
qed

lemma absorb_blocks_length:
  "absorb_blocks bs st = (st', rest) \<Longrightarrow> length rest = length bs mod 64"
proof (induction bs st rule: absorb_blocks.induct)
  case (1 bs st)
  then show ?case
    by (cases "length bs \<ge> 64")
      (auto simp: absorb_blocks.simps [of bs] le_mod_geq split: if_splits)
qed

lemma Update_buffered:
  "sha_inv s \<Longrightarrow> length (sha_buffer (Update data s)) = (length (sha_buffer s) + length data) mod 64"
  by (auto simp: Update_absorb dest: absorb_blocks_length split: prod.splits)

lemma pad_zero_enough:
  "sha_inv s \<Longrightarrow>
     (if length (sha_buffer s) \<le> 56 then 56 - length (sha_buffer s)
      else 120 - length (sha_buffer s)) \<le> n \<Longrightarrow>
     length (sha_buffer (pad_zero n s)) = 56"
proof (induction n arbitrary: s)
  case 0
  then show ?case by (auto simp: sha_inv_def split: if_splits)
next
  case (Suc n)
  let ?k = "length (sha_buffer s)" and ?s = "Update [0] s"
  have k: "?k < 64" using Suc.prems by (simp add: sha_inv_def)
  have next_k: "length (sha_buffer ?s) = (if ?k = 63 then 0 else ?k + 1)"
    using k Suc.prems(1) by (simp add: Update_buffered)
  show ?case
  proof (cases "?k = 56")
    case False
    then show ?thesis
      using Suc.IH [of ?s] Suc.prems k next_k by (auto split: if_splits)
  qed simp
qed

lemma Final_block_aligned:
  assumes "sha_inv s"
  shows "length (sha_buffer (pad_zero 64 (Update [0x80] s))) = 56"
  by (rule pad_zero_enough) (use assms in \<open>auto\<close>)

lemma length_Sha256Of [simp]: "length (Sha256Of bs) = kSha256Bytes"
proof -
  have "length (words_bytes w) = 32" for w
    by (cases w rule: words_bytes.cases) (simp add: be_bytes32_def)
  then show ?thesis by (simp add: Sha256Of_def Final_def Let_def kSha256Bytes_def)
qed

lemma wf_digest_Sha256Of [simp]: "wf_digest (Sha256Of bs)"
  by (simp add: wf_digest_def)

section \<open>One-pass reference\<close>

text \<open>
  The digest of a message is the compression of the padded message: the bit 1, zeros up to 56
  modulo 64, and the 64-bit big-endian bit count.
\<close>

definition zeros_needed :: "nat \<Rightarrow> nat" where
  "zeros_needed k = (if k \<le> 56 then 56 - k else 120 - k)"

definition sha_padding :: "nat \<Rightarrow> bytes" where
  "sha_padding n = [0x80] @ replicate (zeros_needed ((n + 1) mod 64)) 0 @ be_bytes64 (of_nat n * 8)"

definition sha256_reference :: "bytes \<Rightarrow> bytes" where
  "sha256_reference m =
     words_bytes (fst (absorb_blocks (m @ sha_padding (length m)) (sha_state Sha256_new)))"

lemma pad_zero_Update:
  "sha_inv s \<Longrightarrow> zeros_needed (length (sha_buffer s)) \<le> n \<Longrightarrow>
     pad_zero n s = Update (replicate (zeros_needed (length (sha_buffer s))) 0) s"
proof (induction n arbitrary: s)
  case 0
  then show ?case by (simp add: Update_def)
next
  case (Suc n)
  let ?k = "length (sha_buffer s)" and ?s = "Update [0] s"
  have k: "?k < 64" using Suc.prems by (simp add: sha_inv_def)
  have next_k: "length (sha_buffer ?s) = (if ?k = 63 then 0 else ?k + 1)"
    using k Suc.prems(1) by (simp add: Update_buffered)
  show ?case
  proof (cases "?k = 56")
    case True
    then show ?thesis by (simp add: zeros_needed_def Update_def)
  next
    case False
    then have z: "zeros_needed ?k = Suc (zeros_needed (length (sha_buffer ?s)))"
      using k next_k by (auto simp: zeros_needed_def)
    have "pad_zero n ?s = Update (replicate (zeros_needed (length (sha_buffer ?s))) 0) ?s"
      using Suc.IH [of ?s] Suc.prems z by simp
    also have "\<dots> = Update (replicate (zeros_needed ?k) 0) s"
      using Update_append [OF Suc.prems(1)] z by simp
    finally show ?thesis using False by simp
  qed
qed

lemma sha_bits_Update: "sha_inv s \<Longrightarrow>
    sha_bit_length (Update d s) = sha_bit_length s + of_nat (length d) * 8"
  by (simp add: Update_absorb split: prod.splits)

lemma sha_state_Update_new:
  "sha_state (Update d Sha256_new) = fst (absorb_blocks d (sha_state Sha256_new))"
  by (simp add: Update_absorb split: prod.splits)

lemma Sha256Of_reference: "Sha256Of m = sha256_reference m"
proof -
  let ?s = "Update (m @ [0x80]) Sha256_new"
  have buffered: "length (sha_buffer ?s) = (length m + 1) mod 64"
    by (simp add: Update_buffered)
  then have "zeros_needed (length (sha_buffer ?s)) \<le> 64"
    by (auto simp: zeros_needed_def)
  then have padded: "pad_zero 64 ?s = Update (replicate (zeros_needed ((length m + 1) mod 64)) 0) ?s"
    using pad_zero_Update [of ?s 64] buffered by simp
  have bits: "sha_bit_length (Update m Sha256_new) = of_nat (length m) * 8"
    by (simp add: sha_bits_Update)
  have "Sha256Of m = words_bytes (sha_state (Update (m @ sha_padding (length m)) Sha256_new))"
    by (simp add: Sha256Of_def Final_def Let_def padded bits sha_padding_def Update_append)
  then show ?thesis by (simp add: sha256_reference_def sha_state_Update_new)
qed

section \<open>Hexadecimal round trip\<close>

lemma hex_nibble_digit: "n < 16 \<Longrightarrow> hex_nibble (kDigits ! n) = Some n"
proof -
  have "list_all (\<lambda>n. hex_nibble (kDigits ! n) = Some n) [0..<16]"
    by code_simp
  then show "n < 16 \<Longrightarrow> hex_nibble (kDigits ! n) = Some n"
    by (simp add: list_all_iff)
qed

lemma low_nibble: "unat ((b :: u8) AND 0x0f) = unat b mod 16"
proof -
  have m: "(0x0f :: u8) = mask 4" by (simp add: mask_eq_exp_minus_1)
  show ?thesis
    unfolding m take_bit_eq_mask [symmetric]
    by (simp only: unsigned_take_bit_eq) (simp add: take_bit_eq_mod)
qed

lemma high_nibble: "unat (drop_bit 4 (b :: u8)) = unat b div 16"
proof -
  have "unat b < 256" using unsigned_less [of b, where ?'a = nat] by simp
  then show ?thesis
    by (simp only: unsigned_drop_bit_eq) (simp add: drop_bit_eq_div take_bit_eq_mod)
qed

lemma parse_hex_HexOf: "parse_hex (HexOf bs) = Some bs"
proof (induction bs)
  case (Cons b bs)
  have "unat b < 256" using unsigned_less [of b, where ?'a = nat] by simp
  then have small: "unat b div 16 < 16" by (simp add: less_mult_imp_div_less)
  have "of_nat (unat b div 16 * 16 + unat b mod 16) = b"
    by (simp only: div_mult_mod_eq) simp
  then show ?case
    using Cons.IH small by (simp add: low_nibble high_nibble hex_nibble_digit del: of_nat_add of_nat_mult)
qed simp

lemma TryParseHexDigest_ToHex: "wf_digest d \<Longrightarrow> TryParseHexDigest (ToHex d) = Some d"
  by (simp add: TryParseHexDigest_def ToHex_def parse_hex_HexOf wf_digest_def)

end
