(* ===== verification/Canonical.thy ===== *)
theory Canonical
  imports Hash "HOL-Library.Sublist"
begin

text \<open>
  \<open>canonical.hpp\<close> and \<open>canonical.cpp\<close>: the bounded append-only encoder and the total decoder.
  The methods of \<open>CanonicalWriter\<close> are functions on the writer state; an encoder of the program
  is the list of Put calls it makes, executed in order by \<open>run_puts\<close>, and \<open>octets\<close> is the byte
  string the calls stand for. \<open>run_puts_fresh\<close> relates the two once for all encoders: the writer
  either holds all the octets or refuses. A reader is a function from the remaining bytes to a
  value and the bytes after it; the sticky failure state is \<^const>\<open>None\<close>. The locale \<open>codec\<close> is the
  contract every encoder/decoder pair of the program satisfies.
\<close>

section \<open>CanonicalWriter\<close>

definition kMaxCanonicalBytes :: nat where
  "kMaxCanonicalBytes = 64 * 1024 * 1024"

record CanonicalWriter =
  cw_buffer :: bytes
  cw_ok :: bool

definition writer_new :: CanonicalWriter where
  "writer_new = \<lparr>cw_buffer = [], cw_ok = True\<rparr>"

definition Reserve :: "nat \<Rightarrow> CanonicalWriter \<Rightarrow> CanonicalWriter" where
  "Reserve additional w =
     (if \<not> cw_ok w then w
      else if additional > kMaxCanonicalBytes \<or> length (cw_buffer w) > kMaxCanonicalBytes - additional
        then w\<lparr>cw_ok := False\<rparr>
      else w)"

definition append_if_ok :: "bytes \<Rightarrow> CanonicalWriter \<Rightarrow> CanonicalWriter" where
  "append_if_ok bs w = (if cw_ok w then w\<lparr>cw_buffer := cw_buffer w @ bs\<rparr> else w)"

definition cw_PutU8 :: "u8 \<Rightarrow> CanonicalWriter \<Rightarrow> CanonicalWriter" where
  "cw_PutU8 v w = append_if_ok [v] (Reserve 1 w)"

definition cw_PutU16 :: "u16 \<Rightarrow> CanonicalWriter \<Rightarrow> CanonicalWriter" where
  "cw_PutU16 v w = cw_PutU8 (ucast (drop_bit 8 v AND 0xff)) (cw_PutU8 (ucast (v AND 0xff)) w)"

definition cw_PutU32 :: "u32 \<Rightarrow> CanonicalWriter \<Rightarrow> CanonicalWriter" where
  "cw_PutU32 v w = fold cw_PutU8 (le_store 4 v) w"

definition cw_PutU64 :: "u64 \<Rightarrow> CanonicalWriter \<Rightarrow> CanonicalWriter" where
  "cw_PutU64 v w = fold cw_PutU8 (le_store 8 v) w"

definition cw_PutI64 :: "i64 \<Rightarrow> CanonicalWriter \<Rightarrow> CanonicalWriter" where
  "cw_PutI64 v w = cw_PutU64 v w"

definition cw_PutBool :: "bool \<Rightarrow> CanonicalWriter \<Rightarrow> CanonicalWriter" where
  "cw_PutBool b w = cw_PutU8 (if b then 1 else 0) w"

definition cw_PutBytes :: "bytes \<Rightarrow> CanonicalWriter \<Rightarrow> CanonicalWriter" where
  "cw_PutBytes bs w =
     (if length bs > 0xffffffff then w\<lparr>cw_ok := False\<rparr>
      else let w = cw_PutU32 (of_nat (length bs)) w
           in if \<not> cw_ok w then w else append_if_ok bs (Reserve (length bs) w))"

definition cw_PutDigest :: "Sha256Digest \<Rightarrow> CanonicalWriter \<Rightarrow> CanonicalWriter" where
  "cw_PutDigest d w = append_if_ok d (Reserve (length d) w)"

definition writer_digest :: "CanonicalWriter \<Rightarrow> Sha256Digest" where
  "writer_digest w = Sha256Of (cw_buffer w)"

section \<open>Sequences of Put calls\<close>

datatype put = PutU8 u8 | PutU16 u16 | PutU32 u32 | PutU64 u64 | PutI64 i64 | PutBool bool
  | PutBytes bytes | PutDigest Sha256Digest

fun exec_put :: "put \<Rightarrow> CanonicalWriter \<Rightarrow> CanonicalWriter" where
  "exec_put (PutU8 v) = cw_PutU8 v"
| "exec_put (PutU16 v) = cw_PutU16 v"
| "exec_put (PutU32 v) = cw_PutU32 v"
| "exec_put (PutU64 v) = cw_PutU64 v"
| "exec_put (PutI64 v) = cw_PutI64 v"
| "exec_put (PutBool b) = cw_PutBool b"
| "exec_put (PutBytes bs) = cw_PutBytes bs"
| "exec_put (PutDigest d) = cw_PutDigest d"

definition run_puts :: "put list \<Rightarrow> CanonicalWriter \<Rightarrow> CanonicalWriter" where
  "run_puts ps w = fold exec_put ps w"

abbreviation PutText :: "string \<Rightarrow> put" where
  "PutText t \<equiv> PutBytes (bytes_of_text t)"

fun put_bytes :: "put \<Rightarrow> bytes" where
  "put_bytes (PutU8 v) = [v]"
| "put_bytes (PutU16 v) = le_store 2 v"
| "put_bytes (PutU32 v) = le_store 4 v"
| "put_bytes (PutU64 v) = le_store 8 v"
| "put_bytes (PutI64 v) = le_store 8 v"
| "put_bytes (PutBool b) = [if b then 1 else 0]"
| "put_bytes (PutBytes bs) = le_store 4 (of_nat (length bs) :: u32) @ bs"
| "put_bytes (PutDigest d) = d"

definition octets :: "put list \<Rightarrow> bytes" where
  "octets ps = concat (map put_bytes ps)"

lemma octets_simps [simp]:
  "octets [] = []" "octets (p # ps) = put_bytes p @ octets ps" "octets (ps @ qs) = octets ps @ octets qs"
  by (simp_all add: octets_def)

text \<open>
  What a writer action promises: it appends its bytes when they fit and refuses otherwise, and it
  never grows a failed writer. A refusing action may have appended a part of its bytes.
\<close>

definition writes :: "(CanonicalWriter \<Rightarrow> CanonicalWriter) \<Rightarrow> bytes \<Rightarrow> bool" where
  "writes f bs \<longleftrightarrow> (\<forall>w.
     (\<not> cw_ok w \<longrightarrow> f w = w) \<and>
     (cw_ok w \<and> length (cw_buffer w) + length bs \<le> kMaxCanonicalBytes \<longrightarrow>
        f w = w\<lparr>cw_buffer := cw_buffer w @ bs\<rparr>) \<and>
     (cw_ok w \<and> length (cw_buffer w) \<le> kMaxCanonicalBytes \<and>
        length (cw_buffer w) + length bs > kMaxCanonicalBytes \<longrightarrow>
        \<not> cw_ok (f w) \<and> (\<exists>p. prefix p bs \<and> cw_buffer (f w) = cw_buffer w @ p)))"

lemma writesI:
  assumes "\<And>w. \<not> cw_ok w \<Longrightarrow> f w = w"
    and "\<And>w. cw_ok w \<Longrightarrow> length (cw_buffer w) + length bs \<le> kMaxCanonicalBytes \<Longrightarrow>
      f w = w\<lparr>cw_buffer := cw_buffer w @ bs\<rparr>"
    and "\<And>w. cw_ok w \<Longrightarrow> length (cw_buffer w) \<le> kMaxCanonicalBytes \<Longrightarrow>
      length (cw_buffer w) + length bs > kMaxCanonicalBytes \<Longrightarrow>
      \<not> cw_ok (f w) \<and> (\<exists>p. prefix p bs \<and> cw_buffer (f w) = cw_buffer w @ p)"
  shows "writes f bs"
  using assms by (simp add: writes_def)

lemma writes_failed: "writes f bs \<Longrightarrow> \<not> cw_ok w \<Longrightarrow> f w = w"
  by (simp add: writes_def)

lemma writes_fits:
  "writes f bs \<Longrightarrow> cw_ok w \<Longrightarrow> length (cw_buffer w) + length bs \<le> kMaxCanonicalBytes \<Longrightarrow>
     f w = w\<lparr>cw_buffer := cw_buffer w @ bs\<rparr>"
  by (simp add: writes_def)

lemma writes_full:
  assumes "writes f bs" "cw_ok w" "length (cw_buffer w) \<le> kMaxCanonicalBytes"
    "length (cw_buffer w) + length bs > kMaxCanonicalBytes"
  obtains p where "\<not> cw_ok (f w)" "prefix p bs" "cw_buffer (f w) = cw_buffer w @ p"
  using assms unfolding writes_def by blast

lemma writes_id [writes_intros]: "writes (\<lambda>w. w) []"
  by (rule writesI) auto

lemma writes_comp [writes_intros]:
  assumes f: "writes f a" and g: "writes g b"
  shows "writes (\<lambda>w. g (f w)) (a @ b)"
proof (rule writesI)
  fix w
  show "g (f w) = w" if "\<not> cw_ok w"
    using that f g by (simp add: writes_failed)
  show "g (f w) = w\<lparr>cw_buffer := cw_buffer w @ a @ b\<rparr>"
    if "cw_ok w" "length (cw_buffer w) + length (a @ b) \<le> kMaxCanonicalBytes"
    using that writes_fits [OF f, of w] writes_fits [OF g, of "f w"] by simp
  assume ok: "cw_ok w" and small: "length (cw_buffer w) \<le> kMaxCanonicalBytes"
    and full: "length (cw_buffer w) + length (a @ b) > kMaxCanonicalBytes"
  show "\<not> cw_ok (g (f w)) \<and> (\<exists>p. prefix p (a @ b) \<and> cw_buffer (g (f w)) = cw_buffer w @ p)"
  proof (cases "length (cw_buffer w) + length a \<le> kMaxCanonicalBytes")
    case True
    then have fw: "f w = w\<lparr>cw_buffer := cw_buffer w @ a\<rparr>" by (rule writes_fits [OF f ok])
    obtain p where "\<not> cw_ok (g (f w))" "prefix p b" "cw_buffer (g (f w)) = cw_buffer (f w) @ p"
      by (rule writes_full [OF g, of "f w"]) (use ok full fw True in simp_all)
    then show ?thesis using fw by (intro conjI exI [of _ "a @ p"]) simp_all
  next
    case False
    then obtain p where "\<not> cw_ok (f w)" "prefix p a" "cw_buffer (f w) = cw_buffer w @ p"
      using writes_full [OF f ok small] by (metis not_less)
    then show ?thesis by (auto simp: writes_failed [OF g])
  qed
qed

lemma writes_fold:
  assumes "\<And>x. writes (f x) (e x)"
  shows "writes (fold f xs) (concat (map e xs))"
proof (induction xs)
  case Nil
  show ?case using writes_id by (simp add: id_def)
next
  case (Cons x xs)
  show ?case using writes_comp [OF assms Cons] by (simp add: comp_def)
qed

lemma writes_reserve_append:
  assumes "n = length bs"
  shows "writes (\<lambda>w. append_if_ok bs (Reserve n w)) bs"
  by (rule writesI) (use assms in \<open>auto simp: append_if_ok_def Reserve_def\<close>)

lemma writes_PutU8: "writes (cw_PutU8 v) [v]"
  using writes_reserve_append [of 1 "[v]"] by (simp add: cw_PutU8_def [abs_def])

lemma writes_le_store: "writes (fold cw_PutU8 bs) bs"
  using writes_fold [of cw_PutU8 "\<lambda>v. [v]" bs] writes_PutU8 by simp

lemma le_store_2: "le_store 2 (v :: u16) = [ucast (v AND 0xff), ucast (drop_bit 8 v AND 0xff)]"
  by (simp add: le_store_def numeral_2_eq_2)

lemma writes_PutBytes: "writes (cw_PutBytes bs) (le_store 4 (of_nat (length bs) :: u32) @ bs)"
proof -
  let ?n = "of_nat (length bs) :: u32"
  have parts: "writes (\<lambda>w. append_if_ok bs (Reserve (length bs) (cw_PutU32 ?n w))) (le_store 4 ?n @ bs)"
    using writes_comp [OF writes_le_store [of "le_store 4 ?n"] writes_reserve_append [OF refl, of bs]]
    by (simp add: cw_PutU32_def [abs_def])
  have same: "cw_PutBytes bs = (\<lambda>w. append_if_ok bs (Reserve (length bs) (cw_PutU32 ?n w)))"
    if "\<not> length bs > 0xffffffff"
    using that by (auto simp: cw_PutBytes_def Let_def append_if_ok_def Reserve_def fun_eq_iff)
  show ?thesis
  proof (cases "length bs > 0xffffffff")
    case True
    then show ?thesis
      by (intro writesI) (auto simp: cw_PutBytes_def kMaxCanonicalBytes_def)
  next
    case False
    then show ?thesis using parts same by simp
  qed
qed

lemma writes_exec_put: "writes (exec_put p) (put_bytes p)"
proof (cases p)
  case (PutU16 v)
  then show ?thesis
    using writes_comp [OF writes_PutU8 writes_PutU8] by (simp add: cw_PutU16_def [abs_def] le_store_2)
next
  case (PutDigest d)
  then show ?thesis
    using writes_reserve_append [OF refl, of d] by (simp add: cw_PutDigest_def [abs_def])
qed (simp_all add: writes_PutU8 writes_PutBytes writes_le_store cw_PutU32_def [abs_def]
    cw_PutU64_def [abs_def] cw_PutI64_def [abs_def] cw_PutBool_def [abs_def])

lemma writes_run_puts: "writes (run_puts ps) (octets ps)"
  using writes_fold [of exec_put put_bytes ps] writes_exec_put
  by (simp add: run_puts_def [abs_def] octets_def)

text \<open>A fresh writer after any sequence of calls: all of the octets, or an explicit refusal.\<close>

lemma run_puts_fresh:
  "cw_ok (run_puts ps writer_new) \<longleftrightarrow> length (octets ps) \<le> kMaxCanonicalBytes"
  "cw_ok (run_puts ps writer_new) \<Longrightarrow> cw_buffer (run_puts ps writer_new) = octets ps"
  "prefix (cw_buffer (run_puts ps writer_new)) (octets ps)"
proof -
  have new: "cw_ok writer_new" "cw_buffer writer_new = []"
    by (simp_all add: writer_new_def)
  note W = writes_run_puts [of ps]
  have fits: "run_puts ps writer_new = writer_new\<lparr>cw_buffer := octets ps\<rparr>"
    if "length (octets ps) \<le> kMaxCanonicalBytes"
    using writes_fits [OF W new(1)] that new by simp
  have full: "\<not> cw_ok (run_puts ps writer_new) \<and> prefix (cw_buffer (run_puts ps writer_new)) (octets ps)"
    if "\<not> length (octets ps) \<le> kMaxCanonicalBytes"
    by (rule writes_full [OF W new(1)]) (use that new in auto)
  show "cw_ok (run_puts ps writer_new) \<longleftrightarrow> length (octets ps) \<le> kMaxCanonicalBytes"
    using fits full new by (cases "length (octets ps) \<le> kMaxCanonicalBytes") auto
  show "cw_ok (run_puts ps writer_new) \<Longrightarrow> cw_buffer (run_puts ps writer_new) = octets ps"
    using fits full by (cases "length (octets ps) \<le> kMaxCanonicalBytes") auto
  show "prefix (cw_buffer (run_puts ps writer_new)) (octets ps)"
    using fits full by (cases "length (octets ps) \<le> kMaxCanonicalBytes") auto
qed

text \<open>The digest of a fresh writer after a sequence of calls.\<close>

definition puts_digest :: "put list \<Rightarrow> Sha256Digest" where
  "puts_digest ps = writer_digest (run_puts ps writer_new)"

lemma wf_puts_digest [simp]: "wf_digest (puts_digest ps)" "length (puts_digest ps) = kSha256Bytes"
  by (simp_all add: puts_digest_def writer_digest_def)

lemma puts_digest_octets:
  "length (octets ps) \<le> kMaxCanonicalBytes \<Longrightarrow> puts_digest ps = Sha256Of (octets ps)"
  using run_puts_fresh by (simp add: puts_digest_def writer_digest_def)

section \<open>CanonicalReader\<close>

type_synonym 'a reader = "bytes \<Rightarrow> ('a \<times> bytes) option"

fun ReadU8 :: "u8 reader" where
  "ReadU8 [] = None"
| "ReadU8 (b # r) = Some (b, r)"

definition ReadU16 :: "u16 reader" where
  "ReadU16 r = do { (low, r) \<leftarrow> ReadU8 r; (high, r) \<leftarrow> ReadU8 r;
     Some (ucast low OR push_bit 8 (ucast high), r) }"

text \<open>The loop \<open>value |= byte << shift\<close> over \<open>n\<close> bytes.\<close>

fun read_le :: "nat \<Rightarrow> nat \<Rightarrow> 'a::len word \<Rightarrow> 'a word reader" where
  "read_le 0 shift v r = Some (v, r)"
| "read_le (Suc n) shift v r =
     do { (b, r) \<leftarrow> ReadU8 r; read_le n (shift + 8) (v OR push_bit shift (ucast b)) r }"

definition ReadU32 :: "u32 reader" where
  "ReadU32 r = read_le 4 0 0 r"

definition ReadU64 :: "u64 reader" where
  "ReadU64 r = read_le 8 0 0 r"

definition ReadI64 :: "i64 reader" where
  "ReadI64 r = ReadU64 r"

definition ReadBool :: "bool reader" where
  "ReadBool r = do { (raw, r) \<leftarrow> ReadU8 r; Some (raw \<noteq> 0, r) }"

definition ReadBytes :: "bytes reader" where
  "ReadBytes r = do { (n, r) \<leftarrow> ReadU32 r;
     if unat n > length r then None
     else if unat n > kMaxCanonicalBytes then None
     else Some (take (unat n) r, drop (unat n) r) }"

definition ReadText :: "string reader" where
  "ReadText r = do { (bs, r) \<leftarrow> ReadBytes r; Some (text_of_bytes bs, r) }"

definition ReadDigest :: "Sha256Digest reader" where
  "ReadDigest r = (if length r < kSha256Bytes then None
     else Some (take kSha256Bytes r, drop kSha256Bytes r))"

definition AtEnd :: "bytes \<Rightarrow> bool" where
  "AtEnd r \<longleftrightarrow> r = []"

text \<open>A loop that reads \<open>n\<close> elements.\<close>

fun read_n :: "nat \<Rightarrow> 'a reader \<Rightarrow> 'a list reader" where
  "read_n 0 d r = Some ([], r)"
| "read_n (Suc n) d r = do { (x, r) \<leftarrow> d r; (xs, r) \<leftarrow> read_n n d r; Some (x # xs, r) }"

text \<open>A loop that reads \<open>n\<close> entries and emplaces each into a map, refusing a repeated key.\<close>

fun read_map :: "nat \<Rightarrow> ('k::linorder \<times> 'v) reader \<Rightarrow> ('k, 'v) omap \<Rightarrow> ('k, 'v) omap reader" where
  "read_map 0 d m r = Some (m, r)"
| "read_map (Suc n) d m r =
     do { ((k, v), r) \<leftarrow> d r; m \<leftarrow> map_emplace k v m; read_map n d m r }"

lemma read_le_load_at: "read_le (length bs) s v (bs @ r) = Some (le_load_at s bs v, r)"
  by (induction bs arbitrary: s v) simp_all

lemma ReadU8_put [roundtrip, simp]: "ReadU8 ([v] @ r) = Some (v, r)"
  by simp

lemma ReadU16_put [roundtrip, simp]: "ReadU16 (le_store 2 v @ r) = Some (v, r)"
proof -
  have "le_load_at 0 (le_store 2 v) 0 = v"
    using le_load_store [of 2 v] by (simp add: le_load_def)
  then show ?thesis by (simp add: ReadU16_def le_store_2)
qed

lemma ReadU32_put [roundtrip, simp]: "ReadU32 (le_store 4 v @ r) = Some (v, r)"
  using read_le_load_at [of "le_store 4 v" 0 "0 :: u32" r] le_load_store [of 4 v]
  by (simp add: ReadU32_def le_load_def)

lemma ReadU64_put [roundtrip, simp]: "ReadU64 (le_store 8 v @ r) = Some (v, r)"
  using read_le_load_at [of "le_store 8 v" 0 "0 :: u64" r] le_load_store [of 8 v]
  by (simp add: ReadU64_def le_load_def)

lemma ReadI64_put [roundtrip, simp]: "ReadI64 (le_store 8 v @ r) = Some (v, r)"
  by (simp add: ReadI64_def)

lemma ReadBool_put [roundtrip, simp]: "ReadBool ([if b then 1 else 0] @ r) = Some (b, r)"
  "ReadBool ((if b then 1 else 0) # r) = Some (b, r)"
  by (simp_all add: ReadBool_def)

lemma unat_of_length:
  "length bs \<le> kMaxCanonicalBytes \<Longrightarrow> unat (of_nat (length bs) :: u32) = length bs"
  by (simp add: kMaxCanonicalBytes_def unat_of_nat)

lemma ReadBytes_put [roundtrip, simp]:
  "length bs \<le> kMaxCanonicalBytes \<Longrightarrow>
     ReadBytes (le_store 4 (of_nat (length bs) :: u32) @ bs @ r) = Some (bs, r)"
  by (simp add: ReadBytes_def unat_of_length)

lemma ReadText_put [roundtrip, simp]:
  "length t \<le> kMaxCanonicalBytes \<Longrightarrow>
     ReadText (le_store 4 (of_nat (length t) :: u32) @ bytes_of_text t @ r) = Some (t, r)"
  using ReadBytes_put [of "bytes_of_text t" r] by (simp add: ReadText_def)

lemma ReadDigest_put [roundtrip, simp]: "wf_digest d \<Longrightarrow> ReadDigest (d @ r) = Some (d, r)"
  by (simp add: ReadDigest_def wf_digest_def)

lemma ReadBytes_bound: "ReadBytes r = Some (bs, r') \<Longrightarrow> length bs \<le> kMaxCanonicalBytes"
  by (auto simp: ReadBytes_def split: if_splits bind_splits)

lemma ReadDigest_wf: "ReadDigest r = Some (d, r') \<Longrightarrow> wf_digest d"
  by (auto simp: ReadDigest_def wf_digest_def split: if_splits)

lemma bind_Some_iff [simp]: "Option.bind m f = Some y \<longleftrightarrow> (\<exists>x. m = Some x \<and> f x = Some y)"
  by (cases m) auto

lemma read_map_wf: "read_map n d m r = Some (m', r') \<Longrightarrow> wf_map m \<Longrightarrow> wf_map m'"
  by (induction n d m r arbitrary: m' r' rule: read_map.induct)
    (auto simp: map_emplace_def wf_map_set split: if_splits)

lemma map_set_fresh_length: "map_find k m = None \<Longrightarrow> length (map_set k v m) = Suc (length m)"
  by (induction m) (auto split: if_splits)

lemma read_map_length: "read_map n d m r = Some (m', r') \<Longrightarrow> length m' = n + length m"
  by (induction n d m r arbitrary: m' r' rule: read_map.induct)
    (auto simp: map_emplace_def map_set_fresh_length split: if_splits)

lemma read_map_all:
  assumes "read_map n d m r = Some (m', r')" "\<And>e s s'. d s = Some (e, s') \<Longrightarrow> P e" "\<forall>e \<in> set m. P e"
  shows "\<forall>e \<in> set m'. P e"
  using assms
proof (induction n d m r arbitrary: m' r' rule: read_map.induct)
  case (2 n d m r)
  then obtain k v s m1 where d: "d r = Some ((k, v), s)" and m1: "map_emplace k v m = Some m1"
    and rest: "read_map n d m1 s = Some (m', r')"
    by auto
  have "\<forall>e \<in> set m1. P e"
    using m1 "2.prems"(2) [OF d] "2.prems"(3) set_map_set [of k v m]
    by (auto simp: map_emplace_def split: if_splits)
  then show ?case
    using "2.IH" [OF d refl refl m1 rest] "2.prems"(2) by blast
qed simp

section \<open>What an encoder returns\<close>

text \<open>\<open>if (!writer.ok()) return std::string(); return writer.buffer();\<close>\<close>

definition puts_buffer :: "put list \<Rightarrow> bytes" where
  "puts_buffer ps = (let w = run_puts ps writer_new in if \<not> cw_ok w then [] else cw_buffer w)"

lemma puts_buffer_octets:
  "puts_buffer ps = (if length (octets ps) \<le> kMaxCanonicalBytes then octets ps else [])"
  using run_puts_fresh by (auto simp: puts_buffer_def Let_def)

section \<open>The codec contract\<close>

text \<open>
  Decoding the octets of an encoded value gives the value back and stops exactly at its end, and
  whatever a decoder accepts is well formed. From these two laws the clients obtain that
  encodings are injective and prefix-free, and that counted sequences and maps of encodings
  decode to themselves.
\<close>

locale codec =
  fixes enc :: "'a \<Rightarrow> put list"
    and dec :: "'a reader"
    and ok :: "'a \<Rightarrow> bool"
  assumes decode_encode: "ok x \<Longrightarrow> dec (octets (enc x) @ r) = Some (x, r)"
    and decode_ok: "dec r = Some (x, s) \<Longrightarrow> ok x"
begin

lemma decode_exact: "ok x \<Longrightarrow> dec (octets (enc x)) = Some (x, [])"
  using decode_encode [of x "[]"] by simp

lemma prefix_free:
  "ok x \<Longrightarrow> ok y \<Longrightarrow> octets (enc x) @ r = octets (enc y) @ s \<Longrightarrow> x = y \<and> r = s"
  by (metis decode_encode option.inject prod.inject)

lemma encode_inject: "ok x \<Longrightarrow> ok y \<Longrightarrow> octets (enc x) = octets (enc y) \<Longrightarrow> x = y"
  using prefix_free [of x y "[]" "[]"] by simp

lemma decode_many:
  "list_all ok xs \<Longrightarrow> read_n (length xs) dec (octets (concat (map enc xs)) @ r) = Some (xs, r)"
  by (induction xs) (simp_all add: decode_encode)

lemma decode_many_ok:
  "read_n n dec r = Some (xs, s) \<Longrightarrow> list_all ok xs \<and> length xs = n"
  by (induction n arbitrary: r xs) (auto dest: decode_ok)

lemma buffer_exact:
  "ok x \<Longrightarrow> length (octets (enc x)) \<le> kMaxCanonicalBytes \<Longrightarrow> dec (puts_buffer (enc x)) = Some (x, [])"
  by (simp add: puts_buffer_octets decode_exact)

end

locale map_codec = codec enc dec ok
  for enc :: "'k::linorder \<times> 'v \<Rightarrow> put list"
    and dec :: "('k \<times> 'v) reader"
    and ok :: "'k \<times> 'v \<Rightarrow> bool"
begin

lemma decode_map_onto:
  "list_all ok es \<Longrightarrow> wf_map (m @ es) \<Longrightarrow>
     read_map (length es) dec m (octets (concat (map enc es)) @ r) = Some (m @ es, r)"
proof (induction es arbitrary: m)
  case (Cons e es)
  obtain k v where e: "e = (k, v)" by force
  have last: "\<forall>x \<in> set m. fst x < k" and wf: "wf_map (m @ [(k, v)] @ es)"
    using Cons.prems(2) e by (auto simp: wf_map_append)
  have "map_find k m = None"
    using last by (auto simp: map_find_None_iff map_keys_def)
  then have "map_emplace k v m = Some (m @ [(k, v)])"
    by (simp add: map_emplace_def map_set_at_end [OF last])
  then show ?case
    using Cons e wf decode_encode [of e] by simp
qed simp

lemma decode_map:
  "list_all ok es \<Longrightarrow> wf_map es \<Longrightarrow>
     read_map (length es) dec [] (octets (concat (map enc es)) @ r) = Some (es, r)"
  using decode_map_onto [of es "[]" r] by simp

lemma decode_map_ok:
  assumes "read_map n dec [] r = Some (m, s)"
  shows "list_all ok m \<and> wf_map m \<and> length m = n"
  using read_map_all [OF assms, of ok] read_map_wf [OF assms] read_map_length [OF assms] decode_ok
  by (auto simp: list_all_iff)

end

end
