(* ===== verification/Attr_Value.thy ===== *)
theory Attr_Value
  imports Canonical
begin

text \<open>
  \<open>value.hpp\<close> and \<open>value.cpp\<close>: attribute values and subject states. The C++ class keeps one
  payload member per kind and its constructors set exactly the one the kind selects, so a value
  is a datatype with one constructor per kind.
\<close>

definition kMaxAttributeTextLength :: nat where
  "kMaxAttributeTextLength = 4096"

datatype AttributeKind = Kind_Invalid | Kind_Absent | Kind_Boolean | Kind_Integer | Kind_Unsigned
  | Kind_Text | Kind_Token

fun AttributeKind_text :: "AttributeKind \<Rightarrow> string" where
  "AttributeKind_text Kind_Invalid = ''INVALID''"
| "AttributeKind_text Kind_Absent = ''ABSENT''"
| "AttributeKind_text Kind_Boolean = ''BOOLEAN''"
| "AttributeKind_text Kind_Integer = ''INTEGER''"
| "AttributeKind_text Kind_Unsigned = ''UNSIGNED''"
| "AttributeKind_text Kind_Text = ''TEXT''"
| "AttributeKind_text Kind_Token = ''TOKEN''"

definition TryParseAttributeKind :: "string \<Rightarrow> AttributeKind option" where
  "TryParseAttributeKind t =
     (if t = ''ABSENT'' then Some Kind_Absent else if t = ''BOOLEAN'' then Some Kind_Boolean
      else if t = ''INTEGER'' then Some Kind_Integer else if t = ''UNSIGNED'' then Some Kind_Unsigned
      else if t = ''TEXT'' then Some Kind_Text else if t = ''TOKEN'' then Some Kind_Token else None)"

datatype AttributeValue = Value_Invalid | Value_Absent | Value_Boolean bool | Value_Integer i64
  | Value_Unsigned u64 | Value_Text string | Value_Token string

fun value_kind :: "AttributeValue \<Rightarrow> AttributeKind" where
  "value_kind Value_Invalid = Kind_Invalid"
| "value_kind Value_Absent = Kind_Absent"
| "value_kind (Value_Boolean b) = Kind_Boolean"
| "value_kind (Value_Integer i) = Kind_Integer"
| "value_kind (Value_Unsigned u) = Kind_Unsigned"
| "value_kind (Value_Text t) = Kind_Text"
| "value_kind (Value_Token t) = Kind_Token"

definition ComparableWith :: "AttributeValue \<Rightarrow> AttributeValue \<Rightarrow> bool" where
  "ComparableWith a b \<longleftrightarrow> value_kind a = value_kind b \<and> value_kind a \<noteq> Kind_Invalid"

fun value_IsValid :: "AttributeValue \<Rightarrow> bool" where
  "value_IsValid Value_Invalid = False"
| "value_IsValid (Value_Text t) = (length t \<le> kMaxAttributeTextLength)"
| "value_IsValid (Value_Token t) = (length t \<le> kMaxAttributeTextLength)"
| "value_IsValid _ = True"

fun value_Encode :: "AttributeValue \<Rightarrow> put list" where
  "value_Encode Value_Invalid = [PutU8 0]"
| "value_Encode Value_Absent = [PutU8 1]"
| "value_Encode (Value_Boolean b) = [PutU8 2, PutBool b]"
| "value_Encode (Value_Integer i) = [PutU8 3, PutI64 i]"
| "value_Encode (Value_Unsigned u) = [PutU8 4, PutU64 u]"
| "value_Encode (Value_Text t) = [PutU8 5, PutText t]"
| "value_Encode (Value_Token t) = [PutU8 6, PutText t]"

definition value_Decode :: "AttributeValue reader" where
  "value_Decode r =
     do { (raw_kind, r) \<leftarrow> ReadU8 r;
          if raw_kind = 1 then Some (Value_Absent, r)
          else if raw_kind = 2 then do { (flag, r) \<leftarrow> ReadBool r; Some (Value_Boolean flag, r) }
          else if raw_kind = 3 then do { (n, r) \<leftarrow> ReadI64 r; Some (Value_Integer n, r) }
          else if raw_kind = 4 then do { (n, r) \<leftarrow> ReadU64 r; Some (Value_Unsigned n, r) }
          else if raw_kind = 5 \<or> raw_kind = 6 then
            do { (t, r) \<leftarrow> ReadText r;
                 if length t > kMaxAttributeTextLength then None
                 else Some (if raw_kind = 5 then Value_Text t else Value_Token t, r) }
          else None }"

text \<open>\<open>std::to_string\<close> on the signed and the unsigned reading of a 64-bit value.\<close>

fun decimal :: "nat \<Rightarrow> string" where
  "decimal n = (if n < 10 then [kDigits ! n] else decimal (n div 10) @ [kDigits ! (n mod 10)])"

declare decimal.simps [simp del]

definition to_string_u64 :: "u64 \<Rightarrow> string" where
  "to_string_u64 v = decimal (unat v)"

definition to_string_i64 :: "i64 \<Rightarrow> string" where
  "to_string_i64 v = (if sint v < 0 then ''-'' @ decimal (nat (- sint v)) else decimal (nat (sint v)))"

fun Render :: "AttributeValue \<Rightarrow> string" where
  "Render Value_Absent = ''<absent>''"
| "Render (Value_Boolean b) = (if b then ''true'' else ''false'')"
| "Render (Value_Integer i) = to_string_i64 i"
| "Render (Value_Unsigned u) = to_string_u64 u"
| "Render (Value_Text t) = ''text:'' @ t"
| "Render (Value_Token t) = t"
| "Render Value_Invalid = ''<invalid>''"

type_synonym SubjectState = "(AttributeKey, AttributeValue) omap"

definition count_u32 :: "'a list \<Rightarrow> u32" where
  "count_u32 xs = of_nat (length xs)"

definition state_entry_Encode :: "AttributeKey \<times> AttributeValue \<Rightarrow> put list" where
  "state_entry_Encode e = PutText (str (fst e)) # value_Encode (snd e)"

definition state_puts :: "SubjectState \<Rightarrow> put list" where
  "state_puts st = PutU32 (count_u32 st) # concat (map state_entry_Encode st)"

definition DigestOfState :: "SubjectState \<Rightarrow> Sha256Digest" where
  "DigestOfState st = puts_digest (state_puts st)"

section \<open>Round trip of values\<close>

lemma text_fits: "length t \<le> kMaxAttributeTextLength \<Longrightarrow> length t \<le> kMaxCanonicalBytes"
  by (simp add: kMaxAttributeTextLength_def kMaxCanonicalBytes_def)

interpretation value_codec: codec value_Encode value_Decode value_IsValid
proof
  fix x r
  assume "value_IsValid x"
  then show "value_Decode (octets (value_Encode x) @ r) = Some (x, r)"
    by (cases x) (simp_all add: value_Decode_def text_fits)
next
  fix r x s
  assume "value_Decode r = Some (x, s)"
  then show "value_IsValid x"
    by (auto simp: value_Decode_def split: if_splits)
qed

lemma unat_count_u32: "length xs < 2 ^ 32 \<Longrightarrow> unat (count_u32 xs) = length xs"
  by (simp add: count_u32_def unat_of_nat)

text \<open>Kinds print and parse back, the invalid kind excepted; values of different kinds differ.\<close>

lemma kind_text_parse:
  "TryParseAttributeKind (AttributeKind_text k) = (if k = Kind_Invalid then None else Some k)"
  by (cases k) (simp_all add: TryParseAttributeKind_def)

lemma ComparableWith_refl: "value_IsValid v \<Longrightarrow> ComparableWith v v"
  by (cases v) (simp_all add: ComparableWith_def)

end
