(* ===== verification/Document.thy ===== *)
theory Document
  imports Attr_Value
begin

text \<open>
  \<open>document.hpp\<close> and \<open>document.cpp\<close>: intents, observation submissions and recorded observations,
  their validation, digests and canonical encodings. The decoders of the three document types are
  shown inverse to their encoders and to accept only well-formed documents whose stored digest is
  the digest of their contents.
\<close>

definition kCanonicalSchemaVersion :: u16 where
  "kCanonicalSchemaVersion = 1"

section \<open>Documents\<close>

record SubjectIntent =
  si_id :: SubjectId
  si_complete_attributes :: bool
  si_desired :: SubjectState

record SubjectObservation =
  so_id :: SubjectId
  so_complete_attributes :: bool
  so_observed :: SubjectState

record IntentDocument =
  in_intent :: IntentId
  in_scope :: ScopeId
  in_definition :: DefinitionId
  in_generation :: IntentGeneration
  in_policy_version :: PolicyVersion
  in_evidence :: EvidenceClass
  in_complete :: bool
  in_subjects :: "(SubjectId, SubjectIntent) omap"
  in_digest :: Sha256Digest

record ObservationSubmission =
  su_observation :: ObservationId
  su_scope :: ScopeId
  su_reporter :: ReporterId
  su_generation :: ObservationGeneration
  su_evidence :: EvidenceClass
  su_complete :: bool
  su_authoritative_absence :: bool
  su_subjects :: "(SubjectId, SubjectObservation) omap"

record ObservationDocument =
  ob_observation :: ObservationId
  ob_scope :: ScopeId
  ob_reporter :: ReporterId
  ob_generation :: ObservationGeneration
  ob_evidence :: EvidenceClass
  ob_complete :: bool
  ob_authoritative_absence :: bool
  ob_received_epoch :: CoordinatorEpoch
  ob_received_unix_ms :: UnixMillis
  ob_subjects :: "(SubjectId, SubjectObservation) omap"
  ob_digest :: Sha256Digest

section \<open>Encodings\<close>

text \<open>\<open>EncodeState\<close> is the same call sequence as the one \<open>DigestOfState\<close> hashes.\<close>

definition EncodeState :: "SubjectState \<Rightarrow> put list" where
  "EncodeState st = PutU32 (count_u32 st) # concat (map state_entry_Encode st)"

definition state_entry_Decode :: "(AttributeKey \<times> AttributeValue) reader" where
  "state_entry_Decode r =
     do { (t, r) \<leftarrow> ReadText r; key \<leftarrow> TryParseId t; (v, r) \<leftarrow> value_Decode r; Some ((key, v), r) }"

definition DecodeState :: "RuntimeLimits \<Rightarrow> SubjectState reader" where
  "DecodeState limits r =
     do { (count, r) \<leftarrow> ReadU32 r;
          if unat count > max_attributes_per_subject limits then None
          else read_map (unat count) state_entry_Decode [] r }"

definition subject_intent_puts :: "SubjectId \<times> SubjectIntent \<Rightarrow> put list" where
  "subject_intent_puts e =
     PutText (str (fst e)) # PutBool (si_complete_attributes (snd e)) # EncodeState (si_desired (snd e))"

definition subject_observation_puts :: "SubjectId \<times> SubjectObservation \<Rightarrow> put list" where
  "subject_observation_puts e =
     PutText (str (fst e)) # PutBool (so_complete_attributes (snd e)) # EncodeState (so_observed (snd e))"

definition intent_content_puts :: "IntentDocument \<Rightarrow> put list" where
  "intent_content_puts d =
     [PutText (str (in_intent d)), PutText (str (in_scope d)), PutText (str (in_definition d)),
      PutU64 (cval (in_generation d)), PutU64 (cval (in_policy_version d)),
      PutU8 (EvidenceClass_u8 (in_evidence d)), PutBool (in_complete d),
      PutU32 (count_u32 (in_subjects d))] @ concat (map subject_intent_puts (in_subjects d))"

definition ComputeIntentDigest :: "IntentDocument \<Rightarrow> Sha256Digest" where
  "ComputeIntentDigest d = puts_digest (PutU16 kCanonicalSchemaVersion # intent_content_puts d)"

definition intent_puts :: "IntentDocument \<Rightarrow> put list" where
  "intent_puts d = intent_content_puts d @ [PutDigest (in_digest d)]"

definition EncodeIntent :: "IntentDocument \<Rightarrow> bytes" where
  "EncodeIntent d = puts_buffer (intent_puts d)"

definition observation_content_puts :: "ObservationDocument \<Rightarrow> put list" where
  "observation_content_puts d =
     [PutText (str (ob_observation d)), PutText (str (ob_scope d)), PutText (str (ob_reporter d)),
      PutU64 (cval (ob_generation d)), PutU8 (EvidenceClass_u8 (ob_evidence d)),
      PutBool (ob_complete d), PutBool (ob_authoritative_absence d),
      PutU64 (cval (ob_received_epoch d)), PutI64 (ob_received_unix_ms d),
      PutU32 (count_u32 (ob_subjects d))] @ concat (map subject_observation_puts (ob_subjects d))"

definition ComputeObservationDigest :: "ObservationDocument \<Rightarrow> Sha256Digest" where
  "ComputeObservationDigest d =
     puts_digest (PutU16 kCanonicalSchemaVersion # observation_content_puts d)"

definition observation_puts :: "ObservationDocument \<Rightarrow> put list" where
  "observation_puts d = observation_content_puts d @ [PutDigest (ob_digest d)]"

definition EncodeObservation :: "ObservationDocument \<Rightarrow> bytes" where
  "EncodeObservation d = puts_buffer (observation_puts d)"

definition submission_puts :: "ObservationSubmission \<Rightarrow> put list" where
  "submission_puts d =
     [PutText (str (su_observation d)), PutText (str (su_scope d)), PutText (str (su_reporter d)),
      PutU64 (cval (su_generation d)), PutU8 (EvidenceClass_u8 (su_evidence d)),
      PutBool (su_complete d), PutBool (su_authoritative_absence d),
      PutU32 (count_u32 (su_subjects d))] @ concat (map subject_observation_puts (su_subjects d))"

definition EncodeSubmission :: "ObservationSubmission \<Rightarrow> bytes" where
  "EncodeSubmission d = puts_buffer (submission_puts d)"

section \<open>Decoders\<close>

definition subject_intent_Decode :: "RuntimeLimits \<Rightarrow> (SubjectId \<times> SubjectIntent) reader" where
  "subject_intent_Decode limits r =
     do { (t, r) \<leftarrow> ReadText r; (attributes_complete, r) \<leftarrow> ReadBool r;
          subject \<leftarrow> TryParseId t;
          (desired, r) \<leftarrow> DecodeState limits r;
          Some ((subject, \<lparr>si_id = subject, si_complete_attributes = attributes_complete,
                           si_desired = desired\<rparr>), r) }"

definition subject_observation_Decode :: "RuntimeLimits \<Rightarrow> (SubjectId \<times> SubjectObservation) reader" where
  "subject_observation_Decode limits r =
     do { (t, r) \<leftarrow> ReadText r; (attributes_complete, r) \<leftarrow> ReadBool r;
          subject \<leftarrow> TryParseId t;
          (observed, r) \<leftarrow> DecodeState limits r;
          Some ((subject, \<lparr>so_id = subject, so_complete_attributes = attributes_complete,
                           so_observed = observed\<rparr>), r) }"

definition DecodeIntent :: "RuntimeLimits \<Rightarrow> IntentDocument reader" where
  "DecodeIntent limits r =
     do { (intent_text, r) \<leftarrow> ReadText r; (scope_text, r) \<leftarrow> ReadText r;
          (definition_text, r) \<leftarrow> ReadText r; (generation, r) \<leftarrow> ReadU64 r;
          (policy_version, r) \<leftarrow> ReadU64 r; (evidence, r) \<leftarrow> ReadU8 r; (complete, r) \<leftarrow> ReadBool r;
          (count, r) \<leftarrow> ReadU32 r;
          if unat count > max_subjects_per_document limits then None
          else do {
            evidence_class \<leftarrow> EvidenceClass_of_u8 evidence;
            intent \<leftarrow> TryParseId intent_text; scope \<leftarrow> TryParseId scope_text;
            definition_id \<leftarrow> TryParseId definition_text;
            (subjects, r) \<leftarrow> read_map (unat count) (subject_intent_Decode limits) [] r;
            (digest, r) \<leftarrow> ReadDigest r;
            let document = \<lparr>in_intent = intent, in_scope = scope, in_definition = definition_id,
              in_generation = Counter generation, in_policy_version = Counter policy_version,
              in_evidence = evidence_class, in_complete = complete, in_subjects = subjects,
              in_digest = digest\<rparr>;
            if digest \<noteq> ComputeIntentDigest document then None else Some (document, r) } }"

definition DecodeObservation :: "RuntimeLimits \<Rightarrow> ObservationDocument reader" where
  "DecodeObservation limits r =
     do { (observation_text, r) \<leftarrow> ReadText r; (scope_text, r) \<leftarrow> ReadText r;
          (reporter_text, r) \<leftarrow> ReadText r; (generation, r) \<leftarrow> ReadU64 r;
          (evidence, r) \<leftarrow> ReadU8 r; (complete, r) \<leftarrow> ReadBool r;
          (authoritative_absence, r) \<leftarrow> ReadBool r; (received_epoch, r) \<leftarrow> ReadU64 r;
          (received_unix_ms, r) \<leftarrow> ReadI64 r; (count, r) \<leftarrow> ReadU32 r;
          if unat count > max_subjects_per_document limits then None
          else do {
            evidence_class \<leftarrow> EvidenceClass_of_u8 evidence;
            observation \<leftarrow> TryParseId observation_text; scope \<leftarrow> TryParseId scope_text;
            reporter \<leftarrow> TryParseId reporter_text;
            (subjects, r) \<leftarrow> read_map (unat count) (subject_observation_Decode limits) [] r;
            (digest, r) \<leftarrow> ReadDigest r;
            let document = \<lparr>ob_observation = observation, ob_scope = scope, ob_reporter = reporter,
              ob_generation = Counter generation, ob_evidence = evidence_class,
              ob_complete = complete, ob_authoritative_absence = authoritative_absence,
              ob_received_epoch = Counter received_epoch, ob_received_unix_ms = received_unix_ms,
              ob_subjects = subjects, ob_digest = digest\<rparr>;
            if digest \<noteq> ComputeObservationDigest document then None else Some (document, r) } }"

definition DecodeSubmission :: "RuntimeLimits \<Rightarrow> ObservationSubmission reader" where
  "DecodeSubmission limits r =
     do { (observation_text, r) \<leftarrow> ReadText r; (scope_text, r) \<leftarrow> ReadText r;
          (reporter_text, r) \<leftarrow> ReadText r; (generation, r) \<leftarrow> ReadU64 r;
          (evidence, r) \<leftarrow> ReadU8 r; (complete, r) \<leftarrow> ReadBool r;
          (authoritative_absence, r) \<leftarrow> ReadBool r; (count, r) \<leftarrow> ReadU32 r;
          if unat count > max_subjects_per_document limits then None
          else do {
            evidence_class \<leftarrow> EvidenceClass_of_u8 evidence;
            observation \<leftarrow> TryParseId observation_text; scope \<leftarrow> TryParseId scope_text;
            reporter \<leftarrow> TryParseId reporter_text;
            (subjects, r) \<leftarrow> read_map (unat count) (subject_observation_Decode limits) [] r;
            Some (\<lparr>su_observation = observation, su_scope = scope, su_reporter = reporter,
              su_generation = Counter generation, su_evidence = evidence_class,
              su_complete = complete, su_authoritative_absence = authoritative_absence,
              su_subjects = subjects\<rparr>, r) } }"

text \<open>The exact variants refuse trailing bytes.\<close>

definition decode_exactly :: "'a reader \<Rightarrow> bytes \<Rightarrow> 'a option" where
  "decode_exactly d bs = do { (x, r) \<leftarrow> d bs; if AtEnd r then Some x else None }"

definition DecodeIntentExact :: "RuntimeLimits \<Rightarrow> bytes \<Rightarrow> IntentDocument option" where
  "DecodeIntentExact limits bs = decode_exactly (DecodeIntent limits) bs"

definition DecodeObservationExact :: "RuntimeLimits \<Rightarrow> bytes \<Rightarrow> ObservationDocument option" where
  "DecodeObservationExact limits bs = decode_exactly (DecodeObservation limits) bs"

definition DecodeSubmissionExact :: "RuntimeLimits \<Rightarrow> bytes \<Rightarrow> ObservationSubmission option" where
  "DecodeSubmissionExact limits bs = decode_exactly (DecodeSubmission limits) bs"

section \<open>Validation\<close>

text \<open>The loop over the attributes returns the first refusal; \<^const>\<open>None\<close> means none was found.\<close>

fun first_refusal :: "('a \<Rightarrow> Status option) \<Rightarrow> 'a list \<Rightarrow> Status" where
  "first_refusal check [] = Status_Ok"
| "first_refusal check (x # xs) = (case check x of Some s \<Rightarrow> s | None \<Rightarrow> first_refusal check xs)"

definition validate_attribute :: "AttributeKey \<times> AttributeValue \<Rightarrow> Status option" where
  "validate_attribute e =
     (if id_empty (fst e) then Some (Status Code_Rejected Reason_UnsupportedInput)
      else if \<not> value_IsValid (snd e) then Some (Status Code_Rejected Reason_UnsupportedInput)
      else None)"

definition ValidateState :: "SubjectState \<Rightarrow> RuntimeLimits \<Rightarrow> Status" where
  "ValidateState st limits =
     (if length st > max_attributes_per_subject limits
      then Status Code_LimitExceeded Reason_PlanActionLimitReached
      else first_refusal validate_attribute st)"

definition validate_subject :: "('e \<Rightarrow> SubjectState) \<Rightarrow> RuntimeLimits \<Rightarrow> SubjectId \<times> 'e \<Rightarrow> Status option" where
  "validate_subject state_of limits e =
     (if id_empty (fst e) then Some (Status Code_Rejected Reason_UnsupportedInput)
      else let status = ValidateState (state_of (snd e)) limits
           in if \<not> status_ok status then Some status else None)"

definition ValidateIntent :: "IntentDocument \<Rightarrow> RuntimeLimits \<Rightarrow> Status" where
  "ValidateIntent d limits =
     (if id_empty (in_intent d) \<or> id_empty (in_scope d) \<or> id_empty (in_definition d)
      then Status Code_Rejected Reason_UnsupportedInput
      else if length (in_subjects d) > max_subjects_per_document limits
      then Status Code_LimitExceeded Reason_PlanActionLimitReached
      else first_refusal (validate_subject si_desired limits) (in_subjects d))"

definition ValidateObservation :: "ObservationDocument \<Rightarrow> RuntimeLimits \<Rightarrow> Status" where
  "ValidateObservation d limits =
     (if id_empty (ob_observation d) \<or> id_empty (ob_scope d) \<or> id_empty (ob_reporter d)
      then Status Code_Rejected Reason_UnsupportedInput
      else if length (ob_subjects d) > max_subjects_per_document limits
      then Status Code_LimitExceeded Reason_PlanActionLimitReached
      else first_refusal (validate_subject so_observed limits) (ob_subjects d))"

definition ValidateSubmission :: "ObservationSubmission \<Rightarrow> RuntimeLimits \<Rightarrow> Status" where
  "ValidateSubmission d limits =
     (if id_empty (su_observation d) \<or> id_empty (su_scope d) \<or> id_empty (su_reporter d)
      then Status Code_Rejected Reason_UnsupportedInput
      else if length (su_subjects d) > max_subjects_per_document limits
      then Status Code_LimitExceeded Reason_PlanActionLimitReached
      else first_refusal (validate_subject so_observed limits) (su_subjects d))"

section \<open>Well-formed documents\<close>

text \<open>
  The predicates the decoders establish and the encoders need. \<open>state_ok\<close> bounds the count by
  32 bits because the encoders write it as a \<open>uint32_t\<close>.
\<close>

definition state_entry_ok :: "AttributeKey \<times> AttributeValue \<Rightarrow> bool" where
  "state_entry_ok e \<longleftrightarrow> valid_id (fst e) \<and> value_IsValid (snd e)"

definition state_ok :: "RuntimeLimits \<Rightarrow> SubjectState \<Rightarrow> bool" where
  "state_ok limits st \<longleftrightarrow> list_all state_entry_ok st \<and> wf_map st \<and>
     length st \<le> max_attributes_per_subject limits \<and> length st < 2 ^ 32"

definition subject_intent_ok :: "RuntimeLimits \<Rightarrow> SubjectId \<times> SubjectIntent \<Rightarrow> bool" where
  "subject_intent_ok limits e \<longleftrightarrow>
     valid_id (fst e) \<and> si_id (snd e) = fst e \<and> state_ok limits (si_desired (snd e))"

definition subject_observation_ok :: "RuntimeLimits \<Rightarrow> SubjectId \<times> SubjectObservation \<Rightarrow> bool" where
  "subject_observation_ok limits e \<longleftrightarrow>
     valid_id (fst e) \<and> so_id (snd e) = fst e \<and> state_ok limits (so_observed (snd e))"

definition subjects_ok :: "RuntimeLimits \<Rightarrow> ('k::linorder \<times> 'v \<Rightarrow> bool) \<Rightarrow> ('k, 'v) omap \<Rightarrow> bool" where
  "subjects_ok limits ok m \<longleftrightarrow> list_all ok m \<and> wf_map m \<and>
     length m \<le> max_subjects_per_document limits \<and> length m < 2 ^ 32"

definition intent_ok :: "RuntimeLimits \<Rightarrow> IntentDocument \<Rightarrow> bool" where
  "intent_ok limits d \<longleftrightarrow>
     valid_id (in_intent d) \<and> valid_id (in_scope d) \<and> valid_id (in_definition d) \<and>
     subjects_ok limits (subject_intent_ok limits) (in_subjects d) \<and>
     in_digest d = ComputeIntentDigest d"

definition observation_ok :: "RuntimeLimits \<Rightarrow> ObservationDocument \<Rightarrow> bool" where
  "observation_ok limits d \<longleftrightarrow>
     valid_id (ob_observation d) \<and> valid_id (ob_scope d) \<and> valid_id (ob_reporter d) \<and>
     subjects_ok limits (subject_observation_ok limits) (ob_subjects d) \<and>
     ob_digest d = ComputeObservationDigest d"

definition submission_ok :: "RuntimeLimits \<Rightarrow> ObservationSubmission \<Rightarrow> bool" where
  "submission_ok limits d \<longleftrightarrow>
     valid_id (su_observation d) \<and> valid_id (su_scope d) \<and> valid_id (su_reporter d) \<and>
     subjects_ok limits (subject_observation_ok limits) (su_subjects d)"

section \<open>Round trips\<close>

lemma valid_id_fits [simp]: "valid_id i \<Longrightarrow> length (str i) \<le> kMaxCanonicalBytes"
  by (drule valid_id_length) (simp add: kMaxIdentityLength_def kMaxCanonicalBytes_def)

lemma unat_u32_bound: "unat (v :: u32) < 2 ^ 32"
  using unsigned_less [of v, where ?'a = nat] by simp

interpretation state_entry_codec: map_codec state_entry_Encode state_entry_Decode state_entry_ok
proof
  fix x r
  assume "state_entry_ok x"
  then show "state_entry_Decode (octets (state_entry_Encode x) @ r) = Some (x, r)"
    by (cases x) (simp add: state_entry_ok_def state_entry_Decode_def state_entry_Encode_def
        value_codec.decode_encode)
next
  fix r x s
  assume "state_entry_Decode r = Some (x, s)"
  then show "state_entry_ok x"
    by (auto simp: state_entry_Decode_def state_entry_ok_def dest: value_codec.decode_ok)
qed

interpretation state_codec: codec EncodeState "DecodeState limits" "state_ok limits" for limits
proof
  fix x r
  assume "state_ok limits x"
  then show "DecodeState limits (octets (EncodeState x) @ r) = Some (x, r)"
    by (simp add: state_ok_def DecodeState_def EncodeState_def unat_count_u32
        state_entry_codec.decode_map)
next
  fix r x s
  assume "DecodeState limits r = Some (x, s)"
  then show "state_ok limits x"
    by (auto simp: DecodeState_def state_ok_def unat_u32_bound [simplified]
        dest!: state_entry_codec.decode_map_ok split: if_splits)
qed

interpretation subject_intent_codec:
  map_codec subject_intent_puts "subject_intent_Decode limits" "subject_intent_ok limits" for limits
proof
  fix x r
  assume "subject_intent_ok limits x"
  then show "subject_intent_Decode limits (octets (subject_intent_puts x) @ r) = Some (x, r)"
    by (cases x) (simp add: subject_intent_ok_def subject_intent_Decode_def subject_intent_puts_def
        state_codec.decode_encode)
next
  fix r x s
  assume "subject_intent_Decode limits r = Some (x, s)"
  then show "subject_intent_ok limits x"
    by (auto simp: subject_intent_Decode_def subject_intent_ok_def dest: state_codec.decode_ok)
qed

interpretation subject_observation_codec:
  map_codec subject_observation_puts "subject_observation_Decode limits" "subject_observation_ok limits"
  for limits
proof
  fix x r
  assume "subject_observation_ok limits x"
  then show "subject_observation_Decode limits (octets (subject_observation_puts x) @ r) = Some (x, r)"
    by (cases x) (simp add: subject_observation_ok_def subject_observation_Decode_def
        subject_observation_puts_def state_codec.decode_encode)
next
  fix r x s
  assume "subject_observation_Decode limits r = Some (x, s)"
  then show "subject_observation_ok limits x"
    by (auto simp: subject_observation_Decode_def subject_observation_ok_def
        dest: state_codec.decode_ok)
qed

lemma intent_digest_update [simp]: "ComputeIntentDigest (d\<lparr>in_digest := x\<rparr>) = ComputeIntentDigest d"
  by (simp add: ComputeIntentDigest_def intent_content_puts_def)

lemma observation_digest_update [simp]:
  "ComputeObservationDigest (d\<lparr>ob_digest := x\<rparr>) = ComputeObservationDigest d"
  by (simp add: ComputeObservationDigest_def observation_content_puts_def)

lemma wf_intent_digest [simp]: "wf_digest (ComputeIntentDigest d)"
  by (simp add: ComputeIntentDigest_def)

lemma wf_observation_digest [simp]: "wf_digest (ComputeObservationDigest d)"
  by (simp add: ComputeObservationDigest_def)

lemma subjects_ok_decoded:
  "list_all ok m \<Longrightarrow> wf_map m \<Longrightarrow> length m = unat (n :: u32) \<Longrightarrow>
     \<not> max_subjects_per_document limits < unat n \<Longrightarrow> subjects_ok limits ok m"
  using unat_u32_bound [of n] by (simp add: subjects_ok_def)

interpretation intent_codec: codec intent_puts "DecodeIntent limits" "intent_ok limits" for limits
proof
  fix x r
  assume ok: "intent_ok limits x"
  then have "wf_digest (in_digest x)" by (simp add: intent_ok_def)
  with ok show "DecodeIntent limits (octets (intent_puts x) @ r) = Some (x, r)"
    by (cases x) (simp add: intent_ok_def subjects_ok_def DecodeIntent_def intent_puts_def
        intent_content_puts_def Let_def unat_count_u32 subject_intent_codec.decode_map)
next
  fix r x s
  assume "DecodeIntent limits r = Some (x, s)"
  then show "intent_ok limits x"
    by (auto simp: DecodeIntent_def intent_ok_def Let_def dest!: subject_intent_codec.decode_map_ok
        intro: subjects_ok_decoded split: if_splits)
qed

interpretation observation_codec:
  codec observation_puts "DecodeObservation limits" "observation_ok limits" for limits
proof
  fix x r
  assume ok: "observation_ok limits x"
  then have "wf_digest (ob_digest x)" by (simp add: observation_ok_def)
  with ok show "DecodeObservation limits (octets (observation_puts x) @ r) = Some (x, r)"
    by (cases x) (simp add: observation_ok_def subjects_ok_def DecodeObservation_def
        observation_puts_def observation_content_puts_def Let_def unat_count_u32
        subject_observation_codec.decode_map)
next
  fix r x s
  assume "DecodeObservation limits r = Some (x, s)"
  then show "observation_ok limits x"
    by (auto simp: DecodeObservation_def observation_ok_def Let_def
        dest!: subject_observation_codec.decode_map_ok intro: subjects_ok_decoded split: if_splits)
qed

interpretation submission_codec:
  codec submission_puts "DecodeSubmission limits" "submission_ok limits" for limits
proof
  fix x r
  assume "submission_ok limits x"
  then show "DecodeSubmission limits (octets (submission_puts x) @ r) = Some (x, r)"
    by (cases x) (simp add: submission_ok_def subjects_ok_def DecodeSubmission_def
        submission_puts_def unat_count_u32 subject_observation_codec.decode_map)
next
  fix r x s
  assume "DecodeSubmission limits r = Some (x, s)"
  then show "submission_ok limits x"
    by (auto simp: DecodeSubmission_def submission_ok_def
        dest!: subject_observation_codec.decode_map_ok intro: subjects_ok_decoded split: if_splits)
qed

section \<open>Validation accepts exactly the bounded documents\<close>

lemma first_refusal_ok:
  "(\<And>x s. x \<in> set xs \<Longrightarrow> check x = Some s \<Longrightarrow> \<not> status_ok s) \<Longrightarrow>
     status_ok (first_refusal check xs) \<longleftrightarrow> (\<forall>x \<in> set xs. check x = None)"
  by (induction xs) (auto split: option.splits)

lemma ValidateState_ok:
  "status_ok (ValidateState st limits) \<longleftrightarrow>
     length st \<le> max_attributes_per_subject limits \<and>
     (\<forall>(k, v) \<in> set st. \<not> id_empty k \<and> value_IsValid v)"
proof -
  have "status_ok (first_refusal validate_attribute st) \<longleftrightarrow> (\<forall>e \<in> set st. validate_attribute e = None)"
    by (rule first_refusal_ok) (auto simp: validate_attribute_def split: if_splits)
  then show ?thesis
    by (auto simp: ValidateState_def validate_attribute_def split: if_splits)
qed

lemma validate_subject_ok:
  "status_ok (first_refusal (validate_subject state_of limits) m) \<longleftrightarrow>
     (\<forall>(k, e) \<in> set m. \<not> id_empty k \<and> status_ok (ValidateState (state_of e) limits))"
  by (subst first_refusal_ok)
    (auto simp: validate_subject_def Let_def split: if_splits prod.splits)

text \<open>
  What the types guarantee of any document: identities are parsed or default, maps are sorted,
  the stored subject identity is the key, and no count reaches 32 bits.
\<close>

definition state_typed :: "SubjectState \<Rightarrow> bool" where
  "state_typed st \<longleftrightarrow> wf_map st \<and> length st < 2 ^ 32 \<and> (\<forall>(k, v) \<in> set st. wf_id k)"

definition intent_typed :: "IntentDocument \<Rightarrow> bool" where
  "intent_typed d \<longleftrightarrow>
     wf_id (in_intent d) \<and> wf_id (in_scope d) \<and> wf_id (in_definition d) \<and>
     wf_map (in_subjects d) \<and> length (in_subjects d) < 2 ^ 32 \<and>
     (\<forall>(k, e) \<in> set (in_subjects d). wf_id k \<and> si_id e = k \<and> state_typed (si_desired e))"

definition submission_typed :: "ObservationSubmission \<Rightarrow> bool" where
  "submission_typed d \<longleftrightarrow>
     wf_id (su_observation d) \<and> wf_id (su_scope d) \<and> wf_id (su_reporter d) \<and>
     wf_map (su_subjects d) \<and> length (su_subjects d) < 2 ^ 32 \<and>
     (\<forall>(k, e) \<in> set (su_subjects d). wf_id k \<and> so_id e = k \<and> state_typed (so_observed e))"

lemma state_ok_validated:
  "state_typed st \<Longrightarrow> status_ok (ValidateState st limits) \<longleftrightarrow> state_ok limits st"
  by (fastforce simp: state_typed_def ValidateState_ok state_ok_def state_entry_ok_def list_all_iff
      wf_id_def dest: valid_id_nonempty)

lemma ValidateIntent_ok:
  assumes "intent_typed d" "in_digest d = ComputeIntentDigest d"
  shows "status_ok (ValidateIntent d limits) \<longleftrightarrow> intent_ok limits d"
proof -
  have "status_ok (first_refusal (validate_subject si_desired limits) (in_subjects d)) \<longleftrightarrow>
      list_all (subject_intent_ok limits) (in_subjects d)"
    using assms(1) unfolding validate_subject_ok
    by (fastforce simp: intent_typed_def list_all_iff subject_intent_ok_def wf_id_def
        state_ok_validated dest: valid_id_nonempty)
  then show ?thesis
    using assms
    by (auto simp: ValidateIntent_def intent_ok_def subjects_ok_def intent_typed_def wf_id_def
        dest: valid_id_nonempty)
qed

lemma ValidateSubmission_ok:
  assumes "submission_typed d"
  shows "status_ok (ValidateSubmission d limits) \<longleftrightarrow> submission_ok limits d"
proof -
  have "status_ok (first_refusal (validate_subject so_observed limits) (su_subjects d)) \<longleftrightarrow>
      list_all (subject_observation_ok limits) (su_subjects d)"
    using assms unfolding validate_subject_ok
    by (fastforce simp: submission_typed_def list_all_iff subject_observation_ok_def wf_id_def
        state_ok_validated dest: valid_id_nonempty)
  then show ?thesis
    using assms
    by (auto simp: ValidateSubmission_def submission_ok_def subjects_ok_def submission_typed_def
        wf_id_def dest: valid_id_nonempty)
qed

text \<open>What a decoder accepts is a document its callers can pass on.\<close>

lemma state_ok_typed: "state_ok limits st \<Longrightarrow> state_typed st"
  by (auto simp: state_ok_def state_typed_def list_all_iff state_entry_ok_def wf_id_def)

lemma intent_ok_typed: "intent_ok limits d \<Longrightarrow> intent_typed d"
  by (force simp: intent_ok_def intent_typed_def subjects_ok_def list_all_iff subject_intent_ok_def
      wf_id_def intro: state_ok_typed)

lemma submission_ok_typed: "submission_ok limits d \<Longrightarrow> submission_typed d"
  by (force simp: submission_ok_def submission_typed_def subjects_ok_def list_all_iff subject_observation_ok_def
      wf_id_def intro: state_ok_typed)

lemma decode_exactly_Some: "decode_exactly d bs = Some x \<longleftrightarrow> d bs = Some (x, [])"
  by (auto simp: decode_exactly_def AtEnd_def split: if_splits)

end
