(* ===== verification/Policy.thy ===== *)
theory Policy
  imports Document
begin

text \<open>
  \<open>policy.hpp\<close> and \<open>policy.cpp\<close>: the reconciliation policy, its canonical form, digest and
  encoding, and the two attribute lookups by binary search. Canonicalisation is shown to be
  idempotent and to depend on the sets of listed attributes only, binary search to be membership
  on canonical policies, and the codec to accept canonical policies only.
\<close>

record FreshnessPolicy =
  max_observation_age_ms :: i64
  require_current_epoch :: bool
  require_complete_coverage_for_absence :: bool

record ReconciliationPolicy =
  po_id :: PolicyId
  po_version :: PolicyVersion
  po_freshness :: FreshnessPolicy
  permit_apply_missing :: bool
  permit_apply_mismatched :: bool
  permit_withdraw_unexpected :: bool
  require_complete_coverage_for_convergence_proof :: bool
  require_independent_verification :: bool
  unmanaged_attributes :: "AttributeKey list"
  observe_only_attributes :: "AttributeKey list"

definition DefaultPolicy :: ReconciliationPolicy where
  "DefaultPolicy =
     \<lparr>po_id = (case TryParseId ''default/fail-closed'' of Some i \<Rightarrow> i | None \<Rightarrow> StringId []),
      po_version = Counter 1,
      po_freshness = \<lparr>max_observation_age_ms = 30000, require_current_epoch = True,
        require_complete_coverage_for_absence = True\<rparr>,
      permit_apply_missing = True, permit_apply_mismatched = True,
      permit_withdraw_unexpected = True, require_complete_coverage_for_convergence_proof = True,
      require_independent_verification = True,
      unmanaged_attributes = [], observe_only_attributes = []\<rparr>"

text \<open>\<open>std::sort\<close> followed by erasing what \<open>std::unique\<close> moved behind the end.\<close>

definition sort_unique :: "AttributeKey list \<Rightarrow> AttributeKey list" where
  "sort_unique xs = remdups_adj (sort xs)"

definition policy_list_bound :: "RuntimeLimits \<Rightarrow> nat" where
  "policy_list_bound limits = max_attributes_per_subject limits * 16"

text \<open>The policy is updated in place: the second component is its value afterwards.\<close>

definition CanonicalisePolicy ::
    "RuntimeLimits \<Rightarrow> ReconciliationPolicy \<Rightarrow> Status \<times> ReconciliationPolicy" where
  "CanonicalisePolicy limits p =
     (if id_empty (po_id p) then (Status Code_Rejected Reason_UnsupportedInput, p)
      else if sint (max_observation_age_ms (po_freshness p)) < 0
      then (Status Code_Rejected Reason_UnsupportedInput, p)
      else if length (unmanaged_attributes p) > policy_list_bound limits \<or>
              length (observe_only_attributes p) > policy_list_bound limits
      then (Status Code_LimitExceeded Reason_PlanActionLimitReached, p)
      else let p = p\<lparr>unmanaged_attributes := sort_unique (unmanaged_attributes p),
                     observe_only_attributes := sort_unique (observe_only_attributes p)\<rparr>
           in if list_ex id_empty (unmanaged_attributes p)
              then (Status Code_Rejected Reason_UnsupportedInput, p)
              else if list_ex id_empty (observe_only_attributes p)
              then (Status Code_Rejected Reason_UnsupportedInput, p)
              else (Status_Ok, p))"

definition key_list_puts :: "AttributeKey list \<Rightarrow> put list" where
  "key_list_puts ks = PutU32 (count_u32 ks) # map (\<lambda>k. PutText (str k)) ks"

definition policy_content_puts :: "ReconciliationPolicy \<Rightarrow> put list" where
  "policy_content_puts p =
     [PutU16 kCanonicalSchemaVersion, PutText (str (po_id p)), PutU64 (cval (po_version p)),
      PutI64 (max_observation_age_ms (po_freshness p)),
      PutBool (require_current_epoch (po_freshness p)),
      PutBool (require_complete_coverage_for_absence (po_freshness p)),
      PutBool (permit_apply_missing p), PutBool (permit_apply_mismatched p),
      PutBool (permit_withdraw_unexpected p),
      PutBool (require_complete_coverage_for_convergence_proof p),
      PutBool (require_independent_verification p)] @
     key_list_puts (unmanaged_attributes p) @ key_list_puts (observe_only_attributes p)"

definition ComputePolicyDigest :: "ReconciliationPolicy \<Rightarrow> Sha256Digest" where
  "ComputePolicyDigest p = puts_digest (policy_content_puts p)"

definition policy_puts :: "ReconciliationPolicy \<Rightarrow> put list" where
  "policy_puts p = policy_content_puts p @ [PutDigest (ComputePolicyDigest p)]"

definition EncodePolicy :: "ReconciliationPolicy \<Rightarrow> bytes" where
  "EncodePolicy p = puts_buffer (policy_puts p)"

definition ReadKey :: "AttributeKey reader" where
  "ReadKey r = do { (t, r) \<leftarrow> ReadText r; k \<leftarrow> TryParseId t; Some (k, r) }"

definition ReadKeyList :: "RuntimeLimits \<Rightarrow> AttributeKey list reader" where
  "ReadKeyList limits r =
     do { (count, r) \<leftarrow> ReadU32 r;
          if unat count > policy_list_bound limits then None else read_n (unat count) ReadKey r }"

text \<open>The end of \<open>DecodePolicy\<close>: canonicalise what was read, then compare the stored digest.\<close>

definition policy_checked :: "RuntimeLimits \<Rightarrow> ReconciliationPolicy \<Rightarrow> ReconciliationPolicy reader" where
  "policy_checked limits p r =
     (let (status, policy) = CanonicalisePolicy limits p
      in if \<not> status_ok status then None
         else do { (digest, r) \<leftarrow> ReadDigest r;
                   if digest \<noteq> ComputePolicyDigest policy then None else Some (policy, r) })"

definition DecodePolicy :: "RuntimeLimits \<Rightarrow> ReconciliationPolicy reader" where
  "DecodePolicy limits r =
     do { (schema, r) \<leftarrow> ReadU16 r;
          if schema \<noteq> kCanonicalSchemaVersion then None
          else do {
            (id_text, r) \<leftarrow> ReadText r; (version, r) \<leftarrow> ReadU64 r; (max_age, r) \<leftarrow> ReadI64 r;
            (require_epoch, r) \<leftarrow> ReadBool r; (require_coverage, r) \<leftarrow> ReadBool r;
            (apply_missing, r) \<leftarrow> ReadBool r; (apply_mismatched, r) \<leftarrow> ReadBool r;
            (withdraw, r) \<leftarrow> ReadBool r; (convergence_proof, r) \<leftarrow> ReadBool r;
            (independent, r) \<leftarrow> ReadBool r;
            pid \<leftarrow> TryParseId id_text;
            (unmanaged, r) \<leftarrow> ReadKeyList limits r;
            (observe_only, r) \<leftarrow> ReadKeyList limits r;
            policy_checked limits
              \<lparr>po_id = pid, po_version = Counter version,
               po_freshness = \<lparr>max_observation_age_ms = max_age, require_current_epoch = require_epoch,
                 require_complete_coverage_for_absence = require_coverage\<rparr>,
               permit_apply_missing = apply_missing, permit_apply_mismatched = apply_mismatched,
               permit_withdraw_unexpected = withdraw,
               require_complete_coverage_for_convergence_proof = convergence_proof,
               require_independent_verification = independent,
               unmanaged_attributes = unmanaged, observe_only_attributes = observe_only\<rparr> r } }"

definition DecodePolicyExact :: "RuntimeLimits \<Rightarrow> bytes \<Rightarrow> ReconciliationPolicy option" where
  "DecodePolicyExact limits bs = decode_exactly (DecodePolicy limits) bs"

text \<open>
  \<open>std::binary_search\<close>: halve \<open>[first, first + len)\<close> until it is empty, then compare the element
  found.
\<close>

function lower_bound :: "'a::linorder list \<Rightarrow> 'a \<Rightarrow> nat \<Rightarrow> nat \<Rightarrow> nat" where
  "lower_bound xs k first len =
     (if len = 0 then first
      else let half = len div 2 in
        if xs ! (first + half) < k then lower_bound xs k (first + half + 1) (len - half - 1)
        else lower_bound xs k first half)"
  by pat_completeness auto
termination by (relation "measure (\<lambda>(xs, k, first, len). len)") auto

declare lower_bound.simps [simp del]

definition binary_search :: "'a::linorder list \<Rightarrow> 'a \<Rightarrow> bool" where
  "binary_search xs k =
     (let i = lower_bound xs k 0 (length xs) in i \<noteq> length xs \<and> \<not> k < xs ! i)"

definition IsAttributeUnmanaged :: "ReconciliationPolicy \<Rightarrow> AttributeKey \<Rightarrow> bool" where
  "IsAttributeUnmanaged p k = binary_search (unmanaged_attributes p) k"

definition IsAttributeObserveOnly :: "ReconciliationPolicy \<Rightarrow> AttributeKey \<Rightarrow> bool" where
  "IsAttributeObserveOnly p k = binary_search (observe_only_attributes p) k"

section \<open>Binary search is membership\<close>

lemma lower_bound_spec:
  assumes "sorted xs" "first + len \<le> length xs"
    "\<forall>i < first. xs ! i < k" "\<forall>i. first + len \<le> i \<and> i < length xs \<longrightarrow> k \<le> xs ! i"
  shows "lower_bound xs k first len \<le> length xs \<and>
    (\<forall>i < lower_bound xs k first len. xs ! i < k) \<and>
    (\<forall>i. lower_bound xs k first len \<le> i \<and> i < length xs \<longrightarrow> k \<le> xs ! i)"
  using assms
proof (induction xs k first len rule: lower_bound.induct)
  case (1 xs k first len)
  let ?half = "len div 2"
  show ?case
  proof (cases "len = 0")
    case True
    then show ?thesis using "1.prems" by (simp add: lower_bound.simps)
  next
    case False
    then have half: "?half < len" by simp
    show ?thesis
    proof (cases "xs ! (first + ?half) < k")
      case True
      have below: "xs ! i < k" if "i < first + ?half + 1" for i
      proof -
        have "xs ! i \<le> xs ! (first + ?half)"
          using that half "1.prems"(1,2) by (intro sorted_nth_mono) auto
        then show ?thesis using True by simp
      qed
      have split_end: "first + ?half + 1 + (len - ?half - 1) = first + len" using half by simp
      have "lower_bound xs k first len = lower_bound xs k (first + ?half + 1) (len - ?half - 1)"
        using False True by (simp add: lower_bound.simps [of xs k first len] Let_def)
      then show ?thesis
        using "1.IH"(1) [OF False refl True] "1.prems" below split_end by simp
    next
      case xs_half: False
      have above: "k \<le> xs ! i" if "first + ?half \<le> i" "i < length xs" for i
      proof -
        have "xs ! (first + ?half) \<le> xs ! i"
          using that half "1.prems"(1,2) by (intro sorted_nth_mono) auto
        then show ?thesis using xs_half by simp
      qed
      have "lower_bound xs k first len = lower_bound xs k first ?half"
        using False xs_half by (simp add: lower_bound.simps [of xs k first len] Let_def)
      then show ?thesis
        using "1.IH"(2) [OF False refl xs_half] "1.prems" above half by simp
    qed
  qed
qed

lemma binary_search_member:
  assumes "sorted xs"
  shows "binary_search xs k \<longleftrightarrow> k \<in> set xs"
proof -
  let ?i = "lower_bound xs k 0 (length xs)"
  have outside: "\<forall>i. 0 + length xs \<le> i \<and> i < length xs \<longrightarrow> k \<le> xs ! i" by auto
  have i: "?i \<le> length xs" "\<And>j. j < ?i \<Longrightarrow> xs ! j < k"
    "\<And>j. ?i \<le> j \<Longrightarrow> j < length xs \<Longrightarrow> k \<le> xs ! j"
    using lower_bound_spec [OF assms _ _ outside] by simp_all
  show ?thesis
  proof
    assume "binary_search xs k"
    then have "?i < length xs" "\<not> k < xs ! ?i" using i(1) by (simp_all add: binary_search_def Let_def)
    then have "xs ! ?i = k" "?i < length xs" using i(3) [of ?i] by auto
    then show "k \<in> set xs" by (metis nth_mem)
  next
    assume "k \<in> set xs"
    then obtain j where j: "j < length xs" "xs ! j = k" by (auto simp: in_set_conv_nth)
    then have le: "?i \<le> j" using i(2) [of j] by (metis less_irrefl not_less)
    then have "xs ! ?i \<le> k" using j assms by (metis sorted_nth_mono)
    then show "binary_search xs k" using le j(1) by (simp add: binary_search_def Let_def)
  qed
qed

section \<open>Canonical policies\<close>

lemma set_sort_unique [simp]: "set (sort_unique xs) = set xs"
  by (simp add: sort_unique_def)

lemma sorted_sort_unique [simp]: "sorted (sort_unique xs)"
  by (simp add: sort_unique_def sorted_remdups_adj)

lemma distinct_remdups_sorted: "sorted xs \<Longrightarrow> distinct (remdups_adj xs)"
  by (induction xs rule: remdups_adj.induct) auto

lemma distinct_sort_unique [simp]: "distinct (sort_unique xs)"
  by (simp add: sort_unique_def distinct_remdups_sorted)

lemma sort_unique_id: "sorted xs \<Longrightarrow> distinct xs \<Longrightarrow> sort_unique xs = xs"
  by (simp add: sort_unique_def sorted_sort_id remdups_adj_distinct)

lemma sort_unique_cong: "set xs = set ys \<Longrightarrow> sort_unique xs = sort_unique ys"
  by (rule sorted_distinct_set_unique) simp_all

lemma length_sort_unique: "length (sort_unique xs) \<le> length xs"
  by (metis distinct_card distinct_sort_unique set_sort_unique card_length)

definition canonical_policy :: "RuntimeLimits \<Rightarrow> ReconciliationPolicy \<Rightarrow> bool" where
  "canonical_policy limits p \<longleftrightarrow>
     \<not> id_empty (po_id p) \<and> 0 \<le> sint (max_observation_age_ms (po_freshness p)) \<and>
     (\<forall>ks \<in> {unmanaged_attributes p, observe_only_attributes p}.
        length ks \<le> policy_list_bound limits \<and> sorted ks \<and> distinct ks \<and> \<not> list_ex id_empty ks)"

lemma list_ex_sort_unique [simp]: "list_ex P (sort_unique xs) \<longleftrightarrow> list_ex P xs"
  by (simp add: list_ex_iff)

lemma CanonicalisePolicy_canonical:
  "CanonicalisePolicy limits p = (s, q) \<Longrightarrow> status_ok s \<Longrightarrow> canonical_policy limits q"
  by (auto simp: CanonicalisePolicy_def canonical_policy_def Let_def not_less split: if_splits
      intro: le_trans [OF length_sort_unique])

lemma CanonicalisePolicy_fixed:
  "canonical_policy limits p \<Longrightarrow> CanonicalisePolicy limits p = (Status_Ok, p)"
  by (auto simp: CanonicalisePolicy_def canonical_policy_def Let_def sort_unique_id)

lemma CanonicalisePolicy_lookup:
  assumes "CanonicalisePolicy limits p = (s, q)" "status_ok s"
  shows "IsAttributeUnmanaged q k \<longleftrightarrow> k \<in> set (unmanaged_attributes p)"
    "IsAttributeObserveOnly q k \<longleftrightarrow> k \<in> set (observe_only_attributes p)"
  using assms
  by (auto simp: CanonicalisePolicy_def IsAttributeUnmanaged_def IsAttributeObserveOnly_def
      binary_search_member Let_def split: if_splits)

lemma canonical_policy_lookup:
  assumes "canonical_policy limits p"
  shows "IsAttributeUnmanaged p k \<longleftrightarrow> k \<in> set (unmanaged_attributes p)"
    "IsAttributeObserveOnly p k \<longleftrightarrow> k \<in> set (observe_only_attributes p)"
  using assms
  by (auto simp: canonical_policy_def IsAttributeUnmanaged_def IsAttributeObserveOnly_def
      binary_search_member)

section \<open>Round trip\<close>

definition policy_ok :: "RuntimeLimits \<Rightarrow> ReconciliationPolicy \<Rightarrow> bool" where
  "policy_ok limits p \<longleftrightarrow> canonical_policy limits p \<and> valid_id (po_id p) \<and>
     (\<forall>ks \<in> {unmanaged_attributes p, observe_only_attributes p}.
        list_all valid_id ks \<and> length ks < 2 ^ 32)"

interpretation key_codec: codec "\<lambda>k. [PutText (str k)]" ReadKey valid_id
  by unfold_locales (auto simp: ReadKey_def)

lemma ReadKeyList_put:
  assumes "list_all valid_id ks" "length ks \<le> policy_list_bound limits" "length ks < 2 ^ 32"
  shows "ReadKeyList limits (octets (key_list_puts ks) @ r) = Some (ks, r)"
proof -
  have "map (\<lambda>k. PutText (str k)) ks = concat (map (\<lambda>k. [PutText (str k)]) ks)" by simp
  then show ?thesis
    using assms key_codec.decode_many [of ks r]
    by (simp add: ReadKeyList_def key_list_puts_def unat_count_u32)
qed

lemma ReadKeyList_ok:
  "ReadKeyList limits r = Some (ks, s) \<Longrightarrow>
     list_all valid_id ks \<and> length ks \<le> policy_list_bound limits \<and> length ks < 2 ^ 32"
  using unat_u32_bound
  by (auto simp: ReadKeyList_def dest!: key_codec.decode_many_ok split: if_splits)

lemma policy_ok_canonicalised:
  assumes "CanonicalisePolicy limits p = (s, q)" "status_ok s" "valid_id (po_id p)"
    and "list_all valid_id (unmanaged_attributes p)" "length (unmanaged_attributes p) < 2 ^ 32"
    and "list_all valid_id (observe_only_attributes p)" "length (observe_only_attributes p) < 2 ^ 32"
  shows "policy_ok limits q"
  using assms CanonicalisePolicy_canonical [OF assms(1,2)]
    length_sort_unique [of "unmanaged_attributes p"] length_sort_unique [of "observe_only_attributes p"]
  by (auto simp: policy_ok_def CanonicalisePolicy_def Let_def list_all_iff split: if_splits)

lemma policy_checked_ok:
  assumes "policy_checked limits p r = Some (q, s)" "valid_id (po_id p)"
    and "list_all valid_id (unmanaged_attributes p)" "length (unmanaged_attributes p) < 2 ^ 32"
    and "list_all valid_id (observe_only_attributes p)" "length (observe_only_attributes p) < 2 ^ 32"
  shows "policy_ok limits q"
  using assms by (auto simp: policy_checked_def split: prod.splits if_splits intro: policy_ok_canonicalised)

interpretation policy_codec: codec policy_puts "DecodePolicy limits" "policy_ok limits" for limits
proof
  fix x r
  assume ok: "policy_ok limits x"
  then have lists: "list_all valid_id (unmanaged_attributes x)" "length (unmanaged_attributes x) < 2 ^ 32"
      "length (unmanaged_attributes x) \<le> policy_list_bound limits"
      "list_all valid_id (observe_only_attributes x)" "length (observe_only_attributes x) < 2 ^ 32"
      "length (observe_only_attributes x) \<le> policy_list_bound limits"
    and pid: "valid_id (po_id x)"
    by (simp_all add: policy_ok_def canonical_policy_def)
  have "wf_digest (ComputePolicyDigest x)" by (simp add: ComputePolicyDigest_def)
  moreover have "CanonicalisePolicy limits x = (Status_Ok, x)"
    using ok by (simp add: policy_ok_def CanonicalisePolicy_fixed)
  ultimately show "DecodePolicy limits (octets (policy_puts x) @ r) = Some (x, r)"
    using lists pid by (cases x; cases "po_freshness x")
      (simp add: DecodePolicy_def policy_checked_def policy_puts_def policy_content_puts_def
        ReadKeyList_put)
next
  fix r x s
  assume "DecodePolicy limits r = Some (x, s)"
  then show "policy_ok limits x"
    by (auto simp: DecodePolicy_def dest!: ReadKeyList_ok split: if_splits
        elim!: policy_checked_ok)
qed

end
