(* ===== verification/Authority.thy ===== *)
theory Authority
  imports Policy
begin

text \<open>
  \<open>authority.hpp\<close>, \<open>authority.cpp\<close>, \<open>explain.hpp\<close> and \<open>explain.cpp\<close>: the authority vector behind a
  decision, its comparison with live authority, and bounded explanations. \<open>AssessAuthority\<close> is
  shown to prove authority exactly when every component binds, and its mask to name exactly the
  components that do not.
\<close>

section \<open>Components and masks\<close>

datatype AuthorityComponent = Auth_None | Auth_CoordinatorEpoch | Auth_BootIdentity | Auth_PolicyId
  | Auth_PolicyVersion | Auth_PolicyDigest | Auth_Definition | Auth_IntentGeneration
  | Auth_IntentDigest | Auth_ObservationIdentity | Auth_ObservationGeneration
  | Auth_ObservationReporter | Auth_ObservationDigest | Auth_ObservationEpoch
  | Auth_ObservationFreshness | Auth_Fence

type_synonym AuthorityMask = u32

text \<open>The enumerators are \<open>1u << n\<close>.\<close>

fun component_bit :: "AuthorityComponent \<Rightarrow> nat" where
  "component_bit Auth_None = 32"
| "component_bit Auth_CoordinatorEpoch = 0"
| "component_bit Auth_BootIdentity = 1"
| "component_bit Auth_PolicyId = 2"
| "component_bit Auth_PolicyVersion = 3"
| "component_bit Auth_PolicyDigest = 4"
| "component_bit Auth_Definition = 5"
| "component_bit Auth_IntentGeneration = 6"
| "component_bit Auth_IntentDigest = 7"
| "component_bit Auth_ObservationIdentity = 8"
| "component_bit Auth_ObservationGeneration = 9"
| "component_bit Auth_ObservationReporter = 10"
| "component_bit Auth_ObservationDigest = 11"
| "component_bit Auth_ObservationEpoch = 12"
| "component_bit Auth_ObservationFreshness = 13"
| "component_bit Auth_Fence = 14"

definition MaskOf :: "AuthorityComponent \<Rightarrow> AuthorityMask" where
  "MaskOf c = (if c = Auth_None then 0 else push_bit (component_bit c) 1)"

definition Combine :: "AuthorityMask \<Rightarrow> AuthorityMask \<Rightarrow> AuthorityMask" where
  "Combine a b = a OR b"

definition kComponentNames :: "(AuthorityComponent \<times> string) list" where
  "kComponentNames =
    [(Auth_CoordinatorEpoch, ''coordinator-epoch''), (Auth_BootIdentity, ''boot-identity''),
     (Auth_PolicyId, ''policy-id''), (Auth_PolicyVersion, ''policy-version''),
     (Auth_PolicyDigest, ''policy-digest''), (Auth_Definition, ''definition''),
     (Auth_IntentGeneration, ''intent-generation''), (Auth_IntentDigest, ''intent-digest''),
     (Auth_ObservationIdentity, ''observation-identity''),
     (Auth_ObservationGeneration, ''observation-generation''),
     (Auth_ObservationReporter, ''observation-reporter''),
     (Auth_ObservationDigest, ''observation-digest''), (Auth_ObservationEpoch, ''observation-epoch''),
     (Auth_ObservationFreshness, ''observation-freshness''), (Auth_Fence, ''fence'')]"

definition AuthorityComponent_text :: "AuthorityComponent \<Rightarrow> string" where
  "AuthorityComponent_text c = (case map_of kComponentNames c of Some t \<Rightarrow> t | None \<Rightarrow> ''none'')"

fun render_mask_loop :: "AuthorityMask \<Rightarrow> (AuthorityComponent \<times> string) list \<Rightarrow> string \<Rightarrow> string" where
  "render_mask_loop am [] result = result"
| "render_mask_loop am ((c, t) # es) result =
     (if am AND MaskOf c = 0 then render_mask_loop am es result
      else render_mask_loop am es ((if result \<noteq> [] then result @ '','' else result) @ t))"

definition RenderAuthorityMask :: "AuthorityMask \<Rightarrow> string" where
  "RenderAuthorityMask am =
     (if am = 0 then ''none'' else render_mask_loop am kComponentNames [])"

section \<open>The authority vector\<close>

record AuthorityVector =
  av_coordinator_epoch :: CoordinatorEpoch
  av_boot :: BootId
  av_policy_id :: PolicyId
  av_policy_version :: PolicyVersion
  av_policy_digest :: Sha256Digest
  av_definition :: DefinitionId
  av_intent_generation :: IntentGeneration
  av_intent :: IntentId
  av_intent_digest :: Sha256Digest
  av_observation :: ObservationId
  av_observation_generation :: ObservationGeneration
  av_observation_reporter :: ReporterId
  av_observation_digest :: Sha256Digest
  av_observation_epoch :: CoordinatorEpoch
  av_observation_received_unix_ms :: UnixMillis

definition authority_Encode :: "AuthorityVector \<Rightarrow> put list" where
  "authority_Encode a =
     [PutU64 (cval (av_coordinator_epoch a)), PutBytes (boot_bytes (av_boot a)),
      PutText (str (av_policy_id a)), PutU64 (cval (av_policy_version a)),
      PutDigest (av_policy_digest a), PutText (str (av_definition a)),
      PutU64 (cval (av_intent_generation a)), PutText (str (av_intent a)),
      PutDigest (av_intent_digest a), PutText (str (av_observation a)),
      PutU64 (cval (av_observation_generation a)), PutText (str (av_observation_reporter a)),
      PutDigest (av_observation_digest a), PutU64 (cval (av_observation_epoch a)),
      PutI64 (av_observation_received_unix_ms a)]"

text \<open>The lambda \<open>assign\<close>: empty text leaves the default identity, other text must parse.\<close>

definition assign_id :: "string \<Rightarrow> 'tag string_id option" where
  "assign_id t = (if t = [] then Some (StringId []) else TryParseId t)"

definition authority_Decode :: "AuthorityVector reader" where
  "authority_Decode r =
     do { (coordinator_epoch, r) \<leftarrow> ReadU64 r; (boot, r) \<leftarrow> ReadBytes r;
          if length boot \<noteq> 16 then None
          else do {
            (policy_id_text, r) \<leftarrow> ReadText r; (policy_version, r) \<leftarrow> ReadU64 r;
            (policy_digest, r) \<leftarrow> ReadDigest r; (definition_text, r) \<leftarrow> ReadText r;
            (intent_generation, r) \<leftarrow> ReadU64 r; (intent_text, r) \<leftarrow> ReadText r;
            (intent_digest, r) \<leftarrow> ReadDigest r; (observation_text, r) \<leftarrow> ReadText r;
            (observation_generation, r) \<leftarrow> ReadU64 r; (reporter_text, r) \<leftarrow> ReadText r;
            (observation_digest, r) \<leftarrow> ReadDigest r; (observation_epoch, r) \<leftarrow> ReadU64 r;
            (observation_received, r) \<leftarrow> ReadI64 r;
            policy_id \<leftarrow> assign_id policy_id_text; definition_id \<leftarrow> assign_id definition_text;
            intent \<leftarrow> assign_id intent_text; observation \<leftarrow> assign_id observation_text;
            reporter \<leftarrow> assign_id reporter_text;
            Some (\<lparr>av_coordinator_epoch = Counter coordinator_epoch, av_boot = BootId boot,
              av_policy_id = policy_id, av_policy_version = Counter policy_version,
              av_policy_digest = policy_digest, av_definition = definition_id,
              av_intent_generation = Counter intent_generation, av_intent = intent,
              av_intent_digest = intent_digest, av_observation = observation,
              av_observation_generation = Counter observation_generation,
              av_observation_reporter = reporter, av_observation_digest = observation_digest,
              av_observation_epoch = Counter observation_epoch,
              av_observation_received_unix_ms = observation_received\<rparr>, r) } }"

definition authority_Digest :: "AuthorityVector \<Rightarrow> Sha256Digest" where
  "authority_Digest a = puts_digest (authority_Encode a)"

definition authority_Render :: "AuthorityVector \<Rightarrow> string" where
  "authority_Render a =
     ''epoch='' @ to_string_u64 (cval (av_coordinator_epoch a)) @
     '' boot='' @ take 8 (HexOf (boot_bytes (av_boot a))) @
     '' policy='' @ str (av_policy_id a) @ ''/'' @ to_string_u64 (cval (av_policy_version a)) @
     '' definition='' @ str (av_definition a) @
     '' intent='' @ str (av_intent a) @ ''/g'' @ to_string_u64 (cval (av_intent_generation a)) @
     '' observation='' @ str (av_observation a) @ ''/g'' @
     to_string_u64 (cval (av_observation_generation a)) @ ''/'' @ str (av_observation_reporter a)"

section \<open>Assessment\<close>

record AuthorityAssessment =
  aa_proven :: bool
  aa_reason :: ReasonCode
  aa_failed_components :: AuthorityMask

record LiveAuthority =
  la_coordinator_epoch :: CoordinatorEpoch
  la_boot :: BootId
  la_policy_id :: PolicyId
  la_policy_version :: PolicyVersion
  la_policy_digest :: Sha256Digest

definition combine_if :: "bool \<Rightarrow> AuthorityComponent \<Rightarrow> AuthorityMask \<Rightarrow> AuthorityMask" where
  "combine_if failed c am = (if failed then Combine am (MaskOf c) else am)"

definition assess_mask :: "AuthorityVector \<Rightarrow> LiveAuthority \<Rightarrow> bool \<Rightarrow> bool \<Rightarrow> AuthorityMask" where
  "assess_mask v live freshness_ok fence_holds =
     fold (\<lambda>(failed, c). combine_if failed c)
       [(av_coordinator_epoch v \<noteq> la_coordinator_epoch live, Auth_CoordinatorEpoch),
        (av_boot v \<noteq> la_boot live, Auth_BootIdentity),
        (id_empty (av_policy_id v) \<or> av_policy_id v \<noteq> la_policy_id live, Auth_PolicyId),
        (av_policy_version v \<noteq> la_policy_version live, Auth_PolicyVersion),
        (av_policy_digest v \<noteq> la_policy_digest live, Auth_PolicyDigest),
        (id_empty (av_definition v), Auth_Definition),
        (cval (av_intent_generation v) = 0, Auth_IntentGeneration),
        (id_empty (av_intent v), Auth_IntentDigest),
        (id_empty (av_observation v), Auth_ObservationIdentity),
        (cval (av_observation_generation v) = 0, Auth_ObservationGeneration),
        (id_empty (av_observation_reporter v), Auth_ObservationReporter),
        (av_observation_epoch v \<noteq> la_coordinator_epoch live, Auth_ObservationEpoch),
        (\<not> freshness_ok, Auth_ObservationFreshness),
        (fence_holds, Auth_Fence)] 0"

definition AssessAuthority ::
    "AuthorityVector \<Rightarrow> LiveAuthority \<Rightarrow> ReasonCode \<Rightarrow> bool \<Rightarrow> bool \<Rightarrow> AuthorityAssessment" where
  "AssessAuthority v live freshness_reason freshness_ok fence_holds =
     (let am = assess_mask v live freshness_ok fence_holds;
          reason =
            (if am = 0 then Reason_AuthorityProven
             else if am AND MaskOf Auth_Fence \<noteq> 0 then Reason_ScopeFenced
             else if am AND MaskOf Auth_ObservationFreshness \<noteq> 0 then freshness_reason
             else if am AND MaskOf Auth_CoordinatorEpoch \<noteq> 0 \<or> am AND MaskOf Auth_BootIdentity \<noteq> 0
               then Reason_AuthorityEpochMismatch
             else if am AND (MaskOf Auth_PolicyId OR MaskOf Auth_PolicyVersion OR
                               MaskOf Auth_PolicyDigest) \<noteq> 0
               then Reason_AuthorityPolicyMismatch
             else if am AND (MaskOf Auth_IntentGeneration OR MaskOf Auth_IntentDigest) \<noteq> 0
               then Reason_AuthorityIntentGenerationMismatch
             else if am AND MaskOf Auth_Definition \<noteq> 0 then Reason_AuthorityDefinitionMismatch
             else Reason_AuthorityObservationGenerationMismatch)
      in \<lparr>aa_proven = (am = 0), aa_reason = reason, aa_failed_components = am\<rparr>)"

text \<open>What it means for one component to bind, independently of the mask.\<close>

fun component_fails ::
    "AuthorityVector \<Rightarrow> LiveAuthority \<Rightarrow> bool \<Rightarrow> bool \<Rightarrow> AuthorityComponent \<Rightarrow> bool" where
  "component_fails v live fresh fenced Auth_None = False"
| "component_fails v live fresh fenced Auth_CoordinatorEpoch =
     (av_coordinator_epoch v \<noteq> la_coordinator_epoch live)"
| "component_fails v live fresh fenced Auth_BootIdentity = (av_boot v \<noteq> la_boot live)"
| "component_fails v live fresh fenced Auth_PolicyId =
     (id_empty (av_policy_id v) \<or> av_policy_id v \<noteq> la_policy_id live)"
| "component_fails v live fresh fenced Auth_PolicyVersion = (av_policy_version v \<noteq> la_policy_version live)"
| "component_fails v live fresh fenced Auth_PolicyDigest = (av_policy_digest v \<noteq> la_policy_digest live)"
| "component_fails v live fresh fenced Auth_Definition = id_empty (av_definition v)"
| "component_fails v live fresh fenced Auth_IntentGeneration = (cval (av_intent_generation v) = 0)"
| "component_fails v live fresh fenced Auth_IntentDigest = id_empty (av_intent v)"
| "component_fails v live fresh fenced Auth_ObservationIdentity = id_empty (av_observation v)"
| "component_fails v live fresh fenced Auth_ObservationGeneration =
     (cval (av_observation_generation v) = 0)"
| "component_fails v live fresh fenced Auth_ObservationReporter = id_empty (av_observation_reporter v)"
| "component_fails v live fresh fenced Auth_ObservationDigest = False"
| "component_fails v live fresh fenced Auth_ObservationEpoch =
     (av_observation_epoch v \<noteq> la_coordinator_epoch live)"
| "component_fails v live fresh fenced Auth_ObservationFreshness = (\<not> fresh)"
| "component_fails v live fresh fenced Auth_Fence = fenced"

lemma bit_MaskOf: "bit (MaskOf c) n \<longleftrightarrow> c \<noteq> Auth_None \<and> n = component_bit c"
proof (cases "c = Auth_None")
  case False
  then have "component_bit c < 32" by (cases c) simp_all
  with False show ?thesis
    by (auto simp only: MaskOf_def if_False bit_push_bit_iff bit_1_iff) simp_all
qed (simp add: MaskOf_def)

lemma component_bit_inject [simp]: "component_bit c = component_bit d \<longleftrightarrow> c = d"
  by (cases c; cases d) simp_all

lemma bit_combine_fold:
  "bit (fold (\<lambda>(failed, c). combine_if failed c) es m) n \<longleftrightarrow>
     bit m n \<or> (\<exists>(failed, c) \<in> set es. failed \<and> c \<noteq> Auth_None \<and> n = component_bit c)"
proof (induction es arbitrary: m)
  case (Cons e es)
  have "bit (combine_if (fst e) (snd e) m) n \<longleftrightarrow>
      bit m n \<or> (fst e \<and> snd e \<noteq> Auth_None \<and> n = component_bit (snd e))"
    by (auto simp: combine_if_def Combine_def bit_simps bit_MaskOf)
  with Cons show ?case by (cases e) auto
qed simp

definition assessed_components :: "AuthorityComponent list" where
  "assessed_components =
    [Auth_CoordinatorEpoch, Auth_BootIdentity, Auth_PolicyId, Auth_PolicyVersion, Auth_PolicyDigest,
     Auth_Definition, Auth_IntentGeneration, Auth_IntentDigest, Auth_ObservationIdentity,
     Auth_ObservationGeneration, Auth_ObservationReporter, Auth_ObservationEpoch,
     Auth_ObservationFreshness, Auth_Fence]"

lemma assess_mask_components:
  "assess_mask v live fresh fenced =
     fold (\<lambda>(failed, c). combine_if failed c)
       (map (\<lambda>c. (component_fails v live fresh fenced c, c)) assessed_components) 0"
  by (simp add: assess_mask_def assessed_components_def)

lemma component_fails_assessed:
  "component_fails v live fresh fenced c \<Longrightarrow> c \<in> set assessed_components \<and> c \<noteq> Auth_None"
  by (cases c) (simp_all add: assessed_components_def)

lemma bit_assess_mask_iff:
  "bit (assess_mask v live fresh fenced) n \<longleftrightarrow>
     (\<exists>c. n = component_bit c \<and> component_fails v live fresh fenced c)"
  unfolding assess_mask_components bit_combine_fold
  by (auto dest: component_fails_assessed)

lemma bit_assess_mask:
  "bit (assess_mask v live fresh fenced) (component_bit c) \<longleftrightarrow> component_fails v live fresh fenced c"
  by (auto simp: bit_assess_mask_iff)

lemma and_MaskOf_nonzero: "m AND MaskOf c \<noteq> 0 \<longleftrightarrow> c \<noteq> Auth_None \<and> bit m (component_bit c)"
proof -
  have "m AND MaskOf c \<noteq> 0 \<longleftrightarrow> (\<exists>n. bit (m AND MaskOf c) n)"
    by (metis bit_0_eq bit_eq_iff bot_apply bot_bool_def)
  then show ?thesis by (auto simp: bit_simps bit_MaskOf)
qed

text \<open>The mask names exactly the failing components, and authority is proven iff there is none.\<close>

lemma AssessAuthority_mask:
  "aa_failed_components (AssessAuthority v live fr fresh fenced) AND MaskOf c \<noteq> 0 \<longleftrightarrow>
     component_fails v live fresh fenced c"
  by (auto simp: AssessAuthority_def Let_def and_MaskOf_nonzero bit_assess_mask)

lemma AssessAuthority_proven:
  "aa_proven (AssessAuthority v live fr fresh fenced) \<longleftrightarrow> (\<forall>c. \<not> component_fails v live fresh fenced c)"
proof -
  have "assess_mask v live fresh fenced = 0 \<longleftrightarrow> (\<forall>n. \<not> bit (assess_mask v live fresh fenced) n)"
    by (metis bit_0_eq bit_eq_iff bot_apply bot_bool_def)
  then show ?thesis by (auto simp: AssessAuthority_def Let_def bit_assess_mask_iff)
qed

lemma AssessAuthority_reason:
  "aa_proven (AssessAuthority v live fr fresh fenced) \<Longrightarrow>
     aa_reason (AssessAuthority v live fr fresh fenced) = Reason_AuthorityProven"
  by (simp add: AssessAuthority_def Let_def)

lemma AssessAuthority_facts:
  assumes "aa_proven (AssessAuthority v live fr fresh fenced)"
  shows "fresh" "\<not> fenced" "av_coordinator_epoch v = la_coordinator_epoch live"
    "av_boot v = la_boot live" "av_observation_epoch v = la_coordinator_epoch live"
    "av_policy_digest v = la_policy_digest live" "av_policy_id v = la_policy_id live"
    "av_policy_version v = la_policy_version live"
proof -
  have *: "\<not> component_fails v live fresh fenced c" for c
    using assms by (simp add: AssessAuthority_proven)
  show "fresh" "\<not> fenced" "av_coordinator_epoch v = la_coordinator_epoch live"
    "av_boot v = la_boot live" "av_observation_epoch v = la_coordinator_epoch live"
    "av_policy_digest v = la_policy_digest live" "av_policy_id v = la_policy_id live"
    "av_policy_version v = la_policy_version live"
    using * [of Auth_ObservationFreshness] * [of Auth_Fence] * [of Auth_CoordinatorEpoch]
      * [of Auth_BootIdentity] * [of Auth_ObservationEpoch] * [of Auth_PolicyDigest]
      * [of Auth_PolicyId] * [of Auth_PolicyVersion] by simp_all
qed

section \<open>Codec\<close>

definition authority_ok :: "AuthorityVector \<Rightarrow> bool" where
  "authority_ok a \<longleftrightarrow> wf_boot (av_boot a) \<and> wf_id (av_policy_id a) \<and> wf_id (av_definition a) \<and>
     wf_id (av_intent a) \<and> wf_id (av_observation a) \<and> wf_id (av_observation_reporter a) \<and>
     wf_digest (av_policy_digest a) \<and> wf_digest (av_intent_digest a) \<and>
     wf_digest (av_observation_digest a)"

lemma wf_id_fits [simp]: "wf_id i \<Longrightarrow> length (str i) \<le> kMaxCanonicalBytes"
  by (drule wf_id_length) (simp add: kMaxIdentityLength_def kMaxCanonicalBytes_def)

lemma assign_id_str [simp]: "wf_id i \<Longrightarrow> assign_id (str i) = Some i"
  by (cases i) (auto simp: assign_id_def wf_id_def id_empty_def valid_id_def TryParseId_def)

lemma assign_id_wf: "assign_id t = Some i \<Longrightarrow> wf_id i"
  by (auto simp: assign_id_def wf_id_def id_empty_def split: if_splits)

lemma ReadBytes_boot: "length bs = 16 \<Longrightarrow> ReadBytes (le_store 4 (16 :: u32) @ bs @ r) = Some (bs, r)"
  using ReadBytes_put [of bs r] by (simp add: kMaxCanonicalBytes_def)

interpretation authority_codec: codec authority_Encode authority_Decode authority_ok
proof
  fix x r
  assume "authority_ok x"
  then show "authority_Decode (octets (authority_Encode x) @ r) = Some (x, r)"
    by (cases x; cases "av_boot x")
      (simp add: authority_ok_def wf_boot_def authority_Decode_def authority_Encode_def ReadBytes_boot)
next
  fix r x s
  assume "authority_Decode r = Some (x, s)"
  then show "authority_ok x"
    by (auto simp: authority_Decode_def authority_ok_def wf_boot_def
        dest: assign_id_wf ReadDigest_wf split: if_splits)
qed

section \<open>Explanations\<close>

record ExplanationStep =
  es_code :: ReasonCode
  es_detail :: string

record Explanation =
  ex_steps :: "ExplanationStep list"
  ex_max_steps :: nat
  ex_truncated :: bool

definition explanation_default :: Explanation where
  "explanation_default = \<lparr>ex_steps = [], ex_max_steps = 16, ex_truncated = False\<rparr>"

definition explanation_new :: "nat \<Rightarrow> Explanation" where
  "explanation_new max_steps =
     \<lparr>ex_steps = [], ex_max_steps = (if max_steps = 0 then 1 else max_steps), ex_truncated = False\<rparr>"

definition explain_Add :: "ReasonCode \<Rightarrow> string \<Rightarrow> Explanation \<Rightarrow> Explanation" where
  "explain_Add c detail e =
     (if length (ex_steps e) \<ge> ex_max_steps e then e\<lparr>ex_truncated := True\<rparr>
      else e\<lparr>ex_steps := ex_steps e @ [\<lparr>es_code = c, es_detail = detail\<rparr>]\<rparr>)"

definition explain_Find :: "ReasonCode \<Rightarrow> Explanation \<Rightarrow> string option" where
  "explain_Find c e = map_option es_detail (find (\<lambda>s. es_code s = c) (ex_steps e))"

definition explain_Has :: "ReasonCode \<Rightarrow> Explanation \<Rightarrow> bool" where
  "explain_Has c e \<longleftrightarrow> explain_Find c e \<noteq> None"

definition explain_Render :: "Explanation \<Rightarrow> string" where
  "explain_Render e =
     concat (map (\<lambda>s. ReasonCode_text (es_code s) @
         (if es_detail s \<noteq> [] then '': '' @ es_detail s else []) @ [CHR 0x0A]) (ex_steps e)) @
     (if ex_truncated e then ''EXPLANATION_TRUNCATED'' @ [CHR 0x0A] else [])"

definition explanation_bounded :: "Explanation \<Rightarrow> bool" where
  "explanation_bounded e \<longleftrightarrow> length (ex_steps e) \<le> ex_max_steps e"

lemma explanation_bounded_new [simp]:
  "explanation_bounded (explanation_new n)" "explanation_bounded explanation_default"
  by (simp_all add: explanation_bounded_def explanation_new_def explanation_default_def)

lemma explanation_bounded_Add [simp]:
  "explanation_bounded e \<Longrightarrow> explanation_bounded (explain_Add c d e)"
  by (simp add: explanation_bounded_def explain_Add_def)

lemma ex_max_steps_Add [simp]: "ex_max_steps (explain_Add c d e) = ex_max_steps e"
  by (simp add: explain_Add_def)

end
