(* ===== verification/Drift.thy ===== *)
theory Drift
  imports Authority "HOL-Library.Product_Lexorder"
begin

text \<open>
  \<open>drift.hpp\<close> and \<open>drift.cpp\<close>: freshness, selection of the current intent and observation, and the
  classifier. Both merge loops of the source (attributes of one subject, subjects of one scope)
  are instances of one two-cursor merge, whose result is shown equal to a left-to-right pass over
  the sorted union of the keys; the properties of the classifier are stated on that reference.
\<close>

section \<open>Vocabulary\<close>

datatype DriftClass = Drift_Invalid | Drift_AlreadyConverged | Drift_Missing | Drift_Unexpected
  | Drift_Mismatched | Drift_StaleObservation | Drift_StaleIntent | Drift_Conflict | Drift_Unknown
  | Drift_Unsupported

fun DriftClass_u8 :: "DriftClass \<Rightarrow> u8" where
  "DriftClass_u8 Drift_Invalid = 0"
| "DriftClass_u8 Drift_AlreadyConverged = 1"
| "DriftClass_u8 Drift_Missing = 2"
| "DriftClass_u8 Drift_Unexpected = 3"
| "DriftClass_u8 Drift_Mismatched = 4"
| "DriftClass_u8 Drift_StaleObservation = 5"
| "DriftClass_u8 Drift_StaleIntent = 6"
| "DriftClass_u8 Drift_Conflict = 7"
| "DriftClass_u8 Drift_Unknown = 8"
| "DriftClass_u8 Drift_Unsupported = 9"

fun DriftClass_text :: "DriftClass \<Rightarrow> string" where
  "DriftClass_text Drift_Invalid = ''INVALID''"
| "DriftClass_text Drift_AlreadyConverged = ''ALREADY_CONVERGED''"
| "DriftClass_text Drift_Missing = ''MISSING''"
| "DriftClass_text Drift_Unexpected = ''UNEXPECTED''"
| "DriftClass_text Drift_Mismatched = ''MISMATCHED''"
| "DriftClass_text Drift_StaleObservation = ''STALE_OBSERVATION''"
| "DriftClass_text Drift_StaleIntent = ''STALE_INTENT''"
| "DriftClass_text Drift_Conflict = ''CONFLICT''"
| "DriftClass_text Drift_Unknown = ''UNKNOWN''"
| "DriftClass_text Drift_Unsupported = ''UNSUPPORTED''"

definition TryParseDriftClass :: "string \<Rightarrow> DriftClass option" where
  "TryParseDriftClass t =
     (if t = ''ALREADY_CONVERGED'' then Some Drift_AlreadyConverged
      else if t = ''MISSING'' then Some Drift_Missing
      else if t = ''UNEXPECTED'' then Some Drift_Unexpected
      else if t = ''MISMATCHED'' then Some Drift_Mismatched
      else if t = ''STALE_OBSERVATION'' then Some Drift_StaleObservation
      else if t = ''STALE_INTENT'' then Some Drift_StaleIntent
      else if t = ''CONFLICT'' then Some Drift_Conflict
      else if t = ''UNKNOWN'' then Some Drift_Unknown
      else if t = ''UNSUPPORTED'' then Some Drift_Unsupported
      else None)"

definition IsActionableDrift :: "DriftClass \<Rightarrow> bool" where
  "IsActionableDrift d \<longleftrightarrow> d = Drift_Missing \<or> d = Drift_Unexpected \<or> d = Drift_Mismatched"

definition IsIndeterminateDrift :: "DriftClass \<Rightarrow> bool" where
  "IsIndeterminateDrift d \<longleftrightarrow>
     d = Drift_Unknown \<or> d = Drift_StaleObservation \<or> d = Drift_StaleIntent \<or> d = Drift_Invalid"

datatype AttributeDeltaKind = Delta_Invalid | Delta_ValueMismatch | Delta_OnlyInIntent
  | Delta_OnlyInObservation | Delta_NotComparable | Delta_Unmanaged | Delta_ObserveOnly

fun AttributeDeltaKind_text :: "AttributeDeltaKind \<Rightarrow> string" where
  "AttributeDeltaKind_text Delta_Invalid = ''INVALID''"
| "AttributeDeltaKind_text Delta_ValueMismatch = ''VALUE_MISMATCH''"
| "AttributeDeltaKind_text Delta_OnlyInIntent = ''ONLY_IN_INTENT''"
| "AttributeDeltaKind_text Delta_OnlyInObservation = ''ONLY_IN_OBSERVATION''"
| "AttributeDeltaKind_text Delta_NotComparable = ''NOT_COMPARABLE''"
| "AttributeDeltaKind_text Delta_Unmanaged = ''UNMANAGED''"
| "AttributeDeltaKind_text Delta_ObserveOnly = ''OBSERVE_ONLY''"

record AttributeDelta =
  ad_key :: AttributeKey
  ad_kind :: AttributeDeltaKind
  ad_intended :: AttributeValue
  ad_observed :: AttributeValue

record DriftRecord =
  dr_scope :: ScopeId
  dr_subject :: SubjectId
  dr_drift :: DriftClass
  dr_reason :: ReasonCode
  dr_deltas :: "AttributeDelta list"
  dr_evidence :: EvidenceClass

section \<open>Freshness\<close>

datatype FreshnessVerdict = Fresh_Invalid | Fresh_Fresh | Fresh_Expired | Fresh_ForeignEpoch
  | Fresh_ClockRegression

fun FreshnessVerdict_text :: "FreshnessVerdict \<Rightarrow> string" where
  "FreshnessVerdict_text Fresh_Invalid = ''INVALID''"
| "FreshnessVerdict_text Fresh_Fresh = ''FRESH''"
| "FreshnessVerdict_text Fresh_Expired = ''EXPIRED''"
| "FreshnessVerdict_text Fresh_ForeignEpoch = ''FOREIGN_EPOCH''"
| "FreshnessVerdict_text Fresh_ClockRegression = ''CLOCK_REGRESSION''"

fun ReasonOf :: "FreshnessVerdict \<Rightarrow> ReasonCode" where
  "ReasonOf Fresh_Fresh = Reason_None"
| "ReasonOf Fresh_Expired = Reason_ObservationExpired"
| "ReasonOf Fresh_ForeignEpoch = Reason_ObservationForeignEpoch"
| "ReasonOf Fresh_ClockRegression = Reason_ObservationClockRegression"
| "ReasonOf Fresh_Invalid = Reason_NoObservationForScope"

text \<open>
  The subtraction \<open>now_unix_ms - received_unix_ms\<close> is on \<open>int64_t\<close>: C++ leaves its overflow
  undefined, and the model wraps it.
\<close>

definition EvaluateFreshness ::
    "ObservationDocument \<Rightarrow> FreshnessPolicy \<Rightarrow> CoordinatorEpoch \<Rightarrow> UnixMillis \<Rightarrow> FreshnessVerdict" where
  "EvaluateFreshness d policy live_epoch now =
     (if require_current_epoch policy \<and> ob_received_epoch d \<noteq> live_epoch then Fresh_ForeignEpoch
      else if sint (max_observation_age_ms policy) > 0 then
        (if sint now < sint (ob_received_unix_ms d) then Fresh_ClockRegression
         else if sint (now - ob_received_unix_ms d) > sint (max_observation_age_ms policy)
           then Fresh_Expired
         else Fresh_Fresh)
      else Fresh_Fresh)"

section \<open>Selection\<close>

record IntentSelection =
  is_selected :: "IntentDocument option"
  is_conflicted :: bool
  is_reason :: ReasonCode

record ObservationSelection =
  os_selected :: "ObservationDocument option"
  os_conflicted :: bool
  os_reason :: ReasonCode

definition ObservationKeyLess :: "ObservationDocument \<Rightarrow> ObservationDocument \<Rightarrow> bool" where
  "ObservationKeyLess a b =
     (if ob_generation a \<noteq> ob_generation b then ob_generation a < ob_generation b
      else if ob_received_unix_ms a \<noteq> ob_received_unix_ms b
        then sint (ob_received_unix_ms a) < sint (ob_received_unix_ms b)
      else ob_reporter a < ob_reporter b)"

text \<open>
  The first loop of both selections: keep the current candidate unless the next one is greater.
  Null candidates are \<^const>\<open>None\<close> and skipped.
\<close>

fun select_loop :: "('d \<Rightarrow> 'd \<Rightarrow> bool) \<Rightarrow> 'd option list \<Rightarrow> 'd option \<Rightarrow> 'd option" where
  "select_loop lt [] sel = sel"
| "select_loop lt (None # cs) sel = select_loop lt cs sel"
| "select_loop lt (Some d # cs) sel =
     (case sel of
        None \<Rightarrow> select_loop lt cs (Some d)
      | Some s \<Rightarrow> select_loop lt cs (if lt s d then Some d else Some s))"

text \<open>The second loop: some candidate at the selected generation carries another digest.\<close>

definition clash :: "('d \<Rightarrow> 'g) \<Rightarrow> ('d \<Rightarrow> Sha256Digest) \<Rightarrow> 'd option list \<Rightarrow> 'd \<Rightarrow> bool" where
  "clash generation digest cs s \<longleftrightarrow> list_ex (\<lambda>c. case c of None \<Rightarrow> False
     | Some d \<Rightarrow> generation d = generation s \<and> digest d \<noteq> digest s) cs"

definition SelectCurrentIntent :: "IntentDocument option list \<Rightarrow> IntentSelection" where
  "SelectCurrentIntent candidates =
     (case select_loop (\<lambda>a b. in_generation a < in_generation b) candidates None of
        None \<Rightarrow> \<lparr>is_selected = None, is_conflicted = False, is_reason = Reason_NoIntentForScope\<rparr>
      | Some s \<Rightarrow>
          if clash in_generation in_digest candidates s
          then \<lparr>is_selected = None, is_conflicted = True, is_reason = Reason_ConflictingRepublishers\<rparr>
          else \<lparr>is_selected = Some s, is_conflicted = False, is_reason = Reason_None\<rparr>)"

definition SelectCurrentObservation :: "ObservationDocument option list \<Rightarrow> ObservationSelection" where
  "SelectCurrentObservation candidates =
     (case select_loop ObservationKeyLess candidates None of
        None \<Rightarrow> \<lparr>os_selected = None, os_conflicted = False, os_reason = Reason_NoObservationForScope\<rparr>
      | Some s \<Rightarrow>
          if clash ob_generation ob_digest candidates s
          then \<lparr>os_selected = None, os_conflicted = True, os_reason = Reason_ConflictingRepublishers\<rparr>
          else \<lparr>os_selected = Some s, os_conflicted = False, os_reason = Reason_None\<rparr>)"

section \<open>The two-cursor merge\<close>

text \<open>
  \<open>while (left != end || right != end)\<close>: the left entry alone when its key is smaller or the right
  side is exhausted, the right entry alone in the mirrored case, both when the keys are equal.
\<close>

fun merge_loop ::
    "('k::linorder \<Rightarrow> 'a option \<Rightarrow> 'b option \<Rightarrow> 'w \<Rightarrow> 'w) \<Rightarrow> ('k, 'a) omap \<Rightarrow> ('k, 'b) omap \<Rightarrow> 'w \<Rightarrow> 'w" where
  "merge_loop f [] [] w = w"
| "merge_loop f (l # ls) [] w = merge_loop f ls [] (f (fst l) (Some (snd l)) None w)"
| "merge_loop f [] (r # rs) w = merge_loop f [] rs (f (fst r) None (Some (snd r)) w)"
| "merge_loop f (l # ls) (r # rs) w =
     (if fst l < fst r then merge_loop f ls (r # rs) (f (fst l) (Some (snd l)) None w)
      else if fst r < fst l then merge_loop f (l # ls) rs (f (fst r) None (Some (snd r)) w)
      else merge_loop f ls rs (f (fst l) (Some (snd l)) (Some (snd r)) w))"

section \<open>Attributes of one subject\<close>

record AttributeWalk =
  aw_deltas :: "AttributeDelta list"
  aw_coverage_gap :: bool
  aw_unsupported :: bool
  aw_comparisons :: nat

definition walk_new :: AttributeWalk where
  "walk_new = \<lparr>aw_deltas = [], aw_coverage_gap = False, aw_unsupported = False, aw_comparisons = 0\<rparr>"

definition push_delta ::
    "AttributeKey \<Rightarrow> AttributeDeltaKind \<Rightarrow> AttributeValue \<Rightarrow> AttributeValue \<Rightarrow> AttributeWalk \<Rightarrow> AttributeWalk" where
  "push_delta k kd intended observed w =
     w\<lparr>aw_deltas := aw_deltas w @
        [\<lparr>ad_key = k, ad_kind = kd, ad_intended = intended, ad_observed = observed\<rparr>]\<rparr>"

fun walk_step ::
    "bool \<Rightarrow> bool \<Rightarrow> ReconciliationPolicy \<Rightarrow> AttributeKey \<Rightarrow> AttributeValue option \<Rightarrow>
     AttributeValue option \<Rightarrow> AttributeWalk \<Rightarrow> AttributeWalk" where
  "walk_step intent_complete observation_complete policy k (Some l) None w =
     (let w = w\<lparr>aw_comparisons := aw_comparisons w + 1\<rparr>
      in if IsAttributeUnmanaged policy k then push_delta k Delta_Unmanaged l Value_Absent w
         else if observation_complete then push_delta k Delta_OnlyInIntent l Value_Absent w
         else w\<lparr>aw_coverage_gap := True\<rparr>)"
| "walk_step intent_complete observation_complete policy k None (Some r) w =
     (let w = w\<lparr>aw_comparisons := aw_comparisons w + 1\<rparr>
      in if IsAttributeUnmanaged policy k then push_delta k Delta_Unmanaged Value_Absent r w
         else if intent_complete then push_delta k Delta_OnlyInObservation Value_Absent r w
         else w\<lparr>aw_coverage_gap := True\<rparr>)"
| "walk_step intent_complete observation_complete policy k (Some l) (Some r) w =
     (let w = w\<lparr>aw_comparisons := aw_comparisons w + 1\<rparr>
      in if IsAttributeUnmanaged policy k then push_delta k Delta_Unmanaged l r w
         else if \<not> value_IsValid l \<or> \<not> value_IsValid r then w\<lparr>aw_unsupported := True\<rparr>
         else if \<not> ComparableWith l r then push_delta k Delta_NotComparable l r w
         else if l \<noteq> r then
           push_delta k (if IsAttributeObserveOnly policy k then Delta_ObserveOnly
                         else Delta_ValueMismatch) l r w
         else w)"
| "walk_step intent_complete observation_complete policy k None None w = w"

definition WalkAttributes ::
    "SubjectState \<Rightarrow> SubjectState \<Rightarrow> bool \<Rightarrow> bool \<Rightarrow> ReconciliationPolicy \<Rightarrow> AttributeWalk" where
  "WalkAttributes desired observed intent_complete observation_complete policy =
     merge_loop (walk_step intent_complete observation_complete policy) desired observed walk_new"

definition HasActionableDelta :: "AttributeDelta list \<Rightarrow> bool" where
  "HasActionableDelta ds \<longleftrightarrow> list_ex (\<lambda>d. ad_kind d \<noteq> Delta_Unmanaged) ds"

text \<open>Rank and reason of a delta; unmanaged and invalid ones are skipped by the loop.\<close>

fun delta_rank :: "AttributeDeltaKind \<Rightarrow> (nat \<times> ReasonCode) option" where
  "delta_rank Delta_NotComparable = Some (0, Reason_ClassifiedAttributeNotComparable)"
| "delta_rank Delta_ValueMismatch = Some (1, Reason_ClassifiedAttributeMismatch)"
| "delta_rank Delta_ObserveOnly = Some (2, Reason_ClassifiedAttributeMismatch)"
| "delta_rank Delta_OnlyInIntent = Some (3, Reason_ClassifiedAttributeMissing)"
| "delta_rank Delta_OnlyInObservation = Some (4, Reason_ClassifiedAttributeUnexpected)"
| "delta_rank Delta_Unmanaged = None"
| "delta_rank Delta_Invalid = None"

fun mismatch_loop :: "AttributeDelta list \<Rightarrow> nat \<Rightarrow> ReasonCode \<Rightarrow> ReasonCode" where
  "mismatch_loop [] best reason = reason"
| "mismatch_loop (d # ds) best reason =
     (case delta_rank (ad_kind d) of
        None \<Rightarrow> mismatch_loop ds best reason
      | Some (rank, r) \<Rightarrow> if rank < best then mismatch_loop ds rank r else mismatch_loop ds best reason)"

definition MismatchReason :: "AttributeDelta list \<Rightarrow> ReasonCode" where
  "MismatchReason ds = mismatch_loop ds 99 Reason_ClassifiedAttributeMismatch"

section \<open>The classifier\<close>

record ScopeEvidenceRef =
  ev_has_intent :: bool
  ev_intent :: IntentId
  ev_definition :: DefinitionId
  ev_intent_generation :: IntentGeneration
  ev_intent_digest :: Sha256Digest
  ev_intent_complete :: bool
  ev_has_observation :: bool
  ev_observation :: ObservationId
  ev_reporter :: ReporterId
  ev_observation_generation :: ObservationGeneration
  ev_observation_digest :: Sha256Digest
  ev_received_epoch :: CoordinatorEpoch
  ev_received_unix_ms :: UnixMillis
  ev_observation_complete :: bool
  ev_observation_authoritative_absence :: bool
  ev_freshness :: FreshnessVerdict
  ev_evidence :: EvidenceClass

definition zero_digest :: Sha256Digest where
  "zero_digest = replicate kSha256Bytes 0"

definition evidence_new :: ScopeEvidenceRef where
  "evidence_new = \<lparr>ev_has_intent = False, ev_intent = StringId [], ev_definition = StringId [],
     ev_intent_generation = Counter 0, ev_intent_digest = zero_digest, ev_intent_complete = True,
     ev_has_observation = False, ev_observation = StringId [], ev_reporter = StringId [],
     ev_observation_generation = Counter 0, ev_observation_digest = zero_digest,
     ev_received_epoch = Counter 0, ev_received_unix_ms = 0, ev_observation_complete = True,
     ev_observation_authoritative_absence = False, ev_freshness = Fresh_Invalid,
     ev_evidence = Evidence_Unknown\<rparr>"

record ClassificationReport =
  cr_scope :: ScopeId
  cr_evidence :: ScopeEvidenceRef
  cr_records :: "DriftRecord list"
  cr_subject_visits :: nat
  cr_attribute_comparisons :: nat

record ClassificationInput =
  ci_scope :: ScopeId
  ci_intents :: "IntentDocument option list"
  ci_observations :: "ObservationDocument option list"
  ci_committed_intent_generation :: IntentGeneration
  ci_has_committed_intent :: bool
  ci_policy :: "ReconciliationPolicy option"
  ci_live_epoch :: CoordinatorEpoch
  ci_now_unix_ms :: UnixMillis

definition CountClass :: "DriftClass \<Rightarrow> ClassificationReport \<Rightarrow> nat" where
  "CountClass d report = length (filter (\<lambda>r. dr_drift r = d) (cr_records report))"

definition MakeRecord ::
    "ScopeId \<Rightarrow> SubjectId \<Rightarrow> DriftClass \<Rightarrow> ReasonCode \<Rightarrow> EvidenceClass \<Rightarrow> DriftRecord" where
  "MakeRecord scope subject drift r evidence =
     \<lparr>dr_scope = scope, dr_subject = subject, dr_drift = drift, dr_reason = r, dr_deltas = [],
      dr_evidence = evidence\<rparr>"

text \<open>\<open>std::set<SubjectId>\<close> as a strictly sorted list.\<close>

definition CollectSubjects :: "(SubjectId, 'e) omap \<Rightarrow> SubjectId list \<Rightarrow> SubjectId list" where
  "CollectSubjects subjects into = fold (\<lambda>e s. insort_insert (fst e) s) subjects into"

definition collect_all :: "ClassificationInput \<Rightarrow> SubjectId list" where
  "collect_all input =
     fold (\<lambda>c s. case c of None \<Rightarrow> s | Some d \<Rightarrow> CollectSubjects (ob_subjects d) s) (ci_observations input)
       (fold (\<lambda>c s. case c of None \<Rightarrow> s | Some d \<Rightarrow> CollectSubjects (in_subjects d) s) (ci_intents input) [])"

definition scope_evidence ::
    "ClassificationInput \<Rightarrow> ReconciliationPolicy \<Rightarrow> IntentDocument option \<Rightarrow>
     ObservationDocument option \<Rightarrow> ScopeEvidenceRef" where
  "scope_evidence input policy intent observation =
     (let e = (case intent of None \<Rightarrow> evidence_new
                | Some d \<Rightarrow> evidence_new\<lparr>ev_has_intent := True, ev_intent := in_intent d,
                    ev_definition := in_definition d, ev_intent_generation := in_generation d,
                    ev_intent_digest := in_digest d, ev_intent_complete := in_complete d\<rparr>);
          e = (case observation of None \<Rightarrow> e
                | Some d \<Rightarrow> e\<lparr>ev_has_observation := True, ev_observation := ob_observation d,
                    ev_reporter := ob_reporter d, ev_observation_generation := ob_generation d,
                    ev_observation_digest := ob_digest d, ev_received_epoch := ob_received_epoch d,
                    ev_received_unix_ms := ob_received_unix_ms d,
                    ev_observation_complete := ob_complete d,
                    ev_observation_authoritative_absence := ob_authoritative_absence d,
                    ev_freshness := EvaluateFreshness d (po_freshness policy) (ci_live_epoch input)
                      (ci_now_unix_ms input)\<rparr>);
          c = (case intent of None \<Rightarrow> Evidence_Unknown | Some d \<Rightarrow> in_evidence d);
          c = (case observation of None \<Rightarrow> c
                | Some d \<Rightarrow> if ob_evidence d \<noteq> Evidence_Unknown then ob_evidence d else c)
      in e\<lparr>ev_evidence := c\<rparr>)"

definition attribute_deltas ::
    "ReconciliationPolicy \<Rightarrow> (AttributeKey \<times> AttributeValue \<Rightarrow> AttributeDelta) \<Rightarrow> SubjectState \<Rightarrow>
     AttributeDelta list" where
  "attribute_deltas policy mk st = map mk (filter (\<lambda>a. \<not> IsAttributeUnmanaged policy (fst a)) st)"

text \<open>The four outcomes of comparing a subject both sides declare.\<close>

definition compared_record ::
    "ScopeId \<Rightarrow> SubjectId \<Rightarrow> EvidenceClass \<Rightarrow> AttributeWalk \<Rightarrow> DriftRecord" where
  "compared_record scope subject ec walk =
     (let record = (if aw_unsupported walk
                    then MakeRecord scope subject Drift_Unsupported Reason_SubjectKindUnsupported ec
                    else if aw_coverage_gap walk
                    then MakeRecord scope subject Drift_Unknown Reason_AttributeCoverageIncomplete ec
                    else if \<not> HasActionableDelta (aw_deltas walk)
                    then MakeRecord scope subject Drift_AlreadyConverged
                           Reason_ClassifiedAlreadyConverged ec
                    else MakeRecord scope subject Drift_Mismatched
                           (MismatchReason (aw_deltas walk)) ec)
      in record\<lparr>dr_deltas := aw_deltas walk\<rparr>)"

text \<open>One iteration of the subject loop, as the record it pushes and the comparisons it counts.\<close>

fun subject_record ::
    "ScopeId \<Rightarrow> ReconciliationPolicy \<Rightarrow> EvidenceClass \<Rightarrow> IntentDocument \<Rightarrow> ObservationDocument \<Rightarrow>
     SubjectId \<Rightarrow> SubjectIntent option \<Rightarrow> SubjectObservation option \<Rightarrow> DriftRecord \<times> nat" where
  "subject_record scope policy ec intent observation k (Some declared) None =
     (if \<not> require_complete_coverage_for_absence (po_freshness policy) \<or>
         (ob_complete observation \<and> ob_authoritative_absence observation)
      then ((MakeRecord scope k Drift_Missing Reason_ClassifiedSubjectMissing ec)
              \<lparr>dr_deltas := attribute_deltas policy (\<lambda>(a, v). \<lparr>ad_key = a, ad_kind = Delta_OnlyInIntent,
                 ad_intended = v, ad_observed = Value_Absent\<rparr>) (si_desired declared)\<rparr>, 0)
      else (MakeRecord scope k Drift_Unknown
              (if \<not> ob_complete observation then Reason_ObservationCoverageIncomplete
               else Reason_ObservationCannotAssertAbsence) ec, 0))"
| "subject_record scope policy ec intent observation k None (Some seen) =
     (if in_complete intent
      then ((MakeRecord scope k Drift_Unexpected Reason_ClassifiedSubjectUnexpected ec)
              \<lparr>dr_deltas := attribute_deltas policy (\<lambda>(a, v). \<lparr>ad_key = a, ad_kind = Delta_OnlyInObservation,
                 ad_intended = Value_Absent, ad_observed = v\<rparr>) (so_observed seen)\<rparr>, 0)
      else (MakeRecord scope k Drift_Unknown Reason_IntentCoverageIncomplete ec, 0))"
| "subject_record scope policy ec intent observation k (Some declared) (Some seen) =
     (let walk = WalkAttributes (si_desired declared) (so_observed seen)
            (si_complete_attributes declared) (so_complete_attributes seen) policy
      in (compared_record scope k ec walk, aw_comparisons walk))"
| "subject_record scope policy ec intent observation k None None =
     (MakeRecord scope k Drift_Invalid Reason_None ec, 0)"

definition push_record :: "DriftRecord \<times> nat \<Rightarrow> ClassificationReport \<Rightarrow> ClassificationReport" where
  "push_record rn report =
     report\<lparr>cr_records := cr_records report @ [fst rn],
            cr_subject_visits := cr_subject_visits report + 1,
            cr_attribute_comparisons := cr_attribute_comparisons report + snd rn\<rparr>"

definition uniform_records ::
    "ScopeId \<Rightarrow> DriftClass \<Rightarrow> ReasonCode \<Rightarrow> EvidenceClass \<Rightarrow> SubjectId list \<Rightarrow> DriftRecord list" where
  "uniform_records scope drift r ec subjects = map (\<lambda>s. MakeRecord scope s drift r ec) subjects"

definition ClassifyScope :: "ClassificationInput \<Rightarrow> ClassificationReport Result" where
  "ClassifyScope input =
     (case ci_policy input of
        None \<Rightarrow> Inl (Status Code_PreconditionFailed Reason_DriftIsIndeterminate)
      | Some policy \<Rightarrow>
        if id_empty (ci_scope input) then Inl (Status Code_Rejected Reason_UnsupportedInput)
        else if list_ex (\<lambda>c. case c of None \<Rightarrow> False | Some d \<Rightarrow> in_scope d \<noteq> ci_scope input) (ci_intents input)
          then Inl (Status Code_Rejected Reason_UnsupportedInput)
        else if list_ex (\<lambda>c. case c of None \<Rightarrow> False | Some d \<Rightarrow> ob_scope d \<noteq> ci_scope input)
                  (ci_observations input)
          then Inl (Status Code_Rejected Reason_UnsupportedInput)
        else
          let isel = SelectCurrentIntent (ci_intents input);
              osel = SelectCurrentObservation (ci_observations input);
              evidence = scope_evidence input policy (is_selected isel) (os_selected osel);
              ec = ev_evidence evidence;
              report = \<lparr>cr_scope = ci_scope input, cr_evidence = evidence, cr_records = [],
                        cr_subject_visits = 0, cr_attribute_comparisons = 0\<rparr>;
              intent_regressed = (ci_has_committed_intent input \<and>
                (case is_selected isel of None \<Rightarrow> False
                 | Some d \<Rightarrow> in_generation d < ci_committed_intent_generation input));
              subjects = collect_all input;
              conflict = (is_conflicted isel \<or> os_conflicted osel);
              stale_intent = (\<not> conflict \<and> (intent_regressed \<or>
                (\<not> ev_has_intent evidence \<and> ci_has_committed_intent input)));
              missing_intent = (\<not> conflict \<and> \<not> stale_intent \<and> \<not> ev_has_intent evidence);
              stale_observation = (\<not> conflict \<and> \<not> stale_intent \<and> \<not> missing_intent \<and>
                ev_has_observation evidence \<and> ev_freshness evidence \<noteq> Fresh_Fresh)
          in
            if conflict then
              Inr (report\<lparr>cr_records := uniform_records (ci_scope input) Drift_Conflict
                (if is_conflicted isel then is_reason isel else os_reason osel) ec subjects\<rparr>)
            else if stale_intent then
              Inr (report\<lparr>cr_records := uniform_records (ci_scope input) Drift_StaleIntent
                (if intent_regressed then Reason_IntentGenerationRegressed
                 else Reason_NoIntentForScope) ec subjects\<rparr>)
            else if missing_intent then
              Inr (report\<lparr>cr_records := uniform_records (ci_scope input) Drift_Unknown
                Reason_NoIntentForScope ec subjects\<rparr>)
            else (case is_selected isel of
              None \<Rightarrow> Inl (Status Code_InternalError Reason_DriftIsIndeterminate)
            | Some intent \<Rightarrow>
              if \<not> ev_has_observation evidence then
                Inr (report\<lparr>cr_records := uniform_records (ci_scope input) Drift_Unknown
                  Reason_NoObservationForScope ec (map fst (in_subjects intent))\<rparr>)
              else if stale_observation then
                Inr (report\<lparr>cr_records := uniform_records (ci_scope input) Drift_StaleObservation
                  (ReasonOf (ev_freshness evidence)) ec subjects\<rparr>)
              else (case os_selected osel of
                None \<Rightarrow> Inl (Status Code_InternalError Reason_DriftIsIndeterminate)
              | Some observation \<Rightarrow>
                  Inr (merge_loop
                    (\<lambda>k l r. push_record (subject_record (ci_scope input) policy ec intent observation k l r))
                    (in_subjects intent) (ob_subjects observation) report))))"

section \<open>The merge is a pass over the sorted union\<close>

definition merge_keys :: "('k::linorder, 'a) omap \<Rightarrow> ('k, 'b) omap \<Rightarrow> 'k list" where
  "merge_keys ls rs = sorted_list_of_set (map_keys ls \<union> map_keys rs)"

lemma finite_map_keys [simp]: "finite (map_keys m)"
  by (simp add: map_keys_def)

lemma map_keys_Cons [simp]: "map_keys (e # m) = insert (fst e) (map_keys m)"
  by (simp add: map_keys_def)

lemma map_keys_Nil [simp]: "map_keys [] = {}"
  by (simp add: map_keys_def)

lemma set_merge_keys [simp]: "set (merge_keys ls rs) = map_keys ls \<union> map_keys rs"
  by (simp add: merge_keys_def)

lemma sorted_list_of_set_insert_least:
  assumes "finite A" "\<forall>x \<in> A. a < x"
  shows "sorted_list_of_set (insert a A) = a # sorted_list_of_set A"
proof -
  have "a \<notin> A" using assms(2) by blast
  then show ?thesis
    using assms by (simp add: insort_is_Cons less_imp_le)
qed

lemma wf_map_least: "wf_map (e # m) \<Longrightarrow> \<forall>k \<in> map_keys m. fst e < k"
  by (auto simp: map_keys_def)

text \<open>Peeling the least key off the union leaves the other lookups alone.\<close>

lemma fold_peel:
  assumes "finite A" "\<forall>x \<in> A. a < x" "\<And>k. k \<in> A \<Longrightarrow> g k = f k"
  shows "fold f (sorted_list_of_set (insert a A)) w = fold g (sorted_list_of_set A) (f a w)"
proof -
  have "fold f (sorted_list_of_set A) (f a w) = fold g (sorted_list_of_set A) (f a w)"
    by (rule fold_cong) (use assms in auto)
  then show ?thesis
    by (simp add: sorted_list_of_set_insert_least [OF assms(1,2)])
qed

lemma merge_loop_fold:
  "wf_map ls \<Longrightarrow> wf_map rs \<Longrightarrow>
     merge_loop f ls rs w = fold (\<lambda>k. f k (map_find k ls) (map_find k rs)) (merge_keys ls rs) w"
proof (induction f ls rs w rule: merge_loop.induct)
  case (1 f w)
  then show ?case by (simp add: merge_keys_def)
next
  case (2 f l ls w)
  note least = wf_map_least [OF "2.prems"(1)]
  show ?case
    using 2 least fold_peel [of "map_keys ls" "fst l" "\<lambda>k. f k (map_find k ls) None"
        "\<lambda>k. f k (map_find k (l # ls)) (map_find k [])" w]
    by (force simp: merge_keys_def)
next
  case (3 f r rs w)
  note least = wf_map_least [OF "3.prems"(2)]
  show ?case
    using 3 least fold_peel [of "map_keys rs" "fst r" "\<lambda>k. f k None (map_find k rs)"
        "\<lambda>k. f k (map_find k []) (map_find k (r # rs))" w]
    by (force simp: merge_keys_def)
next
  case (4 f l ls r rs w)
  let ?F = "\<lambda>k. f k (map_find k (l # ls)) (map_find k (r # rs))"
  note ll = wf_map_least [OF "4.prems"(1)] and rl = wf_map_least [OF "4.prems"(2)]
  have wf: "wf_map ls" "wf_map rs" using "4.prems" by simp_all
  consider "fst l < fst r" | "fst r < fst l" | "fst l = fst r" by fastforce
  then show ?case
  proof cases
    case 1
    let ?A = "map_keys ls \<union> map_keys (r # rs)"
    have eq: "insert (fst l) ?A = map_keys (l # ls) \<union> map_keys (r # rs)" by auto
    have lr: "\<forall>k \<in> map_keys rs. fst l < k" using 1 rl by (meson less_trans)
    then have nf: "map_find (fst l) rs = None" by (auto simp: map_find_None_iff)
    have fin: "finite ?A" by simp
    have least: "\<forall>x \<in> ?A. fst l < x" using 1 ll lr by auto
    have same: "f k (map_find k ls) (map_find k (r # rs)) = ?F k" if "k \<in> ?A" for k
      using less_imp_neq [OF bspec [OF least that]] by simp
    have "merge_loop f (l # ls) (r # rs) w =
        fold (\<lambda>k. f k (map_find k ls) (map_find k (r # rs))) (sorted_list_of_set ?A)
          (f (fst l) (Some (snd l)) None w)"
      using 1 "4.IH"(1) wf(1) "4.prems"(2) by (simp add: merge_keys_def)
    also have "\<dots> = fold (\<lambda>k. f k (map_find k ls) (map_find k (r # rs))) (sorted_list_of_set ?A)
        (?F (fst l) w)"
      using 1 nf by auto
    also have "\<dots> = fold ?F (sorted_list_of_set (insert (fst l) ?A)) w"
      by (simp only: fold_peel [OF fin least same])
    finally show ?thesis unfolding eq by (simp only: merge_keys_def)
  next
    case 2
    let ?A = "map_keys (l # ls) \<union> map_keys rs"
    have rr: "\<forall>k \<in> map_keys ls. fst r < k" using 2 ll by (meson less_trans)
    then have nf: "map_find (fst r) ls = None" by (auto simp: map_find_None_iff)
    have fin: "finite ?A" by simp
    have least: "\<forall>x \<in> ?A. fst r < x" using 2 rr rl by auto
    have same: "f k (map_find k (l # ls)) (map_find k rs) = ?F k" if "k \<in> ?A" for k
      using less_imp_neq [OF bspec [OF least that]] by simp
    have eq: "insert (fst r) ?A = map_keys (l # ls) \<union> map_keys (r # rs)" by auto
    have "merge_loop f (l # ls) (r # rs) w =
        fold (\<lambda>k. f k (map_find k (l # ls)) (map_find k rs)) (sorted_list_of_set ?A)
          (f (fst r) None (Some (snd r)) w)"
      using 2 less_not_sym [OF 2] "4.IH"(2) wf(2) "4.prems"(1) by (simp add: merge_keys_def)
    also have "\<dots> = fold (\<lambda>k. f k (map_find k (l # ls)) (map_find k rs)) (sorted_list_of_set ?A)
        (?F (fst r) w)"
      using 2 nf by auto
    also have "\<dots> = fold ?F (sorted_list_of_set (insert (fst r) ?A)) w"
      by (simp only: fold_peel [OF fin least same])
    finally show ?thesis unfolding eq by (simp only: merge_keys_def)
  next
    case 3
    let ?A = "map_keys ls \<union> map_keys rs"
    have eq: "insert (fst l) ?A = map_keys (l # ls) \<union> map_keys (r # rs)" using 3 by auto
    have fin: "finite ?A" by simp
    have least: "\<forall>x \<in> ?A. fst l < x" using 3 ll rl by auto
    have same: "f k (map_find k ls) (map_find k rs) = ?F k" if "k \<in> ?A" for k
      using less_imp_neq [OF bspec [OF least that]] 3 by simp
    have "merge_loop f (l # ls) (r # rs) w =
        fold (\<lambda>k. f k (map_find k ls) (map_find k rs)) (sorted_list_of_set ?A) (?F (fst l) w)"
      using 3 "4.IH"(3) wf by (simp add: merge_keys_def)
    also have "\<dots> = fold ?F (sorted_list_of_set (insert (fst l) ?A)) w"
      by (simp only: fold_peel [OF fin least same])
    finally show ?thesis unfolding eq by (simp only: merge_keys_def)
  qed
qed

section \<open>What the attribute walk reports\<close>

text \<open>The contribution of one key, independently of the walk so far.\<close>

definition key_deltas ::
    "bool \<Rightarrow> bool \<Rightarrow> ReconciliationPolicy \<Rightarrow> AttributeKey \<Rightarrow> AttributeValue option \<Rightarrow>
     AttributeValue option \<Rightarrow> AttributeDelta list" where
  "key_deltas ic oc policy k l r = aw_deltas (walk_step ic oc policy k l r walk_new)"

definition key_gap where
  "key_gap ic oc policy k l r = aw_coverage_gap (walk_step ic oc policy k l r walk_new)"

definition key_unsupported where
  "key_unsupported ic oc policy k l r = aw_unsupported (walk_step ic oc policy k l r walk_new)"

lemmas key_defs = key_deltas_def key_gap_def key_unsupported_def walk_new_def push_delta_def Let_def

lemma walk_step_decompose:
  assumes "l \<noteq> None \<or> r \<noteq> None"
  shows "walk_step ic oc policy k l r w =
    \<lparr>aw_deltas = aw_deltas w @ key_deltas ic oc policy k l r,
     aw_coverage_gap = (aw_coverage_gap w \<or> key_gap ic oc policy k l r),
     aw_unsupported = (aw_unsupported w \<or> key_unsupported ic oc policy k l r),
     aw_comparisons = aw_comparisons w + 1\<rparr>"
  using assms by (cases l; cases r; cases w) (auto simp: key_defs)

lemma walk_fold:
  assumes "\<forall>k \<in> set ks. L k \<noteq> None \<or> R k \<noteq> None"
  shows "fold (\<lambda>k. walk_step ic oc policy k (L k) (R k)) ks w =
    \<lparr>aw_deltas = aw_deltas w @ concat (map (\<lambda>k. key_deltas ic oc policy k (L k) (R k)) ks),
     aw_coverage_gap = (aw_coverage_gap w \<or> (\<exists>k \<in> set ks. key_gap ic oc policy k (L k) (R k))),
     aw_unsupported = (aw_unsupported w \<or> (\<exists>k \<in> set ks. key_unsupported ic oc policy k (L k) (R k))),
     aw_comparisons = aw_comparisons w + length ks\<rparr>"
  using assms by (induction ks arbitrary: w) (auto simp: walk_step_decompose)

lemma WalkAttributes_reference:
  assumes "wf_map desired" "wf_map observed"
  shows "WalkAttributes desired observed ic oc policy =
    (let ks = merge_keys desired observed in
     \<lparr>aw_deltas = concat (map (\<lambda>k. key_deltas ic oc policy k (map_find k desired) (map_find k observed)) ks),
      aw_coverage_gap = (\<exists>k \<in> set ks. key_gap ic oc policy k (map_find k desired) (map_find k observed)),
      aw_unsupported =
        (\<exists>k \<in> set ks. key_unsupported ic oc policy k (map_find k desired) (map_find k observed)),
      aw_comparisons = length ks\<rparr>)"
proof -
  have "\<forall>k \<in> set (merge_keys desired observed). map_find k desired \<noteq> None \<or> map_find k observed \<noteq> None"
    using map_find_None_iff by fastforce
  from walk_fold [OF this] show ?thesis
    by (simp add: WalkAttributes_def merge_loop_fold [OF assms] walk_new_def Let_def)
qed

text \<open>
  A key contributes no actionable delta, no gap and no unsupported value exactly when it is
  unmanaged, or both sides agree on a valid value.
\<close>

definition key_clean :: "ReconciliationPolicy \<Rightarrow> AttributeKey \<Rightarrow> AttributeValue option \<Rightarrow> AttributeValue option \<Rightarrow> bool" where
  "key_clean policy k l r \<longleftrightarrow>
     IsAttributeUnmanaged policy k \<or> (l = r \<and> (\<forall>v. l = Some v \<longrightarrow> value_IsValid v))"

lemma valid_value_kind: "value_IsValid v \<Longrightarrow> value_kind v \<noteq> Kind_Invalid"
  by (cases v) simp_all

lemma key_clean_iff:
  assumes "l \<noteq> None \<or> r \<noteq> None"
  shows "key_clean policy k l r \<longleftrightarrow>
    \<not> key_gap ic oc policy k l r \<and> \<not> key_unsupported ic oc policy k l r \<and>
    \<not> HasActionableDelta (key_deltas ic oc policy k l r)"
  using assms
  by (cases l; cases r)
    (auto simp: key_defs key_clean_def HasActionableDelta_def ComparableWith_def
      dest: valid_value_kind)

lemma HasActionableDelta_concat:
  "HasActionableDelta (concat dss) \<longleftrightarrow> (\<exists>ds \<in> set dss. HasActionableDelta ds)"
  by (auto simp: HasActionableDelta_def list_ex_iff)

lemma compared_converged_iff:
  assumes "wf_map desired" "wf_map observed"
  shows "dr_drift (compared_record scope k ec (WalkAttributes desired observed ic oc policy)) =
      Drift_AlreadyConverged \<longleftrightarrow>
    (\<forall>a. key_clean policy a (map_find a desired) (map_find a observed))"
proof -
  let ?L = "\<lambda>a. map_find a desired" and ?R = "\<lambda>a. map_find a observed"
  let ?ks = "merge_keys desired observed"
  have some: "?L a \<noteq> None \<or> ?R a \<noteq> None" if "a \<in> set ?ks" for a
    using that map_find_None_iff by fastforce
  have clean_outside: "key_clean policy a (?L a) (?R a)" if "a \<notin> set ?ks" for a
    using that by (auto simp: key_clean_def map_find_None_iff [THEN iffD2])
  have "dr_drift (compared_record scope k ec (WalkAttributes desired observed ic oc policy)) =
      Drift_AlreadyConverged \<longleftrightarrow>
      (\<forall>a \<in> set ?ks. \<not> key_unsupported ic oc policy a (?L a) (?R a) \<and> \<not> key_gap ic oc policy a (?L a) (?R a)
        \<and> \<not> HasActionableDelta (key_deltas ic oc policy a (?L a) (?R a)))"
    unfolding WalkAttributes_reference [OF assms] compared_record_def Let_def
    by (auto simp: HasActionableDelta_concat MakeRecord_def)
  also have "\<dots> \<longleftrightarrow> (\<forall>a \<in> set ?ks. key_clean policy a (?L a) (?R a))"
    using key_clean_iff [OF some] by blast
  also have "\<dots> \<longleftrightarrow> (\<forall>a. key_clean policy a (?L a) (?R a))"
    using clean_outside by blast
  finally show ?thesis .
qed

section \<open>Selection\<close>

text \<open>
  What both selections share: the loop keeps a candidate of greatest key, the generation is the
  leading part of the key, and candidates at one generation conflict when their digests differ.
\<close>

locale selection =
  fixes lt :: "'d \<Rightarrow> 'd \<Rightarrow> bool"
    and key :: "'d \<Rightarrow> 'k::linorder"
    and generation :: "'d \<Rightarrow> 'g::linorder"
    and digest :: "'d \<Rightarrow> bytes"
  assumes lt_key: "lt a b \<longleftrightarrow> key a < key b"
    and generation_mono: "key a \<le> key b \<Longrightarrow> generation a \<le> generation b"
begin

lemma select_loop_max:
  "select_loop lt cs sel = Some s \<Longrightarrow>
     (Some s \<in> set cs \<or> sel = Some s) \<and> (\<forall>d. Some d \<in> set cs \<or> sel = Some d \<longrightarrow> key d \<le> key s)"
proof (induction cs arbitrary: sel)
  case (Cons c cs)
  show ?case
  proof (cases c)
    case None
    then show ?thesis using Cons by simp
  next
    case (Some d)
    let ?next = "case sel of None \<Rightarrow> Some d | Some t \<Rightarrow> (if lt t d then Some d else Some t)"
    have "select_loop lt cs ?next = Some s"
      using Cons.prems Some by (cases sel) auto
    from Cons.IH [OF this] have mem: "Some s \<in> set cs \<or> ?next = Some s"
      and max: "\<And>e. Some e \<in> set cs \<or> ?next = Some e \<Longrightarrow> key e \<le> key s" by blast+
    obtain n where n: "?next = Some n" "key d \<le> key n" "\<forall>t. sel = Some t \<longrightarrow> key t \<le> key n"
      "n = d \<or> sel = Some n"
    proof (cases sel)
      case None
      then show thesis using that [of d] by simp
    next
      case (Some t)
      then show thesis using that [of "if lt t d then d else t"] by (cases "lt t d") (auto simp: lt_key)
    qed
    then have "key n \<le> key s" using max by blast
    then have "key d \<le> key s" "\<forall>t. sel = Some t \<longrightarrow> key t \<le> key s"
      using n by auto
    then show ?thesis
      using mem max n Some by auto
  qed
qed auto

lemma select_loop_None: "select_loop lt cs sel = None \<longleftrightarrow> sel = None \<and> (\<forall>c \<in> set cs. c = None)"
proof (induction cs arbitrary: sel)
  case (Cons c cs)
  then show ?case by (cases c; cases sel) auto
qed auto

text \<open>The key of the selected candidate does not depend on the order of the candidates.\<close>

lemma select_key_cong:
  assumes "set cs = set ds"
  shows "map_option key (select_loop lt cs None) = map_option key (select_loop lt ds None)"
proof (cases "select_loop lt cs None")
  case None
  then have "select_loop lt ds None = None" using assms by (simp add: select_loop_None)
  with None show ?thesis by simp
next
  case (Some s)
  then obtain t where t: "select_loop lt ds None = Some t"
    using assms select_loop_None [of cs None] select_loop_None [of ds None] by (metis not_None_eq)
  have "key s \<le> key t" "key t \<le> key s"
    using select_loop_max [OF Some] select_loop_max [OF t] assms by auto
  then show ?thesis using Some t by simp
qed

lemma clash_iff:
  "clash generation digest cs s \<longleftrightarrow> (\<exists>d. Some d \<in> set cs \<and> generation d = generation s \<and> digest d \<noteq> digest s)"
  by (auto simp: clash_def list_ex_iff split: option.splits)

lemma select_generation_max:
  "select_loop lt cs None = Some s \<Longrightarrow> Some d \<in> set cs \<Longrightarrow> generation d \<le> generation s"
  using select_loop_max generation_mono by blast

text \<open>The conflict verdict depends on the candidate set only.\<close>

lemma clash_cong:
  assumes "set cs = set ds" "select_loop lt cs None = Some s" "select_loop lt ds None = Some t"
  shows "clash generation digest cs s \<longleftrightarrow> clash generation digest ds t"
proof -
  have mem: "Some s \<in> set ds" "Some t \<in> set cs"
    using assms select_loop_max by blast+
  then have gen: "generation s = generation t"
    using select_generation_max assms by (metis order_antisym)
  show ?thesis
    unfolding clash_iff using mem gen assms(1) by metis
qed

lemma agreed_digest_cong:
  assumes "set cs = set ds" "select_loop lt cs None = Some s" "select_loop lt ds None = Some t"
    "\<not> clash generation digest cs s"
  shows "generation s = generation t \<and> digest s = digest t"
proof -
  have "Some s \<in> set ds" "Some t \<in> set cs"
    using assms select_loop_max by blast+
  moreover from this have "generation s = generation t"
    using select_generation_max assms by (metis order_antisym)
  ultimately show ?thesis using assms(4) by (auto simp: clash_iff)
qed

end

definition observation_key :: "ObservationDocument \<Rightarrow> ObservationGeneration \<times> int \<times> ReporterId" where
  "observation_key d = (ob_generation d, sint (ob_received_unix_ms d), ob_reporter d)"

interpretation intent_selection:
  selection "\<lambda>a b. in_generation a < in_generation b" in_generation in_generation in_digest
  by unfold_locales auto

lemma sint_less_iff: "(a :: i64) \<noteq> b \<Longrightarrow> sint a < sint b \<longleftrightarrow> sint a \<le> sint b"
  by (metis order_le_less signed_word_eqI)

interpretation observation_selection:
  selection ObservationKeyLess observation_key ob_generation ob_digest
  by unfold_locales
    (auto simp: ObservationKeyLess_def observation_key_def less_prod_def less_eq_prod_def sint_less_iff)

lemma SelectCurrentIntent_selected:
  assumes "is_selected (SelectCurrentIntent cs) = Some s"
  shows "Some s \<in> set cs" "\<And>d. Some d \<in> set cs \<Longrightarrow> in_generation d \<le> in_generation s"
    "\<And>d. Some d \<in> set cs \<Longrightarrow> in_generation d = in_generation s \<Longrightarrow> in_digest d = in_digest s"
    "\<not> is_conflicted (SelectCurrentIntent cs)"
proof -
  have sel: "select_loop (\<lambda>a b. in_generation a < in_generation b) cs None = Some s"
    and nc: "\<not> clash in_generation in_digest cs s"
    using assms by (auto simp: SelectCurrentIntent_def split: option.splits if_splits)
  show "Some s \<in> set cs" "\<And>d. Some d \<in> set cs \<Longrightarrow> in_generation d \<le> in_generation s"
    using intent_selection.select_loop_max [OF sel] by auto
  show "\<And>d. Some d \<in> set cs \<Longrightarrow> in_generation d = in_generation s \<Longrightarrow> in_digest d = in_digest s"
    using nc by (auto simp: intent_selection.clash_iff)
  show "\<not> is_conflicted (SelectCurrentIntent cs)"
    using sel nc by (simp add: SelectCurrentIntent_def)
qed

lemma SelectCurrentObservation_selected:
  assumes "os_selected (SelectCurrentObservation cs) = Some s"
  shows "Some s \<in> set cs" "\<And>d. Some d \<in> set cs \<Longrightarrow> observation_key d \<le> observation_key s"
    "\<And>d. Some d \<in> set cs \<Longrightarrow> ob_generation d = ob_generation s \<Longrightarrow> ob_digest d = ob_digest s"
    "\<not> os_conflicted (SelectCurrentObservation cs)"
proof -
  have sel: "select_loop ObservationKeyLess cs None = Some s"
    and nc: "\<not> clash ob_generation ob_digest cs s"
    using assms by (auto simp: SelectCurrentObservation_def split: option.splits if_splits)
  show "Some s \<in> set cs" "\<And>d. Some d \<in> set cs \<Longrightarrow> observation_key d \<le> observation_key s"
    using observation_selection.select_loop_max [OF sel] by auto
  show "\<And>d. Some d \<in> set cs \<Longrightarrow> ob_generation d = ob_generation s \<Longrightarrow> ob_digest d = ob_digest s"
    using nc by (auto simp: observation_selection.clash_iff)
  show "\<not> os_conflicted (SelectCurrentObservation cs)"
    using sel nc by (simp add: SelectCurrentObservation_def)
qed

section \<open>What the classifier reports\<close>

text \<open>The evidence a per-subject comparison rests on: everything current, agreed and fresh.\<close>

definition full_classification ::
    "ClassificationInput \<Rightarrow> ReconciliationPolicy \<Rightarrow> IntentDocument \<Rightarrow> ObservationDocument \<Rightarrow> bool" where
  "full_classification input policy intent observation \<longleftrightarrow>
     ci_policy input = Some policy \<and>
     is_selected (SelectCurrentIntent (ci_intents input)) = Some intent \<and>
     os_selected (SelectCurrentObservation (ci_observations input)) = Some observation \<and>
     \<not> (ci_has_committed_intent input \<and> in_generation intent < ci_committed_intent_generation input) \<and>
     EvaluateFreshness observation (po_freshness policy) (ci_live_epoch input) (ci_now_unix_ms input)
       = Fresh_Fresh"

definition undecided_drift :: "DriftClass \<Rightarrow> bool" where
  "undecided_drift d \<longleftrightarrow>
     d = Drift_Conflict \<or> d = Drift_StaleIntent \<or> d = Drift_StaleObservation \<or> d = Drift_Unknown"

definition reference_record ::
    "ClassificationInput \<Rightarrow> ReconciliationPolicy \<Rightarrow> IntentDocument \<Rightarrow> ObservationDocument \<Rightarrow>
     SubjectId \<Rightarrow> DriftRecord \<times> nat" where
  "reference_record input policy intent observation k =
     subject_record (ci_scope input) policy
       (ev_evidence (scope_evidence input policy (Some intent) (Some observation)))
       intent observation k (map_find k (in_subjects intent)) (map_find k (ob_subjects observation))"

lemma push_record_fold:
  "fold (\<lambda>k. push_record (g k)) ks rep =
     rep\<lparr>cr_records := cr_records rep @ map (fst \<circ> g) ks,
         cr_subject_visits := cr_subject_visits rep + length ks,
         cr_attribute_comparisons := cr_attribute_comparisons rep + sum_list (map (snd \<circ> g) ks)\<rparr>"
  by (induction ks arbitrary: rep) (simp_all add: push_record_def)

lemma scope_evidence_simps [simp]:
  "ev_has_intent (scope_evidence input policy i ob) \<longleftrightarrow> i \<noteq> None"
  "ev_has_observation (scope_evidence input policy i ob) \<longleftrightarrow> ob \<noteq> None"
  "ev_freshness (scope_evidence input policy i (Some d)) =
     EvaluateFreshness d (po_freshness policy) (ci_live_epoch input) (ci_now_unix_ms input)"
  by (simp_all add: scope_evidence_def evidence_new_def Let_def split: option.splits)

lemma dr_drift_uniform [simp]:
  "r \<in> set (uniform_records scope d rs ec subjects) \<Longrightarrow> dr_drift r = d"
  by (auto simp: uniform_records_def MakeRecord_def)

lemma ClassifyScope_cases:
  assumes "ClassifyScope input = Inr rep"
  obtains (undecided) "\<forall>r \<in> set (cr_records rep). undecided_drift (dr_drift r)" "cr_subject_visits rep = 0"
  | (full) policy intent observation where
      "full_classification input policy intent observation"
      "rep = merge_loop (\<lambda>k l r. push_record (subject_record (ci_scope input) policy
               (ev_evidence (scope_evidence input policy (Some intent) (Some observation)))
               intent observation k l r)) (in_subjects intent) (ob_subjects observation)
             \<lparr>cr_scope = ci_scope input,
              cr_evidence = scope_evidence input policy (Some intent) (Some observation),
              cr_records = [], cr_subject_visits = 0, cr_attribute_comparisons = 0\<rparr>"
  using assms
  by (auto simp: ClassifyScope_def Let_def undecided_drift_def full_classification_def
      split: option.splits if_splits)

lemma merge_loop_invariant:
  "(\<And>k l r w. P w \<Longrightarrow> P (f k l r w)) \<Longrightarrow> P w \<Longrightarrow> P (merge_loop f ls rs w)"
  by (induction f ls rs w rule: merge_loop.induct) simp_all

lemma merge_push_evidence:
  "cr_evidence (merge_loop (\<lambda>k l r. push_record (g k l r)) ls rs rep) = cr_evidence rep"
  "cr_scope (merge_loop (\<lambda>k l r. push_record (g k l r)) ls rs rep) = cr_scope rep"
  by (rule merge_loop_invariant [where P = "\<lambda>w. cr_evidence w = cr_evidence rep"],
      simp_all add: push_record_def)
    (rule merge_loop_invariant [where P = "\<lambda>w. cr_scope w = cr_scope rep"],
      simp_all add: push_record_def)

text \<open>
  In a full classification the report lists one record per subject of either document, in key
  order, each the function of that subject alone; the work counters are the number of distinct
  subjects and the sum of the distinct attributes compared.
\<close>

lemma ClassifyScope_full:
  assumes "ClassifyScope input = Inr rep" "full_classification input policy intent observation"
    "wf_map (in_subjects intent)" "wf_map (ob_subjects observation)"
    "cr_subject_visits rep \<noteq> 0"
  shows "cr_records rep = map (fst \<circ> reference_record input policy intent observation)
      (merge_keys (in_subjects intent) (ob_subjects observation))"
    "cr_subject_visits rep = length (merge_keys (in_subjects intent) (ob_subjects observation))"
    "cr_evidence rep = scope_evidence input policy (Some intent) (Some observation)"
proof -
  show "cr_records rep = map (fst \<circ> reference_record input policy intent observation)
      (merge_keys (in_subjects intent) (ob_subjects observation))"
    "cr_subject_visits rep = length (merge_keys (in_subjects intent) (ob_subjects observation))"
    "cr_evidence rep = scope_evidence input policy (Some intent) (Some observation)"
    using assms
    by (cases rule: ClassifyScope_cases [OF assms(1)];
        simp add: full_classification_def merge_loop_fold push_record_fold reference_record_def
          comp_def merge_push_evidence)+
qed

lemma subject_record_fields [simp]:
  "dr_subject (fst (subject_record scope policy ec intent observation k l r)) = k"
  "dr_scope (fst (subject_record scope policy ec intent observation k l r)) = scope"
  "dr_evidence (fst (subject_record scope policy ec intent observation k l r)) = ec"
  by (cases l; cases r; simp add: compared_record_def MakeRecord_def Let_def)+

lemma ClassifyScope_decided:
  assumes "ClassifyScope input = Inr rep" "r \<in> set (cr_records rep)" "\<not> undecided_drift (dr_drift r)"
    and wf: "\<And>d. Some d \<in> set (ci_intents input) \<Longrightarrow> wf_map (in_subjects d)"
      "\<And>d. Some d \<in> set (ci_observations input) \<Longrightarrow> wf_map (ob_subjects d)"
  obtains policy intent observation where
    "full_classification input policy intent observation"
    "cr_evidence rep = scope_evidence input policy (Some intent) (Some observation)"
    "dr_subject r \<in> map_keys (in_subjects intent) \<union> map_keys (ob_subjects observation)"
    "r = fst (reference_record input policy intent observation (dr_subject r))"
proof (rule ClassifyScope_cases [OF assms(1)])
  assume "\<forall>r \<in> set (cr_records rep). undecided_drift (dr_drift r)"
  then show thesis using assms(2,3) by blast
next
  fix policy intent observation
  let ?ec = "ev_evidence (scope_evidence input policy (Some intent) (Some observation))"
  assume full: "full_classification input policy intent observation"
    and rep: "rep = merge_loop (\<lambda>k l r. push_record (subject_record (ci_scope input) policy ?ec
               intent observation k l r)) (in_subjects intent) (ob_subjects observation)
             \<lparr>cr_scope = ci_scope input,
              cr_evidence = scope_evidence input policy (Some intent) (Some observation),
              cr_records = [], cr_subject_visits = 0, cr_attribute_comparisons = 0\<rparr>"
  have wfm: "wf_map (in_subjects intent)" "wf_map (ob_subjects observation)"
    using full wf SelectCurrentIntent_selected(1) SelectCurrentObservation_selected(1)
    by (auto simp: full_classification_def)
  have "cr_records rep = map (fst \<circ> reference_record input policy intent observation)
      (merge_keys (in_subjects intent) (ob_subjects observation))"
    unfolding rep merge_loop_fold [OF wfm] push_record_fold
    by (simp add: reference_record_def comp_def)
  then obtain k where "k \<in> map_keys (in_subjects intent) \<union> map_keys (ob_subjects observation)"
      "r = fst (reference_record input policy intent observation k)"
    using assms(2) by auto
  moreover from this have "dr_subject r = k" by (simp add: reference_record_def)
  moreover have "cr_evidence rep = scope_evidence input policy (Some intent) (Some observation)"
    unfolding rep merge_push_evidence by simp
  ultimately show thesis using that full by auto
qed

lemma mem_map_keys: "k \<in> map_keys m \<longleftrightarrow> (\<exists>v. map_find k m = Some v)"
  using map_find_None_iff [of k m] by auto

text \<open>When each definite class is reported, for one subject of a full classification.\<close>

lemma reference_record_missing:
  "dr_drift (fst (reference_record input policy intent observation k)) = Drift_Missing \<longleftrightarrow>
     k \<in> map_keys (in_subjects intent) \<and> k \<notin> map_keys (ob_subjects observation) \<and>
     (\<not> require_complete_coverage_for_absence (po_freshness policy) \<or>
      (ob_complete observation \<and> ob_authoritative_absence observation))"
  by (cases "map_find k (in_subjects intent)"; cases "map_find k (ob_subjects observation)")
    (simp_all add: mem_map_keys reference_record_def MakeRecord_def compared_record_def Let_def)

lemma reference_record_unexpected:
  "dr_drift (fst (reference_record input policy intent observation k)) = Drift_Unexpected \<longleftrightarrow>
     k \<notin> map_keys (in_subjects intent) \<and> k \<in> map_keys (ob_subjects observation) \<and> in_complete intent"
  by (cases "map_find k (in_subjects intent)"; cases "map_find k (ob_subjects observation)")
    (simp_all add: mem_map_keys reference_record_def MakeRecord_def compared_record_def Let_def)

lemma reference_record_converged:
  assumes "\<And>e. map_find k (in_subjects intent) = Some e \<Longrightarrow> wf_map (si_desired e)"
    "\<And>e. map_find k (ob_subjects observation) = Some e \<Longrightarrow> wf_map (so_observed e)"
  shows "dr_drift (fst (reference_record input policy intent observation k)) = Drift_AlreadyConverged \<longleftrightarrow>
    (\<exists>declared seen. map_find k (in_subjects intent) = Some declared \<and>
       map_find k (ob_subjects observation) = Some seen \<and>
       (\<forall>a. key_clean policy a (map_find a (si_desired declared)) (map_find a (so_observed seen))))"
proof (cases "map_find k (in_subjects intent)")
  case None
  then show ?thesis
    by (cases "map_find k (ob_subjects observation)")
      (simp_all add: reference_record_def MakeRecord_def)
next
  case (Some declared)
  then show ?thesis
    using assms by (cases "map_find k (ob_subjects observation)")
      (simp_all add: reference_record_def MakeRecord_def Let_def compared_converged_iff)
qed

end
