(* ===== verification/Plan.thy ===== *)
theory Plan
  imports Drift
begin

text \<open>
  \<open>plan.hpp\<close> and \<open>plan.cpp\<close>: decisions, plans, idempotency keys and the plan digest.
\<close>

section \<open>Vocabulary\<close>

datatype ActionKind = Action_None | Action_ApplyDesired | Action_WithdrawSubject

fun ActionKind_u8 :: "ActionKind \<Rightarrow> u8" where
  "ActionKind_u8 Action_None = 0"
| "ActionKind_u8 Action_ApplyDesired = 1"
| "ActionKind_u8 Action_WithdrawSubject = 2"

definition ActionKind_of_u8 :: "u8 \<Rightarrow> ActionKind option" where
  "ActionKind_of_u8 b = (if b = 0 then Some Action_None else if b = 1 then Some Action_ApplyDesired
     else if b = 2 then Some Action_WithdrawSubject else None)"

lemma ActionKind_of_u8_of [simp]: "ActionKind_of_u8 (ActionKind_u8 a) = Some a"
  by (cases a) (simp_all add: ActionKind_of_u8_def)

fun ActionKind_text :: "ActionKind \<Rightarrow> string" where
  "ActionKind_text Action_None = ''NONE''"
| "ActionKind_text Action_ApplyDesired = ''APPLY_DESIRED''"
| "ActionKind_text Action_WithdrawSubject = ''WITHDRAW_SUBJECT''"

definition TryParseActionKind :: "string \<Rightarrow> ActionKind option" where
  "TryParseActionKind t = (if t = ''NONE'' then Some Action_None
     else if t = ''APPLY_DESIRED'' then Some Action_ApplyDesired
     else if t = ''WITHDRAW_SUBJECT'' then Some Action_WithdrawSubject else None)"

datatype DecisionDisposition = Disp_Invalid | Disp_Actionable | Disp_Blocked | Disp_Conflicted
  | Disp_Indeterminate | Disp_AlreadySatisfied | Disp_Unsupported | Disp_Fenced

fun DecisionDisposition_u8 :: "DecisionDisposition \<Rightarrow> u8" where
  "DecisionDisposition_u8 Disp_Invalid = 0"
| "DecisionDisposition_u8 Disp_Actionable = 1"
| "DecisionDisposition_u8 Disp_Blocked = 2"
| "DecisionDisposition_u8 Disp_Conflicted = 3"
| "DecisionDisposition_u8 Disp_Indeterminate = 4"
| "DecisionDisposition_u8 Disp_AlreadySatisfied = 5"
| "DecisionDisposition_u8 Disp_Unsupported = 6"
| "DecisionDisposition_u8 Disp_Fenced = 7"

fun DecisionDisposition_text :: "DecisionDisposition \<Rightarrow> string" where
  "DecisionDisposition_text Disp_Invalid = ''INVALID''"
| "DecisionDisposition_text Disp_Actionable = ''ACTIONABLE''"
| "DecisionDisposition_text Disp_Blocked = ''BLOCKED''"
| "DecisionDisposition_text Disp_Conflicted = ''CONFLICTED''"
| "DecisionDisposition_text Disp_Indeterminate = ''INDETERMINATE''"
| "DecisionDisposition_text Disp_AlreadySatisfied = ''ALREADY_SATISFIED''"
| "DecisionDisposition_text Disp_Unsupported = ''UNSUPPORTED''"
| "DecisionDisposition_text Disp_Fenced = ''FENCED''"

definition IsMutationDisposition :: "DecisionDisposition \<Rightarrow> bool" where
  "IsMutationDisposition d \<longleftrightarrow> d = Disp_Actionable"

datatype ConvergenceVerdict = Verdict_Invalid | Verdict_ConvergedProven | Verdict_ConvergenceRequired
  | Verdict_ProvenBlocked | Verdict_Indeterminate | Verdict_SearchLimitReached

fun ConvergenceVerdict_u8 :: "ConvergenceVerdict \<Rightarrow> u8" where
  "ConvergenceVerdict_u8 Verdict_Invalid = 0"
| "ConvergenceVerdict_u8 Verdict_ConvergedProven = 1"
| "ConvergenceVerdict_u8 Verdict_ConvergenceRequired = 2"
| "ConvergenceVerdict_u8 Verdict_ProvenBlocked = 3"
| "ConvergenceVerdict_u8 Verdict_Indeterminate = 4"
| "ConvergenceVerdict_u8 Verdict_SearchLimitReached = 5"

fun ConvergenceVerdict_text :: "ConvergenceVerdict \<Rightarrow> string" where
  "ConvergenceVerdict_text Verdict_Invalid = ''INVALID''"
| "ConvergenceVerdict_text Verdict_ConvergedProven = ''CONVERGED_PROVEN''"
| "ConvergenceVerdict_text Verdict_ConvergenceRequired = ''CONVERGENCE_REQUIRED''"
| "ConvergenceVerdict_text Verdict_ProvenBlocked = ''PROVEN_BLOCKED''"
| "ConvergenceVerdict_text Verdict_Indeterminate = ''INDETERMINATE''"
| "ConvergenceVerdict_text Verdict_SearchLimitReached = ''SEARCH_LIMIT_REACHED''"

section \<open>Decisions and plans\<close>

record Decision =
  de_scope :: ScopeId
  de_subject :: SubjectId
  de_drift :: DriftClass
  de_reason :: ReasonCode
  de_action :: ActionKind
  de_disposition :: DecisionDisposition
  de_authority :: AuthorityVector
  de_idempotency_key :: Sha256Digest
  de_explanation :: Explanation
  de_evidence :: EvidenceClass

record ReconciliationPlan =
  pl_scope :: ScopeId
  pl_definition :: DefinitionId
  pl_epoch :: CoordinatorEpoch
  pl_boot :: BootId
  pl_policy_id :: PolicyId
  pl_policy_version :: PolicyVersion
  pl_policy_digest :: Sha256Digest
  pl_intent_generation :: IntentGeneration
  pl_intent :: IntentId
  pl_intent_digest :: Sha256Digest
  pl_observation :: ObservationId
  pl_observation_generation :: ObservationGeneration
  pl_reporter :: ReporterId
  pl_observation_digest :: Sha256Digest
  pl_observation_epoch :: CoordinatorEpoch
  pl_observation_received_unix_ms :: UnixMillis
  pl_freshness :: FreshnessVerdict
  pl_verdict :: ConvergenceVerdict
  pl_evidence :: EvidenceClass
  pl_truncated :: bool
  pl_decisions :: "Decision list"
  pl_scope_explanation :: Explanation
  pl_scope_reason :: ReasonCode
  pl_plan_digest :: Sha256Digest
  pl_plan_id :: string

definition steps_puts :: "ExplanationStep list \<Rightarrow> put list" where
  "steps_puts steps =
     PutU32 (count_u32 steps) # concat (map (\<lambda>s. [PutU16 (es_code s), PutText (es_detail s)]) steps)"

definition decision_puts :: "Decision \<Rightarrow> put list" where
  "decision_puts d =
     [PutText (str (de_scope d)), PutText (str (de_subject d)), PutU8 (DriftClass_u8 (de_drift d)),
      PutU16 (de_reason d), PutU8 (ActionKind_u8 (de_action d)),
      PutU8 (DecisionDisposition_u8 (de_disposition d)), PutDigest (de_idempotency_key d),
      PutU8 (EvidenceClass_u8 (de_evidence d))] @ steps_puts (ex_steps (de_explanation d))"

definition EncodePlanContent :: "ReconciliationPlan \<Rightarrow> put list" where
  "EncodePlanContent p =
     [PutU16 kCanonicalSchemaVersion, PutText (str (pl_scope p)), PutText (str (pl_definition p)),
      PutU64 (cval (pl_epoch p)), PutDigest (pl_policy_digest p), PutU64 (cval (pl_policy_version p)),
      PutText (str (pl_intent p)), PutU64 (cval (pl_intent_generation p)),
      PutDigest (pl_intent_digest p), PutText (str (pl_observation p)),
      PutU64 (cval (pl_observation_generation p)), PutText (str (pl_reporter p)),
      PutDigest (pl_observation_digest p), PutU8 (ConvergenceVerdict_u8 (pl_verdict p)),
      PutU8 (EvidenceClass_u8 (pl_evidence p)), PutBool (pl_truncated p), PutU16 (pl_scope_reason p)] @
     steps_puts (ex_steps (pl_scope_explanation p)) @
     PutU32 (count_u32 (pl_decisions p)) # concat (map decision_puts (pl_decisions p))"

definition MutationCount :: "ReconciliationPlan \<Rightarrow> nat" where
  "MutationCount p = length (filter (\<lambda>d. IsMutationDisposition (de_disposition d)) (pl_decisions p))"

definition CountDisposition :: "DecisionDisposition \<Rightarrow> ReconciliationPlan \<Rightarrow> nat" where
  "CountDisposition v p = length (filter (\<lambda>d. de_disposition d = v) (pl_decisions p))"

definition CountDrift :: "DriftClass \<Rightarrow> ReconciliationPlan \<Rightarrow> nat" where
  "CountDrift v p = length (filter (\<lambda>d. de_drift d = v) (pl_decisions p))"

definition Seal :: "ReconciliationPlan \<Rightarrow> ReconciliationPlan" where
  "Seal p = (let digest = puts_digest (EncodePlanContent p)
     in p\<lparr>pl_plan_digest := digest, pl_plan_id := ToHex digest\<rparr>)"

section \<open>Idempotency keys\<close>

definition idempotency_puts ::
    "ScopeId \<Rightarrow> SubjectId \<Rightarrow> ActionKind \<Rightarrow> AuthorityVector \<Rightarrow> SubjectState \<Rightarrow> SubjectState \<Rightarrow> put list" where
  "idempotency_puts scope subject action authority desired expected_observed =
     [PutU16 kCanonicalSchemaVersion, PutText (str scope), PutText (str subject),
      PutU8 (ActionKind_u8 action), PutU64 (cval (av_intent_generation authority)),
      PutDigest (av_intent_digest authority), PutU64 (cval (av_observation_generation authority)),
      PutDigest (av_observation_digest authority), PutText (str (av_definition authority)),
      PutDigest (DigestOfState desired), PutDigest (DigestOfState expected_observed)]"

definition ComputeIdempotencyKey ::
    "ScopeId \<Rightarrow> SubjectId \<Rightarrow> ActionKind \<Rightarrow> AuthorityVector \<Rightarrow> SubjectState \<Rightarrow> SubjectState \<Rightarrow> Sha256Digest" where
  "ComputeIdempotencyKey scope subject action authority desired expected_observed =
     puts_digest (idempotency_puts scope subject action authority desired expected_observed)"

record ActionIntent =
  ai_scope :: ScopeId
  ai_subject :: SubjectId
  ai_action :: ActionKind
  ai_desired :: SubjectState
  ai_expected_observed :: SubjectState
  ai_authority :: AuthorityVector
  ai_idempotency_key :: Sha256Digest
  ai_attempt :: AttemptId
  ai_epoch :: CoordinatorEpoch
  ai_boot :: BootId
  ai_issued_unix_ms :: UnixMillis

section \<open>Lemmas\<close>

lemma Seal_content: "EncodePlanContent (Seal p) = EncodePlanContent p"
  by (simp add: Seal_def Let_def EncodePlanContent_def)

lemma Seal_idem: "Seal (Seal p) = Seal p"
  by (simp add: Seal_def Let_def EncodePlanContent_def)

lemma Seal_keeps [simp]:
  "pl_decisions (Seal p) = pl_decisions p" "pl_verdict (Seal p) = pl_verdict p"
  "pl_scope (Seal p) = pl_scope p" "pl_epoch (Seal p) = pl_epoch p"
  "pl_truncated (Seal p) = pl_truncated p" "pl_freshness (Seal p) = pl_freshness p"
  "pl_intent_generation (Seal p) = pl_intent_generation p"
  by (simp_all add: Seal_def Let_def)

lemma MutationCount_zero:
  "MutationCount p = 0 \<longleftrightarrow> (\<forall>d \<in> set (pl_decisions p). de_disposition d \<noteq> Disp_Actionable)"
  by (simp add: MutationCount_def IsMutationDisposition_def filter_empty_conv)

text \<open>
  The bytes under an idempotency key determine everything the key binds: the fields directly, the
  two states up to the digest of their encodings.
\<close>

lemma idempotency_puts_inject:
  assumes "valid_id scope" "valid_id subject" "wf_id (av_definition a)"
    "valid_id scope'" "valid_id subject'" "wf_id (av_definition a')"
    "wf_digest (av_intent_digest a)" "wf_digest (av_observation_digest a)"
    "wf_digest (av_intent_digest a')" "wf_digest (av_observation_digest a')"
    "octets (idempotency_puts scope subject action a desired expected) =
     octets (idempotency_puts scope' subject' action' a' desired' expected')"
  shows "scope = scope' \<and> subject = subject' \<and> action = action' \<and>
    av_intent_generation a = av_intent_generation a' \<and> av_intent_digest a = av_intent_digest a' \<and>
    av_observation_generation a = av_observation_generation a' \<and>
    av_observation_digest a = av_observation_digest a' \<and> av_definition a = av_definition a' \<and>
    DigestOfState desired = DigestOfState desired' \<and>
    DigestOfState expected = DigestOfState expected'"
proof -
  define dec :: "bytes \<Rightarrow> _" where "dec r =
    do { (v, r) \<leftarrow> ReadU16 r; (s, r) \<leftarrow> ReadText r; (t, r) \<leftarrow> ReadText r; (k, r) \<leftarrow> ReadU8 r;
         (ig, r) \<leftarrow> ReadU64 r; (id, r) \<leftarrow> ReadDigest r; (og, r) \<leftarrow> ReadU64 r; (od, r) \<leftarrow> ReadDigest r;
         (df, r) \<leftarrow> ReadText r; (x, r) \<leftarrow> ReadDigest r; (y, r) \<leftarrow> ReadDigest r;
         Some (s, t, k, ig, id, og, od, df, x, y) }" for r
  have dec: "dec (octets (idempotency_puts s t k a d e)) =
      Some (str s, str t, ActionKind_u8 k, cval (av_intent_generation a), av_intent_digest a,
        cval (av_observation_generation a), av_observation_digest a, str (av_definition a),
        DigestOfState d, DigestOfState e)"
    if "valid_id s" "valid_id t" "wf_id (av_definition a)" "wf_digest (av_intent_digest a)"
      "wf_digest (av_observation_digest a)" for s t k and a :: AuthorityVector and d e
    using that ReadDigest_put [of "DigestOfState e" "[]"]
    by (simp add: dec_def idempotency_puts_def DigestOfState_def)
  have "ActionKind_u8 action = ActionKind_u8 action' \<Longrightarrow> action = action'"
    by (metis ActionKind_of_u8_of option.inject)
  then show ?thesis
    using assms dec [of scope subject a action desired expected]
      dec [of scope' subject' a' action' desired' expected']
    by (simp add: string_id.expand counter.expand)
qed

end
