(* ===== verification/Lineage.thy ===== *)
theory Lineage
  imports Plan
begin

text \<open>
  \<open>lineage.hpp\<close> and \<open>lineage.cpp\<close>: attempt states, attempt records, committed outcomes,
  verification evidence and fences, with the codecs of fences and outcomes.
\<close>

section \<open>Attempt states\<close>

datatype AttemptState = Attempt_Invalid | Attempt_Issued | Attempt_Dispatched | Attempt_Acknowledged
  | Attempt_Applied | Attempt_Verified | Attempt_Failed | Attempt_Abandoned | Attempt_Superseded
  | Attempt_Fenced | Attempt_Interrupted

fun AttemptState_u8 :: "AttemptState \<Rightarrow> u8" where
  "AttemptState_u8 Attempt_Invalid = 0"
| "AttemptState_u8 Attempt_Issued = 1"
| "AttemptState_u8 Attempt_Dispatched = 2"
| "AttemptState_u8 Attempt_Acknowledged = 3"
| "AttemptState_u8 Attempt_Applied = 4"
| "AttemptState_u8 Attempt_Verified = 5"
| "AttemptState_u8 Attempt_Failed = 6"
| "AttemptState_u8 Attempt_Abandoned = 7"
| "AttemptState_u8 Attempt_Superseded = 8"
| "AttemptState_u8 Attempt_Fenced = 9"
| "AttemptState_u8 Attempt_Interrupted = 10"

definition AttemptState_of_u8 :: "u8 \<Rightarrow> AttemptState option" where
  "AttemptState_of_u8 b =
     (if b = 0 then Some Attempt_Invalid else if b = 1 then Some Attempt_Issued
      else if b = 2 then Some Attempt_Dispatched else if b = 3 then Some Attempt_Acknowledged
      else if b = 4 then Some Attempt_Applied else if b = 5 then Some Attempt_Verified
      else if b = 6 then Some Attempt_Failed else if b = 7 then Some Attempt_Abandoned
      else if b = 8 then Some Attempt_Superseded else if b = 9 then Some Attempt_Fenced
      else if b = 10 then Some Attempt_Interrupted else None)"

lemma AttemptState_of_u8_of [simp]: "AttemptState_of_u8 (AttemptState_u8 s) = Some s"
  by (cases s) (simp_all add: AttemptState_of_u8_def)

fun AttemptState_text :: "AttemptState \<Rightarrow> string" where
  "AttemptState_text Attempt_Invalid = ''INVALID''"
| "AttemptState_text Attempt_Issued = ''ISSUED''"
| "AttemptState_text Attempt_Dispatched = ''DISPATCHED''"
| "AttemptState_text Attempt_Acknowledged = ''ACKNOWLEDGED''"
| "AttemptState_text Attempt_Applied = ''APPLIED''"
| "AttemptState_text Attempt_Verified = ''VERIFIED''"
| "AttemptState_text Attempt_Failed = ''FAILED''"
| "AttemptState_text Attempt_Abandoned = ''ABANDONED''"
| "AttemptState_text Attempt_Superseded = ''SUPERSEDED''"
| "AttemptState_text Attempt_Fenced = ''FENCED''"
| "AttemptState_text Attempt_Interrupted = ''INTERRUPTED''"

definition TryParseAttemptState :: "string \<Rightarrow> AttemptState option" where
  "TryParseAttemptState t =
     (if t = ''ISSUED'' then Some Attempt_Issued else if t = ''DISPATCHED'' then Some Attempt_Dispatched
      else if t = ''ACKNOWLEDGED'' then Some Attempt_Acknowledged
      else if t = ''APPLIED'' then Some Attempt_Applied
      else if t = ''VERIFIED'' then Some Attempt_Verified
      else if t = ''FAILED'' then Some Attempt_Failed
      else if t = ''ABANDONED'' then Some Attempt_Abandoned
      else if t = ''SUPERSEDED'' then Some Attempt_Superseded
      else if t = ''FENCED'' then Some Attempt_Fenced
      else if t = ''INTERRUPTED'' then Some Attempt_Interrupted else None)"

fun IsTerminalAttemptState :: "AttemptState \<Rightarrow> bool" where
  "IsTerminalAttemptState Attempt_Verified = True"
| "IsTerminalAttemptState Attempt_Failed = True"
| "IsTerminalAttemptState Attempt_Abandoned = True"
| "IsTerminalAttemptState Attempt_Superseded = True"
| "IsTerminalAttemptState Attempt_Fenced = True"
| "IsTerminalAttemptState Attempt_Interrupted = True"
| "IsTerminalAttemptState _ = False"

fun IsInconclusiveTerminalState :: "AttemptState \<Rightarrow> bool" where
  "IsInconclusiveTerminalState Attempt_Failed = True"
| "IsInconclusiveTerminalState Attempt_Abandoned = True"
| "IsInconclusiveTerminalState Attempt_Superseded = True"
| "IsInconclusiveTerminalState Attempt_Fenced = True"
| "IsInconclusiveTerminalState Attempt_Interrupted = True"
| "IsInconclusiveTerminalState _ = False"

fun ReasonOfAttempt :: "AttemptState \<Rightarrow> ReasonCode" where
  "ReasonOfAttempt Attempt_Issued = Reason_AttemptIssued"
| "ReasonOfAttempt Attempt_Dispatched = Reason_AttemptIssued"
| "ReasonOfAttempt Attempt_Acknowledged = Reason_AttemptAcknowledged"
| "ReasonOfAttempt Attempt_Applied = Reason_AttemptApplied"
| "ReasonOfAttempt Attempt_Verified = Reason_AttemptVerified"
| "ReasonOfAttempt Attempt_Failed = Reason_AttemptFailed"
| "ReasonOfAttempt Attempt_Abandoned = Reason_AttemptAbandoned"
| "ReasonOfAttempt Attempt_Superseded = Reason_AttemptSuperseded"
| "ReasonOfAttempt Attempt_Fenced = Reason_AttemptFencedByEpochAdvance"
| "ReasonOfAttempt Attempt_Interrupted = Reason_AttemptInterruptedByRestart"
| "ReasonOfAttempt Attempt_Invalid = Reason_AttemptUnknown"

lemma terminal_is_verified_or_inconclusive:
  "IsTerminalAttemptState s \<longleftrightarrow> s = Attempt_Verified \<or> IsInconclusiveTerminalState s"
  by (cases s) simp_all

section \<open>Records\<close>

record AttemptTransition =
  tr_from :: AttemptState
  tr_to :: AttemptState
  tr_epoch :: CoordinatorEpoch
  tr_boot :: BootId
  tr_at_unix_ms :: UnixMillis
  tr_reason :: ReasonCode
  tr_verification_reason :: ReasonCode

record AttemptRecord =
  at_id :: AttemptId
  at_idempotency_key :: Sha256Digest
  at_scope :: ScopeId
  at_subject :: SubjectId
  at_action :: ActionKind
  at_epoch :: CoordinatorEpoch
  at_boot :: BootId
  at_authority :: AuthorityVector
  at_state :: AttemptState
  at_issued_unix_ms :: UnixMillis
  at_transitions :: "AttemptTransition list"

definition terminal :: "AttemptRecord \<Rightarrow> bool" where
  "terminal a \<longleftrightarrow> IsTerminalAttemptState (at_state a)"

record ReconciliationOutcome =
  oc_idempotency_key :: Sha256Digest
  oc_scope :: ScopeId
  oc_subject :: SubjectId
  oc_action :: ActionKind
  oc_attempt :: AttemptId
  oc_epoch :: CoordinatorEpoch
  oc_boot :: BootId
  oc_terminal_state :: AttemptState
  oc_reason :: ReasonCode
  oc_committed_unix_ms :: UnixMillis
  oc_verified :: bool
  oc_verified_generation :: ObservationGeneration
  oc_ambiguous :: bool

record VerificationEvidence =
  ve_scope :: ScopeId
  ve_subject :: SubjectId
  ve_idempotency_key :: Sha256Digest
  ve_observation :: ObservationId
  ve_generation :: ObservationGeneration
  ve_received_epoch :: CoordinatorEpoch
  ve_verifier :: ReporterId
  ve_applier :: ReporterId
  ve_received_unix_ms :: UnixMillis
  ve_confirms_effect :: bool

record FenceEntry =
  fe_id :: FenceId
  fe_scope :: ScopeId
  fe_subject :: SubjectId
  fe_fenced_below :: CoordinatorEpoch
  fe_reason :: ReasonCode
  fe_detail :: string
  fe_created_unix_ms :: UnixMillis

definition scope_wide :: "FenceEntry \<Rightarrow> bool" where
  "scope_wide f \<longleftrightarrow> id_empty (fe_subject f)"

section \<open>Codecs\<close>

definition fence_puts :: "FenceEntry \<Rightarrow> put list" where
  "fence_puts f =
     [PutText (str (fe_id f)), PutText (str (fe_scope f)), PutText (str (fe_subject f)),
      PutU64 (cval (fe_fenced_below f)), PutU16 (fe_reason f), PutText (fe_detail f),
      PutI64 (fe_created_unix_ms f)]"

definition EncodeFence :: "FenceEntry \<Rightarrow> bytes" where
  "EncodeFence f = puts_buffer (fence_puts f)"

definition DecodeFence :: "FenceEntry reader" where
  "DecodeFence r =
     do { (id_text, r) \<leftarrow> ReadText r; (scope_text, r) \<leftarrow> ReadText r; (subject_text, r) \<leftarrow> ReadText r;
          (fenced_below, r) \<leftarrow> ReadU64 r; (reason, r) \<leftarrow> ReadU16 r; (detail, r) \<leftarrow> ReadText r;
          (created, r) \<leftarrow> ReadI64 r;
          fid \<leftarrow> TryParseId id_text; scope \<leftarrow> TryParseId scope_text;
          subject \<leftarrow> assign_id subject_text;
          if reason > Reason_RestartLeasesNotRestored then None
          else if length detail > kMaxIdentityLength * 4 then None
          else Some (\<lparr>fe_id = fid, fe_scope = scope, fe_subject = subject,
                 fe_fenced_below = Counter fenced_below, fe_reason = reason, fe_detail = detail,
                 fe_created_unix_ms = created\<rparr>, r) }"

definition fence_ok :: "FenceEntry \<Rightarrow> bool" where
  "fence_ok f \<longleftrightarrow> valid_id (fe_id f) \<and> valid_id (fe_scope f) \<and> wf_id (fe_subject f) \<and>
     fe_reason f \<le> Reason_RestartLeasesNotRestored \<and> length (fe_detail f) \<le> kMaxIdentityLength * 4"

definition outcome_puts :: "ReconciliationOutcome \<Rightarrow> put list" where
  "outcome_puts x =
     [PutDigest (oc_idempotency_key x), PutText (str (oc_scope x)), PutText (str (oc_subject x)),
      PutU8 (ActionKind_u8 (oc_action x)), PutU64 (cval (oc_attempt x)), PutU64 (cval (oc_epoch x)),
      PutBytes (boot_bytes (oc_boot x)), PutU8 (AttemptState_u8 (oc_terminal_state x)),
      PutU16 (oc_reason x), PutI64 (oc_committed_unix_ms x), PutBool (oc_verified x),
      PutU64 (cval (oc_verified_generation x)), PutBool (oc_ambiguous x)]"

definition EncodeOutcome :: "ReconciliationOutcome \<Rightarrow> bytes" where
  "EncodeOutcome x = puts_buffer (outcome_puts x)"

definition DecodeOutcome :: "ReconciliationOutcome reader" where
  "DecodeOutcome r =
     do { (key, r) \<leftarrow> ReadDigest r; (scope_text, r) \<leftarrow> ReadText r; (subject_text, r) \<leftarrow> ReadText r;
          (action, r) \<leftarrow> ReadU8 r; (attempt, r) \<leftarrow> ReadU64 r; (epoch, r) \<leftarrow> ReadU64 r;
          (boot, r) \<leftarrow> ReadBytes r; (terminal_u8, r) \<leftarrow> ReadU8 r; (reason, r) \<leftarrow> ReadU16 r;
          (committed, r) \<leftarrow> ReadI64 r; (verified, r) \<leftarrow> ReadBool r;
          (verified_generation, r) \<leftarrow> ReadU64 r; (ambiguous, r) \<leftarrow> ReadBool r;
          if length boot \<noteq> 16 then None
          else do {
            action_kind \<leftarrow> ActionKind_of_u8 action;
            terminal_state \<leftarrow> AttemptState_of_u8 terminal_u8;
            if reason > Reason_RestartLeasesNotRestored then None
            else do {
              scope \<leftarrow> TryParseId scope_text; subject \<leftarrow> TryParseId subject_text;
              Some (\<lparr>oc_idempotency_key = key, oc_scope = scope, oc_subject = subject,
                oc_action = action_kind, oc_attempt = Counter attempt, oc_epoch = Counter epoch,
                oc_boot = BootId boot, oc_terminal_state = terminal_state, oc_reason = reason,
                oc_committed_unix_ms = committed, oc_verified = verified,
                oc_verified_generation = Counter verified_generation,
                oc_ambiguous = ambiguous\<rparr>, r) } } }"

definition outcome_ok :: "ReconciliationOutcome \<Rightarrow> bool" where
  "outcome_ok x \<longleftrightarrow> wf_digest (oc_idempotency_key x) \<and> valid_id (oc_scope x) \<and>
     valid_id (oc_subject x) \<and> wf_boot (oc_boot x) \<and> oc_reason x \<le> Reason_RestartLeasesNotRestored"

lemma detail_fits: "length t \<le> kMaxIdentityLength * 4 \<Longrightarrow> length t \<le> kMaxCanonicalBytes"
  by (simp add: kMaxIdentityLength_def kMaxCanonicalBytes_def)

interpretation fence_codec: codec fence_puts DecodeFence fence_ok
proof
  fix x r
  assume "fence_ok x"
  then show "DecodeFence (octets (fence_puts x) @ r) = Some (x, r)"
    by (cases x) (simp add: fence_ok_def DecodeFence_def fence_puts_def detail_fits not_less)
next
  fix r x s
  assume "DecodeFence r = Some (x, s)"
  then show "fence_ok x"
    by (auto simp: DecodeFence_def fence_ok_def dest: assign_id_wf split: if_splits)
qed

interpretation outcome_codec: codec outcome_puts DecodeOutcome outcome_ok
proof
  fix x r
  assume "outcome_ok x"
  then show "DecodeOutcome (octets (outcome_puts x) @ r) = Some (x, r)"
    by (cases x; cases "oc_boot x")
      (simp add: outcome_ok_def wf_boot_def DecodeOutcome_def outcome_puts_def ReadBytes_boot not_less)
next
  fix r x s
  assume "DecodeOutcome r = Some (x, s)"
  then show "outcome_ok x"
    by (auto simp: DecodeOutcome_def outcome_ok_def wf_boot_def dest: ReadDigest_wf split: if_splits)
qed

end
