(* ===== verification/Journal.thy ===== *)
theory Journal
  imports Lineage
begin

text \<open>
  \<open>journal.hpp\<close> and \<open>journal.cpp\<close>: the framed append-only log. A file is its bytes. The outcome of
  every fallible system call is read off a list of faults carried with the journal: an absent
  entry or \<^const>\<open>None\<close> is success, \<open>Some k\<close> is failure, for a write after \<open>k\<close> bytes. Theorems about
  all fault lists therefore cover every short write and every failed flush. Entropy and clock
  readings are parameters. The records and report of a failed open are not read by any caller
  and are empty here. The move constructor and assignment have no counterpart.
\<close>

section \<open>Format\<close>

definition kJournalMagic :: bytes where
  "kJournalMagic = bytes_of_text ''FABRJNL1''"

definition kJournalFormatVersion :: u16 where
  "kJournalFormatVersion = 1"

definition kJournalHeaderBytes :: nat where
  "kJournalHeaderBytes = 96"

definition kRecordHeaderBytes :: nat where
  "kRecordHeaderBytes = 56"

definition kRecordDigestOffset :: nat where
  "kRecordDigestOffset = 24"

definition kRecordMagic :: u32 where
  "kRecordMagic = 0x43455246"

definition kRecordFormatVersion :: u16 where
  "kRecordFormatVersion = 1"

definition kJournalFlagsNone :: u16 where
  "kJournalFlagsNone = 0"

lemmas journal_consts = kJournalHeaderBytes_def kRecordHeaderBytes_def kRecordDigestOffset_def

datatype RecordType = Rec_Invalid | Rec_StoreHeader | Rec_PolicyPut | Rec_IntentCommit
  | Rec_ObservationCommit | Rec_AttemptIssued | Rec_AttemptTransition | Rec_OutcomeCommit
  | Rec_FencePut | Rec_FenceClear | Rec_EpochAdvance | Rec_LineageTrim

fun RecordType_u16 :: "RecordType \<Rightarrow> u16" where
  "RecordType_u16 Rec_Invalid = 0"
| "RecordType_u16 Rec_StoreHeader = 1"
| "RecordType_u16 Rec_PolicyPut = 2"
| "RecordType_u16 Rec_IntentCommit = 3"
| "RecordType_u16 Rec_ObservationCommit = 4"
| "RecordType_u16 Rec_AttemptIssued = 5"
| "RecordType_u16 Rec_AttemptTransition = 6"
| "RecordType_u16 Rec_OutcomeCommit = 7"
| "RecordType_u16 Rec_FencePut = 8"
| "RecordType_u16 Rec_FenceClear = 9"
| "RecordType_u16 Rec_EpochAdvance = 10"
| "RecordType_u16 Rec_LineageTrim = 11"

fun RecordType_text :: "RecordType \<Rightarrow> string" where
  "RecordType_text Rec_Invalid = ''INVALID''"
| "RecordType_text Rec_StoreHeader = ''STORE_HEADER''"
| "RecordType_text Rec_PolicyPut = ''POLICY_PUT''"
| "RecordType_text Rec_IntentCommit = ''INTENT_COMMIT''"
| "RecordType_text Rec_ObservationCommit = ''OBSERVATION_COMMIT''"
| "RecordType_text Rec_AttemptIssued = ''ATTEMPT_ISSUED''"
| "RecordType_text Rec_AttemptTransition = ''ATTEMPT_TRANSITION''"
| "RecordType_text Rec_OutcomeCommit = ''OUTCOME_COMMIT''"
| "RecordType_text Rec_FencePut = ''FENCE_PUT''"
| "RecordType_text Rec_FenceClear = ''FENCE_CLEAR''"
| "RecordType_text Rec_EpochAdvance = ''EPOCH_ADVANCE''"
| "RecordType_text Rec_LineageTrim = ''LINEAGE_TRIM''"

definition TryParseRecordType :: "u16 \<Rightarrow> RecordType option" where
  "TryParseRecordType raw =
     (if raw < 1 \<or> raw > 11 then None
      else if raw = 1 then Some Rec_StoreHeader else if raw = 2 then Some Rec_PolicyPut
      else if raw = 3 then Some Rec_IntentCommit else if raw = 4 then Some Rec_ObservationCommit
      else if raw = 5 then Some Rec_AttemptIssued else if raw = 6 then Some Rec_AttemptTransition
      else if raw = 7 then Some Rec_OutcomeCommit else if raw = 8 then Some Rec_FencePut
      else if raw = 9 then Some Rec_FenceClear else if raw = 10 then Some Rec_EpochAdvance
      else if raw = 11 then Some Rec_LineageTrim else None)"

record JournalRecord =
  jrec_sequence :: RecordSequence
  jrec_type :: RecordType
  jrec_payload :: bytes

record JournalHeader =
  jh_format_version :: u32
  jh_header_bytes :: u32
  jh_store :: StoreId
  jh_created_unix_ms :: UnixMillis
  jh_base_sequence :: RecordSequence

text \<open>\<open>LoadU16/32/64(data + off)\<close> and a byte range.\<close>

definition slice :: "nat \<Rightarrow> nat \<Rightarrow> bytes \<Rightarrow> bytes" where
  "slice off n bs = take n (drop off bs)"

definition LoadU16 :: "bytes \<Rightarrow> nat \<Rightarrow> u16" where
  "LoadU16 bs off = le_load (slice off 2 bs)"

definition LoadU32 :: "bytes \<Rightarrow> nat \<Rightarrow> u32" where
  "LoadU32 bs off = le_load (slice off 4 bs)"

definition LoadU64 :: "bytes \<Rightarrow> nat \<Rightarrow> u64" where
  "LoadU64 bs off = le_load (slice off 8 bs)"

text \<open>
  The header image field by field: magic, version, header size, store identity, creation time,
  base sequence, sixteen zero bytes, and the digest of these 64 bytes.
\<close>

definition header_fields :: "StoreId \<Rightarrow> UnixMillis \<Rightarrow> RecordSequence \<Rightarrow> bytes" where
  "header_fields store created base =
     kJournalMagic @ le_store 4 (ucast kJournalFormatVersion :: u32) @
     le_store 4 (of_nat kJournalHeaderBytes :: u32) @ store_bytes store @ le_store 8 created @
     le_store 8 (cval base) @ replicate 16 0"

definition BuildJournalHeaderImage :: "StoreId \<Rightarrow> UnixMillis \<Rightarrow> RecordSequence \<Rightarrow> bytes" where
  "BuildJournalHeaderImage store created base =
     (let img = header_fields store created base in img @ Sha256Of img)"

definition ParseJournalHeaderImage :: "bytes \<Rightarrow> JournalHeader option" where
  "ParseJournalHeaderImage data =
     (if length data \<noteq> kJournalHeaderBytes then None
      else if slice 0 8 data \<noteq> kJournalMagic then None
      else if LoadU32 data 8 \<noteq> ucast kJournalFormatVersion then None
      else if LoadU32 data 12 \<noteq> of_nat kJournalHeaderBytes then None
      else if list_ex (\<lambda>b. b \<noteq> 0) (slice 48 16 data) then None
      else if slice 64 32 data \<noteq> Sha256Of (slice 0 64 data) then None
      else Some \<lparr>jh_format_version = LoadU32 data 8, jh_header_bytes = LoadU32 data 12,
             jh_store = StoreId (slice 16 16 data), jh_created_unix_ms = LoadU64 data 32,
             jh_base_sequence = Counter (LoadU64 data 40)\<rparr>)"

definition record_fields :: "RecordSequence \<Rightarrow> RecordType \<Rightarrow> bytes \<Rightarrow> bytes" where
  "record_fields sequence ty payload =
     le_store 4 kRecordMagic @ le_store 2 kRecordFormatVersion @ le_store 2 (RecordType_u16 ty) @
     le_store 2 kJournalFlagsNone @ le_store 2 (0 :: u16) @
     le_store 4 (of_nat (length payload) :: u32) @ le_store 8 (cval sequence)"

definition BuildRecordImage :: "RecordSequence \<Rightarrow> RecordType \<Rightarrow> bytes \<Rightarrow> bytes" where
  "BuildRecordImage sequence ty payload =
     (let fields = record_fields sequence ty payload;
          digest = Final (Update payload (Update fields Sha256_new))
      in fields @ digest @ payload)"

text \<open>\<open>available\<close> is the length of the bytes given; the result is type, payload length and sequence.\<close>

definition DecodeRecordHeader :: "bytes \<Rightarrow> u32 \<Rightarrow> (RecordType \<times> u32 \<times> RecordSequence) option" where
  "DecodeRecordHeader data max_payload =
     (if length data < kRecordHeaderBytes then None
      else if LoadU32 data 0 \<noteq> kRecordMagic then None
      else if LoadU16 data 4 \<noteq> kRecordFormatVersion then None
      else case TryParseRecordType (LoadU16 data 6) of
        None \<Rightarrow> None
      | Some ty \<Rightarrow>
          if LoadU16 data 8 \<noteq> kJournalFlagsNone then None
          else if LoadU16 data 10 \<noteq> 0 then None
          else if LoadU32 data 12 > max_payload then None
          else Some (ty, LoadU32 data 12, Counter (LoadU64 data 16)))"

definition VerifyRecordImage :: "bytes \<Rightarrow> bool" where
  "VerifyRecordImage img =
     (if length img < kRecordHeaderBytes then False
      else if LoadU32 img 0 \<noteq> kRecordMagic then False
      else if length img \<noteq> kRecordHeaderBytes + unat (LoadU32 img 12) then False
      else slice kRecordDigestOffset 32 img =
             Final (Update (drop kRecordHeaderBytes img)
               (Update (slice 0 kRecordDigestOffset img) Sha256_new)))"

section \<open>The scan\<close>

text \<open>The loop of \<open>Open\<close> over the bytes after the header; \<open>rest\<close> is what lies at \<open>offset\<close>.\<close>

datatype ScanResult = Scan_Error Status | Scan_Done "JournalRecord list" | Scan_Torn "JournalRecord list" nat

function scan_records ::
    "RuntimeLimits \<Rightarrow> bytes \<Rightarrow> RecordSequence \<Rightarrow> JournalRecord list \<Rightarrow> ScanResult" where
  "scan_records limits rest expected records =
     (if rest = [] then Scan_Done records
      else if length rest < kRecordDigestOffset then Scan_Torn records (length rest)
      else if LoadU32 rest 0 \<noteq> kRecordMagic then
        Scan_Error (Status Code_IntegrityFailure Reason_JournalTrailingGarbage)
      else case DecodeRecordHeader rest (of_nat (max_journal_payload_bytes limits)) of
        None \<Rightarrow>
          if length rest < kRecordHeaderBytes then Scan_Torn records (length rest)
          else if unat (LoadU32 rest 12) > max_journal_payload_bytes limits then
            Scan_Error (Status Code_IntegrityFailure Reason_JournalPayloadLengthInvalid)
          else if length rest < kRecordHeaderBytes + unat (LoadU32 rest 12) then
            Scan_Torn records (length rest)
          else Scan_Error (Status Code_IntegrityFailure Reason_JournalRecordTypeUnknown)
      | Some (ty, payload_len, sequence) \<Rightarrow>
          if length rest < kRecordHeaderBytes + unat payload_len then Scan_Torn records (length rest)
          else let img = take (kRecordHeaderBytes + unat payload_len) rest in
            if \<not> VerifyRecordImage img then
              Scan_Error (Status Code_IntegrityFailure Reason_JournalRecordDigestMismatch)
            else if sequence \<noteq> expected then
              Scan_Error (Status Code_IntegrityFailure Reason_JournalSequenceRegression)
            else scan_records limits (drop (kRecordHeaderBytes + unat payload_len) rest)
                   (Counter (cval sequence + 1))
                   (records @ [\<lparr>jrec_sequence = sequence, jrec_type = ty,
                      jrec_payload = drop kRecordHeaderBytes img\<rparr>]))"
  by pat_completeness auto
termination
  by (relation "measure (\<lambda>(limits, rest, expected, records). length rest)")
    (auto simp: kRecordHeaderBytes_def)

declare scan_records.simps [simp del]

section \<open>The journal\<close>

type_synonym fault = "nat option"

record Journal =
  j_content :: "bytes option"
  j_open :: bool
  j_last_sequence :: RecordSequence
  j_bytes_written :: nat
  j_limits :: RuntimeLimits
  j_read_only :: bool
  j_write_failed :: bool
  j_faults :: "fault list"

text \<open>\<open>j_content\<close> is the file, \<^const>\<open>None\<close> when it does not exist. One system call consumes one fault.\<close>

definition next_fault :: "Journal \<Rightarrow> fault \<times> Journal" where
  "next_fault j = (case j_faults j of [] \<Rightarrow> (None, j) | f # fs \<Rightarrow> (f, j\<lparr>j_faults := fs\<rparr>))"

definition file_bytes :: "Journal \<Rightarrow> bytes" where
  "file_bytes j = (case j_content j of None \<Rightarrow> [] | Some bs \<Rightarrow> bs)"

definition Journal_Close :: "Journal \<Rightarrow> Journal" where
  "Journal_Close j = j\<lparr>j_open := False\<rparr>"

definition FlushToDisk :: "Journal \<Rightarrow> Status \<times> Journal" where
  "FlushToDisk j = (case next_fault j of
       (None, j) \<Rightarrow> (Status_Ok, j)
     | (Some _, j) \<Rightarrow> (Status Code_IntegrityFailure Reason_DurableWriteFailed, j))"

definition WriteAll :: "bytes \<Rightarrow> Journal \<Rightarrow> Status \<times> Journal" where
  "WriteAll data j =
     (if \<not> j_open j then (Status Code_PreconditionFailed Reason_DurableWriteFailed, j)
      else if j_write_failed j then (Status Code_IntegrityFailure Reason_DurableWriteFailed, j)
      else if data = [] then (Status_Ok, j)
      else case next_fault j of
        (Some k, j) \<Rightarrow>
          (Status Code_IntegrityFailure Reason_DurableWriteFailed,
           j\<lparr>j_content := Some (file_bytes j @ take (min k (length data - 1)) data),
             j_write_failed := True\<rparr>)
      | (None, j) \<Rightarrow>
          (Status_Ok, j\<lparr>j_content := Some (file_bytes j @ data),
             j_bytes_written := j_bytes_written j + length data\<rparr>))"

definition WriteHeader :: "StoreId \<Rightarrow> UnixMillis \<Rightarrow> RecordSequence \<Rightarrow> Journal \<Rightarrow> Status \<times> Journal" where
  "WriteHeader store clock base j = WriteAll (BuildJournalHeaderImage store clock base) j"

record JournalOpenReport =
  jr_created :: bool
  jr_recovered_torn_tail :: bool
  jr_recovered_bytes :: nat
  jr_record_count :: nat
  jr_last_sequence :: RecordSequence
  jr_header :: JournalHeader
  jr_notes :: "ReasonCode list"

definition header_new :: JournalHeader where
  "header_new = \<lparr>jh_format_version = 0, jh_header_bytes = 0, jh_store = StoreId (replicate 16 0),
     jh_created_unix_ms = 0, jh_base_sequence = Counter 0\<rparr>"

definition report_new :: JournalOpenReport where
  "report_new = \<lparr>jr_created = False, jr_recovered_torn_tail = False, jr_recovered_bytes = 0,
     jr_record_count = 0, jr_last_sequence = Counter 0, jr_header = header_new, jr_notes = []\<rparr>"

record JournalOpenOptions =
  jo_limits :: RuntimeLimits
  jo_create_if_missing :: bool
  jo_read_only :: bool

type_synonym open_result = "Status \<times> JournalRecord list \<times> JournalOpenReport \<times> Journal"

definition open_failed :: "StatusCode \<Rightarrow> ReasonCode \<Rightarrow> Journal \<Rightarrow> open_result" where
  "open_failed c r j = (Status c r, [], report_new, Journal_Close j)"

text \<open>
  The branch of \<open>Open\<close> that creates the file: \<open>store\<close> is the generated identity, \<open>clock\<close> and
  \<open>clock'\<close> the two readings of the wall clock.
\<close>

definition open_fresh :: "StoreId \<Rightarrow> UnixMillis \<Rightarrow> UnixMillis \<Rightarrow> Journal \<Rightarrow> open_result" where
  "open_fresh store clock clock' j =
     (case next_fault j of
        (Some _, j) \<Rightarrow> open_failed Code_Rejected Reason_DurableWriteFailed j
      | (None, j) \<Rightarrow>
        (let (status, j) = WriteHeader store clock (Counter 0) (j\<lparr>j_content := Some [], j_open := True\<rparr>)
         in if \<not> status_ok status then (status, [], report_new, Journal_Close j)
            else let (status, j) = FlushToDisk j
            in if \<not> status_ok status then (status, [], report_new, Journal_Close j)
            else (Status_Ok, [], report_new\<lparr>jr_created := True,
                    jr_header := \<lparr>jh_format_version = ucast kJournalFormatVersion,
                      jh_header_bytes = of_nat kJournalHeaderBytes, jh_store = store,
                      jh_created_unix_ms = clock', jh_base_sequence = Counter 0\<rparr>\<rparr>, j)))"

text \<open>The branch that reads an existing file, after its size was accepted and it was opened.\<close>

definition open_content :: "JournalOpenOptions \<Rightarrow> bytes \<Rightarrow> Journal \<Rightarrow> open_result" where
  "open_content options content j =
     (if length content < kJournalHeaderBytes
      then open_failed Code_IntegrityFailure Reason_JournalHeaderInvalid j
      else case ParseJournalHeaderImage (take kJournalHeaderBytes content) of
        None \<Rightarrow> open_failed Code_IntegrityFailure Reason_JournalHeaderInvalid j
      | Some header \<Rightarrow>
        let j = j\<lparr>j_open := True\<rparr>;
            finish = (\<lambda>records size report j.
              let last = (if records = [] then jh_base_sequence header
                          else jrec_sequence (List.last records))
              in (Status_Ok, records,
                  report\<lparr>jr_record_count := length records, jr_last_sequence := last,
                         jr_header := header\<rparr>,
                  j\<lparr>j_bytes_written := size, j_last_sequence := last\<rparr>))
        in case scan_records (jo_limits options) (drop kJournalHeaderBytes content)
                  (Counter (cval (jh_base_sequence header) + 1)) [] of
             Scan_Error s \<Rightarrow> (s, [], report_new, Journal_Close j)
           | Scan_Done records \<Rightarrow>
               if jo_read_only options then finish records (length content) report_new j
               else (case next_fault j of
                   (Some _, j) \<Rightarrow> open_failed Code_IntegrityFailure Reason_DurableWriteFailed j
                 | (None, j) \<Rightarrow> finish records (length content) report_new j)
           | Scan_Torn records tail \<Rightarrow>
               if jo_read_only options
               then open_failed Code_IntegrityFailure Reason_JournalTornTailRecovered j
               else (case next_fault j of
                   (Some _, j) \<Rightarrow> open_failed Code_IntegrityFailure Reason_DurableWriteFailed j
                 | (None, j) \<Rightarrow> (case next_fault j of
                     (Some _, j) \<Rightarrow> open_failed Code_IntegrityFailure Reason_DurableWriteFailed j
                   | (None, j) \<Rightarrow>
                     let size = length content - tail;
                         j = j\<lparr>j_content := Some (take size content)\<rparr>
                     in (case next_fault j of
                         (Some _, j) \<Rightarrow> open_failed Code_IntegrityFailure Reason_DurableWriteFailed j
                       | (None, j) \<Rightarrow> finish records size
                           (report_new\<lparr>jr_recovered_torn_tail := True, jr_recovered_bytes := tail,
                              jr_notes := [Reason_JournalTornTailRecovered]\<rparr>) j))))"

definition Journal_Open ::
    "JournalOpenOptions \<Rightarrow> StoreId \<Rightarrow> UnixMillis \<Rightarrow> UnixMillis \<Rightarrow> bytes option \<Rightarrow> fault list \<Rightarrow> open_result" where
  "Journal_Open options store clock clock' file faults =
     (let j = \<lparr>j_content = file, j_open = False, j_last_sequence = Counter 0, j_bytes_written = 0,
               j_limits = jo_limits options, j_read_only = jo_read_only options,
               j_write_failed = False, j_faults = faults\<rparr>
      in case next_fault j of
        (Some _, j) \<Rightarrow> open_failed Code_Rejected Reason_DurableWriteFailed j
      | (None, j) \<Rightarrow>
        (case file of
           None \<Rightarrow>
             if \<not> jo_create_if_missing options then open_failed Code_NotFound Reason_DurableWriteFailed j
             else open_fresh store clock clock' j
         | Some content \<Rightarrow>
             (case next_fault j of
                (Some _, j) \<Rightarrow> open_failed Code_Rejected Reason_DurableWriteFailed j
              | (None, j) \<Rightarrow>
                if length content > max_journal_bytes (jo_limits options)
                then open_failed Code_LimitExceeded Reason_JournalPayloadLengthInvalid j
                else (case next_fault j of
                    (Some _, j) \<Rightarrow> open_failed Code_Rejected Reason_DurableWriteFailed j
                  | (None, j) \<Rightarrow> (case next_fault j of
                      (Some _, j) \<Rightarrow> open_failed Code_IntegrityFailure Reason_DurableWriteFailed j
                    | (None, j) \<Rightarrow> open_content options content j)))))"

definition Append :: "RecordType \<Rightarrow> bytes \<Rightarrow> Journal \<Rightarrow> Status \<times> Journal" where
  "Append ty payload j =
     (if j_read_only j then (Status Code_PreconditionFailed Reason_DurableWriteFailed, j)
      else if \<not> j_open j then (Status Code_PreconditionFailed Reason_DurableWriteFailed, j)
      else if length payload > max_journal_payload_bytes (j_limits j)
        then (Status Code_LimitExceeded Reason_JournalPayloadLengthInvalid, j)
      else let nxt = Counter (cval (j_last_sequence j) + 1);
               (status, j) = WriteAll (BuildRecordImage nxt ty payload) j
           in if \<not> status_ok status then (status, j)
              else let (status, j) = FlushToDisk j
              in if \<not> status_ok status then (status, j\<lparr>j_write_failed := True\<rparr>)
              else (Status_Ok, j\<lparr>j_last_sequence := nxt\<rparr>))"

definition Sync :: "Journal \<Rightarrow> Status \<times> Journal" where
  "Sync j = (if \<not> j_open j \<or> j_read_only j then (Status_Ok, j) else FlushToDisk j)"

definition Reset :: "StoreId \<Rightarrow> UnixMillis \<Rightarrow> UnixMillis \<Rightarrow> Journal \<Rightarrow> Status \<times> JournalOpenReport \<times> Journal" where
  "Reset store clock clock' j =
     (if j_read_only j then (Status Code_PreconditionFailed Reason_DurableWriteFailed, report_new, j)
      else let carry = j_last_sequence j; j = Journal_Close j
      in case next_fault j of
        (Some _, j) \<Rightarrow> (Status Code_Rejected Reason_SnapshotReplacementFailed, report_new, j)
      | (None, j) \<Rightarrow>
        (let (status, j) = WriteHeader store clock carry (j\<lparr>j_content := Some [], j_open := True\<rparr>)
         in if \<not> status_ok status then (status, report_new, Journal_Close j)
            else let (status, j) = FlushToDisk j
            in if \<not> status_ok status then (status, report_new, Journal_Close j)
            else (Status_Ok, report_new\<lparr>jr_created := True, jr_last_sequence := carry,
                    jr_header := \<lparr>jh_format_version = ucast kJournalFormatVersion,
                      jh_header_bytes = of_nat kJournalHeaderBytes, jh_store = store,
                      jh_created_unix_ms = clock', jh_base_sequence = carry\<rparr>\<rparr>,
                  j\<lparr>j_last_sequence := carry, j_bytes_written := kJournalHeaderBytes\<rparr>)))"

section \<open>Header and record images\<close>

lemma length_kJournalMagic [simp]: "length kJournalMagic = 8"
  by (simp add: kJournalMagic_def)

lemma length_header_fields [simp]: "wf_store_id store \<Longrightarrow> length (header_fields store created base) = 64"
  by (simp add: header_fields_def wf_store_id_def)

lemma length_header_image [simp]:
  "wf_store_id store \<Longrightarrow> length (BuildJournalHeaderImage store created base) = kJournalHeaderBytes"
  by (simp add: BuildJournalHeaderImage_def Let_def kSha256Bytes_def journal_consts)

lemma Parse_header_image:
  assumes "wf_store_id store"
  shows "ParseJournalHeaderImage (BuildJournalHeaderImage store created base) =
    Some \<lparr>jh_format_version = ucast kJournalFormatVersion, jh_header_bytes = of_nat kJournalHeaderBytes,
      jh_store = store, jh_created_unix_ms = created, jh_base_sequence = base\<rparr>"
proof -
  let ?f = "header_fields store created base"
  have fields: "slice 0 64 (?f @ d) = ?f" "slice 64 32 (?f @ d) = take 32 d"
      "slice 0 8 (?f @ d) = kJournalMagic" "slice 8 4 (?f @ d) = le_store 4 (ucast kJournalFormatVersion :: u32)"
      "slice 12 4 (?f @ d) = le_store 4 (of_nat kJournalHeaderBytes :: u32)"
      "slice 16 16 (?f @ d) = store_bytes store" "slice 32 8 (?f @ d) = le_store 8 created"
      "slice 40 8 (?f @ d) = le_store 8 (cval base)" "slice 48 16 (?f @ d) = replicate 16 0" for d
    using assms by (simp_all add: slice_def) (simp_all add: header_fields_def wf_store_id_def)
  have "length (?f @ Sha256Of ?f) = kJournalHeaderBytes"
    using assms by (simp add: kSha256Bytes_def journal_consts)
  then show ?thesis
    by (simp add: ParseJournalHeaderImage_def BuildJournalHeaderImage_def Let_def LoadU32_def
        LoadU64_def fields kSha256Bytes_def list_ex_iff)
qed

lemma length_record_fields [simp]: "length (record_fields sequence ty payload) = kRecordDigestOffset"
  by (simp add: record_fields_def journal_consts)

lemma length_Final [simp]: "length (Final h) = 32"
proof -
  have "length (words_bytes w) = 32" for w
    by (cases w rule: words_bytes.cases) (simp add: be_bytes32_def)
  then show ?thesis by (simp add: Final_def Let_def)
qed

lemma length_record_image [simp]:
  "length (BuildRecordImage sequence ty payload) = kRecordHeaderBytes + length payload"
  by (simp add: BuildRecordImage_def Let_def journal_consts)

text \<open>What the loads see in any bytes that start with the 24 field bytes of a record.\<close>

lemma record_field_loads:
  assumes "take 24 bs = record_fields sequence ty payload"
  shows "LoadU32 bs 0 = kRecordMagic" "LoadU16 bs 4 = kRecordFormatVersion"
    "LoadU16 bs 6 = RecordType_u16 ty" "LoadU16 bs 8 = kJournalFlagsNone" "LoadU16 bs 10 = 0"
    "LoadU32 bs 12 = of_nat (length payload)" "LoadU64 bs 16 = cval sequence"
proof -
  have in24: "slice off n bs = slice off n (record_fields sequence ty payload)" if "off + n \<le> 24" for off n
    using that unfolding assms [symmetric] slice_def by (simp add: drop_take min_def)
  show "LoadU32 bs 0 = kRecordMagic" "LoadU16 bs 4 = kRecordFormatVersion"
    "LoadU16 bs 6 = RecordType_u16 ty" "LoadU16 bs 8 = kJournalFlagsNone" "LoadU16 bs 10 = 0"
    "LoadU32 bs 12 = of_nat (length payload)" "LoadU64 bs 16 = cval sequence"
    by (simp_all add: LoadU16_def LoadU32_def LoadU64_def in24)
      (simp_all add: slice_def record_fields_def)
qed

lemma TryParseRecordType_u16: "TryParseRecordType (RecordType_u16 ty) = (if ty = Rec_Invalid then None else Some ty)"
  by (cases ty) (simp_all add: TryParseRecordType_def)

lemma TryParseRecordType_Some: "TryParseRecordType raw = Some ty \<Longrightarrow> RecordType_u16 ty = raw \<and> ty \<noteq> Rec_Invalid"
  by (auto simp: TryParseRecordType_def split: if_splits)

lemma take_record_image:
  "take 24 (BuildRecordImage sequence ty payload) = record_fields sequence ty payload"
  "take 24 (BuildRecordImage sequence ty payload @ r) = record_fields sequence ty payload"
  by (simp_all add: BuildRecordImage_def Let_def journal_consts)

lemma DecodeRecordHeader_fields:
  assumes "take 24 bs = record_fields sequence ty payload" "kRecordHeaderBytes \<le> length bs"
    "ty \<noteq> Rec_Invalid" "(of_nat (length payload) :: u32) \<le> mx"
  shows "DecodeRecordHeader bs mx = Some (ty, of_nat (length payload), sequence)"
  using assms(2-) by (simp add: DecodeRecordHeader_def record_field_loads [OF assms(1)]
      TryParseRecordType_u16 not_less)

lemma VerifyRecordImage_Build:
  assumes "length payload < 2 ^ 32"
  shows "VerifyRecordImage (BuildRecordImage sequence ty payload)"
proof -
  note loads = record_field_loads [OF take_record_image(1)]
  have "unat (of_nat (length payload) :: u32) = length payload"
    using assms by (simp add: unat_of_nat)
  moreover have "slice kRecordDigestOffset 32 (BuildRecordImage sequence ty payload) =
      Final (Update payload (Update (record_fields sequence ty payload) Sha256_new))"
    by (simp add: slice_def BuildRecordImage_def Let_def)
  moreover have "slice 0 kRecordDigestOffset (BuildRecordImage sequence ty payload) =
      record_fields sequence ty payload"
    by (simp add: slice_def BuildRecordImage_def Let_def)
  moreover have "drop kRecordHeaderBytes (BuildRecordImage sequence ty payload) = payload"
    by (simp add: BuildRecordImage_def Let_def journal_consts)
  ultimately show ?thesis
    by (simp add: VerifyRecordImage_def loads)
qed

text \<open>The converse: bytes that decode and verify are exactly the image of what they decode to.\<close>

lemma bytes24_fields:
  assumes "length bs = 24"
  shows "bs = slice 0 4 bs @ slice 4 2 bs @ slice 6 2 bs @ slice 8 2 bs @ slice 10 2 bs @
    slice 12 4 bs @ slice 16 8 bs"
proof -
  have glue: "drop m bs = slice m n bs @ drop (m + n) bs" for m n
    unfolding slice_def by (metis append_take_drop_id drop_drop add.commute)
  have "bs = drop 0 bs" by simp
  also have "\<dots> = slice 0 4 bs @ drop 4 bs" using glue [of 0 4] by simp
  also have "drop 4 bs = slice 4 2 bs @ drop 6 bs" using glue [of 4 2] by simp
  also have "drop 6 bs = slice 6 2 bs @ drop 8 bs" using glue [of 6 2] by simp
  also have "drop 8 bs = slice 8 2 bs @ drop 10 bs" using glue [of 8 2] by simp
  also have "drop 10 bs = slice 10 2 bs @ drop 12 bs" using glue [of 10 2] by simp
  also have "drop 12 bs = slice 12 4 bs @ drop 16 bs" using glue [of 12 4] by simp
  also have "drop 16 bs = slice 16 8 bs" using assms by (simp add: slice_def)
  finally show ?thesis .
qed

lemma record_image_exact:
  assumes dec: "DecodeRecordHeader bs mx = Some (ty, n, sequence)"
    and len: "kRecordHeaderBytes + unat n \<le> length bs"
    and ok: "VerifyRecordImage (take (kRecordHeaderBytes + unat n) bs)"
  shows "take (kRecordHeaderBytes + unat n) bs =
    BuildRecordImage sequence ty (drop kRecordHeaderBytes (take (kRecordHeaderBytes + unat n) bs))"
proof -
  let ?img = "take (kRecordHeaderBytes + unat n) bs"
  let ?f = "take 24 ?img" and ?p = "drop kRecordHeaderBytes ?img"
  have f: "?f = take 24 bs" by (simp add: journal_consts min_def)
  have len_p: "length ?p = unat n" using len by simp
  then have n: "of_nat (length ?p) = n" by simp
  have sl: "slice off k (take 24 bs) = slice off k bs" if "off + k \<le> 24" for off k
    using that unfolding slice_def by (simp add: drop_take min_def)
  have lens: "length (slice off k bs) = k" if "off + k \<le> 24" for off k
    using that len by (simp add: slice_def journal_consts)
  have hdr: "LoadU32 bs 0 = kRecordMagic" "LoadU16 bs 4 = kRecordFormatVersion"
      "LoadU16 bs 6 = RecordType_u16 ty" "LoadU16 bs 8 = kJournalFlagsNone" "LoadU16 bs 10 = 0"
      "LoadU32 bs 12 = n" "LoadU64 bs 16 = cval sequence"
    using dec by (auto simp: DecodeRecordHeader_def split: if_splits option.splits
        dest: TryParseRecordType_Some)
  have stores: "slice 0 4 bs = le_store 4 kRecordMagic" "slice 4 2 bs = le_store 2 kRecordFormatVersion"
      "slice 6 2 bs = le_store 2 (RecordType_u16 ty)" "slice 8 2 bs = le_store 2 kJournalFlagsNone"
      "slice 10 2 bs = le_store 2 (0 :: u16)" "slice 12 4 bs = le_store 4 n"
      "slice 16 8 bs = le_store 8 (cval sequence)"
    using hdr lens by (simp_all flip: hdr add: LoadU16_def LoadU32_def LoadU64_def le_store_le_load)
  have "length (take 24 bs) = 24" using len by (simp add: journal_consts)
  from bytes24_fields [OF this] have fields: "?f = record_fields sequence ty ?p"
    unfolding f record_fields_def n by (simp add: sl stores)
  have digest: "slice 24 32 ?img = Final (Update ?p (Update ?f Sha256_new))"
    using ok by (simp add: VerifyRecordImage_def slice_def journal_consts split: if_splits)
  have "?img = ?f @ slice 24 32 ?img @ ?p"
    using append_take_drop_id [of 24 ?img] append_take_drop_id [of 32 "drop 24 ?img"]
    by (simp add: slice_def journal_consts)
  then show ?thesis
    unfolding BuildRecordImage_def Let_def using fields digest by simp
qed

section \<open>What a scan recovers\<close>

definition rec_image :: "JournalRecord \<Rightarrow> bytes" where
  "rec_image r = BuildRecordImage (jrec_sequence r) (jrec_type r) (jrec_payload r)"

definition log_bytes :: "JournalRecord list \<Rightarrow> bytes" where
  "log_bytes rs = concat (map rec_image rs)"

definition record_ok :: "RuntimeLimits \<Rightarrow> JournalRecord \<Rightarrow> bool" where
  "record_ok limits r \<longleftrightarrow> jrec_type r \<noteq> Rec_Invalid \<and>
     length (jrec_payload r) \<le> max_journal_payload_bytes limits"

text \<open>Sequence numbers count up by one from the expected number.\<close>

fun contiguous :: "RecordSequence \<Rightarrow> JournalRecord list \<Rightarrow> bool" where
  "contiguous expected [] = True"
| "contiguous expected (r # rs) =
     (jrec_sequence r = expected \<and> contiguous (Counter (cval expected + 1)) rs)"

text \<open>The payload bound is cast to 32 bits by \<open>Open\<close>; it must fit for the bound to mean itself.\<close>

definition limits_ok :: "RuntimeLimits \<Rightarrow> bool" where
  "limits_ok limits \<longleftrightarrow> max_journal_payload_bytes limits < 2 ^ 32"

lemma limits_ok_payload:
  "limits_ok limits \<Longrightarrow> n \<le> max_journal_payload_bytes limits \<Longrightarrow>
     unat (of_nat n :: u32) = n \<and> (of_nat n :: u32) \<le> of_nat (max_journal_payload_bytes limits)"
  by (simp add: limits_ok_def unat_of_nat word_le_nat_alt)

lemma scan_step:
  assumes "limits_ok limits" "record_ok limits r" "jrec_sequence r = expected"
  shows "scan_records limits (rec_image r @ rest) expected acc =
    scan_records limits rest (Counter (cval expected + 1)) (acc @ [r])"
proof -
  let ?img = "BuildRecordImage (jrec_sequence r) (jrec_type r) (jrec_payload r)"
  note lp = limits_ok_payload [OF assms(1), of "length (jrec_payload r)"]
  have p: "length (jrec_payload r) \<le> max_journal_payload_bytes limits" "jrec_type r \<noteq> Rec_Invalid"
    using assms(2) by (simp_all add: record_ok_def)
  have dec: "DecodeRecordHeader (?img @ rest) (of_nat (max_journal_payload_bytes limits)) =
      Some (jrec_type r, of_nat (length (jrec_payload r)), jrec_sequence r)"
    by (rule DecodeRecordHeader_fields [OF take_record_image(2)]) (use p lp in simp_all)
  have ver: "VerifyRecordImage ?img"
    by (rule VerifyRecordImage_Build) (use p assms(1) in \<open>simp add: limits_ok_def\<close>)
  have drp: "drop kRecordHeaderBytes ?img = jrec_payload r"
    by (simp add: BuildRecordImage_def Let_def journal_consts)
  define b where "b = ?img @ rest"
  have len_b: "length b = kRecordHeaderBytes + length (jrec_payload r) + length rest"
    by (simp add: b_def)
  then have ne: "b \<noteq> []" "\<not> length b < kRecordDigestOffset"
    by (auto simp: journal_consts)
  have magic: "LoadU32 b 0 = kRecordMagic"
    unfolding b_def by (rule record_field_loads(1) [OF take_record_image(2)])
  have split_b: "take (kRecordHeaderBytes + length (jrec_payload r)) b = ?img"
      "drop (kRecordHeaderBytes + length (jrec_payload r)) b = rest"
    by (simp_all add: b_def)
  have same: "\<lparr>jrec_sequence = expected, jrec_type = jrec_type r, jrec_payload = jrec_payload r\<rparr> = r"
    using assms(3) by (cases r) simp
  show ?thesis
    unfolding rec_image_def b_def [symmetric]
    using ne magic dec [folded b_def] len_b split_b ver drp lp p assms(3)
    by (subst scan_records.simps) (simp add: same)
qed

lemma scan_log:
  assumes "limits_ok limits"
  shows "list_all (record_ok limits) rs \<Longrightarrow> contiguous expected rs \<Longrightarrow>
    \<exists>next. scan_records limits (log_bytes rs @ rest) expected acc =
      scan_records limits rest next (acc @ rs) \<and> next = Counter (cval expected + of_nat (length rs))"
proof (induction rs arbitrary: expected acc)
  case Nil
  then show ?case by (simp add: log_bytes_def)
next
  case (Cons r rs)
  have "scan_records limits (log_bytes (r # rs) @ rest) expected acc =
      scan_records limits (log_bytes rs @ rest) (Counter (cval expected + 1)) (acc @ [r])"
    using scan_step [OF assms, of r expected "log_bytes rs @ rest" acc] Cons.prems
    by (simp add: log_bytes_def)
  with Cons.IH [of "Counter (cval expected + 1)" "acc @ [r]"] Cons.prems show ?case
    by (simp add: algebra_simps)
qed

text \<open>A strict prefix of a record image is a torn tail, whatever its length.\<close>

lemma scan_torn_tail:
  assumes "limits_ok limits" "record_ok limits r" "prefix t (rec_image r)" "t \<noteq> rec_image r" "t \<noteq> []"
  shows "scan_records limits t expected acc = Scan_Torn acc (length t)"
proof -
  let ?p = "jrec_payload r"
  obtain u where img: "rec_image r = t @ u" and u: "u \<noteq> []"
    using assms(3,4) by (metis prefixE append_Nil2)
  have short: "length t < kRecordHeaderBytes + length ?p"
    using img u length_record_image [of "jrec_sequence r" "jrec_type r" ?p]
    unfolding rec_image_def by (metis length_append less_add_same_cancel1 length_greater_0_conv)
  show ?thesis
  proof (cases "length t < kRecordDigestOffset")
    case True
    then show ?thesis using assms(5) by (subst scan_records.simps) simp
  next
    case False
    then have "take 24 t = take 24 (rec_image r)"
      unfolding img by (simp add: journal_consts)
    then have f: "take 24 t = record_fields (jrec_sequence r) (jrec_type r) ?p"
      unfolding rec_image_def by (simp add: take_record_image)
    have p: "length ?p \<le> max_journal_payload_bytes limits" "jrec_type r \<noteq> Rec_Invalid"
      using assms(2) by (simp_all add: record_ok_def)
    note lp = limits_ok_payload [OF assms(1) p(1)]
    show ?thesis
    proof (cases "length t < kRecordHeaderBytes")
      case True
      then have "DecodeRecordHeader t (of_nat (max_journal_payload_bytes limits)) = None"
        by (simp add: DecodeRecordHeader_def)
      then show ?thesis
        using True False assms(5) by (subst scan_records.simps) (simp add: record_field_loads(1) [OF f])
    next
      case long: False
      then have "DecodeRecordHeader t (of_nat (max_journal_payload_bytes limits)) =
          Some (jrec_type r, of_nat (length ?p), jrec_sequence r)"
        using DecodeRecordHeader_fields [OF f] p lp by simp
      then show ?thesis
        using False assms(5) short lp
        by (subst scan_records.simps) (simp add: record_field_loads(1) [OF f])
    qed
  qed
qed

lemma scan_records_Nil [simp]: "scan_records limits [] expected acc = Scan_Done acc"
  by (subst scan_records.simps) simp

text \<open>
  Crash recovery: a log cut anywhere inside its next record is recovered to exactly the records
  before the cut.
\<close>

lemma scan_torn_log:
  assumes "limits_ok limits" "list_all (record_ok limits) rs" "contiguous expected rs"
    "record_ok limits r" "prefix t (rec_image r)" "t \<noteq> rec_image r"
  shows "scan_records limits (log_bytes rs @ t) expected [] =
    (if t = [] then Scan_Done rs else Scan_Torn rs (length t))"
  using scan_log [OF assms(1-3), of t "[]"] scan_torn_tail [OF assms(1,4,5,6)] by auto

text \<open>Everything a scan accepts is byte for byte the image of the records it returns.\<close>

fun scan_accounts :: "bytes \<Rightarrow> RecordSequence \<Rightarrow> JournalRecord list \<Rightarrow> ScanResult \<Rightarrow> bool" where
  "scan_accounts rest expected acc (Scan_Error s) = True"
| "scan_accounts rest expected acc (Scan_Done rs) =
     (\<exists>new. rs = acc @ new \<and> contiguous expected new \<and> rest = log_bytes new)"
| "scan_accounts rest expected acc (Scan_Torn rs n) =
     (\<exists>new tail. rs = acc @ new \<and> contiguous expected new \<and> rest = log_bytes new @ tail \<and>
        length tail = n \<and> tail \<noteq> [])"

lemma scan_accounts_step:
  assumes "scan_accounts rest (Counter (cval (jrec_sequence r) + 1)) (acc @ [r]) res"
  shows "scan_accounts (rec_image r @ rest) (jrec_sequence r) acc res"
proof (cases res)
  case (Scan_Done rs)
  then obtain new where "rs = acc @ [r] @ new" "rest = log_bytes new"
      "contiguous (Counter (cval (jrec_sequence r) + 1)) new"
    using assms by auto
  then show ?thesis using Scan_Done by (auto simp: log_bytes_def intro!: exI [of _ "r # new"])
next
  case (Scan_Torn rs n)
  then obtain new tail where "rs = acc @ [r] @ new" "rest = log_bytes new @ tail"
      "contiguous (Counter (cval (jrec_sequence r) + 1)) new" "length tail = n" "tail \<noteq> []"
    using assms by auto
  then show ?thesis
    using Scan_Torn by (auto simp: log_bytes_def intro!: exI [of _ "r # new"] exI [of _ tail])
qed simp

lemma scan_accounts_stop:
  "rest \<noteq> [] \<Longrightarrow> scan_accounts rest expected acc (Scan_Torn acc (length rest))"
  by (auto simp: log_bytes_def intro!: exI [of _ "[]"])

lemma scan_sound: "scan_accounts rest expected acc (scan_records limits rest expected acc)"
proof (induction limits rest expected acc rule: scan_records.induct)
  case (1 limits rest expected acc)
  let ?mx = "of_nat (max_journal_payload_bytes limits) :: u32"
  show ?case
  proof (cases "rest = [] \<or> length rest < kRecordDigestOffset \<or> LoadU32 rest 0 \<noteq> kRecordMagic")
    case True
    then show ?thesis
      using scan_accounts_stop [of rest expected acc]
      by (subst scan_records.simps) (auto simp: log_bytes_def)
  next
    case start: False
    show ?thesis
    proof (cases "DecodeRecordHeader rest ?mx")
      case None
      then show ?thesis
        using start scan_accounts_stop [of rest expected acc]
        by (subst scan_records.simps) auto
    next
      case (Some d)
      obtain ty n sequence where d: "d = (ty, n, sequence)" by (cases d)
      let ?len = "kRecordHeaderBytes + unat n"
      let ?r = "\<lparr>jrec_sequence = sequence, jrec_type = ty,
                 jrec_payload = drop kRecordHeaderBytes (take ?len rest)\<rparr>"
      note unfold = scan_records.simps [of limits rest expected acc]
      consider "length rest < ?len" | "\<not> length rest < ?len" "\<not> VerifyRecordImage (take ?len rest) \<or> sequence \<noteq> expected"
        | "\<not> length rest < ?len" "VerifyRecordImage (take ?len rest)" "sequence = expected"
        by blast
      then show ?thesis
      proof cases
        case 1
        then show ?thesis
          using start scan_accounts_stop [of rest expected acc]
          unfolding unfold by (simp add: Some d)
      next
        case 2
        then show ?thesis using start unfolding unfold by (auto simp: Some d Let_def)
      next
        case 3
        have img: "take ?len rest = rec_image ?r"
          using record_image_exact [OF Some [unfolded d]] 3 by (simp add: rec_image_def)
        have eq: "scan_records limits rest expected acc =
            scan_records limits (drop ?len rest) (Counter (cval sequence + 1)) (acc @ [?r])"
          using start 3 unfolding unfold by (simp add: Some d Let_def)
        have "scan_accounts (drop ?len rest) (Counter (cval (jrec_sequence ?r) + 1)) (acc @ [?r])
            (scan_records limits (drop ?len rest) (Counter (cval sequence + 1)) (acc @ [?r]))"
          using 1 start 3 Some d by simp
        from scan_accounts_step [OF this]
        have "scan_accounts (rec_image ?r @ drop ?len rest) sequence acc
            (scan_records limits (drop ?len rest) (Counter (cval sequence + 1)) (acc @ [?r]))"
          by simp
        moreover have "rec_image ?r @ drop ?len rest = rest"
          unfolding img [symmetric] by (rule append_take_drop_id)
        ultimately show ?thesis using 3(3) eq by simp
      qed
    qed
  qed
qed

section \<open>Appending, crashing, reopening\<close>

lemma contiguous_append:
  "contiguous e (rs @ [r]) \<longleftrightarrow> contiguous e rs \<and> jrec_sequence r = Counter (cval e + of_nat (length rs))"
  by (induction rs arbitrary: e) (auto simp: algebra_simps counter.expand)

text \<open>The file is a header followed by exactly these records, and the counters agree with it.\<close>

definition journal_holds :: "RuntimeLimits \<Rightarrow> StoreId \<Rightarrow> RecordSequence \<Rightarrow> JournalRecord list \<Rightarrow> bytes \<Rightarrow> bool" where
  "journal_holds limits store base rs content \<longleftrightarrow>
     (\<exists>created. wf_store_id store \<and>
        content = BuildJournalHeaderImage store created base @ log_bytes rs \<and>
        list_all (record_ok limits) rs \<and> contiguous (Counter (cval base + 1)) rs)"

definition last_of :: "RecordSequence \<Rightarrow> JournalRecord list \<Rightarrow> RecordSequence" where
  "last_of base rs = (if rs = [] then base else jrec_sequence (last rs))"

lemma last_of_contiguous:
  "contiguous (Counter (cval base + 1)) rs \<Longrightarrow> last_of base rs = Counter (cval base + of_nat (length rs))"
  by (cases rs rule: rev_cases) (simp_all add: last_of_def contiguous_append algebra_simps)

definition next_record :: "Journal \<Rightarrow> RecordType \<Rightarrow> bytes \<Rightarrow> JournalRecord" where
  "next_record j ty payload =
     \<lparr>jrec_sequence = Counter (cval (j_last_sequence j) + 1), jrec_type = ty, jrec_payload = payload\<rparr>"

lemma next_fault_fields [simp]:
  "next_fault j = (f, j') \<Longrightarrow> j_content j' = j_content j \<and> j_open j' = j_open j \<and>
     j_last_sequence j' = j_last_sequence j \<and> j_limits j' = j_limits j \<and>
     j_read_only j' = j_read_only j \<and> j_write_failed j' = j_write_failed j \<and>
     j_bytes_written j' = j_bytes_written j"
  by (auto simp: next_fault_def split: list.splits)

lemma file_bytes_next_fault [simp]: "next_fault j = (f, j') \<Longrightarrow> file_bytes j' = file_bytes j"
  by (simp add: file_bytes_def)

lemma WriteAll_effect:
  assumes "WriteAll data j = (s, j')"
  shows "\<exists>p. prefix p data \<and> file_bytes j' = file_bytes j @ p \<and> (status_ok s \<longleftrightarrow> p = data \<and> j_open j \<and> \<not> j_write_failed j)"
    "j_open j' = j_open j" "j_limits j' = j_limits j" "j_read_only j' = j_read_only j"
    "j_last_sequence j' = j_last_sequence j" "status_ok s \<Longrightarrow> j_write_failed j' = j_write_failed j"
proof -
  have short: "take (min k (length data - 1)) data \<noteq> data" if "data \<noteq> []" for k
  proof -
    have "length (take (min k (length data - 1)) data) < length data"
      using that by (cases data) auto
    then show ?thesis by (metis less_irrefl)
  qed
  show "\<exists>p. prefix p data \<and> file_bytes j' = file_bytes j @ p \<and> (status_ok s \<longleftrightarrow> p = data \<and> j_open j \<and> \<not> j_write_failed j)"
  proof (cases "\<not> j_open j \<or> j_write_failed j \<or> data = []")
    case True
    then show ?thesis
      using assms by (auto simp: WriteAll_def split: if_splits intro!: exI [of _ "[]"])
  next
    case False
    obtain f j1 where nf: "next_fault j = (f, j1)" by force
    show ?thesis
    proof (cases f)
      case None
      then show ?thesis
        using False assms nf by (auto simp: WriteAll_def file_bytes_def)
    next
      case (Some k)
      then show ?thesis
        using False assms nf short [of k]
        by (auto simp: WriteAll_def file_bytes_def take_is_prefix
            intro!: exI [of _ "take (min k (length data - 1)) data"])
    qed
  qed
  show "j_open j' = j_open j" "j_limits j' = j_limits j" "j_read_only j' = j_read_only j"
    "j_last_sequence j' = j_last_sequence j" "status_ok s \<Longrightarrow> j_write_failed j' = j_write_failed j"
    using assms by (auto simp: WriteAll_def split: if_splits prod.splits option.splits)
qed

lemma FlushToDisk_effect:
  "FlushToDisk j = (s, j') \<Longrightarrow> file_bytes j' = file_bytes j \<and> j_open j' = j_open j \<and>
     j_limits j' = j_limits j \<and> j_read_only j' = j_read_only j \<and> j_content j' = j_content j \<and>
     j_last_sequence j' = j_last_sequence j \<and> j_write_failed j' = j_write_failed j"
  by (auto simp: FlushToDisk_def split: prod.splits option.splits)

text \<open>
  Whatever the faults: an append leaves the old bytes followed by a prefix of the new record, and
  acknowledges only the whole record.
\<close>

lemma Append_effect:
  assumes "Append ty payload j = (s, j')"
  shows "\<exists>p. prefix p (rec_image (next_record j ty payload)) \<and> file_bytes j' = file_bytes j @ p \<and>
      (status_ok s \<longrightarrow> p = rec_image (next_record j ty payload))"
    "status_ok s \<Longrightarrow> j_last_sequence j' = jrec_sequence (next_record j ty payload)"
    "\<not> status_ok s \<Longrightarrow> j_last_sequence j' = j_last_sequence j"
    "j_limits j' = j_limits j" "j_read_only j' = j_read_only j" "j_open j' = j_open j"
    "status_ok s \<Longrightarrow> length payload \<le> max_journal_payload_bytes (j_limits j)"
    "status_ok s \<Longrightarrow> \<not> j_write_failed j' \<and> \<not> j_write_failed j \<and> j_open j \<and> \<not> j_read_only j"
proof -
  let ?img = "rec_image (next_record j ty payload)"
  have img: "BuildRecordImage (Counter (cval (j_last_sequence j) + 1)) ty payload = ?img"
    by (simp add: rec_image_def next_record_def)
  obtain s1 j1 where w: "WriteAll ?img j = (s1, j1)" by force
  obtain s2 j2 where fl: "FlushToDisk j1 = (s2, j2)" by force
  note we = WriteAll_effect [OF w] and fe = FlushToDisk_effect [OF fl]
  note cases = assms [unfolded Append_def, simplified img Let_def w split fl]
  show "\<exists>p. prefix p ?img \<and> file_bytes j' = file_bytes j @ p \<and> (status_ok s \<longrightarrow> p = ?img)"
  proof (cases "j_read_only j \<or> \<not> j_open j \<or> length payload > max_journal_payload_bytes (j_limits j)")
    case True
    then show ?thesis using cases by (auto split: if_splits intro!: exI [of _ "[]"])
  next
    case False
    then show ?thesis
      using cases we(1) fe by (auto simp: file_bytes_def split: if_splits)
  qed
  show "status_ok s \<Longrightarrow> j_last_sequence j' = jrec_sequence (next_record j ty payload)"
    "\<not> status_ok s \<Longrightarrow> j_last_sequence j' = j_last_sequence j"
    "j_limits j' = j_limits j" "j_read_only j' = j_read_only j" "j_open j' = j_open j"
    "status_ok s \<Longrightarrow> length payload \<le> max_journal_payload_bytes (j_limits j)"
    "status_ok s \<Longrightarrow> \<not> j_write_failed j' \<and> \<not> j_write_failed j \<and> j_open j \<and> \<not> j_read_only j"
    using cases we fe by (auto simp: next_record_def split: if_splits)
qed

lemma next_record_ok:
  "ty \<noteq> Rec_Invalid \<Longrightarrow> length payload \<le> max_journal_payload_bytes limits \<Longrightarrow>
     record_ok limits (next_record j ty payload)"
  by (simp add: record_ok_def next_record_def)

lemma Append_holds:
  assumes "journal_holds limits store base rs (file_bytes j)" "j_last_sequence j = last_of base rs"
    "j_limits j = limits" "ty \<noteq> Rec_Invalid" "Append ty payload j = (s, j')" "status_ok s"
  shows "journal_holds limits store base (rs @ [next_record j ty payload]) (file_bytes j')"
    "j_last_sequence j' = last_of base (rs @ [next_record j ty payload])"
proof -
  note eff = Append_effect [OF assms(5)]
  have cont: "contiguous (Counter (cval base + 1)) rs"
    using assms(1) by (auto simp: journal_holds_def)
  have seq: "jrec_sequence (next_record j ty payload) = Counter (cval base + 1 + of_nat (length rs))"
    using assms(2) last_of_contiguous [OF cont] by (simp add: next_record_def algebra_simps)
  have new: "file_bytes j' = file_bytes j @ rec_image (next_record j ty payload)"
    using eff(1) assms(6) by auto
  have ok: "record_ok limits (next_record j ty payload)"
    using next_record_ok [OF assms(4)] eff(7) [OF assms(6)] assms(3) by simp
  show "journal_holds limits store base (rs @ [next_record j ty payload]) (file_bytes j')"
    using assms(1) seq ok unfolding journal_holds_def new
    by (auto simp: log_bytes_def contiguous_append)
  show "j_last_sequence j' = last_of base (rs @ [next_record j ty payload])"
    using eff(2) [OF assms(6)] by (simp add: last_of_def)
qed

text \<open>A file with a possibly torn tail reopens to exactly its whole records.\<close>

definition torn_part :: "RuntimeLimits \<Rightarrow> bytes \<Rightarrow> bool" where
  "torn_part limits t \<longleftrightarrow> t = [] \<or> (\<exists>r. record_ok limits r \<and> prefix t (rec_image r) \<and> t \<noteq> rec_image r)"

lemma next_fault_none [simp]: "j_faults j = [] \<Longrightarrow> next_fault j = (None, j)"
  by (simp add: next_fault_def)

lemma rec_image_nonempty [simp]: "rec_image r \<noteq> []"
proof -
  have "0 < length (rec_image r)" by (simp add: rec_image_def journal_consts)
  then show ?thesis by (metis length_greater_0_conv)
qed

lemma scan_torn_part:
  assumes "limits_ok limits" "list_all (record_ok limits) rs" "contiguous expected rs" "torn_part limits t"
  shows "scan_records limits (log_bytes rs @ t) expected [] =
    (if t = [] then Scan_Done rs else Scan_Torn rs (length t))"
proof (cases "t = []")
  case True
  then show ?thesis using scan_log [OF assms(1-3), of "[]" "[]"] by auto
next
  case False
  then obtain r where "record_ok limits r" "prefix t (rec_image r)" "t \<noteq> rec_image r"
    using assms(4) by (auto simp: torn_part_def)
  from scan_torn_log [OF assms(1-3) this] show ?thesis .
qed

lemma Journal_reopen:
  assumes "journal_holds (jo_limits options) store base rs content" "torn_part (jo_limits options) t"
    "limits_ok (jo_limits options)" "length (content @ t) \<le> max_journal_bytes (jo_limits options)"
    "\<not> jo_read_only options"
  shows "\<exists>report j. Journal_Open options gen clock clock' (Some (content @ t)) [] = (Status_Ok, rs, report, j) \<and>
    file_bytes j = content \<and> j_last_sequence j = last_of base rs \<and> j_limits j = jo_limits options \<and>
    j_open j \<and> \<not> j_read_only j \<and> \<not> j_write_failed j \<and> j_faults j = [] \<and>
    jh_store (jr_header report) = store \<and> jr_last_sequence report = last_of base rs \<and>
    jr_recovered_torn_tail report = (t \<noteq> []) \<and> jr_recovered_bytes report = length t"
proof -
  obtain created where wf: "wf_store_id store"
    and content: "content = BuildJournalHeaderImage store created base @ log_bytes rs"
    and rs: "list_all (record_ok (jo_limits options)) rs" "contiguous (Counter (cval base + 1)) rs"
    using assms(1) by (auto simp: journal_holds_def)
  define whole where "whole = content @ t"
  have hdr: "take kJournalHeaderBytes whole = BuildJournalHeaderImage store created base"
      "drop kJournalHeaderBytes whole = log_bytes rs @ t" "\<not> length whole < kJournalHeaderBytes"
      "take (length whole - length t) whole = content" "t = [] \<Longrightarrow> whole = content"
      "length whole \<le> max_journal_bytes (jo_limits options)"
    using length_header_image [OF wf, of created base] assms(4) by (simp_all add: content whole_def)
  note scan = scan_torn_part [OF assms(3) rs assms(2)]
  show ?thesis
    unfolding whole_def [symmetric] using assms(5) hdr
    by (simp add: Journal_Open_def open_content_def Parse_header_image [OF wf] scan Let_def
        last_of_def report_new_def file_bytes_def next_fault_def)
qed

lemma Reset_holds:
  assumes "Reset store clock clock' j = (s, report, j')" "status_ok s" "wf_store_id store"
  shows "journal_holds limits store (j_last_sequence j) [] (file_bytes j')"
    "j_last_sequence j' = j_last_sequence j" "j_limits j' = j_limits j" "\<not> j_read_only j'"
    "\<not> j_write_failed j" "\<not> j_write_failed j'" "j_open j'"
proof -
  let ?img = "BuildJournalHeaderImage store clock (j_last_sequence j)"
  obtain f j0 where nf: "next_fault (Journal_Close j) = (f, j0)" by force
  obtain s1 j1 where w: "WriteAll ?img (j0\<lparr>j_content := Some [], j_open := True\<rparr>) = (s1, j1)" by force
  obtain s2 j2 where fl: "FlushToDisk j1 = (s2, j2)" by force
  note we = WriteAll_effect [OF w] and fe = FlushToDisk_effect [OF fl]
  have j0: "j_last_sequence j0 = j_last_sequence j" "j_limits j0 = j_limits j"
      "j_read_only j0 = j_read_only j" "j_write_failed j0 = j_write_failed j"
    using next_fault_fields [OF nf] by (simp_all add: Journal_Close_def)
  have ok: "f = None" "status_ok s1" "status_ok s2" "\<not> j_read_only j"
      "j' = j2\<lparr>j_last_sequence := j_last_sequence j, j_bytes_written := kJournalHeaderBytes\<rparr>"
    using assms(1,2)
    by (auto simp: Reset_def Let_def WriteHeader_def nf w fl split: if_splits option.splits)
  have "file_bytes j2 = ?img"
    using we(1) fe ok(2) by (auto simp: file_bytes_def)
  then have "file_bytes j' = ?img" using ok(5) by (simp add: file_bytes_def)
  then show "journal_holds limits store (j_last_sequence j) [] (file_bytes j')"
    using assms(3) by (auto simp: journal_holds_def log_bytes_def)
  show "j_last_sequence j' = j_last_sequence j" "j_limits j' = j_limits j" "\<not> j_read_only j'"
    "\<not> j_write_failed j" "\<not> j_write_failed j'" "j_open j'"
    using ok we fe j0 by auto
qed

text \<open>
  A journal whose write failed keeps the sticky failure through \<open>Reset\<close>, which has truncated the
  file by then: the header is refused and an empty file is left behind.
\<close>

lemma Reset_after_failed_write:
  assumes "j_write_failed j" "\<not> j_read_only j" "j_faults j = []"
  shows "\<exists>s report j'. Reset store clock clock' j = (s, report, j') \<and>
    s = Status Code_IntegrityFailure Reason_DurableWriteFailed \<and> j_content j' = Some []"
  using assms by (simp add: Reset_def Journal_Close_def next_fault_def WriteHeader_def WriteAll_def)

lemma Open_short_file:
  assumes "length content < kJournalHeaderBytes" "length content \<le> max_journal_bytes (jo_limits options)"
  shows "fst (Journal_Open options gen clock clock' (Some content) []) =
    Status Code_IntegrityFailure Reason_JournalHeaderInvalid"
  using assms by (simp add: Journal_Open_def open_content_def open_failed_def next_fault_def)

end
