(* ===== verification/Snapshot.thy ===== *)
theory Snapshot
  imports Journal
begin

text \<open>
  \<open>snapshot.hpp\<close> and \<open>snapshot.cpp\<close>: the snapshot image and its atomic publication. The two files,
  the published snapshot and its staging file, are byte strings that may be absent. The outcome of
  each fallible system call is read off a fault list, as in the journal. A failing call to
  \<open>exists\<close> answers that the file is absent, as the overload with an error code does.
\<close>

section \<open>The image\<close>

definition kSnapshotMagic :: bytes where
  "kSnapshotMagic = bytes_of_text ''FABRSNAP''"

definition kSnapshotFormatVersion :: u16 where
  "kSnapshotFormatVersion = 1"

definition kSnapshotHeaderBytes :: nat where
  "kSnapshotHeaderBytes = 112"

record SnapshotHeader =
  sh_format_version :: u32
  sh_header_bytes :: u32
  sh_store :: StoreId
  sh_watermark :: RecordSequence
  sh_epoch :: CoordinatorEpoch
  sh_created_unix_ms :: UnixMillis
  sh_payload_len :: u64

text \<open>The first eighty bytes; the length is that of the payload, not the header's field.\<close>

definition snapshot_fields :: "SnapshotHeader \<Rightarrow> bytes \<Rightarrow> bytes" where
  "snapshot_fields h payload =
     kSnapshotMagic @ le_store 4 (sh_format_version h) @ le_store 4 (sh_header_bytes h) @
     store_bytes (sh_store h) @ le_store 8 (cval (sh_watermark h)) @ le_store 8 (cval (sh_epoch h)) @
     le_store 8 (sh_created_unix_ms h) @ le_store 8 (of_nat (length payload) :: u64) @ replicate 16 0"

definition BuildSnapshotImage :: "SnapshotHeader \<Rightarrow> bytes \<Rightarrow> bytes" where
  "BuildSnapshotImage h payload =
     (let fields = snapshot_fields h payload;
          digest = Final (Update payload (Update fields Sha256_new))
      in fields @ digest @ payload)"

definition ParseSnapshotImage :: "bytes \<Rightarrow> (SnapshotHeader \<times> bytes) option" where
  "ParseSnapshotImage img =
     (if length img < kSnapshotHeaderBytes then None
      else if slice 0 8 img \<noteq> kSnapshotMagic then None
      else if LoadU32 img 8 \<noteq> ucast kSnapshotFormatVersion then None
      else if LoadU32 img 12 \<noteq> of_nat kSnapshotHeaderBytes then None
      else if list_ex (\<lambda>b. b \<noteq> 0) (slice 64 16 img) then None
      else let payload_len = LoadU64 img 56
           in if length img - kSnapshotHeaderBytes \<noteq> unat payload_len then None
              else let payload = slice kSnapshotHeaderBytes (unat payload_len) img
              in if slice 80 32 img \<noteq> Final (Update payload (Update (slice 0 80 img) Sha256_new)) then None
              else Some (\<lparr>sh_format_version = LoadU32 img 8, sh_header_bytes = LoadU32 img 12,
                     sh_store = StoreId (slice 16 16 img), sh_watermark = Counter (LoadU64 img 32),
                     sh_epoch = Counter (LoadU64 img 40), sh_created_unix_ms = LoadU64 img 48,
                     sh_payload_len = payload_len\<rparr>, payload))"

section \<open>Publication\<close>

record SnapshotFiles =
  sf_snapshot :: "bytes option"
  sf_staging :: "bytes option"
  sf_faults :: "fault list"

definition snapshot_fault :: "SnapshotFiles \<Rightarrow> fault \<times> SnapshotFiles" where
  "snapshot_fault d =
     (case sf_faults d of [] \<Rightarrow> (None, d) | f # fs \<Rightarrow> (f, d\<lparr>sf_faults := fs\<rparr>))"

text \<open>\<open>remove(staging, error)\<close>: whether it failed, and the files afterwards.\<close>

definition remove_staging :: "SnapshotFiles \<Rightarrow> bool \<times> SnapshotFiles" where
  "remove_staging d =
     (case snapshot_fault d of
        (Some _, d) \<Rightarrow> (True, d)
      | (None, d) \<Rightarrow> (False, d\<lparr>sf_staging := None\<rparr>))"

definition WriteSnapshotAtomic :: "SnapshotHeader \<Rightarrow> bytes \<Rightarrow> SnapshotFiles \<Rightarrow> Status \<times> SnapshotFiles" where
  "WriteSnapshotAtomic header payload d =
     (case snapshot_fault (snd (remove_staging d)) of
        (Some _, d) \<Rightarrow> (Status Code_Rejected Reason_SnapshotReplacementFailed, d)
      | (None, d) \<Rightarrow>
        (let d = d\<lparr>sf_staging := Some []\<rparr>; img = BuildSnapshotImage header payload
         in case snapshot_fault d of
          (Some k, d) \<Rightarrow>
            (Status Code_IntegrityFailure Reason_SnapshotReplacementFailed,
             snd (remove_staging (d\<lparr>sf_staging := Some (take (min k (length img - 1)) img)\<rparr>)))
        | (None, d) \<Rightarrow>
          (let d = d\<lparr>sf_staging := Some img\<rparr>
           in case snapshot_fault d of
            (Some _, d) \<Rightarrow>
              (Status Code_IntegrityFailure Reason_DurableWriteFailed, snd (remove_staging d))
          | (None, d) \<Rightarrow>
            (case snapshot_fault d of
              (Some _, d) \<Rightarrow>
                (Status Code_IntegrityFailure Reason_SnapshotReplacementFailed, snd (remove_staging d))
            | (None, d) \<Rightarrow> (Status_Ok, d\<lparr>sf_snapshot := Some img, sf_staging := None\<rparr>)))))"

definition ReadSnapshot ::
    "RuntimeLimits \<Rightarrow> SnapshotFiles \<Rightarrow> Status \<times> (SnapshotHeader \<times> bytes) option \<times> SnapshotFiles" where
  "ReadSnapshot limits d =
     (case snapshot_fault d of
        (Some _, d) \<Rightarrow> (Status Code_NotFound Reason_None, None, d)
      | (None, d) \<Rightarrow>
        (case sf_snapshot d of
           None \<Rightarrow> (Status Code_NotFound Reason_None, None, d)
         | Some content \<Rightarrow>
           (case snapshot_fault d of
              (Some _, d) \<Rightarrow> (Status Code_Rejected Reason_SnapshotDigestMismatch, None, d)
            | (None, d) \<Rightarrow>
              if length content > max_journal_bytes limits + kSnapshotHeaderBytes
              then (Status Code_LimitExceeded Reason_SnapshotDigestMismatch, None, d)
              else (case snapshot_fault d of
                  (Some _, d) \<Rightarrow> (Status Code_Rejected Reason_SnapshotDigestMismatch, None, d)
                | (None, d) \<Rightarrow>
                  (let (short_read, d) = (if content = [] then (None, d) else snapshot_fault d)
                   in if short_read \<noteq> None
                      then (Status Code_IntegrityFailure Reason_SnapshotDigestMismatch, None, d)
                      else (case ParseSnapshotImage content of
                          None \<Rightarrow> (Status Code_IntegrityFailure Reason_SnapshotDigestMismatch, None, d)
                        | Some parsed \<Rightarrow> (Status_Ok, Some parsed, d)))))))"

definition RemoveStagingFile :: "SnapshotFiles \<Rightarrow> Status \<times> SnapshotFiles" where
  "RemoveStagingFile d =
     (let (failed, d) = remove_staging d
      in if failed then (Status Code_IntegrityFailure Reason_SnapshotReplacementFailed, d)
         else (Status_Ok, d))"

section \<open>The image round trip\<close>

definition snapshot_header_ok :: "SnapshotHeader \<Rightarrow> bytes \<Rightarrow> bool" where
  "snapshot_header_ok h payload \<longleftrightarrow> sh_format_version h = ucast kSnapshotFormatVersion \<and>
     sh_header_bytes h = of_nat kSnapshotHeaderBytes \<and> wf_store_id (sh_store h) \<and>
     sh_payload_len h = of_nat (length payload) \<and> length payload < 2 ^ 64"

lemma length_snapshot_fields [simp]:
  "wf_store_id (sh_store h) \<Longrightarrow> length (snapshot_fields h payload) = 80"
  by (simp add: snapshot_fields_def wf_store_id_def kSnapshotMagic_def)

lemma length_snapshot_image:
  "wf_store_id (sh_store h) \<Longrightarrow>
    length (BuildSnapshotImage h payload) = kSnapshotHeaderBytes + length payload"
  by (simp add: BuildSnapshotImage_def Let_def kSnapshotHeaderBytes_def)

lemma snapshot_field_slices:
  assumes "wf_store_id (sh_store h)"
  shows "slice 0 80 (snapshot_fields h p @ d) = snapshot_fields h p"
    "slice 0 8 (snapshot_fields h p @ d) = kSnapshotMagic"
    "slice 8 4 (snapshot_fields h p @ d) = le_store 4 (sh_format_version h)"
    "slice 12 4 (snapshot_fields h p @ d) = le_store 4 (sh_header_bytes h)"
    "slice 16 16 (snapshot_fields h p @ d) = store_bytes (sh_store h)"
    "slice 32 8 (snapshot_fields h p @ d) = le_store 8 (cval (sh_watermark h))"
    "slice 40 8 (snapshot_fields h p @ d) = le_store 8 (cval (sh_epoch h))"
    "slice 48 8 (snapshot_fields h p @ d) = le_store 8 (sh_created_unix_ms h)"
    "slice 56 8 (snapshot_fields h p @ d) = le_store 8 (of_nat (length p) :: u64)"
    "slice 64 16 (snapshot_fields h p @ d) = replicate 16 0"
    "slice 80 32 (snapshot_fields h p @ d) = take 32 d"
    "slice 112 n (snapshot_fields h p @ d) = take n (drop 32 d)"
  using assms
  by (simp_all add: slice_def) (simp_all add: snapshot_fields_def wf_store_id_def kSnapshotMagic_def)

lemma Parse_snapshot_image:
  assumes "snapshot_header_ok h payload"
  shows "ParseSnapshotImage (BuildSnapshotImage h payload) = Some (h, payload)"
proof -
  have wf: "wf_store_id (sh_store h)" using assms by (simp add: snapshot_header_ok_def)
  have len: "unat (of_nat (length payload) :: u64) = length payload"
    using assms by (simp add: snapshot_header_ok_def unat_of_nat)
  note slices = snapshot_field_slices [OF wf]
  have "ParseSnapshotImage (BuildSnapshotImage h payload) =
      Some (\<lparr>sh_format_version = sh_format_version h, sh_header_bytes = sh_header_bytes h,
        sh_store = sh_store h, sh_watermark = sh_watermark h, sh_epoch = sh_epoch h,
        sh_created_unix_ms = sh_created_unix_ms h, sh_payload_len = sh_payload_len h\<rparr>, payload)"
    using assms length_snapshot_image [OF wf, of payload] len
    by (simp add: ParseSnapshotImage_def BuildSnapshotImage_def Let_def LoadU32_def
        LoadU64_def slices snapshot_header_ok_def list_ex_iff kSnapshotHeaderBytes_def)
  then show ?thesis by simp
qed

section \<open>Publication is atomic\<close>

lemma snapshot_fault_fields:
  "snapshot_fault d = (f, d') \<Longrightarrow> sf_snapshot d' = sf_snapshot d \<and> sf_staging d' = sf_staging d"
  by (auto simp: snapshot_fault_def split: list.splits)

lemma snapshot_fault_none [simp]: "sf_faults d = [] \<Longrightarrow> snapshot_fault d = (None, d)"
  by (simp add: snapshot_fault_def)

lemma remove_staging_snapshot [simp]: "sf_snapshot (snd (remove_staging d)) = sf_snapshot d"
  by (auto simp: remove_staging_def dest: snapshot_fault_fields split: prod.splits option.splits)

lemma WriteSnapshotAtomic_effect:
  assumes "WriteSnapshotAtomic header payload d = (s, d')"
  shows "status_ok s \<Longrightarrow> sf_snapshot d' = Some (BuildSnapshotImage header payload) \<and> sf_staging d' = None"
    "\<not> status_ok s \<Longrightarrow> sf_snapshot d' = sf_snapshot d"
  using assms
  by (auto simp: WriteSnapshotAtomic_def Let_def dest!: snapshot_fault_fields
      split: prod.splits option.splits)

lemma WriteSnapshotAtomic_faultless:
  "sf_faults d = [] \<Longrightarrow> WriteSnapshotAtomic header payload d =
    (Status_Ok, d\<lparr>sf_snapshot := Some (BuildSnapshotImage header payload), sf_staging := None\<rparr>)"
  by (simp add: WriteSnapshotAtomic_def remove_staging_def snapshot_fault_def Let_def)

lemma ReadSnapshot_published:
  assumes "sf_snapshot d = Some (BuildSnapshotImage h payload)" "sf_faults d = []"
    "snapshot_header_ok h payload" "length payload \<le> max_journal_bytes limits"
  shows "ReadSnapshot limits d = (Status_Ok, Some (h, payload), d)"
proof -
  have len: "length (BuildSnapshotImage h payload) = kSnapshotHeaderBytes + length payload"
    using assms(3) by (simp add: length_snapshot_image snapshot_header_ok_def)
  then have "BuildSnapshotImage h payload \<noteq> []"
    by (auto simp: kSnapshotHeaderBytes_def)
  then show ?thesis
    using assms(1,2,4) len by (simp add: ReadSnapshot_def Parse_snapshot_image [OF assms(3)])
qed

lemma ReadSnapshot_absent:
  "sf_snapshot d = None \<Longrightarrow> sf_faults d = [] \<Longrightarrow>
    ReadSnapshot limits d = (Status Code_NotFound Reason_None, None, d)"
  by (simp add: ReadSnapshot_def)

end
