(* ===== verification/Store.thy ===== *)
theory Store
  imports Snapshot
begin

text \<open>
  \<open>store.hpp\<close> and \<open>store.cpp\<close>: the durable store. It holds the codec of attempt records, the durable
  state, the effect of each journal record on it, the retention rules, the durable mutations
  (append first, memory second), the snapshot payload, compaction and opening. The directory is
  modelled by its four files: journal and snapshot with their staging file as byte strings, the
  lock as a flag for another live holder. Entropy and clock readings are parameters. The move
  operations and the operating-system lock itself have no counterpart.
\<close>

section \<open>Attempt records\<close>

definition transition_puts :: "AttemptTransition \<Rightarrow> put list" where
  "transition_puts t =
     [PutU8 (AttemptState_u8 (tr_from t)), PutU8 (AttemptState_u8 (tr_to t)),
      PutU64 (cval (tr_epoch t)), PutBytes (boot_bytes (tr_boot t)), PutI64 (tr_at_unix_ms t),
      PutU16 (tr_reason t), PutU16 (tr_verification_reason t)]"

definition attempt_puts :: "AttemptRecord \<Rightarrow> put list" where
  "attempt_puts a =
     [PutU64 (cval (at_id a)), PutDigest (at_idempotency_key a), PutText (str (at_scope a)),
      PutText (str (at_subject a)), PutU8 (ActionKind_u8 (at_action a)), PutU64 (cval (at_epoch a)),
      PutBytes (boot_bytes (at_boot a))] @ authority_Encode (at_authority a) @
     [PutU8 (AttemptState_u8 (at_state a)), PutI64 (at_issued_unix_ms a),
      PutU32 (count_u32 (at_transitions a))] @
     concat (map transition_puts (at_transitions a))"

definition EncodeAttemptRecord :: "AttemptRecord \<Rightarrow> bytes" where
  "EncodeAttemptRecord a = puts_buffer (attempt_puts a)"

definition transition_Decode :: "AttemptTransition reader" where
  "transition_Decode r =
     do { (from_u8, r) \<leftarrow> ReadU8 r; (to_u8, r) \<leftarrow> ReadU8 r; (epoch, r) \<leftarrow> ReadU64 r;
          (boot, r) \<leftarrow> ReadBytes r; (at, r) \<leftarrow> ReadI64 r; (reason, r) \<leftarrow> ReadU16 r;
          (verification, r) \<leftarrow> ReadU16 r;
          if length boot \<noteq> 16 then None
          else do {
            from_state \<leftarrow> AttemptState_of_u8 from_u8; to_state \<leftarrow> AttemptState_of_u8 to_u8;
            if reason > Reason_RestartLeasesNotRestored \<or> verification > Reason_RestartLeasesNotRestored
            then None
            else Some (\<lparr>tr_from = from_state, tr_to = to_state, tr_epoch = Counter epoch,
                   tr_boot = BootId boot, tr_at_unix_ms = at, tr_reason = reason,
                   tr_verification_reason = verification\<rparr>, r) } }"

definition DecodeAttempt :: "RuntimeLimits \<Rightarrow> AttemptRecord reader" where
  "DecodeAttempt limits r =
     do { (aid, r) \<leftarrow> ReadU64 r; (key, r) \<leftarrow> ReadDigest r; (scope_text, r) \<leftarrow> ReadText r;
          (subject_text, r) \<leftarrow> ReadText r; (action, r) \<leftarrow> ReadU8 r; (epoch, r) \<leftarrow> ReadU64 r;
          (boot, r) \<leftarrow> ReadBytes r;
          if length boot \<noteq> 16 then None
          else do {
            (authority, r) \<leftarrow> authority_Decode r; (state_u8, r) \<leftarrow> ReadU8 r; (issued, r) \<leftarrow> ReadI64 r;
            (transitions, r) \<leftarrow> ReadU32 r;
            action_kind \<leftarrow> ActionKind_of_u8 action; state \<leftarrow> AttemptState_of_u8 state_u8;
            if aid = 0 \<or> state = Attempt_Invalid \<or> unat transitions > max_attempt_transitions limits
            then None
            else do {
              scope \<leftarrow> TryParseId scope_text; subject \<leftarrow> TryParseId subject_text;
              (ts, r) \<leftarrow> read_n (unat transitions) transition_Decode r;
              Some (\<lparr>at_id = Counter aid, at_idempotency_key = key, at_scope = scope,
                at_subject = subject, at_action = action_kind, at_epoch = Counter epoch,
                at_boot = BootId boot, at_authority = authority, at_state = state,
                at_issued_unix_ms = issued, at_transitions = ts\<rparr>, r) } } }"

section \<open>The durable state\<close>

record DurableState =
  ds_store :: StoreId
  ds_last_epoch :: CoordinatorEpoch
  ds_sequence :: RecordSequence
  ds_next_attempt :: AttemptId
  ds_has_policy :: bool
  ds_policy :: ReconciliationPolicy
  ds_intents :: "(ScopeId, IntentDocument) omap"
  ds_intent_generations :: "(ScopeId, IntentGeneration list) omap"
  ds_observations :: "(ScopeId, ObservationDocument list) omap"
  ds_attempts :: "(u64, AttemptRecord) omap"
  ds_outcomes :: "ReconciliationOutcome list"
  ds_fences :: "(FenceId, FenceEntry) omap"
  ds_compactions :: u64

definition policy_new :: ReconciliationPolicy where
  "policy_new =
     \<lparr>po_id = StringId [], po_version = Counter 0,
      po_freshness = \<lparr>max_observation_age_ms = 30000, require_current_epoch = True,
        require_complete_coverage_for_absence = True\<rparr>,
      permit_apply_missing = True, permit_apply_mismatched = True,
      permit_withdraw_unexpected = True, require_complete_coverage_for_convergence_proof = True,
      require_independent_verification = True,
      unmanaged_attributes = [], observe_only_attributes = []\<rparr>"

definition durable_new :: DurableState where
  "durable_new =
     \<lparr>ds_store = StoreId (replicate 16 0), ds_last_epoch = Counter 0, ds_sequence = Counter 0,
      ds_next_attempt = Counter 1, ds_has_policy = False, ds_policy = policy_new, ds_intents = [],
      ds_intent_generations = [], ds_observations = [], ds_attempts = [], ds_outcomes = [],
      ds_fences = [], ds_compactions = 0\<rparr>"

section \<open>Retention\<close>

text \<open>\<open>while (size() > bound) pop_front();\<close>\<close>

function trim_front :: "nat \<Rightarrow> 'a list \<Rightarrow> 'a list" where
  "trim_front bound xs = (if length xs > bound then trim_front bound (tl xs) else xs)"
  by pat_completeness auto
termination by (relation "measure (length \<circ> snd)") auto

declare trim_front.simps [simp del]

definition TrimObservations :: "RuntimeLimits \<Rightarrow> ScopeId \<Rightarrow> DurableState \<Rightarrow> DurableState" where
  "TrimObservations limits scope st =
     (case map_find scope (ds_observations st) of
        None \<Rightarrow> st
      | Some stream \<Rightarrow> st\<lparr>ds_observations := map_set scope
            (trim_front (max_retained_observations_per_scope limits) stream) (ds_observations st)\<rparr>)"

lemma find_terminal_erase:
  "find P m = Some e \<Longrightarrow> length (map_erase (fst e) m) < length m"
  unfolding map_erase_def find_Some_iff by (intro length_filter_less [where x = e]) auto

text \<open>The oldest terminal attempt goes first; live attempts are never dropped.\<close>

function trim_attempts :: "nat \<Rightarrow> (u64, AttemptRecord) omap \<Rightarrow> (u64, AttemptRecord) omap" where
  "trim_attempts bound m =
     (if length m > bound
      then (case find (\<lambda>e. IsTerminalAttemptState (at_state (snd e))) m of
              None \<Rightarrow> m
            | Some victim \<Rightarrow> trim_attempts bound (map_erase (fst victim) m))
      else m)"
  by pat_completeness auto
termination by (relation "measure (length \<circ> snd)") (auto dest: find_terminal_erase)

declare trim_attempts.simps [simp del]

definition TrimAttempts :: "RuntimeLimits \<Rightarrow> DurableState \<Rightarrow> DurableState" where
  "TrimAttempts limits st =
     st\<lparr>ds_attempts := trim_attempts (max_retained_attempts limits) (ds_attempts st)\<rparr>"

definition TrimOutcomes :: "RuntimeLimits \<Rightarrow> DurableState \<Rightarrow> DurableState" where
  "TrimOutcomes limits st =
     st\<lparr>ds_outcomes := trim_front (max_retained_outcomes limits) (ds_outcomes st)\<rparr>"

section \<open>The effect of a record\<close>

abbreviation record_refused :: Status where
  "record_refused \<equiv> Status Code_IntegrityFailure Reason_JournalEnumInvalid"

definition lookup_or :: "'v \<Rightarrow> 'v option \<Rightarrow> 'v" where
  "lookup_or d x = (case x of None \<Rightarrow> d | Some v \<Rightarrow> v)"

definition apply_policy :: "ReconciliationPolicy \<Rightarrow> DurableState \<Rightarrow> DurableState" where
  "apply_policy p st = st\<lparr>ds_policy := p, ds_has_policy := True\<rparr>"

definition apply_intent :: "RuntimeLimits \<Rightarrow> IntentDocument \<Rightarrow> DurableState \<Rightarrow> DurableState" where
  "apply_intent limits d st =
     (let generations = lookup_or [] (map_find (in_scope d) (ds_intent_generations st)) @ [in_generation d];
          bound = max_retained_observations_per_scope limits;
          kept = (if length generations > bound then drop (length generations - bound) generations
                  else generations)
      in st\<lparr>ds_intent_generations := map_set (in_scope d) kept (ds_intent_generations st),
            ds_intents := map_set (in_scope d) d (ds_intents st)\<rparr>)"

definition apply_observation :: "RuntimeLimits \<Rightarrow> ObservationDocument \<Rightarrow> DurableState \<Rightarrow> DurableState" where
  "apply_observation limits d st =
     (let stream = lookup_or [] (map_find (ob_scope d) (ds_observations st)) @ [d]
      in TrimObservations limits (ob_scope d)
           (st\<lparr>ds_observations := map_set (ob_scope d) stream (ds_observations st)\<rparr>))"

definition apply_attempt :: "RuntimeLimits \<Rightarrow> AttemptRecord \<Rightarrow> DurableState \<Rightarrow> DurableState" where
  "apply_attempt limits a st =
     (let st = (if cval (at_id a) \<ge> cval (ds_next_attempt st)
                then st\<lparr>ds_next_attempt := Counter (cval (at_id a) + 1)\<rparr> else st);
          st = (if cval (ds_next_attempt st) = 0 then st\<lparr>ds_next_attempt := Counter 1\<rparr> else st)
      in TrimAttempts limits (st\<lparr>ds_attempts := map_set (cval (at_id a)) a (ds_attempts st)\<rparr>))"

definition apply_outcome :: "RuntimeLimits \<Rightarrow> ReconciliationOutcome \<Rightarrow> DurableState \<Rightarrow> DurableState" where
  "apply_outcome limits x st = TrimOutcomes limits (st\<lparr>ds_outcomes := ds_outcomes st @ [x]\<rparr>)"

definition apply_fence :: "FenceEntry \<Rightarrow> DurableState \<Rightarrow> DurableState" where
  "apply_fence f st = st\<lparr>ds_fences := map_set (fe_id f) f (ds_fences st)\<rparr>"

definition apply_fence_clear :: "FenceId \<Rightarrow> DurableState \<Rightarrow> DurableState" where
  "apply_fence_clear i st = st\<lparr>ds_fences := map_erase i (ds_fences st)\<rparr>"

definition apply_epoch :: "u64 \<Rightarrow> DurableState \<Rightarrow> DurableState" where
  "apply_epoch epoch st =
     (if epoch > cval (ds_last_epoch st) then st\<lparr>ds_last_epoch := Counter epoch\<rparr> else st)"

definition apply_decoded :: "'a option \<Rightarrow> ('a \<Rightarrow> DurableState \<Rightarrow> DurableState) \<Rightarrow> DurableState \<Rightarrow> Status \<times> DurableState" where
  "apply_decoded x f st = (case x of None \<Rightarrow> (record_refused, st) | Some v \<Rightarrow> (Status_Ok, f v st))"

definition DecodeFenceClear :: "FenceId reader" where
  "DecodeFenceClear r = do { (t, r) \<leftarrow> ReadText r; i \<leftarrow> TryParseId t; Some (i, r) }"

fun ApplyPayload :: "RuntimeLimits \<Rightarrow> RecordType \<Rightarrow> bytes \<Rightarrow> DurableState \<Rightarrow> Status \<times> DurableState" where
  "ApplyPayload limits Rec_StoreHeader payload st = (Status_Ok, st)"
| "ApplyPayload limits Rec_PolicyPut payload st =
     apply_decoded (DecodePolicyExact limits payload) apply_policy st"
| "ApplyPayload limits Rec_IntentCommit payload st =
     apply_decoded (DecodeIntentExact limits payload) (apply_intent limits) st"
| "ApplyPayload limits Rec_ObservationCommit payload st =
     apply_decoded (DecodeObservationExact limits payload) (apply_observation limits) st"
| "ApplyPayload limits Rec_AttemptIssued payload st =
     apply_decoded (decode_exactly (DecodeAttempt limits) payload) (apply_attempt limits) st"
| "ApplyPayload limits Rec_AttemptTransition payload st =
     apply_decoded (decode_exactly (DecodeAttempt limits) payload) (apply_attempt limits) st"
| "ApplyPayload limits Rec_OutcomeCommit payload st =
     apply_decoded (decode_exactly DecodeOutcome payload) (apply_outcome limits) st"
| "ApplyPayload limits Rec_FencePut payload st =
     apply_decoded (decode_exactly DecodeFence payload) apply_fence st"
| "ApplyPayload limits Rec_FenceClear payload st =
     apply_decoded (decode_exactly DecodeFenceClear payload) apply_fence_clear st"
| "ApplyPayload limits Rec_EpochAdvance payload st =
     apply_decoded (decode_exactly ReadU64 payload) apply_epoch st"
| "ApplyPayload limits Rec_LineageTrim payload st = (Status_Ok, st)"
| "ApplyPayload limits Rec_Invalid payload st =
     (Status Code_IntegrityFailure Reason_JournalRecordTypeUnknown, st)"

definition ApplyRecord :: "RuntimeLimits \<Rightarrow> JournalRecord \<Rightarrow> DurableState \<Rightarrow> Status \<times> DurableState" where
  "ApplyRecord limits r st = ApplyPayload limits (jrec_type r) (jrec_payload r) st"

section \<open>Durable mutations\<close>

record DurableStore =
  st_state :: DurableState
  st_journal :: Journal
  st_files :: SnapshotFiles
  st_limits :: RuntimeLimits
  st_read_only :: bool
  st_locked :: bool

definition AppendAndApply :: "RecordType \<Rightarrow> bytes \<Rightarrow> DurableStore \<Rightarrow> Status \<times> DurableStore" where
  "AppendAndApply ty payload s =
     (let (appended, j) = Append ty payload (st_journal s); s = s\<lparr>st_journal := j\<rparr>
      in if \<not> status_ok appended then (appended, s)
         else let (applied, state) =
                ApplyPayload (st_limits s) ty payload ((st_state s)\<lparr>ds_sequence := j_last_sequence j\<rparr>)
         in (applied, s\<lparr>st_state := state\<rparr>))"

text \<open>The guard and the encoding step that every mutation starts with.\<close>

definition durable_put :: "RecordType \<Rightarrow> bytes \<Rightarrow> DurableStore \<Rightarrow> Status \<times> DurableStore" where
  "durable_put ty payload s =
     (if st_read_only s then (Status Code_PreconditionFailed Reason_DurableWriteFailed, s)
      else if payload = [] then (Status Code_Rejected Reason_DurableWriteFailed, s)
      else AppendAndApply ty payload s)"

definition store_PutPolicy :: "ReconciliationPolicy \<Rightarrow> DurableStore \<Rightarrow> Status \<times> DurableStore" where
  "store_PutPolicy p s = durable_put Rec_PolicyPut (EncodePolicy p) s"

definition store_CommitIntent :: "IntentDocument \<Rightarrow> DurableStore \<Rightarrow> Status \<times> DurableStore" where
  "store_CommitIntent d s = durable_put Rec_IntentCommit (EncodeIntent d) s"

definition store_CommitObservation :: "ObservationDocument \<Rightarrow> DurableStore \<Rightarrow> Status \<times> DurableStore" where
  "store_CommitObservation d s = durable_put Rec_ObservationCommit (EncodeObservation d) s"

definition store_IssueAttempt :: "AttemptRecord \<Rightarrow> DurableStore \<Rightarrow> Status \<times> DurableStore" where
  "store_IssueAttempt a s =
     (if \<not> st_read_only s \<and> cval (at_id a) = 0 then (Status Code_Rejected Reason_UnsupportedInput, s)
      else durable_put Rec_AttemptIssued (EncodeAttemptRecord a) s)"

definition store_TransitionAttempt :: "AttemptRecord \<Rightarrow> DurableStore \<Rightarrow> Status \<times> DurableStore" where
  "store_TransitionAttempt a s = durable_put Rec_AttemptTransition (EncodeAttemptRecord a) s"

definition store_CommitOutcome :: "ReconciliationOutcome \<Rightarrow> DurableStore \<Rightarrow> Status \<times> DurableStore" where
  "store_CommitOutcome x s = durable_put Rec_OutcomeCommit (EncodeOutcome x) s"

definition store_PutFence :: "FenceEntry \<Rightarrow> DurableStore \<Rightarrow> Status \<times> DurableStore" where
  "store_PutFence f s = durable_put Rec_FencePut (EncodeFence f) s"

definition store_ClearFence :: "FenceId \<Rightarrow> DurableStore \<Rightarrow> Status \<times> DurableStore" where
  "store_ClearFence i s = durable_put Rec_FenceClear (puts_buffer [PutText (str i)]) s"

definition store_AdvanceEpoch :: "CoordinatorEpoch \<Rightarrow> DurableStore \<Rightarrow> Status \<times> DurableStore" where
  "store_AdvanceEpoch epoch s =
     (if \<not> st_read_only s \<and> epoch \<le> ds_last_epoch (st_state s)
      then (Status Code_ConflictState Reason_FenceEpochNotNewer, s)
      else durable_put Rec_EpochAdvance (puts_buffer [PutU64 (cval epoch)]) s)"

section \<open>The snapshot payload\<close>

definition generations_puts :: "ScopeId \<times> IntentGeneration list \<Rightarrow> put list" where
  "generations_puts e =
     [PutText (str (fst e)), PutU32 (count_u32 (snd e))] @ map (\<lambda>g. PutU64 (cval g)) (snd e)"

definition stream_puts :: "ScopeId \<times> ObservationDocument list \<Rightarrow> put list" where
  "stream_puts e =
     [PutText (str (fst e)), PutU32 (count_u32 (snd e))] @
     map (\<lambda>d. PutBytes (EncodeObservation d)) (snd e)"

definition policy_section_puts :: "DurableState \<Rightarrow> put list" where
  "policy_section_puts st =
     (if ds_has_policy st then [PutBytes (EncodePolicy (ds_policy st))] else [])"

definition snapshot_puts :: "DurableState \<Rightarrow> put list" where
  "snapshot_puts st =
     [PutU16 kCanonicalSchemaVersion, PutU64 (cval (ds_last_epoch st)),
      PutU64 (cval (ds_next_attempt st)), PutBool (ds_has_policy st)] @
     policy_section_puts st @
     PutU32 (count_u32 (ds_intent_generations st)) #
       concat (map generations_puts (ds_intent_generations st)) @
     PutU32 (count_u32 (ds_intents st)) # map (\<lambda>e. PutBytes (EncodeIntent (snd e))) (ds_intents st) @
     PutU32 (count_u32 (ds_observations st)) # concat (map stream_puts (ds_observations st)) @
     PutU32 (count_u32 (ds_attempts st)) #
       map (\<lambda>e. PutBytes (EncodeAttemptRecord (snd e))) (ds_attempts st) @
     PutU32 (count_u32 (ds_outcomes st)) # map (\<lambda>x. PutBytes (EncodeOutcome x)) (ds_outcomes st) @
     PutU32 (count_u32 (ds_fences st)) # map (\<lambda>e. PutBytes (EncodeFence (snd e))) (ds_fences st) @
     [PutU64 (ds_compactions st)]"

definition EncodeSnapshotPayload :: "DurableState \<Rightarrow> bytes" where
  "EncodeSnapshotPayload st = puts_buffer (snapshot_puts st)"

text \<open>A length-prefixed record inside the payload, a bounded table, and a bounded list of a scope.\<close>

definition ReadNested :: "'a reader \<Rightarrow> 'a reader" where
  "ReadNested d r = do { (bs, r) \<leftarrow> ReadBytes r; x \<leftarrow> decode_exactly d bs; Some (x, r) }"

definition ReadTable :: "nat \<Rightarrow> 'a reader \<Rightarrow> 'a list reader" where
  "ReadTable bound d r =
     do { (count, r) \<leftarrow> ReadU32 r; if unat count > bound then None else read_n (unat count) d r }"

definition ReadScopeList :: "nat \<Rightarrow> 'a reader \<Rightarrow> (ScopeId \<times> 'a list) reader" where
  "ReadScopeList bound d r =
     do { (scope_text, r) \<leftarrow> ReadText r; (count, r) \<leftarrow> ReadU32 r;
          if unat count > bound then None
          else do { scope \<leftarrow> TryParseId scope_text; (xs, r) \<leftarrow> read_n (unat count) d r;
                    Some ((scope, xs), r) } }"

definition ReadGeneration :: "IntentGeneration reader" where
  "ReadGeneration r = do { (v, r) \<leftarrow> ReadU64 r; Some (Counter v, r) }"

text \<open>\<open>state_.table[key] = value\<close> for every entry read, in order.\<close>

definition assign_table :: "('k::linorder \<times> 'v) list \<Rightarrow> ('k, 'v) omap \<Rightarrow> ('k, 'v) omap" where
  "assign_table es m = fold (\<lambda>e. map_set (fst e) (snd e)) es m"

definition ReadPolicySection :: "RuntimeLimits \<Rightarrow> bool \<Rightarrow> DurableState \<Rightarrow> DurableState reader" where
  "ReadPolicySection limits has_policy st r =
     (if has_policy
      then do { (policy, r) \<leftarrow> ReadNested (DecodePolicy limits) r; Some (apply_policy policy st, r) }
      else Some (st, r))"

text \<open>
  Every refusal of \<open>ApplySnapshotPayload\<close> has the same status, and a refused state is discarded
  by \<open>Open\<close>: \<^const>\<open>None\<close> is that refusal.
\<close>

definition snapshot_Decode :: "RuntimeLimits \<Rightarrow> DurableState \<Rightarrow> DurableState reader" where
  "snapshot_Decode limits st r =
     do { (schema, r) \<leftarrow> ReadU16 r;
          if schema \<noteq> kCanonicalSchemaVersion then None
          else do {
            (last_epoch, r) \<leftarrow> ReadU64 r; (next_attempt, r) \<leftarrow> ReadU64 r; (has_policy, r) \<leftarrow> ReadBool r;
            (st, r) \<leftarrow> ReadPolicySection limits has_policy
              (st\<lparr>ds_last_epoch := Counter last_epoch,
                  ds_next_attempt := Counter (if next_attempt = 0 then 1 else next_attempt)\<rparr>) r;
            (generations, r) \<leftarrow> ReadTable (max_scopes limits)
              (ReadScopeList (max_retained_observations_per_scope limits) ReadGeneration) r;
            (intents, r) \<leftarrow> ReadTable (max_scopes limits) (ReadNested (DecodeIntent limits)) r;
            (streams, r) \<leftarrow> ReadTable (max_scopes limits)
              (ReadScopeList (max_retained_observations_per_scope limits)
                 (ReadNested (DecodeObservation limits))) r;
            (attempts, r) \<leftarrow> ReadTable (max_retained_attempts limits)
              (ReadNested (DecodeAttempt limits)) r;
            (outcomes, r) \<leftarrow> ReadTable (max_retained_outcomes limits) (ReadNested DecodeOutcome) r;
            (fences, r) \<leftarrow> ReadTable (max_scopes limits * 16) (ReadNested DecodeFence) r;
            (compactions, r) \<leftarrow> ReadU64 r;
            Some (st\<lparr>ds_intent_generations := assign_table generations (ds_intent_generations st),
                ds_intents := assign_table (map (\<lambda>d. (in_scope d, d)) intents) (ds_intents st),
                ds_observations := assign_table streams (ds_observations st),
                ds_attempts := assign_table (map (\<lambda>a. (cval (at_id a), a)) attempts) (ds_attempts st),
                ds_outcomes := ds_outcomes st @ outcomes,
                ds_fences := assign_table (map (\<lambda>f. (fe_id f, f)) fences) (ds_fences st),
                ds_compactions := compactions\<rparr>, r) } }"

definition ApplySnapshotPayload :: "RuntimeLimits \<Rightarrow> bytes \<Rightarrow> DurableState \<Rightarrow> DurableState option" where
  "ApplySnapshotPayload limits payload st = decode_exactly (snapshot_Decode limits st) payload"

section \<open>Compaction\<close>

definition snapshot_header :: "DurableState \<Rightarrow> UnixMillis \<Rightarrow> bytes \<Rightarrow> SnapshotHeader" where
  "snapshot_header st clock payload =
     \<lparr>sh_format_version = ucast kSnapshotFormatVersion, sh_header_bytes = of_nat kSnapshotHeaderBytes,
      sh_store = ds_store st, sh_watermark = ds_sequence st, sh_epoch = ds_last_epoch st,
      sh_created_unix_ms = clock, sh_payload_len = of_nat (length payload)\<rparr>"

text \<open>\<open>clock\<close> stamps the snapshot; \<open>clock'\<close> and \<open>clock''\<close> are the two readings inside \<open>Reset\<close>.\<close>

definition Compact :: "UnixMillis \<Rightarrow> UnixMillis \<Rightarrow> UnixMillis \<Rightarrow> DurableStore \<Rightarrow> Status \<times> DurableStore" where
  "Compact clock clock' clock'' s =
     (if st_read_only s then (Status Code_PreconditionFailed Reason_DurableWriteFailed, s)
      else let before = st_state s;
               state = before\<lparr>ds_compactions := ds_compactions before + 1\<rparr>;
               payload = EncodeSnapshotPayload state
      in if payload = [] then (Status Code_Rejected Reason_DurableWriteFailed, s)
      else let (written, files) =
                 WriteSnapshotAtomic (snapshot_header state clock payload) payload (st_files s);
               s = s\<lparr>st_files := files\<rparr>
      in if \<not> status_ok written then (written, s)
      else let (reset, report, j) = Reset (ds_store state) clock' clock'' (st_journal s);
               s = s\<lparr>st_journal := j\<rparr>
      in if \<not> status_ok reset then (reset, s)
      else (Status_Ok, s\<lparr>st_state := state\<lparr>ds_sequence := j_last_sequence j\<rparr>\<rparr>))"

definition SyncJournal :: "DurableStore \<Rightarrow> Status \<times> DurableStore" where
  "SyncJournal s = (let (status, j) = Sync (st_journal s) in (status, s\<lparr>st_journal := j\<rparr>))"

text \<open>
  A reset of the journal under the store, for tests: the records that no snapshot holds are discarded from the
  files while the state in memory stays.
\<close>

definition ReopenJournalForTesting :: "UnixMillis \<Rightarrow> UnixMillis \<Rightarrow> DurableStore \<Rightarrow> Status \<times> DurableStore" where
  "ReopenJournalForTesting clock clock' s =
     (if st_read_only s then (Status Code_PreconditionFailed Reason_DurableWriteFailed, s)
      else let (status, _, j) = Reset (ds_store (st_state s)) clock clock' (st_journal s)
           in (status, s\<lparr>st_journal := j\<rparr>))"

definition store_Close :: "DurableStore \<Rightarrow> DurableStore" where
  "store_Close s = s\<lparr>st_journal := Journal_Close (st_journal s), st_locked := False\<rparr>"

section \<open>Opening\<close>

datatype DirectoryKind = Directory_Missing | Directory_Other | Directory_Present

record StoreDisk =
  dk_directory :: DirectoryKind
  dk_create_fails :: bool
  dk_lock_held :: bool
  dk_files :: SnapshotFiles
  dk_journal :: "bytes option"
  dk_journal_faults :: "fault list"

record StoreOpenReport =
  sr_created :: bool
  sr_snapshot_loaded :: bool
  sr_recovered_torn_tail :: bool
  sr_recovered_bytes :: nat
  sr_records_replayed :: nat
  sr_records_skipped_by_watermark :: nat
  sr_last_sequence :: RecordSequence
  sr_last_epoch :: CoordinatorEpoch
  sr_attempts_restored :: nat
  sr_notes :: "ReasonCode list"

definition open_report_new :: StoreOpenReport where
  "open_report_new =
     \<lparr>sr_created = False, sr_snapshot_loaded = False, sr_recovered_torn_tail = False,
      sr_recovered_bytes = 0, sr_records_replayed = 0, sr_records_skipped_by_watermark = 0,
      sr_last_sequence = Counter 0, sr_last_epoch = Counter 0, sr_attempts_restored = 0,
      sr_notes = []\<rparr>"

text \<open>The state before replay: empty under the journal's identity, or the snapshot's.\<close>

definition load_snapshot ::
    "RuntimeLimits \<Rightarrow> StoreId \<Rightarrow> RecordSequence \<Rightarrow> (SnapshotHeader \<times> bytes) option \<Rightarrow> Status + DurableState" where
  "load_snapshot limits store last_sequence snap =
     (case snap of
        None \<Rightarrow> Inr (durable_new\<lparr>ds_store := store\<rparr>)
      | Some (header, payload) \<Rightarrow>
          if sh_store header \<noteq> store then Inl (Status Code_IntegrityFailure Reason_SnapshotStoreMismatch)
          else if sh_watermark header > last_sequence
          then Inl (Status Code_IntegrityFailure Reason_SnapshotAheadOfJournal)
          else (case ApplySnapshotPayload limits payload
                  (durable_new\<lparr>ds_store := sh_store header, ds_last_epoch := sh_epoch header\<rparr>) of
              None \<Rightarrow> Inl (Status Code_IntegrityFailure Reason_SnapshotDigestMismatch)
            | Some st \<Rightarrow> Inr st))"

definition snapshot_watermark :: "(SnapshotHeader \<times> bytes) option \<Rightarrow> RecordSequence" where
  "snapshot_watermark snap = (case snap of None \<Rightarrow> Counter 0 | Some (header, _) \<Rightarrow> sh_watermark header)"

text \<open>The replay loop, with the counts of skipped and replayed records.\<close>

fun replay ::
    "RuntimeLimits \<Rightarrow> RecordSequence \<Rightarrow> JournalRecord list \<Rightarrow> nat \<Rightarrow> nat \<Rightarrow> DurableState \<Rightarrow>
     Status \<times> nat \<times> nat \<times> DurableState" where
  "replay limits watermark [] skipped replayed st = (Status_Ok, skipped, replayed, st)"
| "replay limits watermark (r # rs) skipped replayed st =
     (if jrec_sequence r \<le> watermark then replay limits watermark rs (skipped + 1) replayed st
      else let (applied, st) = ApplyRecord limits r st
           in if \<not> status_ok applied then (applied, skipped, replayed, st)
              else replay limits watermark rs skipped (replayed + 1) st)"

text \<open>
  Everything after the lock was taken. A failed open leaves the files as they are by then and
  releases the journal and the lock; its state is not used.
\<close>

definition open_locked ::
    "RuntimeLimits \<Rightarrow> bool \<Rightarrow> bool \<Rightarrow> StoreId \<Rightarrow> UnixMillis \<Rightarrow> UnixMillis \<Rightarrow> StoreDisk \<Rightarrow> DurableStore \<Rightarrow>
     StoreOpenReport \<Rightarrow> Status \<times> StoreOpenReport \<times> DurableStore" where
  "open_locked limits create_if_missing read_only gen clock clock' disk s report =
     (let (staging, files) = (if read_only then (Status_Ok, st_files s) else RemoveStagingFile (st_files s));
          s = s\<lparr>st_files := files\<rparr>
      in if \<not> status_ok staging then (staging, report, store_Close s)
      else let (snapshot_status, snap, files) = ReadSnapshot limits files;
               s = s\<lparr>st_files := files\<rparr>;
               report = report\<lparr>sr_snapshot_loaded := status_ok snapshot_status\<rparr>
      in if \<not> status_ok snapshot_status \<and> status_code snapshot_status \<noteq> Code_NotFound
         then (snapshot_status, report, store_Close s)
      else let (journal_status, records, jreport, j) =
                 Journal_Open \<lparr>jo_limits = limits, jo_create_if_missing = create_if_missing \<and> \<not> read_only,
                   jo_read_only = read_only\<rparr> gen clock clock' (dk_journal disk) (dk_journal_faults disk);
               s = s\<lparr>st_journal := j\<rparr>
      in if \<not> status_ok journal_status then (journal_status, report, store_Close s)
      else let report = report\<lparr>sr_created := sr_created report \<or> jr_created jreport,
                   sr_recovered_torn_tail := jr_recovered_torn_tail jreport,
                   sr_recovered_bytes := jr_recovered_bytes jreport,
                   sr_notes := sr_notes report @ jr_notes jreport,
                   sr_last_sequence := jr_last_sequence jreport\<rparr>
      in case load_snapshot limits (jh_store (jr_header jreport)) (jr_last_sequence jreport) snap of
           Inl refused \<Rightarrow> (refused, report, store_Close s)
         | Inr st \<Rightarrow>
             (let (applied, skipped, replayed, st) = replay limits (snapshot_watermark snap) records 0 0 st;
                  report = report\<lparr>sr_records_replayed := replayed,
                    sr_records_skipped_by_watermark := skipped\<rparr>
              in if \<not> status_ok applied then (applied, report, store_Close s)
                 else let st = st\<lparr>ds_sequence := jr_last_sequence jreport\<rparr>
                 in (Status_Ok, report\<lparr>sr_last_epoch := ds_last_epoch st,
                       sr_attempts_restored := length (ds_attempts st)\<rparr>, s\<lparr>st_state := st\<rparr>)))"

definition Store_Open ::
    "RuntimeLimits \<Rightarrow> bool \<Rightarrow> bool \<Rightarrow> StoreId \<Rightarrow> UnixMillis \<Rightarrow> UnixMillis \<Rightarrow> StoreDisk \<Rightarrow>
     Status \<times> StoreOpenReport \<times> DurableStore" where
  "Store_Open limits create_if_missing read_only gen clock clock' disk =
     (let s = \<lparr>st_state = durable_new,
               st_journal = \<lparr>j_content = dk_journal disk, j_open = False, j_last_sequence = Counter 0,
                 j_bytes_written = 0, j_limits = limits, j_read_only = read_only,
                 j_write_failed = False, j_faults = dk_journal_faults disk\<rparr>,
               st_files = dk_files disk, st_limits = limits, st_read_only = read_only,
               st_locked = False\<rparr>
      in if dk_directory disk = Directory_Missing \<and> \<not> create_if_missing
         then (Status Code_NotFound Reason_DurableWriteFailed, open_report_new, s)
      else if dk_directory disk = Directory_Missing \<and> dk_create_fails disk
         then (Status Code_Rejected Reason_DurableWriteFailed, open_report_new, s)
      else if dk_directory disk = Directory_Other
         then (Status Code_Rejected Reason_DurableWriteFailed, open_report_new, s)
      else let report = open_report_new\<lparr>sr_created := dk_directory disk = Directory_Missing\<rparr>
      in if dk_lock_held disk then (Status Code_ConflictState Reason_DurableWriteFailed, report, s)
      else open_locked limits create_if_missing read_only gen clock clock' disk
             (s\<lparr>st_locked := True\<rparr>) report)"

section \<open>Round trips\<close>

definition transition_ok :: "AttemptTransition \<Rightarrow> bool" where
  "transition_ok t \<longleftrightarrow> wf_boot (tr_boot t) \<and> tr_reason t \<le> Reason_RestartLeasesNotRestored \<and>
     tr_verification_reason t \<le> Reason_RestartLeasesNotRestored"

definition attempt_ok :: "RuntimeLimits \<Rightarrow> AttemptRecord \<Rightarrow> bool" where
  "attempt_ok limits a \<longleftrightarrow> cval (at_id a) \<noteq> 0 \<and> wf_digest (at_idempotency_key a) \<and>
     valid_id (at_scope a) \<and> valid_id (at_subject a) \<and> wf_boot (at_boot a) \<and>
     authority_ok (at_authority a) \<and> at_state a \<noteq> Attempt_Invalid \<and>
     list_all transition_ok (at_transitions a) \<and>
     length (at_transitions a) \<le> max_attempt_transitions limits \<and>
     length (at_transitions a) < 2 ^ 32"

interpretation transition_codec: codec transition_puts transition_Decode transition_ok
proof
  fix x r
  assume "transition_ok x"
  then show "transition_Decode (octets (transition_puts x) @ r) = Some (x, r)"
    by (cases x; cases "tr_boot x")
      (simp add: transition_ok_def wf_boot_def transition_Decode_def transition_puts_def ReadBytes_boot
        not_less)
next
  fix r x s
  assume "transition_Decode r = Some (x, s)"
  then show "transition_ok x"
    by (auto simp: transition_Decode_def transition_ok_def wf_boot_def split: if_splits)
qed

interpretation attempt_codec: codec attempt_puts "DecodeAttempt limits" "attempt_ok limits" for limits
proof
  fix x r
  assume "attempt_ok limits x"
  then show "DecodeAttempt limits (octets (attempt_puts x) @ r) = Some (x, r)"
    by (cases x; cases "at_boot x")
      (simp add: attempt_ok_def wf_boot_def DecodeAttempt_def attempt_puts_def ReadBytes_boot
        authority_codec.decode_encode unat_count_u32 transition_codec.decode_many)
next
  fix r x s
  assume "DecodeAttempt limits r = Some (x, s)"
  then show "attempt_ok limits x"
    using unat_u32_bound
    by (auto simp: DecodeAttempt_def attempt_ok_def wf_boot_def not_less
        dest: ReadDigest_wf authority_codec.decode_ok dest!: transition_codec.decode_many_ok
        split: if_splits)
qed

text \<open>Fitting the writer's bound, so that the encoder returns the encoding and not the empty string.\<close>

definition fits :: "put list \<Rightarrow> bool" where
  "fits ps \<longleftrightarrow> length (octets ps) \<le> kMaxCanonicalBytes"

lemma fits_buffer: "fits ps \<Longrightarrow> puts_buffer ps = octets ps"
  by (simp add: fits_def puts_buffer_octets)

lemma buffer_nonempty_fits: "puts_buffer ps \<noteq> [] \<Longrightarrow> fits ps"
  by (simp add: fits_def puts_buffer_octets split: if_splits)

context codec
begin

lemma exactly: "ok x \<Longrightarrow> fits (enc x) \<Longrightarrow> decode_exactly dec (puts_buffer (enc x)) = Some x"
  by (simp add: decode_exactly_def fits_buffer decode_exact AtEnd_def)

lemma nested:
  assumes "ok x" "fits (enc x)"
  shows "ReadNested dec (octets [PutBytes (puts_buffer (enc x))] @ r) = Some (x, r)"
proof -
  have "length (puts_buffer (enc x)) \<le> kMaxCanonicalBytes"
    using assms(2) by (simp add: fits_buffer fits_def)
  then show ?thesis
    by (simp add: ReadNested_def exactly [OF assms])
qed

end

lemma read_n_put:
  "(\<And>x r. x \<in> set xs \<Longrightarrow> d (octets (e x) @ r) = Some (x, r)) \<Longrightarrow>
    read_n (length xs) d (octets (concat (map e xs)) @ r) = Some (xs, r)"
  by (induction xs arbitrary: r) simp_all

lemma ReadTable_put:
  assumes "\<And>x r. x \<in> set xs \<Longrightarrow> d (octets (e x) @ r) = Some (x, r)"
    "length xs \<le> bound" "length xs < 2 ^ 32"
  shows "ReadTable bound d (le_store 4 (count_u32 xs) @ octets (concat (map e xs)) @ r) = Some (xs, r)"
  using assms(2,3) read_n_put [of xs d e r, OF assms(1)] by (simp add: ReadTable_def unat_count_u32)

lemma ReadScopeList_put:
  assumes "\<And>x r. x \<in> set (snd p) \<Longrightarrow> d (octets (e x) @ r) = Some (x, r)"
    "valid_id (fst p)" "length (snd p) \<le> bound" "length (snd p) < 2 ^ 32"
  shows "ReadScopeList bound d
    (octets ([PutText (str (fst p)), PutU32 (count_u32 (snd p))] @ concat (map e (snd p))) @ r) = Some (p, r)"
  using assms(2-4) read_n_put [of "snd p" d e r, OF assms(1)]
  by (simp add: ReadScopeList_def unat_count_u32)

lemma fold_map_set_sorted:
  "wf_map (m @ es) \<Longrightarrow> fold (\<lambda>e. map_set (fst e) (snd e)) es m = m @ es"
proof (induction es arbitrary: m)
  case (Cons e es)
  then have "map_set (fst e) (snd e) m = m @ [e]"
    using map_set_at_end [of m "fst e" "snd e"] by (auto simp: wf_map_append)
  then show ?case using Cons by simp
qed simp

lemma assign_table_sorted: "wf_map es \<Longrightarrow> assign_table es [] = es"
  using fold_map_set_sorted [of "[]" es] by (simp add: assign_table_def)

lemma keyed_values: "list_all (\<lambda>e. fst e = k (snd e)) es \<Longrightarrow> map (\<lambda>x. (k x, x)) (map snd es) = es"
  by (induction es) auto

section \<open>Well-formed durable states\<close>

definition intent_stored :: "RuntimeLimits \<Rightarrow> IntentDocument \<Rightarrow> bool" where
  "intent_stored limits d \<longleftrightarrow> intent_ok limits d \<and> fits (intent_puts d)"

definition observation_stored :: "RuntimeLimits \<Rightarrow> ObservationDocument \<Rightarrow> bool" where
  "observation_stored limits d \<longleftrightarrow> observation_ok limits d \<and> fits (observation_puts d)"

definition attempt_stored :: "RuntimeLimits \<Rightarrow> AttemptRecord \<Rightarrow> bool" where
  "attempt_stored limits a \<longleftrightarrow> attempt_ok limits a \<and> fits (attempt_puts a)"

definition outcome_stored :: "ReconciliationOutcome \<Rightarrow> bool" where
  "outcome_stored x \<longleftrightarrow> outcome_ok x \<and> fits (outcome_puts x)"

definition fence_stored :: "FenceEntry \<Rightarrow> bool" where
  "fence_stored f \<longleftrightarrow> fence_ok f \<and> fits (fence_puts f)"

definition policy_stored :: "RuntimeLimits \<Rightarrow> ReconciliationPolicy \<Rightarrow> bool" where
  "policy_stored limits p \<longleftrightarrow> policy_ok limits p \<and> fits (policy_puts p)"

text \<open>A table whose keys are those of its values, in key order, and whose values satisfy \<open>P\<close>.\<close>

definition table_ok :: "('v \<Rightarrow> 'k::linorder) \<Rightarrow> ('v \<Rightarrow> bool) \<Rightarrow> ('k, 'v) omap \<Rightarrow> bool" where
  "table_ok key P m \<longleftrightarrow> wf_map m \<and> (\<forall>e \<in> set m. fst e = key (snd e) \<and> P (snd e))"

definition scope_lists_ok :: "RuntimeLimits \<Rightarrow> ('v \<Rightarrow> bool) \<Rightarrow> (ScopeId, 'v list) omap \<Rightarrow> bool" where
  "scope_lists_ok limits P m \<longleftrightarrow> wf_map m \<and> (\<forall>e \<in> set m. valid_id (fst e) \<and>
     length (snd e) \<le> max_retained_observations_per_scope limits \<and> list_all P (snd e))"

definition durable_wf :: "RuntimeLimits \<Rightarrow> DurableState \<Rightarrow> bool" where
  "durable_wf limits st \<longleftrightarrow> wf_store_id (ds_store st) \<and> cval (ds_next_attempt st) \<noteq> 0 \<and>
     (if ds_has_policy st then policy_stored limits (ds_policy st) else ds_policy st = policy_new) \<and>
     scope_lists_ok limits (\<lambda>_. True) (ds_intent_generations st) \<and>
     table_ok in_scope (intent_stored limits) (ds_intents st) \<and>
     scope_lists_ok limits (observation_stored limits) (ds_observations st) \<and>
     table_ok (\<lambda>a. cval (at_id a)) (attempt_stored limits) (ds_attempts st) \<and>
     list_all outcome_stored (ds_outcomes st) \<and>
     length (ds_outcomes st) \<le> max_retained_outcomes limits \<and>
     table_ok fe_id fence_stored (ds_fences st)"

text \<open>
  The table sizes that reading a snapshot insists on. The observation lists are counted in 32
  bits, which the retention bound has to allow for.
\<close>

definition durable_capped :: "RuntimeLimits \<Rightarrow> DurableState \<Rightarrow> bool" where
  "durable_capped limits st \<longleftrightarrow> max_retained_observations_per_scope limits < 2 ^ 32 \<and>
     max_scopes limits * 16 < 2 ^ 32 \<and> max_retained_attempts limits < 2 ^ 32 \<and>
     max_retained_outcomes limits < 2 ^ 32 \<and>
     length (ds_intent_generations st) \<le> max_scopes limits \<and>
     length (ds_intents st) \<le> max_scopes limits \<and> length (ds_observations st) \<le> max_scopes limits \<and>
     length (ds_attempts st) \<le> max_retained_attempts limits \<and>
     length (ds_fences st) \<le> max_scopes limits * 16"

lemma ReadScopeList_generations:
  assumes "valid_id (fst p)" "length (snd p) \<le> bound" "bound < 2 ^ 32"
  shows "ReadScopeList bound ReadGeneration (octets (generations_puts p) @ r) = Some (p, r)"
proof -
  have "map (\<lambda>g. PutU64 (cval g)) (snd p) = concat (map (\<lambda>g. [PutU64 (cval g)]) (snd p))"
    by (induction "snd p" arbitrary: p) auto
  then show ?thesis
    using ReadScopeList_put [of p ReadGeneration "\<lambda>g. [PutU64 (cval g)]" bound r] assms
    by (simp add: generations_puts_def ReadGeneration_def)
qed

lemma concat_singletons: "concat (map (\<lambda>x. [f x]) xs) = map f xs"
  by (induction xs) auto

lemma ReadScopeList_stream:
  assumes "valid_id (fst p)" "length (snd p) \<le> bound" "bound < 2 ^ 32"
    "list_all (observation_stored limits) (snd p)"
  shows "ReadScopeList bound (ReadNested (DecodeObservation limits)) (octets (stream_puts p) @ r) = Some (p, r)"
proof -
  have "ReadNested (DecodeObservation limits) (octets [PutBytes (EncodeObservation d)] @ r) = Some (d, r)"
    if "d \<in> set (snd p)" for d r
    using observation_codec.nested [of limits d r] that assms(4)
    by (simp add: EncodeObservation_def observation_stored_def list_all_iff)
  from ReadScopeList_put [of p _ "\<lambda>d. [PutBytes (EncodeObservation d)]", OF this assms(1,2)]
  show ?thesis
    using assms(2,3) by (simp add: stream_puts_def concat_singletons)
qed

text \<open>A table of nested records.\<close>

lemma ReadTable_nested:
  assumes "\<And>x r. x \<in> set xs \<Longrightarrow> d (octets [PutBytes (e x)] @ r) = Some (x, r)"
    "length xs \<le> bound" "length xs < 2 ^ 32"
  shows "ReadTable bound d (le_store 4 (count_u32 xs) @ octets (map (\<lambda>x. PutBytes (e x)) xs) @ r) = Some (xs, r)"
  using ReadTable_put [of xs d "\<lambda>x. [PutBytes (e x)]" bound r] assms by (simp add: concat_singletons)

lemma count_u32_map [simp]: "count_u32 (map f xs) = count_u32 xs"
  by (simp add: count_u32_def)

lemma table_keyed: "table_ok key P m \<Longrightarrow> map (\<lambda>x. (key x, x)) (map snd m) = m"
  by (rule keyed_values) (simp add: table_ok_def list_all_iff)

lemma ReadTable_keyed:
  assumes "table_ok key P m" "\<And>x r. P x \<Longrightarrow> d (octets [PutBytes (e x)] @ r) = Some (x, r)"
    "length m \<le> bound" "length m < 2 ^ 32"
  shows "ReadTable bound d (le_store 4 (count_u32 m) @ octets (map (\<lambda>x. PutBytes (e (snd x))) m) @ r) =
    Some (map snd m, r)"
  using ReadTable_nested [of "map snd m" d e bound r] assms
  by (auto simp: table_ok_def comp_def)

lemma nested_stored:
  "intent_stored limits d \<Longrightarrow>
    ReadNested (DecodeIntent limits) (octets [PutBytes (EncodeIntent d)] @ r) = Some (d, r)"
  "attempt_stored limits a \<Longrightarrow>
    ReadNested (DecodeAttempt limits) (octets [PutBytes (EncodeAttemptRecord a)] @ r) = Some (a, r)"
  "outcome_stored x \<Longrightarrow> ReadNested DecodeOutcome (octets [PutBytes (EncodeOutcome x)] @ r) = Some (x, r)"
  "fence_stored f \<Longrightarrow> ReadNested DecodeFence (octets [PutBytes (EncodeFence f)] @ r) = Some (f, r)"
  "policy_stored limits p \<Longrightarrow>
    ReadNested (DecodePolicy limits) (octets [PutBytes (EncodePolicy p)] @ r) = Some (p, r)"
  using intent_codec.nested [of limits d r] attempt_codec.nested [of limits a r]
    outcome_codec.nested [of x r] fence_codec.nested [of f r] policy_codec.nested [of limits p r]
  by (simp_all add: EncodeIntent_def EncodeAttemptRecord_def EncodeOutcome_def EncodeFence_def
      EncodePolicy_def intent_stored_def attempt_stored_def outcome_stored_def fence_stored_def
      policy_stored_def)

lemma ReadPolicySection_put:
  assumes "if ds_has_policy st then policy_stored limits (ds_policy st) else ds_policy st = ds_policy st0"
    "ds_has_policy st0 = False"
  shows "ReadPolicySection limits (ds_has_policy st) st0
      (octets (policy_section_puts st) @ r) =
    Some (st0\<lparr>ds_policy := ds_policy st, ds_has_policy := ds_has_policy st\<rparr>, r)"
  using assms nested_stored(5) [of limits "ds_policy st" r]
  by (simp add: ReadPolicySection_def policy_section_puts_def apply_policy_def)

lemma snapshot_decode_encode:
  assumes "durable_wf limits st" "durable_capped limits st"
  shows "snapshot_Decode limits (durable_new\<lparr>ds_store := ds_store st, ds_last_epoch := e\<rparr>)
    (octets (snapshot_puts st) @ r) = Some (st\<lparr>ds_sequence := Counter 0\<rparr>, r)"
proof -
  let ?lists = "max_retained_observations_per_scope limits"
  note wf = assms(1) [unfolded durable_wf_def] and cap = assms(2) [unfolded durable_capped_def]
  define s0 where "s0 = durable_new\<lparr>ds_store := ds_store st, ds_last_epoch := ds_last_epoch st,
      ds_next_attempt := ds_next_attempt st\<rparr>"
  have s0: "ds_has_policy s0 = False" "ds_policy s0 = policy_new"
    by (simp_all add: s0_def durable_new_def)
  have sec: "ReadPolicySection limits (ds_has_policy st) s0
      (octets (policy_section_puts st) @ q) =
      Some (s0\<lparr>ds_policy := ds_policy st, ds_has_policy := ds_has_policy st\<rparr>, q)" for q
    using ReadPolicySection_put [of st limits s0 q] wf s0 by simp
  have gens: "ReadTable (max_scopes limits) (ReadScopeList ?lists ReadGeneration)
      (le_store 4 (count_u32 (ds_intent_generations st)) @
       octets (concat (map generations_puts (ds_intent_generations st))) @ q) =
      Some (ds_intent_generations st, q)" for q
    by (rule ReadTable_put) (use wf cap in \<open>auto simp: scope_lists_ok_def ReadScopeList_generations\<close>)
  have streams: "ReadTable (max_scopes limits)
      (ReadScopeList ?lists (ReadNested (DecodeObservation limits)))
      (le_store 4 (count_u32 (ds_observations st)) @
       octets (concat (map stream_puts (ds_observations st))) @ q) = Some (ds_observations st, q)" for q
    by (rule ReadTable_put) (use wf cap in \<open>auto simp: scope_lists_ok_def ReadScopeList_stream\<close>)
  have intents: "ReadTable (max_scopes limits) (ReadNested (DecodeIntent limits))
      (le_store 4 (count_u32 (ds_intents st)) @
       octets (map (\<lambda>e. PutBytes (EncodeIntent (snd e))) (ds_intents st)) @ q) =
      Some (map snd (ds_intents st), q)" for q
    by (rule ReadTable_keyed [of in_scope, OF _ nested_stored(1)]) (use wf cap in auto)
  have attempts: "ReadTable (max_retained_attempts limits) (ReadNested (DecodeAttempt limits))
      (le_store 4 (count_u32 (ds_attempts st)) @
       octets (map (\<lambda>e. PutBytes (EncodeAttemptRecord (snd e))) (ds_attempts st)) @ q) =
      Some (map snd (ds_attempts st), q)" for q
    by (rule ReadTable_keyed [of "\<lambda>a. cval (at_id a)", OF _ nested_stored(2)]) (use wf cap in auto)
  have fences: "ReadTable (max_scopes limits * 16) (ReadNested DecodeFence)
      (le_store 4 (count_u32 (ds_fences st)) @
       octets (map (\<lambda>e. PutBytes (EncodeFence (snd e))) (ds_fences st)) @ q) =
      Some (map snd (ds_fences st), q)" for q
    by (rule ReadTable_keyed [of fe_id, OF _ nested_stored(4)]) (use wf cap in auto)
  have outcomes: "ReadTable (max_retained_outcomes limits) (ReadNested DecodeOutcome)
      (le_store 4 (count_u32 (ds_outcomes st)) @
       octets (map (\<lambda>x. PutBytes (EncodeOutcome x)) (ds_outcomes st)) @ q) =
      Some (ds_outcomes st, q)" for q
    by (rule ReadTable_nested [OF nested_stored(3)]) (use wf cap in \<open>auto simp: list_all_iff\<close>)
  have tables: "assign_table (ds_intent_generations st) [] = ds_intent_generations st"
      "assign_table (ds_observations st) [] = ds_observations st"
      "assign_table (ds_intents st) [] = ds_intents st"
      "assign_table (ds_attempts st) [] = ds_attempts st"
      "assign_table (ds_fences st) [] = ds_fences st"
    using wf by (simp_all add: assign_table_sorted scope_lists_ok_def table_ok_def)
  have keyed: "map (\<lambda>d. (in_scope d, d)) (map snd (ds_intents st)) = ds_intents st"
      "map (\<lambda>a. (cval (at_id a), a)) (map snd (ds_attempts st)) = ds_attempts st"
      "map (\<lambda>f. (fe_id f, f)) (map snd (ds_fences st)) = ds_fences st"
    by (rule table_keyed, use wf in blast)+
  have "snapshot_Decode limits (durable_new\<lparr>ds_store := ds_store st, ds_last_epoch := e\<rparr>)
      (octets (snapshot_puts st) @ r) =
    Some (s0\<lparr>ds_policy := ds_policy st, ds_has_policy := ds_has_policy st,
      ds_intent_generations := ds_intent_generations st, ds_intents := ds_intents st,
      ds_observations := ds_observations st, ds_attempts := ds_attempts st,
      ds_outcomes := ds_outcomes st, ds_fences := ds_fences st,
      ds_compactions := ds_compactions st\<rparr>, r)"
    using wf
    by (simp del: map_map add: snapshot_Decode_def snapshot_puts_def sec gens streams intents attempts fences outcomes keyed tables s0_def [symmetric])
       (simp add: s0_def durable_new_def tables)
  then show ?thesis
    by (simp add: s0_def durable_new_def)
qed

section \<open>Retention\<close>

lemma trim_front_drop: "trim_front bound xs = drop (length xs - bound) xs"
proof (induction bound xs rule: trim_front.induct)
  case (1 bound xs)
  show ?case
  proof (cases "length xs > bound")
    case True
    then have "length xs - bound = Suc (length (tl xs) - bound)" by simp
    then show ?thesis using 1 True by (simp add: trim_front.simps [of bound xs] drop_Suc)
  qed (simp add: trim_front.simps [of bound xs])
qed

lemma length_trim_front: "length (trim_front bound xs) \<le> bound"
  by (simp add: trim_front_drop)

lemma list_all_trim_front: "list_all P xs \<Longrightarrow> list_all P (trim_front bound xs)"
  by (auto simp: trim_front_drop list_all_iff dest: in_set_dropD)

abbreviation live_entry :: "u64 \<times> AttemptRecord \<Rightarrow> bool" where
  "live_entry e \<equiv> \<not> IsTerminalAttemptState (at_state (snd e))"

lemma find_first_terminal:
  assumes "wf_map m" "find P m = Some v" "f \<in> set m" "P f" "f \<noteq> v"
  shows "fst v < fst f"
  using assms
proof (induction m)
  case (Cons e m)
  then show ?case by (cases "P e") auto
qed simp

text \<open>
  Trimming keeps every live attempt, leaves at most the bound unless only live attempts remain,
  and what it drops is terminal and older than every terminal attempt it keeps.
\<close>

lemma trim_attempts_spec:
  "wf_map m \<Longrightarrow> wf_map (trim_attempts bound m) \<and> set (trim_attempts bound m) \<subseteq> set m \<and>
    (\<forall>e \<in> set m. live_entry e \<longrightarrow> e \<in> set (trim_attempts bound m)) \<and>
    (length (trim_attempts bound m) \<le> bound \<or> (\<forall>e \<in> set (trim_attempts bound m). live_entry e)) \<and>
    (\<forall>e \<in> set m - set (trim_attempts bound m). \<forall>f \<in> set (trim_attempts bound m).
       \<not> live_entry f \<longrightarrow> fst e < fst f)"
proof (induction bound m rule: trim_attempts.induct)
  case (1 bound m)
  let ?t = "\<lambda>e. IsTerminalAttemptState (at_state (snd e))"
  show ?case
  proof (cases "length m > bound")
    case big: True
    show ?thesis
    proof (cases "find ?t m")
      case None
      then have "trim_attempts bound m = m" by (simp add: trim_attempts.simps [of bound m])
      moreover have "\<forall>e \<in> set m. live_entry e" using None by (auto simp: find_None_iff)
      ultimately show ?thesis using 1(2) by simp
    next
      case (Some v)
      let ?m = "map_erase (fst v) m" and ?r = "trim_attempts bound (map_erase (fst v) m)"
      have step: "trim_attempts bound m = ?r"
        using big Some by (simp add: trim_attempts.simps [of bound m])
      have v: "v \<in> set m" "?t v"
        using Some by (auto simp: find_Some_iff)
      have IH: "wf_map ?r" "set ?r \<subseteq> set ?m" "\<forall>e \<in> set ?m. live_entry e \<longrightarrow> e \<in> set ?r"
          "length ?r \<le> bound \<or> (\<forall>e \<in> set ?r. live_entry e)"
          "\<forall>e \<in> set ?m - set ?r. \<forall>f \<in> set ?r. \<not> live_entry f \<longrightarrow> fst e < fst f"
        using 1(1) [OF big Some] wf_map_erase [OF 1(2)] by simp_all
      have "inj_on fst (set m)"
        using wf_map_distinct [OF 1(2)] by (simp add: distinct_map)
      then have mem: "set ?m = set m - {v}"
        using v(1) by (auto simp: map_erase_def dest: inj_onD)
      have "fst v < fst f" if "f \<in> set ?r" "\<not> live_entry f" for f
      proof (rule find_first_terminal [OF 1(2) Some])
        show "f \<in> set m" "f \<noteq> v" using that(1) IH(2) mem by auto
        show "?t f" using that(2) by simp
      qed
      then have old: "\<forall>e \<in> set m - set ?r. \<forall>f \<in> set ?r. \<not> live_entry f \<longrightarrow> fst e < fst f"
        using IH(5) unfolding mem by blast
      have kept: "\<forall>e \<in> set m. live_entry e \<longrightarrow> e \<in> set ?r"
        using IH(3) v(2) unfolding mem by blast
      show ?thesis
        unfolding step using IH(1,2,4) mem old kept by simp blast
    qed
  qed (use 1(2) in \<open>simp add: trim_attempts.simps [of bound m]\<close>)
qed

section \<open>Every record keeps the state well formed\<close>

lemma table_ok_set:
  "table_ok key P m \<Longrightarrow> P v \<Longrightarrow> table_ok key P (map_set (key v) v m)"
  using set_map_set [of "key v" v m] by (auto simp: table_ok_def wf_map_set)

lemma scope_lists_ok_set:
  "scope_lists_ok limits P m \<Longrightarrow> valid_id k \<Longrightarrow>
    length xs \<le> max_retained_observations_per_scope limits \<Longrightarrow> list_all P xs \<Longrightarrow>
    scope_lists_ok limits P (map_set k xs m)"
  using set_map_set [of k xs m] by (auto simp: scope_lists_ok_def wf_map_set)

lemma scope_lists_ok_lookup:
  "scope_lists_ok limits P m \<Longrightarrow> list_all P (lookup_or [] (map_find k m))"
  by (auto simp: scope_lists_ok_def lookup_or_def dest!: map_find_mem split: option.splits)

lemma map_set_twice: "map_set k v (map_set k u m) = map_set k v m"
  by (induction m) auto

lemma apply_observation_stream:
  assumes "wf_map (ds_observations st)"
  shows "apply_observation limits d st = st\<lparr>ds_observations := map_set (ob_scope d)
    (trim_front (max_retained_observations_per_scope limits)
      (lookup_or [] (map_find (ob_scope d) (ds_observations st)) @ [d])) (ds_observations st)\<rparr>"
  using assms
  by (simp add: apply_observation_def TrimObservations_def Let_def map_find_set map_set_twice)

lemma durable_wf_new: "wf_store_id i \<Longrightarrow> durable_wf limits (durable_new\<lparr>ds_store := i\<rparr>)"
  by (simp add: durable_wf_def durable_new_def scope_lists_ok_def table_ok_def)

lemma durable_wf_policy: "durable_wf limits st \<Longrightarrow> policy_stored limits p \<Longrightarrow> durable_wf limits (apply_policy p st)"
  by (simp add: durable_wf_def apply_policy_def)

lemma apply_intent_trimmed:
  "apply_intent limits d st = st\<lparr>ds_intent_generations := map_set (in_scope d)
      (trim_front (max_retained_observations_per_scope limits)
        (lookup_or [] (map_find (in_scope d) (ds_intent_generations st)) @ [in_generation d]))
      (ds_intent_generations st), ds_intents := map_set (in_scope d) d (ds_intents st)\<rparr>"
  by (simp add: apply_intent_def trim_front_drop Let_def)

lemma durable_wf_intent:
  assumes "durable_wf limits st" "intent_stored limits d"
  shows "durable_wf limits (apply_intent limits d st)"
proof -
  have "valid_id (in_scope d)" using assms(2) by (simp add: intent_stored_def intent_ok_def)
  then show ?thesis
    using assms
    by (simp add: durable_wf_def apply_intent_trimmed scope_lists_ok_set table_ok_set
        length_trim_front list_all_iff)
qed

lemma durable_wf_observation:
  assumes "durable_wf limits st" "observation_stored limits d"
  shows "durable_wf limits (apply_observation limits d st)"
proof -
  have "valid_id (ob_scope d)" using assms(2) by (simp add: observation_stored_def observation_ok_def)
  moreover have lists: "scope_lists_ok limits (observation_stored limits) (ds_observations st)"
    using assms(1) by (simp add: durable_wf_def)
  moreover have "list_all (observation_stored limits)
      (trim_front (max_retained_observations_per_scope limits)
        (lookup_or [] (map_find (ob_scope d) (ds_observations st)) @ [d]))"
    using assms(2) scope_lists_ok_lookup [OF lists] by (intro list_all_trim_front) simp
  moreover have "wf_map (ds_observations st)" using lists by (simp add: scope_lists_ok_def)
  ultimately show ?thesis
    using assms(1)
    by (simp add: durable_wf_def apply_observation_stream scope_lists_ok_set length_trim_front)
qed

lemma table_ok_trim:
  "table_ok key P m \<Longrightarrow> table_ok key P (trim_attempts bound m)"
  using trim_attempts_spec [of m bound] by (auto simp: table_ok_def)

lemma durable_wf_attempt:
  "durable_wf limits st \<Longrightarrow> attempt_stored limits a \<Longrightarrow> durable_wf limits (apply_attempt limits a st)"
  using table_ok_set [of "\<lambda>a. cval (at_id a)" "attempt_stored limits" "ds_attempts st" a]
  by (auto simp: durable_wf_def apply_attempt_def TrimAttempts_def Let_def table_ok_trim)

lemma durable_wf_outcome:
  "durable_wf limits st \<Longrightarrow> outcome_stored x \<Longrightarrow> durable_wf limits (apply_outcome limits x st)"
  by (simp add: durable_wf_def apply_outcome_def TrimOutcomes_def list_all_trim_front length_trim_front)

lemma durable_wf_fence:
  "durable_wf limits st \<Longrightarrow> fence_stored f \<Longrightarrow> durable_wf limits (apply_fence f st)"
  by (simp add: durable_wf_def apply_fence_def table_ok_set)

lemma durable_wf_fence_clear: "durable_wf limits st \<Longrightarrow> durable_wf limits (apply_fence_clear i st)"
  using wf_map_erase [of "ds_fences st" i]
  by (auto simp: durable_wf_def apply_fence_clear_def table_ok_def map_erase_def)

lemma durable_wf_epoch: "durable_wf limits st \<Longrightarrow> durable_wf limits (apply_epoch e st)"
  by (simp add: durable_wf_def apply_epoch_def)

end
