(* ===== verification/Durability.thy ===== *)
theory Durability
  imports Store
begin

text \<open>
  The durable store implements its log: at every moment the state in memory is the one that a
  fresh \<open>Open\<close> of the files on disk would compute. The invariant \<open>store_inv\<close> says so with the
  snapshot and the records on disk; every mutation keeps it. A mutation that fails half-way, or a
  crash anywhere in its write, leaves files that reopen to the state before or after it.
\<close>

section \<open>Replay\<close>

lemma apply_attempt_sequence:
  "apply_attempt limits a (st\<lparr>ds_sequence := q\<rparr>) = (apply_attempt limits a st)\<lparr>ds_sequence := q\<rparr>"
  by (cases st) (auto simp: apply_attempt_def TrimAttempts_def Let_def)

lemma apply_sequence:
  "apply_policy p (st\<lparr>ds_sequence := q\<rparr>) = (apply_policy p st)\<lparr>ds_sequence := q\<rparr>"
  "apply_intent limits d (st\<lparr>ds_sequence := q\<rparr>) = (apply_intent limits d st)\<lparr>ds_sequence := q\<rparr>"
  "apply_observation limits ob (st\<lparr>ds_sequence := q\<rparr>) = (apply_observation limits ob st)\<lparr>ds_sequence := q\<rparr>"
  "apply_outcome limits x (st\<lparr>ds_sequence := q\<rparr>) = (apply_outcome limits x st)\<lparr>ds_sequence := q\<rparr>"
  "apply_fence f (st\<lparr>ds_sequence := q\<rparr>) = (apply_fence f st)\<lparr>ds_sequence := q\<rparr>"
  "apply_fence_clear i (st\<lparr>ds_sequence := q\<rparr>) = (apply_fence_clear i st)\<lparr>ds_sequence := q\<rparr>"
  "apply_epoch e (st\<lparr>ds_sequence := q\<rparr>) = (apply_epoch e st)\<lparr>ds_sequence := q\<rparr>"
  by (simp_all add: apply_policy_def apply_intent_def apply_observation_def TrimObservations_def
      apply_outcome_def TrimOutcomes_def apply_fence_def
      apply_fence_clear_def apply_epoch_def Let_def split: option.split)

text \<open>No record reads or writes the sequence.\<close>

lemma ApplyPayload_sequence:
  "ApplyPayload limits ty payload (st\<lparr>ds_sequence := q\<rparr>) =
    (fst (ApplyPayload limits ty payload st), (snd (ApplyPayload limits ty payload st))\<lparr>ds_sequence := q\<rparr>)"
  by (cases ty) (simp_all add: apply_decoded_def apply_sequence apply_attempt_sequence split: option.split)

lemma ApplyPayload_sequence_kept:
  "ds_sequence (snd (ApplyPayload limits ty payload st)) = ds_sequence st"
proof -
  have "snd (ApplyPayload limits ty payload st) =
      (snd (ApplyPayload limits ty payload st))\<lparr>ds_sequence := ds_sequence st\<rparr>"
    using ApplyPayload_sequence [where st = st and q = "ds_sequence st"] by (simp add: prod_eq_iff)
  from arg_cong [OF this, of ds_sequence] show ?thesis by simp
qed

lemma apply_store:
  "ds_store (snd (ApplyPayload limits ty payload st)) = ds_store st"
  by (cases ty) (simp_all add: apply_decoded_def apply_policy_def apply_intent_def apply_observation_def
      TrimObservations_def apply_attempt_def TrimAttempts_def apply_outcome_def TrimOutcomes_def
      apply_fence_def apply_fence_clear_def apply_epoch_def Let_def split: option.split)

lemma replay_snoc:
  assumes "replay limits w rs sk rp st = (Status_Ok, sk', rp', st')" "\<not> jrec_sequence r \<le> w"
    "ApplyRecord limits r st' = (Status_Ok, st'')"
  shows "replay limits w (rs @ [r]) sk rp st = (Status_Ok, sk', rp' + 1, st'')"
  using assms by (induction limits w rs sk rp st rule: replay.induct)
    (auto simp: Let_def split: prod.splits if_splits)

lemma replay_snoc_refused:
  assumes "replay limits w rs sk rp st = (Status_Ok, sk', rp', st')" "\<not> jrec_sequence r \<le> w"
    "ApplyRecord limits r st' = (s, st'')" "\<not> status_ok s"
  shows "replay limits w (rs @ [r]) sk rp st = (s, sk', rp', st'')"
  using assms by (induction limits w rs sk rp st rule: replay.induct)
    (auto simp: Let_def split: prod.splits if_splits)

lemma replay_below:
  "\<forall>r \<in> set rs. jrec_sequence r \<le> w \<Longrightarrow> replay limits w rs sk rp st = (Status_Ok, sk + length rs, rp, st)"
  by (induction rs arbitrary: sk) simp_all

text \<open>The state that the files hold: \<open>q\<close> is the last sequence of the journal.\<close>

definition recovers ::
    "RuntimeLimits \<Rightarrow> StoreId \<Rightarrow> RecordSequence \<Rightarrow> (SnapshotHeader \<times> bytes) option \<Rightarrow> JournalRecord list \<Rightarrow>
     DurableState \<Rightarrow> bool" where
  "recovers limits store q snap rs st \<longleftrightarrow>
     (\<exists>st0 st1 skipped replayed. load_snapshot limits store q snap = Inr st0 \<and>
        replay limits (snapshot_watermark snap) rs 0 0 st0 = (Status_Ok, skipped, replayed, st1) \<and>
        st = st1\<lparr>ds_sequence := q\<rparr>)"

lemma load_snapshot_mono:
  "load_snapshot limits store q snap = Inr st \<Longrightarrow> q \<le> q' \<Longrightarrow> load_snapshot limits store q' snap = Inr st"
  by (auto simp: load_snapshot_def split: option.splits if_splits)

lemma load_snapshot_watermark:
  "load_snapshot limits store q snap = Inr st \<Longrightarrow> snapshot_watermark snap \<le> q"
  by (auto simp: load_snapshot_def snapshot_watermark_def less_eq_counter_def less_counter_def
      split: option.splits if_splits)

lemma counter_succ:
  assumes "cval q \<noteq> - 1"
  shows "q < Counter (cval q + 1)"
proof -
  have "1 + cval q \<noteq> 0" using assms by (metis add.commute add_eq_0_iff)
  then have "cval q < 1 + cval q" by (simp add: word_less_nat_alt unatSuc)
  then show ?thesis by (simp add: less_counter_def add.commute)
qed

lemma recovers_snoc:
  assumes rec: "recovers limits store q snap rs st"
    and r: "jrec_sequence r = Counter (cval q + 1)" "cval q \<noteq> - 1"
    and app: "ApplyRecord limits r st = (Status_Ok, st')"
  shows "recovers limits store (jrec_sequence r) snap (rs @ [r]) (st'\<lparr>ds_sequence := jrec_sequence r\<rparr>)"
proof -
  obtain st0 st1 sk rp where load: "load_snapshot limits store q snap = Inr st0"
    and rep: "replay limits (snapshot_watermark snap) rs 0 0 st0 = (Status_Ok, sk, rp, st1)"
    and st: "st = st1\<lparr>ds_sequence := q\<rparr>"
    using rec by (auto simp: recovers_def)
  have lt: "q < jrec_sequence r" using counter_succ [OF r(2)] r(1) by simp
  then have "\<not> jrec_sequence r \<le> snapshot_watermark snap"
    using load_snapshot_watermark [OF load] by simp
  moreover obtain st2 where "ApplyRecord limits r st1 = (Status_Ok, st2)" "st' = st2\<lparr>ds_sequence := q\<rparr>"
    using app ApplyPayload_sequence [where limits = limits and ty = "jrec_type r" and payload = "jrec_payload r" and st = st1 and q = q]
    by (auto simp: ApplyRecord_def st prod_eq_iff)
  ultimately have "replay limits (snapshot_watermark snap) (rs @ [r]) 0 0 st0 = (Status_Ok, sk, rp + 1, st2)"
    using replay_snoc [OF rep] by simp
  then show ?thesis
    using load_snapshot_mono [OF load order.strict_implies_order [OF lt]] \<open>st' = _\<close>
    unfolding recovers_def by fastforce
qed

section \<open>The invariant\<close>

definition published :: "RuntimeLimits \<Rightarrow> SnapshotFiles \<Rightarrow> (SnapshotHeader \<times> bytes) option \<Rightarrow> bool" where
  "published limits files snap \<longleftrightarrow>
     (case snap of
        None \<Rightarrow> sf_snapshot files = None
      | Some (header, payload) \<Rightarrow> sf_snapshot files = Some (BuildSnapshotImage header payload) \<and>
          snapshot_header_ok header payload \<and> length payload \<le> max_journal_bytes limits)"

definition store_inv ::
    "DurableStore \<Rightarrow> (SnapshotHeader \<times> bytes) option \<Rightarrow> RecordSequence \<Rightarrow> JournalRecord list \<Rightarrow> bool" where
  "store_inv s snap base rs \<longleftrightarrow> limits_ok (st_limits s) \<and> \<not> st_read_only s \<and>
     j_limits (st_journal s) = st_limits s \<and>
     journal_holds (st_limits s) (ds_store (st_state s)) base rs (file_bytes (st_journal s)) \<and>
     j_last_sequence (st_journal s) = last_of base rs \<and>
     (\<forall>r \<in> set rs. jrec_sequence r \<le> last_of base rs) \<and>
     published (st_limits s) (st_files s) snap \<and>
     recovers (st_limits s) (ds_store (st_state s)) (last_of base rs) snap rs (st_state s)"

lemma store_inv_sequence: "store_inv s snap base rs \<Longrightarrow> ds_sequence (st_state s) = last_of base rs"
  by (auto simp: store_inv_def recovers_def)

text \<open>
  The directory that a crash leaves: the snapshot file, any staging file, the journal bytes. The
  operating system has released the lock, and the next open meets no fault.
\<close>

definition crash_disk :: "SnapshotFiles \<Rightarrow> bytes \<Rightarrow> StoreDisk" where
  "crash_disk files content =
     \<lparr>dk_directory = Directory_Present, dk_create_fails = False, dk_lock_held = False,
      dk_files = files\<lparr>sf_faults := []\<rparr>, dk_journal = Some content, dk_journal_faults = []\<rparr>"

lemma Store_reopen:
  assumes holds: "journal_holds limits store base rs content" and torn: "torn_part limits t"
    and lim: "limits_ok limits" "length (content @ t) \<le> max_journal_bytes limits"
    and below: "\<forall>r \<in> set rs. jrec_sequence r \<le> last_of base rs"
    and pub: "published limits files snap"
    and rec: "recovers limits store (last_of base rs) snap rs st" and sto: "ds_store st = store"
  shows "\<exists>report s'. Store_Open limits create False gen clock clock' (crash_disk files (content @ t)) =
      (Status_Ok, report, s') \<and> st_state s' = st \<and> store_inv s' snap base rs \<and>
      sr_recovered_bytes report = length t \<and> j_faults (st_journal s') = [] \<and>
      \<not> j_write_failed (st_journal s') \<and> j_open (st_journal s') \<and>
      file_bytes (st_journal s') = content \<and> st_limits s' = limits"
proof -
  let ?o = "\<lparr>jo_limits = limits, jo_create_if_missing = create \<and> \<not> False, jo_read_only = False\<rparr>"
  let ?files = "files\<lparr>sf_faults := [], sf_staging := None\<rparr>"
  obtain report j where J: "Journal_Open ?o gen clock clock' (Some (content @ t)) [] = (Status_Ok, rs, report, j)"
      "file_bytes j = content" "j_last_sequence j = last_of base rs" "j_limits j = limits"
      "j_open j" "\<not> j_read_only j" "\<not> j_write_failed j" "j_faults j = []"
      "jh_store (jr_header report) = store" "jr_last_sequence report = last_of base rs"
      "jr_recovered_bytes report = length t"
    using Journal_reopen [of ?o store base rs content t gen clock clock'] holds torn lim by auto
  have read: "ReadSnapshot limits ?files = (if snap = None then (Status Code_NotFound Reason_None, None, ?files)
      else (Status_Ok, snap, ?files))"
    using pub ReadSnapshot_absent [of ?files] ReadSnapshot_published [of ?files]
    by (cases snap) (auto simp: published_def)
  obtain st0 st1 sk rp where L: "load_snapshot limits store (last_of base rs) snap = Inr st0"
      "replay limits (snapshot_watermark snap) rs 0 0 st0 = (Status_Ok, sk, rp, st1)"
      "st = st1\<lparr>ds_sequence := last_of base rs\<rparr>"
    using rec by (auto simp: recovers_def)
  have pub': "published limits ?files snap"
    using pub by (auto simp: published_def split: option.splits)
  show ?thesis
    using J L read holds lim(1) rec sto pub' below
    by (cases snap) (simp_all add: Store_Open_def open_locked_def crash_disk_def RemoveStagingFile_def
        remove_staging_def Let_def store_inv_def snapshot_fault_def)
qed

section \<open>Appending\<close>

lemma journal_holds_snoc:
  assumes "journal_holds limits store base rs content" "last_of base rs = j_last_sequence j"
    "record_ok limits (next_record j ty payload)"
  shows "journal_holds limits store base (rs @ [next_record j ty payload])
    (content @ rec_image (next_record j ty payload))"
proof -
  have cont: "contiguous (Counter (cval base + 1)) rs"
    using assms(1) by (auto simp: journal_holds_def)
  then have "jrec_sequence (next_record j ty payload) = Counter (cval base + 1 + of_nat (length rs))"
    using assms(2) last_of_contiguous [OF cont] by (simp add: next_record_def algebra_simps flip: assms(2))
  then show ?thesis
    using assms(1,3) by (auto simp: journal_holds_def log_bytes_def contiguous_append)
qed

lemma last_of_snoc: "last_of base (rs @ [r]) = jrec_sequence r"
  by (simp add: last_of_def)

text \<open>What one more record does to the files and to the state they hold.\<close>

lemma durable_extend:
  assumes inv: "store_inv s snap base rs" and ty: "ty \<noteq> Rec_Invalid"
    and last: "cval (last_of base rs) \<noteq> - 1"
    and size: "length payload \<le> max_journal_payload_bytes (st_limits s)"
    and app: "ApplyPayload (st_limits s) ty payload (st_state s) = (Status_Ok, new)"
  defines "r \<equiv> next_record (st_journal s) ty payload"
  shows "journal_holds (st_limits s) (ds_store (st_state s)) base (rs @ [r])
      (file_bytes (st_journal s) @ rec_image r)"
    "recovers (st_limits s) (ds_store (st_state s)) (last_of base (rs @ [r])) snap (rs @ [r])
      (new\<lparr>ds_sequence := jrec_sequence r\<rparr>)"
    "\<forall>x \<in> set (rs @ [r]). jrec_sequence x \<le> last_of base (rs @ [r])"
    "ds_store new = ds_store (st_state s)"
proof -
  have j: "j_last_sequence (st_journal s) = last_of base rs"
    using inv by (simp add: store_inv_def)
  have seq: "jrec_sequence r = Counter (cval (last_of base rs) + 1)"
    by (simp add: r_def next_record_def j)
  have lt: "last_of base rs < jrec_sequence r"
    using counter_succ [OF last] by (simp add: seq)
  show "journal_holds (st_limits s) (ds_store (st_state s)) base (rs @ [r])
      (file_bytes (st_journal s) @ rec_image r)"
    unfolding r_def
    using inv next_record_ok [OF ty size] by (intro journal_holds_snoc) (simp_all add: store_inv_def)
  have "ApplyRecord (st_limits s) r (st_state s) = (Status_Ok, new)"
    using app by (simp add: ApplyRecord_def r_def next_record_def)
  then show "recovers (st_limits s) (ds_store (st_state s)) (last_of base (rs @ [r])) snap (rs @ [r])
      (new\<lparr>ds_sequence := jrec_sequence r\<rparr>)"
    unfolding last_of_snoc using inv by (intro recovers_snoc [OF _ seq last]) (simp_all add: store_inv_def)
  show "\<forall>x \<in> set (rs @ [r]). jrec_sequence x \<le> last_of base (rs @ [r])"
    using inv lt by (auto simp: store_inv_def last_of_snoc)
  show "ds_store new = ds_store (st_state s)"
    using apply_store [of "st_limits s" ty payload "st_state s"] app by simp
qed

lemma AppendAndApply_inv:
  assumes inv: "store_inv s snap base rs" and ty: "ty \<noteq> Rec_Invalid"
    and last: "cval (last_of base rs) \<noteq> - 1"
    and run: "AppendAndApply ty payload s = (status, s')" and ok: "status_ok status"
  defines "r \<equiv> next_record (st_journal s) ty payload"
  shows "store_inv s' snap base (rs @ [r])" "st_limits s' = st_limits s"
    "ApplyPayload (st_limits s) ty payload (st_state s) = (Status_Ok, new) \<Longrightarrow>
      st_state s' = new\<lparr>ds_sequence := jrec_sequence r\<rparr>"
proof -
  obtain a j where app: "Append ty payload (st_journal s) = (a, j)" by force
  obtain b new' where ap: "ApplyPayload (st_limits s) ty payload (st_state s) = (b, new')" by force
  note eff = Append_effect [OF app]
  have a: "status_ok a"
    using run ok app by (auto simp: AppendAndApply_def Let_def split: if_splits)
  have q: "j_last_sequence j = jrec_sequence r" using eff(2) [OF a] by (simp add: r_def)
  have s': "status = b" "s' = s\<lparr>st_journal := j, st_state := new'\<lparr>ds_sequence := jrec_sequence r\<rparr>\<rparr>"
    using run app a ap q ApplyPayload_sequence [where st = "st_state s"]
    by (auto simp: AppendAndApply_def Let_def)
  have b: "b = Status_Ok"
    using ok ap s'(1) by (cases ty) (auto simp: apply_decoded_def split: option.splits)
  have size: "length payload \<le> max_journal_payload_bytes (st_limits s)"
    using eff(7) [OF a] inv by (simp add: store_inv_def)
  note ext = durable_extend [OF inv ty last size ap [unfolded b], folded r_def]
  have "file_bytes j = file_bytes (st_journal s) @ rec_image r"
    using eff(1) a by (auto simp: r_def)
  then show "store_inv s' snap base (rs @ [r])"
    using inv ext eff(4) q by (simp add: store_inv_def s'(2) last_of_snoc)
  show "st_limits s' = st_limits s" by (simp add: s'(2))
  show "st_state s' = new\<lparr>ds_sequence := jrec_sequence r\<rparr>"
    if "ApplyPayload (st_limits s) ty payload (st_state s) = (Status_Ok, new)"
    using that ap by (simp add: s'(2))
qed

text \<open>
  A crash while a record is written, at any byte: the files reopen to the state before the
  mutation, or to the state after it when the whole record was written.
\<close>

lemma crash_in_append:
  assumes inv: "store_inv s snap base rs" and ty: "ty \<noteq> Rec_Invalid"
    and last: "cval (last_of base rs) \<noteq> - 1"
    and size: "length payload \<le> max_journal_payload_bytes (st_limits s)"
      "length (file_bytes (st_journal s)) + length (rec_image (next_record (st_journal s) ty payload))
        \<le> max_journal_bytes (st_limits s)"
    and app: "ApplyPayload (st_limits s) ty payload (st_state s) = (Status_Ok, new)"
    and cut: "prefix p (rec_image (next_record (st_journal s) ty payload))"
  defines "r \<equiv> next_record (st_journal s) ty payload"
  shows "\<exists>report s'. Store_Open (st_limits s) create False gen clock clock'
      (crash_disk (st_files s) (file_bytes (st_journal s) @ p)) = (Status_Ok, report, s') \<and>
      st_limits s' = st_limits s \<and>
      (if p = rec_image r
       then st_state s' = new\<lparr>ds_sequence := jrec_sequence r\<rparr> \<and> store_inv s' snap base (rs @ [r])
       else st_state s' = st_state s \<and> store_inv s' snap base rs)"
proof (cases "p = rec_image r")
  case True
  note ext = durable_extend [OF inv ty last size(1) app, folded r_def]
  have "torn_part (st_limits s) []" by (simp add: torn_part_def)
  from Store_reopen [OF ext(1) this _ _ ext(3) _ ext(2), of "st_files s" create gen clock clock']
  show ?thesis
    using True inv size(2) ext(4) by (auto simp: store_inv_def r_def)
next
  case False
  have torn: "torn_part (st_limits s) p"
    using cut False next_record_ok [OF ty size(1)] by (auto simp: torn_part_def r_def)
  have "length p \<le> length (rec_image r)"
    using prefix_length_le [OF cut] by (simp add: r_def)
  then show ?thesis
    using False inv size(2) Store_reopen [of "st_limits s" "ds_store (st_state s)" base rs
        "file_bytes (st_journal s)" p "st_files s" snap "st_state s" create gen clock clock'] torn
    by (auto simp: store_inv_def r_def)
qed

section \<open>The contract of a durable mutation\<close>

text \<open>
  Every mutation of the store appends one record whose payload is an encoding of its argument.
  The laws a record type promises: a valid argument has a non-empty encoding that replays to the
  mutation's effect, which keeps the state well formed.
\<close>

locale journalled =
  fixes limits :: RuntimeLimits
    and ty :: RecordType
    and encode :: "'a \<Rightarrow> bytes"
    and valid :: "'a \<Rightarrow> bool"
    and effect :: "'a \<Rightarrow> DurableState \<Rightarrow> DurableState"
  assumes real_type: "ty \<noteq> Rec_Invalid"
    and encoded: "valid x \<Longrightarrow> encode x \<noteq> []"
    and applies: "valid x \<Longrightarrow> ApplyPayload limits ty (encode x) st = (Status_Ok, effect x st)"
    and keeps: "valid x \<Longrightarrow> durable_wf limits st \<Longrightarrow> durable_wf limits (effect x st)"
begin

lemma acknowledged:
  assumes "store_inv s snap base rs" "st_limits s = limits" "valid x"
    "cval (last_of base rs) \<noteq> - 1" "durable_put ty (encode x) s = (status, s')" "status_ok status"
  shows "\<exists>rs'. store_inv s' snap base rs' \<and> st_limits s' = limits \<and>
    st_state s' = (effect x (st_state s))\<lparr>ds_sequence := last_of base rs'\<rparr>"
proof -
  have run: "AppendAndApply ty (encode x) s = (status, s')"
    using assms(1,3,5) encoded by (simp add: durable_put_def store_inv_def)
  note inv = AppendAndApply_inv [OF assms(1) real_type assms(4) run assms(6)]
  show ?thesis
    using inv(1,2) inv(3) [of "effect x (st_state s)"] applies [OF assms(3)] assms(2)
    by (auto simp: last_of_snoc)
qed

lemma refused_or_torn:
  assumes "store_inv s snap base rs" "st_limits s = limits" "valid x"
    "durable_put ty (encode x) s = (status, s')" "\<not> status_ok status"
  shows "st_state s' = st_state s" "st_files s' = st_files s" "st_limits s' = limits"
    "\<exists>p. prefix p (rec_image (next_record (st_journal s) ty (encode x))) \<and>
      file_bytes (st_journal s') = file_bytes (st_journal s) @ p"
proof -
  have run: "AppendAndApply ty (encode x) s = (status, s')"
    using assms(1,3,4) encoded by (simp add: durable_put_def store_inv_def)
  obtain a j where app: "Append ty (encode x) (st_journal s) = (a, j)" by force
  have "\<not> status_ok a"
    using run app assms(2,3,5) applies by (auto simp: AppendAndApply_def Let_def split: if_splits)
  then have "s' = s\<lparr>st_journal := j\<rparr>"
    using run app by (simp add: AppendAndApply_def Let_def)
  then show "st_state s' = st_state s" "st_files s' = st_files s" "st_limits s' = limits"
    "\<exists>p. prefix p (rec_image (next_record (st_journal s) ty (encode x))) \<and>
      file_bytes (st_journal s') = file_bytes (st_journal s) @ p"
    using Append_effect(1) [OF app] assms(2) by auto
qed

lemma crash:
  assumes "store_inv s snap base rs" "st_limits s = limits" "valid x" "cval (last_of base rs) \<noteq> - 1"
    "length (encode x) \<le> max_journal_payload_bytes limits"
    "length (file_bytes (st_journal s)) + kRecordHeaderBytes + length (encode x) \<le> max_journal_bytes limits"
    "prefix p (rec_image (next_record (st_journal s) ty (encode x)))"
  shows "\<exists>report s' rs'. Store_Open limits create False gen clock clock'
      (crash_disk (st_files s) (file_bytes (st_journal s) @ p)) = (Status_Ok, report, s') \<and>
      store_inv s' snap base rs' \<and> st_limits s' = limits \<and>
      st_state s' = (if p = rec_image (next_record (st_journal s) ty (encode x))
        then (effect x (st_state s))\<lparr>ds_sequence := last_of base rs'\<rparr> else st_state s)"
proof -
  have size: "length (file_bytes (st_journal s)) + length (rec_image (next_record (st_journal s) ty (encode x)))
      \<le> max_journal_bytes (st_limits s)"
    using assms(2,6) by (simp add: rec_image_def next_record_def)
  let ?r = "next_record (st_journal s) ty (encode x)"
  obtain report s' where opened: "Store_Open limits create False gen clock clock'
      (crash_disk (st_files s) (file_bytes (st_journal s) @ p)) = (Status_Ok, report, s')"
    and lim: "st_limits s' = limits"
    and res: "if p = rec_image ?r
       then st_state s' = (effect x (st_state s))\<lparr>ds_sequence := jrec_sequence ?r\<rparr> \<and> store_inv s' snap base (rs @ [?r])
       else st_state s' = st_state s \<and> store_inv s' snap base rs"
    using crash_in_append [OF assms(1) real_type assms(4), unfolded assms(2),
      OF assms(5) size [unfolded assms(2)] applies [OF assms(3)] assms(7), of create gen clock clock']
    by blast
  show ?thesis
  proof (cases "p = rec_image ?r")
    case True
    then have "store_inv s' snap base (rs @ [?r])"
      "st_state s' = (effect x (st_state s))\<lparr>ds_sequence := last_of base (rs @ [?r])\<rparr>"
      using res by (simp_all add: last_of_snoc)
    then show ?thesis using opened lim True by auto
  next
    case False
    then show ?thesis using opened lim res by auto
  qed
qed

end

lemma apply_decoded_Some [simp]: "apply_decoded (Some x) f st = (Status_Ok, f x st)"
  by (simp add: apply_decoded_def)

lemma octets_nonempty:
  "octets (fence_puts f) \<noteq> []" "octets (outcome_puts x) \<noteq> []" "octets (attempt_puts a) \<noteq> []"
  "octets (intent_puts d) \<noteq> []" "octets (observation_puts ob) \<noteq> []" "octets (policy_puts p) \<noteq> []"
  by (simp_all add: fence_puts_def outcome_puts_def attempt_puts_def intent_puts_def
      intent_content_puts_def observation_puts_def observation_content_puts_def policy_puts_def
      policy_content_puts_def flip: length_0_conv)

interpretation policy_record: journalled limits Rec_PolicyPut EncodePolicy "policy_stored limits" apply_policy
  for limits
  by unfold_locales
    (auto simp: policy_stored_def EncodePolicy_def DecodePolicyExact_def policy_codec.decode_exact decode_exactly_def AtEnd_def fits_buffer
      octets_nonempty durable_wf_policy)

interpretation intent_record:
  journalled limits Rec_IntentCommit EncodeIntent "intent_stored limits" "apply_intent limits" for limits
  by unfold_locales
    (auto simp: intent_stored_def EncodeIntent_def DecodeIntentExact_def intent_codec.decode_exact decode_exactly_def AtEnd_def fits_buffer
      octets_nonempty durable_wf_intent)

interpretation observation_record:
  journalled limits Rec_ObservationCommit EncodeObservation "observation_stored limits"
    "apply_observation limits" for limits
  by unfold_locales
    (auto simp: observation_stored_def EncodeObservation_def DecodeObservationExact_def
      observation_codec.decode_exact decode_exactly_def AtEnd_def fits_buffer octets_nonempty durable_wf_observation)

interpretation issue_record:
  journalled limits Rec_AttemptIssued EncodeAttemptRecord "attempt_stored limits" "apply_attempt limits"
  for limits
  by unfold_locales
    (auto simp: attempt_stored_def EncodeAttemptRecord_def attempt_codec.decode_exact decode_exactly_def AtEnd_def fits_buffer
      octets_nonempty durable_wf_attempt)

interpretation transition_record:
  journalled limits Rec_AttemptTransition EncodeAttemptRecord "attempt_stored limits" "apply_attempt limits"
  for limits
  by unfold_locales
    (auto simp: attempt_stored_def EncodeAttemptRecord_def attempt_codec.decode_exact decode_exactly_def AtEnd_def fits_buffer
      octets_nonempty durable_wf_attempt)

interpretation outcome_record:
  journalled limits Rec_OutcomeCommit EncodeOutcome outcome_stored "apply_outcome limits" for limits
  by unfold_locales
    (auto simp: outcome_stored_def EncodeOutcome_def outcome_codec.decode_exact decode_exactly_def AtEnd_def fits_buffer
      octets_nonempty durable_wf_outcome)

interpretation fence_record: journalled limits Rec_FencePut EncodeFence fence_stored apply_fence for limits
  by unfold_locales
    (auto simp: fence_stored_def EncodeFence_def fence_codec.decode_exact decode_exactly_def AtEnd_def fits_buffer
      octets_nonempty durable_wf_fence)

lemma fence_id_fits: "valid_id i \<Longrightarrow> fits [PutText (str i)]"
  using valid_id_length [of i] by (simp add: fits_def kMaxIdentityLength_def kMaxCanonicalBytes_def)

interpretation fence_clear_record:
  journalled limits Rec_FenceClear "\<lambda>i. puts_buffer [PutText (str i)]" valid_id apply_fence_clear for limits
proof unfold_locales
  fix x :: FenceId and st
  assume ok: "valid_id x"
  show "ApplyPayload limits Rec_FenceClear (puts_buffer [PutText (str x)]) st = (Status_Ok, apply_fence_clear x st)"
    using ReadText_put [of "str x" "[]"] ok
    by (simp add: decode_exactly_def DecodeFenceClear_def fits_buffer fence_id_fits AtEnd_def)
  show "puts_buffer [PutText (str x)] \<noteq> []"
    using fence_id_fits [OF ok] by (simp add: fits_buffer flip: length_0_conv)
qed (simp_all add: durable_wf_fence_clear)

interpretation epoch_record:
  journalled limits Rec_EpochAdvance "\<lambda>e :: CoordinatorEpoch. puts_buffer [PutU64 (cval e)]" "\<lambda>_. True"
    "\<lambda>e. apply_epoch (cval e)"
  for limits
proof unfold_locales
  fix x :: CoordinatorEpoch and st
  have fit: "fits [PutU64 (cval x)]" by (simp add: fits_def kMaxCanonicalBytes_def)
  show "ApplyPayload limits Rec_EpochAdvance (puts_buffer [PutU64 (cval x)]) st =
      (Status_Ok, apply_epoch (cval x) st)"
    using ReadU64_put [of "cval x" "[]"] by (simp add: decode_exactly_def fits_buffer [OF fit] AtEnd_def)
  show "puts_buffer [PutU64 (cval x)] \<noteq> []"
    using fit by (simp add: fits_buffer flip: length_0_conv)
qed (simp_all add: durable_wf_epoch)

section \<open>Compaction\<close>

text \<open>The state a compaction publishes, and the snapshot it writes.\<close>

definition compacted :: "DurableState \<Rightarrow> DurableState" where
  "compacted st = st\<lparr>ds_compactions := ds_compactions st + 1\<rparr>"

definition compact_snapshot :: "UnixMillis \<Rightarrow> DurableState \<Rightarrow> SnapshotHeader \<times> bytes" where
  "compact_snapshot clock st =
     (let payload = EncodeSnapshotPayload (compacted st)
      in (snapshot_header (compacted st) clock payload, payload))"

lemma compacted_wf: "durable_wf limits st \<Longrightarrow> durable_wf limits (compacted st)"
  "durable_capped limits st \<Longrightarrow> durable_capped limits (compacted st)"
  by (simp_all add: durable_wf_def durable_capped_def compacted_def)

lemma compacted_sequence: "compacted (st\<lparr>ds_sequence := q\<rparr>) = (compacted st)\<lparr>ds_sequence := q\<rparr>"
  by (simp add: compacted_def)

lemma compacted_store [simp]: "ds_store (compacted st) = ds_store st"
  by (simp add: compacted_def)

lemma snapshot_header_ok_compact:
  assumes "wf_store_id (ds_store st)"
  shows "snapshot_header_ok (fst (compact_snapshot clock st)) (snd (compact_snapshot clock st))"
proof -
  have "length (EncodeSnapshotPayload (compacted st)) \<le> kMaxCanonicalBytes"
    by (simp add: EncodeSnapshotPayload_def puts_buffer_octets)
  then show ?thesis
    using assms by (simp add: compact_snapshot_def Let_def snapshot_header_ok_def snapshot_header_def
        compacted_def kMaxCanonicalBytes_def)
qed

lemma load_compact_snapshot:
  assumes "durable_wf limits st" "durable_capped limits st" "EncodeSnapshotPayload (compacted st) \<noteq> []"
  shows "load_snapshot limits (ds_store st) (ds_sequence st) (Some (compact_snapshot clock st)) =
    Inr ((compacted st)\<lparr>ds_sequence := Counter 0\<rparr>)"
proof -
  have "fits (snapshot_puts (compacted st))"
    using assms(3) buffer_nonempty_fits by (simp add: EncodeSnapshotPayload_def)
  then have "EncodeSnapshotPayload (compacted st) = octets (snapshot_puts (compacted st))"
    by (simp add: EncodeSnapshotPayload_def fits_buffer)
  then have "ApplySnapshotPayload limits (EncodeSnapshotPayload (compacted st))
      (durable_new\<lparr>ds_store := ds_store st, ds_last_epoch := ds_last_epoch st\<rparr>) =
      Some ((compacted st)\<lparr>ds_sequence := Counter 0\<rparr>)"
    using snapshot_decode_encode [OF compacted_wf(1) [OF assms(1)] compacted_wf(2) [OF assms(2)],
        of "ds_last_epoch st" "[]"]
    by (simp add: ApplySnapshotPayload_def decode_exactly_def AtEnd_def compacted_def)
  then show ?thesis
    by (simp add: load_snapshot_def compact_snapshot_def Let_def snapshot_header_def compacted_def)
qed

text \<open>
  Published but not yet reset: the new snapshot beside the old journal, every record of which
  lies at or below the watermark, reopens to the same state.
\<close>

lemma recovers_published:
  assumes "store_inv s snap base rs" "durable_wf (st_limits s) (st_state s)"
    "durable_capped (st_limits s) (st_state s)" "EncodeSnapshotPayload (compacted (st_state s)) \<noteq> []"
    "rs' = rs \<or> rs' = []"
  shows "recovers (st_limits s) (ds_store (st_state s)) (last_of base rs)
    (Some (compact_snapshot clock (st_state s))) rs' (compacted (st_state s))"
proof -
  have q: "ds_sequence (st_state s) = last_of base rs"
    using store_inv_sequence [OF assms(1)] .
  have "snapshot_watermark (Some (compact_snapshot clock (st_state s))) = last_of base rs"
    by (simp add: snapshot_watermark_def compact_snapshot_def Let_def snapshot_header_def compacted_def q)
  moreover have "\<forall>r \<in> set rs'. jrec_sequence r \<le> last_of base rs"
    using assms(1,5) by (auto simp: store_inv_def)
  moreover have "compacted (st_state s) = (compacted (st_state s))\<lparr>ds_sequence := last_of base rs\<rparr>"
    using q by (simp add: compacted_def)
  ultimately show ?thesis
    using load_compact_snapshot [OF assms(2-4), of clock] unfolding recovers_def q
    by (fastforce simp: replay_below)
qed

lemma Compact_steps:
  assumes "Compact clock clock' clock'' s = (status, s')" "\<not> st_read_only s"
    "EncodeSnapshotPayload (compacted (st_state s)) \<noteq> []"
  obtains written files where
    "WriteSnapshotAtomic (fst (compact_snapshot clock (st_state s))) (snd (compact_snapshot clock (st_state s)))
      (st_files s) = (written, files)"
    "\<not> status_ok written \<Longrightarrow> status = written \<and> s' = s\<lparr>st_files := files\<rparr>"
    "\<And>reset report j. status_ok written \<Longrightarrow>
      Reset (ds_store (st_state s)) clock' clock'' (st_journal s) = (reset, report, j) \<Longrightarrow>
      (if status_ok reset
       then status = Status_Ok \<and> s' = s\<lparr>st_files := files, st_journal := j,
              st_state := (compacted (st_state s))\<lparr>ds_sequence := j_last_sequence j\<rparr>\<rparr>
       else status = reset \<and> s' = s\<lparr>st_files := files, st_journal := j\<rparr>)"
proof -
  obtain written files where w: "WriteSnapshotAtomic (fst (compact_snapshot clock (st_state s)))
      (snd (compact_snapshot clock (st_state s))) (st_files s) = (written, files)" by force
  note unfolded = assms(1) [unfolded Compact_def, folded compacted_def] w [unfolded compact_snapshot_def Let_def]
  have bad: "status = written \<and> s' = s\<lparr>st_files := files\<rparr>" if "\<not> status_ok written"
    using unfolded assms(2,3) that by (simp add: Let_def)
  have good: "if status_ok reset
       then status = Status_Ok \<and> s' = s\<lparr>st_files := files, st_journal := j,
              st_state := (compacted (st_state s))\<lparr>ds_sequence := j_last_sequence j\<rparr>\<rparr>
       else status = reset \<and> s' = s\<lparr>st_files := files, st_journal := j\<rparr>"
    if "status_ok written" "Reset (ds_store (st_state s)) clock' clock'' (st_journal s) = (reset, report, j)"
    for reset report j
    using unfolded assms(2,3) that by (auto simp: Let_def compacted_def)
  show ?thesis by (rule that [OF w bad good])
qed

lemma Compact_inv:
  assumes inv: "store_inv s snap base rs" and wf: "durable_wf (st_limits s) (st_state s)"
    and cap: "durable_capped (st_limits s) (st_state s)"
    and size: "length (EncodeSnapshotPayload (compacted (st_state s))) \<le> max_journal_bytes (st_limits s)"
    and run: "Compact clock clock' clock'' s = (status, s')" and ok: "status_ok status"
  shows "store_inv s' (Some (compact_snapshot clock (st_state s))) (last_of base rs) []"
    "st_state s' = compacted (st_state s)" "st_limits s' = st_limits s"
proof -
  let ?snap = "compact_snapshot clock (st_state s)"
  have rw: "\<not> st_read_only s" using inv by (simp add: store_inv_def)
  have payload: "EncodeSnapshotPayload (compacted (st_state s)) \<noteq> []"
    using run ok rw by (auto simp: Compact_def compacted_def Let_def)
  obtain written files where w: "WriteSnapshotAtomic (fst ?snap) (snd ?snap) (st_files s) = (written, files)"
    and bad: "\<not> status_ok written \<Longrightarrow> status = written \<and> s' = s\<lparr>st_files := files\<rparr>"
    and step: "\<And>reset report j. status_ok written \<Longrightarrow>
      Reset (ds_store (st_state s)) clock' clock'' (st_journal s) = (reset, report, j) \<Longrightarrow>
      (if status_ok reset
       then status = Status_Ok \<and> s' = s\<lparr>st_files := files, st_journal := j,
              st_state := (compacted (st_state s))\<lparr>ds_sequence := j_last_sequence j\<rparr>\<rparr>
       else status = reset \<and> s' = s\<lparr>st_files := files, st_journal := j\<rparr>)"
    using Compact_steps [OF run rw payload] by blast
  obtain reset report j where r: "Reset (ds_store (st_state s)) clock' clock'' (st_journal s) = (reset, report, j)"
    by (metis prod_cases3)
  have written: "status_ok written" using bad ok by blast
  have reset: "status_ok reset" using step [OF written r] ok by (auto split: if_splits)
  have s': "s' = s\<lparr>st_files := files, st_journal := j,
      st_state := (compacted (st_state s))\<lparr>ds_sequence := j_last_sequence j\<rparr>\<rparr>"
    using step [OF written r] reset by simp
  have id: "wf_store_id (ds_store (st_state s))" using wf by (simp add: durable_wf_def)
  note R = Reset_holds [OF r reset id]
  have q: "j_last_sequence (st_journal s) = last_of base rs" "ds_sequence (st_state s) = last_of base rs"
    using inv store_inv_sequence [OF inv] by (simp_all add: store_inv_def)
  have state: "(compacted (st_state s))\<lparr>ds_sequence := last_of base rs\<rparr> = compacted (st_state s)"
    using q(2) by (simp add: compacted_def)
  show "st_state s' = compacted (st_state s)" "st_limits s' = st_limits s"
    using state R(2) q(1) by (simp_all add: s')
  have "published (st_limits s) files (Some ?snap)"
    using WriteSnapshotAtomic_effect(1) [OF w written] snapshot_header_ok_compact [OF id, of clock] size
    by (auto simp: published_def compact_snapshot_def Let_def)
  then show "store_inv s' (Some ?snap) (last_of base rs) []"
    using inv R(1-3) q recovers_published [OF inv wf cap payload, of "[]" clock] state compacted_store
    by (simp add: store_inv_def s' last_of_def [of _ "[]"])
qed

lemma crash_after_publication:
  assumes inv: "store_inv s snap base rs" and wf: "durable_wf (st_limits s) (st_state s)"
    and cap: "durable_capped (st_limits s) (st_state s)"
    and size: "length (EncodeSnapshotPayload (compacted (st_state s))) \<le> max_journal_bytes (st_limits s)"
      "length (file_bytes (st_journal s)) \<le> max_journal_bytes (st_limits s)"
    and payload: "EncodeSnapshotPayload (compacted (st_state s)) \<noteq> []"
    and w: "WriteSnapshotAtomic (fst (compact_snapshot clock (st_state s)))
      (snd (compact_snapshot clock (st_state s))) (st_files s) = (written, files)" "status_ok written"
  shows "\<exists>report s'. Store_Open (st_limits s) create False gen c c'
      (crash_disk files (file_bytes (st_journal s))) = (Status_Ok, report, s') \<and>
      st_state s' = compacted (st_state s) \<and> st_limits s' = st_limits s \<and>
      store_inv s' (Some (compact_snapshot clock (st_state s))) base rs"
proof -
  have id: "wf_store_id (ds_store (st_state s))" using wf by (simp add: durable_wf_def)
  have pub: "published (st_limits s) files (Some (compact_snapshot clock (st_state s)))"
    using WriteSnapshotAtomic_effect(1) [OF w] snapshot_header_ok_compact [OF id, of clock] size(1)
    by (auto simp: published_def compact_snapshot_def Let_def)
  have "torn_part (st_limits s) []" by (simp add: torn_part_def)
  from Store_reopen [OF _ this _ _ _ pub recovers_published [OF inv wf cap payload, of rs clock]]
  show ?thesis
    using inv size(2) by (fastforce simp: store_inv_def compacted_def)
qed

text \<open>
  Inside \<open>Reset\<close> the journal is truncated before its new header is complete. A crash in between
  leaves a journal that no open accepts, although the published snapshot holds everything.
\<close>

lemma crash_in_reset:
  assumes "length content < kJournalHeaderBytes" "kJournalHeaderBytes \<le> max_journal_bytes limits"
    "published limits files snap"
  shows "fst (Store_Open limits create False gen clock clock' (crash_disk files content)) =
    Status Code_IntegrityFailure Reason_JournalHeaderInvalid"
proof -
  let ?o = "\<lparr>jo_limits = limits, jo_create_if_missing = create, jo_read_only = False\<rparr>"
  let ?files = "files\<lparr>sf_faults := [], sf_staging := None\<rparr>"
  obtain rs report j where J: "Journal_Open ?o gen clock clock' (Some content) [] =
      (Status Code_IntegrityFailure Reason_JournalHeaderInvalid, rs, report, j)"
    using Open_short_file [of content ?o gen clock clock'] assms(1,2) by (cases "Journal_Open ?o gen clock clock' (Some content) []") auto
  have read: "ReadSnapshot limits ?files = (if snap = None then (Status Code_NotFound Reason_None, None, ?files)
      else (Status_Ok, snap, ?files))"
    using assms(3) ReadSnapshot_absent [of ?files] ReadSnapshot_published [of ?files]
    by (cases snap) (auto simp: published_def)
  show ?thesis
    using J read by (cases snap) (simp_all add: Store_Open_def open_locked_def crash_disk_def
        RemoveStagingFile_def remove_staging_def Let_def snapshot_fault_def)
qed

section \<open>Runs of the store\<close>

text \<open>The durable mutations by name, with the record each appends and the effect it promises.\<close>

datatype mutation = Mut_PutPolicy ReconciliationPolicy | Mut_CommitIntent IntentDocument
  | Mut_CommitObservation ObservationDocument | Mut_IssueAttempt AttemptRecord
  | Mut_TransitionAttempt AttemptRecord | Mut_CommitOutcome ReconciliationOutcome
  | Mut_PutFence FenceEntry | Mut_ClearFence FenceId | Mut_AdvanceEpoch CoordinatorEpoch

fun perform :: "mutation \<Rightarrow> DurableStore \<Rightarrow> Status \<times> DurableStore" where
  "perform (Mut_PutPolicy p) s = store_PutPolicy p s"
| "perform (Mut_CommitIntent d) s = store_CommitIntent d s"
| "perform (Mut_CommitObservation d) s = store_CommitObservation d s"
| "perform (Mut_IssueAttempt a) s = store_IssueAttempt a s"
| "perform (Mut_TransitionAttempt a) s = store_TransitionAttempt a s"
| "perform (Mut_CommitOutcome x) s = store_CommitOutcome x s"
| "perform (Mut_PutFence f) s = store_PutFence f s"
| "perform (Mut_ClearFence i) s = store_ClearFence i s"
| "perform (Mut_AdvanceEpoch e) s = store_AdvanceEpoch e s"

fun mutation_record :: "mutation \<Rightarrow> RecordType \<times> bytes" where
  "mutation_record (Mut_PutPolicy p) = (Rec_PolicyPut, EncodePolicy p)"
| "mutation_record (Mut_CommitIntent d) = (Rec_IntentCommit, EncodeIntent d)"
| "mutation_record (Mut_CommitObservation d) = (Rec_ObservationCommit, EncodeObservation d)"
| "mutation_record (Mut_IssueAttempt a) = (Rec_AttemptIssued, EncodeAttemptRecord a)"
| "mutation_record (Mut_TransitionAttempt a) = (Rec_AttemptTransition, EncodeAttemptRecord a)"
| "mutation_record (Mut_CommitOutcome x) = (Rec_OutcomeCommit, EncodeOutcome x)"
| "mutation_record (Mut_PutFence f) = (Rec_FencePut, EncodeFence f)"
| "mutation_record (Mut_ClearFence i) = (Rec_FenceClear, puts_buffer [PutText (str i)])"
| "mutation_record (Mut_AdvanceEpoch e) = (Rec_EpochAdvance, puts_buffer [PutU64 (cval e)])"

fun mutation_valid :: "RuntimeLimits \<Rightarrow> mutation \<Rightarrow> bool" where
  "mutation_valid limits (Mut_PutPolicy p) = policy_stored limits p"
| "mutation_valid limits (Mut_CommitIntent d) = intent_stored limits d"
| "mutation_valid limits (Mut_CommitObservation d) = observation_stored limits d"
| "mutation_valid limits (Mut_IssueAttempt a) = attempt_stored limits a"
| "mutation_valid limits (Mut_TransitionAttempt a) = attempt_stored limits a"
| "mutation_valid limits (Mut_CommitOutcome x) = outcome_stored x"
| "mutation_valid limits (Mut_PutFence f) = fence_stored f"
| "mutation_valid limits (Mut_ClearFence i) = valid_id i"
| "mutation_valid limits (Mut_AdvanceEpoch e) = True"

fun mutation_effect :: "RuntimeLimits \<Rightarrow> mutation \<Rightarrow> DurableState \<Rightarrow> DurableState" where
  "mutation_effect limits (Mut_PutPolicy p) = apply_policy p"
| "mutation_effect limits (Mut_CommitIntent d) = apply_intent limits d"
| "mutation_effect limits (Mut_CommitObservation d) = apply_observation limits d"
| "mutation_effect limits (Mut_IssueAttempt a) = apply_attempt limits a"
| "mutation_effect limits (Mut_TransitionAttempt a) = apply_attempt limits a"
| "mutation_effect limits (Mut_CommitOutcome x) = apply_outcome limits x"
| "mutation_effect limits (Mut_PutFence f) = apply_fence f"
| "mutation_effect limits (Mut_ClearFence i) = apply_fence_clear i"
| "mutation_effect limits (Mut_AdvanceEpoch e) = apply_epoch (cval e)"

text \<open>The nine record types under one interface.\<close>

interpretation any_record:
  journalled limits "fst (mutation_record m)" "\<lambda>_. snd (mutation_record m)" "\<lambda>_. mutation_valid limits m"
    "\<lambda>_. mutation_effect limits m" for limits m
  by (unfold_locales; cases m)
    (simp_all del: ApplyPayload.simps add: policy_record.encoded intent_record.encoded observation_record.encoded
      issue_record.encoded outcome_record.encoded fence_record.encoded fence_clear_record.encoded
      epoch_record.encoded policy_record.applies intent_record.applies observation_record.applies
      issue_record.applies transition_record.applies outcome_record.applies fence_record.applies
      fence_clear_record.applies epoch_record.applies policy_record.keeps intent_record.keeps
      observation_record.keeps issue_record.keeps outcome_record.keeps fence_record.keeps
      fence_clear_record.keeps epoch_record.keeps)

lemma perform_durable_put:
  assumes "perform m s = (status, s')" "status_ok status"
  shows "durable_put (fst (mutation_record m)) (snd (mutation_record m)) s = (status, s')"
  using assms
  by (cases m) (auto simp: store_PutPolicy_def store_CommitIntent_def store_CommitObservation_def
      store_IssueAttempt_def store_TransitionAttempt_def store_CommitOutcome_def store_PutFence_def
      store_ClearFence_def store_AdvanceEpoch_def split: if_splits)

lemma mutation_effect_sequence:
  "mutation_effect limits m (st\<lparr>ds_sequence := q\<rparr>) = (mutation_effect limits m st)\<lparr>ds_sequence := q\<rparr>"
  by (cases m) (simp_all add: apply_sequence apply_attempt_sequence)

text \<open>
  The store over time beside the abstract state it promises. The environment may let any later
  system call fail; a mutation is acknowledged, or the process dies inside it after any number of
  its bytes and the directory is opened again; the process may die at rest; a compaction is
  acknowledged, or the process dies between its publication and its reset.
\<close>

inductive store_run :: "RuntimeLimits \<Rightarrow> DurableState \<Rightarrow> DurableStore \<Rightarrow> bool" for limits where
  run_created:
    "Store_Open limits True False gen clock clock' disk = (Status_Ok, report, s) \<Longrightarrow>
     dk_journal disk = None \<Longrightarrow> sf_snapshot (dk_files disk) = None \<Longrightarrow> wf_store_id gen \<Longrightarrow>
     store_run limits (durable_new\<lparr>ds_store := gen\<rparr>) s"
| run_environment:
    "store_run limits a s \<Longrightarrow>
     store_run limits a (s\<lparr>st_journal := (st_journal s)\<lparr>j_faults := fs\<rparr>,
       st_files := (st_files s)\<lparr>sf_faults := fs'\<rparr>\<rparr>)"
| run_mutation:
    "store_run limits a s \<Longrightarrow> mutation_valid limits m \<Longrightarrow> cval (ds_sequence (st_state s)) \<noteq> - 1 \<Longrightarrow>
     perform m s = (status, s') \<Longrightarrow> status_ok status \<Longrightarrow>
     store_run limits (mutation_effect limits m a) s'"
| run_mutation_crash:
    "store_run limits a s \<Longrightarrow> mutation_valid limits m \<Longrightarrow> cval (ds_sequence (st_state s)) \<noteq> - 1 \<Longrightarrow>
     length (snd (mutation_record m)) \<le> max_journal_payload_bytes limits \<Longrightarrow>
     length (file_bytes (st_journal s)) + kRecordHeaderBytes + length (snd (mutation_record m))
       \<le> max_journal_bytes limits \<Longrightarrow>
     img = rec_image (next_record (st_journal s) (fst (mutation_record m)) (snd (mutation_record m))) \<Longrightarrow>
     prefix p img \<Longrightarrow>
     Store_Open limits create False gen clock clock'
       (crash_disk (st_files s) (file_bytes (st_journal s) @ p)) = (status, report, s') \<Longrightarrow>
     store_run limits (if p = img then mutation_effect limits m a else a) s'"
| run_compaction:
    "store_run limits a s \<Longrightarrow> durable_capped limits (st_state s) \<Longrightarrow>
     length (EncodeSnapshotPayload (compacted (st_state s))) \<le> max_journal_bytes limits \<Longrightarrow>
     Compact clock clock' clock'' s = (status, s') \<Longrightarrow> status_ok status \<Longrightarrow>
     store_run limits (compacted a) s'"
| run_compaction_crash:
    "store_run limits a s \<Longrightarrow> durable_capped limits (st_state s) \<Longrightarrow>
     length (EncodeSnapshotPayload (compacted (st_state s))) \<le> max_journal_bytes limits \<Longrightarrow>
     length (file_bytes (st_journal s)) \<le> max_journal_bytes limits \<Longrightarrow>
     EncodeSnapshotPayload (compacted (st_state s)) \<noteq> [] \<Longrightarrow>
     WriteSnapshotAtomic (fst (compact_snapshot clock (st_state s)))
       (snd (compact_snapshot clock (st_state s))) (st_files s) = (written, files) \<Longrightarrow>
     status_ok written \<Longrightarrow>
     Store_Open limits create False gen clock' clock''
       (crash_disk files (file_bytes (st_journal s))) = (status, report, s') \<Longrightarrow>
     store_run limits (compacted a) s'"

text \<open>What every reachable store satisfies.\<close>

definition store_holds :: "RuntimeLimits \<Rightarrow> DurableState \<Rightarrow> DurableStore \<Rightarrow> bool" where
  "store_holds limits a s \<longleftrightarrow> st_limits s = limits \<and> durable_wf limits a \<and>
     st_state s = a\<lparr>ds_sequence := ds_sequence (st_state s)\<rparr> \<and>
     (\<exists>snap base rs. store_inv s snap base rs)"

lemma durable_wf_sequence [simp]: "durable_wf limits (st\<lparr>ds_sequence := q\<rparr>) = durable_wf limits st"
  by (simp add: durable_wf_def)

lemma store_holds_wf: "store_holds limits a s \<Longrightarrow> durable_wf limits (st_state s)"
  by (metis store_holds_def durable_wf_sequence)

lemma environment_keeps [simp]:
  "published limits (files\<lparr>sf_faults := fs\<rparr>) snap = published limits files snap"
  "file_bytes (j\<lparr>j_faults := fs\<rparr>) = file_bytes j"
  by (auto simp: published_def file_bytes_def split: option.splits)

lemma Journal_Open_fresh:
  assumes "Journal_Open options gen clock clock' None faults = (status, rs, report, j)" "status_ok status"
    "wf_store_id gen"
  shows "rs = []" "file_bytes j = BuildJournalHeaderImage gen clock (Counter 0)"
    "j_last_sequence j = Counter 0" "j_limits j = jo_limits options"
    "jh_store (jr_header report) = gen" "jr_last_sequence report = Counter 0"
proof -
  define j0 where "j0 = \<lparr>j_content = None, j_open = False, j_last_sequence = Counter 0,
      j_bytes_written = 0, j_limits = jo_limits options, j_read_only = jo_read_only options,
      j_write_failed = False, j_faults = faults\<rparr>"
  obtain f1 j1 where n1: "next_fault j0 = (f1, j1)" by force
  obtain f2 j2 where n2: "next_fault j1 = (f2, j2)" by force
  obtain s3 j3 where w: "WriteHeader gen clock (Counter 0) (j2\<lparr>j_content := Some [], j_open := True\<rparr>) = (s3, j3)"
    by force
  obtain s4 j4 where fl: "FlushToDisk j3 = (s4, j4)" by force
  note we = WriteAll_effect [OF w [unfolded WriteHeader_def]] and fe = FlushToDisk_effect [OF fl]
  have j2: "j_last_sequence j2 = Counter 0" "j_limits j2 = jo_limits options"
    using next_fault_fields [OF n1] next_fault_fields [OF n2] by (simp_all add: j0_def)
  have step: "status_ok s3 \<and> status_ok s4 \<and> rs = [] \<and> j = j4 \<and> jh_store (jr_header report) = gen \<and>
      jr_last_sequence report = Counter 0"
    using assms(1,2) n1 n2 w fl unfolding Journal_Open_def j0_def [symmetric]
    by (auto simp: open_fresh_def open_failed_def Let_def report_new_def split: option.splits if_splits)
  then show "rs = []" "jh_store (jr_header report) = gen" "jr_last_sequence report = Counter 0"
    by simp_all
  have "file_bytes j3 = BuildJournalHeaderImage gen clock (Counter 0)"
    using we(1) step by (auto simp: file_bytes_def)
  then show "file_bytes j = BuildJournalHeaderImage gen clock (Counter 0)"
    "j_last_sequence j = Counter 0" "j_limits j = jo_limits options"
    using fe step we(3,5) j2 by simp_all
qed

lemma ReadSnapshot_none:
  "sf_snapshot d = None \<Longrightarrow> \<exists>d'. ReadSnapshot limits d = (Status Code_NotFound Reason_None, None, d') \<and> sf_snapshot d' = None"
  by (auto simp: ReadSnapshot_def snapshot_fault_def split: list.splits option.splits)

lemma created_holds:
  assumes opened: "Store_Open limits True False gen clock clock' disk = (Status_Ok, report, s)"
    and empty: "dk_journal disk = None" "sf_snapshot (dk_files disk) = None"
    and id: "wf_store_id gen" and lim: "limits_ok limits"
  shows "store_holds limits (durable_new\<lparr>ds_store := gen\<rparr>) s"
proof -
  let ?o = "\<lparr>jo_limits = limits, jo_create_if_missing = True, jo_read_only = False\<rparr>"
  obtain a files where rm: "RemoveStagingFile (dk_files disk) = (a, files)" by force
  have "sf_snapshot files = None"
    using rm empty(2) remove_staging_snapshot [of "dk_files disk"]
    by (cases "remove_staging (dk_files disk)") (auto simp: RemoveStagingFile_def split: if_splits)
  then obtain files' where rd: "ReadSnapshot limits files = (Status Code_NotFound Reason_None, None, files')"
      "sf_snapshot files' = None"
    using ReadSnapshot_none by blast
  obtain b rs jr j where jo: "Journal_Open ?o gen clock clock' None (dk_journal_faults disk) = (b, rs, jr, j)"
    by (metis prod_cases4)
  have b: "status_ok b"
    using opened rm rd jo empty(1)
    by (auto simp: Store_Open_def open_locked_def Let_def split: if_splits)
  note J = Journal_Open_fresh [OF jo b id, simplified]
  have s: "st_journal s = j" "st_files s = files'" "st_limits s = limits" "\<not> st_read_only s"
      "st_state s = durable_new\<lparr>ds_store := gen, ds_sequence := Counter 0\<rparr>"
    using opened rm rd jo b empty(1) J(1,5,6)
    by (auto simp: Store_Open_def open_locked_def load_snapshot_def snapshot_watermark_def Let_def
        split: if_splits)
  have rec: "recovers limits gen (Counter 0) None [] (durable_new\<lparr>ds_store := gen, ds_sequence := Counter 0\<rparr>)"
    by (simp add: recovers_def load_snapshot_def)
  have "store_inv s None (Counter 0) []"
    using s rec J(2-4) lim id rd(2)
    by (auto simp: store_inv_def journal_holds_def log_bytes_def last_of_def published_def)
  then show ?thesis
    using s durable_wf_new [OF id] by (auto simp: store_holds_def durable_new_def)
qed

lemma store_run_holds:
  assumes "store_run limits a s" and lim: "limits_ok limits"
  shows "store_holds limits a s"
  using assms(1)
proof induction
  case (run_created gen clock clock' disk report s)
  then show ?case using created_holds lim by blast
next
  case (run_environment a s fs fs')
  then show ?case
    by (auto simp: store_holds_def store_inv_def)
next
  case (run_mutation a s m status s')
  then obtain snap base rs where inv: "store_inv s snap base rs" and h: "st_limits s = limits"
      "durable_wf limits a" "st_state s = a\<lparr>ds_sequence := ds_sequence (st_state s)\<rparr>"
    by (auto simp: store_holds_def)
  have q: "ds_sequence (st_state s) = last_of base rs" using store_inv_sequence [OF inv] .
  obtain rs' where "store_inv s' snap base rs'" "st_limits s' = limits"
      "st_state s' = (mutation_effect limits m (st_state s))\<lparr>ds_sequence := last_of base rs'\<rparr>"
    using any_record.acknowledged [OF inv h(1)] run_mutation q perform_durable_put by metis
  moreover have "mutation_effect limits m (st_state s) =
      (mutation_effect limits m a)\<lparr>ds_sequence := ds_sequence (st_state s)\<rparr>"
    using h(3) mutation_effect_sequence by metis
  ultimately show ?case
    using any_record.keeps [OF run_mutation.hyps(2) h(2)] by (auto simp: store_holds_def)
next
  case (run_mutation_crash a s m img p create gen clock clock' status report s')
  then obtain snap base rs where inv: "store_inv s snap base rs" and h: "st_limits s = limits"
      "durable_wf limits a" "st_state s = a\<lparr>ds_sequence := ds_sequence (st_state s)\<rparr>"
    by (auto simp: store_holds_def)
  have q: "cval (last_of base rs) \<noteq> - 1"
    using store_inv_sequence [OF inv] run_mutation_crash.hyps(3) by simp
  obtain rs' where s': "store_inv s' snap base rs'" "st_limits s' = limits"
      "st_state s' = (if p = img
        then (mutation_effect limits m (st_state s))\<lparr>ds_sequence := last_of base rs'\<rparr> else st_state s)"
    using any_record.crash [OF inv h(1) run_mutation_crash.hyps(2) q run_mutation_crash.hyps(4,5)
        run_mutation_crash.hyps(7) [unfolded run_mutation_crash.hyps(6)], of create gen clock clock']
      run_mutation_crash.hyps(6,8) by auto
  have "mutation_effect limits m (st_state s) =
      (mutation_effect limits m a)\<lparr>ds_sequence := ds_sequence (st_state s)\<rparr>"
    using h(3) mutation_effect_sequence by metis
  then show ?case
    using s' h any_record.keeps [OF run_mutation_crash.hyps(2) h(2)]
    by (cases "p = img") (auto simp: store_holds_def)
next
  case (run_compaction a s clock clock' clock'' status s')
  then obtain snap base rs where inv: "store_inv s snap base rs" and h: "st_limits s = limits"
      "durable_wf limits a" "st_state s = a\<lparr>ds_sequence := ds_sequence (st_state s)\<rparr>"
    by (auto simp: store_holds_def)
  have wf: "durable_wf limits (st_state s)" using run_compaction.IH store_holds_wf by blast
  note C = Compact_inv [OF inv, unfolded h(1), OF wf run_compaction.hyps(2-5)]
  have "compacted (st_state s) = (compacted a)\<lparr>ds_sequence := ds_sequence (st_state s)\<rparr>"
    using h(3) compacted_sequence by metis
  then show ?case
    using C h(2) compacted_wf(1) by (auto simp: store_holds_def)
next
  case (run_compaction_crash a s clock written files create gen clock' clock'' status report s')
  then obtain snap base rs where inv: "store_inv s snap base rs" and h: "st_limits s = limits"
      "durable_wf limits a" "st_state s = a\<lparr>ds_sequence := ds_sequence (st_state s)\<rparr>"
    by (auto simp: store_holds_def)
  have wf: "durable_wf limits (st_state s)" using run_compaction_crash.IH store_holds_wf by blast
  note C = crash_after_publication [OF inv, unfolded h(1), OF wf run_compaction_crash.hyps(2-7),
      of create gen clock' clock'']
  have "compacted (st_state s) = (compacted a)\<lparr>ds_sequence := ds_sequence (st_state s)\<rparr>"
    using h(3) compacted_sequence by metis
  then show ?case
    using C run_compaction_crash.hyps(8) h(2) compacted_wf(1) by (auto simp: store_holds_def)
qed

text \<open>A reachable store, left at any moment, reopens to exactly the state it promised.\<close>

lemma store_run_reopens:
  assumes "store_run limits a s" "limits_ok limits"
    "length (file_bytes (st_journal s)) \<le> max_journal_bytes limits"
  shows "\<exists>report s'. Store_Open limits create False gen clock clock'
      (crash_disk (st_files s) (file_bytes (st_journal s))) = (Status_Ok, report, s') \<and>
      st_state s' = a\<lparr>ds_sequence := ds_sequence (st_state s)\<rparr>"
proof -
  obtain snap base rs where inv: "store_inv s snap base rs" and h: "st_limits s = limits"
      "st_state s = a\<lparr>ds_sequence := ds_sequence (st_state s)\<rparr>"
    using store_run_holds [OF assms(1,2)] by (auto simp: store_holds_def)
  have "torn_part limits []" by (simp add: torn_part_def)
  then show ?thesis
    using Store_reopen [of limits "ds_store (st_state s)" base rs "file_bytes (st_journal s)" "[]"
        "st_files s" snap "st_state s" create gen clock clock'] inv h assms(2,3)
    by (auto simp: store_inv_def)
qed

end
