(* ===== verification/Engine.thy ===== *)
theory Engine
  imports Durability
begin

text \<open>
  \<open>engine.hpp\<close> and \<open>engine.cpp\<close>: the reconciliation engine over the durable store. Every public
  operation runs under one mutex from its first to its last line, so an operation is one function
  on the engine's state. The readings of the wall clock an operation may take are its first
  argument; the generated boot and store identities are arguments of \<open>Boot\<close>. Detail texts of
  statuses are dropped; details of explanation steps are kept, since they enter the plan digest.
  The text renderings of plans, reports and attempts are in \<open>Render_Text\<close>.
\<close>

section \<open>State\<close>

record EngineOptions =
  eo_store_dir :: string
  eo_limits :: RuntimeLimits
  eo_create_if_missing :: bool
  eo_read_only :: bool
  eo_initial_policy :: ReconciliationPolicy
  eo_install_initial_policy :: bool
  eo_auto_compact_after_records :: u64

record BootReport =
  br_store :: StoreId
  br_previous_epoch :: CoordinatorEpoch
  br_epoch :: CoordinatorEpoch
  br_boot :: BootId
  br_store_created :: bool
  br_snapshot_loaded :: bool
  br_recovered_torn_tail :: bool
  br_recovered_bytes :: nat
  br_records_replayed :: nat
  br_attempts_restored :: nat
  br_attempts_interrupted :: nat
  br_attempts_abandoned :: nat
  br_attempts_fenced :: nat
  br_observations_retained :: nat
  br_outcomes_retained :: nat
  br_fences_active :: nat
  br_freshness_restored :: bool
  br_mutation_authority_restored :: bool
  br_notes :: "ReasonCode list"

record EngineStats =
  es_intents_committed :: u64
  es_intent_duplicates :: u64
  es_intent_conflicts :: u64
  es_observations_recorded :: u64
  es_observation_duplicates :: u64
  es_plans_built :: u64
  es_actions_dispatched :: u64
  es_completions_accepted :: u64
  es_completions_rejected_late :: u64
  es_duplicate_completions :: u64
  es_verifications_accepted :: u64
  es_verifications_rejected :: u64
  es_subject_visits :: u64
  es_attribute_comparisons :: u64
  es_fenced_decisions :: u64
  es_compactions :: u64

record Engine =
  en_store :: DurableStore
  en_options :: EngineOptions
  en_boot_report :: BootReport
  en_stats :: EngineStats
  en_live_epoch :: CoordinatorEpoch
  en_live_boot :: BootId
  en_compaction_watermark :: RecordSequence

text \<open>The readings of \<open>WallClockMillis\<close> in an operation, and those of a compaction it triggers.\<close>

record Clocks =
  ck_now :: UnixMillis
  ck_later :: UnixMillis
  ck_snapshot :: UnixMillis
  ck_header :: UnixMillis
  ck_report :: UnixMillis

abbreviation en_state :: "Engine \<Rightarrow> DurableState" where
  "en_state e \<equiv> st_state (en_store e)"

abbreviation en_limits :: "Engine \<Rightarrow> RuntimeLimits" where
  "en_limits e \<equiv> eo_limits (en_options e)"

abbreviation engine_read_only :: Status where
  "engine_read_only \<equiv> Status Code_PreconditionFailed Reason_DurableWriteFailed"

text \<open>\<open>x != 0 ? x : WallClockMillis()\<close>\<close>

definition stamp_or :: "UnixMillis \<Rightarrow> UnixMillis \<Rightarrow> UnixMillis" where
  "stamp_or x clock = (if x \<noteq> 0 then x else clock)"

section \<open>Helpers\<close>

fun TransitionLegal :: "AttemptState \<Rightarrow> AttemptState \<Rightarrow> bool" where
  "TransitionLegal Attempt_Issued t \<longleftrightarrow> t \<in> {Attempt_Dispatched, Attempt_Acknowledged, Attempt_Applied,
     Attempt_Failed, Attempt_Abandoned, Attempt_Superseded, Attempt_Fenced, Attempt_Interrupted}"
| "TransitionLegal Attempt_Dispatched t \<longleftrightarrow> t \<in> {Attempt_Acknowledged, Attempt_Applied, Attempt_Failed,
     Attempt_Abandoned, Attempt_Superseded, Attempt_Fenced, Attempt_Interrupted}"
| "TransitionLegal Attempt_Acknowledged t \<longleftrightarrow> t \<in> {Attempt_Applied, Attempt_Failed, Attempt_Abandoned,
     Attempt_Superseded, Attempt_Fenced, Attempt_Interrupted}"
| "TransitionLegal Attempt_Applied t \<longleftrightarrow> t \<in> {Attempt_Verified, Attempt_Failed, Attempt_Fenced, Attempt_Interrupted}"
| "TransitionLegal _ t \<longleftrightarrow> False"

definition fence_covers :: "FenceEntry \<Rightarrow> ScopeId \<Rightarrow> SubjectId \<Rightarrow> bool" where
  "fence_covers f scope subject \<longleftrightarrow>
     fe_scope f = scope \<and> (id_empty (fe_subject f) \<or> fe_subject f = subject)"

definition FenceHoldsFor :: "ScopeId \<Rightarrow> SubjectId \<Rightarrow> CoordinatorEpoch \<Rightarrow> Engine \<Rightarrow> bool" where
  "FenceHoldsFor scope subject epoch e =
     list_ex (\<lambda>entry. fence_covers (snd entry) scope subject \<and> epoch < fe_fenced_below (snd entry))
       (ds_fences (en_state e))"

definition BuildAuthority :: "ScopeEvidenceRef \<Rightarrow> Engine \<Rightarrow> AuthorityVector" where
  "BuildAuthority evidence e =
     (let policy = ds_policy (en_state e)
      in \<lparr>av_coordinator_epoch = en_live_epoch e, av_boot = en_live_boot e, av_policy_id = po_id policy,
          av_policy_version = po_version policy, av_policy_digest = ComputePolicyDigest policy,
          av_definition = ev_definition evidence, av_intent_generation = ev_intent_generation evidence,
          av_intent = ev_intent evidence, av_intent_digest = ev_intent_digest evidence,
          av_observation = ev_observation evidence,
          av_observation_generation = ev_observation_generation evidence,
          av_observation_reporter = ev_reporter evidence,
          av_observation_digest = ev_observation_digest evidence,
          av_observation_epoch = ev_received_epoch evidence,
          av_observation_received_unix_ms = ev_received_unix_ms evidence\<rparr>)"

definition MakeOutcome ::
    "AttemptRecord \<Rightarrow> AttemptState \<Rightarrow> ReasonCode \<Rightarrow> bool \<Rightarrow> UnixMillis \<Rightarrow> ReconciliationOutcome" where
  "MakeOutcome attempt state reason ambiguous now =
     \<lparr>oc_idempotency_key = at_idempotency_key attempt, oc_scope = at_scope attempt,
      oc_subject = at_subject attempt, oc_action = at_action attempt, oc_attempt = at_id attempt,
      oc_epoch = at_epoch attempt, oc_boot = at_boot attempt, oc_terminal_state = state,
      oc_reason = reason, oc_committed_unix_ms = now, oc_verified = (state = Attempt_Verified),
      oc_verified_generation = Counter 0, oc_ambiguous = ambiguous\<rparr>"

definition MaybeCompactLocked :: "Clocks \<Rightarrow> Engine \<Rightarrow> Engine" where
  "MaybeCompactLocked ck e =
     (if eo_auto_compact_after_records (en_options e) = 0 then e
      else if cval (ds_sequence (en_state e)) - cval (en_compaction_watermark e)
                < eo_auto_compact_after_records (en_options e) then e
      else let (status, store) = Compact (ck_snapshot ck) (ck_header ck) (ck_report ck) (en_store e);
               e = e\<lparr>en_store := store\<rparr>
           in if status_ok status
              then e\<lparr>en_stats := (en_stats e)\<lparr>es_compactions := es_compactions (en_stats e) + 1\<rparr>,
                     en_compaction_watermark := ds_sequence (st_state store)\<rparr>
              else e)"

section \<open>Restart\<close>

definition transition_to ::
    "AttemptState \<Rightarrow> UnixMillis \<Rightarrow> ReasonCode \<Rightarrow> ReasonCode \<Rightarrow> Engine \<Rightarrow> AttemptRecord \<Rightarrow> AttemptTransition" where
  "transition_to target now reason verification e a =
     \<lparr>tr_from = at_state a, tr_to = target, tr_epoch = en_live_epoch e, tr_boot = en_live_boot e,
      tr_at_unix_ms = now, tr_reason = reason, tr_verification_reason = verification\<rparr>"

text \<open>The bounded lineage: the restart keeps the oldest transitions, every later step the newest.\<close>

definition append_if_room :: "RuntimeLimits \<Rightarrow> AttemptTransition \<Rightarrow> AttemptTransition list \<Rightarrow> AttemptTransition list" where
  "append_if_room limits t ts = (if length ts < max_attempt_transitions limits then ts @ [t] else ts)"

definition append_shifting :: "RuntimeLimits \<Rightarrow> AttemptTransition \<Rightarrow> AttemptTransition list \<Rightarrow> AttemptTransition list" where
  "append_shifting limits t ts =
     (if length ts \<ge> max_attempt_transitions limits then tl ts else ts) @ [t]"

definition restart_target :: "AttemptRecord \<Rightarrow> AttemptState" where
  "restart_target a = (if at_state a \<noteq> Attempt_Issued then Attempt_Interrupted else Attempt_Abandoned)"

definition restart_reason :: "AttemptRecord \<Rightarrow> ReasonCode" where
  "restart_reason a = (if at_state a \<noteq> Attempt_Issued then Reason_AttemptInterruptedByRestart
     else Reason_AttemptAbandoned)"

definition restart_attempt :: "UnixMillis \<Rightarrow> Engine \<Rightarrow> AttemptRecord \<Rightarrow> AttemptRecord" where
  "restart_attempt now e a =
     a\<lparr>at_state := restart_target a,
       at_transitions := append_if_room (en_limits e)
         (transition_to (restart_target a) now (restart_reason a) Reason_None e a) (at_transitions a)\<rparr>"

definition live_attempts :: "DurableState \<Rightarrow> AttemptRecord list" where
  "live_attempts st =
     sort_key (\<lambda>a. cval (at_id a))
       (filter (\<lambda>a. \<not> IsTerminalAttemptState (at_state a)) (map snd (ds_attempts st)))"

fun restart_loop :: "UnixMillis \<Rightarrow> AttemptRecord list \<Rightarrow> Engine \<Rightarrow> Status \<times> Engine" where
  "restart_loop now [] e = (Status_Ok, e)"
| "restart_loop now (a # as) e =
     (let may_have_effected = (at_state a \<noteq> Attempt_Issued);
          attempt = restart_attempt now e a;
          (recorded, store) = store_TransitionAttempt attempt (en_store e);
          e = e\<lparr>en_store := store\<rparr>
      in if \<not> status_ok recorded then (recorded, e)
         else let (committed, store) = store_CommitOutcome
                    (MakeOutcome attempt (at_state attempt) (restart_reason a) may_have_effected now)
                    (en_store e);
                  e = e\<lparr>en_store := store\<rparr>
         in if \<not> status_ok committed then (committed, e)
            else let report = en_boot_report e;
                     report = (if may_have_effected
                       then report\<lparr>br_attempts_interrupted := br_attempts_interrupted report + 1\<rparr>
                       else report\<lparr>br_attempts_abandoned := br_attempts_abandoned report + 1\<rparr>)
            in restart_loop now as
                 (e\<lparr>en_boot_report := report\<lparr>br_attempts_fenced := br_attempts_fenced report + 1\<rparr>\<rparr>))"

definition CommitRestartFencing :: "UnixMillis \<Rightarrow> Engine \<Rightarrow> Status \<times> Engine" where
  "CommitRestartFencing now e = restart_loop now (live_attempts (en_state e)) e"

definition boot_report_new :: BootReport where
  "boot_report_new =
     \<lparr>br_store = StoreId (replicate 16 0), br_previous_epoch = Counter 0, br_epoch = Counter 0,
      br_boot = BootId (replicate 16 0), br_store_created = False, br_snapshot_loaded = False,
      br_recovered_torn_tail = False, br_recovered_bytes = 0, br_records_replayed = 0,
      br_attempts_restored = 0, br_attempts_interrupted = 0, br_attempts_abandoned = 0,
      br_attempts_fenced = 0, br_observations_retained = 0, br_outcomes_retained = 0,
      br_fences_active = 0, br_freshness_restored = False, br_mutation_authority_restored = False,
      br_notes = []\<rparr>"

definition stats_new :: EngineStats where
  "stats_new =
     \<lparr>es_intents_committed = 0, es_intent_duplicates = 0, es_intent_conflicts = 0,
      es_observations_recorded = 0, es_observation_duplicates = 0, es_plans_built = 0,
      es_actions_dispatched = 0, es_completions_accepted = 0, es_completions_rejected_late = 0,
      es_duplicate_completions = 0, es_verifications_accepted = 0, es_verifications_rejected = 0,
      es_subject_visits = 0, es_attribute_comparisons = 0, es_fenced_decisions = 0,
      es_compactions = 0\<rparr>"

text \<open>The report fields taken over from opening the store.\<close>

definition boot_report_of :: "StoreOpenReport \<Rightarrow> DurableStore \<Rightarrow> BootReport" where
  "boot_report_of report store =
     boot_report_new\<lparr>br_store := ds_store (st_state store), br_store_created := sr_created report,
       br_snapshot_loaded := sr_snapshot_loaded report,
       br_recovered_torn_tail := sr_recovered_torn_tail report,
       br_recovered_bytes := sr_recovered_bytes report,
       br_records_replayed := sr_records_replayed report,
       br_attempts_restored := sr_attempts_restored report,
       br_previous_epoch := sr_last_epoch report, br_notes := sr_notes report\<rparr>"

text \<open>The initial policy: kept when the store has one, otherwise canonicalised and made durable.\<close>

definition install_policy :: "Engine \<Rightarrow> Status \<times> Engine" where
  "install_policy e =
     (if ds_has_policy (en_state e) then (Status_Ok, e)
      else if \<not> eo_install_initial_policy (en_options e)
      then (Status Code_PreconditionFailed Reason_NoIntentForScope, e)
      else let initial = eo_initial_policy (en_options e);
               policy = (if id_empty (po_id initial) then DefaultPolicy else initial);
               (canonical, policy) = CanonicalisePolicy (en_limits e) policy
      in if \<not> status_ok canonical then (canonical, e)
         else let (installed, store) = store_PutPolicy policy (en_store e)
         in (installed, e\<lparr>en_store := store\<rparr>))"

text \<open>The end of \<open>Boot\<close> for a writable store: a fresh epoch, then the attempts it fences.\<close>

definition begin_epoch :: "UnixMillis \<Rightarrow> Engine \<Rightarrow> Status \<times> Engine" where
  "begin_epoch clock e =
     (let next_epoch = Counter (cval (ds_last_epoch (en_state e)) + 1);
          (advanced, store) = store_AdvanceEpoch next_epoch (en_store e);
          e = e\<lparr>en_store := store\<rparr>
      in if \<not> status_ok advanced then (advanced, e)
         else let report = en_boot_report e;
                  e = e\<lparr>en_live_epoch := next_epoch,
                    en_boot_report := report\<lparr>br_epoch := next_epoch, br_boot := en_live_boot e,
                      br_notes := br_notes report @ [Reason_RestartEpochAdvanced,
                        Reason_RestartFreshnessNotRestored, Reason_RestartLeasesNotRestored]\<rparr>\<rparr>;
                  (fenced, e) = CommitRestartFencing clock e
         in if \<not> status_ok fenced then (fenced, e)
            else let report = en_boot_report e; st = en_state e
            in (Status_Ok, e\<lparr>en_boot_report := report\<lparr>
                 br_notes := br_notes report @
                   (if br_attempts_fenced report \<noteq> 0 then [Reason_RestartAttemptsFenced] else []),
                 br_observations_retained := sum_list (map (length \<circ> snd) (ds_observations st)),
                 br_outcomes_retained := length (ds_outcomes st),
                 br_fences_active := length (ds_fences st)\<rparr>,
               en_compaction_watermark := ds_sequence st\<rparr>))"

definition Boot ::
    "EngineOptions \<Rightarrow> StoreId \<Rightarrow> BootId \<Rightarrow> UnixMillis \<Rightarrow> Clocks \<Rightarrow> StoreDisk \<Rightarrow> Status \<times> Engine" where
  "Boot options gen boot clock ck disk =
     (let (opened, report, store) = Store_Open (eo_limits options) (eo_create_if_missing options)
            (eo_read_only options) gen (ck_header ck) (ck_report ck) disk;
          e = \<lparr>en_store = store, en_options = options, en_boot_report = boot_report_new,
               en_stats = stats_new, en_live_epoch = Counter 0, en_live_boot = BootId (replicate 16 0),
               en_compaction_watermark = Counter 0\<rparr>
      in if \<not> status_ok opened then (opened, e)
         else let e = e\<lparr>en_boot_report := boot_report_of report store, en_live_boot := boot\<rparr>
         in if eo_read_only options
            then let st = st_state store; report = en_boot_report e
              in (Status_Ok, e\<lparr>en_live_epoch := ds_last_epoch st,
                    en_boot_report := report\<lparr>br_epoch := ds_last_epoch st, br_boot := boot,
                      br_observations_retained := 0, br_outcomes_retained := length (ds_outcomes st),
                      br_fences_active := length (ds_fences st),
                      br_notes := br_notes report @
                        [Reason_RestartFreshnessNotRestored, Reason_RestartLeasesNotRestored]\<rparr>,
                    en_compaction_watermark := ds_sequence st\<rparr>)
            else let (installed, e) = install_policy e
            in if \<not> status_ok installed then (installed, e)
               else begin_epoch clock e)"

text \<open>A failed \<open>Boot\<close> destroys the engine, which closes its store; the files stay as they are.\<close>

definition engine_Open ::
    "EngineOptions \<Rightarrow> StoreId \<Rightarrow> BootId \<Rightarrow> UnixMillis \<Rightarrow> Clocks \<Rightarrow> StoreDisk \<Rightarrow> Status \<times> Engine option" where
  "engine_Open options gen boot clock ck disk =
     (if eo_store_dir options = [] then (Status Code_Rejected Reason_DurableWriteFailed, None)
      else let (status, e) = Boot options gen boot clock ck disk
           in if \<not> status_ok status then (status, None) else (Status_Ok, Some e))"

section \<open>Policy, intents and observations\<close>

definition engine_PutPolicy :: "ReconciliationPolicy \<Rightarrow> bool \<Rightarrow> Engine \<Rightarrow> Status \<times> Engine" where
  "engine_PutPolicy policy allow_same_version e =
     (if st_read_only (en_store e) then (engine_read_only, e)
      else let (status, canonical) = CanonicalisePolicy (en_limits e) policy;
               current = ds_policy (en_state e);
               put = (let (stored, store) = store_PutPolicy canonical (en_store e)
                      in (stored, e\<lparr>en_store := store\<rparr>))
      in if \<not> status_ok status then (status, e)
         else if ds_has_policy (en_state e) \<and> po_version canonical < po_version current
         then (Status Code_ConflictState Reason_IntentGenerationRegressed, e)
         else if ds_has_policy (en_state e) \<and> po_version canonical = po_version current
         then (if allow_same_version \<and> ComputePolicyDigest canonical = ComputePolicyDigest current
               then (Status Code_Ok Reason_DuplicateIntentIdentical, e)
               else (Status Code_ConflictState Reason_ConflictingRepublishers, e))
         else put)"

definition ActivePolicy :: "Engine \<Rightarrow> Status + ReconciliationPolicy" where
  "ActivePolicy e =
     (if \<not> ds_has_policy (en_state e) then Inl (Status Code_NotFound Reason_NoIntentForScope)
      else Inr (ds_policy (en_state e)))"

record IntentCommitResult =
  ic_duplicate :: bool
  ic_generation :: IntentGeneration
  ic_digest :: Sha256Digest

text \<open>\<^const>\<open>None\<close> stands for an output that was not assigned.\<close>

definition engine_CommitIntent ::
    "Clocks \<Rightarrow> IntentDocument \<Rightarrow> Engine \<Rightarrow> Status \<times> IntentCommitResult option \<times> Engine" where
  "engine_CommitIntent ck document e =
     (if st_read_only (en_store e) then (engine_read_only, None, e)
      else let valid = ValidateIntent document (en_limits e)
      in if \<not> status_ok valid then (valid, None, e)
      else let candidate = document\<lparr>in_digest := ComputeIntentDigest document\<rparr>;
               out = \<lparr>ic_duplicate = False, ic_generation = in_generation candidate,
                      ic_digest = in_digest candidate\<rparr>;
               stats = en_stats e;
               commit = (let (committed, store) = store_CommitIntent candidate (en_store e);
                             e = e\<lparr>en_store := store\<rparr>
                  in if \<not> status_ok committed then (committed, Some out, e)
                     else (Status_Ok, Some out, MaybeCompactLocked ck
                        (e\<lparr>en_stats := stats\<lparr>es_intents_committed := es_intents_committed stats + 1\<rparr>\<rparr>)))
      in case map_find (in_scope candidate) (ds_intents (en_state e)) of
           None \<Rightarrow> commit
         | Some existing \<Rightarrow>
             if in_generation candidate < in_generation existing
             then (Status Code_Rejected Reason_IntentGenerationRegressed, Some out, e)
             else if in_generation candidate = in_generation existing
             then (if in_digest candidate = in_digest existing
                   then (Status Code_Ok Reason_DuplicateIntentIdentical, Some (out\<lparr>ic_duplicate := True\<rparr>),
                      e\<lparr>en_stats := stats\<lparr>es_intent_duplicates := es_intent_duplicates stats + 1\<rparr>\<rparr>)
                   else (Status Code_ConflictState Reason_ConflictingRepublishers, Some out,
                      e\<lparr>en_stats := stats\<lparr>es_intent_conflicts := es_intent_conflicts stats + 1\<rparr>\<rparr>))
             else commit)"

record ObservationCommitResult =
  ro_duplicate :: bool
  ro_stamped :: ObservationDocument

definition stamp_observation :: "ObservationSubmission \<Rightarrow> UnixMillis \<Rightarrow> Engine \<Rightarrow> ObservationDocument" where
  "stamp_observation s received e =
     (let d = \<lparr>ob_observation = su_observation s, ob_scope = su_scope s, ob_reporter = su_reporter s,
               ob_generation = su_generation s, ob_evidence = su_evidence s, ob_complete = su_complete s,
               ob_authoritative_absence = su_authoritative_absence s,
               ob_received_epoch = en_live_epoch e, ob_received_unix_ms = received,
               ob_subjects = su_subjects s, ob_digest = zero_digest\<rparr>
      in d\<lparr>ob_digest := ComputeObservationDigest d\<rparr>)"

text \<open>
  The scan of the retained stream for the submitting reporter: it stops at the first document with
  the same identity and generation, otherwise it carries the highest generation seen.
\<close>

datatype StreamVerdict = Stream_Duplicate ObservationDocument | Stream_Conflict
  | Stream_Highest "ObservationGeneration option"

fun scan_stream ::
    "ObservationSubmission \<Rightarrow> Sha256Digest \<Rightarrow> ObservationDocument list \<Rightarrow> ObservationGeneration option \<Rightarrow>
     StreamVerdict" where
  "scan_stream s digest [] highest = Stream_Highest highest"
| "scan_stream s digest (d # ds) highest =
     (if ob_reporter d \<noteq> su_reporter s then scan_stream s digest ds highest
      else let highest = (case highest of
               None \<Rightarrow> Some (ob_generation d)
             | Some h \<Rightarrow> if h < ob_generation d then Some (ob_generation d) else Some h)
      in if ob_observation d = su_observation s \<and> ob_generation d = su_generation s
         then (if ob_digest d = digest then Stream_Duplicate d else Stream_Conflict)
         else scan_stream s digest ds highest)"

definition RecordObservationAt ::
    "Clocks \<Rightarrow> ObservationSubmission \<Rightarrow> UnixMillis \<Rightarrow> Engine \<Rightarrow>
     Status \<times> ObservationCommitResult option \<times> Engine" where
  "RecordObservationAt ck submission at_ms e =
     (if st_read_only (en_store e) then (engine_read_only, None, e)
      else let valid = ValidateSubmission submission (en_limits e)
      in if \<not> status_ok valid then (valid, None, e)
      else let document = stamp_observation submission (stamp_or at_ms (ck_now ck)) e;
               out = \<lparr>ro_duplicate = False, ro_stamped = document\<rparr>;
               stats = en_stats e;
               stream = lookup_or [] (map_find (su_scope submission) (ds_observations (en_state e)))
      in case scan_stream submission (ob_digest document) stream None of
           Stream_Duplicate retained \<Rightarrow>
             (Status Code_Ok Reason_DuplicateObservationIdentical,
              Some (out\<lparr>ro_duplicate := True, ro_stamped := retained\<rparr>),
              e\<lparr>en_stats := stats\<lparr>es_observation_duplicates := es_observation_duplicates stats + 1\<rparr>\<rparr>)
         | Stream_Conflict \<Rightarrow> (Status Code_ConflictState Reason_ConflictingRepublishers, Some out, e)
         | Stream_Highest highest \<Rightarrow>
             if (case highest of None \<Rightarrow> False | Some h \<Rightarrow> su_generation submission < h)
             then (Status Code_Rejected Reason_ObservationGenerationRegressed, Some out, e)
             else let (committed, store) = store_CommitObservation document (en_store e);
                      e = e\<lparr>en_store := store\<rparr>
             in if \<not> status_ok committed then (committed, Some out, e)
                else (Status_Ok, Some out, MaybeCompactLocked ck
                  (e\<lparr>en_stats := stats\<lparr>es_observations_recorded := es_observations_recorded stats + 1\<rparr>\<rparr>)))"

definition RecordObservation ::
    "Clocks \<Rightarrow> ObservationSubmission \<Rightarrow> Engine \<Rightarrow> Status \<times> ObservationCommitResult option \<times> Engine" where
  "RecordObservation ck submission e = RecordObservationAt ck submission 0 e"

section \<open>Classification and planning\<close>

text \<open>
  The classification input of a scope: the committed intent, if any, and the retained stream. The
  \<open>limits\<close> pointer of the input is not read by \<open>ClassifyScope\<close>.
\<close>

definition scope_input :: "ScopeId \<Rightarrow> ReconciliationPolicy \<Rightarrow> UnixMillis \<Rightarrow> Engine \<Rightarrow> ClassificationInput" where
  "scope_input scope policy now e =
     (let intent = map_find scope (ds_intents (en_state e));
          stream = lookup_or [] (map_find scope (ds_observations (en_state e)))
      in \<lparr>ci_scope = scope, ci_intents = (case intent of None \<Rightarrow> [] | Some d \<Rightarrow> [Some d]),
          ci_observations = map Some stream,
          ci_committed_intent_generation = (case intent of None \<Rightarrow> Counter 0 | Some d \<Rightarrow> in_generation d),
          ci_has_committed_intent = (intent \<noteq> None), ci_policy = Some policy,
          ci_live_epoch = en_live_epoch e, ci_now_unix_ms = now\<rparr>)"

definition count_work :: "ClassificationReport \<Rightarrow> EngineStats \<Rightarrow> EngineStats" where
  "count_work report stats =
     stats\<lparr>es_subject_visits := es_subject_visits stats + of_nat (cr_subject_visits report),
           es_attribute_comparisons :=
             es_attribute_comparisons stats + of_nat (cr_attribute_comparisons report)\<rparr>"

definition ClassifyLocked ::
    "Clocks \<Rightarrow> ScopeId \<Rightarrow> UnixMillis \<Rightarrow> Engine \<Rightarrow> (Status + ClassificationReport) \<times> Engine" where
  "ClassifyLocked ck scope now_ms e =
     (case ClassifyScope (scope_input scope (ds_policy (en_state e)) (stamp_or now_ms (ck_now ck)) e) of
        Inl status \<Rightarrow> (Inl status, e)
      | Inr report \<Rightarrow> (Inr report, e\<lparr>en_stats := count_work report (en_stats e)\<rparr>))"

definition Classify ::
    "Clocks \<Rightarrow> ScopeId \<Rightarrow> UnixMillis \<Rightarrow> Engine \<Rightarrow> (Status + ClassificationReport) \<times> Engine" where
  "Classify ck scope now_ms e =
     (if \<not> ds_has_policy (en_state e)
      then (Inl (Status Code_PreconditionFailed Reason_NoIntentForScope), e)
      else ClassifyLocked ck scope now_ms e)"

record PlanRequest =
  pq_scope :: ScopeId
  pq_policy :: "ReconciliationPolicy option"
  pq_now_unix_ms :: UnixMillis
  pq_dry_run :: bool

text \<open>What the switch over the drift class decides: action, disposition, reason, explanation.\<close>

type_synonym choice = "ActionKind \<times> DecisionDisposition \<times> ReasonCode \<times> Explanation"

definition explain_delta :: "AttributeDelta \<Rightarrow> Explanation \<Rightarrow> Explanation" where
  "explain_delta d x =
     (if ad_kind d = Delta_ObserveOnly
      then explain_Add Reason_PolicyForbidsApplyMismatch (''observe-only attribute '' @ str (ad_key d)) x
      else if ad_kind d \<noteq> Delta_Unmanaged
      then explain_Add Reason_ClassifiedAttributeMismatch
             (str (ad_key d) @ '' intended='' @ Render (ad_intended d) @ '' observed='' @
              Render (ad_observed d)) x
      else x)"

definition choose_mismatched :: "ReconciliationPolicy \<Rightarrow> DriftRecord \<Rightarrow> Explanation \<Rightarrow> choice" where
  "choose_mismatched policy record x =
     (let observe_only = list_ex (\<lambda>d. ad_kind d = Delta_ObserveOnly) (dr_deltas record);
          actionable = list_ex (\<lambda>d. ad_kind d \<noteq> Delta_ObserveOnly \<and> ad_kind d \<noteq> Delta_Unmanaged)
            (dr_deltas record);
          x = fold explain_delta (dr_deltas record) x
      in if \<not> permit_apply_mismatched policy
         then (Action_None, Disp_Blocked, Reason_PolicyForbidsApplyMismatch,
               explain_Add Reason_PolicyForbidsApplyMismatch [] x)
         else if actionable \<and> \<not> observe_only
         then (Action_ApplyDesired, Disp_Actionable, dr_reason record, explain_Add Reason_ActionEligible [] x)
         else if observe_only
         then (Action_None, Disp_Blocked, Reason_PolicyForbidsApplyMismatch, x)
         else (Action_None, Disp_AlreadySatisfied, Reason_ClassifiedAlreadyConverged, x))"

fun choose_disposition :: "DriftClass \<Rightarrow> ReconciliationPolicy \<Rightarrow> DriftRecord \<Rightarrow> Explanation \<Rightarrow> choice" where
  "choose_disposition Drift_AlreadyConverged policy record x = (Action_None, Disp_AlreadySatisfied, dr_reason record, x)"
| "choose_disposition Drift_Missing policy record x =
     (if \<not> permit_apply_missing policy
      then (Action_None, Disp_Blocked, Reason_PolicyForbidsApplyMissing,
            explain_Add Reason_PolicyForbidsApplyMissing [] x)
      else (Action_ApplyDesired, Disp_Actionable, dr_reason record, explain_Add Reason_ActionEligible [] x))"
| "choose_disposition Drift_Unexpected policy record x =
     (if \<not> permit_withdraw_unexpected policy
      then (Action_None, Disp_Blocked, Reason_PolicyForbidsWithdrawUnexpected,
            explain_Add Reason_PolicyForbidsWithdrawUnexpected [] x)
      else (Action_WithdrawSubject, Disp_Actionable, dr_reason record,
            explain_Add Reason_ActionEligible [] x))"
| "choose_disposition Drift_Mismatched policy record x = choose_mismatched policy record x"
| "choose_disposition Drift_Conflict policy record x =
     (Action_None, Disp_Conflicted, dr_reason record, explain_Add Reason_DriftIsConflicted [] x)"
| "choose_disposition Drift_Unsupported policy record x =
     (Action_None, Disp_Unsupported, dr_reason record, explain_Add Reason_SubjectKindUnsupported [] x)"
| "choose_disposition _ policy record x =
     (Action_None, Disp_Indeterminate, dr_reason record, explain_Add Reason_DriftIsIndeterminate [] x)"

text \<open>What the decisions of a plan share.\<close>

record PlanContext =
  pc_policy :: ReconciliationPolicy
  pc_evidence :: ScopeEvidenceRef
  pc_intent :: "IntentDocument option"
  pc_observation :: "ObservationDocument option"
  pc_authority :: AuthorityVector
  pc_live :: LiveAuthority

definition assess_subject :: "PlanContext \<Rightarrow> ScopeId \<Rightarrow> SubjectId \<Rightarrow> Engine \<Rightarrow> AuthorityAssessment" where
  "assess_subject pc scope subject e =
     AssessAuthority (pc_authority pc) (pc_live pc) (ReasonOf (ev_freshness (pc_evidence pc)))
       (ev_freshness (pc_evidence pc) = Fresh_Fresh) (FenceHoldsFor scope subject (en_live_epoch e) e)"

definition desired_of :: "IntentDocument option \<Rightarrow> SubjectId \<Rightarrow> SubjectState" where
  "desired_of intent k =
     (case intent of None \<Rightarrow> [] | Some d \<Rightarrow>
       (case map_find k (in_subjects d) of None \<Rightarrow> [] | Some s \<Rightarrow> si_desired s))"

definition observed_of :: "ObservationDocument option \<Rightarrow> SubjectId \<Rightarrow> SubjectState" where
  "observed_of observation k =
     (case observation of None \<Rightarrow> [] | Some d \<Rightarrow>
       (case map_find k (ob_subjects d) of None \<Rightarrow> [] | Some s \<Rightarrow> so_observed s))"

text \<open>One decision; the second component says whether \<open>fenced_decisions\<close> is counted.\<close>

definition decide :: "PlanContext \<Rightarrow> Engine \<Rightarrow> DriftRecord \<Rightarrow> Decision \<times> bool" where
  "decide pc e record =
     (let fence_holds = FenceHoldsFor (dr_scope record) (dr_subject record) (en_live_epoch e) e;
          assessment = assess_subject pc (dr_scope record) (dr_subject record) e;
          x = explain_Add (dr_reason record) [] (explanation_new (max_explanation_steps (en_limits e)));
          x = explain_Add (if aa_proven assessment then Reason_AuthorityProven else aa_reason assessment)
                (if aa_proven assessment then []
                 else RenderAuthorityMask (aa_failed_components assessment)) x;
          (action, disposition, reason, x) = choose_disposition (dr_drift record) (pc_policy pc) record x;
          revoked = (disposition = Disp_Actionable \<and> \<not> aa_proven assessment);
          (action, disposition, reason) =
            (if revoked
             then (Action_None, if fence_holds then Disp_Fenced else Disp_Blocked, aa_reason assessment)
             else (action, disposition, reason))
      in (\<lparr>de_scope = dr_scope record, de_subject = dr_subject record, de_drift = dr_drift record,
           de_reason = reason, de_action = action, de_disposition = disposition,
           de_authority = pc_authority pc,
           de_idempotency_key = ComputeIdempotencyKey (dr_scope record) (dr_subject record) action
             (pc_authority pc) (desired_of (pc_intent pc) (dr_subject record))
             (observed_of (pc_observation pc) (dr_subject record)),
           de_explanation = x, de_evidence = dr_evidence record\<rparr>, revoked))"

text \<open>The loop over the records, bounded by \<open>max_plan_actions\<close>: decisions, count, truncated.\<close>

fun decide_all ::
    "PlanContext \<Rightarrow> Engine \<Rightarrow> DriftRecord list \<Rightarrow> Decision list \<Rightarrow> u64 \<Rightarrow> Decision list \<times> u64 \<times> bool" where
  "decide_all pc e [] ds fenced = (ds, fenced, False)"
| "decide_all pc e (r # rs) ds fenced =
     (if length ds \<ge> max_plan_actions (en_limits e) then (ds, fenced, True)
      else let (d, revoked) = decide pc e r
           in decide_all pc e rs (ds @ [d]) (if revoked then fenced + 1 else fenced))"

definition any_disposition :: "DecisionDisposition set \<Rightarrow> Decision list \<Rightarrow> bool" where
  "any_disposition D ds = list_ex (\<lambda>d. de_disposition d \<in> D) ds"

definition scope_verdict ::
    "RuntimeLimits \<Rightarrow> ScopeEvidenceRef \<Rightarrow> bool \<Rightarrow> ReconciliationPlan \<Rightarrow> ConvergenceVerdict \<times> ReasonCode \<times> ReasonCode \<times> string" where
  "scope_verdict limits evidence truncated plan =
     (let ds = pl_decisions plan
      in if truncated
         then (Verdict_SearchLimitReached, Reason_PlanTruncated, Reason_PlanActionLimitReached,
               ''decisions bounded at '' @ decimal (max_plan_actions limits))
         else if \<not> ev_has_intent evidence
         then (Verdict_Indeterminate, Reason_NoIntentForScope, Reason_NoIntentForScope, [])
         else if \<not> ev_has_observation evidence
         then (Verdict_Indeterminate, Reason_NoObservationForScope, Reason_NoObservationForScope, [])
         else if ev_freshness evidence \<noteq> Fresh_Fresh
         then (Verdict_Indeterminate, ReasonOf (ev_freshness evidence), ReasonOf (ev_freshness evidence),
               FreshnessVerdict_text (ev_freshness evidence))
         else if any_disposition {Disp_Indeterminate, Disp_Conflicted, Disp_Unsupported, Disp_Invalid} ds
         then (Verdict_Indeterminate, Reason_DriftIsIndeterminate, Reason_DriftIsIndeterminate,
               decimal (CountDisposition Disp_Indeterminate plan) @ '' indeterminate subjects'')
         else if any_disposition {Disp_Actionable} ds
         then (Verdict_ConvergenceRequired, Reason_ActionEligible, Reason_ActionEligible,
               decimal (MutationCount plan) @ '' actions required'')
         else if any_disposition {Disp_Blocked, Disp_Fenced} ds
         then (Verdict_ProvenBlocked, Reason_DriftIsConflicted, Reason_DriftIsConflicted,
               ''no legal plan reaches the intent under the active policy'')
         else (Verdict_ConvergedProven, Reason_ClassifiedAlreadyConverged,
               Reason_ClassifiedAlreadyConverged, decimal (length ds) @ '' subjects proven equal''))"

definition plan_context :: "ReconciliationPolicy \<Rightarrow> ClassificationInput \<Rightarrow> ScopeEvidenceRef \<Rightarrow> Engine \<Rightarrow> PlanContext" where
  "plan_context policy input evidence e =
     \<lparr>pc_policy = policy, pc_evidence = evidence,
      pc_intent = (case ci_intents input of [] \<Rightarrow> None | d # _ \<Rightarrow> d),
      pc_observation = (if ci_observations input = [] then None
        else os_selected (SelectCurrentObservation (ci_observations input))),
      pc_authority = BuildAuthority evidence e,
      pc_live = \<lparr>la_coordinator_epoch = en_live_epoch e, la_boot = en_live_boot e,
        la_policy_id = po_id policy, la_policy_version = po_version policy,
        la_policy_digest = ComputePolicyDigest policy\<rparr>\<rparr>"

text \<open>The plan before its decisions and verdict are known.\<close>

definition plan_start :: "ScopeId \<Rightarrow> ReconciliationPolicy \<Rightarrow> ScopeEvidenceRef \<Rightarrow> Engine \<Rightarrow> ReconciliationPlan" where
  "plan_start scope policy evidence e =
     \<lparr>pl_scope = scope, pl_definition = ev_definition evidence, pl_epoch = en_live_epoch e,
      pl_boot = en_live_boot e, pl_policy_id = po_id policy, pl_policy_version = po_version policy,
      pl_policy_digest = ComputePolicyDigest policy,
      pl_intent_generation = ev_intent_generation evidence, pl_intent = ev_intent evidence,
      pl_intent_digest = ev_intent_digest evidence, pl_observation = ev_observation evidence,
      pl_observation_generation = ev_observation_generation evidence,
      pl_reporter = ev_reporter evidence, pl_observation_digest = ev_observation_digest evidence,
      pl_observation_epoch = ev_received_epoch evidence,
      pl_observation_received_unix_ms = ev_received_unix_ms evidence,
      pl_freshness = ev_freshness evidence, pl_verdict = Verdict_Invalid,
      pl_evidence = ev_evidence evidence, pl_truncated = False, pl_decisions = [],
      pl_scope_explanation = explanation_new (max_explanation_steps (en_limits e)),
      pl_scope_reason = Reason_None, pl_plan_digest = zero_digest, pl_plan_id = []\<rparr>"

definition BuildPlanLocked ::
    "Clocks \<Rightarrow> PlanRequest \<Rightarrow> Engine \<Rightarrow> (Status + ReconciliationPlan) \<times> Engine" where
  "BuildPlanLocked ck request e =
     (if id_empty (pq_scope request) then (Inl (Status Code_Rejected Reason_UnsupportedInput), e)
      else if \<not> ds_has_policy (en_state e)
      then (Inl (Status Code_PreconditionFailed Reason_NoIntentForScope), e)
      else let policy = lookup_or (ds_policy (en_state e)) (pq_policy request);
               input = scope_input (pq_scope request) policy (stamp_or (pq_now_unix_ms request) (ck_now ck)) e
      in case ClassifyScope input of
           Inl status \<Rightarrow> (Inl status, e)
         | Inr report \<Rightarrow>
             (let e = e\<lparr>en_stats := count_work report (en_stats e)\<rparr>;
                  evidence = cr_evidence report;
                  pc = plan_context policy input evidence e;
                  (decisions, fenced, truncated) =
                    decide_all pc e (cr_records report) [] (es_fenced_decisions (en_stats e));
                  plan = (plan_start (pq_scope request) policy evidence e)\<lparr>pl_decisions := decisions\<rparr>;
                  (verdict, scope_reason, step, detail) =
                    scope_verdict (en_limits e) evidence truncated plan;
                  plan = plan\<lparr>pl_verdict := verdict, pl_scope_reason := scope_reason,
                    pl_scope_explanation := explain_Add step detail (pl_scope_explanation plan),
                    pl_truncated := truncated\<rparr>
              in (Inr (Seal plan),
                  e\<lparr>en_stats := (en_stats e)\<lparr>es_fenced_decisions := fenced,
                       es_plans_built := es_plans_built (en_stats e) + 1\<rparr>\<rparr>)))"

definition engine_Plan ::
    "Clocks \<Rightarrow> PlanRequest \<Rightarrow> Engine \<Rightarrow> (Status + ReconciliationPlan) \<times> Engine" where
  "engine_Plan ck request e = BuildPlanLocked ck request e"

section \<open>Dispatch\<close>

record DispatchResult =
  dp_intents :: "ActionIntent list"
  dp_fenced :: nat
  dp_superseded :: nat
  dp_already_issued :: nat

text \<open>A live attempt of this epoch under the decision's key, the first in identity order.\<close>

definition find_issued :: "Sha256Digest \<Rightarrow> Engine \<Rightarrow> AttemptRecord option" where
  "find_issued key e =
     find (\<lambda>a. at_idempotency_key a = key \<and> at_epoch a = en_live_epoch e \<and>
               \<not> IsTerminalAttemptState (at_state a)) (map snd (ds_attempts (en_state e)))"

text \<open>The action handed out for an attempt; \<open>expected_observed\<close> is not filled in.\<close>

definition action_of :: "IntentDocument \<Rightarrow> AttemptRecord \<Rightarrow> ActionIntent" where
  "action_of intent a =
     \<lparr>ai_scope = at_scope a, ai_subject = at_subject a, ai_action = at_action a,
      ai_desired = desired_of (Some intent) (at_subject a), ai_expected_observed = [],
      ai_authority = at_authority a, ai_idempotency_key = at_idempotency_key a, ai_attempt = at_id a,
      ai_epoch = at_epoch a, ai_boot = at_boot a, ai_issued_unix_ms = at_issued_unix_ms a\<rparr>"

definition new_attempt :: "UnixMillis \<Rightarrow> Decision \<Rightarrow> Engine \<Rightarrow> AttemptRecord" where
  "new_attempt now d e =
     (let next_attempt = cval (ds_next_attempt (en_state e))
      in \<lparr>at_id = Counter (if next_attempt = 0 then 1 else next_attempt),
          at_idempotency_key = de_idempotency_key d, at_scope = de_scope d, at_subject = de_subject d,
          at_action = de_action d, at_epoch = en_live_epoch e, at_boot = en_live_boot e,
          at_authority = de_authority d, at_state = Attempt_Dispatched, at_issued_unix_ms = now,
          at_transitions = [\<lparr>tr_from = Attempt_Issued, tr_to = Attempt_Dispatched,
            tr_epoch = en_live_epoch e, tr_boot = en_live_boot e, tr_at_unix_ms = now,
            tr_reason = Reason_AttemptIssued, tr_verification_reason = Reason_None\<rparr>]\<rparr>)"

fun dispatch_loop ::
    "UnixMillis \<Rightarrow> IntentDocument \<Rightarrow> Decision list \<Rightarrow> DispatchResult \<Rightarrow> Engine \<Rightarrow>
     (Status + DispatchResult) \<times> Engine" where
  "dispatch_loop now intent [] result e = (Inr result, e)"
| "dispatch_loop now intent (d # ds) result e =
     (if de_disposition d \<noteq> Disp_Actionable then dispatch_loop now intent ds result e
      else if FenceHoldsFor (de_scope d) (de_subject d) (en_live_epoch e) e
      then dispatch_loop now intent ds (result\<lparr>dp_fenced := dp_fenced result + 1\<rparr>) e
      else case find_issued (de_idempotency_key d) e of
        Some a \<Rightarrow> dispatch_loop now intent ds
          (result\<lparr>dp_intents := dp_intents result @ [action_of intent a],
                  dp_already_issued := dp_already_issued result + 1\<rparr>) e
      | None \<Rightarrow>
          (let a = new_attempt now d e;
               (issued, store) = store_IssueAttempt a (en_store e);
               e = e\<lparr>en_store := store\<rparr>
           in if \<not> status_ok issued then (Inl issued, e)
              else dispatch_loop now intent ds
                (result\<lparr>dp_intents := dp_intents result @ [action_of intent a]\<rparr>)
                (e\<lparr>en_stats := (en_stats e)\<lparr>es_actions_dispatched :=
                    es_actions_dispatched (en_stats e) + 1\<rparr>\<rparr>)))"

text \<open>The checks that a plan is still the current one, in the order of the code.\<close>

definition plan_stale :: "ReconciliationPlan \<Rightarrow> Engine \<Rightarrow> Status option" where
  "plan_stale plan e =
     (let stale = (\<lambda>reason. Some (Status Code_StaleAuthority reason));
          intent = map_find (pl_scope plan) (ds_intents (en_state e));
          stream = lookup_or [] (map_find (pl_scope plan) (ds_observations (en_state e)))
      in if st_read_only (en_store e) then Some engine_read_only
         else if pl_epoch plan \<noteq> en_live_epoch e \<or> pl_boot plan \<noteq> en_live_boot e
         then stale Reason_AuthorityEpochMismatch
         else if \<not> ds_has_policy (en_state e)
         then Some (Status Code_PreconditionFailed Reason_NoIntentForScope)
         else if pl_policy_digest plan \<noteq> ComputePolicyDigest (ds_policy (en_state e))
         then stale Reason_AuthorityPolicyMismatch
         else if (case intent of None \<Rightarrow> True | Some d \<Rightarrow>
                    in_generation d \<noteq> pl_intent_generation plan \<or> in_digest d \<noteq> pl_intent_digest plan)
         then stale Reason_AuthorityIntentGenerationMismatch
         else if (case os_selected (SelectCurrentObservation (map Some stream)) of
                    None \<Rightarrow> True
                  | Some d \<Rightarrow> ob_observation d \<noteq> pl_observation plan \<or>
                      ob_generation d \<noteq> pl_observation_generation plan \<or>
                      ob_digest d \<noteq> pl_observation_digest plan)
         then stale Reason_AuthorityObservationGenerationMismatch
         else None)"

definition Dispatch :: "Clocks \<Rightarrow> ReconciliationPlan \<Rightarrow> Engine \<Rightarrow> (Status + DispatchResult) \<times> Engine" where
  "Dispatch ck plan e =
     (case plan_stale plan e of
        Some refused \<Rightarrow> (Inl refused, e)
      | None \<Rightarrow>
        (case map_find (pl_scope plan) (ds_intents (en_state e)) of
           None \<Rightarrow> (Inl (Status Code_StaleAuthority Reason_AuthorityIntentGenerationMismatch), e)
         | Some intent \<Rightarrow>
           (case dispatch_loop (ck_now ck) intent (pl_decisions plan)
                   \<lparr>dp_intents = [], dp_fenced = 0, dp_superseded = 0, dp_already_issued = 0\<rparr> e of
              (Inl refused, e) \<Rightarrow> (Inl refused, e)
            | (Inr result, e) \<Rightarrow> (Inr result, MaybeCompactLocked ck e))))"

section \<open>The life of an attempt\<close>

record CompletionRequest =
  cq_attempt :: AttemptId
  cq_epoch :: CoordinatorEpoch
  cq_boot :: BootId
  cq_idempotency_key :: Sha256Digest
  cq_target :: AttemptState
  cq_at_unix_ms :: UnixMillis
  cq_reason :: ReasonCode
  cq_detail :: string

text \<open>The attempt after a step: its new state and its bounded lineage.\<close>

definition step_attempt ::
    "AttemptState \<Rightarrow> UnixMillis \<Rightarrow> ReasonCode \<Rightarrow> ReasonCode \<Rightarrow> Engine \<Rightarrow> AttemptRecord \<Rightarrow> AttemptRecord" where
  "step_attempt target now reason verification e a =
     a\<lparr>at_state := target,
       at_transitions := append_shifting (en_limits e)
         (transition_to target now reason verification e a) (at_transitions a)\<rparr>"

definition bump_rejected_late :: "Engine \<Rightarrow> Engine" where
  "bump_rejected_late e = e\<lparr>en_stats := (en_stats e)\<lparr>es_completions_rejected_late :=
     es_completions_rejected_late (en_stats e) + 1\<rparr>\<rparr>"

definition bump_duplicate_completions :: "Engine \<Rightarrow> Engine" where
  "bump_duplicate_completions e = e\<lparr>en_stats := (en_stats e)\<lparr>es_duplicate_completions :=
     es_duplicate_completions (en_stats e) + 1\<rparr>\<rparr>"

definition bump_completions_accepted :: "Engine \<Rightarrow> Engine" where
  "bump_completions_accepted e = e\<lparr>en_stats := (en_stats e)\<lparr>es_completions_accepted :=
     es_completions_accepted (en_stats e) + 1\<rparr>\<rparr>"

definition bump_verifications_rejected :: "Engine \<Rightarrow> Engine" where
  "bump_verifications_rejected e = e\<lparr>en_stats := (en_stats e)\<lparr>es_verifications_rejected :=
     es_verifications_rejected (en_stats e) + 1\<rparr>\<rparr>"

definition bump_verifications_accepted :: "Engine \<Rightarrow> Engine" where
  "bump_verifications_accepted e = e\<lparr>en_stats := (en_stats e)\<lparr>es_verifications_accepted :=
     es_verifications_accepted (en_stats e) + 1\<rparr>\<rparr>"

text \<open>The part of \<open>Complete\<close> after its guards: the durable transition and its outcome.\<close>

definition complete_attempt ::
    "Clocks \<Rightarrow> CompletionRequest \<Rightarrow> AttemptRecord \<Rightarrow> Engine \<Rightarrow> Status \<times> ReconciliationOutcome option \<times> Engine" where
  "complete_attempt ck request a e =
     (let now = stamp_or (cq_at_unix_ms request) (ck_now ck);
          reason = (if cq_reason request \<noteq> Reason_None then cq_reason request
                    else ReasonOfAttempt (cq_target request));
          attempt = step_attempt (cq_target request) now reason Reason_None e a;
          (recorded, store) = store_TransitionAttempt attempt (en_store e);
          e = e\<lparr>en_store := store\<rparr>
      in if \<not> status_ok recorded then (recorded, None, e)
         else let e = bump_completions_accepted e
         in if IsTerminalAttemptState (at_state attempt)
            then let outcome = MakeOutcome attempt (at_state attempt) reason
                       (IsInconclusiveTerminalState (at_state attempt)) now;
                     (committed, store) = store_CommitOutcome outcome (en_store e);
                     e = e\<lparr>en_store := store\<rparr>
              in if \<not> status_ok committed then (committed, None, e)
                 else (Status_Ok, Some outcome, MaybeCompactLocked ck e)
            else (Status_Ok, Some (MakeOutcome attempt (at_state attempt) reason False now),
                  MaybeCompactLocked ck e))"

definition Complete ::
    "Clocks \<Rightarrow> CompletionRequest \<Rightarrow> Engine \<Rightarrow> Status \<times> ReconciliationOutcome option \<times> Engine" where
  "Complete ck request e =
     (if st_read_only (en_store e) then (engine_read_only, None, e)
      else case map_find (cval (cq_attempt request)) (ds_attempts (en_state e)) of
        None \<Rightarrow> (Status Code_NotFound Reason_AttemptUnknown, None, e)
      | Some a \<Rightarrow>
          if at_idempotency_key a \<noteq> cq_idempotency_key request
          then (Status Code_Rejected Reason_AttemptUnknown, None, e)
          else if cq_epoch request \<noteq> en_live_epoch e \<or> cq_boot request \<noteq> en_live_boot e
          then (Status Code_StaleAuthority Reason_AttemptFencedByEpochAdvance, None, bump_rejected_late e)
          else if at_epoch a \<noteq> en_live_epoch e \<or> at_boot a \<noteq> en_live_boot e
          then (Status Code_StaleAuthority Reason_AttemptFencedByEpochAdvance, None, bump_rejected_late e)
          else if IsTerminalAttemptState (at_state a)
          then (Status Code_ConflictState Reason_AttemptTerminalAlready, None, bump_duplicate_completions e)
          else if \<not> TransitionLegal (at_state a) (cq_target request)
          then (Status Code_Rejected Reason_AttemptTransitionIllegal, None, e)
          else complete_attempt ck request a e)"

section \<open>Verification\<close>

definition find_by_key :: "Sha256Digest \<Rightarrow> DurableState \<Rightarrow> AttemptRecord option" where
  "find_by_key key st = find (\<lambda>a. at_idempotency_key a = key) (map snd (ds_attempts st))"

definition find_evidence :: "VerificationEvidence \<Rightarrow> DurableState \<Rightarrow> ObservationDocument option" where
  "find_evidence v st =
     find (\<lambda>d. ob_observation d = ve_observation v \<and> ob_generation d = ve_generation v \<and>
               ob_reporter d = ve_verifier v)
       (lookup_or [] (map_find (ve_scope v) (ds_observations st)))"

definition verify_attempt ::
    "Clocks \<Rightarrow> VerificationEvidence \<Rightarrow> AttemptRecord \<Rightarrow> Engine \<Rightarrow>
     Status \<times> ReconciliationOutcome option \<times> Engine" where
  "verify_attempt ck v a e =
     (let now = stamp_or (ve_received_unix_ms v) (ck_later ck);
          target = (if ve_confirms_effect v then Attempt_Verified else Attempt_Failed);
          reason = (if ve_confirms_effect v then Reason_AttemptVerified else Reason_AttemptFailed);
          verification = (if ve_confirms_effect v then Reason_AttemptVerified
                          else Reason_VerificationNotNewer);
          attempt = step_attempt target now reason verification e a;
          (recorded, store) = store_TransitionAttempt attempt (en_store e);
          e = e\<lparr>en_store := store\<rparr>
      in if \<not> status_ok recorded then (recorded, None, e)
         else let outcome = (MakeOutcome attempt target reason (\<not> ve_confirms_effect v) now)
                    \<lparr>oc_verified_generation := ve_generation v\<rparr>;
                  (committed, store) = store_CommitOutcome outcome (en_store e);
                  e = e\<lparr>en_store := store\<rparr>
         in if \<not> status_ok committed then (committed, None, e)
            else (Status_Ok, Some outcome, MaybeCompactLocked ck (bump_verifications_accepted e)))"

definition Verify ::
    "Clocks \<Rightarrow> VerificationEvidence \<Rightarrow> Engine \<Rightarrow> Status \<times> ReconciliationOutcome option \<times> Engine" where
  "Verify ck v e =
     (if st_read_only (en_store e) then (engine_read_only, None, e)
      else let policy = ds_policy (en_state e); rejected = bump_verifications_rejected e
      in case find_by_key (ve_idempotency_key v) (en_state e) of
        None \<Rightarrow> (Status Code_NotFound Reason_AttemptUnknown, None, e)
      | Some a \<Rightarrow>
          if at_scope a \<noteq> ve_scope v \<or> at_subject a \<noteq> ve_subject v
          then (Status Code_Rejected Reason_AttemptUnknown, None, e)
          else if at_epoch a \<noteq> en_live_epoch e \<or> at_boot a \<noteq> en_live_boot e
          then (Status Code_StaleAuthority Reason_AttemptFencedByEpochAdvance, None, e)
          else if at_state a \<noteq> Attempt_Applied
          then (Status Code_PreconditionFailed Reason_VerificationNotNewer, None, e)
          else if require_independent_verification policy \<and> ve_verifier v = ve_applier v
          then (Status Code_Rejected Reason_VerificationNotIndependent, None, rejected)
          else if ve_received_epoch v \<noteq> en_live_epoch e
          then (Status Code_StaleAuthority Reason_ObservationForeignEpoch, None, rejected)
          else if \<not> av_observation_generation (at_authority a) < ve_generation v
          then (Status Code_StaleAuthority Reason_VerificationNotNewer, None, rejected)
          else case find_evidence v (en_state e) of
            None \<Rightarrow> (Status Code_NotFound Reason_NoObservationForScope, None, rejected)
          | Some recorded \<Rightarrow>
              (let freshness = EvaluateFreshness recorded (po_freshness policy) (en_live_epoch e) (ck_now ck)
               in if freshness \<noteq> Fresh_Fresh
                  then (Status Code_StaleAuthority (ReasonOf freshness), None, rejected)
                  else verify_attempt ck v a e))"

section \<open>Fences\<close>

definition fence_victims :: "FenceEntry \<Rightarrow> DurableState \<Rightarrow> AttemptRecord list" where
  "fence_victims f st =
     sort_key (\<lambda>a. cval (at_id a))
       (filter (\<lambda>a. \<not> IsTerminalAttemptState (at_state a) \<and> fence_covers f (at_scope a) (at_subject a) \<and>
                   at_epoch a < fe_fenced_below f) (map snd (ds_attempts st)))"

fun fence_loop :: "UnixMillis \<Rightarrow> AttemptRecord list \<Rightarrow> Engine \<Rightarrow> Status \<times> Engine" where
  "fence_loop now [] e = (Status_Ok, e)"
| "fence_loop now (a # as) e =
     (let attempt = step_attempt Attempt_Fenced now Reason_AttemptFencedByEpochAdvance Reason_None e a;
          (recorded, store) = store_TransitionAttempt attempt (en_store e);
          e = e\<lparr>en_store := store\<rparr>
      in if \<not> status_ok recorded then (recorded, e)
         else let (committed, store) = store_CommitOutcome
                    (MakeOutcome attempt Attempt_Fenced Reason_AttemptFencedByEpochAdvance False now)
                    (en_store e);
                  e = e\<lparr>en_store := store\<rparr>
         in if \<not> status_ok committed then (committed, e)
            else fence_loop now as (e\<lparr>en_boot_report := (en_boot_report e)\<lparr>br_attempts_fenced :=
                   br_attempts_fenced (en_boot_report e) + 1\<rparr>\<rparr>))"

definition engine_PutFence :: "Clocks \<Rightarrow> FenceEntry \<Rightarrow> Engine \<Rightarrow> Status \<times> Engine" where
  "engine_PutFence ck fence e =
     (if st_read_only (en_store e) then (engine_read_only, e)
      else if id_empty (fe_id fence) \<or> id_empty (fe_scope fence)
      then (Status Code_Rejected Reason_UnsupportedInput, e)
      else if cval (fe_fenced_below fence) = 0 then (Status Code_Rejected Reason_FenceEpochNotNewer, e)
      else let now = stamp_or (fe_created_unix_ms fence) (ck_now ck);
               entry = fence\<lparr>fe_created_unix_ms := now\<rparr>;
               (stored, store) = store_PutFence entry (en_store e);
               e = e\<lparr>en_store := store\<rparr>
      in if \<not> status_ok stored then (stored, e)
         else let (fenced, e) = fence_loop now (fence_victims entry (en_state e)) e
         in if \<not> status_ok fenced then (fenced, e) else (Status_Ok, MaybeCompactLocked ck e))"

definition engine_ClearFence :: "FenceId \<Rightarrow> Engine \<Rightarrow> Status \<times> Engine" where
  "engine_ClearFence fence e =
     (if st_read_only (en_store e) then (engine_read_only, e)
      else if map_find fence (ds_fences (en_state e)) = None then (Status Code_NotFound Reason_None, e)
      else let (cleared, store) = store_ClearFence fence (en_store e) in (cleared, e\<lparr>en_store := store\<rparr>))"

section \<open>Introspection and durability control\<close>

definition of_scope :: "ScopeId \<Rightarrow> ScopeId \<Rightarrow> bool" where
  "of_scope wanted scope \<longleftrightarrow> id_empty wanted \<or> scope = wanted"

definition ActiveFences :: "ScopeId \<Rightarrow> Engine \<Rightarrow> FenceEntry list" where
  "ActiveFences scope e = filter (\<lambda>f. of_scope scope (fe_scope f)) (map snd (ds_fences (en_state e)))"

definition KnownScopes :: "Engine \<Rightarrow> ScopeId list" where
  "KnownScopes e =
     sort (fold (\<lambda>k scopes. if k \<in> set scopes then scopes else scopes @ [k])
       (map fst (ds_observations (en_state e))) (map fst (ds_intents (en_state e))))"

definition Attempts :: "ScopeId \<Rightarrow> Engine \<Rightarrow> AttemptRecord list" where
  "Attempts scope e =
     sort_key (\<lambda>a. cval (at_id a))
       (filter (\<lambda>a. of_scope scope (at_scope a)) (map snd (ds_attempts (en_state e))))"

definition Outcomes :: "ScopeId \<Rightarrow> Engine \<Rightarrow> ReconciliationOutcome list" where
  "Outcomes scope e = filter (\<lambda>x. of_scope scope (oc_scope x)) (ds_outcomes (en_state e))"

definition ObservationEvidence :: "ScopeId \<Rightarrow> Engine \<Rightarrow> ObservationDocument list" where
  "ObservationEvidence scope e = lookup_or [] (map_find scope (ds_observations (en_state e)))"

definition CurrentIntent :: "ScopeId \<Rightarrow> Engine \<Rightarrow> Status + IntentDocument" where
  "CurrentIntent scope e =
     (case map_find scope (ds_intents (en_state e)) of
        None \<Rightarrow> Inl (Status Code_NotFound Reason_NoIntentForScope)
      | Some d \<Rightarrow> Inr d)"

definition engine_Compact :: "Clocks \<Rightarrow> Engine \<Rightarrow> Status \<times> Engine" where
  "engine_Compact ck e =
     (if st_read_only (en_store e) then (engine_read_only, e)
      else let (status, store) = Compact (ck_snapshot ck) (ck_header ck) (ck_report ck) (en_store e);
               e = e\<lparr>en_store := store\<rparr>
      in if status_ok status
         then (status, e\<lparr>en_stats := (en_stats e)\<lparr>es_compactions := es_compactions (en_stats e) + 1\<rparr>,
                 en_compaction_watermark := ds_sequence (st_state store)\<rparr>)
         else (status, e))"

definition Flush :: "Engine \<Rightarrow> Status \<times> Engine" where
  "Flush e = (let (status, store) = SyncJournal (en_store e) in (status, e\<lparr>en_store := store\<rparr>))"

end
