(* ===== verification/Json.thy ===== *)
theory Json
  imports Attr_Value
begin

text \<open>
  The JSON surface of \<open>json.cpp\<close>: values, the strict bounded parser, and the printer. A double is
  modelled exactly, as a signed binary fraction with the IEEE rounding of \<open>strtod\<close> and the decimal
  rounding of \<open>%.17g\<close>. The parser keeps the unread suffix of the text in place of a position. Printing and
  parsing are inverse on the documents the program prints; every accepted document respects the limits.
\<close>

section \<open>Doubles\<close>

text \<open>\<open>Finite neg m e\<close> is \<open>m * 2 ^ e\<close> with its sign.\<close>

datatype Double = Finite bool nat int | Infinite bool | Not_A_Number

fun isfinite :: "Double \<Rightarrow> bool" where
  "isfinite (Finite _ _ _) = True"
| "isfinite _ = False"

fun is_zero :: "Double \<Rightarrow> bool" where
  "is_zero (Finite _ m _) = (m = 0)"
| "is_zero _ = False"

text \<open>A finite double as a fraction.\<close>

fun double_num :: "Double \<Rightarrow> int" where
  "double_num (Finite neg m e) = (if neg then -1 else 1) * int m * 2 ^ nat e"
| "double_num _ = 0"

fun double_den :: "Double \<Rightarrow> int" where
  "double_den (Finite neg m e) = 2 ^ nat (- e)"
| "double_den _ = 1"

text \<open>A cast to an integer drops the fraction.\<close>

definition double_trunc :: "Double \<Rightarrow> int" where
  "double_trunc d = sgn (double_num d) * (\<bar>double_num d\<bar> div double_den d)"

fun ilog2 :: "nat \<Rightarrow> nat" where
  "ilog2 n = (if n < 2 then 0 else Suc (ilog2 (n div 2)))"

declare ilog2.simps [simp del]

text \<open>The exponent of a positive fraction: the largest \<open>k\<close> with \<open>2 ^ k \<le> num / den\<close>.\<close>

definition fraction_log2 :: "nat \<Rightarrow> nat \<Rightarrow> int" where
  "fraction_log2 num den =
     (let k = int (ilog2 num) - int (ilog2 den)
      in if num * 2 ^ nat (- k) < den * 2 ^ nat k then k - 1 else k)"

definition round_half_even :: "nat \<Rightarrow> nat \<Rightarrow> nat" where
  "round_half_even num den =
     (let q = num div den; r = num mod den
      in if 2 * r > den \<or> (2 * r = den \<and> odd q) then q + 1 else q)"

definition round_double :: "bool \<Rightarrow> nat \<Rightarrow> nat \<Rightarrow> Double" where
  "round_double neg num den =
     (if num = 0 then Finite neg 0 (- 1074)
      else let e = max (fraction_log2 num den - 52) (- 1074);
               q = round_half_even (num * 2 ^ nat (- e)) (den * 2 ^ nat e);
               (q, e) = (if q = 2 ^ 53 then (2 ^ 52, e + 1) else (q, e))
           in if e > 971 then Infinite neg else Finite neg q e)"

definition is_digit :: "char \<Rightarrow> bool" where
  "is_digit c \<longleftrightarrow> CHR ''0'' \<le> c \<and> c \<le> CHR ''9''"

definition digit_value :: "char \<Rightarrow> nat" where
  "digit_value c = of_char c - 48"

definition digits_value :: "string \<Rightarrow> nat" where
  "digits_value s = foldl (\<lambda>n c. 10 * n + digit_value c) 0 s"

definition strip_minus :: "string \<Rightarrow> bool \<times> string" where
  "strip_minus s = (case s of c # t \<Rightarrow> if c = CHR ''-'' then (True, t) else (False, s) | [] \<Rightarrow> (False, []))"

definition exponent_value :: "string \<Rightarrow> int" where
  "exponent_value s =
     (case s of
        [] \<Rightarrow> 0
      | c # t \<Rightarrow>
          (let (neg, t) = (case t of c # u \<Rightarrow> if c = CHR ''-'' then (True, u) else if c = CHR ''+'' then (False, u)
                                     else (False, t) | [] \<Rightarrow> (False, []))
           in if neg then - int (digits_value t) else int (digits_value t)))"

text \<open>
  \<open>strtod\<close> on a literal the parser has checked: the correctly rounded value, and \<open>ERANGE\<close> on overflow and
  on underflow to zero.
\<close>

definition strtod :: "string \<Rightarrow> Double \<times> bool" where
  "strtod s =
     (let (neg, s) = strip_minus s;
          whole = takeWhile is_digit s; s = dropWhile is_digit s;
          (frac, s) = (case s of c # t \<Rightarrow> if c = CHR ''.'' then (takeWhile is_digit t, dropWhile is_digit t) else ([], s)
                       | [] \<Rightarrow> ([], []));
          n = digits_value (whole @ frac);
          e = exponent_value s - int (length frac);
          d = round_double neg (n * 10 ^ nat e) (10 ^ nat (- e))
      in (d, \<not> isfinite d \<or> (n \<noteq> 0 \<and> is_zero d)))"

function decimal_shift :: "nat \<Rightarrow> nat \<Rightarrow> nat" where
  "decimal_shift num den = (if num = 0 \<or> num \<ge> den then 0 else Suc (decimal_shift (10 * num) den))"
  by pat_completeness auto
termination by (relation "measure (\<lambda>(num, den). den - num)") auto

declare decimal_shift.simps [simp del]

definition strip_zeros :: "string \<Rightarrow> string" where
  "strip_zeros s = rev (dropWhile (\<lambda>c. c = CHR ''0'') (rev s))"

definition with_fraction :: "string \<Rightarrow> string \<Rightarrow> string" where
  "with_fraction whole frac = (if strip_zeros frac = [] then whole else whole @ ''.'' @ strip_zeros frac)"

text \<open>\<open>%.17g\<close>: seventeen significant digits, trailing zeros dropped, an exponent outside -4 .. 16.\<close>

definition format_g17 :: "Double \<Rightarrow> string" where
  "format_g17 d =
     (case d of
        Not_A_Number \<Rightarrow> ''nan''
      | Infinite neg \<Rightarrow> (if neg then ''-inf'' else ''inf'')
      | Finite neg m e \<Rightarrow>
          (let num = m * 2 ^ nat e; den = 2 ^ nat (- e);
               x = (if num \<ge> den then int (length (decimal (num div den))) - 1
                    else - int (decimal_shift num den));
               q = round_half_even (num * 10 ^ nat (16 - x)) (den * 10 ^ nat (x - 16));
               (q, x) = (if q = 10 ^ 17 then (10 ^ 16, x + 1) else (q, x));
               ds = decimal q
           in (if neg then ''-'' else '''') @
              (if m = 0 then ''0''
               else if - 4 \<le> x \<and> x < 17
               then (if x \<ge> 0 then with_fraction (take (nat x + 1) ds) (drop (nat x + 1) ds)
                     else with_fraction ''0'' (replicate (nat (- x) - 1) CHR ''0'' @ ds))
               else with_fraction (take 1 ds) (drop 1 ds) @ ''e'' @ (if x < 0 then ''-'' else ''+'') @
                 (if nat \<bar>x\<bar> < 10 then ''0'' else '''') @ decimal (nat \<bar>x\<bar>))))"

section \<open>Values\<close>

datatype Kind = JKind_Null | JKind_Boolean | JKind_Integer | JKind_Unsigned | JKind_Real | JKind_Text | JKind_Array
  | JKind_Object

datatype json = JNull | JBoolean bool | JInteger i64 | JUnsigned u64 | JReal Double | JText string
  | JArray "json list" | JObject "(string \<times> json) list"

fun json_kind :: "json \<Rightarrow> Kind" where
  "json_kind JNull = JKind_Null"
| "json_kind (JBoolean _) = JKind_Boolean"
| "json_kind (JInteger _) = JKind_Integer"
| "json_kind (JUnsigned _) = JKind_Unsigned"
| "json_kind (JReal _) = JKind_Real"
| "json_kind (JText _) = JKind_Text"
| "json_kind (JArray _) = JKind_Array"
| "json_kind (JObject _) = JKind_Object"

definition IsNumber :: "json \<Rightarrow> bool" where
  "IsNumber v \<longleftrightarrow> json_kind v = JKind_Integer \<or> json_kind v = JKind_Unsigned \<or> json_kind v = JKind_Real"

fun AsBool :: "bool \<Rightarrow> json \<Rightarrow> bool" where
  "AsBool fallback (JBoolean b) = b"
| "AsBool fallback _ = fallback"

text \<open>The bounds are compared as doubles: \<open>9223372036854775807.0\<close> is the double \<open>2 ^ 63\<close>.\<close>

fun AsInteger :: "i64 \<Rightarrow> json \<Rightarrow> i64" where
  "AsInteger fallback (JInteger i) = i"
| "AsInteger fallback (JUnsigned u) = (if u > 0x7fffffffffffffff then fallback else u)"
| "AsInteger fallback (JReal d) =
     (if \<not> isfinite d then fallback
      else if double_num d < - (2 ^ 63) * double_den d \<or> double_num d > 2 ^ 63 * double_den d then fallback
      else word_of_int (double_trunc d))"
| "AsInteger fallback _ = fallback"

fun AsUnsigned :: "u64 \<Rightarrow> json \<Rightarrow> u64" where
  "AsUnsigned fallback (JUnsigned u) = u"
| "AsUnsigned fallback (JInteger i) = (if sint i < 0 then fallback else i)"
| "AsUnsigned fallback (JReal d) =
     (if \<not> isfinite d \<or> double_num d < 0 \<or> double_num d > 2 ^ 64 * double_den d then fallback
      else word_of_int (double_trunc d))"
| "AsUnsigned fallback _ = fallback"

fun AsReal :: "Double \<Rightarrow> json \<Rightarrow> Double" where
  "AsReal fallback (JReal d) = d"
| "AsReal fallback (JInteger i) = round_double (sint i < 0) (nat \<bar>sint i\<bar>) 1"
| "AsReal fallback (JUnsigned u) = round_double False (unat u) 1"
| "AsReal fallback _ = fallback"

fun AsText :: "json \<Rightarrow> string" where
  "AsText (JText t) = t"
| "AsText _ = []"

fun json_items :: "json \<Rightarrow> json list" where
  "json_items (JArray xs) = xs"
| "json_items _ = []"

fun json_members :: "json \<Rightarrow> (string \<times> json) list" where
  "json_members (JObject ms) = ms"
| "json_members _ = []"

fun json_size :: "json \<Rightarrow> nat" where
  "json_size (JArray xs) = length xs"
| "json_size (JObject ms) = length ms"
| "json_size _ = 0"

text \<open>The first member with the key.\<close>

fun Find :: "string \<Rightarrow> json \<Rightarrow> json option" where
  "Find key (JObject ms) = map_option snd (find (\<lambda>m. fst m = key) ms)"
| "Find key _ = None"

definition Contains :: "string \<Rightarrow> json \<Rightarrow> bool" where
  "Contains key v \<longleftrightarrow> Find key v \<noteq> None"

fun set_member :: "string \<Rightarrow> json \<Rightarrow> (string \<times> json) list \<Rightarrow> (string \<times> json) list" where
  "set_member key v [] = [(key, v)]"
| "set_member key v (m # ms) = (if fst m = key then (key, v) # ms else m # set_member key v ms)"

text \<open>On a value of another kind \<open>Set\<close> and \<open>Push\<close> return \<open>false\<close> and change nothing.\<close>

fun json_Set :: "string \<Rightarrow> json \<Rightarrow> json \<Rightarrow> json" where
  "json_Set key v (JObject ms) = JObject (set_member key v ms)"
| "json_Set key v other = other"

fun Push :: "json \<Rightarrow> json \<Rightarrow> json" where
  "Push v (JArray xs) = JArray (xs @ [v])"
| "Push v other = other"

section \<open>The parser\<close>

record ParseLimits =
  jl_max_bytes :: nat
  jl_max_depth :: nat
  jl_max_items :: nat
  jl_max_string_bytes :: nat
  jl_max_object_members :: nat
  jl_max_array_items :: nat

definition ParseLimits_new :: ParseLimits where
  "ParseLimits_new = \<lparr>jl_max_bytes = 16 * 1024 * 1024, jl_max_depth = 64, jl_max_items = 4000000,
     jl_max_string_bytes = 1024 * 1024, jl_max_object_members = 1000000, jl_max_array_items = 4000000\<rparr>"

text \<open>A rejection carries its reason as detail text, which a status leaves out.\<close>

definition json_Reject :: "string \<Rightarrow> Status" where
  "json_Reject detail = Status Code_Rejected Reason_None"

abbreviation quote :: char where "quote \<equiv> CHR 0x22"
abbreviation backslash :: char where "backslash \<equiv> CHR 0x5C"

definition IsWhitespace :: "char \<Rightarrow> bool" where
  "IsWhitespace c \<longleftrightarrow> c = CHR '' '' \<or> c = CHR 0x09 \<or> c = CHR 0x0D \<or> c = CHR 0x0A"

definition SkipWhitespace :: "string \<Rightarrow> string" where
  "SkipWhitespace rest = dropWhile IsWhitespace rest"

definition ParseLiteral :: "string \<Rightarrow> json \<Rightarrow> string \<Rightarrow> Status + json \<times> string" where
  "ParseLiteral literal v rest =
     (if length rest < length literal \<or> take (length literal) rest \<noteq> literal
      then Inl (json_Reject ''invalid literal'')
      else Inr (v, drop (length literal) rest))"

definition AppendCodePoint :: "string \<Rightarrow> u32 \<Rightarrow> Status + string" where
  "AppendCodePoint out cp =
     (let put = (\<lambda>w :: u32. char_of_byte (ucast w))
      in if cp \<le> 0x7f then Inr (out @ [put cp])
      else if cp \<le> 0x7ff then Inr (out @ [put (0xc0 OR drop_bit 6 cp), put (0x80 OR (cp AND 0x3f))])
      else if cp \<le> 0xffff
        then Inr (out @ [put (0xe0 OR drop_bit 12 cp), put (0x80 OR (drop_bit 6 cp AND 0x3f)), put (0x80 OR (cp AND 0x3f))])
      else if cp \<le> 0x10ffff
        then Inr (out @ [put (0xf0 OR drop_bit 18 cp), put (0x80 OR (drop_bit 12 cp AND 0x3f)),
                         put (0x80 OR (drop_bit 6 cp AND 0x3f)), put (0x80 OR (cp AND 0x3f))])
      else Inl (json_Reject ''code point out of range''))"

definition nibble :: "char \<Rightarrow> u32 option" where
  "nibble c =
     (if CHR ''0'' \<le> c \<and> c \<le> CHR ''9'' then Some (of_char c - 48)
      else if CHR ''a'' \<le> c \<and> c \<le> CHR ''f'' then Some (of_char c - 97 + 10)
      else if CHR ''A'' \<le> c \<and> c \<le> CHR ''F'' then Some (of_char c - 65 + 10)
      else None)"

fun hex_value :: "string \<Rightarrow> u32 \<Rightarrow> u32 option" where
  "hex_value [] v = Some v"
| "hex_value (c # cs) v = (case nibble c of None \<Rightarrow> None | Some n \<Rightarrow> hex_value cs (push_bit 4 v OR n))"

definition ParseHex4 :: "string \<Rightarrow> Status + u32 \<times> string" where
  "ParseHex4 rest =
     (if length rest < 4 then Inl (json_Reject ''truncated unicode escape'')
      else case hex_value (take 4 rest) 0 of
        None \<Rightarrow> Inl (json_Reject ''invalid hex digit in unicode escape'')
      | Some v \<Rightarrow> Inr (v, drop 4 rest))"

text \<open>The branch of an escape \<open>\u\<close>: one code unit, or a surrogate pair.\<close>

definition ParseUnicode :: "string \<Rightarrow> string \<Rightarrow> Status + string \<times> string" where
  "ParseUnicode out rest =
     (case ParseHex4 rest of
        Inl status \<Rightarrow> Inl status
      | Inr (code, rest) \<Rightarrow>
          (if 0xd800 \<le> code \<and> code \<le> 0xdbff
           then (if length rest < 2 \<or> rest ! 0 \<noteq> backslash \<or> rest ! 1 \<noteq> CHR ''u''
                 then Inl (json_Reject ''high surrogate without a low surrogate'')
                 else case ParseHex4 (drop 2 rest) of
                   Inl status \<Rightarrow> Inl status
                 | Inr (second, rest) \<Rightarrow>
                     if second < 0xdc00 \<or> second > 0xdfff
                     then Inl (json_Reject ''high surrogate followed by a non low surrogate'')
                     else case AppendCodePoint out (0x10000 + push_bit 10 (code - 0xd800) + (second - 0xdc00)) of
                       Inl status \<Rightarrow> Inl status
                     | Inr out \<Rightarrow> Inr (out, rest))
           else if 0xdc00 \<le> code \<and> code \<le> 0xdfff then Inl (json_Reject ''lone low surrogate'')
           else case AppendCodePoint out code of Inl status \<Rightarrow> Inl status | Inr out \<Rightarrow> Inr (out, rest)))"

text \<open>After the backslash: the result so far with the escaped character, and what is unread.\<close>

definition ParseEscape :: "string \<Rightarrow> string \<Rightarrow> Status + string \<times> string" where
  "ParseEscape out rest =
     (case rest of
        [] \<Rightarrow> Inl (json_Reject ''unterminated escape sequence'')
      | escape # rest \<Rightarrow>
          if escape = quote then Inr (out @ [quote], rest)
          else if escape = backslash then Inr (out @ [backslash], rest)
          else if escape = CHR ''/'' then Inr (out @ [CHR ''/''], rest)
          else if escape = CHR ''b'' then Inr (out @ [CHR 0x08], rest)
          else if escape = CHR ''f'' then Inr (out @ [CHR 0x0C], rest)
          else if escape = CHR ''n'' then Inr (out @ [CHR 0x0A], rest)
          else if escape = CHR ''r'' then Inr (out @ [CHR 0x0D], rest)
          else if escape = CHR ''t'' then Inr (out @ [CHR 0x09], rest)
          else if escape = CHR ''u'' then ParseUnicode out rest
          else Inl (json_Reject ''invalid escape character''))"

lemma ParseHex4_shorter: "ParseHex4 rest = Inr (v, rest') \<Longrightarrow> length rest' < length rest"
  by (auto simp: ParseHex4_def split: option.splits if_splits)

lemma ParseUnicode_shorter: "ParseUnicode out rest = Inr (out', rest') \<Longrightarrow> length rest' < length rest"
  by (fastforce simp: ParseUnicode_def dest!: ParseHex4_shorter split: sum.splits if_splits)

lemma ParseEscape_shorter: "ParseEscape out rest = Inr (out', rest') \<Longrightarrow> length rest' < length rest"
  by (auto simp: ParseEscape_def dest!: ParseUnicode_shorter split: list.splits if_splits)

text \<open>The loop of \<open>ParseString\<close>, after the opening quote.\<close>

function string_loop :: "ParseLimits \<Rightarrow> string \<Rightarrow> string \<Rightarrow> Status + string \<times> string" where
  "string_loop limits result rest =
     (case rest of
        [] \<Rightarrow> Inl (json_Reject ''unterminated string'')
      | c # cs \<Rightarrow>
          if (of_char c :: nat) < 0x20 then Inl (json_Reject ''raw control character inside a string'')
          else if c = quote then Inr (result, cs)
          else if c = backslash
          then (case ParseEscape result cs of
                  Inl status \<Rightarrow> Inl status
                | Inr (result, rest) \<Rightarrow>
                    if length result > jl_max_string_bytes limits
                    then Inl (json_Reject ''string exceeds max_string_bytes'')
                    else string_loop limits result rest)
          else if length (result @ [c]) > jl_max_string_bytes limits
          then Inl (json_Reject ''string exceeds max_string_bytes'')
          else string_loop limits (result @ [c]) cs)"
  by pat_completeness auto
termination
  by (relation "measure (\<lambda>(limits, result, rest). length rest)") (auto dest: ParseEscape_shorter)

declare string_loop.simps [simp del]

definition ParseString :: "ParseLimits \<Rightarrow> string \<Rightarrow> Status + string \<times> string" where
  "ParseString limits rest = string_loop limits [] (drop 1 rest)"

definition starts :: "(char \<Rightarrow> bool) \<Rightarrow> string \<Rightarrow> bool" where
  "starts p rest = (case rest of [] \<Rightarrow> False | c # _ \<Rightarrow> p c)"

text \<open>\<open>strtoll\<close> and \<open>strtoull\<close> on a checked literal; \<^const>\<open>None\<close> is \<open>ERANGE\<close>.\<close>

definition strtoll :: "string \<Rightarrow> i64 option" where
  "strtoll literal =
     (let (neg, ds) = strip_minus literal; n = int (digits_value ds); n = (if neg then - n else n)
      in if n < - (2 ^ 63) \<or> n > 2 ^ 63 - 1 then None else Some (word_of_int n))"

definition strtoull :: "string \<Rightarrow> u64 option" where
  "strtoull literal = (let n = digits_value literal in if n > 2 ^ 64 - 1 then None else Some (of_nat n))"

text \<open>The three parts of a number: each returns what follows it.\<close>

definition skip_integer :: "string \<Rightarrow> Status + string" where
  "skip_integer rest =
     (if starts (\<lambda>c. c = CHR ''0'') rest
      then (if starts is_digit (drop 1 rest) then Inl (json_Reject ''number has a leading zero'')
            else Inr (drop 1 rest))
      else if starts (\<lambda>c. CHR ''1'' \<le> c \<and> c \<le> CHR ''9'') rest then Inr (dropWhile is_digit rest)
      else Inl (json_Reject ''number has no integer part''))"

definition skip_fraction :: "string \<Rightarrow> Status + bool \<times> string" where
  "skip_fraction rest =
     (if starts (\<lambda>c. c = CHR ''.'') rest
      then (if \<not> starts is_digit (drop 1 rest) then Inl (json_Reject ''fraction has no digits'')
            else Inr (True, dropWhile is_digit (drop 1 rest)))
      else Inr (False, rest))"

definition skip_exponent :: "string \<Rightarrow> Status + bool \<times> string" where
  "skip_exponent rest =
     (if starts (\<lambda>c. c = CHR ''e'' \<or> c = CHR ''E'') rest
      then (let rest = drop 1 rest;
                rest = (if starts (\<lambda>c. c = CHR ''+'' \<or> c = CHR ''-'') rest then drop 1 rest else rest)
            in if \<not> starts is_digit rest then Inl (json_Reject ''exponent has no digits'')
               else Inr (True, dropWhile is_digit rest))
      else Inr (False, rest))"

definition number_of_literal :: "bool \<Rightarrow> bool \<Rightarrow> string \<Rightarrow> Status + json" where
  "number_of_literal is_real negative literal =
     (if is_real
      then (let (d, erange) = strtod literal
            in if erange \<and> (is_zero d \<or> \<not> isfinite d) then Inl (json_Reject ''real number is out of range'')
               else if \<not> isfinite d then Inl (json_Reject ''real number is not finite'')
               else Inr (JReal d))
      else if negative
      then (case strtoll literal of
              None \<Rightarrow> Inl (json_Reject ''integer literal is out of range'')
            | Some i \<Rightarrow> Inr (JInteger i))
      else (case strtoull literal of
              None \<Rightarrow> Inl (json_Reject ''integer literal is out of range'')
            | Some u \<Rightarrow> Inr (if u \<le> 0x7fffffffffffffff then JInteger u else JUnsigned u)))"

definition ParseNumber :: "string \<Rightarrow> Status + json \<times> string" where
  "ParseNumber start =
     (let negative = starts (\<lambda>c. c = CHR ''-'') start;
          rest = (if negative then drop 1 start else start)
      in if negative \<and> rest = [] then Inl (json_Reject ''truncated number'')
      else case skip_integer rest of
        Inl status \<Rightarrow> Inl status
      | Inr rest \<Rightarrow>
          (case skip_fraction rest of
             Inl status \<Rightarrow> Inl status
           | Inr (fraction, rest) \<Rightarrow>
               (case skip_exponent rest of
                  Inl status \<Rightarrow> Inl status
                | Inr (exponent, rest) \<Rightarrow>
                    (case number_of_literal (fraction \<or> exponent) negative (take (length start - length rest) start) of
                       Inl status \<Rightarrow> Inl status
                     | Inr v \<Rightarrow> Inr (v, rest)))))"

lemma string_loop_shorter: "string_loop limits result rest = Inr (t, rest') \<Longrightarrow> length rest' < length rest"
proof (induction limits result rest rule: string_loop.induct)
  case (1 limits result rest)
  then show ?case
    by (subst (asm) (3) string_loop.simps)
      (force dest: ParseEscape_shorter split: list.splits if_splits sum.splits)
qed

lemma ParseString_shorter: "ParseString limits rest = Inr (t, rest') \<Longrightarrow> length rest' < length rest"
  by (auto simp: ParseString_def dest: string_loop_shorter)

lemma SkipWhitespace_shorter: "length (SkipWhitespace rest) \<le> length rest"
  by (simp add: SkipWhitespace_def length_dropWhile_le)

lemma starts_Cons [simp]: "starts p (c # cs) = p c" "starts p [] = False"
  by (simp_all add: starts_def)

lemma skip_integer_shorter: "skip_integer rest = Inr rest' \<Longrightarrow> length rest' < length rest"
proof (cases rest)
  case (Cons c cs)
  assume skip: "skip_integer rest = Inr rest'"
  have "length (dropWhile is_digit cs) \<le> length cs" by (rule length_dropWhile_le)
  moreover have "CHR ''1'' \<le> c \<Longrightarrow> CHR ''0'' \<le> c" by (simp add: less_eq_char_def)
  ultimately show ?thesis
    using skip by (auto simp: skip_integer_def Cons is_digit_def split: if_splits)
qed (simp add: skip_integer_def)

lemma skip_fraction_shorter: "skip_fraction rest = Inr (b, rest') \<Longrightarrow> length rest' \<le> length rest"
  using length_dropWhile_le [of is_digit "drop 1 rest"] by (auto simp: skip_fraction_def split: if_splits)

lemma skip_exponent_shorter: "skip_exponent rest = Inr (b, rest') \<Longrightarrow> length rest' \<le> length rest"
  using length_dropWhile_le [of is_digit "drop 1 rest"] length_dropWhile_le [of is_digit "drop 1 (drop 1 rest)"]
  by (auto simp: skip_exponent_def Let_def split: if_splits)

lemma ParseNumber_shorter:
  assumes "ParseNumber start = Inr (v, rest)"
  shows "length rest < length start"
proof -
  obtain r1 r2 b b' where "skip_integer (if starts (\<lambda>c. c = CHR ''-'') start then drop 1 start else start) = Inr r1"
    "skip_fraction r1 = Inr (b, r2)" "skip_exponent r2 = Inr (b', rest)"
    using assms by (auto simp: ParseNumber_def Let_def split: if_splits sum.splits)
  from skip_integer_shorter [OF this(1)] skip_fraction_shorter [OF this(2)] skip_exponent_shorter [OF this(3)]
  show ?thesis by (simp split: if_splits)
qed

lemma ParseLiteral_shorter:
  "ParseLiteral literal v rest = Inr (w, rest') \<Longrightarrow> literal \<noteq> [] \<Longrightarrow> length rest' < length rest"
  by (cases literal) (auto simp: ParseLiteral_def split: if_splits)

text \<open>The cases of \<open>ParseValue\<close> that do not recurse.\<close>

definition ParseScalar :: "ParseLimits \<Rightarrow> string \<Rightarrow> Status + json \<times> string" where
  "ParseScalar limits rest =
     (if starts (\<lambda>c. c = quote) rest
      then (case ParseString limits rest of Inl status \<Rightarrow> Inl status | Inr (t, rest) \<Rightarrow> Inr (JText t, rest))
      else if starts (\<lambda>c. c = CHR ''t'') rest then ParseLiteral ''true'' (JBoolean True) rest
      else if starts (\<lambda>c. c = CHR ''f'') rest then ParseLiteral ''false'' (JBoolean False) rest
      else if starts (\<lambda>c. c = CHR ''n'') rest then ParseLiteral ''null'' JNull rest
      else if starts (\<lambda>c. c = CHR ''-'' \<or> is_digit c) rest then ParseNumber rest
      else Inl (json_Reject ''unexpected character where a value was expected''))"

lemma ParseScalar_shorter: "ParseScalar limits rest = Inr (v, rest') \<Longrightarrow> length rest' < length rest"
  by (auto simp: ParseScalar_def dest: ParseString_shorter ParseNumber_shorter ParseLiteral_shorter
      split: if_splits sum.splits)

text \<open>
  The recursive descent. \<open>items\<close> counts the values parsed so far, over the whole document. The parsers of
  objects and arrays start after the opening bracket; their loops carry the members so far.
\<close>

function (sequential)
  ParseValue :: "ParseLimits \<Rightarrow> nat \<Rightarrow> string \<Rightarrow> nat \<Rightarrow> Status + json \<times> string \<times> nat" and
  ParseObject :: "ParseLimits \<Rightarrow> nat \<Rightarrow> string \<Rightarrow> nat \<Rightarrow> Status + json \<times> string \<times> nat" and
  object_loop :: "ParseLimits \<Rightarrow> nat \<Rightarrow> json \<Rightarrow> string \<Rightarrow> nat \<Rightarrow> Status + json \<times> string \<times> nat" and
  ParseArray :: "ParseLimits \<Rightarrow> nat \<Rightarrow> string \<Rightarrow> nat \<Rightarrow> Status + json \<times> string \<times> nat" and
  array_loop :: "ParseLimits \<Rightarrow> nat \<Rightarrow> json \<Rightarrow> string \<Rightarrow> nat \<Rightarrow> Status + json \<times> string \<times> nat" where
  "ParseValue limits depth rest items =
     (if depth > jl_max_depth limits then Inl (json_Reject ''depth exceeds max_depth'')
      else if items \<ge> jl_max_items limits then Inl (json_Reject ''document exceeds max_items'')
      else case SkipWhitespace rest of
        [] \<Rightarrow> Inl (json_Reject ''unexpected end of input'')
      | c # cs \<Rightarrow>
          if c = CHR ''{'' then ParseObject limits depth cs (items + 1)
          else if c = CHR ''['' then ParseArray limits depth cs (items + 1)
          else (case ParseScalar limits (c # cs) of
                  Inl status \<Rightarrow> Inl status
                | Inr (v, rest) \<Rightarrow> Inr (v, rest, items + 1)))"
| "ParseObject limits depth rest items =
     (if starts (\<lambda>c. c = CHR ''}'') (SkipWhitespace rest)
      then Inr (JObject [], drop 1 (SkipWhitespace rest), items)
      else object_loop limits depth (JObject []) (SkipWhitespace rest) items)"
| "object_loop limits depth obj rest items =
     (if \<not> starts (\<lambda>c. c = quote) (SkipWhitespace rest) then Inl (json_Reject ''object key must be a string'')
      else case ParseString limits (SkipWhitespace rest) of
        Inl status \<Rightarrow> Inl status
      | Inr (key, rest) \<Rightarrow>
          if \<not> starts (\<lambda>c. c = CHR '':'') (SkipWhitespace rest)
          then Inl (json_Reject ''object member is missing its colon'')
          else case ParseValue limits (depth + 1) (drop 1 (SkipWhitespace rest)) items of
            Inl status \<Rightarrow> Inl status
          | Inr (v, rest, items) \<Rightarrow>
              if json_size obj \<ge> jl_max_object_members limits
              then Inl (json_Reject ''object exceeds max_object_members'')
              else if Contains key obj then Inl (json_Reject ''duplicate object key'')
              else (case SkipWhitespace rest of
                  [] \<Rightarrow> Inl (json_Reject ''unterminated object'')
                | c # cs \<Rightarrow>
                    if c = CHR '','' then object_loop limits depth (json_Set key v obj) cs items
                    else if c = CHR ''}'' then Inr (json_Set key v obj, cs, items)
                    else Inl (json_Reject ''expected a comma or a closing brace'')))"
| "ParseArray limits depth rest items =
     (if starts (\<lambda>c. c = CHR '']'') (SkipWhitespace rest)
      then Inr (JArray [], drop 1 (SkipWhitespace rest), items)
      else array_loop limits depth (JArray []) (SkipWhitespace rest) items)"
| "array_loop limits depth arr rest items =
     (case ParseValue limits (depth + 1) rest items of
        Inl status \<Rightarrow> Inl status
      | Inr (v, rest, items) \<Rightarrow>
          if json_size arr \<ge> jl_max_array_items limits then Inl (json_Reject ''array exceeds max_array_items'')
          else (case SkipWhitespace rest of
              [] \<Rightarrow> Inl (json_Reject ''unterminated array'')
            | c # cs \<Rightarrow>
                if c = CHR '','' then array_loop limits depth (Push v arr) cs items
                else if c = CHR '']'' then Inr (Push v arr, cs, items)
                else Inl (json_Reject ''expected a comma or a closing bracket'')))"
  by pat_completeness auto


text \<open>A parser that succeeds has consumed something; this is what makes the loops end.\<close>

definition shrinks :: "string \<Rightarrow> Status + json \<times> string \<times> nat \<Rightarrow> bool" where
  "shrinks rest result \<longleftrightarrow> (\<forall>v rest' items'. result = Inr (v, rest', items') \<longrightarrow> length rest' < length rest)"

lemma shrinks_less: "shrinks rest (Inr (v, rest', items')) \<Longrightarrow> length rest' < length rest"
  by (simp add: shrinks_def)

lemma shrinks_Inl [simp]: "shrinks rest (Inl status)"
  by (simp add: shrinks_def)

lemma shrinks_mono: "shrinks rest' result \<Longrightarrow> length rest' \<le> length rest \<Longrightarrow> shrinks rest result"
  by (fastforce simp: shrinks_def)

lemma skipped: "SkipWhitespace rest = c # cs \<Longrightarrow> length cs < length rest"
  using SkipWhitespace_shorter [of rest] by simp

lemma skipped_drop: "starts p (SkipWhitespace rest) \<Longrightarrow> length (drop 1 (SkipWhitespace rest)) < length rest"
  using skipped [of rest] by (cases "SkipWhitespace rest") auto

lemma scalar_shrinks:
  assumes "SkipWhitespace rest = c # cs"
  shows "shrinks rest (case ParseScalar limits (c # cs) of
      Inl status \<Rightarrow> Inl status | Inr (v, rest) \<Rightarrow> Inr (v, rest, n))"
  using SkipWhitespace_shorter [of rest] unfolding assms
  by (cases "ParseScalar limits (c # cs)") (auto simp: shrinks_def dest!: ParseScalar_shorter)

lemma ParseValue_shrinks_dom:
  "ParseValue_ParseObject_object_loop_ParseArray_array_loop_dom (Inl (Inl (limits, depth, rest, items))) \<Longrightarrow>
    shrinks rest (ParseValue limits depth rest items)"
proof (induction rule: ParseValue_ParseObject_object_loop_ParseArray_array_loop.pinduct(1)
    [where ?P2.0 = "\<lambda>l d rest i. shrinks rest (ParseObject l d rest i)"
       and ?P3.0 = "\<lambda>l d obj rest i. shrinks rest (object_loop l d obj rest i)"
       and ?P4.0 = "\<lambda>l d rest i. shrinks rest (ParseArray l d rest i)"
       and ?P5.0 = "\<lambda>l d arr rest i. shrinks rest (array_loop l d arr rest i)"])
  case (1 limits depth rest items)
  show ?case
  proof (cases "SkipWhitespace rest")
    case (Cons c cs)
    have "length cs \<le> length rest" using skipped [OF Cons] by simp
    then have "c = CHR ''{'' \<Longrightarrow> \<not> depth > jl_max_depth limits \<Longrightarrow> \<not> items \<ge> jl_max_items limits \<Longrightarrow>
        shrinks rest (ParseObject limits depth cs (items + 1))"
      "c \<noteq> CHR ''{'' \<Longrightarrow> c = CHR ''['' \<Longrightarrow> \<not> depth > jl_max_depth limits \<Longrightarrow> \<not> items \<ge> jl_max_items limits \<Longrightarrow>
        shrinks rest (ParseArray limits depth cs (items + 1))"
      using 1(2,3) Cons shrinks_mono by blast+
    then show ?thesis
      using scalar_shrinks [OF Cons, where limits = limits and n = "items + 1"]
      by (simp add: ParseValue.psimps [OF 1(1)] Cons)
  qed (simp add: ParseValue.psimps [OF 1(1)])
next
  case (2 limits depth rest items)
  then show ?case
    using skipped_drop [of "\<lambda>c. c = CHR ''}''" rest] shrinks_mono [OF _ SkipWhitespace_shorter]
    by (simp add: ParseObject.psimps) (simp add: shrinks_def)
next
  case (3 limits depth obj rest items)
  show ?case
  proof (cases "ParseString limits (SkipWhitespace rest)")
    case (Inr b)
    obtain key r1 where b: "b = (key, r1)" by (cases b)
    have r1: "length r1 < length rest"
      using ParseString_shorter [OF Inr [unfolded b]] SkipWhitespace_shorter [of rest] by simp
    show ?thesis
    proof (cases "starts (\<lambda>c. c = quote) (SkipWhitespace rest) \<and> starts (\<lambda>c. c = CHR '':'') (SkipWhitespace r1)")
      case True
      let ?r2 = "drop 1 (SkipWhitespace r1)"
      have r2: "length ?r2 < length r1" using True by (blast intro: skipped_drop)
      have PV: "shrinks ?r2 (ParseValue limits (depth + 1) ?r2 items)"
        using 3(3) [of "(key, r1)" key r1] True Inr b by simp
      show ?thesis
      proof (cases "ParseValue limits (depth + 1) ?r2 items")
        case pv: (Inr c)
        obtain v r3 n where c: "c = (v, r3, n)" by (cases c)
        have r3: "length r3 < length ?r2" using PV pv c by (simp add: shrinks_def)
        have loop: "shrinks x22 (object_loop limits depth (json_Set key v obj) x22 n)"
          if "SkipWhitespace r3 = CHR '','' # x22" "\<not> jl_max_object_members limits \<le> json_size obj" "\<not> Contains key obj" for x22
          by (rule 3(2) [of b key r1 c v "(r3, n)" r3 n "CHR '',''" x22]) (use True Inr b pv c that in simp_all)
        show ?thesis
        proof (cases "SkipWhitespace r3")
          case (Cons d ds)
          have ds: "length ds < length rest" using skipped [OF Cons] r1 r2 r3 by linarith
          have "shrinks rest (object_loop limits depth (json_Set key v obj) ds n)"
            if "d = CHR '',''" "\<not> jl_max_object_members limits \<le> json_size obj" "\<not> Contains key obj"
            using shrinks_mono [OF loop less_imp_le [OF ds]] Cons that by simp
          moreover have "shrinks rest (Inr (w, ds, n))" for w using ds by (simp add: shrinks_def)
          ultimately show ?thesis
            using True Inr b pv c Cons by (simp add: object_loop.psimps [OF 3(1)])
        qed (use True Inr b pv c in \<open>simp add: object_loop.psimps [OF 3(1)]\<close>)
      qed (use True Inr b in \<open>simp add: object_loop.psimps [OF 3(1)]\<close>)
    qed (use Inr b in \<open>auto simp: object_loop.psimps [OF 3(1)]\<close>)
  qed (auto simp: object_loop.psimps [OF 3(1)])
next
  case (4 limits depth rest items)
  then show ?case
    using skipped_drop [of "\<lambda>c. c = CHR '']''" rest] shrinks_mono [OF _ SkipWhitespace_shorter]
    by (simp add: ParseArray.psimps) (simp add: shrinks_def)
next
  case (5 limits depth arr rest items)
  show ?case
  proof (cases "ParseValue limits (depth + 1) rest items")
    case (Inr c)
    obtain v r3 n where c: "c = (v, r3, n)" by (cases c)
    have r3: "length r3 < length rest" using 5(3) Inr c by (simp add: shrinks_def)
    have loop: "shrinks x22 (array_loop limits depth (Push v arr) x22 n)"
      if "SkipWhitespace r3 = CHR '','' # x22" "\<not> jl_max_array_items limits \<le> json_size arr" for x22
      by (rule 5(2) [of c v "(r3, n)" r3 n "CHR '',''" x22]) (use Inr c that in simp_all)
    show ?thesis
    proof (cases "SkipWhitespace r3")
      case (Cons d ds)
      have ds: "length ds < length rest" using skipped [OF Cons] r3 by linarith
      have "shrinks rest (array_loop limits depth (Push v arr) ds n)"
        if "d = CHR '',''" "\<not> jl_max_array_items limits \<le> json_size arr"
        using shrinks_mono [OF loop less_imp_le [OF ds]] Cons that by simp
      moreover have "shrinks rest (Inr (w, ds, n))" for w using ds by (simp add: shrinks_def)
      ultimately show ?thesis using Inr c Cons by (simp add: array_loop.psimps [OF 5(1)])
    qed (use Inr c in \<open>simp add: array_loop.psimps [OF 5(1)]\<close>)
  qed (simp add: array_loop.psimps [OF 5(1)])
qed


fun parser_size :: "(ParseLimits \<times> nat \<times> string \<times> nat + ParseLimits \<times> nat \<times> string \<times> nat) +
    (ParseLimits \<times> nat \<times> json \<times> string \<times> nat + ParseLimits \<times> nat \<times> string \<times> nat + ParseLimits \<times> nat \<times> json \<times> string \<times> nat) \<Rightarrow> nat" where
  "parser_size (Inl (Inl (limits, depth, rest, items))) = 3 * length rest"
| "parser_size (Inl (Inr (limits, depth, rest, items))) = 3 * length rest + 2"
| "parser_size (Inr (Inl (limits, depth, obj, rest, items))) = 3 * length rest + 1"
| "parser_size (Inr (Inr (Inl (limits, depth, rest, items)))) = 3 * length rest + 2"
| "parser_size (Inr (Inr (Inr (limits, depth, arr, rest, items)))) = 3 * length rest + 1"

lemma ParseValue_shorter_dom:
  "ParseValue_ParseObject_object_loop_ParseArray_array_loop_dom (Inl (Inl (limits, depth, rest, items))) \<Longrightarrow>
    ParseValue limits depth rest items = Inr (v, rest', items') \<Longrightarrow> length rest' < length rest"
  using ParseValue_shrinks_dom by (metis shrinks_less)

termination ParseValue
  apply (relation "measure parser_size")
  subgoal by simp
  subgoal using skipped by fastforce
  subgoal using skipped by fastforce
  subgoal using SkipWhitespace_shorter by (simp add: le_imp_less_Suc)
  subgoal for limits depth obj rest items b x y
    using skipped_drop [of "\<lambda>c. c = CHR '':''" y] ParseString_shorter [of limits "SkipWhitespace rest" x y]
      SkipWhitespace_shorter [of rest] by simp
  subgoal for limits depth obj rest items b x y ba xa ya xb yb x21 x22
    using skipped_drop [of "\<lambda>c. c = CHR '':''" y] ParseString_shorter [of limits "SkipWhitespace rest" x y]
      ParseValue_shorter_dom [of limits "depth + 1" "drop 1 (SkipWhitespace y)" items xa xb yb]
      SkipWhitespace_shorter [of rest] skipped [of xb x21 x22] by simp
  subgoal using SkipWhitespace_shorter by (simp add: le_imp_less_Suc)
  subgoal by simp
  subgoal for limits depth arr rest items b x y xa ya x21 x22
    using ParseValue_shorter_dom [of limits "depth + 1" rest items x xa ya] skipped [of xa x21 x22] by simp
  done

declare ParseValue.simps [simp del] ParseObject.simps [simp del] object_loop.simps [simp del]
  ParseArray.simps [simp del] array_loop.simps [simp del]

definition Parser_Run :: "ParseLimits \<Rightarrow> string \<Rightarrow> Status + json" where
  "Parser_Run limits text =
     (if text = [] then Inl (json_Reject ''empty input'')
      else if length text > jl_max_bytes limits then Inl (json_Reject ''input exceeds max_bytes'')
      else case ParseValue limits 0 text 0 of
        Inl status \<Rightarrow> Inl status
      | Inr (v, rest, items) \<Rightarrow>
          if SkipWhitespace rest \<noteq> [] then Inl (json_Reject ''trailing content after the top-level value'')
          else Inr v)"

definition json_Parse :: "string \<Rightarrow> ParseLimits \<Rightarrow> Status + json" where
  "json_Parse text limits = Parser_Run limits text"

section \<open>The printer\<close>

definition kDumpDepthLimit :: nat where "kDumpDepthLimit = 128"

definition escaped :: "char \<Rightarrow> string" where
  "escaped c =
     (if c = quote then [backslash, quote]
      else if c = backslash then [backslash, backslash]
      else if c = CHR 0x08 then [backslash, CHR ''b'']
      else if c = CHR 0x0C then [backslash, CHR ''f'']
      else if c = CHR 0x0A then [backslash, CHR ''n'']
      else if c = CHR 0x0D then [backslash, CHR ''r'']
      else if c = CHR 0x09 then [backslash, CHR ''t'']
      else if (of_char c :: nat) < 0x20
      then [backslash, CHR ''u'', CHR ''0'', CHR ''0'', kDigits ! (of_char c div 16), kDigits ! (of_char c mod 16)]
      else [c])"

definition AppendEscaped :: "string \<Rightarrow> string" where
  "AppendEscaped text = [quote] @ concat (map escaped text) @ [quote]"

definition AppendIndent :: "int \<Rightarrow> nat \<Rightarrow> string" where
  "AppendIndent indent depth = (if indent \<le> 0 then [] else CHR 0x0A # replicate (nat indent * depth) CHR '' '')"

text \<open>The elements of a container, each but the first after a comma.\<close>

fun with_commas :: "string list \<Rightarrow> string" where
  "with_commas [] = []"
| "with_commas [x] = x"
| "with_commas (x # y # xs) = x @ '','' @ with_commas (y # xs)"

text \<open>\<open>std::stable_sort\<close> of the members by key.\<close>

definition member_order :: "bool \<Rightarrow> (string \<times> 'a) list \<Rightarrow> (string \<times> 'a) list" where
  "member_order sort_keys ms = (if sort_keys then sort_key fst ms else ms)"

fun DumpValue :: "json \<Rightarrow> int \<Rightarrow> nat \<Rightarrow> bool \<Rightarrow> string" where
  "DumpValue v indent depth sort_keys =
     (if depth > kDumpDepthLimit then ''null''
      else case v of
        JNull \<Rightarrow> ''null''
      | JBoolean b \<Rightarrow> (if b then ''true'' else ''false'')
      | JInteger i \<Rightarrow> to_string_i64 i
      | JUnsigned u \<Rightarrow> to_string_u64 u
      | JReal d \<Rightarrow> format_g17 d
      | JText t \<Rightarrow> AppendEscaped t
      | JArray items \<Rightarrow>
          if items = [] then ''[]''
          else ''['' @ with_commas (map (\<lambda>x. AppendIndent indent (depth + 1) @ DumpValue x indent (depth + 1) sort_keys) items)
            @ AppendIndent indent depth @ '']''
      | JObject members \<Rightarrow>
          if members = [] then ''{}''
          else ''{'' @ with_commas (map (\<lambda>m. AppendIndent indent (depth + 1) @ AppendEscaped (fst m) @ '':'' @
                 (if indent > 0 then '' '' else []) @ snd m)
               (member_order sort_keys (map (\<lambda>m. (fst m, DumpValue (snd m) indent (depth + 1) sort_keys)) members)))
            @ AppendIndent indent depth @ ''}'')"

declare DumpValue.simps [simp del]

definition Dump :: "int \<Rightarrow> json \<Rightarrow> string" where
  "Dump indent v = DumpValue v indent 0 False"

definition DumpCanonical :: "int \<Rightarrow> json \<Rightarrow> string" where
  "DumpCanonical indent v = DumpValue v indent 0 True"

end
