(* ===== verification/Json_Laws.thy ===== *)
theory Json_Laws
  imports Json
begin

text \<open>
  Printing and parsing are inverse: a document without reals is read back from its printed form, with
  or without indentation and sorted keys, as the same document with its members in the printed order and
  small unsigned numbers as integers. Every document the parser accepts respects all of its limits.
\<close>

section \<open>Strings\<close>

lemma hex_of_control:
  assumes "n < 32"
  shows "hex_value [CHR ''0'', CHR ''0'', kDigits ! (n div 16), kDigits ! (n mod 16)] 0 = Some (of_nat n)"
proof -
  have "list_all (\<lambda>n. hex_value [CHR ''0'', CHR ''0'', kDigits ! (n div 16), kDigits ! (n mod 16)] 0 = Some (of_nat n))
      [0..<32]" by code_simp
  with assms show ?thesis by (simp add: list_all_iff)
qed

lemma put_small: "n < 128 \<Longrightarrow> char_of_byte (ucast (of_nat n :: u32)) = char_of n"
  by (simp add: char_of_byte_def unsigned_ucast_eq take_bit_nat_eq_self unat_of_nat)

lemma ParseUnicode_control:
  assumes "(of_char c :: nat) < 32"
  shows "ParseUnicode out ([CHR ''0'', CHR ''0'', kDigits ! (of_char c div 16), kDigits ! (of_char c mod 16)] @ rest) =
    Inr (out @ [c], rest)"
proof -
  let ?v = "of_nat (of_char c) :: u32"
  have "unat ?v = of_char c" using assms by (simp add: unat_of_nat)
  then have small: "?v \<le> 0x7f" "\<not> 0xd800 \<le> ?v" "\<not> 0xdc00 \<le> ?v"
    using assms by (simp_all add: word_le_nat_alt)
  have "AppendCodePoint out ?v = Inr (out @ [c])"
    using small(1) put_small [of "of_char c"] assms by (simp add: AppendCodePoint_def)
  moreover have "ParseHex4 ([CHR ''0'', CHR ''0'', kDigits ! (of_char c div 16), kDigits ! (of_char c mod 16)] @ rest) = Inr (?v, rest)"
    using hex_of_control [OF assms] by (simp add: ParseHex4_def)
  ultimately show ?thesis using small(2,3) by (simp add: ParseUnicode_def)
qed

lemma string_loop_escaped:
  assumes "length result < jl_max_string_bytes limits"
  shows "string_loop limits result (escaped c @ rest) = string_loop limits (result @ [c]) rest"
proof (cases "length (escaped c) = 6")
  case True
  then have c: "(of_char c :: nat) < 32"
    "escaped c = [backslash, CHR ''u''] @ [CHR ''0'', CHR ''0'', kDigits ! (of_char c div 16), kDigits ! (of_char c mod 16)]"
    by (auto simp: escaped_def split: if_splits)
  show ?thesis
    using assms ParseUnicode_control [OF c(1), of result rest] unfolding c(2)
    by (subst string_loop.simps) (simp add: ParseEscape_def)
next
  case False
  then show ?thesis
    using assms by (subst string_loop.simps) (auto simp: escaped_def ParseEscape_def split: if_splits)
qed

lemma string_loop_text:
  assumes "length result + length t \<le> jl_max_string_bytes limits"
  shows "string_loop limits result (concat (map escaped t) @ quote # rest) = Inr (result @ t, rest)"
  using assms
proof (induction t arbitrary: result)
  case Nil
  then show ?case by (subst string_loop.simps) simp
next
  case (Cons c t)
  then show ?case using string_loop_escaped [of result limits c "concat (map escaped t) @ quote # rest"] by simp
qed

lemma ParseString_AppendEscaped:
  "length t \<le> jl_max_string_bytes limits \<Longrightarrow> ParseString limits (AppendEscaped t @ rest) = Inr (t, rest)"
  using string_loop_text [of "[]" t limits rest] by (simp add: ParseString_def AppendEscaped_def)

section \<open>Numbers\<close>

lemma digit_of_kDigits: "n < 10 \<Longrightarrow> is_digit (kDigits ! n) \<and> digit_value (kDigits ! n) = n \<and> (kDigits ! n = CHR ''0'' \<longleftrightarrow> n = 0)
    \<and> (n \<noteq> 0 \<longrightarrow> CHR ''1'' \<le> kDigits ! n \<and> kDigits ! n \<le> CHR ''9'')"
proof -
  have "list_all (\<lambda>n. is_digit (kDigits ! n) \<and> digit_value (kDigits ! n) = n \<and> (kDigits ! n = CHR ''0'' \<longleftrightarrow> n = 0)
    \<and> (n \<noteq> 0 \<longrightarrow> CHR ''1'' \<le> kDigits ! n \<and> kDigits ! n \<le> CHR ''9'')) [0..<10]" by code_simp
  then show "n < 10 \<Longrightarrow> ?thesis" by (simp add: list_all_iff)
qed

lemma decimal_digits: "\<forall>c \<in> set (decimal n). is_digit c"
proof (induction n rule: decimal.induct)
  case (1 n)
  show ?case
    using 1 digit_of_kDigits [of n] digit_of_kDigits [of "n mod 10"] by (subst decimal.simps) auto
qed

lemma decimal_not_Nil [simp]: "decimal n \<noteq> []"
  by (subst decimal.simps) simp

lemma decimal_value: "digits_value (decimal n) = n"
proof (induction n rule: decimal.induct)
  case (1 n)
  show ?case
  proof (cases "n < 10")
    case True
    then show ?thesis using digit_of_kDigits [of n] by (simp add: decimal.simps [of n] digits_value_def)
  next
    case False
    then have "digits_value (decimal n) = 10 * digits_value (decimal (n div 10)) + digit_value (kDigits ! (n mod 10))"
      by (simp add: decimal.simps [of n] digits_value_def)
    then show ?thesis using 1 False digit_of_kDigits [of "n mod 10"] by simp
  qed
qed

lemma decimal_first: "decimal n \<noteq> ''0'' \<Longrightarrow> starts (\<lambda>c. c \<noteq> CHR ''0'' \<and> CHR ''1'' \<le> c \<and> c \<le> CHR ''9'') (decimal n)"
proof (induction n rule: decimal.induct)
  case (1 n)
  show ?case
  proof (cases "n < 10")
    case True
    then show ?thesis using 1(2) digit_of_kDigits [of n] by (auto simp: decimal.simps [of n])
  next
    case False
    then have "digits_value (decimal (n div 10)) \<noteq> 0" by (simp add: decimal_value)
    then have "decimal (n div 10) \<noteq> ''0''" by (auto simp: digits_value_def digit_value_def)
    with False 1(1) show ?thesis by (cases "decimal (n div 10)") (auto simp: decimal.simps [of n])
  qed
qed

text \<open>What may follow a number: nothing, or a character that does not continue it.\<close>

definition ends :: "string \<Rightarrow> bool" where
  "ends rest \<longleftrightarrow> \<not> starts (\<lambda>c. is_digit c \<or> c = CHR ''.'' \<or> c = CHR ''e'' \<or> c = CHR ''E'') rest"

lemma starts_append: "xs \<noteq> [] \<Longrightarrow> starts p (xs @ ys) = starts p xs"
  by (cases xs) simp_all

lemma starts_not: "\<not> starts p rest \<Longrightarrow> (\<And>c. q c \<Longrightarrow> p c) \<Longrightarrow> \<not> starts q rest"
  by (cases rest) auto

lemma dropWhile_digits:
  assumes "\<forall>c \<in> set ds. is_digit c" "\<not> starts is_digit rest"
  shows "dropWhile is_digit (ds @ rest) = rest"
  using assms by (cases rest) (simp_all add: dropWhile_append2 dropWhile_append3)

lemma skip_integer_decimal:
  assumes "\<not> starts is_digit rest"
  shows "skip_integer (decimal n @ rest) = Inr rest"
proof (cases "decimal n = ''0''")
  case True
  then show ?thesis using assms by (simp add: skip_integer_def)
next
  case False
  obtain c cs where d: "decimal n = c # cs" by (cases "decimal n") auto
  show ?thesis
    using decimal_first [OF False] dropWhile_digits [OF decimal_digits assms, of n] by (simp add: skip_integer_def d)
qed

lemma ParseNumber_decimal:
  assumes "ends rest"
  shows "ParseNumber (decimal n @ rest) =
      (case number_of_literal False False (decimal n) of Inl status \<Rightarrow> Inl status | Inr v \<Rightarrow> Inr (v, rest))"
    "ParseNumber (CHR ''-'' # decimal n @ rest) =
      (case number_of_literal False True (CHR ''-'' # decimal n) of Inl status \<Rightarrow> Inl status | Inr v \<Rightarrow> Inr (v, rest))"
proof -
  have e: "\<not> starts is_digit rest" "skip_fraction rest = Inr (False, rest)" "skip_exponent rest = Inr (False, rest)"
    using assms by (cases rest; auto simp: ends_def skip_fraction_def skip_exponent_def)+
  obtain c cs where d: "decimal n = c # cs" by (cases "decimal n") auto
  have "is_digit c" using decimal_digits [of n] d by simp
  then have "c \<noteq> CHR ''-''" by (auto simp: is_digit_def less_eq_char_def)
  then show "ParseNumber (decimal n @ rest) =
      (case number_of_literal False False (decimal n) of Inl status \<Rightarrow> Inl status | Inr v \<Rightarrow> Inr (v, rest))"
    using skip_integer_decimal [OF e(1), of n] e by (simp add: ParseNumber_def d split: sum.splits)
  show "ParseNumber (CHR ''-'' # decimal n @ rest) =
      (case number_of_literal False True (CHR ''-'' # decimal n) of Inl status \<Rightarrow> Inl status | Inr v \<Rightarrow> Inr (v, rest))"
    using skip_integer_decimal [OF e(1), of n] e by (simp add: ParseNumber_def split: sum.splits)
qed

lemma sint_nonneg: "0 \<le> sint (i :: i64) \<Longrightarrow> sint i = int (unat i)"
  using sint_lt [of i] by (simp add: uint_sint take_bit_int_eq_self)

definition read_unsigned :: "u64 \<Rightarrow> json" where
  "read_unsigned u = (if u \<le> 0x7fffffffffffffff then JInteger u else JUnsigned u)"

lemma ParseNumber_u64: "ends rest \<Longrightarrow> ParseNumber (to_string_u64 u @ rest) = Inr (read_unsigned u, rest)"
proof -
  have "unat u < 2 ^ 64" using unsigned_less [of u, where ?'a = nat] by simp
  then show "ends rest \<Longrightarrow> ?thesis"
    by (simp add: to_string_u64_def ParseNumber_decimal(1) number_of_literal_def strtoull_def decimal_value read_unsigned_def)
qed

lemma ParseNumber_i64: "ends rest \<Longrightarrow> ParseNumber (to_string_i64 i @ rest) = Inr (JInteger i, rest)"
proof -
  assume rest: "ends rest"
  have range: "- (2 ^ 63) \<le> sint i" "sint i < 2 ^ 63" using sint_ge [of i] sint_lt [of i] by simp_all
  show ?thesis
  proof (cases "sint i < 0")
    case True
    have "strtoll (CHR ''-'' # decimal (nat (- sint i))) = Some i"
      using True range by (simp add: strtoll_def strip_minus_def decimal_value)
    then show ?thesis
      using True by (simp add: to_string_i64_def ParseNumber_decimal(2) [OF rest] number_of_literal_def)
  next
    case False
    then have "nat (sint i) = unat i" "i \<le> 0x7fffffffffffffff"
      using sint_nonneg [of i] range by (simp_all add: word_le_def)
    then have "number_of_literal False False (decimal (nat (sint i))) = Inr (JInteger i)"
      using unsigned_less [of i, where ?'a = nat] by (simp add: Let_def number_of_literal_def strtoull_def decimal_value)
    then show ?thesis
      using False by (simp add: to_string_i64_def ParseNumber_decimal(1) [OF rest])
  qed
qed

section \<open>Documents\<close>

fun json_count :: "json \<Rightarrow> nat" where
  "json_count (JArray xs) = 1 + sum_list (map json_count xs)"
| "json_count (JObject ms) = 1 + sum_list (map (\<lambda>m. json_count (snd m)) ms)"
| "json_count _ = 1"

text \<open>The document that is read back: members in printed order, small unsigned numbers as integers.\<close>

fun read_back :: "bool \<Rightarrow> json \<Rightarrow> json" where
  "read_back sort_keys (JArray xs) = JArray (map (read_back sort_keys) xs)"
| "read_back sort_keys (JObject ms) = JObject (member_order sort_keys (map (\<lambda>m. (fst m, read_back sort_keys (snd m))) ms))"
| "read_back sort_keys (JUnsigned u) = read_unsigned u"
| "read_back sort_keys v = v"

text \<open>The documents within the limits of printer and parser, at a depth.\<close>

fun printable :: "ParseLimits \<Rightarrow> nat \<Rightarrow> json \<Rightarrow> bool" where
  "printable limits depth v \<longleftrightarrow> depth \<le> jl_max_depth limits \<and> depth \<le> kDumpDepthLimit \<and>
     (case v of
        JReal _ \<Rightarrow> False
      | JText t \<Rightarrow> length t \<le> jl_max_string_bytes limits
      | JArray xs \<Rightarrow> length xs \<le> jl_max_array_items limits \<and> (\<forall>x \<in> set xs. printable limits (depth + 1) x)
      | JObject ms \<Rightarrow> length ms \<le> jl_max_object_members limits \<and> distinct (map fst ms) \<and>
          (\<forall>m \<in> set ms. length (fst m) \<le> jl_max_string_bytes limits \<and> printable limits (depth + 1) (snd m))
      | _ \<Rightarrow> True)"

declare printable.simps [simp del]

definition blank :: "string \<Rightarrow> bool" where
  "blank ws \<longleftrightarrow> (\<forall>c \<in> set ws. IsWhitespace c)"

lemma blank_AppendIndent [simp]: "blank (AppendIndent indent depth)"
  by (simp add: blank_def AppendIndent_def IsWhitespace_def)

lemma SkipWhitespace_blank: "blank ws \<Longrightarrow> SkipWhitespace (ws @ rest) = SkipWhitespace rest"
  by (simp add: blank_def SkipWhitespace_def dropWhile_append2)

lemma SkipWhitespace_solid [simp]: "\<not> IsWhitespace c \<Longrightarrow> SkipWhitespace (c # cs) = c # cs"
  by (simp add: SkipWhitespace_def)

lemma solid_chars [simp]:
  "\<not> IsWhitespace CHR ''{''" "\<not> IsWhitespace CHR ''}''" "\<not> IsWhitespace CHR ''[''" "\<not> IsWhitespace CHR '']''"
  "\<not> IsWhitespace CHR '',''" "\<not> IsWhitespace CHR '':''" "\<not> IsWhitespace quote"
  by (simp_all add: IsWhitespace_def)

lemma digit_solid: "is_digit c \<Longrightarrow> \<not> IsWhitespace c"
  by (auto simp: is_digit_def IsWhitespace_def less_eq_char_def)

text \<open>The printed form of a scalar, as the first characters of a value.\<close>

definition scalar_text :: "json \<Rightarrow> string" where
  "scalar_text v = (case v of JNull \<Rightarrow> ''null'' | JBoolean b \<Rightarrow> (if b then ''true'' else ''false'')
     | JInteger i \<Rightarrow> to_string_i64 i | JUnsigned u \<Rightarrow> to_string_u64 u | JText t \<Rightarrow> AppendEscaped t | _ \<Rightarrow> [])"

definition scalar :: "json \<Rightarrow> bool" where
  "scalar v \<longleftrightarrow> (case v of JReal _ \<Rightarrow> False | JArray _ \<Rightarrow> False | JObject _ \<Rightarrow> False | _ \<Rightarrow> True)"

lemma number_first:
  "starts (\<lambda>c. c = CHR ''-'' \<or> is_digit c) (to_string_i64 i)" "starts (\<lambda>c. c = CHR ''-'' \<or> is_digit c) (to_string_u64 u)"
  using decimal_digits [of "nat (sint i)"] decimal_digits [of "unat u"] decimal_not_Nil
  by (auto simp: to_string_i64_def to_string_u64_def starts_def split: list.splits)

lemma not_digits: "c = CHR ''-'' \<or> is_digit c \<Longrightarrow> c \<noteq> quote \<and> c \<noteq> CHR ''t'' \<and> c \<noteq> CHR ''f'' \<and> c \<noteq> CHR ''n'' \<and>
    c \<noteq> CHR ''{'' \<and> c \<noteq> CHR ''['' \<and> c \<noteq> CHR '']'' \<and> \<not> IsWhitespace c"
  by (auto simp: is_digit_def IsWhitespace_def less_eq_char_def)

lemma number_text_start:
  assumes "starts (\<lambda>c. c = CHR ''-'' \<or> is_digit c) s"
  shows "ParseScalar limits (s @ rest) = ParseNumber (s @ rest)"
    "starts (\<lambda>c. c \<noteq> CHR ''{'' \<and> c \<noteq> CHR ''['' \<and> c \<noteq> CHR '']'' \<and> \<not> IsWhitespace c) s"
proof -
  obtain c cs where s: "s = c # cs" "c = CHR ''-'' \<or> is_digit c" using assms by (cases s) auto
  show "ParseScalar limits (s @ rest) = ParseNumber (s @ rest)"
    "starts (\<lambda>c. c \<noteq> CHR ''{'' \<and> c \<noteq> CHR ''['' \<and> c \<noteq> CHR '']'' \<and> \<not> IsWhitespace c) s"
    using not_digits [OF s(2)] s by (simp_all add: ParseScalar_def)
qed

lemma scalar_start:
  "scalar v \<Longrightarrow> starts (\<lambda>c. c \<noteq> CHR ''{'' \<and> c \<noteq> CHR ''['' \<and> c \<noteq> CHR '']'' \<and> \<not> IsWhitespace c) (scalar_text v)"
  using number_text_start(2) [OF number_first(1)] number_text_start(2) [OF number_first(2)]
  by (cases v) (auto simp: scalar_def scalar_text_def AppendEscaped_def IsWhitespace_def)

lemma ParseScalar_text:
  assumes "scalar v" "printable limits depth v" "ends rest"
  shows "ParseScalar limits (scalar_text v @ rest) = Inr (read_back sort_keys v, rest)"
proof (cases v)
  case (JInteger i)
  then show ?thesis
    by (simp add: scalar_text_def number_text_start(1) [OF number_first(1)] ParseNumber_i64 [OF assms(3)])
next
  case (JUnsigned u)
  then show ?thesis
    by (simp add: scalar_text_def number_text_start(1) [OF number_first(2)] ParseNumber_u64 [OF assms(3)])
next
  case (JText t)
  have "starts (\<lambda>c. c = quote) (AppendEscaped t @ rest)" by (simp add: AppendEscaped_def)
  then show ?thesis
    using assms(2) ParseString_AppendEscaped [of t limits rest]
    by (simp add: JText scalar_text_def ParseScalar_def printable.simps)
qed (use assms(1) in \<open>simp_all add: scalar_def scalar_text_def ParseScalar_def ParseLiteral_def\<close>)

lemma DumpValue_scalar:
  "scalar v \<Longrightarrow> printable limits depth v \<Longrightarrow> DumpValue v indent depth sort_keys = scalar_text v"
  by (cases v) (auto simp: DumpValue.simps scalar_def scalar_text_def printable.simps)

lemma ParseValue_scalar:
  assumes "scalar v" "printable limits depth v" "ends rest" "blank ws" "items < jl_max_items limits"
  shows "ParseValue limits depth (ws @ DumpValue v indent depth sort_keys @ rest) items =
    Inr (read_back sort_keys v, rest, items + 1)"
proof -
  obtain c cs where t: "scalar_text v = c # cs" "c \<noteq> CHR ''{''" "c \<noteq> CHR ''[''" "\<not> IsWhitespace c"
    using scalar_start [OF assms(1)] by (cases "scalar_text v") auto
  show ?thesis
    using ParseScalar_text [OF assms(1-3), of sort_keys] assms(2,5) t
    by (simp add: ParseValue.simps DumpValue_scalar [OF assms(1,2)] SkipWhitespace_blank [OF assms(4)] printable.simps)
qed

lemma SkipWhitespace_idem [simp]: "SkipWhitespace (SkipWhitespace rest) = SkipWhitespace rest"
  by (simp add: SkipWhitespace_def)

lemma ParseValue_skip: "ParseValue limits depth (SkipWhitespace rest) items = ParseValue limits depth rest items"
  by (simp add: ParseValue.simps)

lemma array_loop_skip: "array_loop limits depth arr (SkipWhitespace rest) items = array_loop limits depth arr rest items"
  by (simp add: array_loop.simps [of limits depth arr] ParseValue_skip)

lemma object_loop_skip: "object_loop limits depth obj (SkipWhitespace rest) items = object_loop limits depth obj rest items"
  by (simp add: object_loop.simps [of limits depth obj])

lemma ends_punctuation [simp]: "ends (CHR '','' # rest)" "ends (CHR '']'' # rest)" "ends (CHR ''}'' # rest)" "ends []"
  "ends (CHR 0x0A # rest)"
  by (simp_all add: ends_def is_digit_def less_eq_char_def)

lemma ends_indent: "ends rest \<Longrightarrow> ends (AppendIndent indent depth @ rest)"
  by (simp add: AppendIndent_def)

text \<open>What the parser does with the printed form of one value, at a depth.\<close>

definition reads :: "ParseLimits \<Rightarrow> nat \<Rightarrow> string \<Rightarrow> json \<Rightarrow> nat \<Rightarrow> bool" where
  "reads limits depth t v n \<longleftrightarrow> (\<forall>ws rest items. blank ws \<longrightarrow> ends rest \<longrightarrow> items + n \<le> jl_max_items limits \<longrightarrow>
     ParseValue limits depth (ws @ t @ rest) items = Inr (v, rest, items + n))"

lemma readsD:
  "reads limits depth t v n \<Longrightarrow> blank ws \<Longrightarrow> ends rest \<Longrightarrow> items + n \<le> jl_max_items limits \<Longrightarrow>
    ParseValue limits depth (ws @ t @ rest) items = Inr (v, rest, items + n)"
  by (simp add: reads_def)

lemma array_loop_reads:
  assumes "xs \<noteq> []" "\<forall>x \<in> set xs. reads limits (depth + 1) (text x) (val x) (cnt x)"
    "length acc + length xs \<le> jl_max_array_items limits" "items + sum_list (map cnt xs) \<le> jl_max_items limits"
  shows "array_loop limits depth (JArray acc)
      (with_commas (map (\<lambda>x. AppendIndent indent (depth + 1) @ text x) xs) @ AppendIndent indent depth @ CHR '']'' # rest) items =
    Inr (JArray (acc @ map val xs), rest, items + sum_list (map cnt xs))"
  using assms
proof (induction xs arbitrary: acc items rule: induct_list012)
  case (2 x)
  have "ParseValue limits (depth + 1) (AppendIndent indent (depth + 1) @ text x @ (AppendIndent indent depth @ CHR '']'' # rest)) items =
      Inr (val x, AppendIndent indent depth @ CHR '']'' # rest, items + cnt x)"
    using 2 by (intro readsD) (auto intro: ends_indent)
  then show ?case using 2 by (simp add: array_loop.simps [of _ _ "JArray acc"] SkipWhitespace_blank)
next
  case (3 x y xs)
  let ?more = "with_commas (map (\<lambda>x. AppendIndent indent (depth + 1) @ text x) (y # xs)) @ AppendIndent indent depth @ CHR '']'' # rest"
  have "ParseValue limits (depth + 1) (AppendIndent indent (depth + 1) @ text x @ (CHR '','' # ?more)) items =
      Inr (val x, CHR '','' # ?more, items + cnt x)"
    using 3(4-) by (intro readsD) auto
  then have "array_loop limits depth (JArray acc)
      (with_commas (map (\<lambda>x. AppendIndent indent (depth + 1) @ text x) (x # y # xs)) @ AppendIndent indent depth @ CHR '']'' # rest) items =
    array_loop limits depth (JArray (acc @ [val x])) ?more (items + cnt x)"
    using 3(5) by (simp add: array_loop.simps [of _ _ "JArray acc"])
  also have "\<dots> = Inr (JArray ((acc @ [val x]) @ map val (y # xs)), rest, items + cnt x + sum_list (map cnt (y # xs)))"
    by (rule 3(2)) (use 3(4-) in auto)
  finally show ?case by (simp add: add.assoc)
qed simp

lemma set_member_new: "key \<notin> fst ` set ms \<Longrightarrow> set_member key v ms = ms @ [(key, v)]"
  by (induction ms) auto

lemma Contains_JObject [simp]: "Contains key (JObject ms) \<longleftrightarrow> key \<in> fst ` set ms"
proof -
  have "find (\<lambda>m. fst m = key) ms = None \<longleftrightarrow> key \<notin> fst ` set ms" by (force simp: find_None_iff)
  then show ?thesis by (simp add: Contains_def)
qed

definition member_text :: "int \<Rightarrow> nat \<Rightarrow> string \<times> string \<Rightarrow> string" where
  "member_text indent depth m = AppendIndent indent depth @ AppendEscaped (fst m) @ '':'' @
     (if indent > 0 then '' '' else []) @ snd m"

lemma object_member_reads:
  assumes "reads limits (depth + 1) t v n" "length key \<le> jl_max_string_bytes limits" "ends rest"
    "items + n \<le> jl_max_items limits" "key \<notin> fst ` set acc" "length acc < jl_max_object_members limits"
  shows "object_loop limits depth (JObject acc) (member_text indent (depth + 1) (key, t) @ rest) items =
    (case SkipWhitespace rest of
       [] \<Rightarrow> Inl (json_Reject ''unterminated object'')
     | c # cs \<Rightarrow>
         if c = CHR '','' then object_loop limits depth (JObject (acc @ [(key, v)])) cs (items + n)
         else if c = CHR ''}'' then Inr (JObject (acc @ [(key, v)]), cs, items + n)
         else Inl (json_Reject ''expected a comma or a closing brace''))"
proof -
  let ?pad = "if indent > 0 then '' '' else []"
  have skip: "SkipWhitespace (member_text indent (depth + 1) (key, t) @ rest) =
      AppendEscaped key @ CHR '':'' # ?pad @ t @ rest"
    by (simp add: member_text_def SkipWhitespace_blank AppendEscaped_def)
  have quoted: "starts (\<lambda>c. c = quote) (AppendEscaped key @ CHR '':'' # ?pad @ t @ rest)"
    by (simp add: AppendEscaped_def)
  have "blank ?pad" by (simp add: blank_def IsWhitespace_def)
  note val = readsD [OF assms(1) this assms(3,4)]
  show ?thesis
    unfolding object_loop.simps [of _ _ "JObject acc"] skip
    using assms(5,6) val by (simp add: quoted ParseString_AppendEscaped [OF assms(2)] set_member_new not_le split: list.split)
qed

lemma object_loop_reads:
  assumes "ms \<noteq> []" "\<forall>m \<in> set ms. length (fst m) \<le> jl_max_string_bytes limits \<and> reads limits (depth + 1) (text m) (val m) (cnt m)"
    "distinct (map fst acc @ map fst ms)" "length acc + length ms \<le> jl_max_object_members limits"
    "items + sum_list (map cnt ms) \<le> jl_max_items limits"
  shows "object_loop limits depth (JObject acc)
      (with_commas (map (\<lambda>m. member_text indent (depth + 1) (fst m, text m)) ms) @ AppendIndent indent depth @ CHR ''}'' # rest) items =
    Inr (JObject (acc @ map (\<lambda>m. (fst m, val m)) ms), rest, items + sum_list (map cnt ms))"
  using assms
proof (induction ms arbitrary: acc items rule: induct_list012)
  case (2 m)
  have "object_loop limits depth (JObject acc)
      (member_text indent (depth + 1) (fst m, text m) @ (AppendIndent indent depth @ CHR ''}'' # rest)) items =
    (case SkipWhitespace (AppendIndent indent depth @ CHR ''}'' # rest) of
       [] \<Rightarrow> Inl (json_Reject ''unterminated object'')
     | c # cs \<Rightarrow>
         if c = CHR '','' then object_loop limits depth (JObject (acc @ [(fst m, val m)])) cs (items + cnt m)
         else if c = CHR ''}'' then Inr (JObject (acc @ [(fst m, val m)]), cs, items + cnt m)
         else Inl (json_Reject ''expected a comma or a closing brace''))"
    using 2 by (intro object_member_reads) (auto intro: ends_indent)
  then show ?case by (simp add: SkipWhitespace_blank)
next
  case (3 m m' ms)
  let ?more = "with_commas (map (\<lambda>m. member_text indent (depth + 1) (fst m, text m)) (m' # ms)) @
    AppendIndent indent depth @ CHR ''}'' # rest"
  have "object_loop limits depth (JObject acc) (member_text indent (depth + 1) (fst m, text m) @ (CHR '','' # ?more)) items =
    (case SkipWhitespace (CHR '','' # ?more) of
       [] \<Rightarrow> Inl (json_Reject ''unterminated object'')
     | c # cs \<Rightarrow>
         if c = CHR '','' then object_loop limits depth (JObject (acc @ [(fst m, val m)])) cs (items + cnt m)
         else if c = CHR ''}'' then Inr (JObject (acc @ [(fst m, val m)]), cs, items + cnt m)
         else Inl (json_Reject ''expected a comma or a closing brace''))"
    using 3(4-) by (intro object_member_reads) auto
  then have "object_loop limits depth (JObject acc)
      (with_commas (map (\<lambda>m. member_text indent (depth + 1) (fst m, text m)) (m # m' # ms)) @ AppendIndent indent depth @ CHR ''}'' # rest) items =
    object_loop limits depth (JObject (acc @ [(fst m, val m)])) ?more (items + cnt m)"
    by simp
  also have "\<dots> = Inr (JObject ((acc @ [(fst m, val m)]) @ map (\<lambda>m. (fst m, val m)) (m' # ms)), rest,
      items + cnt m + sum_list (map cnt (m' # ms)))"
    by (rule 3(2)) (use 3(4-) in auto)
  finally show ?case by (simp add: add.assoc)
qed simp

text \<open>A stable sort by key commutes with a change of the values.\<close>

lemma insort_map: "map g (insort_key f x xs) = insort_key f' (g x) (map g xs)" if "\<And>x. f' (g x) = f x"
  by (induction xs) (simp_all add: that)

lemma member_order_map:
  "member_order sort_keys (map (\<lambda>m. (fst m, g m)) ms) = map (\<lambda>m. (fst m, g m)) (member_order sort_keys ms)"
proof -
  have "sort_key fst (map (\<lambda>m. (fst m, g m)) ms) = map (\<lambda>m. (fst m, g m)) (sort_key fst ms)"
    by (induction ms) (simp_all add: insort_map [of fst _ fst])
  then show ?thesis by (simp add: member_order_def)
qed

lemma sum_list_insort: "sum_list (map f (insort_key k x xs)) = f x + (sum_list (map f xs) :: nat)"
  by (induction xs) simp_all

lemma sum_list_sort: "sum_list (map f (sort_key k xs)) = (sum_list (map f xs) :: nat)"
  by (induction xs) (simp_all add: sum_list_insort)

lemma member_order_facts [simp]:
  "set (member_order b ms) = set ms" "length (member_order b ms) = length ms" "member_order b ms = [] \<longleftrightarrow> ms = []"
  "sum_list (map f (member_order b ms)) = (sum_list (map f ms) :: nat)"
  by (simp_all add: member_order_def sum_list_sort flip: length_0_conv)

lemma DumpValue_first:
  assumes "printable limits depth v"
  shows "starts (\<lambda>c. c \<noteq> CHR '']'' \<and> \<not> IsWhitespace c) (DumpValue v indent depth sort_keys)"
proof (cases "scalar v")
  case True
  then show ?thesis
    unfolding DumpValue_scalar [OF True assms] using scalar_start [OF True] by (cases "scalar_text v") auto
next
  case False
  then show ?thesis using assms by (cases v) (auto simp: scalar_def DumpValue.simps printable.simps)
qed

lemma first_not_closing:
  assumes "starts (\<lambda>c. c \<noteq> CHR '']'' \<and> \<not> IsWhitespace c) t" "blank ws"
  shows "\<not> starts (\<lambda>c. c = CHR '']'') (SkipWhitespace (ws @ t @ rest))"
  using assms by (cases t) (simp_all add: SkipWhitespace_blank)

lemma with_commas_first: "xs \<noteq> [] \<Longrightarrow> \<exists>more. with_commas xs = hd xs @ more"
  by (cases xs rule: with_commas.cases) auto

lemma array_reads:
  assumes "printable limits depth (JArray xs)"
    "\<forall>x \<in> set xs. reads limits (depth + 1) (DumpValue x indent (depth + 1) sort_keys) (read_back sort_keys x) (json_count x)"
  shows "reads limits depth (DumpValue (JArray xs) indent depth sort_keys) (read_back sort_keys (JArray xs)) (json_count (JArray xs))"
  unfolding reads_def
proof (intro allI impI)
  fix ws rest items
  assume ws: "blank ws" and rest: "ends rest" and items: "items + json_count (JArray xs) \<le> jl_max_items limits"
  have depth: "depth \<le> jl_max_depth limits" "depth \<le> kDumpDepthLimit" "length xs \<le> jl_max_array_items limits"
    and inner: "\<forall>x \<in> set xs. printable limits (depth + 1) x"
    using assms(1) by (simp_all add: printable.simps)
  let ?D = "\<lambda>x. DumpValue x indent (depth + 1) sort_keys"
  let ?body = "with_commas (map (\<lambda>x. AppendIndent indent (depth + 1) @ ?D x) xs) @ AppendIndent indent depth @ CHR '']'' # rest"
  show "ParseValue limits depth (ws @ DumpValue (JArray xs) indent depth sort_keys @ rest) items =
      Inr (read_back sort_keys (JArray xs), rest, items + json_count (JArray xs))"
  proof (cases "xs = []")
    case True
    then show ?thesis
      using depth items by (simp add: ParseValue.simps SkipWhitespace_blank [OF ws] DumpValue.simps ParseArray.simps)
  next
    case False
    have "ParseValue limits depth (ws @ DumpValue (JArray xs) indent depth sort_keys @ rest) items =
        ParseArray limits depth ?body (items + 1)"
      using False depth items by (simp add: ParseValue.simps SkipWhitespace_blank [OF ws] DumpValue.simps)
    also have "\<dots> = array_loop limits depth (JArray []) ?body (items + 1)"
    proof -
      obtain more where more: "with_commas (map (\<lambda>x. AppendIndent indent (depth + 1) @ ?D x) xs) =
          (AppendIndent indent (depth + 1) @ ?D (hd xs)) @ more"
        using with_commas_first [of "map (\<lambda>x. AppendIndent indent (depth + 1) @ ?D x) xs"] False by (auto simp: hd_map)
      have "printable limits (depth + 1) (hd xs)" using inner False by simp
      then have "\<not> starts (\<lambda>c. c = CHR '']'') (SkipWhitespace ?body)"
        unfolding more append_assoc by (intro first_not_closing DumpValue_first) simp_all
      then show ?thesis by (simp add: ParseArray.simps array_loop_skip)
    qed
    also have "\<dots> = Inr (JArray ([] @ map (read_back sort_keys) xs), rest, (items + 1) + sum_list (map json_count xs))"
      by (rule array_loop_reads) (use False assms(2) depth items in auto)
    finally show ?thesis by simp
  qed
qed

lemma object_reads:
  assumes "printable limits depth (JObject ms)"
    "\<forall>m \<in> set ms. reads limits (depth + 1) (DumpValue (snd m) indent (depth + 1) sort_keys) (read_back sort_keys (snd m)) (json_count (snd m))"
  shows "reads limits depth (DumpValue (JObject ms) indent depth sort_keys) (read_back sort_keys (JObject ms)) (json_count (JObject ms))"
  unfolding reads_def
proof (intro allI impI)
  fix ws rest items
  assume ws: "blank ws" and rest: "ends rest" and items: "items + json_count (JObject ms) \<le> jl_max_items limits"
  have depth: "depth \<le> jl_max_depth limits" "depth \<le> kDumpDepthLimit" "length ms \<le> jl_max_object_members limits"
    "distinct (map fst ms)" and inner: "\<forall>m \<in> set ms. length (fst m) \<le> jl_max_string_bytes limits"
    using assms(1) by (simp_all add: printable.simps)
  let ?D = "\<lambda>m. DumpValue (snd m) indent (depth + 1) sort_keys" and ?ms = "member_order sort_keys ms"
  let ?body = "with_commas (map (\<lambda>m. member_text indent (depth + 1) (fst m, ?D m)) ?ms) @ AppendIndent indent depth @ CHR ''}'' # rest"
  show "ParseValue limits depth (ws @ DumpValue (JObject ms) indent depth sort_keys @ rest) items =
      Inr (read_back sort_keys (JObject ms), rest, items + json_count (JObject ms))"
  proof (cases "ms = []")
    case True
    then show ?thesis
      using depth items
      by (simp add: ParseValue.simps SkipWhitespace_blank [OF ws] DumpValue.simps ParseObject.simps member_order_def)
  next
    case False
    have "DumpValue (JObject ms) indent depth sort_keys @ rest = CHR ''{'' # ?body"
      using False depth by (simp add: DumpValue.simps member_text_def member_order_map comp_def)
    then have "ParseValue limits depth (ws @ DumpValue (JObject ms) indent depth sort_keys @ rest) items =
        ParseObject limits depth ?body (items + 1)"
      using depth items by (simp add: ParseValue.simps SkipWhitespace_blank [OF ws])
    also have "\<dots> = object_loop limits depth (JObject []) ?body (items + 1)"
    proof -
      obtain more where "with_commas (map (\<lambda>m. member_text indent (depth + 1) (fst m, ?D m)) ?ms) =
          member_text indent (depth + 1) (fst (hd ?ms), ?D (hd ?ms)) @ more"
        using with_commas_first [of "map (\<lambda>m. member_text indent (depth + 1) (fst m, ?D m)) ?ms"] False by (auto simp: hd_map)
      then have "\<not> starts (\<lambda>c. c = CHR ''}'') (SkipWhitespace ?body)"
        by (simp add: member_text_def SkipWhitespace_blank AppendEscaped_def)
      then show ?thesis by (simp add: ParseObject.simps object_loop_skip)
    qed
    also have "\<dots> = Inr (JObject ([] @ map (\<lambda>m. (fst m, read_back sort_keys (snd m))) ?ms), rest,
        (items + 1) + sum_list (map (\<lambda>m. json_count (snd m)) ?ms))"
    proof (rule object_loop_reads)
      have "distinct (map fst ?ms)"
        using depth(4) by (simp add: member_order_def distinct_map)
      then show "distinct (map fst [] @ map fst ?ms)" by simp
    qed (use False assms(2) depth(3) inner items in auto)
    finally show ?thesis by (simp add: member_order_map)
  qed
qed

lemma scalar_kinds:
  "scalar JNull" "scalar (JBoolean b)" "scalar (JInteger i)" "scalar (JUnsigned u)" "scalar (JText t)"
  by (simp_all add: scalar_def)

lemma scalar_reads:
  assumes "scalar v" "printable limits depth v"
  shows "reads limits depth (DumpValue v indent depth sort_keys) (read_back sort_keys v) (json_count v)"
proof -
  have "json_count v = 1" using assms(1) by (cases v) (simp_all add: scalar_def)
  then show ?thesis using ParseValue_scalar [OF assms] by (simp add: reads_def)
qed

theorem DumpValue_reads:
  "printable limits depth v \<Longrightarrow> reads limits depth (DumpValue v indent depth sort_keys) (read_back sort_keys v) (json_count v)"
proof (induction v arbitrary: depth)
  case (JArray xs)
  then show ?case by (intro array_reads) (auto simp: printable.simps [of limits depth])
next
  case (JObject ms)
  have "reads limits (depth + 1) (DumpValue (snd m) indent (depth + 1) sort_keys) (read_back sort_keys (snd m)) (json_count (snd m))"
    if "m \<in> set ms" for m
  proof (rule JObject.IH [OF that])
    show "snd m \<in> Basic_BNFs.snds m" by (cases m) (simp add: prod_set_simps)
    show "printable limits (depth + 1) (snd m)" using JObject.prems that by (simp add: printable.simps [of limits depth])
  qed
  then show ?case using JObject.prems by (blast intro: object_reads)
qed (blast intro: scalar_reads scalar_kinds | simp add: printable.simps)+

text \<open>A whole document.\<close>

lemma json_round_trip:
  assumes "printable limits 0 v" "json_count v \<le> jl_max_items limits" "length (DumpValue v indent 0 sort_keys) \<le> jl_max_bytes limits"
  shows "json_Parse (DumpValue v indent 0 sort_keys) limits = Inr (read_back sort_keys v)"
proof -
  have "DumpValue v indent 0 sort_keys \<noteq> []" using DumpValue_first [OF assms(1), of indent sort_keys] by auto
  moreover have "ParseValue limits 0 (DumpValue v indent 0 sort_keys) 0 = Inr (read_back sort_keys v, [], json_count v)"
    using readsD [OF DumpValue_reads [OF assms(1)], of "[]" "[]" 0 indent sort_keys] assms(2) by (simp add: blank_def)
  ultimately show ?thesis using assms(3) by (simp add: json_Parse_def Parser_Run_def SkipWhitespace_def)
qed

section \<open>Accepted documents respect the limits\<close>

fun within :: "ParseLimits \<Rightarrow> nat \<Rightarrow> json \<Rightarrow> bool" where
  "within limits depth v \<longleftrightarrow> depth \<le> jl_max_depth limits \<and>
     (case v of
        JReal d \<Rightarrow> isfinite d
      | JText t \<Rightarrow> length t \<le> jl_max_string_bytes limits
      | JArray xs \<Rightarrow> length xs \<le> jl_max_array_items limits \<and> (\<forall>x \<in> set xs. within limits (depth + 1) x)
      | JObject ms \<Rightarrow> length ms \<le> jl_max_object_members limits \<and> distinct (map fst ms) \<and>
          (\<forall>m \<in> set ms. length (fst m) \<le> jl_max_string_bytes limits \<and> within limits (depth + 1) (snd m))
      | _ \<Rightarrow> True)"

declare within.simps [simp del]

lemma string_loop_bounded:
  "string_loop limits result rest = Inr (t, rest') \<Longrightarrow> length result \<le> jl_max_string_bytes limits \<Longrightarrow>
    length t \<le> jl_max_string_bytes limits"
proof (induction limits result rest rule: string_loop.induct)
  case (1 limits result rest)
  then show ?case
    by (subst (asm) (3) string_loop.simps) (force split: list.splits if_splits sum.splits)
qed

lemma ParseString_bounded: "ParseString limits rest = Inr (t, rest') \<Longrightarrow> length t \<le> jl_max_string_bytes limits"
  by (auto simp: ParseString_def dest: string_loop_bounded)

lemma ParseNumber_kind:
  assumes "ParseNumber start = Inr (v, rest)"
  shows "json_count v = 1 \<and> (depth \<le> jl_max_depth limits \<longrightarrow> within limits depth v)"
proof -
  obtain is_real negative literal where n: "number_of_literal is_real negative literal = Inr v"
    using assms by (auto simp: ParseNumber_def Let_def split: if_splits sum.splits)
  obtain d erange where s: "strtod literal = (d, erange)" by (cases "strtod literal")
  show ?thesis
    using n by (auto simp: number_of_literal_def s within.simps split: if_splits option.splits)
qed

lemma ParseScalar_kind:
  "ParseScalar limits rest = Inr (v, rest') \<Longrightarrow> json_count v = 1 \<and> (depth \<le> jl_max_depth limits \<longrightarrow> within limits depth v)"
  using ParseNumber_kind [of rest v rest' depth limits]
  by (auto simp: ParseScalar_def ParseLiteral_def within.simps dest: ParseString_bounded split: if_splits sum.splits)

text \<open>What a parser that started with \<open>i\<close> values counted, \<open>k\<close> of them its own, may return.\<close>

definition returns_within :: "ParseLimits \<Rightarrow> nat \<Rightarrow> nat \<Rightarrow> nat \<Rightarrow> Status + json \<times> string \<times> nat \<Rightarrow> bool" where
  "returns_within limits depth i k result \<longleftrightarrow> (\<forall>v rest n. result = Inr (v, rest, n) \<longrightarrow>
     within limits depth v \<and> n + k = i + json_count v \<and> n \<le> jl_max_items limits)"

lemma returns_within_Inl [simp]: "returns_within limits depth i k (Inl status)"
  by (simp add: returns_within_def)

lemma returns_within_shift:
  "returns_within limits depth (i + d) (k + d) result \<Longrightarrow> returns_within limits depth i k result"
  by (simp add: returns_within_def)

lemma returns_within_trans:
  "returns_within limits depth n k' result \<Longrightarrow> n + k = i + k' \<Longrightarrow> returns_within limits depth i k result"
  by (fastforce simp: returns_within_def)

lemma within_member:
  assumes "within limits depth (JObject acc)" "within limits (depth + 1) v" "length key \<le> jl_max_string_bytes limits"
    "\<not> jl_max_object_members limits \<le> length acc" "key \<notin> fst ` set acc"
  shows "within limits depth (JObject (acc @ [(key, v)]))"
  using assms by (auto simp: within.simps [of limits depth])

lemma within_item:
  assumes "within limits depth (JArray acc)" "within limits (depth + 1) v" "\<not> jl_max_array_items limits \<le> length acc"
  shows "within limits depth (JArray (acc @ [v]))"
  using assms by (auto simp: within.simps [of limits depth])

lemma object_step_within:
  assumes "ParseString limits r0 = Inr (key, r1)" "returns_within limits (depth + 1) items 0 (Inr (v, r3, n))"
    "within limits depth (JObject acc)" "\<not> jl_max_object_members limits \<le> length acc" "\<not> Contains key (JObject acc)"
  shows "within limits depth (json_Set key v (JObject acc))" "n \<le> jl_max_items limits"
    "n + json_count (JObject acc) = items + json_count (json_Set key v (JObject acc))"
    "json_Set key v (JObject acc) = JObject (acc @ [(key, v)])"
proof -
  have new: "key \<notin> fst ` set acc" using assms(5) by simp
  have v: "within limits (depth + 1) v" "n = items + json_count v" "n \<le> jl_max_items limits"
    using assms(2) by (simp_all add: returns_within_def)
  show set: "json_Set key v (JObject acc) = JObject (acc @ [(key, v)])" using new by (simp add: set_member_new)
  show "within limits depth (json_Set key v (JObject acc))"
    unfolding set using within_member [OF assms(3) v(1) ParseString_bounded [OF assms(1)] assms(4) new] .
  show "n \<le> jl_max_items limits" by (rule v(3))
  show "n + json_count (JObject acc) = items + json_count (json_Set key v (JObject acc))"
    unfolding set using v(2) by simp
qed

lemma ParseValue_within: "returns_within limits depth items 0 (ParseValue limits depth rest items)"
proof (induction rule: ParseValue_ParseObject_object_loop_ParseArray_array_loop.induct(1)
    [where ?P2.0 = "\<lambda>l d rest i. d \<le> jl_max_depth l \<longrightarrow> i \<le> jl_max_items l \<longrightarrow> returns_within l d i 1 (ParseObject l d rest i)"
       and ?P3.0 = "\<lambda>l d obj rest i. \<forall>acc. obj = JObject acc \<longrightarrow> within l d obj \<longrightarrow> i \<le> jl_max_items l \<longrightarrow>
          returns_within l d i (json_count obj) (object_loop l d obj rest i)"
       and ?P4.0 = "\<lambda>l d rest i. d \<le> jl_max_depth l \<longrightarrow> i \<le> jl_max_items l \<longrightarrow> returns_within l d i 1 (ParseArray l d rest i)"
       and ?P5.0 = "\<lambda>l d arr rest i. \<forall>acc. arr = JArray acc \<longrightarrow> within l d arr \<longrightarrow> i \<le> jl_max_items l \<longrightarrow>
          returns_within l d i (json_count arr) (array_loop l d arr rest i)"])
  case (1 limits depth rest items)
  show ?case
  proof (cases "SkipWhitespace rest")
    case (Cons c cs)
    show ?thesis
    proof (cases "depth > jl_max_depth limits \<or> items \<ge> jl_max_items limits")
      case ok: False
      have "returns_within limits depth items 0 (case ParseScalar limits (c # cs) of
          Inl status \<Rightarrow> Inl status | Inr (v, rest) \<Rightarrow> Inr (v, rest, items + 1))"
        using ok ParseScalar_kind [of limits "c # cs"] by (auto simp: returns_within_def split: sum.splits)
      moreover have "returns_within limits depth items 0 (ParseObject limits depth cs (items + 1))" if "c = CHR ''{''"
        using 1(1) [OF _ _ Cons that] ok by - (rule returns_within_shift [where d = 1], simp add: not_le)
      moreover have "returns_within limits depth items 0 (ParseArray limits depth cs (items + 1))" if "c = CHR ''[''"
        using 1(2) [OF _ _ Cons _ that] that ok by - (rule returns_within_shift [where d = 1], simp add: not_le)
      ultimately show ?thesis using ok Cons by (simp add: ParseValue.simps)
    qed (auto simp: ParseValue.simps)
  qed (simp add: ParseValue.simps)
next
  case (2 limits depth rest items)
  then show ?case by (auto simp: ParseObject.simps within.simps returns_within_def)
next
  case (3 limits depth obj rest items)
  show ?case
  proof (intro allI impI)
    fix acc assume obj: "obj = JObject acc" and acc: "within limits depth obj" and i: "items \<le> jl_max_items limits"
    show "returns_within limits depth items (json_count obj) (object_loop limits depth obj rest items)"
    proof (cases "ParseString limits (SkipWhitespace rest)")
      case (Inr b)
      obtain key r1 where b: "b = (key, r1)" by (cases b)
      note str = Inr [unfolded b]
      show ?thesis
      proof (cases "starts (\<lambda>c. c = quote) (SkipWhitespace rest) \<and> starts (\<lambda>c. c = CHR '':'') (SkipWhitespace r1)")
        case True
        let ?r2 = "drop 1 (SkipWhitespace r1)"
        have PV: "returns_within limits (depth + 1) items 0 (ParseValue limits (depth + 1) ?r2 items)"
          by (rule 3(1) [of b key r1]) (use True Inr b in simp_all)
        show ?thesis
        proof (cases "ParseValue limits (depth + 1) ?r2 items")
          case pv: (Inr c)
          obtain v r3 n where c: "c = (v, r3, n)" by (cases c)
          show ?thesis
          proof (cases "jl_max_object_members limits \<le> json_size obj \<or> Contains key obj")
            case False
            have room: "\<not> jl_max_object_members limits \<le> length acc" "\<not> Contains key (JObject acc)"
              using False obj by simp_all
            note step = object_step_within [OF str PV [unfolded pv c] acc [unfolded obj] room, folded obj]
            have "returns_within limits depth items (json_count obj) (object_loop limits depth (json_Set key v obj) ds n)"
              if "SkipWhitespace r3 = CHR '','' # ds" for ds
            proof -
              have "\<forall>acc'. json_Set key v obj = JObject acc' \<longrightarrow> within limits depth (json_Set key v obj) \<longrightarrow> n \<le> jl_max_items limits \<longrightarrow>
                  returns_within limits depth n (json_count (json_Set key v obj)) (object_loop limits depth (json_Set key v obj) ds n)"
                by (rule 3(2) [of b key r1 c v "(r3, n)" r3 n "CHR '',''" ds]) (use True Inr b pv c that False in simp_all)
              with step have "returns_within limits depth n (json_count (json_Set key v obj)) (object_loop limits depth (json_Set key v obj) ds n)"
                by blast
              then show ?thesis using step(3) by (rule returns_within_trans)
            qed
            moreover have "returns_within limits depth items (json_count obj) (Inr (json_Set key v obj, ds, n))" for ds
              using step(1-3) unfolding returns_within_def by blast
            ultimately show ?thesis
              using True Inr b pv c False by (simp add: object_loop.simps [of limits depth obj] split: list.split)
          qed (use True Inr b pv c in \<open>auto simp: object_loop.simps [of limits depth obj]\<close>)
        qed (use True Inr b in \<open>simp add: object_loop.simps [of limits depth obj]\<close>)
      qed (use Inr b in \<open>auto simp: object_loop.simps [of limits depth obj]\<close>)
    qed (auto simp: object_loop.simps [of limits depth obj])
  qed
next
  case (4 limits depth rest items)
  then show ?case by (auto simp: ParseArray.simps within.simps returns_within_def)
next
  case (5 limits depth arr rest items)
  show ?case
  proof (intro allI impI)
    fix acc assume arr: "arr = JArray acc" and acc: "within limits depth arr" and i: "items \<le> jl_max_items limits"
    show "returns_within limits depth items (json_count arr) (array_loop limits depth arr rest items)"
    proof (cases "ParseValue limits (depth + 1) rest items")
      case (Inr c)
      obtain v r3 n where c: "c = (v, r3, n)" by (cases c)
      have v: "within limits (depth + 1) v" "n = items + json_count v" "n \<le> jl_max_items limits"
        using 5(1) Inr c by (simp_all add: returns_within_def)
      show ?thesis
      proof (cases "jl_max_array_items limits \<le> json_size arr")
        case False
        have w: "within limits depth (Push v arr)" using within_item [of limits depth acc v] acc v False by (simp add: arr)
        have "returns_within limits depth items (json_count arr) (array_loop limits depth (Push v arr) ds n)"
          if "SkipWhitespace r3 = CHR '','' # ds" for ds
        proof -
          have "\<forall>acc'. Push v arr = JArray acc' \<longrightarrow> within limits depth (Push v arr) \<longrightarrow> n \<le> jl_max_items limits \<longrightarrow>
              returns_within limits depth n (json_count (Push v arr)) (array_loop limits depth (Push v arr) ds n)"
            by (rule 5(2) [of c v "(r3, n)" r3 n "CHR '',''" ds]) (use Inr c that False in simp_all)
          with w v have "returns_within limits depth n (json_count (Push v arr)) (array_loop limits depth (Push v arr) ds n)"
            by (simp add: arr)
          then show ?thesis by (rule returns_within_trans) (simp add: arr v)
        qed
        moreover have "returns_within limits depth items (json_count arr) (Inr (Push v arr, ds, n))" for ds
          using w v by (simp add: arr returns_within_def)
        ultimately show ?thesis
          using Inr c False by (simp add: array_loop.simps [of limits depth arr] split: list.split)
      qed (use Inr c in \<open>auto simp: array_loop.simps [of limits depth arr]\<close>)
    qed (simp add: array_loop.simps [of limits depth arr])
  qed
qed

lemma json_Parse_within:
  assumes "json_Parse input limits = Inr v"
  shows "length input \<le> jl_max_bytes limits \<and> within limits 0 v \<and> json_count v \<le> jl_max_items limits"
  using assms ParseValue_within [of limits 0 0 input]
  by (auto simp: json_Parse_def Parser_Run_def returns_within_def split: if_splits sum.splits)

end
