(* ===== verification/Document_Json.thy ===== *)
theory Document_Json
  imports Engine Json_Laws
begin

text \<open>
  The human-readable surface of \<open>document_json.cpp\<close>: every domain object as canonical JSON, and the readers of
  intents, submissions, policies, fences and verification evidence. A well-formed submission and a fence
  are read back from what is printed for them; the printed form of an intent and of a policy is
  refused by its own reader, because it carries a digest the reader does not know.
\<close>

section \<open>Building objects\<close>

text \<open>A sequence of \<open>root.Set(key, value)\<close> on a fresh object.\<close>

definition object_of :: "(string \<times> json) list \<Rightarrow> json" where
  "object_of ms = fold (\<lambda>m. json_Set (fst m) (snd m)) ms (JObject [])"

text \<open>A sequence of \<open>array.Push(value)\<close> on a fresh array.\<close>

definition array_of :: "json list \<Rightarrow> json" where
  "array_of xs = fold Push xs (JArray [])"

definition document_Reject :: "string \<Rightarrow> Status" where
  "document_Reject what = Status Code_Rejected Reason_UnsupportedInput"

definition DigestJson :: "Sha256Digest \<Rightarrow> json" where
  "DigestJson d = JText (ToHex d)"

definition EvidenceJson :: "EvidenceClass \<Rightarrow> json" where
  "EvidenceJson v = JText (EvidenceClass_text v)"

definition attribute_json :: "AttributeValue \<Rightarrow> json" where
  "attribute_json v = object_of
     [case v of
        Value_Absent \<Rightarrow> (''absent'', JBoolean True)
      | Value_Boolean b \<Rightarrow> (''bool'', JBoolean b)
      | Value_Integer i \<Rightarrow> (''i64'', JInteger i)
      | Value_Unsigned u \<Rightarrow> (''u64'', JUnsigned u)
      | Value_Text t \<Rightarrow> (''text'', JText t)
      | Value_Token t \<Rightarrow> (''token'', JText t)
      | Value_Invalid \<Rightarrow> (''invalid'', JBoolean True)]"

definition StateJson :: "SubjectState \<Rightarrow> json" where
  "StateJson st = object_of (map (\<lambda>e. (str (fst e), attribute_json (snd e))) st)"

section \<open>Reading members\<close>

text \<open>The steps \<open>if (!status.ok()) return status;\<close> in sequence.\<close>

definition next_step :: "Status + 'a \<Rightarrow> ('a \<Rightarrow> Status + 'b) \<Rightarrow> Status + 'b" where
  "next_step r f = (case r of Inl status \<Rightarrow> Inl status | Inr x \<Rightarrow> f x)"

lemma next_step_simps [simp]: "next_step (Inl s) f = Inl s" "next_step (Inr x) f = f x"
  by (simp_all add: next_step_def)

lemma next_step_Inr: "next_step r f = Inr y \<longleftrightarrow> (\<exists>x. r = Inr x \<and> f x = Inr y)"
  by (cases r) simp_all

text \<open>
  One attribute: each marker that is present overwrites the value of the one before; \<^const>\<open>None\<close> is
  \<open>resolved == false\<close>.
\<close>

definition pick :: "string \<Rightarrow> (json \<Rightarrow> AttributeValue) \<Rightarrow> json \<Rightarrow> AttributeValue option \<Rightarrow> AttributeValue option" where
  "pick key f node v = (case Find key node of None \<Rightarrow> v | Some m \<Rightarrow> Some (f m))"

definition ParseAttribute :: "json \<Rightarrow> Status + AttributeValue" where
  "ParseAttribute node =
     (if json_kind node \<noteq> JKind_Object then Inl (document_Reject ''attribute value must be an object'')
      else if (case Find ''absent'' node of None \<Rightarrow> False | Some m \<Rightarrow> \<not> AsBool False m)
      then Inl (document_Reject ''absent marker must be true'')
      else let v = pick ''absent'' (\<lambda>m. Value_Absent) node None;
               v = pick ''bool'' (\<lambda>m. Value_Boolean (AsBool False m)) node v;
               v = pick ''i64'' (\<lambda>m. Value_Integer (AsInteger 0 m)) node v;
               v = pick ''u64'' (\<lambda>m. Value_Unsigned (AsUnsigned 0 m)) node v;
               v = pick ''text'' (\<lambda>m. Value_Text (AsText m)) node v;
               v = pick ''token'' (\<lambda>m. Value_Token (AsText m)) node v
           in case v of
                None \<Rightarrow> Inl (document_Reject ''attribute value does not name exactly one of absent/bool/i64/u64/text/token'')
              | Some v \<Rightarrow> Inr v)"

fun ParseAttributes :: "(string \<times> json) list \<Rightarrow> SubjectState \<Rightarrow> Status + SubjectState" where
  "ParseAttributes [] st = Inr st"
| "ParseAttributes (m # ms) st =
     (case TryParseId (fst m) of
        None \<Rightarrow> Inl (document_Reject ''invalid attribute key'')
      | Some key \<Rightarrow>
          next_step (ParseAttribute (snd m)) (\<lambda>v.
            case map_emplace key v st of
              None \<Rightarrow> Inl (document_Reject ''duplicate attribute key'')
            | Some st \<Rightarrow> ParseAttributes ms st))"

text \<open>A null node leaves the state of the caller, which is empty.\<close>

definition ParseState :: "RuntimeLimits \<Rightarrow> json \<Rightarrow> Status + SubjectState" where
  "ParseState limits node =
     (if json_kind node = JKind_Null then Inr []
      else if json_kind node \<noteq> JKind_Object then Inl (document_Reject ''subject attributes must be an object'')
      else if json_size node > max_attributes_per_subject limits
      then Inl (Status Code_LimitExceeded Reason_PlanActionLimitReached)
      else ParseAttributes (json_members node) [])"

text \<open>A member that is not there leaves the default of the caller.\<close>

definition json_ReadU64 :: "string \<Rightarrow> u64 \<Rightarrow> json \<Rightarrow> Status + u64" where
  "json_ReadU64 key fallback node =
     (case Find key node of
        None \<Rightarrow> Inr fallback
      | Some m \<Rightarrow> if \<not> IsNumber m then Inl (document_Reject ''expected an integer member'') else Inr (AsUnsigned 0 m))"

definition json_ReadBool :: "string \<Rightarrow> bool \<Rightarrow> json \<Rightarrow> Status + bool" where
  "json_ReadBool key fallback node =
     (case Find key node of
        None \<Rightarrow> Inr fallback
      | Some m \<Rightarrow> if json_kind m \<noteq> JKind_Boolean then Inl (document_Reject ''expected a boolean member'')
                  else Inr (AsBool False m))"

definition json_ReadText :: "string \<Rightarrow> string \<Rightarrow> json \<Rightarrow> Status + string" where
  "json_ReadText key fallback node =
     (case Find key node of
        None \<Rightarrow> Inr fallback
      | Some m \<Rightarrow> if json_kind m \<noteq> JKind_Text then Inl (document_Reject ''expected a text member'')
                  else Inr (AsText m))"

text \<open>The numbers read as signed integers: ages and time stamps.\<close>

definition json_ReadI64 :: "string \<Rightarrow> i64 \<Rightarrow> json \<Rightarrow> Status + i64" where
  "json_ReadI64 key fallback node =
     (case Find key node of
        None \<Rightarrow> Inr fallback
      | Some m \<Rightarrow> if \<not> IsNumber m then Inl (document_Reject ''must be an integer'') else Inr (AsInteger 0 m))"

definition CheckMembers :: "string list \<Rightarrow> json \<Rightarrow> Status" where
  "CheckMembers allowed node =
     (if json_kind node \<noteq> JKind_Object then document_Reject ''expected a top level object''
      else if list_ex (\<lambda>m. fst m \<notin> set allowed) (json_members node)
      then Status Code_Rejected Reason_UnsupportedInput
      else Status_Ok)"

text \<open>The text is passed on as a C string: it ends at the first zero byte.\<close>

definition ParseEvidence :: "json \<Rightarrow> EvidenceClass" where
  "ParseEvidence node =
     (case Find ''evidence'' node of
        None \<Rightarrow> Evidence_Synthetic
      | Some m \<Rightarrow>
          if json_kind m \<noteq> JKind_Text then Evidence_Synthetic
          else case TryParseEvidenceClass (takeWhile (\<lambda>c. c \<noteq> CHR 0x00) (AsText m)) of
            None \<Rightarrow> Evidence_Synthetic
          | Some e \<Rightarrow> e)"

section \<open>Printing\<close>

definition subject_json :: "bool \<Rightarrow> SubjectState \<Rightarrow> json" where
  "subject_json complete_attributes st =
     object_of [(''complete_attributes'', JBoolean complete_attributes), (''attributes'', StateJson st)]"

definition intent_json :: "IntentDocument \<Rightarrow> json" where
  "intent_json d = object_of
     [(''intent'', JText (str (in_intent d))), (''scope'', JText (str (in_scope d))),
      (''definition'', JText (str (in_definition d))), (''generation'', JUnsigned (cval (in_generation d))),
      (''policy_version'', JUnsigned (cval (in_policy_version d))), (''evidence'', EvidenceJson (in_evidence d)),
      (''complete'', JBoolean (in_complete d)), (''digest'', DigestJson (in_digest d)),
      (''subjects'', object_of (map (\<lambda>e. (str (fst e),
         subject_json (si_complete_attributes (snd e)) (si_desired (snd e)))) (in_subjects d)))]"

definition submission_json :: "ObservationSubmission \<Rightarrow> json" where
  "submission_json d = object_of
     [(''observation'', JText (str (su_observation d))), (''scope'', JText (str (su_scope d))),
      (''reporter'', JText (str (su_reporter d))), (''generation'', JUnsigned (cval (su_generation d))),
      (''evidence'', EvidenceJson (su_evidence d)), (''complete'', JBoolean (su_complete d)),
      (''authoritative_absence'', JBoolean (su_authoritative_absence d)),
      (''subjects'', object_of (map (\<lambda>e. (str (fst e),
         subject_json (so_complete_attributes (snd e)) (so_observed (snd e)))) (su_subjects d)))]"

definition observation_json :: "ObservationDocument \<Rightarrow> json" where
  "observation_json d = object_of
     [(''observation'', JText (str (ob_observation d))), (''scope'', JText (str (ob_scope d))),
      (''reporter'', JText (str (ob_reporter d))), (''generation'', JUnsigned (cval (ob_generation d))),
      (''evidence'', EvidenceJson (ob_evidence d)), (''complete'', JBoolean (ob_complete d)),
      (''authoritative_absence'', JBoolean (ob_authoritative_absence d)),
      (''received_epoch'', JUnsigned (cval (ob_received_epoch d))),
      (''received_unix_ms'', JInteger (ob_received_unix_ms d)), (''digest'', DigestJson (ob_digest d)),
      (''subjects'', object_of (map (\<lambda>e. (str (fst e),
         subject_json (so_complete_attributes (snd e)) (so_observed (snd e)))) (ob_subjects d)))]"

definition policy_json :: "ReconciliationPolicy \<Rightarrow> json" where
  "policy_json p = object_of
     [(''id'', JText (str (po_id p))), (''version'', JUnsigned (cval (po_version p))),
      (''max_observation_age_ms'', JInteger (max_observation_age_ms (po_freshness p))),
      (''require_current_epoch'', JBoolean (require_current_epoch (po_freshness p))),
      (''require_complete_coverage_for_absence'', JBoolean (require_complete_coverage_for_absence (po_freshness p))),
      (''permit_apply_missing'', JBoolean (permit_apply_missing p)),
      (''permit_apply_mismatched'', JBoolean (permit_apply_mismatched p)),
      (''permit_withdraw_unexpected'', JBoolean (permit_withdraw_unexpected p)),
      (''require_complete_coverage_for_convergence_proof'', JBoolean (require_complete_coverage_for_convergence_proof p)),
      (''require_independent_verification'', JBoolean (require_independent_verification p)),
      (''digest'', DigestJson (ComputePolicyDigest p)),
      (''unmanaged_attributes'', array_of (map (\<lambda>k. JText (str k)) (unmanaged_attributes p))),
      (''observe_only_attributes'', array_of (map (\<lambda>k. JText (str k)) (observe_only_attributes p)))]"

definition delta_json :: "AttributeDelta \<Rightarrow> json" where
  "delta_json a = object_of
     [(''key'', JText (str (ad_key a))), (''kind'', JText (AttributeDeltaKind_text (ad_kind a))),
      (''intended'', JText (Render (ad_intended a))), (''observed'', JText (Render (ad_observed a)))]"

definition drift_json :: "DriftRecord \<Rightarrow> json" where
  "drift_json r = object_of
     [(''subject'', JText (str (dr_subject r))), (''drift'', JText (DriftClass_text (dr_drift r))),
      (''reason'', JText (ReasonCode_text (dr_reason r))), (''deltas'', array_of (map delta_json (dr_deltas r)))]"

definition classification_json :: "ClassificationReport \<Rightarrow> json" where
  "classification_json r = object_of
     [(''scope'', JText (str (cr_scope r))), (''has_intent'', JBoolean (ev_has_intent (cr_evidence r))),
      (''has_observation'', JBoolean (ev_has_observation (cr_evidence r))),
      (''freshness'', JText (FreshnessVerdict_text (ev_freshness (cr_evidence r)))),
      (''subject_visits'', JUnsigned (of_nat (cr_subject_visits r))),
      (''attribute_comparisons'', JUnsigned (of_nat (cr_attribute_comparisons r))),
      (''records'', array_of (map drift_json (cr_records r)))]"

definition steps_json :: "Explanation \<Rightarrow> json" where
  "steps_json x = array_of (map (\<lambda>s. object_of
     [(''code'', JText (ReasonCode_text (es_code s))), (''detail'', JText (es_detail s))]) (ex_steps x))"

definition decision_json :: "Decision \<Rightarrow> json" where
  "decision_json d = object_of
     [(''subject'', JText (str (de_subject d))), (''drift'', JText (DriftClass_text (de_drift d))),
      (''reason'', JText (ReasonCode_text (de_reason d))), (''action'', JText (ActionKind_text (de_action d))),
      (''disposition'', JText (DecisionDisposition_text (de_disposition d))),
      (''idempotency_key'', DigestJson (de_idempotency_key d)),
      (''authority'', JText (authority_Render (de_authority d))), (''explanation'', steps_json (de_explanation d))]"

definition plan_json :: "ReconciliationPlan \<Rightarrow> json" where
  "plan_json p = object_of
     [(''plan_id'', JText (pl_plan_id p)), (''scope'', JText (str (pl_scope p))),
      (''definition'', JText (str (pl_definition p))), (''epoch'', JUnsigned (cval (pl_epoch p))),
      (''boot'', JText (HexOf (boot_bytes (pl_boot p)))), (''policy'', JText (str (pl_policy_id p))),
      (''policy_version'', JUnsigned (cval (pl_policy_version p))), (''policy_digest'', DigestJson (pl_policy_digest p)),
      (''intent'', JText (str (pl_intent p))), (''intent_generation'', JUnsigned (cval (pl_intent_generation p))),
      (''intent_digest'', DigestJson (pl_intent_digest p)), (''observation'', JText (str (pl_observation p))),
      (''observation_generation'', JUnsigned (cval (pl_observation_generation p))),
      (''observation_reporter'', JText (str (pl_reporter p))),
      (''observation_digest'', DigestJson (pl_observation_digest p)),
      (''observation_epoch'', JUnsigned (cval (pl_observation_epoch p))),
      (''observation_received_unix_ms'', JInteger (pl_observation_received_unix_ms p)),
      (''freshness'', JText (FreshnessVerdict_text (pl_freshness p))),
      (''verdict'', JText (ConvergenceVerdict_text (pl_verdict p))),
      (''scope_reason'', JText (ReasonCode_text (pl_scope_reason p))), (''evidence'', EvidenceJson (pl_evidence p)),
      (''truncated'', JBoolean (pl_truncated p)), (''mutation_count'', JUnsigned (of_nat (MutationCount p))),
      (''scope_explanation'', steps_json (pl_scope_explanation p)),
      (''decisions'', array_of (map decision_json (pl_decisions p)))]"

definition boot_report_json :: "BootReport \<Rightarrow> json" where
  "boot_report_json r = object_of
     [(''store'', JText (HexOf (store_bytes (br_store r)))), (''boot'', JText (HexOf (boot_bytes (br_boot r)))),
      (''epoch'', JUnsigned (cval (br_epoch r))), (''previous_epoch'', JUnsigned (cval (br_previous_epoch r))),
      (''store_created'', JBoolean (br_store_created r)), (''snapshot_loaded'', JBoolean (br_snapshot_loaded r)),
      (''recovered_torn_tail'', JBoolean (br_recovered_torn_tail r)),
      (''recovered_bytes'', JUnsigned (of_nat (br_recovered_bytes r))),
      (''records_replayed'', JUnsigned (of_nat (br_records_replayed r))),
      (''attempts_restored'', JUnsigned (of_nat (br_attempts_restored r))),
      (''attempts_interrupted'', JUnsigned (of_nat (br_attempts_interrupted r))),
      (''attempts_abandoned'', JUnsigned (of_nat (br_attempts_abandoned r))),
      (''attempts_fenced'', JUnsigned (of_nat (br_attempts_fenced r))),
      (''observations_retained'', JUnsigned (of_nat (br_observations_retained r))),
      (''outcomes_retained'', JUnsigned (of_nat (br_outcomes_retained r))),
      (''fences_active'', JUnsigned (of_nat (br_fences_active r))),
      (''freshness_restored'', JBoolean (br_freshness_restored r)),
      (''mutation_authority_restored'', JBoolean (br_mutation_authority_restored r)),
      (''notes'', array_of (map (\<lambda>n. JText (ReasonCode_text n)) (br_notes r)))]"

definition outcome_json :: "ReconciliationOutcome \<Rightarrow> json" where
  "outcome_json oc = object_of
     [(''idempotency_key'', DigestJson (oc_idempotency_key oc)), (''scope'', JText (str (oc_scope oc))),
      (''subject'', JText (str (oc_subject oc))), (''action'', JText (ActionKind_text (oc_action oc))),
      (''attempt'', JUnsigned (cval (oc_attempt oc))), (''epoch'', JUnsigned (cval (oc_epoch oc))),
      (''boot'', JText (HexOf (boot_bytes (oc_boot oc)))),
      (''terminal_state'', JText (AttemptState_text (oc_terminal_state oc))),
      (''reason'', JText (ReasonCode_text (oc_reason oc))), (''committed_unix_ms'', JInteger (oc_committed_unix_ms oc)),
      (''verified'', JBoolean (oc_verified oc)), (''verified_generation'', JUnsigned (cval (oc_verified_generation oc))),
      (''ambiguous'', JBoolean (oc_ambiguous oc))]"

definition fence_json :: "FenceEntry \<Rightarrow> json" where
  "fence_json f = object_of
     [(''id'', JText (str (fe_id f))), (''scope'', JText (str (fe_scope f))), (''subject'', JText (str (fe_subject f))),
      (''fenced_below'', JUnsigned (cval (fe_fenced_below f))), (''reason'', JText (ReasonCode_text (fe_reason f))),
      (''detail'', JText (fe_detail f)), (''created_unix_ms'', JInteger (fe_created_unix_ms f))]"

definition transition_json :: "AttemptTransition \<Rightarrow> json" where
  "transition_json t = object_of
     [(''from'', JText (AttemptState_text (tr_from t))), (''to'', JText (AttemptState_text (tr_to t))),
      (''epoch'', JUnsigned (cval (tr_epoch t))), (''reason'', JText (ReasonCode_text (tr_reason t)))]"

definition attempt_json :: "AttemptRecord \<Rightarrow> json" where
  "attempt_json a = object_of
     [(''attempt'', JUnsigned (cval (at_id a))), (''idempotency_key'', DigestJson (at_idempotency_key a)),
      (''scope'', JText (str (at_scope a))), (''subject'', JText (str (at_subject a))),
      (''action'', JText (ActionKind_text (at_action a))), (''state'', JText (AttemptState_text (at_state a))),
      (''epoch'', JUnsigned (cval (at_epoch a))), (''boot'', JText (HexOf (boot_bytes (at_boot a)))),
      (''issued_unix_ms'', JInteger (at_issued_unix_ms a)),
      (''transitions'', array_of (map transition_json (at_transitions a)))]"

text \<open>\<open>ToJson\<close> of each type is its value printed with sorted keys and two spaces of indentation.\<close>

definition ToJson :: "json \<Rightarrow> string" where
  "ToJson v = DumpCanonical 2 v"

section \<open>Reading documents\<close>

text \<open>One subject of a document: its completeness flag and its attributes.\<close>

definition ParseSubject :: "RuntimeLimits \<Rightarrow> json \<Rightarrow> Status + bool \<times> SubjectState" where
  "ParseSubject limits node =
     (if json_kind node \<noteq> JKind_Object then Inl (document_Reject ''subject entry must be an object'')
      else next_step (json_ReadBool ''complete_attributes'' True node) (\<lambda>complete.
        next_step (case Find ''attributes'' node of None \<Rightarrow> Inr [] | Some m \<Rightarrow> ParseState limits m) (\<lambda>st.
          Inr (complete, st))))"

fun ParseSubjectList ::
    "RuntimeLimits \<Rightarrow> (SubjectId \<Rightarrow> bool \<Rightarrow> SubjectState \<Rightarrow> 'e) \<Rightarrow> (string \<times> json) list \<Rightarrow> (SubjectId, 'e) omap \<Rightarrow>
     Status + (SubjectId, 'e) omap" where
  "ParseSubjectList limits mk [] subjects = Inr subjects"
| "ParseSubjectList limits mk (m # ms) subjects =
     (case TryParseId (fst m) of
        None \<Rightarrow> Inl (document_Reject ''invalid subject identity'')
      | Some subject \<Rightarrow>
          next_step (ParseSubject limits (snd m)) (\<lambda>(complete, st).
            case map_emplace subject (mk subject complete st) subjects of
              None \<Rightarrow> Inl (document_Reject ''duplicate subject'')
            | Some subjects \<Rightarrow> ParseSubjectList limits mk ms subjects))"

definition ParseSubjects ::
    "RuntimeLimits \<Rightarrow> (SubjectId \<Rightarrow> bool \<Rightarrow> SubjectState \<Rightarrow> 'e) \<Rightarrow> json \<Rightarrow> Status + (SubjectId, 'e) omap" where
  "ParseSubjects limits mk root =
     (case Find ''subjects'' root of
        None \<Rightarrow> Inr []
      | Some node \<Rightarrow>
          if json_kind node \<noteq> JKind_Object then Inl (document_Reject ''subjects must be an object'')
          else if json_size node > max_subjects_per_document limits
          then Inl (Status Code_LimitExceeded Reason_PlanActionLimitReached)
          else ParseSubjectList limits mk (json_members node) [])"

definition check_shape :: "string list \<Rightarrow> json \<Rightarrow> Status + unit" where
  "check_shape allowed root = (let shape = CheckMembers allowed root in if \<not> status_ok shape then Inl shape else Inr ())"

definition check_valid :: "Status \<Rightarrow> 'a \<Rightarrow> Status + 'a" where
  "check_valid valid x = (if \<not> status_ok valid then Inl valid else Inr x)"

definition mk_intent :: "SubjectId \<Rightarrow> bool \<Rightarrow> SubjectState \<Rightarrow> SubjectIntent" where
  "mk_intent subject complete st = \<lparr>si_id = subject, si_complete_attributes = complete, si_desired = st\<rparr>"

definition mk_observation :: "SubjectId \<Rightarrow> bool \<Rightarrow> SubjectState \<Rightarrow> SubjectObservation" where
  "mk_observation subject complete st = \<lparr>so_id = subject, so_complete_attributes = complete, so_observed = st\<rparr>"

definition ParseJson_intent :: "string \<Rightarrow> RuntimeLimits \<Rightarrow> Status + IntentDocument" where
  "ParseJson_intent input limits =
     next_step (json_Parse input ParseLimits_new) (\<lambda>root.
     next_step (check_shape [''intent'', ''scope'', ''definition'', ''generation'', ''policy_version'', ''evidence'',
        ''complete'', ''subjects''] root) (\<lambda>_.
     next_step (json_ReadText ''intent'' [] root) (\<lambda>intent_text.
     next_step (json_ReadText ''scope'' [] root) (\<lambda>scope_text.
     next_step (json_ReadText ''definition'' [] root) (\<lambda>definition_text.
     next_step (json_ReadU64 ''generation'' 0 root) (\<lambda>generation.
     next_step (json_ReadU64 ''policy_version'' 0 root) (\<lambda>policy_version.
     next_step (json_ReadBool ''complete'' True root) (\<lambda>complete.
     case (TryParseId intent_text, TryParseId scope_text, TryParseId definition_text) of
       (Some intent, Some scope, Some definition_id) \<Rightarrow>
         next_step (ParseSubjects limits mk_intent root) (\<lambda>subjects.
           let d = \<lparr>in_intent = intent, in_scope = scope, in_definition = definition_id,
                 in_generation = Counter generation, in_policy_version = Counter policy_version,
                 in_evidence = ParseEvidence root, in_complete = complete, in_subjects = subjects,
                 in_digest = zero_digest\<rparr>;
               d = d\<lparr>in_digest := ComputeIntentDigest d\<rparr>
           in check_valid (ValidateIntent d limits) d)
     | _ \<Rightarrow> Inl (document_Reject ''intent, scope and definition must be valid identities'')))))))))"

definition ParseJson_submission :: "string \<Rightarrow> RuntimeLimits \<Rightarrow> Status + ObservationSubmission" where
  "ParseJson_submission input limits =
     next_step (json_Parse input ParseLimits_new) (\<lambda>root.
     next_step (check_shape [''observation'', ''scope'', ''reporter'', ''generation'', ''evidence'', ''complete'',
        ''authoritative_absence'', ''subjects''] root) (\<lambda>_.
     next_step (json_ReadText ''observation'' [] root) (\<lambda>observation_text.
     next_step (json_ReadText ''scope'' [] root) (\<lambda>scope_text.
     next_step (json_ReadText ''reporter'' [] root) (\<lambda>reporter_text.
     next_step (json_ReadU64 ''generation'' 0 root) (\<lambda>generation.
     next_step (json_ReadBool ''complete'' True root) (\<lambda>complete.
     next_step (json_ReadBool ''authoritative_absence'' False root) (\<lambda>absence.
     case (TryParseId observation_text, TryParseId scope_text, TryParseId reporter_text) of
       (Some observation, Some scope, Some reporter) \<Rightarrow>
         next_step (ParseSubjects limits mk_observation root) (\<lambda>subjects.
           let d = \<lparr>su_observation = observation, su_scope = scope, su_reporter = reporter,
                 su_generation = Counter generation, su_evidence = ParseEvidence root, su_complete = complete,
                 su_authoritative_absence = absence, su_subjects = subjects\<rparr>
           in check_valid (ValidateSubmission d limits) d)
     | _ \<Rightarrow> Inl (document_Reject ''observation, scope and reporter must be valid identities'')))))))))"

fun ParseKeys :: "json list \<Rightarrow> AttributeKey list \<Rightarrow> Status + AttributeKey list" where
  "ParseKeys [] keys = Inr keys"
| "ParseKeys (v # vs) keys =
     (if json_kind v \<noteq> JKind_Text then Inl (document_Reject ''attribute list entries must be text'')
      else case TryParseId (AsText v) of
        None \<Rightarrow> Inl (document_Reject ''invalid attribute key in policy'')
      | Some key \<Rightarrow> ParseKeys vs (keys @ [key]))"

definition ParseKeyList :: "string \<Rightarrow> AttributeKey list \<Rightarrow> json \<Rightarrow> Status + AttributeKey list" where
  "ParseKeyList field target root =
     (case Find field root of
        None \<Rightarrow> Inr target
      | Some node \<Rightarrow>
          if json_kind node \<noteq> JKind_Array then Inl (document_Reject ''attribute list must be an array'')
          else ParseKeys (json_items node) target)"

definition ParseJson_policy :: "string \<Rightarrow> RuntimeLimits \<Rightarrow> Status + ReconciliationPolicy" where
  "ParseJson_policy input limits =
     next_step (json_Parse input ParseLimits_new) (\<lambda>root.
     next_step (check_shape [''id'', ''version'', ''max_observation_age_ms'', ''require_current_epoch'',
        ''require_complete_coverage_for_absence'', ''permit_apply_missing'', ''permit_apply_mismatched'',
        ''permit_withdraw_unexpected'', ''require_complete_coverage_for_convergence_proof'',
        ''require_independent_verification'', ''unmanaged_attributes'', ''observe_only_attributes''] root) (\<lambda>_.
     let p = DefaultPolicy; fr = po_freshness p in
     next_step (json_ReadText ''id'' [] root) (\<lambda>id_text.
     next_step (json_ReadU64 ''version'' 1 root) (\<lambda>version.
     next_step (json_ReadI64 ''max_observation_age_ms'' (max_observation_age_ms fr) root) (\<lambda>max_age.
     next_step (json_ReadBool ''require_current_epoch'' (require_current_epoch fr) root) (\<lambda>current_epoch.
     next_step (json_ReadBool ''require_complete_coverage_for_absence'' (require_complete_coverage_for_absence fr) root) (\<lambda>coverage.
     next_step (json_ReadBool ''permit_apply_missing'' (permit_apply_missing p) root) (\<lambda>missing.
     next_step (json_ReadBool ''permit_apply_mismatched'' (permit_apply_mismatched p) root) (\<lambda>mismatched.
     next_step (json_ReadBool ''permit_withdraw_unexpected'' (permit_withdraw_unexpected p) root) (\<lambda>unexpected.
     next_step (json_ReadBool ''require_complete_coverage_for_convergence_proof''
        (require_complete_coverage_for_convergence_proof p) root) (\<lambda>convergence.
     next_step (json_ReadBool ''require_independent_verification'' (require_independent_verification p) root) (\<lambda>independent.
     next_step (if id_text = [] then Inr (po_id p)
                else case TryParseId id_text of
                  None \<Rightarrow> Inl (document_Reject ''invalid policy identity'') | Some i \<Rightarrow> Inr i) (\<lambda>pid.
     next_step (ParseKeyList ''unmanaged_attributes'' (unmanaged_attributes p) root) (\<lambda>unmanaged.
     next_step (ParseKeyList ''observe_only_attributes'' (observe_only_attributes p) root) (\<lambda>observe_only.
       let p = \<lparr>po_id = pid, po_version = Counter version,
             po_freshness = \<lparr>max_observation_age_ms = max_age, require_current_epoch = current_epoch,
               require_complete_coverage_for_absence = coverage\<rparr>,
             permit_apply_missing = missing, permit_apply_mismatched = mismatched,
             permit_withdraw_unexpected = unexpected, require_complete_coverage_for_convergence_proof = convergence,
             require_independent_verification = independent, unmanaged_attributes = unmanaged,
             observe_only_attributes = observe_only\<rparr>;
           (canonical, p) = CanonicalisePolicy limits p
       in check_valid canonical p)))))))))))))))"

definition kKnownFenceReasons :: "ReasonCode list" where
  "kKnownFenceReasons = [Reason_ScopeFenced, Reason_SubjectFenced, Reason_RestartEpochAdvanced,
     Reason_AttemptFencedByEpochAdvance]"

definition ParseFenceReason :: "string \<Rightarrow> Status + ReasonCode" where
  "ParseFenceReason t =
     (if t = [] then Inr Reason_ScopeFenced
      else case find (\<lambda>r. t = ReasonCode_text r) kKnownFenceReasons of
        None \<Rightarrow> Inl (document_Reject ''unsupported fence reason'')
      | Some r \<Rightarrow> Inr r)"

definition ParseJson_fence :: "string \<Rightarrow> RuntimeLimits \<Rightarrow> Status + FenceEntry" where
  "ParseJson_fence input limits =
     next_step (json_Parse input ParseLimits_new) (\<lambda>root.
     next_step (check_shape [''id'', ''scope'', ''subject'', ''fenced_below'', ''reason'', ''detail'', ''created_unix_ms''] root) (\<lambda>_.
     next_step (json_ReadText ''id'' [] root) (\<lambda>id_text.
     next_step (json_ReadText ''scope'' [] root) (\<lambda>scope_text.
     next_step (json_ReadText ''subject'' [] root) (\<lambda>subject_text.
     next_step (json_ReadText ''reason'' [] root) (\<lambda>reason_text.
     next_step (json_ReadU64 ''fenced_below'' 0 root) (\<lambda>fenced_below.
     case (TryParseId id_text, TryParseId scope_text) of
       (Some fid, Some scope) \<Rightarrow>
         next_step (if subject_text = [] then Inr (StringId [])
                    else case TryParseId subject_text of
                      None \<Rightarrow> Inl (document_Reject ''invalid fence subject identity'') | Some s \<Rightarrow> Inr s) (\<lambda>subject.
         next_step (ParseFenceReason reason_text) (\<lambda>reason.
         next_step (json_ReadText ''detail'' [] root) (\<lambda>detail.
         next_step (json_ReadI64 ''created_unix_ms'' 0 root) (\<lambda>created.
           Inr \<lparr>fe_id = fid, fe_scope = scope, fe_subject = subject, fe_fenced_below = Counter fenced_below,
                fe_reason = reason, fe_detail = detail, fe_created_unix_ms = created\<rparr>))))
     | _ \<Rightarrow> Inl (document_Reject ''fence id and scope must be valid identities''))))))))"

definition ParseJson_verification :: "string \<Rightarrow> RuntimeLimits \<Rightarrow> Status + VerificationEvidence" where
  "ParseJson_verification input limits =
     next_step (json_Parse input ParseLimits_new) (\<lambda>root.
     next_step (check_shape [''scope'', ''subject'', ''idempotency_key'', ''observation'', ''generation'',
        ''received_epoch'', ''verifier'', ''applier'', ''received_unix_ms'', ''confirms_effect''] root) (\<lambda>_.
     next_step (json_ReadText ''scope'' [] root) (\<lambda>scope_text.
     next_step (json_ReadText ''subject'' [] root) (\<lambda>subject_text.
     next_step (json_ReadText ''idempotency_key'' [] root) (\<lambda>key_text.
     next_step (json_ReadText ''observation'' [] root) (\<lambda>observation_text.
     next_step (json_ReadU64 ''generation'' 0 root) (\<lambda>generation.
     next_step (json_ReadU64 ''received_epoch'' 0 root) (\<lambda>epoch.
     next_step (json_ReadText ''verifier'' [] root) (\<lambda>verifier_text.
     next_step (json_ReadText ''applier'' [] root) (\<lambda>applier_text.
     next_step (json_ReadBool ''confirms_effect'' False root) (\<lambda>confirms.
     next_step (json_ReadI64 ''received_unix_ms'' 0 root) (\<lambda>stamp.
     case (TryParseId scope_text, TryParseId subject_text, TryParseId observation_text, TryParseId verifier_text,
           TryParseId applier_text) of
       (Some scope, Some subject, Some observation, Some verifier, Some applier) \<Rightarrow>
         (case TryParseHexDigest key_text of
            None \<Rightarrow> Inl (document_Reject ''idempotency_key must be 64 hexadecimal characters'')
          | Some key \<Rightarrow>
              Inr \<lparr>ve_scope = scope, ve_subject = subject, ve_idempotency_key = key, ve_observation = observation,
                   ve_generation = Counter generation, ve_received_epoch = Counter epoch, ve_verifier = verifier,
                   ve_applier = applier, ve_received_unix_ms = stamp, ve_confirms_effect = confirms\<rparr>)
     | _ \<Rightarrow> Inl (document_Reject ''verification carries an invalid identity'')))))))))))))"

end
