(* ===== verification/Document_Json_Laws.thy ===== *)
theory Document_Json_Laws
  imports Document_Json
begin

text \<open>
  The documents that are read back from their printed form: a well-formed submission and a fence. The
  printed form of an intent and of a policy is refused: it has a digest member its reader does not allow.
\<close>

section \<open>Objects with distinct keys\<close>

lemma fold_set_distinct:
  "distinct (map fst acc @ map fst ms) \<Longrightarrow>
    fold (\<lambda>m. json_Set (fst m) (snd m)) ms (JObject acc) = JObject (acc @ ms)"
proof (induction ms arbitrary: acc)
  case (Cons m ms)
  then have "fst m \<notin> fst ` set acc" by auto
  then show ?case using Cons by (simp add: set_member_new)
qed simp

lemma object_of_distinct: "distinct (map fst ms) \<Longrightarrow> object_of ms = JObject ms"
  using fold_set_distinct [of "[]" ms] by (simp add: object_of_def)

lemma Find_map_of [simp]: "Find key (JObject ms) = map_of ms key"
  by (induction ms) auto

declare Find.simps(1) [simp del]

lemma member_order_distinct: "distinct (map fst ms) \<Longrightarrow> distinct (map fst (member_order b ms))"
  by (simp add: member_order_def distinct_map)

lemma map_of_same:
  assumes "distinct (map fst xs)" "distinct (map fst ys)" "set xs = set ys"
  shows "map_of xs = map_of ys"
proof
  show "map_of xs k = map_of ys k" for k
    using assms by (cases "map_of xs k") (metis map_of_eq_Some_iff not_None_eq)+
qed

lemma Find_read_back:
  assumes "distinct (map fst ms)"
  shows "Find key (read_back b (JObject ms)) = map_option (read_back b) (map_of ms key)"
proof -
  let ?ms = "map (\<lambda>m. (fst m, read_back b (snd m))) ms"
  have d: "distinct (map fst ?ms)" using assms by (simp add: comp_def)
  have "distinct (map fst (member_order b ?ms))"
    by (rule member_order_distinct [OF d])
  with d have "map_of (member_order b ?ms) = map_of ?ms" by (intro map_of_same) auto
  moreover have "map_of ?ms key = map_option (read_back b) (map_of ms key)"
    by (induction ms) auto
  ultimately show ?thesis by simp
qed

lemma read_back_kind [simp]: "json_kind (read_back b (JObject ms)) = JKind_Object"
  by simp

lemma check_shape_read_back:
  "check_shape allowed (read_back b (JObject ms)) =
    (if list_all (\<lambda>m. fst m \<in> set allowed) ms then Inr () else Inl (Status Code_Rejected Reason_UnsupportedInput))"
  by (auto simp: check_shape_def CheckMembers_def list_ex_iff list_all_iff)

section \<open>Reading printed members\<close>

lemma AsUnsigned_read [simp]: "AsUnsigned 0 (read_unsigned u) = u"
proof (cases "u \<le> 0x7fffffffffffffff")
  case True
  then have "uint u < 2 ^ 63" by (simp add: word_le_def)
  moreover have "- (2 ^ 63) \<le> uint u" by (rule order_trans [OF _ unsigned_greater_eq]) simp
  ultimately have "sint u = uint u" using signed_take_bit_int_eq_self [of 63 "uint u"] by (simp add: sint_uint)
  then have "\<not> sint u < 0" by simp
  then show ?thesis using True by (simp add: read_unsigned_def)
qed (simp add: read_unsigned_def)

lemma IsNumber_read [simp]: "IsNumber (read_unsigned u)" "IsNumber (JInteger i)"
  by (simp_all add: read_unsigned_def IsNumber_def)

lemma evidence_back: "TryParseEvidenceClass (takeWhile (\<lambda>c. c \<noteq> CHR 0x00) (EvidenceClass_text e)) = Some e"
  by (cases e) (simp_all add: TryParseEvidenceClass_def)

lemma ParseAttribute_back:
  assumes "v \<noteq> Value_Invalid"
  shows "ParseAttribute (read_back True (attribute_json v)) = Inr v"
  using assms
  by (cases v) (simp_all add: attribute_json_def object_of_def member_order_def ParseAttribute_def pick_def Let_def)

lemma map_emplace_at_end:
  assumes "wf_map (acc @ (k, v) # st)"
  shows "map_emplace k v acc = Some (acc @ [(k, v)])"
proof -
  have below: "\<forall>x \<in> set acc. fst x < k" using assms by (auto simp: wf_map_append)
  then have "map_find k acc = None" by (auto simp: map_find_None_iff map_keys_def)
  then show ?thesis using below by (simp add: map_emplace_def map_set_at_end)
qed

lemma ParseAttributes_back:
  "list_all state_entry_ok st \<Longrightarrow> wf_map (acc @ st) \<Longrightarrow>
    ParseAttributes (map (\<lambda>e. (str (fst e), read_back True (attribute_json (snd e)))) st) acc = Inr (acc @ st)"
proof (induction st arbitrary: acc)
  case (Cons e st)
  obtain k v where e: "e = (k, v)" by (cases e)
  have ok: "valid_id k" "v \<noteq> Value_Invalid" using Cons.prems(1) e by (auto simp: state_entry_ok_def)
  have "wf_map ((acc @ [(k, v)]) @ st)" using Cons.prems(2) e by simp
  then show ?case
    using Cons ok map_emplace_at_end [of acc k v st] by (simp add: e ParseAttribute_back)
qed simp

lemma sorted_str_keys:
  fixes m :: "('tag string_id, 'v) omap"
  assumes "wf_map m"
  shows "sorted (map (\<lambda>e. str (fst e)) m)" "distinct (map (\<lambda>e. str (fst e)) m)"
  using assms by (induction m) (auto simp: less_string_id_def)

lemma member_order_sorted:
  fixes m :: "('tag string_id, 'v) omap"
  assumes "wf_map m"
  shows "member_order b (map (\<lambda>e. (str (fst e), g e)) m) = map (\<lambda>e. (str (fst e), g e)) m"
  using sorted_str_keys(1) [OF assms] by (simp add: member_order_def sort_key_id_if_sorted comp_def)

lemma object_of_omap:
  fixes m :: "('tag string_id, 'v) omap"
  assumes "wf_map m"
  shows "object_of (map (\<lambda>e. (str (fst e), g e)) m) = JObject (map (\<lambda>e. (str (fst e), g e)) m)"
    "read_back b (object_of (map (\<lambda>e. (str (fst e), g e)) m)) = JObject (map (\<lambda>e. (str (fst e), read_back b (g e))) m)"
proof -
  show obj: "object_of (map (\<lambda>e. (str (fst e), g e)) m) = JObject (map (\<lambda>e. (str (fst e), g e)) m)"
    using sorted_str_keys(2) [OF assms] by (simp add: object_of_distinct comp_def)
  show "read_back b (object_of (map (\<lambda>e. (str (fst e), g e)) m)) = JObject (map (\<lambda>e. (str (fst e), read_back b (g e))) m)"
    unfolding obj using member_order_sorted [OF assms, of b "\<lambda>e. read_back b (g e)"] by (simp add: comp_def)
qed

lemma ParseState_back:
  assumes "state_ok limits st"
  shows "ParseState limits (read_back True (StateJson st)) = Inr st"
proof -
  have st: "list_all state_entry_ok st" "wf_map st" "length st \<le> max_attributes_per_subject limits"
    using assms by (simp_all add: state_ok_def)
  show ?thesis
    using ParseAttributes_back [OF st(1), of "[]"] st(2,3)
    unfolding ParseState_def StateJson_def object_of_omap(2) [OF st(2)] by simp
qed

section \<open>Subjects\<close>

lemma subject_json_back:
  assumes "state_ok limits st"
  shows "ParseSubject limits (read_back True (subject_json complete st)) = Inr (complete, st)"
proof -
  have obj: "subject_json complete st = JObject [(''complete_attributes'', JBoolean complete), (''attributes'', StateJson st)]"
    by (simp add: subject_json_def object_of_distinct)
  note found = Find_read_back [of "[(''complete_attributes'', JBoolean complete), (''attributes'', StateJson st)]", folded obj]
  have kind: "json_kind (read_back True (subject_json complete st)) = JKind_Object" by (simp add: obj)
  show ?thesis
    by (simp add: ParseSubject_def kind json_ReadBool_def found ParseState_back [OF assms])
qed

lemma ParseSubjectList_back:
  assumes "\<forall>e \<in> set m. valid_id (fst e) \<and> mk (fst e) (complete (snd e)) (state (snd e)) = snd e \<and> state_ok limits (state (snd e))"
  shows "wf_map (acc @ m) \<Longrightarrow>
    ParseSubjectList limits mk
      (map (\<lambda>e. (str (fst e), read_back True (subject_json (complete (snd e)) (state (snd e))))) m) acc = Inr (acc @ m)"
  using assms
proof (induction m arbitrary: acc)
  case (Cons e m)
  obtain k v where e: "e = (k, v)" by (cases e)
  have "wf_map ((acc @ [(k, v)]) @ m)" using Cons.prems(1) e by simp
  then show ?case
    using Cons map_emplace_at_end [of acc k v m] by (simp add: e subject_json_back)
qed simp

lemma ParseSubjects_back:
  assumes "\<forall>e \<in> set m. valid_id (fst e) \<and> mk (fst e) (complete (snd e)) (state (snd e)) = snd e \<and> state_ok limits (state (snd e))"
    "wf_map m" "length m \<le> max_subjects_per_document limits"
    "Find ''subjects'' root = Some (read_back True (object_of
       (map (\<lambda>e. (str (fst e), subject_json (complete (snd e)) (state (snd e)))) m)))"
  shows "ParseSubjects limits mk root = Inr m"
  using ParseSubjectList_back [OF assms(1), of "[]"] assms(2,3)
  unfolding ParseSubjects_def assms(4) object_of_omap(2) [OF assms(2)] by simp

section \<open>Limits\<close>

lemma parse_limits [simp]:
  "jl_max_bytes ParseLimits_new = 16777216" "jl_max_depth ParseLimits_new = 64" "jl_max_items ParseLimits_new = 4000000"
  "jl_max_string_bytes ParseLimits_new = 1048576" "jl_max_object_members ParseLimits_new = 1000000"
  by (simp_all add: ParseLimits_new_def)

lemma printable_kinds:
  "depth \<le> 64 \<Longrightarrow> printable ParseLimits_new depth (JBoolean b)" "depth \<le> 64 \<Longrightarrow> printable ParseLimits_new depth (JInteger i)"
  "depth \<le> 64 \<Longrightarrow> printable ParseLimits_new depth (JUnsigned u)"
  "depth \<le> 64 \<Longrightarrow> length t \<le> 1048576 \<Longrightarrow> printable ParseLimits_new depth (JText t)"
  "depth \<le> 64 \<Longrightarrow> length ms \<le> 1000000 \<Longrightarrow> distinct (map fst ms) \<Longrightarrow>
     \<forall>m \<in> set ms. length (fst m) \<le> 1048576 \<and> printable ParseLimits_new (depth + 1) (snd m) \<Longrightarrow>
     printable ParseLimits_new depth (JObject ms)"
  by (simp_all add: printable.simps [of ParseLimits_new depth] kDumpDepthLimit_def)

lemma attribute_printable:
  "value_IsValid v \<Longrightarrow> depth < 64 \<Longrightarrow> printable ParseLimits_new depth (attribute_json v)"
  by (cases v) (auto simp: attribute_json_def object_of_def kMaxAttributeTextLength_def intro!: printable_kinds)

lemma omap_printable:
  fixes m :: "('tag string_id, 'v) omap"
  assumes "wf_map m" "length m \<le> 1000000" "depth \<le> 64"
    "\<forall>e \<in> set m. valid_id (fst e) \<and> printable ParseLimits_new (depth + 1) (g e)"
  shows "printable ParseLimits_new depth (object_of (map (\<lambda>e. (str (fst e), g e)) m))"
proof -
  have "length (str (fst e)) \<le> 1048576" if "e \<in> set m" for e
    using assms(4) that valid_id_length [of "fst e"] by (simp add: kMaxIdentityLength_def)
  then show ?thesis
    unfolding object_of_omap(1) [OF assms(1)]
    using assms sorted_str_keys(2) [OF assms(1)] by (intro printable_kinds) (auto simp: comp_def)
qed

lemma subject_printable:
  assumes "state_ok limits st" "max_attributes_per_subject limits \<le> 1000000" "depth < 60"
  shows "printable ParseLimits_new depth (subject_json complete st)"
proof -
  have "printable ParseLimits_new (depth + 1) (StateJson st)"
    unfolding StateJson_def using assms
    by (intro omap_printable) (auto simp: state_ok_def list_all_iff state_entry_ok_def intro: attribute_printable)
  then show ?thesis
    using assms(3) by (simp add: subject_json_def object_of_distinct printable_kinds)
qed

section \<open>Submissions\<close>

lemma submission_fields:
  "submission_json d = JObject
     [(''observation'', JText (str (su_observation d))), (''scope'', JText (str (su_scope d))),
      (''reporter'', JText (str (su_reporter d))), (''generation'', JUnsigned (cval (su_generation d))),
      (''evidence'', EvidenceJson (su_evidence d)), (''complete'', JBoolean (su_complete d)),
      (''authoritative_absence'', JBoolean (su_authoritative_absence d)),
      (''subjects'', object_of (map (\<lambda>e. (str (fst e),
         subject_json (so_complete_attributes (snd e)) (so_observed (snd e)))) (su_subjects d)))]"
  by (simp add: submission_json_def object_of_distinct)

lemma submission_printable:
  assumes "submission_ok limits d" "max_attributes_per_subject limits \<le> 1000000" "length (su_subjects d) \<le> 1000000"
  shows "printable ParseLimits_new 0 (submission_json d)"
proof -
  have ids: "length (str (su_observation d)) \<le> 1048576" "length (str (su_scope d)) \<le> 1048576" "length (str (su_reporter d)) \<le> 1048576"
    using assms(1) valid_id_length [of "su_observation d"] valid_id_length [of "su_scope d"] valid_id_length [of "su_reporter d"]
    by (simp_all add: submission_ok_def kMaxIdentityLength_def)
  have "printable ParseLimits_new 1 (object_of (map (\<lambda>e. (str (fst e),
         subject_json (so_complete_attributes (snd e)) (so_observed (snd e)))) (su_subjects d)))"
    using assms by (intro omap_printable)
      (auto simp: submission_ok_def subjects_ok_def list_all_iff subject_observation_ok_def intro: subject_printable)
  moreover have "length (EvidenceClass_text (su_evidence d)) \<le> 1048576" by (cases "su_evidence d") simp_all
  ultimately show ?thesis
    unfolding submission_fields using ids by (intro printable_kinds) (simp_all add: printable_kinds EvidenceJson_def)
qed

declare read_back.simps(2) [simp del]

lemma submission_back:
  assumes "submission_ok limits d" "max_attributes_per_subject limits \<le> 1000000" "length (su_subjects d) \<le> 1000000"
    "json_count (submission_json d) \<le> 4000000" "length (ToJson (submission_json d)) \<le> 16777216"
  shows "ParseJson_submission (ToJson (submission_json d)) limits = Inr d"
proof -
  let ?root = "read_back True (submission_json d)"
  have parsed: "json_Parse (ToJson (submission_json d)) ParseLimits_new = Inr ?root"
    unfolding ToJson_def DumpCanonical_def
    by (rule json_round_trip [OF submission_printable [OF assms(1-3)]])
      (use assms(4,5) in \<open>simp_all add: ToJson_def DumpCanonical_def\<close>)
  have ids: "valid_id (su_observation d)" "valid_id (su_scope d)" "valid_id (su_reporter d)"
    and sub: "wf_map (su_subjects d)" "length (su_subjects d) \<le> max_subjects_per_document limits"
      "\<forall>e \<in> set (su_subjects d). valid_id (fst e) \<and>
         mk_observation (fst e) (so_complete_attributes (snd e)) (so_observed (snd e)) = snd e \<and> state_ok limits (so_observed (snd e))"
    using assms(1)
    by (auto simp: submission_ok_def subjects_ok_def list_all_iff subject_observation_ok_def mk_observation_def)
  have subjects: "ParseSubjects limits mk_observation ?root = Inr (su_subjects d)"
    by (rule ParseSubjects_back [OF sub(3,1,2)]) (simp add: submission_fields Find_read_back)
  have reads: "json_ReadText ''observation'' [] ?root = Inr (str (su_observation d))"
    "json_ReadText ''scope'' [] ?root = Inr (str (su_scope d))" "json_ReadText ''reporter'' [] ?root = Inr (str (su_reporter d))"
    "json_ReadU64 ''generation'' 0 ?root = Inr (cval (su_generation d))"
    "json_ReadBool ''complete'' True ?root = Inr (su_complete d)"
    "json_ReadBool ''authoritative_absence'' False ?root = Inr (su_authoritative_absence d)"
    "ParseEvidence ?root = su_evidence d"
    by (simp_all add: submission_fields Find_read_back json_ReadText_def json_ReadU64_def json_ReadBool_def
        ParseEvidence_def EvidenceJson_def evidence_back)
  have shape: "check_shape [''observation'', ''scope'', ''reporter'', ''generation'', ''evidence'', ''complete'',
        ''authoritative_absence'', ''subjects''] ?root = Inr ()"
    by (simp add: submission_fields check_shape_read_back)
  have whole: "\<lparr>su_observation = su_observation d, su_scope = su_scope d, su_reporter = su_reporter d,
      su_generation = su_generation d, su_evidence = su_evidence d, su_complete = su_complete d,
      su_authoritative_absence = su_authoritative_absence d, su_subjects = su_subjects d\<rparr> = d"
    by simp
  have "status_ok (ValidateSubmission d limits)"
    using assms(1) ValidateSubmission_ok [OF submission_ok_typed [OF assms(1)]] by blast
  then show ?thesis
    unfolding ParseJson_submission_def parsed next_step_simps shape reads
    by (simp add: ids subjects check_valid_def Let_def whole)
qed

section \<open>Fences\<close>

lemma fence_fields:
  "fence_json f = JObject
     [(''id'', JText (str (fe_id f))), (''scope'', JText (str (fe_scope f))), (''subject'', JText (str (fe_subject f))),
      (''fenced_below'', JUnsigned (cval (fe_fenced_below f))), (''reason'', JText (ReasonCode_text (fe_reason f))),
      (''detail'', JText (fe_detail f)), (''created_unix_ms'', JInteger (fe_created_unix_ms f))]"
  by (simp add: fence_json_def object_of_distinct)

lemma known_reasons_back: "r \<in> set kKnownFenceReasons \<Longrightarrow> ParseFenceReason (ReasonCode_text r) = Inr r \<and> length (ReasonCode_text r) \<le> 1048576"
proof -
  have "list_all (\<lambda>r. ParseFenceReason (ReasonCode_text r) = Inr r \<and> length (ReasonCode_text r) < 100) kKnownFenceReasons"
    by code_simp
  then show "r \<in> set kKnownFenceReasons \<Longrightarrow> ?thesis" by (force simp: list_all_iff)
qed

lemma fence_back:
  assumes "valid_id (fe_id f)" "valid_id (fe_scope f)" "wf_id (fe_subject f)" "fe_reason f \<in> set kKnownFenceReasons"
    "length (fe_detail f) \<le> 1048576" "length (ToJson (fence_json f)) \<le> 16777216"
  shows "ParseJson_fence (ToJson (fence_json f)) limits = Inr f"
proof -
  let ?root = "read_back True (fence_json f)"
  have "length (str (fe_id f)) \<le> 1048576" "length (str (fe_scope f)) \<le> 1048576" "length (str (fe_subject f)) \<le> 1048576"
    using valid_id_length [OF assms(1)] valid_id_length [OF assms(2)] wf_id_length [OF assms(3)]
    by (simp_all add: kMaxIdentityLength_def)
  then have "printable ParseLimits_new 0 (fence_json f)"
    unfolding fence_fields using assms(5) known_reasons_back [OF assms(4)]
    by (intro printable_kinds) (simp_all add: printable_kinds)
  moreover have "json_count (fence_json f) \<le> 4000000" by (simp add: fence_fields)
  ultimately have parsed: "json_Parse (ToJson (fence_json f)) ParseLimits_new = Inr ?root"
    unfolding ToJson_def DumpCanonical_def
    by (intro json_round_trip) (use assms(6) in \<open>simp_all add: ToJson_def DumpCanonical_def\<close>)
  have reads: "json_ReadText ''id'' [] ?root = Inr (str (fe_id f))" "json_ReadText ''scope'' [] ?root = Inr (str (fe_scope f))"
    "json_ReadText ''subject'' [] ?root = Inr (str (fe_subject f))"
    "json_ReadText ''reason'' [] ?root = Inr (ReasonCode_text (fe_reason f))"
    "json_ReadU64 ''fenced_below'' 0 ?root = Inr (cval (fe_fenced_below f))"
    "json_ReadText ''detail'' [] ?root = Inr (fe_detail f)"
    "json_ReadI64 ''created_unix_ms'' 0 ?root = Inr (fe_created_unix_ms f)"
    by (simp_all add: fence_fields Find_read_back json_ReadText_def json_ReadU64_def json_ReadI64_def)
  have shape: "check_shape [''id'', ''scope'', ''subject'', ''fenced_below'', ''reason'', ''detail'', ''created_unix_ms''] ?root = Inr ()"
    by (simp add: fence_fields check_shape_read_back)
  have subject: "(if str (fe_subject f) = [] then Inr (StringId [])
      else case TryParseId (str (fe_subject f)) of
        None \<Rightarrow> Inl (document_Reject ''invalid fence subject identity'') | Some s \<Rightarrow> Inr s) = Inr (fe_subject f)"
    using assms(3) TryParseId_str [of "fe_subject f"] by (cases "fe_subject f") (auto simp: wf_id_def id_empty_def)
  show ?thesis
    unfolding ParseJson_fence_def parsed next_step_simps shape reads
    using known_reasons_back [OF assms(4)] by (simp add: assms(1,2) subject)
qed

section \<open>Digests are not read back\<close>

lemma shape_refuses:
  assumes "json_Parse input ParseLimits_new = Inr (read_back b (JObject ms))" "m \<in> set ms" "fst m \<notin> set allowed"
  shows "next_step (json_Parse input ParseLimits_new) (\<lambda>root. next_step (check_shape allowed root) (rest root)) =
    Inl (Status Code_Rejected Reason_UnsupportedInput)"
proof -
  have "\<not> list_all (\<lambda>m. fst m \<in> set allowed) ms" using assms(2,3) by (auto simp: list_all_iff)
  then show ?thesis by (simp add: assms(1) check_shape_read_back)
qed

lemma intent_json_refused:
  assumes "printable ParseLimits_new 0 (intent_json d)" "json_count (intent_json d) \<le> 4000000"
    "length (ToJson (intent_json d)) \<le> 16777216"
  shows "ParseJson_intent (ToJson (intent_json d)) limits = Inl (Status Code_Rejected Reason_UnsupportedInput)"
proof -
  obtain ms where obj: "intent_json d = JObject ms" and m: "(''digest'', DigestJson (in_digest d)) \<in> set ms"
    by (simp add: intent_json_def object_of_distinct)
  have "json_Parse (ToJson (intent_json d)) ParseLimits_new = Inr (read_back True (JObject ms))"
    unfolding obj [symmetric] ToJson_def DumpCanonical_def
    by (intro json_round_trip) (use assms in \<open>simp_all add: ToJson_def DumpCanonical_def\<close>)
  then show ?thesis unfolding ParseJson_intent_def by (rule shape_refuses [OF _ m]) simp
qed

lemma policy_json_refused:
  assumes "printable ParseLimits_new 0 (policy_json p)" "json_count (policy_json p) \<le> 4000000"
    "length (ToJson (policy_json p)) \<le> 16777216"
  shows "ParseJson_policy (ToJson (policy_json p)) limits = Inl (Status Code_Rejected Reason_UnsupportedInput)"
proof -
  obtain ms where obj: "policy_json p = JObject ms" and m: "(''digest'', DigestJson (ComputePolicyDigest p)) \<in> set ms"
    by (simp add: policy_json_def object_of_distinct)
  have "json_Parse (ToJson (policy_json p)) ParseLimits_new = Inr (read_back True (JObject ms))"
    unfolding obj [symmetric] ToJson_def DumpCanonical_def
    by (intro json_round_trip) (use assms in \<open>simp_all add: ToJson_def DumpCanonical_def\<close>)
  then show ?thesis unfolding ParseJson_policy_def by (rule shape_refuses [OF _ m]) simp
qed

end
