(* ===== verification/Planning.thy ===== *)
theory Planning
  imports Engine
begin

text \<open>
  What a plan means. Every actionable decision rests on current, fresh and unfenced evidence and on
  a permission of the active policy; the verdict \<open>CONVERGED_PROVEN\<close> is given exactly when every
  subject of the current intent and the current observation is declared, seen and equal in all
  managed attributes.
\<close>

section \<open>The plan loop\<close>

lemma decide_stats [simp]: "decide pc (e\<lparr>en_stats := s\<rparr>) r = decide pc e r"
  by (simp add: decide_def assess_subject_def FenceHoldsFor_def)

lemma plan_context_stats [simp]:
  "plan_context policy input evidence (e\<lparr>en_stats := s\<rparr>) = plan_context policy input evidence e"
  "plan_start scope policy evidence (e\<lparr>en_stats := s\<rparr>) = plan_start scope policy evidence e"
  by (simp_all add: plan_context_def BuildAuthority_def plan_start_def)

text \<open>The loop decides the records one by one, independently, up to the bound.\<close>

lemma decide_all_take:
  "fst (decide_all pc e rs ds n) =
     ds @ map (\<lambda>r. fst (decide pc e r)) (take (max_plan_actions (en_limits e) - length ds) rs)"
  "snd (snd (decide_all pc e rs ds n)) \<longleftrightarrow> length rs > max_plan_actions (en_limits e) - length ds"
proof (induction pc e rs ds n rule: decide_all.induct)
  case (2 pc e r rs ds n)
  let ?M = "max_plan_actions (en_limits e)"
  { case 1
    show ?case
    proof (cases "length ds \<ge> ?M")
      case False
      then have "?M - length ds = Suc (?M - Suc (length ds))" by simp
      then show ?thesis
        using False 2(1) [OF False] by (simp add: Let_def split: prod.split)
    qed simp
  next
    case 2
    show ?case
    proof (cases "length ds \<ge> ?M")
      case False
      then have "?M - length ds = Suc (?M - Suc (length ds))" by simp
      then show ?thesis
        using False "2.IH"(2) [OF False] by (simp add: Let_def split: prod.split)
    qed simp
  }
qed simp_all

text \<open>The parts of a built plan.\<close>

definition plan_policy :: "PlanRequest \<Rightarrow> Engine \<Rightarrow> ReconciliationPolicy" where
  "plan_policy request e = lookup_or (ds_policy (en_state e)) (pq_policy request)"

definition plan_now :: "Clocks \<Rightarrow> PlanRequest \<Rightarrow> UnixMillis" where
  "plan_now ck request = stamp_or (pq_now_unix_ms request) (ck_now ck)"

definition plan_input :: "Clocks \<Rightarrow> PlanRequest \<Rightarrow> Engine \<Rightarrow> ClassificationInput" where
  "plan_input ck request e =
     scope_input (pq_scope request) (plan_policy request e) (plan_now ck request) e"

lemma BuildPlanLocked_parts:
  assumes "BuildPlanLocked ck request e = (Inr plan, e')"
  obtains report where "ClassifyScope (plan_input ck request e) = Inr report"
    "pl_decisions plan =
       map (\<lambda>r. fst (decide (plan_context (plan_policy request e) (plan_input ck request e) (cr_evidence report) e) e r))
         (take (max_plan_actions (en_limits e)) (cr_records report))"
    "pl_truncated plan \<longleftrightarrow> length (cr_records report) > max_plan_actions (en_limits e)"
    "pl_freshness plan = ev_freshness (cr_evidence report)"
    "\<And>p. pl_decisions p = pl_decisions plan \<Longrightarrow>
       pl_verdict plan = fst (scope_verdict (en_limits e) (cr_evidence report) (pl_truncated plan) p)"
    "en_store e' = en_store e" "en_live_epoch e' = en_live_epoch e" "en_live_boot e' = en_live_boot e"
proof -
  let ?in = "plan_input ck request e" and ?policy = "plan_policy request e"
  obtain report where rep: "ClassifyScope ?in = Inr report"
    using assms by (auto simp: BuildPlanLocked_def plan_input_def plan_policy_def plan_now_def Let_def
        split: if_splits sum.splits)
  let ?pc = "plan_context ?policy ?in (cr_evidence report) e"
  let ?e = "e\<lparr>en_stats := count_work report (en_stats e)\<rparr>"
  obtain ds n tr where da: "decide_all ?pc ?e (cr_records report) [] (es_fenced_decisions (en_stats ?e)) = (ds, n, tr)"
    by (metis prod_cases3)
  define p0 where "p0 = (plan_start (pq_scope request) ?policy (cr_evidence report) e)\<lparr>pl_decisions := ds\<rparr>"
  obtain verdict rsn step detail where v: "scope_verdict (en_limits e) (cr_evidence report) tr p0 = (verdict, rsn, step, detail)"
    by (metis prod_cases4)
  have plan: "plan = Seal (p0\<lparr>pl_verdict := verdict, pl_scope_reason := rsn,
      pl_scope_explanation := explain_Add step detail (pl_scope_explanation p0), pl_truncated := tr\<rparr>)"
    and e': "e' = ?e\<lparr>en_stats := (en_stats ?e)\<lparr>es_fenced_decisions := n,
        es_plans_built := es_plans_built (en_stats ?e) + 1\<rparr>\<rparr>"
    using assms rep da v
    by (auto simp: BuildPlanLocked_def plan_input_def plan_policy_def plan_now_def p0_def Let_def
        split: if_splits)
  have ds: "ds = map (\<lambda>r. fst (decide ?pc e r)) (take (max_plan_actions (en_limits e)) (cr_records report))"
    and tr: "tr \<longleftrightarrow> length (cr_records report) > max_plan_actions (en_limits e)"
    using decide_all_take [of ?pc ?e "cr_records report" "[]" "es_fenced_decisions (en_stats ?e)"] da by simp_all
  have sv: "fst (scope_verdict (en_limits e) (cr_evidence report) tr p) = verdict"
    if "pl_decisions p = ds" for p
    using that v by (auto simp: scope_verdict_def p0_def Let_def split: if_splits)
  show thesis
    by (rule that [OF rep]) (use ds tr sv in \<open>simp_all add: plan e' p0_def plan_start_def\<close>)
qed

section \<open>One decision\<close>

lemma choose_mismatched_actionable:
  "choose_mismatched policy r x = (a, Disp_Actionable, rsn, x') \<Longrightarrow>
     permit_apply_mismatched policy \<and> a = Action_ApplyDesired \<and>
     (\<forall>d \<in> set (dr_deltas r). ad_kind d \<noteq> Delta_ObserveOnly)"
  by (auto simp: choose_mismatched_def Let_def list_ex_iff split: if_splits)

text \<open>The permission that an action needs.\<close>

definition permitted :: "ReconciliationPolicy \<Rightarrow> DriftRecord \<Rightarrow> ActionKind \<Rightarrow> bool" where
  "permitted policy r action \<longleftrightarrow>
     (dr_drift r = Drift_Missing \<and> permit_apply_missing policy \<and> action = Action_ApplyDesired) \<or>
     (dr_drift r = Drift_Unexpected \<and> permit_withdraw_unexpected policy \<and> action = Action_WithdrawSubject) \<or>
     (dr_drift r = Drift_Mismatched \<and> permit_apply_mismatched policy \<and> action = Action_ApplyDesired \<and>
        (\<forall>d \<in> set (dr_deltas r). ad_kind d \<noteq> Delta_ObserveOnly))"

lemma choose_actionable:
  "choose_disposition (dr_drift r) policy r x = (a, Disp_Actionable, rsn, x') \<Longrightarrow> permitted policy r a"
  by (cases "dr_drift r")
    (auto simp: permitted_def dest: choose_mismatched_actionable split: if_splits)

lemma decide_fields [simp]:
  "de_subject (fst (decide pc e r)) = dr_subject r" "de_scope (fst (decide pc e r)) = dr_scope r"
  "de_drift (fst (decide pc e r)) = dr_drift r"
  by (simp_all add: decide_def Let_def split: prod.split)

lemma decide_actionable:
  assumes "de_disposition (fst (decide pc e r)) = Disp_Actionable"
  shows "permitted (pc_policy pc) r (de_action (fst (decide pc e r)))"
    "aa_proven (assess_subject pc (dr_scope r) (dr_subject r) e)"
proof -
  let ?x = "\<lambda>x. choose_disposition (dr_drift r) (pc_policy pc) r x"
  show "aa_proven (assess_subject pc (dr_scope r) (dr_subject r) e)"
    using assms by (auto simp: decide_def Let_def split: prod.splits if_splits)
  then show "permitted (pc_policy pc) r (de_action (fst (decide pc e r)))"
    using assms choose_actionable by (auto simp: decide_def Let_def split: prod.splits if_splits)
qed

lemma decide_satisfied:
  "de_disposition (fst (decide pc e r)) = Disp_AlreadySatisfied \<Longrightarrow>
     dr_drift r = Drift_AlreadyConverged \<or>
     (dr_drift r = Drift_Mismatched \<and> \<not> HasActionableDelta (dr_deltas r))"
  by (cases "dr_drift r")
    (auto simp: decide_def choose_mismatched_def HasActionableDelta_def list_ex_iff Let_def
      split: prod.splits if_splits)

lemma decide_converged:
  "dr_drift r = Drift_AlreadyConverged \<Longrightarrow> de_disposition (fst (decide pc e r)) = Disp_AlreadySatisfied"
  by (simp add: decide_def Let_def)

section \<open>The documents of a well-formed state\<close>

lemma stored_intent_wf:
  assumes "durable_wf limits st" "map_find scope (ds_intents st) = Some d"
  shows "in_scope d = scope" "wf_map (in_subjects d)"
    "map_find k (in_subjects d) = Some s \<Longrightarrow> wf_map (si_desired s)"
proof -
  have t: "table_ok in_scope (intent_stored limits) (ds_intents st)"
    using assms(1) by (simp add: durable_wf_def)
  then have "scope = in_scope d \<and> intent_ok limits d"
    using map_find_mem [OF assms(2)] by (auto simp: table_ok_def intent_stored_def)
  then show "in_scope d = scope" "wf_map (in_subjects d)"
    "map_find k (in_subjects d) = Some s \<Longrightarrow> wf_map (si_desired s)"
    by (auto simp: intent_ok_def subjects_ok_def subject_intent_ok_def state_ok_def list_all_iff
        dest!: map_find_mem)
qed

definition retained :: "ScopeId \<Rightarrow> Engine \<Rightarrow> ObservationDocument list" where
  "retained scope e = lookup_or [] (map_find scope (ds_observations (en_state e)))"

lemma retained_wf:
  assumes "durable_wf limits (en_state e)" "d \<in> set (retained scope e)"
  shows "wf_map (ob_subjects d)" "map_find k (ob_subjects d) = Some s \<Longrightarrow> wf_map (so_observed s)"
proof -
  have "scope_lists_ok limits (observation_stored limits) (ds_observations (en_state e))"
    using assms(1) by (simp add: durable_wf_def)
  moreover obtain stream where "map_find scope (ds_observations (en_state e)) = Some stream" "d \<in> set stream"
    using assms(2) by (cases "map_find scope (ds_observations (en_state e))") (auto simp: retained_def lookup_or_def)
  ultimately have "observation_ok limits d"
    by (auto simp: scope_lists_ok_def observation_stored_def list_all_iff dest!: map_find_mem)
  then show "wf_map (ob_subjects d)" "map_find k (ob_subjects d) = Some s \<Longrightarrow> wf_map (so_observed s)"
    by (auto simp: observation_ok_def subjects_ok_def subject_observation_ok_def state_ok_def list_all_iff
        dest!: map_find_mem)
qed

lemma plan_input_fields:
  "ci_policy (plan_input ck request e) = Some (plan_policy request e)"
  "ci_scope (plan_input ck request e) = pq_scope request"
  "ci_observations (plan_input ck request e) = map Some (retained (pq_scope request) e)"
  "ci_intents (plan_input ck request e) =
     (case map_find (pq_scope request) (ds_intents (en_state e)) of None \<Rightarrow> [] | Some d \<Rightarrow> [Some d])"
  "ci_live_epoch (plan_input ck request e) = en_live_epoch e"
  "ci_now_unix_ms (plan_input ck request e) = plan_now ck request"
  by (simp_all add: plan_input_def scope_input_def retained_def Let_def)

lemma SelectCurrentIntent_single: "is_selected (SelectCurrentIntent [Some d]) = Some d"
  by (simp add: SelectCurrentIntent_def clash_def)

lemma SelectCurrentIntent_none: "is_selected (SelectCurrentIntent []) = None"
  by (simp add: SelectCurrentIntent_def)

text \<open>The evidence of a plan whose scope was compared subject by subject.\<close>

definition plan_evidence ::
    "Clocks \<Rightarrow> PlanRequest \<Rightarrow> Engine \<Rightarrow> IntentDocument \<Rightarrow> ObservationDocument \<Rightarrow> bool" where
  "plan_evidence ck request e intent observation \<longleftrightarrow>
     map_find (pq_scope request) (ds_intents (en_state e)) = Some intent \<and>
     observation \<in> set (retained (pq_scope request) e) \<and>
     (\<forall>d \<in> set (retained (pq_scope request) e). observation_key d \<le> observation_key observation \<and>
        (ob_generation d = ob_generation observation \<longrightarrow> ob_digest d = ob_digest observation)) \<and>
     EvaluateFreshness observation (po_freshness (plan_policy request e)) (en_live_epoch e)
       (plan_now ck request) = Fresh_Fresh"

lemma full_classification_evidence:
  assumes "full_classification (plan_input ck request e) policy intent observation"
  shows "policy = plan_policy request e" "plan_evidence ck request e intent observation"
proof -
  note full = assms [unfolded full_classification_def plan_input_fields]
  show "policy = plan_policy request e" using full by simp
  have ob: "os_selected (SelectCurrentObservation (map Some (retained (pq_scope request) e))) = Some observation"
    using full by simp
  note sel = SelectCurrentObservation_selected [OF ob]
  have "map_find (pq_scope request) (ds_intents (en_state e)) = Some intent"
  proof (cases "map_find (pq_scope request) (ds_intents (en_state e))")
    case None
    then show ?thesis using full by (simp add: SelectCurrentIntent_none)
  next
    case (Some d)
    then show ?thesis using full by (simp add: SelectCurrentIntent_single)
  qed
  moreover have "observation \<in> set (retained (pq_scope request) e)"
    using sel(1) by auto
  moreover have "observation_key d \<le> observation_key observation \<and>
      (ob_generation d = ob_generation observation \<longrightarrow> ob_digest d = ob_digest observation)"
    if "d \<in> set (retained (pq_scope request) e)" for d
  proof -
    have m: "Some d \<in> set (map Some (retained (pq_scope request) e))" using that by simp
    show ?thesis using sel(2,3) [OF m] by blast
  qed
  moreover have "EvaluateFreshness observation (po_freshness (plan_policy request e)) (en_live_epoch e)
      (plan_now ck request) = Fresh_Fresh"
    using full by simp
  ultimately show "plan_evidence ck request e intent observation"
    unfolding plan_evidence_def by blast
qed

section \<open>Actionable decisions\<close>

lemma actionable_decision:
  assumes wf: "durable_wf limits (en_state e)"
    and plan: "BuildPlanLocked ck request e = (Inr plan, e')"
    and d: "d \<in> set (pl_decisions plan)" "de_disposition d = Disp_Actionable"
  obtains intent observation r where
    "plan_evidence ck request e intent observation"
    "r = fst (reference_record (plan_input ck request e) (plan_policy request e) intent observation (de_subject d))"
    "permitted (plan_policy request e) r (de_action d)" "de_drift d = dr_drift r"
    "de_scope d = pq_scope request"
    "\<not> FenceHoldsFor (pq_scope request) (de_subject d) (en_live_epoch e) e"
    "ob_received_epoch observation = en_live_epoch e"
    "ComputePolicyDigest (plan_policy request e) = ComputePolicyDigest (ds_policy (en_state e))"
    "po_version (plan_policy request e) = po_version (ds_policy (en_state e))"
proof -
  let ?in = "plan_input ck request e" and ?policy = "plan_policy request e"
  obtain report where rep: "ClassifyScope ?in = Inr report"
    and ds: "pl_decisions plan = map (\<lambda>r. fst (decide (plan_context ?policy ?in (cr_evidence report) e) e r))
         (take (max_plan_actions (en_limits e)) (cr_records report))"
    using BuildPlanLocked_parts [OF plan] by blast
  let ?pc = "plan_context ?policy ?in (cr_evidence report) e"
  obtain r where r: "r \<in> set (cr_records report)" "d = fst (decide ?pc e r)"
    using d(1) ds by (auto dest: in_set_takeD)
  note act = decide_actionable [of ?pc e r, folded r(2), OF d(2)]
  have "\<not> undecided_drift (dr_drift r)"
    using act(1) by (auto simp: permitted_def undecided_drift_def)
  moreover have "wf_map (in_subjects x)" if "Some x \<in> set (ci_intents ?in)" for x
    using that stored_intent_wf(2) [OF wf] by (auto simp: plan_input_fields split: option.splits)
  moreover have "wf_map (ob_subjects x)" if "Some x \<in> set (ci_observations ?in)" for x
    using that retained_wf(1) [OF wf] by (auto simp: plan_input_fields)
  ultimately obtain policy intent observation where
      full: "full_classification ?in policy intent observation"
      "cr_evidence report = scope_evidence ?in policy (Some intent) (Some observation)"
      "r = fst (reference_record ?in policy intent observation (dr_subject r))"
    using ClassifyScope_decided [OF rep r(1)] by metis
  have ev: "policy = ?policy" "plan_evidence ck request e intent observation"
    using full_classification_evidence [OF full(1)] by simp_all
  have scope: "dr_scope r = pq_scope request"
    by (subst full(3)) (simp add: reference_record_def plan_input_fields)
  note facts = AssessAuthority_facts [OF act(2) [unfolded assess_subject_def]]
  have epoch: "ob_received_epoch observation = en_live_epoch e"
    using facts(5) by (simp add: plan_context_def BuildAuthority_def full(2) scope_evidence_def Let_def)
  have same: "ComputePolicyDigest ?policy = ComputePolicyDigest (ds_policy (en_state e))"
      "po_version ?policy = po_version (ds_policy (en_state e))"
    using facts(6,8) by (simp_all add: plan_context_def BuildAuthority_def Let_def)
  show thesis
  proof (rule that [OF ev(2) _ _ _ _ _ epoch same])
    show "r = fst (reference_record ?in ?policy intent observation (de_subject d))"
      using full(3) r(2) ev(1) by simp
    show "permitted ?policy r (de_action d)"
      using act(1) by (simp add: plan_context_def)
    show "de_drift d = dr_drift r" "de_scope d = pq_scope request"
      using r(2) scope by simp_all
    show "\<not> FenceHoldsFor (pq_scope request) (de_subject d) (en_live_epoch e) e"
      using facts(2) scope r(2) by simp
  qed
qed

section \<open>The convergence verdict\<close>

lemma ClassifyScope_evidence:
  assumes "ClassifyScope input = Inr rep" "ci_policy input = Some policy"
  shows "cr_evidence rep = scope_evidence input policy (is_selected (SelectCurrentIntent (ci_intents input)))
    (os_selected (SelectCurrentObservation (ci_observations input)))"
  using assms
  by (auto simp: ClassifyScope_def Let_def merge_push_evidence split: if_splits option.splits)

lemma selected_not_conflicted:
  "is_selected (SelectCurrentIntent cs) = Some d \<Longrightarrow> \<not> is_conflicted (SelectCurrentIntent cs)"
  "os_selected (SelectCurrentObservation ds) = Some b \<Longrightarrow> \<not> os_conflicted (SelectCurrentObservation ds)"
  by (auto simp: SelectCurrentIntent_def SelectCurrentObservation_def split: option.splits if_splits)

text \<open>With both documents selected and fresh, the report is the subject-by-subject comparison.\<close>

lemma ClassifyScope_compares:
  assumes "ClassifyScope input = Inr rep" "full_classification input policy intent observation"
    "wf_map (in_subjects intent)" "wf_map (ob_subjects observation)"
  shows "cr_records rep = map (fst \<circ> reference_record input policy intent observation)
      (merge_keys (in_subjects intent) (ob_subjects observation))"
proof -
  note full = assms(2) [unfolded full_classification_def]
  have "rep = merge_loop (\<lambda>k l r. push_record (subject_record (ci_scope input) policy
               (ev_evidence (scope_evidence input policy (Some intent) (Some observation)))
               intent observation k l r)) (in_subjects intent) (ob_subjects observation)
             \<lparr>cr_scope = ci_scope input,
              cr_evidence = scope_evidence input policy (Some intent) (Some observation),
              cr_records = [], cr_subject_visits = 0, cr_attribute_comparisons = 0\<rparr>"
    using assms(1) full selected_not_conflicted
    by (auto simp: ClassifyScope_def Let_def split: if_splits)
  then show ?thesis
    by (simp add: merge_loop_fold [OF assms(3,4)] push_record_fold reference_record_def comp_def)
qed

lemma plan_full_iff:
  assumes "ClassifyScope (plan_input ck request e) = Inr rep"
  shows "ev_has_intent (cr_evidence rep) \<and> ev_has_observation (cr_evidence rep) \<and>
      ev_freshness (cr_evidence rep) = Fresh_Fresh \<longleftrightarrow>
    (\<exists>intent observation. full_classification (plan_input ck request e) (plan_policy request e) intent observation)"
proof -
  let ?in = "plan_input ck request e"
  note ev = ClassifyScope_evidence [OF assms plan_input_fields(1)]
  have committed: "\<not> in_generation d < ci_committed_intent_generation ?in"
    if "is_selected (SelectCurrentIntent (ci_intents ?in)) = Some d" for d
    using that SelectCurrentIntent_single SelectCurrentIntent_none
    by (auto simp: plan_input_def scope_input_def Let_def split: option.splits)
  show ?thesis
    unfolding ev full_classification_def plan_input_fields(1)
    using committed by (auto simp: plan_input_fields(5,6) scope_evidence_def evidence_new_def split: option.splits)
qed

text \<open>Every subject of either document is declared and seen, and equal in all managed attributes.\<close>

definition scope_converged :: "ReconciliationPolicy \<Rightarrow> IntentDocument \<Rightarrow> ObservationDocument \<Rightarrow> bool" where
  "scope_converged policy intent observation \<longleftrightarrow>
     (\<forall>k \<in> map_keys (in_subjects intent) \<union> map_keys (ob_subjects observation).
        \<exists>declared seen. map_find k (in_subjects intent) = Some declared \<and>
          map_find k (ob_subjects observation) = Some seen \<and>
          (\<forall>a. key_clean policy a (map_find a (si_desired declared)) (map_find a (so_observed seen))))"

lemma mismatched_actionable:
  "dr_drift (fst (reference_record input policy intent observation k)) = Drift_Mismatched \<Longrightarrow>
    HasActionableDelta (dr_deltas (fst (reference_record input policy intent observation k)))"
  by (cases "map_find k (in_subjects intent)"; cases "map_find k (ob_subjects observation)")
    (auto simp: reference_record_def compared_record_def MakeRecord_def Let_def split: if_splits)

lemma verdict_converged:
  "fst (scope_verdict limits evidence truncated p) = Verdict_ConvergedProven \<longleftrightarrow>
    \<not> truncated \<and> ev_has_intent evidence \<and> ev_has_observation evidence \<and>
    ev_freshness evidence = Fresh_Fresh \<and>
    (\<forall>d \<in> set (pl_decisions p). de_disposition d = Disp_AlreadySatisfied)"
proof -
  have "de_disposition d = Disp_AlreadySatisfied \<longleftrightarrow>
      de_disposition d \<notin> {Disp_Indeterminate, Disp_Conflicted, Disp_Unsupported, Disp_Invalid} \<and>
      de_disposition d \<notin> {Disp_Actionable} \<and> de_disposition d \<notin> {Disp_Blocked, Disp_Fenced}" for d :: Decision
    by (cases "de_disposition d") simp_all
  then show ?thesis
    by (auto simp: scope_verdict_def any_disposition_def list_ex_iff Let_def)
qed

lemma converged_plan_iff:
  assumes wf: "durable_wf limits (en_state e)" and plan: "BuildPlanLocked ck request e = (Inr plan, e')"
  shows "pl_verdict plan = Verdict_ConvergedProven \<longleftrightarrow>
    \<not> pl_truncated plan \<and>
    (\<exists>intent observation. full_classification (plan_input ck request e) (plan_policy request e) intent observation \<and>
       scope_converged (plan_policy request e) intent observation)"
proof -
  let ?in = "plan_input ck request e" and ?policy = "plan_policy request e"
  obtain report where rep: "ClassifyScope ?in = Inr report"
    and ds: "pl_decisions plan = map (\<lambda>r. fst (decide (plan_context ?policy ?in (cr_evidence report) e) e r))
         (take (max_plan_actions (en_limits e)) (cr_records report))"
    and tr: "pl_truncated plan \<longleftrightarrow> length (cr_records report) > max_plan_actions (en_limits e)"
    and verdict: "pl_verdict plan = fst (scope_verdict (en_limits e) (cr_evidence report) (pl_truncated plan) plan)"
    using BuildPlanLocked_parts [OF plan] by metis
  let ?pc = "plan_context ?policy ?in (cr_evidence report) e"
  have all: "(\<forall>d \<in> set (pl_decisions plan). de_disposition d = Disp_AlreadySatisfied) \<longleftrightarrow>
      scope_converged ?policy intent observation"
    if full: "full_classification ?in ?policy intent observation" and "\<not> pl_truncated plan"
    for intent observation
  proof -
    have ev: "plan_evidence ck request e intent observation"
      using full_classification_evidence [OF full] by simp
    have wfm: "wf_map (in_subjects intent)" "wf_map (ob_subjects observation)"
        "\<And>k s. map_find k (in_subjects intent) = Some s \<Longrightarrow> wf_map (si_desired s)"
        "\<And>k s. map_find k (ob_subjects observation) = Some s \<Longrightarrow> wf_map (so_observed s)"
      using ev stored_intent_wf [OF wf] retained_wf [OF wf] unfolding plan_evidence_def by blast+
    let ?r = "\<lambda>k. fst (reference_record ?in ?policy intent observation k)"
    have decisions: "pl_decisions plan = map (\<lambda>k. fst (decide ?pc e (?r k)))
        (merge_keys (in_subjects intent) (ob_subjects observation))"
      using ds that(2) tr ClassifyScope_compares [OF rep full wfm(1,2)] by (simp add: comp_def)
    have "de_disposition (fst (decide ?pc e (?r k))) = Disp_AlreadySatisfied \<longleftrightarrow>
        dr_drift (?r k) = Drift_AlreadyConverged" for k
      using decide_satisfied [of ?pc e "?r k"] decide_converged [of "?r k" ?pc e]
        mismatched_actionable [of ?in ?policy intent observation k] by blast
    moreover have "dr_drift (?r k) = Drift_AlreadyConverged \<longleftrightarrow>
        (\<exists>declared seen. map_find k (in_subjects intent) = Some declared \<and>
          map_find k (ob_subjects observation) = Some seen \<and>
          (\<forall>a. key_clean ?policy a (map_find a (si_desired declared)) (map_find a (so_observed seen))))" for k
      by (rule reference_record_converged) (use wfm(3,4) in blast)+
    ultimately show ?thesis
      by (simp add: decisions scope_converged_def)
  qed
  show ?thesis
    unfolding verdict verdict_converged
    using plan_full_iff [OF rep] all by blast
qed

text \<open>A plan that proves convergence contains no mutation.\<close>

lemma converged_plan_no_mutation:
  assumes "BuildPlanLocked ck request e = (Inr plan, e')" "pl_verdict plan = Verdict_ConvergedProven"
  shows "MutationCount plan = 0" "\<forall>d \<in> set (pl_decisions plan). de_disposition d = Disp_AlreadySatisfied"
proof -
  show "\<forall>d \<in> set (pl_decisions plan). de_disposition d = Disp_AlreadySatisfied"
  proof (rule BuildPlanLocked_parts [OF assms(1)])
    fix report
    assume "\<And>p. pl_decisions p = pl_decisions plan \<Longrightarrow>
       pl_verdict plan = fst (scope_verdict (en_limits e) (cr_evidence report) (pl_truncated plan) p)"
    from this [of plan] have "fst (scope_verdict (en_limits e) (cr_evidence report) (pl_truncated plan) plan) =
        Verdict_ConvergedProven"
      using assms(2) by simp
    then show ?thesis unfolding verdict_converged by blast
  qed
  then show "MutationCount plan = 0"
    by (simp add: MutationCount_zero)
qed

end
