(* ===== verification/Lifecycle.thy ===== *)
theory Lifecycle
  imports Planning
begin

text \<open>
  The life of attempts under the engine: what each operation does to the attempt table. A restart
  begins a strictly newer epoch and leaves no live attempt; completions and verifications move an
  attempt along the legal transitions only and never out of a terminal state; a fence leaves no live
  attempt below it; dispatching a plan twice issues its actions once.
\<close>

section \<open>Acknowledged store operations in memory\<close>

text \<open>An acknowledged mutation changes the state by its effect and the sequence, and nothing else.\<close>

definition state_becomes :: "DurableStore \<Rightarrow> (DurableState \<Rightarrow> DurableState) \<Rightarrow> DurableStore \<Rightarrow> bool" where
  "state_becomes s f s' \<longleftrightarrow> (\<exists>q. st_state s' = (f (st_state s))\<lparr>ds_sequence := q\<rparr>) \<and>
     st_limits s' = st_limits s \<and> st_read_only s' = st_read_only s"

context journalled
begin

lemma in_memory:
  assumes "durable_put ty (encode x) s = (status, s')" "status_ok status" "st_limits s = limits" "valid x"
  shows "state_becomes s (effect x) s'"
proof -
  have run: "AppendAndApply ty (encode x) s = (status, s')"
    using assms(1,2,4) encoded by (auto simp: durable_put_def split: if_splits)
  obtain a j where app: "Append ty (encode x) (st_journal s) = (a, j)" by force
  have "status_ok a"
    using run app assms(2) by (auto simp: AppendAndApply_def Let_def split: if_splits)
  then have "s' = s\<lparr>st_journal := j, st_state := (effect x (st_state s))\<lparr>ds_sequence := j_last_sequence j\<rparr>\<rparr>"
    using run app applies [OF assms(4)] assms(3) ApplyPayload_sequence [where st = "st_state s"]
    by (auto simp: AppendAndApply_def Let_def)
  then show ?thesis by (auto simp: state_becomes_def)
qed

end

lemma encoded_fits:
  "EncodeAttemptRecord a \<noteq> [] \<Longrightarrow> fits (attempt_puts a)" "EncodeOutcome x \<noteq> [] \<Longrightarrow> fits (outcome_puts x)"
  "EncodeFence f \<noteq> [] \<Longrightarrow> fits (fence_puts f)" "EncodePolicy p \<noteq> [] \<Longrightarrow> fits (policy_puts p)"
  by (simp_all add: EncodeAttemptRecord_def EncodeOutcome_def EncodeFence_def EncodePolicy_def
      buffer_nonempty_fits)

lemma durable_put_encoded:
  "durable_put ty payload s = (status, s') \<Longrightarrow> status_ok status \<Longrightarrow> payload \<noteq> []"
  by (auto simp: durable_put_def split: if_splits)

lemma TransitionAttempt_state:
  assumes "store_TransitionAttempt a s = (status, s')" "status_ok status" "attempt_ok (st_limits s) a"
  shows "attempt_stored (st_limits s) a" "state_becomes s (apply_attempt (st_limits s) a) s'"
proof -
  show st: "attempt_stored (st_limits s) a"
    using assms durable_put_encoded encoded_fits(1)
    by (auto simp: store_TransitionAttempt_def attempt_stored_def)
  show "state_becomes s (apply_attempt (st_limits s) a) s'"
    using transition_record.in_memory [OF _ assms(2) refl st] assms(1)
    by (simp add: store_TransitionAttempt_def)
qed

lemma IssueAttempt_state:
  assumes "store_IssueAttempt a s = (status, s')" "status_ok status" "attempt_ok (st_limits s) a"
  shows "attempt_stored (st_limits s) a" "state_becomes s (apply_attempt (st_limits s) a) s'"
proof -
  have put: "durable_put Rec_AttemptIssued (EncodeAttemptRecord a) s = (status, s')"
    using assms(1,2) by (auto simp: store_IssueAttempt_def split: if_splits)
  show st: "attempt_stored (st_limits s) a"
    using assms(2,3) put durable_put_encoded encoded_fits(1) by (auto simp: attempt_stored_def)
  show "state_becomes s (apply_attempt (st_limits s) a) s'"
    using issue_record.in_memory [OF put assms(2) refl st] .
qed

lemma CommitOutcome_state:
  assumes "store_CommitOutcome x s = (status, s')" "status_ok status" "outcome_ok x"
  shows "outcome_stored x" "state_becomes s (apply_outcome (st_limits s) x) s'"
proof -
  show st: "outcome_stored x"
    using assms durable_put_encoded encoded_fits(2) by (auto simp: store_CommitOutcome_def outcome_stored_def)
  show "state_becomes s (apply_outcome (st_limits s) x) s'"
    using outcome_record.in_memory [OF _ assms(2) refl st] assms(1) by (simp add: store_CommitOutcome_def)
qed

lemma AdvanceEpoch_state:
  assumes "store_AdvanceEpoch epoch s = (status, s')" "status_ok status"
  shows "ds_last_epoch (st_state s) < epoch" "state_becomes s (apply_epoch (cval epoch)) s'"
proof -
  have put: "durable_put Rec_EpochAdvance (puts_buffer [PutU64 (cval epoch)]) s = (status, s')"
    and lt: "st_read_only s \<or> ds_last_epoch (st_state s) < epoch"
    using assms by (auto simp: store_AdvanceEpoch_def split: if_splits)
  have "\<not> st_read_only s" using put assms(2) by (auto simp: durable_put_def split: if_splits)
  then show "ds_last_epoch (st_state s) < epoch" using lt by simp
  show "state_becomes s (apply_epoch (cval epoch)) s'"
    using epoch_record.in_memory [OF put assms(2) refl] by simp
qed

section \<open>The attempt table\<close>

text \<open>What one recorded attempt does to the table.\<close>

lemma apply_attempt_table:
  "ds_attempts (apply_attempt limits a st) =
     trim_attempts (max_retained_attempts limits) (map_set (cval (at_id a)) a (ds_attempts st))"
  by (simp add: apply_attempt_def TrimAttempts_def Let_def)

lemma apply_attempt_other [simp]:
  "ds_last_epoch (apply_attempt limits a st) = ds_last_epoch st"
  "ds_observations (apply_attempt limits a st) = ds_observations st"
  "ds_intents (apply_attempt limits a st) = ds_intents st"
  "ds_policy (apply_attempt limits a st) = ds_policy st"
  "ds_has_policy (apply_attempt limits a st) = ds_has_policy st"
  "ds_fences (apply_attempt limits a st) = ds_fences st"
  "ds_outcomes (apply_attempt limits a st) = ds_outcomes st"
  by (simp_all add: apply_attempt_def TrimAttempts_def Let_def)

lemma apply_outcome_other [simp]:
  "ds_attempts (apply_outcome limits x st) = ds_attempts st"
  "ds_last_epoch (apply_outcome limits x st) = ds_last_epoch st"
  "ds_observations (apply_outcome limits x st) = ds_observations st"
  "ds_intents (apply_outcome limits x st) = ds_intents st"
  "ds_policy (apply_outcome limits x st) = ds_policy st"
  "ds_has_policy (apply_outcome limits x st) = ds_has_policy st"
  "ds_fences (apply_outcome limits x st) = ds_fences st"
  "ds_next_attempt (apply_outcome limits x st) = ds_next_attempt st"
  by (simp_all add: apply_outcome_def TrimOutcomes_def)

lemma trim_find:
  assumes "wf_map m"
  shows "map_find k (trim_attempts bound m) = Some a \<Longrightarrow> map_find k m = Some a"
    "map_find k m = Some a \<Longrightarrow> \<not> IsTerminalAttemptState (at_state a) \<Longrightarrow>
       map_find k (trim_attempts bound m) = Some a"
proof -
  note spec = trim_attempts_spec [OF assms, of bound]
  have wf: "wf_map (trim_attempts bound m)" using spec by simp
  have sub: "set (trim_attempts bound m) \<subseteq> set m" using spec by blast
  have live: "e \<in> set m \<Longrightarrow> live_entry e \<Longrightarrow> e \<in> set (trim_attempts bound m)" for e using spec by blast
  show "map_find k (trim_attempts bound m) = Some a \<Longrightarrow> map_find k m = Some a"
    using sub map_find_iff_mem [OF wf] map_find_iff_mem [OF assms] by blast
  show "map_find k m = Some a \<Longrightarrow> \<not> IsTerminalAttemptState (at_state a) \<Longrightarrow>
       map_find k (trim_attempts bound m) = Some a"
    using live [of "(k, a)"] map_find_iff_mem [OF wf] map_find_iff_mem [OF assms] by simp
qed

text \<open>
  The record of an attempt moved from \<open>a\<close> to \<open>a'\<close>: every other attempt is unchanged or, if it was
  terminal, may have been dropped; the moved one is \<open>a'\<close>, or dropped if \<open>a'\<close> is terminal.
\<close>

lemma apply_attempt_find:
  assumes "wf_map (ds_attempts st)"
  shows "k \<noteq> cval (at_id a) \<Longrightarrow> map_find k (ds_attempts (apply_attempt limits a st)) = Some b \<Longrightarrow>
      map_find k (ds_attempts st) = Some b"
    "k \<noteq> cval (at_id a) \<Longrightarrow> map_find k (ds_attempts st) = Some b \<Longrightarrow>
      \<not> IsTerminalAttemptState (at_state b) \<Longrightarrow>
      map_find k (ds_attempts (apply_attempt limits a st)) = Some b"
    "map_find (cval (at_id a)) (ds_attempts (apply_attempt limits a st)) = Some b \<Longrightarrow> b = a"
    "\<not> IsTerminalAttemptState (at_state a) \<Longrightarrow>
      map_find (cval (at_id a)) (ds_attempts (apply_attempt limits a st)) = Some a"
  using assms trim_find [OF wf_map_set [OF assms]]
  by (force simp: apply_attempt_table map_find_set)+

section \<open>Evolution of the durable state\<close>

text \<open>
  How an attempt may change while the engine runs: it stays, it moves along legal transitions with
  its identity and authority untouched, or it is dropped by retention.
\<close>

definition moved :: "AttemptRecord \<Rightarrow> AttemptRecord \<Rightarrow> bool" where
  "moved a b \<longleftrightarrow> b = a\<lparr>at_state := at_state b, at_transitions := at_transitions b\<rparr> \<and>
     TransitionLegal\<^sup>+\<^sup>+ (at_state a) (at_state b)"

definition att_evolves :: "AttemptRecord option \<Rightarrow> AttemptRecord option \<Rightarrow> bool" where
  "att_evolves x y \<longleftrightarrow> (\<forall>b. y = Some b \<longrightarrow> (\<exists>a. x = Some a \<and> (b = a \<or> moved a b)))"

definition intent_evolves :: "IntentDocument option \<Rightarrow> IntentDocument option \<Rightarrow> bool" where
  "intent_evolves x y \<longleftrightarrow>
     (\<forall>d. x = Some d \<longrightarrow> (\<exists>d'. y = Some d' \<and> (d' = d \<or> in_generation d < in_generation d')))"

definition evolves :: "DurableState \<Rightarrow> DurableState \<Rightarrow> bool" where
  "evolves st st' \<longleftrightarrow> ds_last_epoch st' = ds_last_epoch st \<and>
     cval (ds_next_attempt st) \<le> cval (ds_next_attempt st') \<and>
     (\<forall>k < cval (ds_next_attempt st). att_evolves (map_find k (ds_attempts st)) (map_find k (ds_attempts st'))) \<and>
     (\<forall>scope. intent_evolves (map_find scope (ds_intents st)) (map_find scope (ds_intents st'))) \<and>
     (ds_has_policy st \<longrightarrow> ds_has_policy st' \<and>
        (ds_policy st' = ds_policy st \<or> po_version (ds_policy st) < po_version (ds_policy st')))"

lemma legal_not_terminal: "TransitionLegal s t \<Longrightarrow> \<not> IsTerminalAttemptState s"
  by (cases s) simp_all

lemma legal_path_not_terminal: "TransitionLegal\<^sup>+\<^sup>+ s t \<Longrightarrow> \<not> IsTerminalAttemptState s"
  by (induction rule: tranclp_induct) (auto dest: legal_not_terminal)

lemma legal_path_target: "TransitionLegal\<^sup>+\<^sup>+ s t \<Longrightarrow> t \<noteq> Attempt_Invalid"
proof (induction rule: tranclp_induct)
  case (base y)
  then show ?case by (cases s) auto
next
  case (step y z)
  then show ?case by (cases y) auto
qed

lemma moved_fields:
  assumes "moved a b"
  shows "at_id b = at_id a" "at_idempotency_key b = at_idempotency_key a" "at_scope b = at_scope a"
    "at_subject b = at_subject a" "at_action b = at_action a" "at_epoch b = at_epoch a"
    "at_boot b = at_boot a" "at_authority b = at_authority a" "\<not> IsTerminalAttemptState (at_state a)"
proof -
  have b: "b = a\<lparr>at_state := at_state b, at_transitions := at_transitions b\<rparr>"
    using assms by (simp add: moved_def)
  show "at_id b = at_id a" "at_idempotency_key b = at_idempotency_key a" "at_scope b = at_scope a"
    "at_subject b = at_subject a" "at_action b = at_action a" "at_epoch b = at_epoch a"
    "at_boot b = at_boot a" "at_authority b = at_authority a"
    by (subst b; simp)+
  show "\<not> IsTerminalAttemptState (at_state a)"
    using assms legal_path_not_terminal [of "at_state a" "at_state b"] unfolding moved_def by blast
qed

lemma moved_trans:
  assumes "moved a b" "moved b c"
  shows "moved a c"
proof -
  have b: "b = a\<lparr>at_state := at_state b, at_transitions := at_transitions b\<rparr>"
    and c: "c = b\<lparr>at_state := at_state c, at_transitions := at_transitions c\<rparr>"
    using assms by (simp_all add: moved_def)
  have "c = a\<lparr>at_state := at_state c, at_transitions := at_transitions c\<rparr>"
    by (subst c, subst b) simp
  then show ?thesis using assms tranclp_trans by (auto simp: moved_def)
qed

lemma att_evolves_refl [simp]: "att_evolves x x" by (simp add: att_evolves_def)

lemma att_evolves_trans: "att_evolves x y \<Longrightarrow> att_evolves y z \<Longrightarrow> att_evolves x z"
  using moved_trans by (fastforce simp: att_evolves_def)

lemma intent_evolves_refl [simp]: "intent_evolves x x" by (simp add: intent_evolves_def)

lemma intent_evolves_trans: "intent_evolves x y \<Longrightarrow> intent_evolves y z \<Longrightarrow> intent_evolves x z"
  by (fastforce simp: intent_evolves_def)

lemma evolves_refl [simp]: "evolves st st" by (simp add: evolves_def)

lemma evolves_trans:
  assumes "evolves a b" "evolves b c"
  shows "evolves a c"
proof -
  have "att_evolves (map_find k (ds_attempts a)) (map_find k (ds_attempts c))"
    if "k < cval (ds_next_attempt a)" for k
    using assms that att_evolves_trans by (fastforce simp: evolves_def)
  moreover have "intent_evolves (map_find scope (ds_intents a)) (map_find scope (ds_intents c))" for scope
    using assms intent_evolves_trans by (fastforce simp: evolves_def)
  ultimately show ?thesis using assms by (auto simp: evolves_def)
qed

text \<open>The invariant of a writable engine: every live attempt belongs to the running incarnation.\<close>

definition lineage_ok :: "CoordinatorEpoch \<Rightarrow> BootId \<Rightarrow> DurableState \<Rightarrow> bool" where
  "lineage_ok epoch boot st \<longleftrightarrow> ds_last_epoch st = epoch \<and>
     (\<forall>k a. map_find k (ds_attempts st) = Some a \<longrightarrow> k < cval (ds_next_attempt st) \<and> at_epoch a \<le> epoch \<and>
        (\<not> IsTerminalAttemptState (at_state a) \<longrightarrow> at_epoch a = epoch \<and> at_boot a = boot)) \<and>
     (\<forall>scope. \<forall>d \<in> set (lookup_or [] (map_find scope (ds_observations st))). ob_received_epoch d \<le> epoch)"

definition engine_inv :: "Engine \<Rightarrow> bool" where
  "engine_inv e \<longleftrightarrow> durable_wf (en_limits e) (en_state e) \<and> st_limits (en_store e) = en_limits e \<and>
     \<not> st_read_only (en_store e) \<and> wf_boot (en_live_boot e) \<and>
     0 < max_attempt_transitions (en_limits e) \<and> max_attempt_transitions (en_limits e) < 2 ^ 32 \<and>
     lineage_ok (en_live_epoch e) (en_live_boot e) (en_state e)"

lemma engine_inv_attempts:
  assumes "engine_inv e" "map_find k (ds_attempts (en_state e)) = Some a"
  shows "attempt_ok (en_limits e) a" "cval (at_id a) = k" "k < cval (ds_next_attempt (en_state e))"
    "at_epoch a \<le> en_live_epoch e"
    "\<not> IsTerminalAttemptState (at_state a) \<Longrightarrow> at_epoch a = en_live_epoch e \<and> at_boot a = en_live_boot e"
proof -
  show "attempt_ok (en_limits e) a" "cval (at_id a) = k"
    using assms
    by (auto simp: engine_inv_def durable_wf_def table_ok_def attempt_stored_def dest!: map_find_mem)
  show "k < cval (ds_next_attempt (en_state e))" "at_epoch a \<le> en_live_epoch e"
    "\<not> IsTerminalAttemptState (at_state a) \<Longrightarrow> at_epoch a = en_live_epoch e \<and> at_boot a = en_live_boot e"
    using assms by (auto simp: engine_inv_def lineage_ok_def)
qed

lemma engine_inv_wf_map: "engine_inv e \<Longrightarrow> wf_map (ds_attempts (en_state e))"
  by (simp add: engine_inv_def durable_wf_def table_ok_def)

lemma step_attempt_ok:
  assumes "engine_inv e" "attempt_ok (en_limits e) a" "target \<noteq> Attempt_Invalid"
    "rsn \<le> Reason_RestartLeasesNotRestored" "ver \<le> Reason_RestartLeasesNotRestored"
  shows "attempt_ok (en_limits e) (step_attempt target now rsn ver e a)"
  using assms
  by (cases "at_transitions a")
    (auto simp: attempt_ok_def step_attempt_def append_shifting_def transition_to_def transition_ok_def
      engine_inv_def)

lemma MakeOutcome_ok:
  "attempt_ok limits a \<Longrightarrow> rsn \<le> Reason_RestartLeasesNotRestored \<Longrightarrow> outcome_ok (MakeOutcome a st rsn amb now)"
  by (simp add: attempt_ok_def outcome_ok_def MakeOutcome_def)

section \<open>Moves of the engine\<close>

text \<open>
  What every operation guarantees, whether it succeeds or is refused: it keeps the invariant, the
  state evolves, and the incarnation and the options stay as they are.
\<close>

definition moves :: "Engine \<Rightarrow> Engine \<Rightarrow> bool" where
  "moves e e' \<longleftrightarrow> (engine_inv e \<longrightarrow> engine_inv e' \<and> evolves (en_state e) (en_state e') \<and>
     en_live_epoch e' = en_live_epoch e \<and> en_live_boot e' = en_live_boot e \<and> en_options e' = en_options e)"

lemma moves_refl [simp]: "moves e e" by (simp add: moves_def)

lemma moves_trans: "moves e e' \<Longrightarrow> moves e' e'' \<Longrightarrow> moves e e''"
  using evolves_trans by (auto simp: moves_def)

lemma moves_counters [simp]:
  "moves e (e'\<lparr>en_stats := s\<rparr>) = moves e e'" "moves e (e'\<lparr>en_boot_report := r\<rparr>) = moves e e'"
  "moves e (e'\<lparr>en_compaction_watermark := q\<rparr>) = moves e e'"
  by (simp_all add: moves_def engine_inv_def)

lemma moves_bumps [simp]:
  "moves e (bump_rejected_late e') = moves e e'" "moves e (bump_duplicate_completions e') = moves e e'"
  "moves e (bump_completions_accepted e') = moves e e'" "moves e (bump_verifications_rejected e') = moves e e'"
  "moves e (bump_verifications_accepted e') = moves e e'"
  by (simp_all add: bump_rejected_late_def bump_duplicate_completions_def bump_completions_accepted_def
      bump_verifications_rejected_def bump_verifications_accepted_def)

lemma evolves_unversioned [simp]:
  "evolves st (st'\<lparr>ds_sequence := q\<rparr>) = evolves st st'" "evolves st (st'\<lparr>ds_compactions := n\<rparr>) = evolves st st'"
  "lineage_ok epoch boot (st\<lparr>ds_sequence := q\<rparr>) = lineage_ok epoch boot st"
  "lineage_ok epoch boot (st\<lparr>ds_compactions := n\<rparr>) = lineage_ok epoch boot st"
  "durable_wf limits (st\<lparr>ds_compactions := n\<rparr>) = durable_wf limits st"
  by (simp_all add: evolves_def lineage_ok_def durable_wf_def)

lemma durable_put_state:
  assumes "durable_put (fst (mutation_record m)) (snd (mutation_record m)) s = (status, s')"
    "snd (mutation_record m) \<noteq> [] \<Longrightarrow> mutation_valid (st_limits s) m"
  shows "state_becomes s (if status_ok status then mutation_effect (st_limits s) m else id) s'"
proof (cases "st_read_only s \<or> snd (mutation_record m) = []")
  case True
  then show ?thesis
    using assms(1) by (auto simp: durable_put_def state_becomes_def intro: exI [of _ "ds_sequence (st_state s)"]
        split: if_splits)
next
  case False
  then have valid: "mutation_valid (st_limits s) m" using assms(2) by simp
  show ?thesis
  proof (cases "status_ok status")
    case True
    then show ?thesis using any_record.in_memory [OF assms(1) True refl valid] by simp
  next
    case bad: False
    obtain a j where app: "Append (fst (mutation_record m)) (snd (mutation_record m)) (st_journal s) = (a, j)"
      by force
    have "\<not> status_ok a"
      using assms(1) app bad False any_record.applies [OF valid]
      by (auto simp: durable_put_def AppendAndApply_def Let_def split: if_splits)
    then have "s' = s\<lparr>st_journal := j\<rparr>"
      using assms(1) app False by (simp add: durable_put_def AppendAndApply_def Let_def)
    then show ?thesis using bad by (auto simp: state_becomes_def intro: exI [of _ "ds_sequence (st_state s)"])
  qed
qed

lemma perform_state:
  assumes "perform m s = (status, s')" "snd (mutation_record m) \<noteq> [] \<Longrightarrow> mutation_valid (st_limits s) m"
  shows "state_becomes s (if status_ok status then mutation_effect (st_limits s) m else id) s'"
proof -
  consider "s' = s" "\<not> status_ok status"
    | "durable_put (fst (mutation_record m)) (snd (mutation_record m)) s = (status, s')"
    using assms(1)
    by (cases m) (auto simp: store_PutPolicy_def store_CommitIntent_def store_CommitObservation_def
        store_IssueAttempt_def store_TransitionAttempt_def store_CommitOutcome_def store_PutFence_def
        store_ClearFence_def store_AdvanceEpoch_def split: if_splits)
  then show ?thesis
  proof cases
    case 1
    then show ?thesis by (auto simp: state_becomes_def intro: exI [of _ "ds_sequence (st_state s)"])
  next
    case 2
    then show ?thesis using durable_put_state assms(2) by blast
  qed
qed

lemma perform_moves:
  assumes run: "perform m (en_store e) = (status, s')"
    and valid: "engine_inv e \<Longrightarrow> snd (mutation_record m) \<noteq> [] \<Longrightarrow> mutation_valid (en_limits e) m"
    and keeps: "engine_inv e \<Longrightarrow>
        lineage_ok (en_live_epoch e) (en_live_boot e) (mutation_effect (en_limits e) m (en_state e)) \<and>
        evolves (en_state e) (mutation_effect (en_limits e) m (en_state e))"
  shows "moves e (e\<lparr>en_store := s'\<rparr>)"
  unfolding moves_def
proof (rule impI)
  assume inv: "engine_inv e"
  have lim: "st_limits (en_store e) = en_limits e" using inv by (simp add: engine_inv_def)
  have v: "mutation_valid (en_limits e) m" if "status_ok status"
    using that perform_durable_put [OF run] valid [OF inv] durable_put_encoded by blast
  have "state_becomes (en_store e) (if status_ok status then mutation_effect (en_limits e) m else id) s'"
    using perform_state [OF run] valid [OF inv] unfolding lim by blast
  moreover have "durable_wf (en_limits e) (mutation_effect (en_limits e) m (en_state e))" if "status_ok status"
    using any_record.keeps [OF v [OF that]] inv by (simp add: engine_inv_def)
  ultimately show "engine_inv (e\<lparr>en_store := s'\<rparr>) \<and> evolves (en_state e) (en_state (e\<lparr>en_store := s'\<rparr>)) \<and>
      en_live_epoch (e\<lparr>en_store := s'\<rparr>) = en_live_epoch e \<and> en_live_boot (e\<lparr>en_store := s'\<rparr>) = en_live_boot e \<and>
      en_options (e\<lparr>en_store := s'\<rparr>) = en_options e"
    using inv keeps [OF inv] by (cases "status_ok status") (auto simp: state_becomes_def engine_inv_def)
qed

end
