(* ===== verification/Evolution.thy ===== *)
theory Evolution
  imports Lifecycle
begin

text \<open>
  Every operation of the engine keeps its invariant and lets the durable state evolve only forwards:
  attempts move along legal transitions, intent generations and policy versions do not regress.
\<close>

section \<open>Single mutations\<close>

lemma lookup_or_set:
  "wf_map m \<Longrightarrow> lookup_or d (map_find j (map_set k v m)) = (if j = k then v else lookup_or d (map_find j m))"
  by (simp add: map_find_set lookup_or_def)

lemma apply_attempt_next:
  "cval (ds_next_attempt st) \<noteq> 0 \<Longrightarrow>
   ds_next_attempt (apply_attempt limits a st) =
     (if cval (at_id a) < cval (ds_next_attempt st) then ds_next_attempt st
      else if cval (at_id a) + 1 = 0 then Counter 1 else Counter (cval (at_id a) + 1))"
  by (simp add: apply_attempt_def TrimAttempts_def Let_def not_less leD)

lemma attempt_moved:
  assumes "wf_map (ds_attempts st)" "cval (ds_next_attempt st) \<noteq> 0" "lineage_ok epoch boot st"
    "map_find (cval (at_id a)) (ds_attempts st) = Some a" "moved a b"
  shows "lineage_ok epoch boot (apply_attempt limits b st) \<and> evolves st (apply_attempt limits b st)"
proof -
  note f = moved_fields [OF assms(5)]
  have known: "cval (at_id a) < cval (ds_next_attempt st)" "at_epoch a = epoch" "at_boot a = boot"
    using assms(3,4) f(9) by (auto simp: lineage_ok_def)
  have nxt: "ds_next_attempt (apply_attempt limits b st) = ds_next_attempt st"
    using apply_attempt_next [OF assms(2), of limits b] f(1) known(1) by simp
  have prior: "c = b \<and> k = cval (at_id a) \<or> k \<noteq> cval (at_id a) \<and> map_find k (ds_attempts st) = Some c"
    if "map_find k (ds_attempts (apply_attempt limits b st)) = Some c" for k c
    using that apply_attempt_find(1,3) [OF assms(1), where a = b and limits = limits] f(1) by metis
  have "att_evolves (map_find k (ds_attempts st)) (map_find k (ds_attempts (apply_attempt limits b st)))" for k
    using prior [of k] assms(4,5) by (auto simp: att_evolves_def)
  then have "evolves st (apply_attempt limits b st)"
    using nxt by (simp add: evolves_def)
  moreover have "lineage_ok epoch boot (apply_attempt limits b st)"
    using assms(3) prior nxt known f(6,7) by (fastforce simp: lineage_ok_def)
  ultimately show ?thesis by simp
qed

lemma attempt_issued:
  assumes "wf_map (ds_attempts st)" "cval (ds_next_attempt st) \<noteq> 0" "lineage_ok epoch boot st"
    "at_id a = ds_next_attempt st" "cval (ds_next_attempt st) \<noteq> - 1" "at_epoch a = epoch" "at_boot a = boot"
  shows "lineage_ok epoch boot (apply_attempt limits a st) \<and> evolves st (apply_attempt limits a st)"
    "ds_next_attempt (apply_attempt limits a st) = Counter (cval (ds_next_attempt st) + 1)"
proof -
  let ?n = "cval (ds_next_attempt st)"
  have nz: "?n + 1 \<noteq> 0" using assms(5) by (metis add.commute add_eq_0_iff)
  show nxt: "ds_next_attempt (apply_attempt limits a st) = Counter (?n + 1)"
    using apply_attempt_next [OF assms(2), of limits a] assms(4) nz by simp
  have lt: "?n < ?n + 1" using counter_succ [OF assms(5)] by (simp add: less_counter_def)
  have prior: "c = a \<and> k = ?n \<or> k \<noteq> ?n \<and> map_find k (ds_attempts st) = Some c"
    if "map_find k (ds_attempts (apply_attempt limits a st)) = Some c" for k c
    using that apply_attempt_find(1,3) [OF assms(1), where a = a and limits = limits] assms(4) by metis
  have "att_evolves (map_find k (ds_attempts st)) (map_find k (ds_attempts (apply_attempt limits a st)))"
    if "k < ?n" for k
    using prior [of k] that by (auto simp: att_evolves_def)
  then have "evolves st (apply_attempt limits a st)"
    using nxt lt by (simp add: evolves_def)
  moreover have "lineage_ok epoch boot (apply_attempt limits a st)"
    using assms(3,6,7) prior nxt lt by (fastforce simp: lineage_ok_def)
  ultimately show "lineage_ok epoch boot (apply_attempt limits a st) \<and> evolves st (apply_attempt limits a st)"
    by simp
qed

lemma outcome_kept:
  "lineage_ok epoch boot st \<Longrightarrow> lineage_ok epoch boot (apply_outcome limits x st) \<and> evolves st (apply_outcome limits x st)"
  by (simp add: lineage_ok_def evolves_def)

lemma policy_replaced:
  "lineage_ok epoch boot st \<Longrightarrow> (ds_has_policy st \<Longrightarrow> po_version (ds_policy st) < po_version p) \<Longrightarrow>
     lineage_ok epoch boot (apply_policy p st) \<and> evolves st (apply_policy p st)"
  by (simp add: lineage_ok_def evolves_def apply_policy_def)

lemma fence_kept:
  "lineage_ok epoch boot st \<Longrightarrow> lineage_ok epoch boot (apply_fence f st) \<and> evolves st (apply_fence f st)"
  "lineage_ok epoch boot st \<Longrightarrow> lineage_ok epoch boot (apply_fence_clear i st) \<and> evolves st (apply_fence_clear i st)"
  by (simp_all add: lineage_ok_def evolves_def apply_fence_def apply_fence_clear_def)

lemma intent_replaced:
  assumes "wf_map (ds_intents st)" "lineage_ok epoch boot st"
    "\<And>d'. map_find (in_scope d) (ds_intents st) = Some d' \<Longrightarrow> in_generation d' < in_generation d"
  shows "lineage_ok epoch boot (apply_intent limits d st) \<and> evolves st (apply_intent limits d st)"
  using assms
  by (auto simp: lineage_ok_def evolves_def apply_intent_def Let_def intent_evolves_def map_find_set)

lemma observation_added:
  assumes "wf_map (ds_observations st)" "lineage_ok epoch boot st" "ob_received_epoch d = epoch"
  shows "lineage_ok epoch boot (apply_observation limits d st) \<and> evolves st (apply_observation limits d st)"
proof -
  let ?old = "lookup_or [] (map_find (ob_scope d) (ds_observations st))"
  have sub: "set (trim_front n xs) \<subseteq> set xs" for n and xs :: "ObservationDocument list"
    by (simp add: trim_front_drop set_drop_subset)
  have st: "apply_observation limits d st = st\<lparr>ds_observations := map_set (ob_scope d)
      (trim_front (max_retained_observations_per_scope limits) (?old @ [d])) (ds_observations st)\<rparr>"
    by (rule apply_observation_stream [OF assms(1)])
  have "ob_received_epoch x \<le> epoch" if "x \<in> set (trim_front n (?old @ [d]))" for x n
    using that sub [of n "?old @ [d]"] assms(2,3) by (auto simp: lineage_ok_def)
  then show ?thesis
    using assms(1,2) by (auto simp: st lineage_ok_def evolves_def lookup_or_set split: if_splits)
qed

section \<open>Store operations as moves\<close>

lemma engine_inv_parts:
  assumes "engine_inv e"
  shows "wf_map (ds_attempts (en_state e))" "wf_map (ds_intents (en_state e))"
    "wf_map (ds_observations (en_state e))" "cval (ds_next_attempt (en_state e)) \<noteq> 0"
    "lineage_ok (en_live_epoch e) (en_live_boot e) (en_state e)" "wf_boot (en_live_boot e)"
    "\<not> st_read_only (en_store e)" "durable_wf (en_limits e) (en_state e)"
  using assms by (simp_all add: engine_inv_def durable_wf_def table_ok_def scope_lists_ok_def)

lemma transition_moves:
  assumes "store_TransitionAttempt b (en_store e) = (status, s')"
    "engine_inv e \<Longrightarrow> map_find (cval (at_id a)) (ds_attempts (en_state e)) = Some a \<and> moved a b \<and>
       attempt_ok (en_limits e) b"
  shows "moves e (e\<lparr>en_store := s'\<rparr>)"
proof (rule perform_moves [of "Mut_TransitionAttempt b"])
  show "perform (Mut_TransitionAttempt b) (en_store e) = (status, s')" using assms(1) by simp
  assume inv: "engine_inv e"
  show "mutation_valid (en_limits e) (Mut_TransitionAttempt b)"
    if "snd (mutation_record (Mut_TransitionAttempt b)) \<noteq> []"
    using that encoded_fits(1) assms(2) [OF inv] by (simp add: attempt_stored_def)
  show "lineage_ok (en_live_epoch e) (en_live_boot e)
        (mutation_effect (en_limits e) (Mut_TransitionAttempt b) (en_state e)) \<and>
      evolves (en_state e) (mutation_effect (en_limits e) (Mut_TransitionAttempt b) (en_state e))"
    using attempt_moved [OF engine_inv_parts(1,4,5) [OF inv]] assms(2) [OF inv]
    unfolding mutation_effect.simps by blast
qed

lemma issue_moves:
  assumes "store_IssueAttempt a (en_store e) = (status, s')"
    "engine_inv e \<Longrightarrow> attempt_ok (en_limits e) a \<and> at_id a = ds_next_attempt (en_state e) \<and>
       cval (ds_next_attempt (en_state e)) \<noteq> - 1 \<and> at_epoch a = en_live_epoch e \<and> at_boot a = en_live_boot e"
  shows "moves e (e\<lparr>en_store := s'\<rparr>)"
proof (rule perform_moves [of "Mut_IssueAttempt a"])
  show "perform (Mut_IssueAttempt a) (en_store e) = (status, s')" using assms(1) by simp
  assume inv: "engine_inv e"
  show "mutation_valid (en_limits e) (Mut_IssueAttempt a)"
    if "snd (mutation_record (Mut_IssueAttempt a)) \<noteq> []"
    using that encoded_fits(1) assms(2) [OF inv] by (simp add: attempt_stored_def)
  show "lineage_ok (en_live_epoch e) (en_live_boot e)
        (mutation_effect (en_limits e) (Mut_IssueAttempt a) (en_state e)) \<and>
      evolves (en_state e) (mutation_effect (en_limits e) (Mut_IssueAttempt a) (en_state e))"
    using attempt_issued(1) [OF engine_inv_parts(1,4,5) [OF inv]] assms(2) [OF inv] by simp
qed

lemma outcome_moves:
  assumes "store_CommitOutcome x (en_store e) = (status, s')" "engine_inv e \<Longrightarrow> outcome_ok x"
  shows "moves e (e\<lparr>en_store := s'\<rparr>)"
  using assms outcome_kept [OF engine_inv_parts(5)] encoded_fits(2)
  by (intro perform_moves [of "Mut_CommitOutcome x"]) (auto simp: outcome_stored_def)

lemma fence_moves:
  assumes "store_PutFence f (en_store e) = (status, s')" "fence_ok f"
  shows "moves e (e\<lparr>en_store := s'\<rparr>)"
  using assms fence_kept(1) [OF engine_inv_parts(5)] encoded_fits(3)
  by (intro perform_moves [of "Mut_PutFence f"]) (auto simp: fence_stored_def)

lemma fence_clear_moves:
  assumes "store_ClearFence i (en_store e) = (status, s')" "engine_inv e \<Longrightarrow> valid_id i"
  shows "moves e (e\<lparr>en_store := s'\<rparr>)"
  using assms fence_kept(2) [OF engine_inv_parts(5)]
  by (intro perform_moves [of "Mut_ClearFence i"]) auto

lemma policy_moves:
  assumes "store_PutPolicy p (en_store e) = (status, s')" "policy_ok (en_limits e) p"
    "ds_has_policy (en_state e) \<Longrightarrow> po_version (ds_policy (en_state e)) < po_version p"
  shows "moves e (e\<lparr>en_store := s'\<rparr>)"
  using assms policy_replaced [OF engine_inv_parts(5), of e p] encoded_fits(4)
  by (intro perform_moves [of "Mut_PutPolicy p"]) (auto simp: policy_stored_def)

lemma intent_moves:
  assumes "store_CommitIntent d (en_store e) = (status, s')" "intent_ok (en_limits e) d"
    "\<And>d'. map_find (in_scope d) (ds_intents (en_state e)) = Some d' \<Longrightarrow> in_generation d' < in_generation d"
  shows "moves e (e\<lparr>en_store := s'\<rparr>)"
  using assms intent_replaced [OF engine_inv_parts(2,5), of e d] buffer_nonempty_fits
  by (intro perform_moves [of "Mut_CommitIntent d"]) (auto simp: intent_stored_def EncodeIntent_def)

lemma observation_moves:
  assumes "store_CommitObservation d (en_store e) = (status, s')" "observation_ok (en_limits e) d"
    "ob_received_epoch d = en_live_epoch e"
  shows "moves e (e\<lparr>en_store := s'\<rparr>)"
  using assms observation_added [OF engine_inv_parts(3,5), of e d] buffer_nonempty_fits
  by (intro perform_moves [of "Mut_CommitObservation d"]) (auto simp: observation_stored_def EncodeObservation_def)

text \<open>A compaction changes no table; a flush changes nothing.\<close>

lemma Compact_state:
  assumes "Compact clock clock' clock'' s = (status, s')"
  shows "st_state s' = (st_state s)\<lparr>ds_compactions := ds_compactions (st_state s'),
      ds_sequence := ds_sequence (st_state s')\<rparr>"
    "st_limits s' = st_limits s" "st_read_only s' = st_read_only s"
  using assms by (auto simp: Compact_def Let_def split: if_splits prod.splits)

lemma compact_moves:
  assumes "Compact clock clock' clock'' (en_store e) = (status, s')"
  shows "moves e (e\<lparr>en_store := s'\<rparr>)"
proof -
  note st = Compact_state [OF assms]
  have "durable_wf (en_limits e) (st_state s') = durable_wf (en_limits e) (en_state e)"
    "lineage_ok epoch boot (st_state s') = lineage_ok epoch boot (en_state e)"
    "evolves (en_state e) (st_state s')" for epoch boot
    by (subst st(1), simp)+
  then show ?thesis using st(2,3) by (auto simp: moves_def engine_inv_def)
qed

lemma MaybeCompactLocked_moves [simp]: "moves e' e \<Longrightarrow> moves e' (MaybeCompactLocked ck e)"
  using compact_moves by (auto simp: MaybeCompactLocked_def Let_def split: prod.split elim!: moves_trans)

section \<open>Operations\<close>

lemma engine_Compact_moves: "engine_Compact ck e = (status, e') \<Longrightarrow> moves e e'"
  using compact_moves by (auto simp: engine_Compact_def Let_def split: if_splits prod.splits)

lemma Flush_moves: "Flush e = (status, e') \<Longrightarrow> moves e e'"
  by (auto simp: Flush_def SyncJournal_def Let_def moves_def engine_inv_def split: prod.splits)

definition policy_typed :: "ReconciliationPolicy \<Rightarrow> bool" where
  "policy_typed p \<longleftrightarrow> wf_id (po_id p) \<and>
     list_all wf_id (unmanaged_attributes p) \<and> length (unmanaged_attributes p) < 2 ^ 32 \<and>
     list_all wf_id (observe_only_attributes p) \<and> length (observe_only_attributes p) < 2 ^ 32"

lemma CanonicalisePolicy_typed:
  assumes "policy_typed p" "CanonicalisePolicy limits p = (s, q)" "status_ok s"
  shows "policy_ok limits q"
proof (rule policy_ok_canonicalised [OF assms(2,3)])
  have "\<not> id_empty (po_id p)" "\<not> list_ex id_empty (unmanaged_attributes p)"
      "\<not> list_ex id_empty (observe_only_attributes p)"
    using assms(2,3) by (auto simp: CanonicalisePolicy_def Let_def split: if_splits)
  then show "valid_id (po_id p)" "list_all valid_id (unmanaged_attributes p)"
      "list_all valid_id (observe_only_attributes p)"
    using assms(1) by (auto simp: policy_typed_def wf_id_def list_all_iff list_ex_iff)
qed (use assms(1) in \<open>simp_all add: policy_typed_def\<close>)

lemma engine_PutPolicy_moves:
  assumes "engine_PutPolicy p same e = (status, e')" "policy_typed p"
  shows "moves e e'"
proof -
  obtain s q where c: "CanonicalisePolicy (en_limits e) p = (s, q)" by force
  obtain stored store where put: "store_PutPolicy q (en_store e) = (stored, store)" by force
  let ?newer = "ds_has_policy (en_state e) \<longrightarrow> po_version (ds_policy (en_state e)) < po_version q"
  have "e' = e \<or> status_ok s \<and> e' = e\<lparr>en_store := store\<rparr>"
    using assms(1) c put by (simp add: engine_PutPolicy_def Let_def split: if_splits)
  moreover have "e' = e" if "\<not> ?newer"
    using that assms(1) c put less_linear [of "po_version q" "po_version (ds_policy (en_state e))"]
    by (simp add: engine_PutPolicy_def Let_def split: if_splits)
  moreover have "moves e (e\<lparr>en_store := store\<rparr>)" if "status_ok s" ?newer
    using that policy_moves [OF put] CanonicalisePolicy_typed [OF assms(2) c] by blast
  ultimately show ?thesis by (metis moves_refl)
qed

lemma engine_CommitIntent_moves:
  assumes "engine_CommitIntent ck d e = (status, out, e')" "intent_typed d"
  shows "moves e e'"
proof -
  let ?d = "d\<lparr>in_digest := ComputeIntentDigest d\<rparr>"
  obtain committed store where put: "store_CommitIntent ?d (en_store e) = (committed, store)" by force
  have ok: "intent_ok (en_limits e) ?d" if "status_ok (ValidateIntent d (en_limits e))"
  proof -
    have "ValidateIntent ?d (en_limits e) = ValidateIntent d (en_limits e)"
      by (simp add: ValidateIntent_def)
    moreover have "intent_typed ?d" using assms(2) by (simp add: intent_typed_def)
    ultimately show ?thesis using ValidateIntent_ok [of ?d "en_limits e"] that by fastforce
  qed
  let ?newer = "\<forall>d'. map_find (in_scope d) (ds_intents (en_state e)) = Some d' \<longrightarrow> in_generation d' < in_generation d"
  have run: "moves e (e\<lparr>en_store := store\<rparr>)" if "status_ok (ValidateIntent d (en_limits e))" ?newer
    using that intent_moves [OF put] ok by simp
  show ?thesis
  proof (cases "st_read_only (en_store e) \<or> \<not> status_ok (ValidateIntent d (en_limits e))")
    case True
    then show ?thesis using assms(1) by (auto simp: engine_CommitIntent_def Let_def split: if_splits)
  next
    case valid: False
    show ?thesis
    proof (cases "map_find (in_scope d) (ds_intents (en_state e))")
      case None
      then show ?thesis
        using assms(1) valid put run by (auto simp: engine_CommitIntent_def Let_def split: if_splits)
    next
      case (Some old)
      consider "in_generation d < in_generation old" | "in_generation d = in_generation old"
        | "in_generation old < in_generation d"
        using less_linear by blast
      then show ?thesis
      proof cases
        case 3
        then have order: "\<not> in_generation d < in_generation old" "in_generation d \<noteq> in_generation old" by auto
        have "moves e (e\<lparr>en_store := store\<rparr>)" using run valid Some 3 by simp
        then show ?thesis
          using assms(1) valid put Some order
          by (simp add: engine_CommitIntent_def Let_def split: if_splits)
            (metis moves_counters(1) MaybeCompactLocked_moves)+
      qed (use assms(1) valid put Some in \<open>auto simp: engine_CommitIntent_def Let_def split: if_splits\<close>)
    qed
  qed
qed

lemma stamp_observation_ok:
  assumes "submission_typed s" "status_ok (ValidateSubmission s (en_limits e))"
  shows "observation_ok (en_limits e) (stamp_observation s received e)"
proof -
  let ?d = "\<lparr>ob_observation = su_observation s, ob_scope = su_scope s, ob_reporter = su_reporter s,
      ob_generation = su_generation s, ob_evidence = su_evidence s, ob_complete = su_complete s,
      ob_authoritative_absence = su_authoritative_absence s, ob_received_epoch = en_live_epoch e,
      ob_received_unix_ms = received, ob_subjects = su_subjects s, ob_digest = zero_digest\<rparr>"
  have d: "stamp_observation s received e = ?d\<lparr>ob_digest := ComputeObservationDigest ?d\<rparr>"
    by (simp only: stamp_observation_def Let_def)
  show ?thesis
    using assms ValidateSubmission_ok [OF assms(1), of "en_limits e"]
    unfolding d observation_ok_def observation_digest_update by (simp add: submission_ok_def)
qed

lemma RecordObservationAt_moves:
  assumes "RecordObservationAt ck s at_ms e = (status, out, e')" "submission_typed s"
  shows "moves e e'"
proof -
  let ?d = "stamp_observation s (stamp_or at_ms (ck_now ck)) e"
  obtain committed store where put: "store_CommitObservation ?d (en_store e) = (committed, store)" by force
  have "ob_received_epoch ?d = en_live_epoch e" by (simp add: stamp_observation_def Let_def)
  then have run: "moves e (e\<lparr>en_store := store\<rparr>)" if "status_ok (ValidateSubmission s (en_limits e))"
    using observation_moves [OF put] stamp_observation_ok [OF assms(2) that] by simp
  show ?thesis
  proof (cases "st_read_only (en_store e) \<or> \<not> status_ok (ValidateSubmission s (en_limits e))")
    case True
    then show ?thesis using assms(1) by (auto simp: RecordObservationAt_def Let_def split: if_splits)
  next
    case False
    then have go: "moves e (e\<lparr>en_store := store\<rparr>)" using run by simp
    let ?stream = "lookup_or [] (map_find (su_scope s) (ds_observations (en_state e)))"
    show ?thesis
    proof (cases "scan_stream s (ob_digest ?d) ?stream None")
      case (Stream_Duplicate retained)
      then show ?thesis using assms(1) False by (auto simp: RecordObservationAt_def Let_def)
    next
      case Stream_Conflict
      then show ?thesis using assms(1) False by (auto simp: RecordObservationAt_def Let_def)
    next
      case (Stream_Highest highest)
      define regress where "regress = (case highest of None \<Rightarrow> False | Some h \<Rightarrow> su_generation s < h)"
      show ?thesis
        using assms(1) False Stream_Highest put go
        unfolding RecordObservationAt_def Let_def
        by (cases regress; cases "status_ok committed") (auto simp: regress_def [symmetric])
    qed
  qed
qed

lemma engine_ClearFence_moves:
  assumes "engine_ClearFence i e = (status, e')"
  shows "moves e e'"
proof -
  obtain cleared store where put: "store_ClearFence i (en_store e) = (cleared, store)" by force
  show ?thesis
  proof (cases "map_find i (ds_fences (en_state e))")
    case None
    then show ?thesis using assms by (simp add: engine_ClearFence_def split: if_splits)
  next
    case (Some f)
    then have "valid_id i" if "engine_inv e"
      using map_find_mem [OF Some] engine_inv_parts(8) [OF that]
      by (auto simp: durable_wf_def table_ok_def fence_stored_def fence_ok_def)
    then have "moves e (e\<lparr>en_store := store\<rparr>)" using fence_clear_moves [OF put] by simp
    then show ?thesis using assms put Some by (auto simp: engine_ClearFence_def split: if_splits)
  qed
qed

section \<open>Operations on attempts\<close>

lemma moves_if: "(engine_inv e \<Longrightarrow> moves e e') \<Longrightarrow> moves e e'"
  by (auto simp: moves_def)

lemma moves_counters_store [simp]:
  "moves e (e'\<lparr>en_stats := s, en_store := x\<rparr>) = moves e (e'\<lparr>en_store := x\<rparr>)"
  "moves e (e'\<lparr>en_boot_report := r, en_store := x\<rparr>) = moves e (e'\<lparr>en_store := x\<rparr>)"
  by (simp_all add: moves_def engine_inv_def)

lemma step_moved: "TransitionLegal (at_state a) target \<Longrightarrow> moved a (step_attempt target now rsn ver e a)"
  by (auto simp: moved_def step_attempt_def)

lemma legal_target: "TransitionLegal s t \<Longrightarrow> t \<noteq> Attempt_Invalid"
  by (cases s) auto

text \<open>The durable transition of an attempt followed by the outcome that reports it.\<close>

lemma settle_moves:
  assumes "store_TransitionAttempt b (en_store e) = (recorded, s1)"
    "engine_inv e \<Longrightarrow> map_find (cval (at_id a)) (ds_attempts (en_state e)) = Some a"
    "b = step_attempt target now rsn ver e a" "TransitionLegal (at_state a) target"
    "rsn \<le> Reason_RestartLeasesNotRestored" "ver \<le> Reason_RestartLeasesNotRestored"
  shows "moves e (e\<lparr>en_store := s1\<rparr>)"
    "store_CommitOutcome (MakeOutcome b st rsn amb now') s1 = (committed, s2) \<Longrightarrow> moves e (e\<lparr>en_store := s2\<rparr>)"
    "store_CommitOutcome (MakeOutcome b st rsn amb now'\<lparr>oc_verified_generation := g\<rparr>) s1 = (committed, s2) \<Longrightarrow>
       moves e (e\<lparr>en_store := s2\<rparr>)"
proof -
  have ok: "attempt_ok (en_limits e) b" if "engine_inv e"
    unfolding assms(3) using step_attempt_ok [OF that engine_inv_attempts(1) [OF that assms(2) [OF that]]]
      legal_target [OF assms(4)] assms(5,6) by blast
  show first: "moves e (e\<lparr>en_store := s1\<rparr>)"
    using transition_moves [OF assms(1)] assms(2) step_moved [OF assms(4)] ok unfolding assms(3) by blast
  have kept: "moves e (e\<lparr>en_store := s2\<rparr>)"
    if "store_CommitOutcome x s1 = (committed, s2)" "engine_inv e \<Longrightarrow> outcome_ok x" for x
  proof (rule moves_if)
    assume inv: "engine_inv e"
    have "moves (e\<lparr>en_store := s1\<rparr>) (e\<lparr>en_store := s1, en_store := s2\<rparr>)"
      by (rule outcome_moves) (use that inv in auto)
    then show "moves e (e\<lparr>en_store := s2\<rparr>)" using moves_trans [OF first] by simp
  qed
  show "store_CommitOutcome (MakeOutcome b st rsn amb now') s1 = (committed, s2) \<Longrightarrow> moves e (e\<lparr>en_store := s2\<rparr>)"
    using kept MakeOutcome_ok [OF ok assms(5)] by blast
  have "outcome_ok (MakeOutcome b st rsn amb now'\<lparr>oc_verified_generation := g\<rparr>)" if "engine_inv e"
    using MakeOutcome_ok [OF ok assms(5)] that by (simp add: outcome_ok_def)
  then show "store_CommitOutcome (MakeOutcome b st rsn amb now'\<lparr>oc_verified_generation := g\<rparr>) s1 = (committed, s2) \<Longrightarrow>
      moves e (e\<lparr>en_store := s2\<rparr>)"
    using kept by blast
qed

lemma ReasonOfAttempt_bound: "ReasonOfAttempt t \<le> Reason_RestartLeasesNotRestored"
  by (cases t) (simp_all add: word_le_nat_alt)

lemma complete_attempt_moves:
  assumes "complete_attempt ck request a e = (status, out, e')"
    "engine_inv e \<Longrightarrow> map_find (cval (at_id a)) (ds_attempts (en_state e)) = Some a"
    "TransitionLegal (at_state a) (cq_target request)" "cq_reason request \<le> Reason_RestartLeasesNotRestored"
  shows "moves e e'"
proof -
  define rsn where "rsn = (if cq_reason request \<noteq> Reason_None then cq_reason request
    else ReasonOfAttempt (cq_target request))"
  define now where "now = stamp_or (cq_at_unix_ms request) (ck_now ck)"
  define b where "b = step_attempt (cq_target request) now rsn Reason_None e a"
  define x where "x = MakeOutcome b (at_state b) rsn (IsInconclusiveTerminalState (at_state b)) now"
  have rsn: "rsn \<le> Reason_RestartLeasesNotRestored"
    using assms(4) ReasonOfAttempt_bound by (simp add: rsn_def)
  obtain recorded s1 where t: "store_TransitionAttempt b (en_store e) = (recorded, s1)" by force
  obtain committed s2 where o: "store_CommitOutcome x s1 = (committed, s2)" by force
  note m = settle_moves [OF t assms(2) b_def assms(3) rsn]
  have "moves e (e\<lparr>en_store := s1\<rparr>)" "moves e (e\<lparr>en_store := s2\<rparr>)"
    using m(1) m(2) o unfolding x_def by (simp_all add: word_le_nat_alt)
  then show ?thesis
    using assms(1) t o
    by (auto simp: complete_attempt_def Let_def bump_completions_accepted_def rsn_def now_def b_def x_def
        split: if_splits)
qed

lemma Complete_moves:
  assumes "Complete ck request e = (status, out, e')" "cq_reason request \<le> Reason_RestartLeasesNotRestored"
  shows "moves e e'"
proof (cases "map_find (cval (cq_attempt request)) (ds_attempts (en_state e))")
  case None
  then show ?thesis using assms(1) by (simp add: Complete_def split: if_splits)
next
  case (Some a)
  then have "engine_inv e \<Longrightarrow> map_find (cval (at_id a)) (ds_attempts (en_state e)) = Some a"
    using engine_inv_attempts(2) by metis
  then have "moves e e''" if "complete_attempt ck request a e = (st, o', e'')"
      "TransitionLegal (at_state a) (cq_target request)" for st o' e''
    using that complete_attempt_moves assms(2) by blast
  then show ?thesis using assms(1) Some by (auto simp: Complete_def split: if_splits)
qed

lemma find_by_key_table:
  assumes "find_by_key key (en_state e) = Some a"
  shows "at_idempotency_key a = key" "engine_inv e \<Longrightarrow> map_find (cval (at_id a)) (ds_attempts (en_state e)) = Some a"
proof -
  obtain k where k: "(k, a) \<in> set (ds_attempts (en_state e))" "at_idempotency_key a = key"
    using assms by (auto simp: find_by_key_def find_Some_iff in_set_conv_nth)
      (metis fst_conv nth_mem prod.collapse snd_conv)
  show "at_idempotency_key a = key" using k by simp
  show "map_find (cval (at_id a)) (ds_attempts (en_state e)) = Some a" if "engine_inv e"
  proof -
    have "map_find k (ds_attempts (en_state e)) = Some a"
      using k(1) map_find_iff_mem [OF engine_inv_parts(1) [OF that]] by blast
    then show ?thesis using engine_inv_attempts(2) [OF that] by blast
  qed
qed

lemma verify_attempt_moves:
  assumes "verify_attempt ck v a e = (status, out, e')"
    "engine_inv e \<Longrightarrow> map_find (cval (at_id a)) (ds_attempts (en_state e)) = Some a"
    "at_state a = Attempt_Applied"
  shows "moves e e'"
proof -
  define now where "now = stamp_or (ve_received_unix_ms v) (ck_later ck)"
  define target where "target = (if ve_confirms_effect v then Attempt_Verified else Attempt_Failed)"
  define rsn where "rsn = (if ve_confirms_effect v then Reason_AttemptVerified else Reason_AttemptFailed)"
  define ver where "ver = (if ve_confirms_effect v then Reason_AttemptVerified else Reason_VerificationNotNewer)"
  define b where "b = step_attempt target now rsn ver e a"
  define x where "x = MakeOutcome b target rsn (\<not> ve_confirms_effect v) now\<lparr>oc_verified_generation := ve_generation v\<rparr>"
  have rsn: "rsn \<le> Reason_RestartLeasesNotRestored" "ver \<le> Reason_RestartLeasesNotRestored"
    by (simp_all add: rsn_def ver_def word_le_nat_alt)
  have legal: "TransitionLegal (at_state a) target" using assms(3) by (simp add: target_def)
  obtain recorded s1 where t: "store_TransitionAttempt b (en_store e) = (recorded, s1)" by force
  obtain committed s2 where o: "store_CommitOutcome x s1 = (committed, s2)" by force
  note m = settle_moves [OF t assms(2) b_def legal rsn]
  have "moves e (e\<lparr>en_store := s1\<rparr>)" "moves e (e\<lparr>en_store := s2\<rparr>)"
    using m(1) m(3) o unfolding x_def by simp_all
  then show ?thesis
    using assms(1) t o
    by (auto simp: verify_attempt_def Let_def rsn_def now_def b_def x_def ver_def target_def
        simp del: TransitionLegal.simps split: if_splits)
qed

lemma Verify_moves:
  assumes "Verify ck v e = (status, out, e')"
  shows "moves e e'"
proof (cases "find_by_key (ve_idempotency_key v) (en_state e)")
  case None
  then show ?thesis using assms by (simp add: Verify_def Let_def split: if_splits)
next
  case (Some a)
  have "moves e e''" if "verify_attempt ck v a e = (st, o', e'')" "at_state a = Attempt_Applied" for st o' e''
    using that verify_attempt_moves find_by_key_table(2) [OF Some] by blast
  then show ?thesis
    using assms Some by (auto simp: Verify_def Let_def split: if_splits option.splits)
qed

section \<open>Closing attempts in a loop\<close>

text \<open>
  A restart and a fence close a list of live attempts one by one, each with a transition and an
  outcome. What both loops do to the state, and what they need of the closing step.
\<close>

fun close_all ::
    "RuntimeLimits \<Rightarrow> (AttemptRecord \<Rightarrow> AttemptRecord) \<Rightarrow> (AttemptRecord \<Rightarrow> ReconciliationOutcome) \<Rightarrow>
     AttemptRecord list \<Rightarrow> DurableState \<Rightarrow> DurableState" where
  "close_all limits close out [] st = st"
| "close_all limits close out (a # as) st =
     close_all limits close out as (apply_outcome limits (out a) (apply_attempt limits (close a) st))"

lemma close_all_sequence:
  "close_all limits close out as (st\<lparr>ds_sequence := q\<rparr>) = (close_all limits close out as st)\<lparr>ds_sequence := q\<rparr>"
  by (induction as arbitrary: st) (simp_all add: apply_sequence apply_attempt_sequence)

lemma close_all_other:
  "ds_last_epoch (close_all limits close out as st) = ds_last_epoch st"
  "ds_observations (close_all limits close out as st) = ds_observations st"
  "ds_intents (close_all limits close out as st) = ds_intents st"
  "ds_policy (close_all limits close out as st) = ds_policy st"
  "ds_has_policy (close_all limits close out as st) = ds_has_policy st"
  "ds_fences (close_all limits close out as st) = ds_fences st"
  by (induction as arbitrary: st) simp_all

lemma wf_apply_attempt: "wf_map (ds_attempts st) \<Longrightarrow> wf_map (ds_attempts (apply_attempt limits a st))"
  using trim_attempts_spec [OF wf_map_set] by (simp add: apply_attempt_table)

lemma close_all_outcomes:
  "ds_outcomes (close_all limits close out as st) =
     (if as = [] then ds_outcomes st
      else trim_front (max_retained_outcomes limits) (ds_outcomes st @ map out as))"
proof (induction as arbitrary: st)
  case (Cons a as)
  have trim: "trim_front n (trim_front n xs @ ys) = trim_front n (xs @ ys)" for n and xs ys :: "'a list"
    by (cases "length xs \<le> n") (auto simp: trim_front_drop add.commute)
  have one: "ds_outcomes (apply_outcome limits (out a) (apply_attempt limits (close a) st)) =
      trim_front (max_retained_outcomes limits) (ds_outcomes st @ [out a])"
    by (simp add: apply_outcome_def TrimOutcomes_def)
  show ?case by (simp add: Cons.IH one trim)
qed simp

locale closing =
  fixes close :: "AttemptRecord \<Rightarrow> AttemptRecord"
  assumes same_id: "at_id (close a) = at_id a"
    and closed: "IsTerminalAttemptState (at_state (close a))"
begin

text \<open>Every closed attempt is terminal or dropped; every other live attempt is untouched.\<close>

lemma close_all_find:
  assumes "wf_map (ds_attempts st)" "map_find k (ds_attempts (close_all limits close out as st)) = Some b"
  shows "(k \<notin> (\<lambda>a. cval (at_id a)) ` set as \<and> map_find k (ds_attempts st) = Some b) \<or>
      (\<exists>a \<in> set as. k = cval (at_id a) \<and> b = close a)"
  using assms
proof (induction as arbitrary: st)
  case (Cons a as)
  let ?st = "apply_outcome limits (out a) (apply_attempt limits (close a) st)"
  note find = apply_attempt_find [OF Cons.prems(1), where a = "close a" and limits = limits, unfolded same_id]
  have "wf_map (ds_attempts ?st)" using wf_apply_attempt Cons.prems(1) by simp
  from Cons.IH [OF this] have "(k \<notin> (\<lambda>a. cval (at_id a)) ` set as \<and> map_find k (ds_attempts ?st) = Some b) \<or>
      (\<exists>a \<in> set as. k = cval (at_id a) \<and> b = close a)"
    using Cons.prems(2) by simp
  then show ?case using find(1,3) by (cases "k = cval (at_id a)") auto
qed simp

lemma close_all_keeps:
  assumes "wf_map (ds_attempts st)" "k \<notin> (\<lambda>a. cval (at_id a)) ` set as"
    "map_find k (ds_attempts st) = Some b" "\<not> IsTerminalAttemptState (at_state b)"
  shows "map_find k (ds_attempts (close_all limits close out as st)) = Some b"
  using assms
proof (induction as arbitrary: st)
  case (Cons a as)
  let ?st = "apply_outcome limits (out a) (apply_attempt limits (close a) st)"
  note find = apply_attempt_find [OF Cons.prems(1), where a = "close a" and limits = limits, unfolded same_id]
  have wf: "wf_map (ds_attempts ?st)" using wf_apply_attempt Cons.prems(1) by simp
  have "map_find k (ds_attempts ?st) = Some b" using find(2) Cons.prems by simp
  then show ?case using Cons.IH [OF wf] Cons.prems by simp
qed simp

lemma close_all_live:
  assumes "wf_map (ds_attempts st)" "map_find k (ds_attempts (close_all limits close out as st)) = Some b"
    "\<not> IsTerminalAttemptState (at_state b)"
  shows "k \<notin> (\<lambda>a. cval (at_id a)) ` set as" "map_find k (ds_attempts st) = Some b"
  using close_all_find [OF assms(1,2)] assms(3) closed by auto

end

lemma restart_attempt_state [simp]: "at_state (restart_attempt now e a) = restart_target a"
  by (simp add: restart_attempt_def)

lemma restart_target_terminal: "IsTerminalAttemptState (restart_target a)"
  by (simp add: restart_target_def)

interpretation restart: closing "restart_attempt now e" for now e
  by unfold_locales (simp_all add: restart_attempt_def restart_target_terminal)

interpretation fencing: closing "step_attempt Attempt_Fenced now rsn ver e" for now rsn ver e
  by unfold_locales (simp_all add: step_attempt_def)

section \<open>Fences\<close>

text \<open>One closing step that succeeds.\<close>

lemma settle_state:
  assumes "store_TransitionAttempt b s = (recorded, s1)" "status_ok recorded"
    "store_CommitOutcome x s1 = (committed, s2)" "status_ok committed"
    "attempt_ok (st_limits s) b" "outcome_ok x"
  shows "state_becomes s (\<lambda>st. apply_outcome (st_limits s) x (apply_attempt (st_limits s) b st)) s2"
    "durable_wf (st_limits s) (st_state s) \<Longrightarrow> durable_wf (st_limits s) (st_state s2)"
proof -
  note t = TransitionAttempt_state [OF assms(1,2,5)]
  have lim: "st_limits s1 = st_limits s" using t(2) by (simp add: state_becomes_def)
  note c = CommitOutcome_state [OF assms(3,4,6), unfolded lim]
  show "state_becomes s (\<lambda>st. apply_outcome (st_limits s) x (apply_attempt (st_limits s) b st)) s2"
    using t(2) c(2) by (auto simp: state_becomes_def apply_sequence)
  show "durable_wf (st_limits s) (st_state s2)" if "durable_wf (st_limits s) (st_state s)"
    using t c durable_wf_attempt [OF that t(1)] durable_wf_outcome [OF _ c(1)]
    by (auto simp: state_becomes_def)
qed

lemma live_legal:
  assumes "attempt_ok limits a" "\<not> IsTerminalAttemptState (at_state a)"
  shows "TransitionLegal (at_state a) Attempt_Fenced"
  using assms by (cases "at_state a") (simp_all add: attempt_ok_def)

lemma fence_step_moves:
  assumes "engine_inv e" "map_find (cval (at_id a)) (ds_attempts (en_state e)) = Some a"
    "\<not> IsTerminalAttemptState (at_state a)"
    "b = step_attempt Attempt_Fenced now Reason_AttemptFencedByEpochAdvance Reason_None e a"
    "store_TransitionAttempt b (en_store e) = (recorded, s1)"
    "store_CommitOutcome (MakeOutcome b Attempt_Fenced Reason_AttemptFencedByEpochAdvance False now) s1 = (committed, s2)"
  shows "moves e (e\<lparr>en_store := s1\<rparr>)" "moves e (e\<lparr>en_store := s2\<rparr>)"
    "status_ok recorded \<Longrightarrow> status_ok committed \<Longrightarrow> k \<noteq> cval (at_id a) \<Longrightarrow>
       map_find k (ds_attempts (en_state e)) = Some c \<Longrightarrow> \<not> IsTerminalAttemptState (at_state c) \<Longrightarrow>
       map_find k (ds_attempts (st_state s2)) = Some c"
proof -
  have ok: "attempt_ok (en_limits e) a" using engine_inv_attempts(1) assms(1,2) by blast
  have r: "Reason_AttemptFencedByEpochAdvance \<le> Reason_RestartLeasesNotRestored"
    "Reason_None \<le> Reason_RestartLeasesNotRestored" by (simp_all add: word_le_nat_alt)
  note m = settle_moves [OF assms(5) assms(2) assms(4) live_legal [OF ok assms(3)] r]
  show "moves e (e\<lparr>en_store := s1\<rparr>)" using m(1) by simp
  show "moves e (e\<lparr>en_store := s2\<rparr>)" using m(2) assms(6) by blast
  assume st: "status_ok recorded" "status_ok committed" and c: "k \<noteq> cval (at_id a)"
    "map_find k (ds_attempts (en_state e)) = Some c" "\<not> IsTerminalAttemptState (at_state c)"
  have lim: "st_limits (en_store e) = en_limits e" using assms(1) by (simp add: engine_inv_def)
  have bok: "attempt_ok (st_limits (en_store e)) b"
    unfolding assms(4) lim by (rule step_attempt_ok [OF assms(1) ok _ r]) simp
  have "state_becomes (en_store e) (\<lambda>st. apply_outcome (st_limits (en_store e))
      (MakeOutcome b Attempt_Fenced Reason_AttemptFencedByEpochAdvance False now)
      (apply_attempt (st_limits (en_store e)) b st)) s2"
    by (rule settle_state(1) [OF assms(5) st(1) assms(6) st(2) bok MakeOutcome_ok [OF bok r(1)]])
  then show "map_find k (ds_attempts (st_state s2)) = Some c"
    using apply_attempt_find(2) [OF engine_inv_parts(1) [OF assms(1)], of k b c "en_limits e"] c lim
    by (auto simp: state_becomes_def assms(4) fencing.same_id)
qed

lemma fence_loop_moves:
  assumes "fence_loop now as e = (status, e')" "distinct (map at_id as)"
    "\<forall>a \<in> set as. map_find (cval (at_id a)) (ds_attempts (en_state e)) = Some a \<and> \<not> IsTerminalAttemptState (at_state a)"
  shows "moves e e'"
  using assms
proof (induction as arbitrary: e)
  case (Cons a as)
  show ?case
  proof (rule moves_if)
    assume inv: "engine_inv e"
    define b where "b = step_attempt Attempt_Fenced now Reason_AttemptFencedByEpochAdvance Reason_None e a"
    obtain recorded s1 where t: "store_TransitionAttempt b (en_store e) = (recorded, s1)" by force
    obtain committed s2 where c:
      "store_CommitOutcome (MakeOutcome b Attempt_Fenced Reason_AttemptFencedByEpochAdvance False now) s1 = (committed, s2)"
      by force
    have a: "map_find (cval (at_id a)) (ds_attempts (en_state e)) = Some a" "\<not> IsTerminalAttemptState (at_state a)"
      using Cons.prems(3) by simp_all
    note step = fence_step_moves [OF inv a b_def t c]
    let ?e = "e\<lparr>en_store := s2, en_boot_report := (en_boot_report e)\<lparr>br_attempts_fenced := br_attempts_fenced (en_boot_report e) + 1\<rparr>\<rparr>"
    show "moves e e'"
    proof (cases "status_ok recorded \<and> status_ok committed")
      case False
      then show ?thesis
        using Cons.prems(1) t c step(1,2) by (auto simp: b_def [symmetric] Let_def split: if_splits)
    next
      case True
      then have run: "fence_loop now as ?e = (status, e')"
        using Cons.prems(1) t c by (simp add: b_def [symmetric] Let_def)
      have "map_find (cval (at_id d)) (ds_attempts (en_state ?e)) = Some d" if "d \<in> set as" for d
        using that True step(3) [of "cval (at_id d)" d] Cons.prems(2,3)
        by (auto simp: image_iff) (metis counter.expand)
      then have "moves ?e e'" using Cons.IH [OF run] Cons.prems(2,3) by simp
      then show ?thesis using step(2) moves_trans [of e ?e e'] by simp
    qed
  qed
qed simp

text \<open>The closing step of a loop depends on the incarnation and the options of the engine only.\<close>

definition same_incarnation :: "Engine \<Rightarrow> Engine \<Rightarrow> bool" where
  "same_incarnation e e' \<longleftrightarrow> en_live_epoch e' = en_live_epoch e \<and> en_live_boot e' = en_live_boot e \<and>
     en_options e' = en_options e \<and> st_limits (en_store e') = st_limits (en_store e) \<and>
     st_read_only (en_store e') = st_read_only (en_store e)"

lemma same_incarnation_steps:
  assumes "same_incarnation e e'"
  shows "step_attempt target now rsn ver e' = step_attempt target now rsn ver e"
    "restart_attempt now e' = restart_attempt now e"
  using assms
  by (auto simp: same_incarnation_def fun_eq_iff step_attempt_def restart_attempt_def transition_to_def)

definition fence_close :: "UnixMillis \<Rightarrow> Engine \<Rightarrow> AttemptRecord \<Rightarrow> AttemptRecord" where
  "fence_close now e = step_attempt Attempt_Fenced now Reason_AttemptFencedByEpochAdvance Reason_None e"

definition fence_outcome :: "UnixMillis \<Rightarrow> Engine \<Rightarrow> AttemptRecord \<Rightarrow> ReconciliationOutcome" where
  "fence_outcome now e a =
     MakeOutcome (fence_close now e a) Attempt_Fenced Reason_AttemptFencedByEpochAdvance False now"

definition restart_outcome :: "UnixMillis \<Rightarrow> Engine \<Rightarrow> AttemptRecord \<Rightarrow> ReconciliationOutcome" where
  "restart_outcome now e a =
     MakeOutcome (restart_attempt now e a) (restart_target a) (restart_reason a) (at_state a \<noteq> Attempt_Issued) now"

text \<open>Both loops under one interface: a step that closes the first attempt, or stops.\<close>

locale closing_loop =
  fixes loop :: "AttemptRecord list \<Rightarrow> Engine \<Rightarrow> Status \<times> Engine"
    and close :: "Engine \<Rightarrow> AttemptRecord \<Rightarrow> AttemptRecord"
    and out :: "Engine \<Rightarrow> AttemptRecord \<Rightarrow> ReconciliationOutcome"
  assumes stop: "loop [] e = (Status_Ok, e)"
    and run: "loop (a # as) e = (status, e') \<Longrightarrow> status_ok status \<Longrightarrow>
      \<exists>recorded s1 committed s2 report. store_TransitionAttempt (close e a) (en_store e) = (recorded, s1) \<and>
        status_ok recorded \<and> store_CommitOutcome (out e a) s1 = (committed, s2) \<and> status_ok committed \<and>
        loop as (e\<lparr>en_store := s2, en_boot_report := report\<rparr>) = (status, e')"
    and go: "store_TransitionAttempt (close e a) (en_store e) = (Status_Ok, s1) \<Longrightarrow>
      store_CommitOutcome (out e a) s1 = (Status_Ok, s2) \<Longrightarrow>
      \<exists>report. loop (a # as) e = loop as (e\<lparr>en_store := s2, en_boot_report := report\<rparr>)"
    and incarnation: "same_incarnation e e' \<Longrightarrow> close e' = close e" "same_incarnation e e' \<Longrightarrow> out e' = out e"
begin

lemma closes:
  assumes "loop as e = (status, e')" "status_ok status" "st_limits (en_store e) = en_limits e"
    "\<forall>a \<in> set as. attempt_ok (en_limits e) (close e a) \<and> outcome_ok (out e a)"
  shows "\<exists>q. en_state e' = (close_all (en_limits e) (close e) (out e) as (en_state e))\<lparr>ds_sequence := q\<rparr>"
    "same_incarnation e e'"
    "durable_wf (en_limits e) (en_state e) \<Longrightarrow> durable_wf (en_limits e) (en_state e')"
proof -
  have "(\<exists>q. en_state e' = (close_all (en_limits e) (close e) (out e) as (en_state e))\<lparr>ds_sequence := q\<rparr>) \<and>
      same_incarnation e e' \<and> (durable_wf (en_limits e) (en_state e) \<longrightarrow> durable_wf (en_limits e) (en_state e'))"
    using assms
  proof (induction as arbitrary: e)
    case Nil
    then show ?case
      by (auto simp: stop same_incarnation_def intro: exI [of _ "ds_sequence (en_state e)"])
  next
    case (Cons a as)
    obtain recorded s1 committed s2 report where
        t: "store_TransitionAttempt (close e a) (en_store e) = (recorded, s1)" "status_ok recorded"
      and c: "store_CommitOutcome (out e a) s1 = (committed, s2)" "status_ok committed"
      and rest: "loop as (e\<lparr>en_store := s2, en_boot_report := report\<rparr>) = (status, e')"
      using run [OF Cons.prems(1,2)] by blast
    let ?e = "e\<lparr>en_store := s2, en_boot_report := report\<rparr>"
    note st = settle_state [OF t c, unfolded Cons.prems(3)]
    have ok: "attempt_ok (en_limits e) (close e a)" "outcome_ok (out e a)" using Cons.prems(4) by simp_all
    have same: "same_incarnation e ?e"
      using st(1) [OF ok] Cons.prems(3) by (simp add: same_incarnation_def state_becomes_def)
    note closing = incarnation [OF same]
    have IH: "(\<exists>q. en_state e' = (close_all (en_limits ?e) (close ?e) (out ?e) as (en_state ?e))\<lparr>ds_sequence := q\<rparr>) \<and>
        same_incarnation ?e e' \<and> (durable_wf (en_limits ?e) (en_state ?e) \<longrightarrow> durable_wf (en_limits ?e) (en_state e'))"
      by (rule Cons.IH [OF rest Cons.prems(2)])
        (use Cons.prems(3,4) same closing in \<open>simp_all add: same_incarnation_def\<close>)
    have step: "\<exists>q. en_state ?e = (apply_outcome (en_limits e) (out e a) (apply_attempt (en_limits e) (close e a) (en_state e)))
        \<lparr>ds_sequence := q\<rparr>"
      using st(1) [OF ok] by (auto simp: state_becomes_def)
    have "\<exists>q. en_state e' = (close_all (en_limits e) (close e) (out e) (a # as) (en_state e))\<lparr>ds_sequence := q\<rparr>"
      using IH step closing by (auto simp: close_all_sequence)
    moreover have "same_incarnation e e'" using IH same by (auto simp: same_incarnation_def)
    moreover have "durable_wf (en_limits e) (en_state e')" if "durable_wf (en_limits e) (en_state e)"
      using IH st(2) [OF ok that] by simp
    ultimately show ?case by blast
  qed
  then show "\<exists>q. en_state e' = (close_all (en_limits e) (close e) (out e) as (en_state e))\<lparr>ds_sequence := q\<rparr>"
    "same_incarnation e e'"
    "durable_wf (en_limits e) (en_state e) \<Longrightarrow> durable_wf (en_limits e) (en_state e')"
    by blast+
qed

end

interpretation fence_closing: closing_loop "fence_loop now" "fence_close now" "fence_outcome now" for now
  by unfold_locales
    (auto simp: fence_close_def fence_outcome_def Let_def same_incarnation_steps split: prod.splits if_splits)

interpretation restart_closing: closing_loop "restart_loop now" "restart_attempt now" "restart_outcome now" for now
  by unfold_locales
    (auto simp: restart_outcome_def Let_def same_incarnation_steps split: prod.splits if_splits)

end
