(* ===== verification/Guarantees.thy ===== *)
theory Guarantees
  imports Evolution "HOL-Library.Multiset"
begin

text \<open>
  What the engine guarantees to its callers: fences revoke, restarts fence, dispatching is
  idempotent, and along any run of operations attempts, intents and policies only move forwards.
\<close>

section \<open>Fences\<close>

lemma victims_of_table:
  fixes P :: "AttemptRecord \<Rightarrow> bool"
  assumes "durable_wf limits st"
  defines "vs \<equiv> sort_key (\<lambda>a. cval (at_id a)) (filter P (map snd (ds_attempts st)))"
  shows "a \<in> set vs \<longleftrightarrow> map_find (cval (at_id a)) (ds_attempts st) = Some a \<and> P a"
    "distinct (map at_id vs)"
proof -
  let ?m = "ds_attempts st"
  have t: "table_ok (\<lambda>a. cval (at_id a)) (attempt_stored limits) ?m" using assms(1) by (simp add: durable_wf_def)
  then have wf: "wf_map ?m" by (simp add: table_ok_def)
  have key: "k = cval (at_id a)" if "(k, a) \<in> set ?m" for k a
    using that t by (auto simp: table_ok_def)
  have mem: "a \<in> snd ` set ?m \<longleftrightarrow> map_find (cval (at_id a)) ?m = Some a" for a
    using key map_find_iff_mem [OF wf] by force
  then show "a \<in> set vs \<longleftrightarrow> map_find (cval (at_id a)) ?m = Some a \<and> P a"
    by (auto simp: vs_def)
  have eq: "map (\<lambda>a. cval (at_id a)) (map snd ?m) = map fst ?m"
    using key by (force simp: comp_def)
  have "distinct (map (\<lambda>a. cval (at_id a)) (map snd ?m))"
    unfolding eq using wf_map_distinct [OF wf] .
  then have "distinct (map cval (map at_id (map snd ?m)))" by (simp add: comp_def)
  then have "distinct (map at_id (map snd ?m))" using distinct_map by blast
  then have "distinct (map at_id (filter P (map snd ?m)))" by (rule distinct_map_filter)
  moreover have "mset (map at_id vs) = mset (map at_id (filter P (map snd ?m)))"
    by (simp only: vs_def mset_map mset_sort)
  ultimately show "distinct (map at_id vs)" using mset_eq_imp_distinct_iff by blast
qed

lemma fence_victims_table:
  assumes "engine_inv e"
  shows "a \<in> set (fence_victims f (en_state e)) \<longleftrightarrow> map_find (cval (at_id a)) (ds_attempts (en_state e)) = Some a \<and>
      \<not> IsTerminalAttemptState (at_state a) \<and> fence_covers f (at_scope a) (at_subject a) \<and> at_epoch a < fe_fenced_below f"
    "distinct (map at_id (fence_victims f (en_state e)))"
  unfolding fence_victims_def by (rule victims_of_table [OF engine_inv_parts(8) [OF assms]])+

lemma MaybeCompactLocked_tables:
  "en_state (MaybeCompactLocked ck e) = (en_state e)\<lparr>ds_compactions := ds_compactions (en_state (MaybeCompactLocked ck e)),
     ds_sequence := ds_sequence (en_state (MaybeCompactLocked ck e))\<rparr>"
  "en_live_epoch (MaybeCompactLocked ck e) = en_live_epoch e" "en_live_boot (MaybeCompactLocked ck e) = en_live_boot e"
  using Compact_state(1) by (auto simp: MaybeCompactLocked_def Let_def split: prod.split)

lemma MaybeCompactLocked_fields [simp]:
  "ds_attempts (en_state (MaybeCompactLocked ck e)) = ds_attempts (en_state e)"
  "ds_intents (en_state (MaybeCompactLocked ck e)) = ds_intents (en_state e)"
  "ds_observations (en_state (MaybeCompactLocked ck e)) = ds_observations (en_state e)"
  "ds_policy (en_state (MaybeCompactLocked ck e)) = ds_policy (en_state e)"
  "ds_has_policy (en_state (MaybeCompactLocked ck e)) = ds_has_policy (en_state e)"
  "ds_fences (en_state (MaybeCompactLocked ck e)) = ds_fences (en_state e)"
  "ds_outcomes (en_state (MaybeCompactLocked ck e)) = ds_outcomes (en_state e)"
  "ds_next_attempt (en_state (MaybeCompactLocked ck e)) = ds_next_attempt (en_state e)"
  "en_live_epoch (MaybeCompactLocked ck e) = en_live_epoch e"
  "en_live_boot (MaybeCompactLocked ck e) = en_live_boot e"
  by (subst MaybeCompactLocked_tables(1), simp)+ (rule MaybeCompactLocked_tables)+

lemma fence_close_ok:
  assumes "engine_inv e" "attempt_ok (en_limits e) a"
  shows "attempt_ok (en_limits e) (fence_close now e a)" "outcome_ok (fence_outcome now e a)"
proof -
  have r: "Reason_AttemptFencedByEpochAdvance \<le> Reason_RestartLeasesNotRestored"
    "Reason_None \<le> Reason_RestartLeasesNotRestored" by (simp_all add: word_le_nat_alt)
  show ok: "attempt_ok (en_limits e) (fence_close now e a)"
    unfolding fence_close_def by (rule step_attempt_ok [OF assms _ r]) simp
  show "outcome_ok (fence_outcome now e a)"
    unfolding fence_outcome_def by (rule MakeOutcome_ok [OF ok r(1)])
qed

lemma fence_stored_moves:
  assumes "engine_inv e" "fence_ok f" "store_PutFence f (en_store e) = (stored, s')"
  shows "moves e (e\<lparr>en_store := s'\<rparr>)"
    "status_ok stored \<Longrightarrow> state_becomes (en_store e) (apply_fence f) s'"
proof -
  show "moves e (e\<lparr>en_store := s'\<rparr>)" using fence_moves [OF assms(3,2)] .
  assume ok: "status_ok stored"
  have lim: "st_limits (en_store e) = en_limits e" using assms(1) by (simp add: engine_inv_def)
  show "state_becomes (en_store e) (apply_fence f) s'"
    using perform_state [of "Mut_PutFence f" "en_store e" stored s'] assms(2,3) ok encoded_fits(3)
    by (auto simp: fence_stored_def)
qed

lemma engine_PutFence_moves:
  assumes "engine_PutFence ck f e = (status, e')" "fence_ok f"
  shows "moves e e'"
proof (rule moves_if)
  assume inv: "engine_inv e"
  let ?now = "stamp_or (fe_created_unix_ms f) (ck_now ck)"
  let ?f = "f\<lparr>fe_created_unix_ms := ?now\<rparr>"
  obtain stored s1 where put: "store_PutFence ?f (en_store e) = (stored, s1)" by force
  let ?e = "e\<lparr>en_store := s1\<rparr>"
  obtain fenced e2 where loop: "fence_loop ?now (fence_victims ?f (en_state ?e)) ?e = (fenced, e2)" by force
  have fok: "fence_ok ?f" using assms(2) by (simp add: fence_ok_def)
  have m1: "moves e ?e" using fence_stored_moves(1) [OF inv fok put] .
  then have inv1: "engine_inv ?e" using inv by (simp add: moves_def)
  have "moves ?e e2"
    by (rule fence_loop_moves [OF loop fence_victims_table(2) [OF inv1]])
      (use fence_victims_table(1) [OF inv1] in blast)
  then have "moves e e2" using moves_trans [OF m1] by blast
  then show "moves e e'"
    using assms(1) m1 put loop by (auto simp: engine_PutFence_def Let_def split: if_splits)
qed

lemma engine_PutFence_revokes:
  assumes inv: "engine_inv e" and run: "engine_PutFence ck f e = (status, e')" and ok: "status_ok status"
    and fok: "fence_ok f" and b: "map_find k (ds_attempts (en_state e')) = Some b"
    and cov: "fence_covers f (at_scope b) (at_subject b)" "at_epoch b < fe_fenced_below f"
  shows "IsTerminalAttemptState (at_state b)"
proof (rule ccontr)
  assume live: "\<not> IsTerminalAttemptState (at_state b)"
  let ?now = "stamp_or (fe_created_unix_ms f) (ck_now ck)"
  let ?f = "f\<lparr>fe_created_unix_ms := ?now\<rparr>"
  obtain stored s1 where put: "store_PutFence ?f (en_store e) = (stored, s1)" by force
  let ?e = "e\<lparr>en_store := s1\<rparr>"
  let ?vs = "fence_victims ?f (en_state ?e)"
  obtain fenced e2 where loop: "fence_loop ?now ?vs ?e = (fenced, e2)" by force
  have st: "status_ok stored" "status_ok fenced" "e' = MaybeCompactLocked ck e2"
    using run ok put loop by (simp_all add: engine_PutFence_def Let_def split: if_splits) force+
  have fok': "fence_ok ?f" using fok by (simp add: fence_ok_def)
  have inv1: "engine_inv ?e" using fence_stored_moves(1) [OF inv fok' put] inv by (simp add: moves_def)
  have lim: "st_limits (en_store ?e) = en_limits ?e" using inv1 by (simp add: engine_inv_def)
  have vok: "\<forall>a \<in> set ?vs. attempt_ok (en_limits ?e) (fence_close ?now ?e a) \<and> outcome_ok (fence_outcome ?now ?e a)"
  proof
    fix a assume "a \<in> set ?vs"
    then have "attempt_ok (en_limits ?e) a"
      using fence_victims_table(1) [OF inv1] engine_inv_attempts(1) [OF inv1] by blast
    from fence_close_ok [OF inv1 this]
    show "attempt_ok (en_limits ?e) (fence_close ?now ?e a) \<and> outcome_ok (fence_outcome ?now ?e a)" by blast
  qed
  obtain q where e2: "en_state e2 =
      (close_all (en_limits ?e) (fence_close ?now ?e) (fence_outcome ?now ?e) ?vs (en_state ?e))\<lparr>ds_sequence := q\<rparr>"
    using fence_closing.closes(1) [OF loop st(2) lim vok] by blast
  have found: "map_find k (ds_attempts (close_all (en_limits ?e) (fence_close ?now ?e) (fence_outcome ?now ?e) ?vs
      (en_state ?e))) = Some b"
    using b st(3) e2 by simp
  note gone = fencing.close_all_live [OF engine_inv_parts(1) [OF inv1] found [unfolded fence_close_def] live]
  have "cval (at_id b) = k" using engine_inv_attempts(2) [OF inv1 gone(2)] .
  then have "b \<in> set ?vs"
    using fence_victims_table(1) [OF inv1, where a = b] gone(2) live cov by (simp add: fence_covers_def)
  then show False using gone(1) \<open>cval (at_id b) = k\<close> by blast
qed

section \<open>Dispatch\<close>

lemma live_trim:
  assumes "wf_map m"
  shows "filter live_entry (trim_attempts bound m) = filter live_entry m"
proof (rule omap_eqI)
  note spec = trim_attempts_spec [OF assms, of bound]
  have wf: "wf_map (filter live_entry m)" "wf_map (filter live_entry (trim_attempts bound m))"
    using assms spec by (simp_all add: wf_map_def sorted_wrt_map sorted_wrt_filter)
  then show "wf_map (filter live_entry (trim_attempts bound m))" "wf_map (filter live_entry m)" by simp_all
  have "set (filter live_entry (trim_attempts bound m)) = set (filter live_entry m)"
    using spec by auto
  then show "map_find k (filter live_entry (trim_attempts bound m)) = map_find k (filter live_entry m)" for k
    using map_find_iff_mem [OF wf(1)] map_find_iff_mem [OF wf(2)]
    by (metis option.exhaust)
qed

lemma find_append: "find P (xs @ ys) = (case find P xs of None \<Rightarrow> find P ys | Some x \<Rightarrow> Some x)"
  by (induction xs) auto

text \<open>Searching the live attempts after a fresh one was issued.\<close>

lemma find_after_issue:
  assumes "wf_map (ds_attempts st)" "\<forall>k a. map_find k (ds_attempts st) = Some a \<longrightarrow> k < cval (at_id n)"
    "\<And>a. P a \<Longrightarrow> \<not> IsTerminalAttemptState (at_state a)"
  shows "find P (map snd (ds_attempts (apply_attempt limits n st))) =
    (case find P (map snd (ds_attempts st)) of None \<Rightarrow> if P n then Some n else None | Some a \<Rightarrow> Some a)"
proof -
  let ?m = "ds_attempts st"
  let ?m' = "?m @ [(cval (at_id n), n)]"
  have "\<forall>x \<in> set ?m. fst x < cval (at_id n)"
    using assms(2) map_find_iff_mem [OF assms(1)] by (metis prod.collapse)
  then have set: "map_set (cval (at_id n)) n ?m = ?m'" by (rule map_set_at_end)
  have live: "find P (map snd xs) = find P (map snd (filter live_entry xs))" for xs :: "(u64 \<times> AttemptRecord) list"
    by (induction xs) (use assms(3) in auto)
  have wf: "wf_map ?m'" using wf_map_set [OF assms(1), of "cval (at_id n)" n] set by simp
  have "find P (map snd (ds_attempts (apply_attempt limits n st))) =
      find P (map snd (filter live_entry (trim_attempts (max_retained_attempts limits) ?m')))"
    unfolding apply_attempt_table set by (rule live)
  also have "\<dots> = find P (map snd ?m')" unfolding live_trim [OF wf] by (rule live [symmetric])
  finally show ?thesis by (simp add: find_append split: option.split)
qed

definition decision_ok :: "Decision \<Rightarrow> bool" where
  "decision_ok d \<longleftrightarrow> wf_digest (de_idempotency_key d) \<and> valid_id (de_scope d) \<and> valid_id (de_subject d) \<and>
     authority_ok (de_authority d)"

definition plan_ok :: "ReconciliationPlan \<Rightarrow> bool" where
  "plan_ok plan \<longleftrightarrow> (\<forall>d \<in> set (pl_decisions plan). de_disposition d = Disp_Actionable \<longrightarrow> decision_ok d)"

lemma new_attempt_ok:
  assumes "engine_inv e" "decision_ok d"
  shows "attempt_ok (en_limits e) (new_attempt now d e)" "at_id (new_attempt now d e) = ds_next_attempt (en_state e)"
    "at_epoch (new_attempt now d e) = en_live_epoch e" "at_boot (new_attempt now d e) = en_live_boot e"
    "at_idempotency_key (new_attempt now d e) = de_idempotency_key d"
    "at_state (new_attempt now d e) = Attempt_Dispatched"
proof -
  have nz: "cval (ds_next_attempt (en_state e)) \<noteq> 0" using engine_inv_parts(4) [OF assms(1)] .
  show "at_id (new_attempt now d e) = ds_next_attempt (en_state e)"
    using nz by (simp add: new_attempt_def Let_def)
  have "Reason_AttemptIssued \<le> Reason_RestartLeasesNotRestored" by (simp add: word_le_nat_alt)
  then show "attempt_ok (en_limits e) (new_attempt now d e)"
    using assms nz
    by (auto simp: attempt_ok_def new_attempt_def decision_ok_def transition_ok_def engine_inv_def Let_def
        word_le_nat_alt)
qed (simp_all add: new_attempt_def Let_def)

text \<open>The parts of the state that a dispatch reads and never writes.\<close>

definition same_scopes :: "Engine \<Rightarrow> Engine \<Rightarrow> bool" where
  "same_scopes e e' \<longleftrightarrow> ds_fences (en_state e') = ds_fences (en_state e) \<and>
     ds_intents (en_state e') = ds_intents (en_state e) \<and>
     ds_observations (en_state e') = ds_observations (en_state e) \<and>
     ds_policy (en_state e') = ds_policy (en_state e) \<and> ds_has_policy (en_state e') = ds_has_policy (en_state e) \<and>
     en_live_epoch e' = en_live_epoch e \<and> en_live_boot e' = en_live_boot e \<and>
     st_read_only (en_store e') = st_read_only (en_store e)"

lemma same_scopes_FenceHoldsFor: "same_scopes e e' \<Longrightarrow> FenceHoldsFor scope subject epoch e' = FenceHoldsFor scope subject epoch e"
  by (simp add: same_scopes_def FenceHoldsFor_def)

lemma same_scopes_plan_stale: "same_scopes e e' \<Longrightarrow> plan_stale plan e' = plan_stale plan e"
  by (simp add: same_scopes_def plan_stale_def)

lemma issue_step:
  assumes inv: "engine_inv e" and d: "decision_ok d" and room: "cval (ds_next_attempt (en_state e)) \<noteq> - 1"
    and run: "store_IssueAttempt (new_attempt now d e) (en_store e) = (issued, s1)"
  shows "moves e (e\<lparr>en_store := s1\<rparr>)"
    "status_ok issued \<Longrightarrow> ds_next_attempt (st_state s1) = Counter (cval (ds_next_attempt (en_state e)) + 1)"
    "status_ok issued \<Longrightarrow> same_scopes e (e\<lparr>en_store := s1\<rparr>)"
    "status_ok issued \<Longrightarrow> find_issued key (e\<lparr>en_store := s1\<rparr>) = (case find_issued key e of
       None \<Rightarrow> if key = de_idempotency_key d then Some (new_attempt now d e) else None | Some a \<Rightarrow> Some a)"
proof -
  let ?n = "new_attempt now d e"
  note n = new_attempt_ok [OF inv d, of now]
  have lim: "st_limits (en_store e) = en_limits e" using inv by (simp add: engine_inv_def)
  show "moves e (e\<lparr>en_store := s1\<rparr>)"
    by (rule issue_moves [OF run]) (use n room in blast)
  assume ok: "status_ok issued"
  have st: "state_becomes (en_store e) (apply_attempt (en_limits e) ?n) s1"
    using IssueAttempt_state(2) [OF run ok] n(1) lim by simp
  have lineage: "lineage_ok (en_live_epoch e) (en_live_boot e) (en_state e)" using engine_inv_parts(5) [OF inv] .
  show "ds_next_attempt (st_state s1) = Counter (cval (ds_next_attempt (en_state e)) + 1)"
    using attempt_issued(2) [OF engine_inv_parts(1,4) [OF inv] lineage n(2) room n(3,4)] st
    by (auto simp: state_becomes_def)
  show "same_scopes e (e\<lparr>en_store := s1\<rparr>)"
    using st by (auto simp: state_becomes_def same_scopes_def)
  let ?P = "\<lambda>a. at_idempotency_key a = key \<and> at_epoch a = en_live_epoch e \<and> \<not> IsTerminalAttemptState (at_state a)"
  have "find ?P (map snd (ds_attempts (apply_attempt (en_limits e) ?n (en_state e)))) =
      (case find ?P (map snd (ds_attempts (en_state e))) of None \<Rightarrow> if ?P ?n then Some ?n else None | Some a \<Rightarrow> Some a)"
    by (rule find_after_issue [OF engine_inv_parts(1) [OF inv]])
      (use lineage n(2) in \<open>auto simp: lineage_ok_def\<close>)
  then show "find_issued key (e\<lparr>en_store := s1\<rparr>) = (case find_issued key e of
       None \<Rightarrow> if key = de_idempotency_key d then Some ?n else None | Some a \<Rightarrow> Some a)"
    using st n(3,5,6) by (auto simp: find_issued_def state_becomes_def split: option.split)
qed

text \<open>
  A dispatch that succeeded, and what a second one over the same decisions finds: the same
  actions, all of them already issued.
\<close>

definition dispatched_again ::
    "IntentDocument \<Rightarrow> Decision list \<Rightarrow> ActionIntent list \<Rightarrow> Engine \<Rightarrow> bool" where
  "dispatched_again intent ds actions e \<longleftrightarrow>
     (\<forall>now result. \<exists>result'. dispatch_loop now intent ds result e = (Inr result', e) \<and>
        dp_intents result' = dp_intents result @ actions \<and>
        dp_already_issued result' = dp_already_issued result + length actions)"

lemma dispatched_again_skip:
  assumes "de_disposition d \<noteq> Disp_Actionable \<or> FenceHoldsFor (de_scope d) (de_subject d) (en_live_epoch e) e"
    "dispatched_again intent ds actions e"
  shows "dispatched_again intent (d # ds) actions e"
  unfolding dispatched_again_def
proof (intro allI)
  fix now and result :: DispatchResult
  let ?r = "if de_disposition d = Disp_Actionable then result\<lparr>dp_fenced := dp_fenced result + 1\<rparr> else result"
  obtain r' where "dispatch_loop now intent ds ?r e = (Inr r', e)"
    "dp_intents r' = dp_intents ?r @ actions" "dp_already_issued r' = dp_already_issued ?r + length actions"
    using assms(2) unfolding dispatched_again_def by blast
  then show "\<exists>r'. dispatch_loop now intent (d # ds) result e = (Inr r', e) \<and>
      dp_intents r' = dp_intents result @ actions \<and> dp_already_issued r' = dp_already_issued result + length actions"
    using assms(1) by (auto split: if_splits)
qed

lemma dispatched_again_found:
  assumes "de_disposition d = Disp_Actionable" "\<not> FenceHoldsFor (de_scope d) (de_subject d) (en_live_epoch e) e"
    "find_issued (de_idempotency_key d) e = Some a" "dispatched_again intent ds actions e"
  shows "dispatched_again intent (d # ds) (action_of intent a # actions) e"
  unfolding dispatched_again_def
proof (intro allI)
  fix now and result :: DispatchResult
  let ?r = "result\<lparr>dp_intents := dp_intents result @ [action_of intent a], dp_already_issued := dp_already_issued result + 1\<rparr>"
  obtain r' where "dispatch_loop now intent ds ?r e = (Inr r', e)"
    "dp_intents r' = dp_intents ?r @ actions" "dp_already_issued r' = dp_already_issued ?r + length actions"
    using assms(4) unfolding dispatched_again_def by blast
  then show "\<exists>r'. dispatch_loop now intent (d # ds) result e = (Inr r', e) \<and>
      dp_intents r' = dp_intents result @ action_of intent a # actions \<and>
      dp_already_issued r' = dp_already_issued result + length (action_of intent a # actions)"
    using assms(1-3) by simp
qed

lemma same_scopes_trans: "same_scopes e e' \<Longrightarrow> same_scopes e' e'' \<Longrightarrow> same_scopes e e''"
  by (simp add: same_scopes_def)

lemma same_scopes_find_issued:
  "same_scopes e e' \<Longrightarrow> ds_attempts (en_state e') = ds_attempts (en_state e) \<Longrightarrow> find_issued key e' = find_issued key e"
  by (simp add: same_scopes_def find_issued_def)

definition dispatched ::
    "IntentDocument \<Rightarrow> Decision list \<Rightarrow> ActionIntent list \<Rightarrow> Engine \<Rightarrow> Engine \<Rightarrow> bool" where
  "dispatched intent ds actions e e' \<longleftrightarrow> same_scopes e e' \<and>
     (\<forall>key a. find_issued key e = Some a \<longrightarrow> find_issued key e' = Some a) \<and>
     (\<forall>e2. same_scopes e' e2 \<longrightarrow> ds_attempts (en_state e2) = ds_attempts (en_state e') \<longrightarrow>
        dispatched_again intent ds actions e2)"

lemma dispatched_skip:
  assumes "de_disposition d \<noteq> Disp_Actionable \<or> FenceHoldsFor (de_scope d) (de_subject d) (en_live_epoch e) e"
    "dispatched intent ds actions e e'"
  shows "dispatched intent (d # ds) actions e e'"
proof -
  have "dispatched_again intent (d # ds) actions e2"
    if "same_scopes e' e2" "ds_attempts (en_state e2) = ds_attempts (en_state e')" for e2
  proof -
    have "same_scopes e e'" using assms(2) by (simp add: dispatched_def)
    from same_scopes_trans [OF this that(1)] have s2: "same_scopes e e2" .
    have "en_live_epoch e2 = en_live_epoch e" using s2 by (simp add: same_scopes_def)
    then show ?thesis
      using dispatched_again_skip [of d e2 intent ds actions] assms that
      by (simp add: dispatched_def same_scopes_FenceHoldsFor [OF s2])
  qed
  then show ?thesis using assms(2) by (simp add: dispatched_def)
qed

lemma dispatched_step:
  assumes d: "de_disposition d = Disp_Actionable" "\<not> FenceHoldsFor (de_scope d) (de_subject d) (en_live_epoch e) e"
    and same: "same_scopes e e1" and kept: "\<And>key a. find_issued key e = Some a \<Longrightarrow> find_issued key e1 = Some a"
    and found: "find_issued (de_idempotency_key d) e1 = Some a" and rest: "dispatched intent ds actions e1 e'"
  shows "dispatched intent (d # ds) (action_of intent a # actions) e e'"
proof -
  have "same_scopes e1 e'" using rest by (simp add: dispatched_def)
  from same_scopes_trans [OF same this] have se: "same_scopes e e'" .
  have "dispatched_again intent (d # ds) (action_of intent a # actions) e2"
    if e2: "same_scopes e' e2" "ds_attempts (en_state e2) = ds_attempts (en_state e')" for e2
  proof (rule dispatched_again_found)
    have s2: "same_scopes e e2" using se e2(1) same_scopes_trans by blast
    show "\<not> FenceHoldsFor (de_scope d) (de_subject d) (en_live_epoch e2) e2"
      using d(2) same_scopes_FenceHoldsFor [OF s2] s2 by (simp add: same_scopes_def)
    show "find_issued (de_idempotency_key d) e2 = Some a"
      using found rest same_scopes_find_issued [OF e2] by (simp add: dispatched_def)
    show "dispatched_again intent ds actions e2" using rest e2 by (simp add: dispatched_def)
  qed (rule d(1))
  then show ?thesis using se kept rest by (simp add: dispatched_def)
qed

lemma dispatch_loop_effect:
  assumes "dispatch_loop now intent ds r e = (out, e')" "engine_inv e"
    "\<forall>d \<in> set ds. de_disposition d = Disp_Actionable \<longrightarrow> decision_ok d"
    "unat (cval (ds_next_attempt (en_state e))) + length ds < 2 ^ 64"
  shows "moves e e' \<and> (\<forall>r'. out = Inr r' \<longrightarrow>
    (\<exists>actions. dp_intents r' = dp_intents r @ actions \<and> dispatched intent ds actions e e'))"
  using assms
proof (induction ds arbitrary: r e)
  case Nil
  then show ?case by (auto simp: dispatched_def same_scopes_def dispatched_again_def)
next
  case (Cons d ds)
  note inv = Cons.prems(2)
  show ?case
  proof (cases "de_disposition d \<noteq> Disp_Actionable \<or> FenceHoldsFor (de_scope d) (de_subject d) (en_live_epoch e) e")
    case True
    let ?r = "if de_disposition d = Disp_Actionable then r\<lparr>dp_fenced := dp_fenced r + 1\<rparr> else r"
    have "dispatch_loop now intent ds ?r e = (out, e')" using Cons.prems(1) True by (auto split: if_splits)
    from Cons.IH [OF this inv] show ?thesis using Cons.prems(3,4) dispatched_skip [OF True]
      by (auto split: if_splits)
  next
    case False
    then have d: "de_disposition d = Disp_Actionable" "\<not> FenceHoldsFor (de_scope d) (de_subject d) (en_live_epoch e) e"
      and dok: "decision_ok d" using Cons.prems(3) by auto
    show ?thesis
    proof (cases "find_issued (de_idempotency_key d) e")
      case (Some a)
      let ?r = "r\<lparr>dp_intents := dp_intents r @ [action_of intent a], dp_already_issued := dp_already_issued r + 1\<rparr>"
      have run: "dispatch_loop now intent ds ?r e = (out, e')" using Cons.prems(1) d Some by simp
      have "same_scopes e e" by (simp add: same_scopes_def)
      from dispatched_step [OF d this _ Some]
      show ?thesis using Cons.IH [OF run inv] Cons.prems(3,4) by fastforce
    next
      case None
      obtain issued s1 where put: "store_IssueAttempt (new_attempt now d e) (en_store e) = (issued, s1)" by force
      have room: "cval (ds_next_attempt (en_state e)) \<noteq> - 1"
        using Cons.prems(4) by (auto simp: word_eq_iff_unsigned unsigned_minus_1_eq_mask mask_eq_exp_minus_1)
      note st = issue_step [OF inv dok room put]
      show ?thesis
      proof (cases "status_ok issued")
        case False
        then show ?thesis using Cons.prems(1) d None put st(1) by auto
      next
        case True
        let ?r = "r\<lparr>dp_intents := dp_intents r @ [action_of intent (new_attempt now d e)]\<rparr>"
        let ?e = "e\<lparr>en_store := s1, en_stats := (en_stats e)\<lparr>es_actions_dispatched := es_actions_dispatched (en_stats e) + 1\<rparr>\<rparr>"
        have run: "dispatch_loop now intent ds ?r ?e = (out, e')"
          using Cons.prems(1) d None put True by (simp add: Let_def)
        have m: "moves e ?e" using st(1) by simp
        then have inv1: "engine_inv ?e" using inv by (simp add: moves_def)
        have found: "find_issued key ?e = find_issued key (e\<lparr>en_store := s1\<rparr>)" for key by (simp add: find_issued_def)
        have same: "same_scopes e ?e" using st(3) [OF True] by (simp add: same_scopes_def)
        have "unat (cval (ds_next_attempt (en_state ?e))) = unat (cval (ds_next_attempt (en_state e))) + 1"
          using st(2) [OF True] unatSuc [of "cval (ds_next_attempt (en_state e))"] room
          by (simp add: add.commute add_eq_0_iff)
        then have "moves ?e e' \<and> (\<forall>r'. out = Inr r' \<longrightarrow>
            (\<exists>actions. dp_intents r' = dp_intents ?r @ actions \<and> dispatched intent ds actions ?e e'))"
          using Cons.IH [OF run inv1] Cons.prems(3,4) by simp
        moreover have "dispatched intent (d # ds) (action_of intent (new_attempt now d e) # actions) e e'"
          if "dispatched intent ds actions ?e e'" for actions
          by (rule dispatched_step [OF d same _ _ that]) (simp_all add: found st(4) [OF True] None)
        ultimately show ?thesis using moves_trans [OF m] by fastforce
      qed
    qed
  qed
qed

text \<open>A plan the engine built for itself is one it can dispatch.\<close>

lemma stored_documents_ok:
  assumes "engine_inv e"
  shows "map_find scope (ds_intents (en_state e)) = Some d \<Longrightarrow> intent_ok (en_limits e) d \<and> in_scope d = scope"
    "b \<in> set (retained scope e) \<Longrightarrow> observation_ok (en_limits e) b"
proof -
  have t: "table_ok in_scope (intent_stored (en_limits e)) (ds_intents (en_state e))"
    "scope_lists_ok (en_limits e) (observation_stored (en_limits e)) (ds_observations (en_state e))"
    using assms by (simp_all add: engine_inv_def durable_wf_def)
  show "map_find scope (ds_intents (en_state e)) = Some d \<Longrightarrow> intent_ok (en_limits e) d \<and> in_scope d = scope"
    using t(1) by (auto simp: table_ok_def intent_stored_def dest!: map_find_mem)
  show "b \<in> set (retained scope e) \<Longrightarrow> observation_ok (en_limits e) b"
    using t(2) by (cases "map_find scope (ds_observations (en_state e))")
      (auto simp: retained_def lookup_or_def scope_lists_ok_def observation_stored_def list_all_iff dest!: map_find_mem)
qed

lemma selected_documents_ok:
  assumes "engine_inv e"
  shows "is_selected (SelectCurrentIntent (ci_intents (plan_input ck request e))) = Some d \<Longrightarrow> intent_ok (en_limits e) d"
    "os_selected (SelectCurrentObservation (ci_observations (plan_input ck request e))) = Some b \<Longrightarrow>
       observation_ok (en_limits e) b"
proof -
  show "is_selected (SelectCurrentIntent (ci_intents (plan_input ck request e))) = Some d \<Longrightarrow> intent_ok (en_limits e) d"
    using stored_documents_ok(1) [OF assms]
    by (cases "map_find (pq_scope request) (ds_intents (en_state e))")
      (auto simp: plan_input_fields SelectCurrentIntent_single SelectCurrentIntent_none)
  assume "os_selected (SelectCurrentObservation (ci_observations (plan_input ck request e))) = Some b"
  from SelectCurrentObservation_selected(1) [OF this]
  show "observation_ok (en_limits e) b"
    using stored_documents_ok(2) [OF assms] by (auto simp: plan_input_fields)
qed

lemma wf_zero_digest [simp]: "wf_digest zero_digest" by (simp add: zero_digest_def wf_digest_def)

lemma wf_idempotency_key [simp]: "wf_digest (ComputeIdempotencyKey s t a v d x)"
  by (simp add: ComputeIdempotencyKey_def)

lemma BuildAuthority_ok:
  assumes "engine_inv e" "\<And>d. intent = Some d \<Longrightarrow> intent_ok limits d"
    "\<And>d. observation = Some d \<Longrightarrow> observation_ok limits d"
  shows "authority_ok (BuildAuthority (scope_evidence input policy intent observation) e)"
proof -
  have "wf_id (po_id (ds_policy (en_state e)))" "wf_digest (ComputePolicyDigest (ds_policy (en_state e)))"
    using assms(1) by (auto simp: engine_inv_def durable_wf_def policy_stored_def policy_ok_def policy_new_def wf_id_def
        id_empty_def ComputePolicyDigest_def split: if_splits)
  moreover have "wf_boot (en_live_boot e)" using assms(1) by (simp add: engine_inv_def)
  ultimately show ?thesis
    using assms(2,3)
    by (cases intent; cases observation)
      (simp_all add: authority_ok_def BuildAuthority_def scope_evidence_def evidence_new_def intent_ok_def
        observation_ok_def wf_id_def id_empty_def Let_def)
qed

lemma BuildPlanLocked_plan_ok:
  assumes inv: "engine_inv e" and plan: "BuildPlanLocked ck request e = (Inr plan, e')"
  shows "plan_ok plan"
  unfolding plan_ok_def decision_ok_def
proof (intro ballI impI conjI)
  fix d assume d: "d \<in> set (pl_decisions plan)" "de_disposition d = Disp_Actionable"
  let ?in = "plan_input ck request e" and ?policy = "plan_policy request e"
  obtain rep where rep: "ClassifyScope ?in = Inr rep"
    and ds: "pl_decisions plan = map (\<lambda>r. fst (decide (plan_context ?policy ?in (cr_evidence rep) e) e r))
         (take (max_plan_actions (en_limits e)) (cr_records rep))"
    using BuildPlanLocked_parts [OF plan] by blast
  obtain r where r: "d = fst (decide (plan_context ?policy ?in (cr_evidence rep) e) e r)" using d(1) ds by auto
  show "wf_digest (de_idempotency_key d)" by (simp add: r decide_def Let_def split: prod.split)
  have auth: "de_authority d = BuildAuthority (cr_evidence rep) e"
    by (simp add: r decide_def plan_context_def Let_def split: prod.split)
  show "authority_ok (de_authority d)"
    unfolding auth ClassifyScope_evidence [OF rep plan_input_fields(1)]
    by (rule BuildAuthority_ok [OF inv]) (erule selected_documents_ok [OF inv])+
  obtain intent observation r where ev: "plan_evidence ck request e intent observation"
    "r = fst (reference_record ?in ?policy intent observation (de_subject d))"
    "permitted ?policy r (de_action d)" "de_scope d = pq_scope request"
    using actionable_decision [OF engine_inv_parts(8) [OF inv] plan d] by metis
  have docs: "intent_ok (en_limits e) intent" "in_scope intent = pq_scope request" "observation_ok (en_limits e) observation"
    using ev(1) stored_documents_ok [OF inv] by (auto simp: plan_evidence_def)
  show "valid_id (de_scope d)" using docs(1,2) ev(4) by (simp add: intent_ok_def)
  show "valid_id (de_subject d)"
  proof (cases "map_find (de_subject d) (in_subjects intent)")
    case (Some s)
    then show ?thesis using docs(1) map_find_mem [OF Some]
      by (auto simp: intent_ok_def subjects_ok_def subject_intent_ok_def list_all_iff)
  next
    case None
    then obtain s where s: "map_find (de_subject d) (ob_subjects observation) = Some s"
      using ev(2,3) by (cases "map_find (de_subject d) (ob_subjects observation)")
        (auto simp: reference_record_def permitted_def MakeRecord_def)
    then show ?thesis using docs(3) map_find_mem [OF s]
      by (auto simp: observation_ok_def subjects_ok_def subject_observation_ok_def list_all_iff)
  qed
qed

lemma Dispatch_moves:
  assumes "Dispatch ck plan e = (out, e')" "plan_ok plan"
    "unat (cval (ds_next_attempt (en_state e))) + length (pl_decisions plan) < 2 ^ 64"
  shows "moves e e'"
proof (rule moves_if)
  assume inv: "engine_inv e"
  let ?start = "\<lparr>dp_intents = [], dp_fenced = 0, dp_superseded = 0, dp_already_issued = 0\<rparr>"
  show "moves e e'"
  proof (cases "plan_stale plan e")
    case (Some refused)
    then show ?thesis using assms(1) by (simp add: Dispatch_def)
  next
    case fresh: None
    then obtain intent where intent: "map_find (pl_scope plan) (ds_intents (en_state e)) = Some intent"
      by (auto simp: plan_stale_def Let_def split: option.splits if_splits)
    obtain out1 e1 where loop: "dispatch_loop (ck_now ck) intent (pl_decisions plan) ?start e = (out1, e1)" by force
    have "moves e e1"
      using dispatch_loop_effect [OF loop inv] assms(2,3) by (simp add: plan_ok_def)
    then show ?thesis
      using assms(1) fresh intent loop by (auto simp: Dispatch_def split: sum.splits)
  qed
qed

lemma same_scopes_compacted [simp]: "same_scopes e (MaybeCompactLocked ck e)"
proof -
  have "st_read_only (en_store (MaybeCompactLocked ck e)) = st_read_only (en_store e)"
    using Compact_state(3) by (auto simp: MaybeCompactLocked_def Let_def split: prod.split)
  then show ?thesis by (simp add: same_scopes_def)
qed

lemma Dispatch_twice:
  assumes inv: "engine_inv e" and plan: "plan_ok plan"
    and room: "unat (cval (ds_next_attempt (en_state e))) + length (pl_decisions plan) < 2 ^ 64"
    and run: "Dispatch ck plan e = (Inr r, e1)"
  shows "\<exists>r2. Dispatch ck2 plan e1 = (Inr r2, MaybeCompactLocked ck2 e1) \<and> dp_intents r2 = dp_intents r \<and>
    dp_already_issued r2 = length (dp_intents r)"
proof -
  let ?start = "\<lparr>dp_intents = [], dp_fenced = 0, dp_superseded = 0, dp_already_issued = 0\<rparr>"
  have fresh: "plan_stale plan e = None" using run by (cases "plan_stale plan e") (simp_all add: Dispatch_def)
  then obtain intent where intent: "map_find (pl_scope plan) (ds_intents (en_state e)) = Some intent"
    by (auto simp: plan_stale_def Let_def split: option.splits if_splits)
  obtain out e0 where loop: "dispatch_loop (ck_now ck) intent (pl_decisions plan) ?start e = (out, e0)" by force
  have e1: "out = Inr r" "e1 = MaybeCompactLocked ck e0"
    using run fresh intent loop by (auto simp: Dispatch_def split: sum.splits)
  obtain actions where acts: "dp_intents r = actions" "dispatched intent (pl_decisions plan) actions e e0"
    using dispatch_loop_effect [OF loop inv] plan room e1(1) by (auto simp: plan_ok_def)
  have again: "dispatched_again intent (pl_decisions plan) actions e1"
    using acts(2) by (simp add: dispatched_def e1(2))
  have "same_scopes e e0" using acts(2) by (simp add: dispatched_def)
  then have same: "same_scopes e e1" using same_scopes_trans e1(2) by simp
  have stale: "plan_stale plan e1 = None" using same_scopes_plan_stale [OF same] fresh by simp
  have found: "map_find (pl_scope plan) (ds_intents (en_state e1)) = Some intent"
    using same intent by (simp add: same_scopes_def)
  obtain r2 where "dispatch_loop (ck_now ck2) intent (pl_decisions plan) ?start e1 = (Inr r2, e1)"
    "dp_intents r2 = actions" "dp_already_issued r2 = length actions"
    using again unfolding dispatched_again_def by fastforce
  then show ?thesis using stale found acts(1) by (simp add: Dispatch_def)
qed

end
