(* ===== verification/Restart.thy ===== *)
theory Restart
  imports Guarantees
begin

text \<open>
  What a restart guarantees: a fresh epoch, no attempt of an earlier incarnation left live, every
  interrupted attempt closed by an outcome that says whether it may have taken effect, and no
  loss of intents, observations, policy or fences.
\<close>

section \<open>States that can be resumed\<close>

text \<open>What the durable state of any incarnation satisfies, whichever attempts are still live.\<close>

definition resumable :: "RuntimeLimits \<Rightarrow> DurableState \<Rightarrow> bool" where
  "resumable limits st \<longleftrightarrow> durable_wf limits st \<and>
     (\<forall>k a. map_find k (ds_attempts st) = Some a \<longrightarrow> k < cval (ds_next_attempt st) \<and> at_epoch a \<le> ds_last_epoch st) \<and>
     (\<forall>scope. \<forall>d \<in> set (lookup_or [] (map_find scope (ds_observations st))). ob_received_epoch d \<le> ds_last_epoch st)"

lemma engine_inv_resumable: "engine_inv e \<Longrightarrow> resumable (en_limits e) (en_state e)"
  by (auto simp: engine_inv_def lineage_ok_def resumable_def)

lemma resumable_unversioned [simp]:
  "resumable limits (st\<lparr>ds_sequence := q\<rparr>) = resumable limits st"
  "resumable limits (st\<lparr>ds_compactions := n\<rparr>) = resumable limits st"
  by (simp_all add: resumable_def)

text \<open>As \<^const>\<open>evolves\<close>, across restarts: the epoch may advance.\<close>

definition progresses :: "DurableState \<Rightarrow> DurableState \<Rightarrow> bool" where
  "progresses st st' \<longleftrightarrow> ds_last_epoch st \<le> ds_last_epoch st' \<and>
     cval (ds_next_attempt st) \<le> cval (ds_next_attempt st') \<and>
     (\<forall>k < cval (ds_next_attempt st). att_evolves (map_find k (ds_attempts st)) (map_find k (ds_attempts st'))) \<and>
     (\<forall>scope. intent_evolves (map_find scope (ds_intents st)) (map_find scope (ds_intents st'))) \<and>
     (ds_has_policy st \<longrightarrow> ds_has_policy st' \<and>
        (ds_policy st' = ds_policy st \<or> po_version (ds_policy st) < po_version (ds_policy st')))"

lemma evolves_progresses: "evolves st st' \<Longrightarrow> progresses st st'"
  by (simp add: evolves_def progresses_def)

lemma progresses_refl [simp]: "progresses st st" by (simp add: progresses_def)

lemma progresses_trans:
  assumes "progresses a b" "progresses b c"
  shows "progresses a c"
proof -
  have "att_evolves (map_find k (ds_attempts a)) (map_find k (ds_attempts c))"
    if "k < cval (ds_next_attempt a)" for k
    using assms that att_evolves_trans by (fastforce simp: progresses_def)
  moreover have "intent_evolves (map_find scope (ds_intents a)) (map_find scope (ds_intents c))" for scope
    using assms intent_evolves_trans by (fastforce simp: progresses_def)
  moreover have "ds_last_epoch a \<le> ds_last_epoch c" using assms by (auto simp: progresses_def)
  ultimately show ?thesis using assms by (auto simp: progresses_def)
qed

lemma progresses_unversioned [simp]:
  "progresses st (st'\<lparr>ds_sequence := q\<rparr>) = progresses st st'" "progresses (st\<lparr>ds_sequence := q\<rparr>) st' = progresses st st'"
  by (simp_all add: progresses_def)

section \<open>Closing the attempts of the last incarnation\<close>

lemma restart_moved:
  assumes "attempt_ok limits a" "\<not> IsTerminalAttemptState (at_state a)"
  shows "moved a (restart_attempt now e a)"
proof -
  have "TransitionLegal (at_state a) (restart_target a)"
    using assms by (cases "at_state a") (simp_all add: restart_target_def attempt_ok_def)
  then show ?thesis by (auto simp: moved_def restart_attempt_def)
qed

lemma restart_attempt_ok:
  assumes "attempt_ok (en_limits e) a" "wf_boot (en_live_boot e)" "max_attempt_transitions (en_limits e) < 2 ^ 32"
  shows "attempt_ok (en_limits e) (restart_attempt now e a)" "outcome_ok (restart_outcome now e a)"
proof -
  have r: "restart_reason a \<le> Reason_RestartLeasesNotRestored" by (simp add: restart_reason_def word_le_nat_alt)
  show ok: "attempt_ok (en_limits e) (restart_attempt now e a)"
    using assms r
    by (auto simp: attempt_ok_def restart_attempt_def restart_target_def append_if_room_def transition_to_def
        transition_ok_def)
  show "outcome_ok (restart_outcome now e a)"
    unfolding restart_outcome_def by (rule MakeOutcome_ok [OF ok r])
qed

lemma live_attempts_table:
  assumes "durable_wf limits st"
  shows "a \<in> set (live_attempts st) \<longleftrightarrow>
      map_find (cval (at_id a)) (ds_attempts st) = Some a \<and> \<not> IsTerminalAttemptState (at_state a)"
  unfolding live_attempts_def by (rule victims_of_table [OF assms])

text \<open>The state after every live attempt was closed.\<close>

lemma close_live:
  assumes wf: "durable_wf limits st"
    and found: "map_find k (ds_attempts (close_all limits (restart_attempt now e) out (live_attempts st) st)) = Some b"
  shows "IsTerminalAttemptState (at_state b)"
    "\<exists>a. map_find k (ds_attempts st) = Some a \<and> (b = a \<or> moved a b)"
proof -
  have t: "table_ok (\<lambda>a. cval (at_id a)) (attempt_stored limits) (ds_attempts st)"
    using wf by (simp add: durable_wf_def)
  then have m: "wf_map (ds_attempts st)" by (simp add: table_ok_def)
  have at: "cval (at_id a) = k \<and> attempt_ok limits a" if "map_find k (ds_attempts st) = Some a" for k a
    using that t by (auto simp: table_ok_def attempt_stored_def dest!: map_find_mem)
  note cases = restart.close_all_find [OF m found]
  show "\<exists>a. map_find k (ds_attempts st) = Some a \<and> (b = a \<or> moved a b)"
    using cases live_attempts_table [OF wf] at restart_moved by metis
  show "IsTerminalAttemptState (at_state b)"
  proof (rule ccontr)
    assume live: "\<not> IsTerminalAttemptState (at_state b)"
    note gone = restart.close_all_live [OF m found live]
    have "b \<in> set (live_attempts st)" using live_attempts_table [OF wf] gone(2) live at by blast
    then show False using gone(1) at [OF gone(2)] by blast
  qed
qed

lemma close_all_next_attempt:
  assumes "\<forall>a \<in> set as. cval (at_id (close a)) < cval (ds_next_attempt st)"
  shows "ds_next_attempt (close_all limits close out as st) = ds_next_attempt st"
  using assms
proof (induction as arbitrary: st)
  case (Cons a as)
  have "ds_next_attempt (apply_outcome limits (out a) (apply_attempt limits (close a) st)) = ds_next_attempt st"
    using Cons.prems by (auto simp: apply_attempt_def TrimAttempts_def Let_def)
  then show ?case using Cons by simp
qed simp

lemma apply_attempt_epoch:
  "apply_attempt limits a (st\<lparr>ds_last_epoch := n\<rparr>) = (apply_attempt limits a st)\<lparr>ds_last_epoch := n\<rparr>"
  by (cases st) (auto simp: apply_attempt_def TrimAttempts_def Let_def)

lemma close_all_epoch:
  "close_all limits close out as (st\<lparr>ds_last_epoch := n\<rparr>) = (close_all limits close out as st)\<lparr>ds_last_epoch := n\<rparr>"
proof (induction as arbitrary: st)
  case (Cons a as)
  have "apply_outcome limits (out a) (st\<lparr>ds_last_epoch := n\<rparr>) = (apply_outcome limits (out a) st)\<lparr>ds_last_epoch := n\<rparr>" for st
    by (simp add: apply_outcome_def TrimOutcomes_def)
  then show ?case by (simp add: apply_attempt_epoch Cons.IH)
qed simp

section \<open>The new epoch\<close>

text \<open>What the caller of a restart gets, beside the state the previous incarnation left.\<close>

definition epoch_begun :: "DurableState \<Rightarrow> Engine \<Rightarrow> bool" where
  "epoch_begun st e \<longleftrightarrow> engine_inv e \<and> ds_last_epoch st < en_live_epoch e \<and>
     en_live_epoch e = Counter (cval (ds_last_epoch st) + 1) \<and> progresses st (en_state e) \<and>
     (\<forall>k a. map_find k (ds_attempts (en_state e)) = Some a \<longrightarrow> IsTerminalAttemptState (at_state a)) \<and>
     ds_intents (en_state e) = ds_intents st \<and> ds_observations (en_state e) = ds_observations st \<and>
     ds_fences (en_state e) = ds_fences st \<and> ds_policy (en_state e) = ds_policy st \<and>
     ds_has_policy (en_state e) = ds_has_policy st \<and>
     (\<exists>xs. ds_outcomes (en_state e) = trim_front (max_retained_outcomes (en_limits e)) (ds_outcomes st @ xs) \<and>
        list_all2 (\<lambda>a x. oc_attempt x = at_id a \<and> oc_idempotency_key x = at_idempotency_key a \<and>
            oc_terminal_state x = restart_target a \<and> oc_ambiguous x = (at_state a \<noteq> Attempt_Issued))
          (live_attempts st) xs)"

lemma restart_outcome_fields:
  "oc_attempt (restart_outcome now e a) = at_id a" "oc_idempotency_key (restart_outcome now e a) = at_idempotency_key a"
  "oc_terminal_state (restart_outcome now e a) = restart_target a"
  "oc_ambiguous (restart_outcome now e a) = (at_state a \<noteq> Attempt_Issued)"
  by (simp_all add: restart_outcome_def MakeOutcome_def restart_attempt_def)

lemma epoch_fenced:
  assumes run: "restart_loop now (live_attempts st) e = (status, e')" and ok: "status_ok status"
    and st: "resumable (en_limits e) st" "en_state e = st\<lparr>ds_last_epoch := en_live_epoch e, ds_sequence := q\<rparr>"
    and epoch: "en_live_epoch e = Counter (cval (ds_last_epoch st) + 1)" "ds_last_epoch st < en_live_epoch e"
    and lim: "st_limits (en_store e) = en_limits e" "\<not> st_read_only (en_store e)" "wf_boot (en_live_boot e)"
      "0 < max_attempt_transitions (en_limits e)" "max_attempt_transitions (en_limits e) < 2 ^ 32"
  shows "epoch_begun st e'" "en_options e' = en_options e"
proof -
  let ?as = "live_attempts st" and ?close = "restart_attempt now e" and ?out = "restart_outcome now e"
  have wf: "durable_wf (en_limits e) st" using st(1) by (simp add: resumable_def)
  have at: "attempt_ok (en_limits e) a \<and> cval (at_id a) < cval (ds_next_attempt st)" if "a \<in> set ?as" for a
  proof -
    have f: "map_find (cval (at_id a)) (ds_attempts st) = Some a" using that live_attempts_table [OF wf] by blast
    then show ?thesis
      using wf st(1) map_find_mem [OF f] by (auto simp: durable_wf_def table_ok_def attempt_stored_def resumable_def)
  qed
  have oks: "\<forall>a \<in> set ?as. attempt_ok (en_limits e) (?close a) \<and> outcome_ok (?out a)"
    using at restart_attempt_ok lim(3,5) by blast
  note C = restart_closing.closes [OF run ok lim(1) oks]
  let ?st = "close_all (en_limits e) ?close ?out ?as st"
  obtain q' where q': "en_state e' = (close_all (en_limits e) ?close ?out ?as (en_state e))\<lparr>ds_sequence := q'\<rparr>"
    using C(1) by blast
  have e': "en_state e' = ?st\<lparr>ds_last_epoch := en_live_epoch e, ds_sequence := q'\<rparr>"
    unfolding q' st(2) close_all_sequence close_all_epoch by simp
  have same: "en_options e' = en_options e" "en_live_epoch e' = en_live_epoch e" "en_live_boot e' = en_live_boot e"
    "st_limits (en_store e') = st_limits (en_store e)" "st_read_only (en_store e') = st_read_only (en_store e)"
    using C(2) by (simp_all add: same_incarnation_def)
  then show "en_options e' = en_options e" by simp
  have wf': "durable_wf (en_limits e) (en_state e')"
    using C(3) wf by (simp add: st(2) durable_wf_def)
  have next_attempt: "ds_next_attempt ?st = ds_next_attempt st"
    by (rule close_all_next_attempt) (use at restart.same_id in simp)
  have att: "IsTerminalAttemptState (at_state b) \<and> (\<exists>a. map_find k (ds_attempts st) = Some a \<and> (b = a \<or> moved a b))"
    if "map_find k (ds_attempts (en_state e')) = Some b" for k b
    using close_live [OF wf, of k now e ?out b] that by (simp add: e')
  have old: "k < cval (ds_next_attempt st) \<and> at_epoch b \<le> ds_last_epoch st"
    if "map_find k (ds_attempts (en_state e')) = Some b" for k b
    using att [OF that] st(1) moved_fields(6) by (fastforce simp: resumable_def)
  have inv: "engine_inv e'"
    unfolding engine_inv_def lineage_ok_def
    using same lim wf' att old next_attempt epoch(2) st(1)
    by (fastforce simp: e' close_all_other resumable_def)
  have "progresses st (en_state e')"
    using att epoch(2) next_attempt by (auto simp: progresses_def e' close_all_other att_evolves_def)
  moreover have "ds_outcomes (en_state e') =
      trim_front (max_retained_outcomes (en_limits e')) (ds_outcomes st @ map ?out ?as)"
    using wf same(1) by (auto simp: e' close_all_outcomes durable_wf_def trim_front_drop)
  moreover have "list_all2 (\<lambda>a x. oc_attempt x = at_id a \<and> oc_idempotency_key x = at_idempotency_key a \<and>
            oc_terminal_state x = restart_target a \<and> oc_ambiguous x = (at_state a \<noteq> Attempt_Issued)) ?as (map ?out ?as)"
    by (simp add: list_all2_map2 restart_outcome_fields list_all2_same)
  ultimately show "epoch_begun st e'"
    unfolding epoch_begun_def using inv att epoch same by (auto simp: e' close_all_other)
qed

lemma begin_epoch_begun:
  assumes run: "begin_epoch clock e = (status, e')" and ok: "status_ok status"
    and st: "resumable (en_limits e) (en_state e)"
    and lim: "st_limits (en_store e) = en_limits e" "\<not> st_read_only (en_store e)" "wf_boot (en_live_boot e)"
      "0 < max_attempt_transitions (en_limits e)" "max_attempt_transitions (en_limits e) < 2 ^ 32"
  shows "epoch_begun (en_state e) e'" "en_options e' = en_options e"
proof -
  define nxt where "nxt = (Counter (cval (ds_last_epoch (en_state e)) + 1) :: CoordinatorEpoch)"
  obtain advanced s1 where adv: "store_AdvanceEpoch nxt (en_store e) = (advanced, s1)" by force
  define e1 where "e1 = e\<lparr>en_store := s1, en_live_epoch := nxt,
    en_boot_report := (en_boot_report e)\<lparr>br_epoch := nxt, br_boot := en_live_boot e,
      br_notes := br_notes (en_boot_report e) @ [Reason_RestartEpochAdvanced,
                        Reason_RestartFreshnessNotRestored, Reason_RestartLeasesNotRestored]\<rparr>\<rparr>"
  obtain fenced e2 where loop: "restart_loop clock (live_attempts (en_state e1)) e1 = (fenced, e2)" by force
  have oks: "status_ok advanced" "status_ok fenced"
    and e': "\<exists>rep. e' = e2\<lparr>en_boot_report := rep, en_compaction_watermark := ds_sequence (en_state e2)\<rparr>"
    using run ok adv loop
    by (auto simp: begin_epoch_def nxt_def [symmetric] e1_def CommitRestartFencing_def Let_def split: if_splits prod.splits)
  note A = AdvanceEpoch_state [OF adv oks(1)]
  have "cval (ds_last_epoch (en_state e)) < cval nxt" using A(1) by (simp add: less_counter_def)
  then obtain q where st1: "en_state e1 = (en_state e)\<lparr>ds_last_epoch := nxt, ds_sequence := q\<rparr>"
    using A(2) by (auto simp: state_becomes_def apply_epoch_def e1_def)
  have live: "live_attempts (en_state e1) = live_attempts (en_state e)" by (simp add: st1 live_attempts_def)
  have e1: "en_live_epoch e1 = nxt" "en_options e1 = en_options e" "en_live_boot e1 = en_live_boot e"
    "st_limits (en_store e1) = st_limits (en_store e)" "st_read_only (en_store e1) = st_read_only (en_store e)"
    using A(2) by (simp_all add: e1_def state_becomes_def)
  have "epoch_begun (en_state e) e2" "en_options e2 = en_options e1"
    by (rule epoch_fenced [OF loop [unfolded live] oks(2), where q = q];
        use st st1 e1 A(1) lim in \<open>simp add: nxt_def\<close>)+
  moreover have "engine_inv (e2\<lparr>en_boot_report := rep, en_compaction_watermark := w\<rparr>) = engine_inv e2" for rep w
    by (simp add: engine_inv_def)
  ultimately show "epoch_begun (en_state e) e'" "en_options e' = en_options e"
    using e' e1(2) by (auto simp: epoch_begun_def)
qed

lemma restart_loop_boot: "restart_loop now as e = (status, e') \<Longrightarrow> en_live_boot e' = en_live_boot e"
  by (induction as arbitrary: e) (auto simp: Let_def split: if_splits prod.splits)

lemma begin_epoch_boot: "begin_epoch clock e = (status, e') \<Longrightarrow> en_live_boot e' = en_live_boot e"
  by (auto simp: begin_epoch_def CommitRestartFencing_def Let_def dest!: restart_loop_boot split: if_splits prod.splits)

section \<open>Boot\<close>

lemma Store_Open_fields:
  assumes "Store_Open limits create ro gen clock clock' disk = (status, report, s)"
  shows "st_limits s = limits" "st_read_only s = ro"
  using assms
  by (auto simp: Store_Open_def open_locked_def store_Close_def Let_def split: if_splits prod.splits sum.splits)

lemma install_policy_effect:
  assumes run: "install_policy e = (status, e')" and ok: "status_ok status"
    and st: "resumable (en_limits e) (en_state e)" "st_limits (en_store e) = en_limits e"
    and typed: "policy_typed (eo_initial_policy (en_options e))"
  shows "resumable (en_limits e) (en_state e')" "progresses (en_state e) (en_state e')"
    "ds_has_policy (en_state e')" "ds_has_policy (en_state e) \<Longrightarrow> e' = e"
    "ds_attempts (en_state e') = ds_attempts (en_state e)" "ds_last_epoch (en_state e') = ds_last_epoch (en_state e)"
    "\<exists>s. e' = e\<lparr>en_store := s\<rparr> \<and> st_limits s = st_limits (en_store e) \<and> st_read_only s = st_read_only (en_store e)"
proof -
  show "ds_has_policy (en_state e) \<Longrightarrow> e' = e" using run by (simp add: install_policy_def)
  have "resumable (en_limits e) (en_state e') \<and> progresses (en_state e) (en_state e') \<and> ds_has_policy (en_state e') \<and>
    ds_attempts (en_state e') = ds_attempts (en_state e) \<and> ds_last_epoch (en_state e') = ds_last_epoch (en_state e) \<and>
    (\<exists>s. e' = e\<lparr>en_store := s\<rparr> \<and> st_limits s = st_limits (en_store e) \<and> st_read_only s = st_read_only (en_store e))"
  proof (cases "ds_has_policy (en_state e)")
    case True
    then have "e' = e\<lparr>en_store := en_store e\<rparr>" using run by (simp add: install_policy_def)
    then show ?thesis using st True by (intro conjI exI [of _ "en_store e"]) simp_all
  next
    case False
    let ?initial = "if id_empty (po_id (eo_initial_policy (en_options e))) then DefaultPolicy
      else eo_initial_policy (en_options e)"
    obtain c p where c: "CanonicalisePolicy (en_limits e) ?initial = (c, p)" by force
    obtain put s1 where put: "store_PutPolicy p (en_store e) = (put, s1)" by force
    have oks: "status_ok c" "status_ok put" and e': "e' = e\<lparr>en_store := s1\<rparr>"
      using run ok False c put by (auto simp: install_policy_def Let_def split: if_splits)
    have "policy_typed DefaultPolicy"
      by (simp add: policy_typed_def DefaultPolicy_def wf_id_def valid_id_def, code_simp)
    then have "policy_ok (en_limits e) p" using CanonicalisePolicy_typed [OF _ c oks(1)] typed by simp
    then have valid: "mutation_valid (en_limits e) (Mut_PutPolicy p)"
      using put oks(2) encoded_fits(4) perform_durable_put [of "Mut_PutPolicy p" "en_store e" put s1] durable_put_encoded
      by (fastforce simp: policy_stored_def)
    have becomes: "state_becomes (en_store e) (apply_policy p) s1"
      using perform_state [of "Mut_PutPolicy p" "en_store e" put s1] put oks(2) valid st(2) by simp
    have "durable_wf (en_limits e) (apply_policy p (en_state e))"
      using any_record.keeps [OF valid] st(1) by (simp add: resumable_def)
    then have "resumable (en_limits e) (apply_policy p (en_state e))"
      using st(1) by (simp add: resumable_def apply_policy_def)
    then show ?thesis
      using becomes False by (auto simp: e' state_becomes_def apply_policy_def progresses_def)
  qed
  then show "resumable (en_limits e) (en_state e')" "progresses (en_state e) (en_state e')"
    "ds_has_policy (en_state e')"
    "ds_attempts (en_state e') = ds_attempts (en_state e)" "ds_last_epoch (en_state e') = ds_last_epoch (en_state e)"
    "\<exists>s. e' = e\<lparr>en_store := s\<rparr> \<and> st_limits s = st_limits (en_store e) \<and> st_read_only s = st_read_only (en_store e)"
    by blast+
qed

lemma Boot_begins_epoch:
  assumes boot: "Boot options gen boot clock ck disk = (status, e)" and ok: "status_ok status"
    and rw: "\<not> eo_read_only options"
    and opened: "Store_Open (eo_limits options) (eo_create_if_missing options) False gen (ck_header ck) (ck_report ck) disk =
      (Status_Ok, report, s)"
    and st: "resumable (eo_limits options) (st_state s)"
    and typed: "policy_typed (eo_initial_policy options)" "wf_boot boot"
    and lim: "0 < max_attempt_transitions (eo_limits options)" "max_attempt_transitions (eo_limits options) < 2 ^ 32"
  shows "\<exists>st. epoch_begun st e \<and> resumable (eo_limits options) st \<and> progresses (st_state s) st \<and>
      ds_attempts st = ds_attempts (st_state s) \<and> ds_last_epoch st = ds_last_epoch (st_state s) \<and>
      (ds_has_policy (st_state s) \<longrightarrow> st = st_state s)"
    "en_options e = options" "en_live_boot e = boot"
proof -
  define e0 where "e0 = \<lparr>en_store = s, en_options = options, en_boot_report = boot_report_of report s,
               en_stats = stats_new, en_live_epoch = Counter 0, en_live_boot = boot,
               en_compaction_watermark = Counter 0\<rparr>"
  obtain installed e1 where inst: "install_policy e0 = (installed, e1)" by force
  have ok1: "status_ok installed" and epoch: "begin_epoch clock e1 = (status, e)"
    using boot ok rw opened inst by (auto simp: Boot_def e0_def Let_def split: if_splits)
  note f = Store_Open_fields [OF opened]
  note I = install_policy_effect [OF inst ok1]
  have e0: "en_limits e0 = eo_limits options" "en_state e0 = st_state s" "en_store e0 = s" "en_options e0 = options"
    "en_live_boot e0 = boot"
    by (simp_all add: e0_def)
  have I': "resumable (eo_limits options) (en_state e1)" "progresses (st_state s) (en_state e1)"
    "ds_has_policy (st_state s) \<Longrightarrow> e1 = e0" "ds_attempts (en_state e1) = ds_attempts (st_state s)"
    "ds_last_epoch (en_state e1) = ds_last_epoch (st_state s)"
    "\<exists>s'. e1 = e0\<lparr>en_store := s'\<rparr> \<and> st_limits s' = st_limits s \<and> st_read_only s' = st_read_only s"
    using I st typed(1) f by (simp_all add: e0)
  then have e1: "en_options e1 = options" "en_live_boot e1 = boot" "st_limits (en_store e1) = eo_limits options"
    "\<not> st_read_only (en_store e1)"
    using f e0 by auto
  have "epoch_begun (en_state e1) e" "en_options e = en_options e1"
    by (rule begin_epoch_begun [OF epoch ok]; use I'(1) e1 lim typed(2) in simp)+
  then show "\<exists>st. epoch_begun st e \<and> resumable (eo_limits options) st \<and> progresses (st_state s) st \<and>
      ds_attempts st = ds_attempts (st_state s) \<and> ds_last_epoch st = ds_last_epoch (st_state s) \<and>
      (ds_has_policy (st_state s) \<longrightarrow> st = st_state s)" "en_options e = options"
    using I' e0(2) e1(1) by auto
  show "en_live_boot e = boot"
    using begin_epoch_boot [OF epoch] e1(2) by simp
qed

text \<open>Neither freshness nor the authority to mutate survives a restart.\<close>

lemma restart_no_actions:
  assumes begun: "epoch_begun st e" and st: "resumable limits st"
    and plan: "BuildPlanLocked ck request e = (Inr plan, e')" and d: "d \<in> set (pl_decisions plan)"
  shows "de_disposition d \<noteq> Disp_Actionable"
proof
  assume act: "de_disposition d = Disp_Actionable"
  have inv: "engine_inv e" using begun by (simp add: epoch_begun_def)
  obtain intent observation where ev: "plan_evidence ck request e intent observation"
    "ob_received_epoch observation = en_live_epoch e"
    using actionable_decision [OF engine_inv_parts(8) [OF inv] plan d act] by metis
  have "observation \<in> set (lookup_or [] (map_find (pq_scope request) (ds_observations st)))"
    using ev(1) begun by (simp add: plan_evidence_def retained_def epoch_begun_def)
  then have "ob_received_epoch observation \<le> ds_last_epoch st" using st unfolding resumable_def by blast
  moreover have "ds_last_epoch st < en_live_epoch e" using begun unfolding epoch_begun_def by (elim conjE)
  ultimately show False using ev(2) by simp
qed

section \<open>The life of a coordinator\<close>

text \<open>
  The operations of the engine, each with the arguments its callers can build: documents and
  policies made of parsed identities, fences and reasons of the declared ranges, plans that were
  built by an engine, and attempt identities that are not about to run out. Every operation may
  fail, wherever the injected faults of the journal and of the snapshot files make it fail.
\<close>

inductive engine_step :: "Engine \<Rightarrow> Engine \<Rightarrow> bool" where
  step_PutPolicy: "engine_PutPolicy p same e = (status, e') \<Longrightarrow> policy_typed p \<Longrightarrow> engine_step e e'"
| step_CommitIntent: "engine_CommitIntent ck d e = (status, x, e') \<Longrightarrow> intent_typed d \<Longrightarrow> engine_step e e'"
| step_RecordObservationAt: "RecordObservationAt ck s at_ms e = (status, y, e') \<Longrightarrow> submission_typed s \<Longrightarrow> engine_step e e'"
| step_Classify: "Classify ck scope at_ms e = (report, e') \<Longrightarrow> engine_step e e'"
| step_Plan: "engine_Plan ck pq e = (plan, e') \<Longrightarrow> engine_step e e'"
| step_Dispatch: "Dispatch ck plan e = (result, e') \<Longrightarrow> plan_ok plan \<Longrightarrow>
    unat (cval (ds_next_attempt (en_state e))) + length (pl_decisions plan) < 2 ^ 64 \<Longrightarrow> engine_step e e'"
| step_Complete: "Complete ck cq e = (status, z, e') \<Longrightarrow> cq_reason cq \<le> Reason_RestartLeasesNotRestored \<Longrightarrow>
    engine_step e e'"
| step_Verify: "Verify ck v e = (status, w, e') \<Longrightarrow> engine_step e e'"
| step_PutFence: "engine_PutFence ck f e = (status, e') \<Longrightarrow> fence_ok f \<Longrightarrow> engine_step e e'"
| step_ClearFence: "engine_ClearFence i e = (status, e') \<Longrightarrow> engine_step e e'"
| step_Compact: "engine_Compact ck e = (status, e') \<Longrightarrow> engine_step e e'"
| step_Flush: "Flush e = (status, e') \<Longrightarrow> engine_step e e'"
| step_environment: "engine_step e (e\<lparr>en_store := (en_store e)\<lparr>st_journal := (st_journal (en_store e))\<lparr>j_faults := fs\<rparr>,
       st_files := (st_files (en_store e))\<lparr>sf_faults := fs'\<rparr>\<rparr>\<rparr>)"

lemma classification_moves:
  "Classify ck scope at_ms e = (report, e') \<Longrightarrow> moves e e'" "engine_Plan ck request e = (plan, e') \<Longrightarrow> moves e e'"
proof -
  show "Classify ck scope at_ms e = (report, e') \<Longrightarrow> moves e e'"
    by (auto simp: Classify_def ClassifyLocked_def split: if_splits sum.splits)
  show "engine_Plan ck request e = (plan, e') \<Longrightarrow> moves e e'"
    by (auto simp: engine_Plan_def BuildPlanLocked_def Let_def split: if_splits sum.splits prod.splits)
qed

lemma environment_moves:
  "moves e (e\<lparr>en_store := (en_store e)\<lparr>st_journal := j, st_files := files\<rparr>\<rparr>)"
  by (simp add: moves_def engine_inv_def)

lemmas operation_moves = engine_PutPolicy_moves engine_CommitIntent_moves RecordObservationAt_moves
  classification_moves Dispatch_moves Complete_moves Verify_moves engine_PutFence_moves engine_ClearFence_moves
  engine_Compact_moves Flush_moves environment_moves

lemma engine_step_moves: "engine_step e e' \<Longrightarrow> moves e e'"
  by (erule engine_step.cases) (blast intro: operation_moves)+

text \<open>
  The process ends at any moment and a coordinator is booted from files that hold the durable
  state it left: what the store guarantees of every run, with whatever compaction was published.
\<close>

definition reopens_to :: "Engine \<Rightarrow> DurableStore \<Rightarrow> bool" where
  "reopens_to e s \<longleftrightarrow> (\<exists>q n. st_state s = (en_state e)\<lparr>ds_compactions := n, ds_sequence := q\<rparr>)"

inductive life :: "Engine \<Rightarrow> Engine \<Rightarrow> bool" for e0 where
  life_start: "life e0 e0"
| life_step: "life e0 e \<Longrightarrow> engine_step e e' \<Longrightarrow> life e0 e'"
| life_restart: "life e0 e \<Longrightarrow> reopens_to e s \<Longrightarrow>
    Store_Open (eo_limits options) (eo_create_if_missing options) False gen (ck_header ck) (ck_report ck) disk =
      (Status_Ok, report, s) \<Longrightarrow>
    Boot options gen boot clock ck disk = (status, e') \<Longrightarrow> status_ok status \<Longrightarrow> options = en_options e \<Longrightarrow>
    \<not> eo_read_only options \<Longrightarrow> wf_boot boot \<Longrightarrow> policy_typed (eo_initial_policy options) \<Longrightarrow> life e0 e'"

lemma life_progresses:
  assumes "life e0 e" "engine_inv e0"
  shows "engine_inv e \<and> progresses (en_state e0) (en_state e) \<and> en_live_epoch e0 \<le> en_live_epoch e"
  using assms
proof (induction rule: life.induct)
  case life_start
  then show ?case by simp
next
  case (life_step e e')
  have m: "moves e e'" by (rule engine_step_moves [OF life_step.hyps(2)])
  have inv: "engine_inv e" "progresses (en_state e0) (en_state e)" "en_live_epoch e0 \<le> en_live_epoch e"
    using life_step.IH life_step.prems by simp_all
  then have "evolves (en_state e) (en_state e')" "engine_inv e'" "en_live_epoch e' = en_live_epoch e"
    using m by (simp_all add: moves_def)
  then show ?case using inv evolves_progresses progresses_trans by metis
next
  case (life_restart e s options gen ck disk report boot clock status e')
  have inv: "engine_inv e" "progresses (en_state e0) (en_state e)" "en_live_epoch e0 \<le> en_live_epoch e"
    using life_restart.IH life_restart.prems by simp_all
  obtain q n where s: "st_state s = (en_state e)\<lparr>ds_compactions := n, ds_sequence := q\<rparr>"
    using life_restart.hyps(2) by (auto simp: reopens_to_def)
  have res: "resumable (eo_limits options) (st_state s)"
    using engine_inv_resumable [OF inv(1)] life_restart.hyps(6) by (simp add: s)
  have lim: "0 < max_attempt_transitions (eo_limits options)" "max_attempt_transitions (eo_limits options) < 2 ^ 32"
    using inv(1) life_restart.hyps(6) by (simp_all add: engine_inv_def)
  obtain st where st: "epoch_begun st e'" "progresses (st_state s) st" "ds_last_epoch st = ds_last_epoch (st_state s)"
    using Boot_begins_epoch(1) [OF life_restart.hyps(4,5,7,3) res life_restart.hyps(9,8) lim] by blast
  have "progresses (en_state e) (st_state s)" by (simp add: s progresses_def)
  moreover have "progresses st (en_state e')" using st(1) by (simp add: epoch_begun_def)
  ultimately have "progresses (en_state e) (en_state e')" using st(2) progresses_trans by blast
  moreover have "ds_last_epoch (en_state e) = en_live_epoch e" using inv(1) by (simp add: engine_inv_def lineage_ok_def)
  then have "en_live_epoch e < en_live_epoch e'" using st(1,3) unfolding epoch_begun_def by (elim conjE) (simp add: s)
  moreover have "engine_inv e'" using st(1) by (simp add: epoch_begun_def)
  ultimately show ?case using inv(2,3) progresses_trans by (metis less_imp_le order_trans)
qed

end
