(* ===== verification/Contracts.thy ===== *)
theory Contracts
  imports Restart
begin

text \<open>
  The contracts of single operations: under which conditions an operation is acknowledged, and
  the exact change of the durable tables that an acknowledgement stands for.
\<close>

section \<open>Tables\<close>

text \<open>Two states with the same tables: only the journal position and the compaction count differ.\<close>

definition agrees :: "DurableState \<Rightarrow> DurableState \<Rightarrow> bool" where
  "agrees st st' \<longleftrightarrow> (\<exists>n q. st' = st\<lparr>ds_compactions := n, ds_sequence := q\<rparr>)"

lemma agrees_tables:
  assumes "agrees st st'"
  shows "ds_attempts st' = ds_attempts st" "ds_outcomes st' = ds_outcomes st" "ds_intents st' = ds_intents st"
    "ds_observations st' = ds_observations st" "ds_fences st' = ds_fences st" "ds_next_attempt st' = ds_next_attempt st"
    "ds_last_epoch st' = ds_last_epoch st" "ds_policy st' = ds_policy st" "ds_has_policy st' = ds_has_policy st"
  using assms by (auto simp: agrees_def)

lemma agrees_compacted: "agrees st (en_state e) \<Longrightarrow> agrees st (en_state (MaybeCompactLocked ck e))"
  using MaybeCompactLocked_tables(1) [of ck e] unfolding agrees_def by force

lemma state_becomes_agrees:
  assumes "state_becomes s f s'"
  shows "agrees (f (st_state s)) (st_state s')"
proof -
  obtain q where "st_state s' = (f (st_state s))\<lparr>ds_sequence := q\<rparr>" using assms by (auto simp: state_becomes_def)
  then have "st_state s' = (f (st_state s))\<lparr>ds_compactions := ds_compactions (f (st_state s)), ds_sequence := q\<rparr>"
    by simp
  then show ?thesis unfolding agrees_def by blast
qed

text \<open>A transition with its outcome, acknowledged.\<close>

lemma settled_agrees:
  assumes "store_TransitionAttempt b s = (recorded, s1)" "status_ok recorded"
    "store_CommitOutcome x s1 = (committed, s2)" "status_ok committed" "attempt_ok (st_limits s) b" "outcome_ok x"
  shows "agrees (apply_outcome (st_limits s) x (apply_attempt (st_limits s) b (st_state s))) (st_state s2)"
  using state_becomes_agrees [OF settle_state(1) [OF assms]] .

section \<open>Completing an attempt\<close>

definition complete_reason :: "CompletionRequest \<Rightarrow> ReasonCode" where
  "complete_reason rq = (if cq_reason rq \<noteq> Reason_None then cq_reason rq else ReasonOfAttempt (cq_target rq))"

definition completed :: "Clocks \<Rightarrow> CompletionRequest \<Rightarrow> Engine \<Rightarrow> AttemptRecord \<Rightarrow> AttemptRecord" where
  "completed ck rq e a =
     step_attempt (cq_target rq) (stamp_or (cq_at_unix_ms rq) (ck_now ck)) (complete_reason rq) Reason_None e a"

definition completed_outcome :: "Clocks \<Rightarrow> CompletionRequest \<Rightarrow> Engine \<Rightarrow> AttemptRecord \<Rightarrow> ReconciliationOutcome" where
  "completed_outcome ck rq e a =
     MakeOutcome (completed ck rq e a) (cq_target rq) (complete_reason rq)
       (IsTerminalAttemptState (cq_target rq) \<and> IsInconclusiveTerminalState (cq_target rq))
       (stamp_or (cq_at_unix_ms rq) (ck_now ck))"

lemma complete_reason_ok:
  "cq_reason rq \<le> Reason_RestartLeasesNotRestored \<Longrightarrow> complete_reason rq \<le> Reason_RestartLeasesNotRestored"
  by (cases "cq_target rq") (simp_all add: complete_reason_def word_le_nat_alt)

text \<open>The guards of an acknowledged completion: the attempt of the request, of this incarnation, still live.\<close>

definition completable :: "CompletionRequest \<Rightarrow> Engine \<Rightarrow> AttemptRecord \<Rightarrow> bool" where
  "completable rq e a \<longleftrightarrow> map_find (cval (cq_attempt rq)) (ds_attempts (en_state e)) = Some a \<and>
     at_idempotency_key a = cq_idempotency_key rq \<and>
     cq_epoch rq = en_live_epoch e \<and> cq_boot rq = en_live_boot e \<and>
     at_epoch a = en_live_epoch e \<and> at_boot a = en_live_boot e \<and>
     \<not> IsTerminalAttemptState (at_state a) \<and> TransitionLegal (at_state a) (cq_target rq)"

lemma Complete_contract:
  assumes inv: "engine_inv e" and run: "Complete ck rq e = (status, out, e')" and ok: "status_ok status"
    and reason: "cq_reason rq \<le> Reason_RestartLeasesNotRestored"
  shows "\<exists>a. completable rq e a \<and> out = Some (completed_outcome ck rq e a) \<and>
    agrees (if IsTerminalAttemptState (cq_target rq)
            then apply_outcome (en_limits e) (completed_outcome ck rq e a)
                   (apply_attempt (en_limits e) (completed ck rq e a) (en_state e))
            else apply_attempt (en_limits e) (completed ck rq e a) (en_state e)) (en_state e')"
proof -
  obtain a where a: "completable rq e a" "complete_attempt ck rq a e = (status, out, e')"
    using run ok by (auto simp: Complete_def completable_def split: if_splits option.splits)
  let ?b = "completed ck rq e a" and ?x = "completed_outcome ck rq e a"
  have found: "map_find (cval (cq_attempt rq)) (ds_attempts (en_state e)) = Some a" and legal: "TransitionLegal (at_state a) (cq_target rq)"
    using a(1) by (simp_all add: completable_def)
  have lim: "st_limits (en_store e) = en_limits e" using inv by (simp add: engine_inv_def)
  have target: "cq_target rq \<noteq> Attempt_Invalid" using legal by (cases "at_state a") auto
  have none: "Reason_None \<le> Reason_RestartLeasesNotRestored" by (simp add: word_le_nat_alt)
  have bok: "attempt_ok (st_limits (en_store e)) ?b"
    unfolding completed_def lim
    by (rule step_attempt_ok [OF inv engine_inv_attempts(1) [OF inv found] target complete_reason_ok [OF reason] none])
  have xok: "outcome_ok ?x"
    unfolding completed_outcome_def by (rule MakeOutcome_ok [OF bok complete_reason_ok [OF reason]])
  have state: "at_state ?b = cq_target rq" by (simp add: completed_def step_attempt_def)
  obtain recorded s1 where t: "store_TransitionAttempt ?b (en_store e) = (recorded, s1)" by force
  obtain committed s2 where c: "store_CommitOutcome ?x s1 = (committed, s2)" by force
  note step = a(2) [unfolded complete_attempt_def Let_def, folded complete_reason_def, folded completed_def]
  have rec: "status_ok recorded" using step t ok by (auto split: if_splits)
  show ?thesis
  proof (cases "IsTerminalAttemptState (cq_target rq)")
    case True
    have "status_ok committed \<and> out = Some ?x \<and> e' = MaybeCompactLocked ck ((bump_completions_accepted (e\<lparr>en_store := s1\<rparr>))\<lparr>en_store := s2\<rparr>)"
      using step t c rec ok True
      by (auto simp: state completed_outcome_def bump_completions_accepted_def split: if_splits)
    then show ?thesis
      using a(1) True settled_agrees [OF t rec c _ bok xok] lim
      by (auto simp: bump_completions_accepted_def intro!: exI [of _ a] agrees_compacted)
  next
    case False
    have "out = Some ?x \<and> e' = MaybeCompactLocked ck (bump_completions_accepted (e\<lparr>en_store := s1\<rparr>))"
      using step t rec ok False by (auto simp: state completed_outcome_def split: if_splits)
    then show ?thesis
      using a(1) False state_becomes_agrees [OF TransitionAttempt_state(2) [OF t rec bok]] lim
      by (auto simp: bump_completions_accepted_def intro!: exI [of _ a] agrees_compacted)
  qed
qed

text \<open>A completion whose guards fail changes no table and is not counted as accepted.\<close>

lemma Complete_refused:
  assumes "\<not> st_read_only (en_store e)" "\<nexists>a. completable rq e a"
    "Complete ck rq e = (status, out, e')"
  shows "\<not> status_ok status" "out = None" "en_store e' = en_store e"
  using assms
  by (auto simp: Complete_def completable_def bump_rejected_late_def bump_duplicate_completions_def
      split: if_splits option.splits)

text \<open>An attempt is closed at most once.\<close>

lemma Complete_once:
  assumes inv: "engine_inv e" and run: "Complete ck rq e = (status, out, e')" and ok: "status_ok status"
    and reason: "cq_reason rq \<le> Reason_RestartLeasesNotRestored" and closed: "IsTerminalAttemptState (cq_target rq)"
    and same: "cq_attempt rq' = cq_attempt rq" and run': "Complete ck' rq' e' = (status', out', e'')"
  shows "\<not> status_ok status'" "en_store e'' = en_store e'"
proof -
  obtain a where a: "completable rq e a" and st: "agrees (apply_outcome (en_limits e) (completed_outcome ck rq e a)
                   (apply_attempt (en_limits e) (completed ck rq e a) (en_state e))) (en_state e')"
    using Complete_contract [OF inv run ok reason] closed by auto
  have "cval (at_id a) = cval (cq_attempt rq)"
    using a engine_inv_attempts(2) [OF inv] by (simp add: completable_def)
  then have id: "cval (at_id (completed ck rq e a)) = cval (cq_attempt rq)" by (simp add: completed_def step_attempt_def)
  have "b = completed ck rq e a" if "map_find (cval (cq_attempt rq)) (ds_attempts (en_state e')) = Some b" for b
    using apply_attempt_find(3) [OF engine_inv_parts(1) [OF inv], of "completed ck rq e a" "en_limits e" b] that
    by (simp add: agrees_tables(1) [OF st] id)
  then have "\<nexists>b. completable rq' e' b"
    using closed same by (auto simp: completable_def completed_def step_attempt_def)
  moreover have "engine_inv e'" using Complete_moves [OF run reason] inv by (simp add: moves_def)
  then have "\<not> st_read_only (en_store e')" by (simp add: engine_inv_def)
  ultimately show "\<not> status_ok status'" "en_store e'' = en_store e'"
    using Complete_refused [OF _ _ run'] by blast+
qed

section \<open>Verifying an attempt\<close>

definition verified :: "Clocks \<Rightarrow> VerificationEvidence \<Rightarrow> Engine \<Rightarrow> AttemptRecord \<Rightarrow> AttemptRecord" where
  "verified ck v e a =
     step_attempt (if ve_confirms_effect v then Attempt_Verified else Attempt_Failed)
       (stamp_or (ve_received_unix_ms v) (ck_later ck))
       (if ve_confirms_effect v then Reason_AttemptVerified else Reason_AttemptFailed)
       (if ve_confirms_effect v then Reason_AttemptVerified else Reason_VerificationNotNewer) e a"

definition verified_outcome :: "Clocks \<Rightarrow> VerificationEvidence \<Rightarrow> Engine \<Rightarrow> AttemptRecord \<Rightarrow> ReconciliationOutcome" where
  "verified_outcome ck v e a =
     (MakeOutcome (verified ck v e a) (if ve_confirms_effect v then Attempt_Verified else Attempt_Failed)
        (if ve_confirms_effect v then Reason_AttemptVerified else Reason_AttemptFailed) (\<not> ve_confirms_effect v)
        (stamp_or (ve_received_unix_ms v) (ck_later ck)))\<lparr>oc_verified_generation := ve_generation v\<rparr>"

text \<open>
  The guards of an acknowledged verification: an applied attempt of this incarnation, a verifier
  other than the applier where the policy asks for one, and an observation that the coordinator
  itself has recorded from that verifier, fresh, and of a later generation than the one the
  attempt was planned from.
\<close>

definition verifiable :: "Clocks \<Rightarrow> VerificationEvidence \<Rightarrow> Engine \<Rightarrow> AttemptRecord \<Rightarrow> ObservationDocument \<Rightarrow> bool" where
  "verifiable ck v e a d \<longleftrightarrow> find_by_key (ve_idempotency_key v) (en_state e) = Some a \<and>
     at_scope a = ve_scope v \<and> at_subject a = ve_subject v \<and>
     at_epoch a = en_live_epoch e \<and> at_boot a = en_live_boot e \<and> at_state a = Attempt_Applied \<and>
     (require_independent_verification (ds_policy (en_state e)) \<longrightarrow> ve_verifier v \<noteq> ve_applier v) \<and>
     ve_received_epoch v = en_live_epoch e \<and> av_observation_generation (at_authority a) < ve_generation v \<and>
     find_evidence v (en_state e) = Some d \<and>
     EvaluateFreshness d (po_freshness (ds_policy (en_state e))) (en_live_epoch e) (ck_now ck) = Fresh_Fresh"

lemma Verify_contract:
  assumes inv: "engine_inv e" and run: "Verify ck v e = (status, out, e')" and ok: "status_ok status"
  shows "\<exists>a d. verifiable ck v e a d \<and> out = Some (verified_outcome ck v e a) \<and>
    agrees (apply_outcome (en_limits e) (verified_outcome ck v e a)
              (apply_attempt (en_limits e) (verified ck v e a) (en_state e))) (en_state e')"
proof -
  obtain a d where a: "verifiable ck v e a d" "verify_attempt ck v a e = (status, out, e')"
    using run ok by (auto simp: Verify_def verifiable_def Let_def split: if_splits option.splits)
  let ?b = "verified ck v e a" and ?x = "verified_outcome ck v e a"
  have "map_find (cval (at_id a)) (ds_attempts (en_state e)) = Some a"
    using a(1) find_by_key_table(2) [OF _ inv] unfolding verifiable_def by blast
  then have aok: "attempt_ok (en_limits e) a" by (rule engine_inv_attempts(1) [OF inv])
  have lim: "st_limits (en_store e) = en_limits e" using inv by (simp add: engine_inv_def)
  have bok: "attempt_ok (st_limits (en_store e)) ?b"
    unfolding verified_def lim by (rule step_attempt_ok [OF inv aok]) (simp_all add: word_le_nat_alt)
  have "outcome_ok (MakeOutcome ?b t r amb now)" if "r \<le> Reason_RestartLeasesNotRestored" for t r amb now
    by (rule MakeOutcome_ok [OF bok that])
  then have xok: "outcome_ok ?x"
    by (simp add: verified_outcome_def outcome_ok_def word_le_nat_alt)
  obtain recorded s1 where t: "store_TransitionAttempt ?b (en_store e) = (recorded, s1)" by force
  obtain committed s2 where c: "store_CommitOutcome ?x s1 = (committed, s2)" by force
  note step = a(2) [unfolded verify_attempt_def Let_def, folded verified_def, folded verified_outcome_def]
  have rec: "status_ok recorded" using step t ok by (auto split: if_splits)
  have "status_ok committed \<and> out = Some ?x \<and> e' = MaybeCompactLocked ck (bump_verifications_accepted (e\<lparr>en_store := s2\<rparr>))"
    using step t c rec ok by (auto split: if_splits)
  then show ?thesis
    using a(1) settled_agrees [OF t rec c _ bok xok] lim
    by (auto simp: bump_verifications_accepted_def intro!: exI [of _ a] exI [of _ d] agrees_compacted)
qed

lemma Verify_refused:
  assumes "\<not> st_read_only (en_store e)" "\<nexists>a d. verifiable ck v e a d" "Verify ck v e = (status, out, e')"
  shows "\<not> status_ok status" "out = None" "en_store e' = en_store e"
  using assms
  by (auto simp: Verify_def verifiable_def bump_verifications_rejected_def Let_def split: if_splits option.splits)

section \<open>Committing an intent\<close>

definition stamped_intent :: "IntentDocument \<Rightarrow> IntentDocument" where
  "stamped_intent d = d\<lparr>in_digest := ComputeIntentDigest d\<rparr>"

lemma stamped_intent_ok:
  assumes "intent_typed d" "status_ok (ValidateIntent d limits)"
  shows "intent_ok limits (stamped_intent d)"
proof -
  have "ValidateIntent (stamped_intent d) limits = ValidateIntent d limits"
    by (simp add: ValidateIntent_def stamped_intent_def)
  moreover have "intent_typed (stamped_intent d)" using assms(1) by (simp add: intent_typed_def stamped_intent_def)
  ultimately show ?thesis using ValidateIntent_ok [of "stamped_intent d" limits] assms(2)
    by (fastforce simp: stamped_intent_def)
qed

text \<open>
  An acknowledged intent is either the very document already committed, recognised by its
  generation and digest, or of a strictly later generation, and then it is the committed one.
\<close>

lemma CommitIntent_contract:
  assumes inv: "engine_inv e" and run: "engine_CommitIntent ck d e = (status, out, e')" and ok: "status_ok status"
    and typed: "intent_typed d"
  shows "(\<exists>old. map_find (in_scope d) (ds_intents (en_state e)) = Some old \<and> in_generation old = in_generation d \<and>
        in_digest old = ComputeIntentDigest d \<and> map_option ic_duplicate out = Some True \<and> en_store e' = en_store e) \<or>
    ((\<forall>old. map_find (in_scope d) (ds_intents (en_state e)) = Some old \<longrightarrow> in_generation old < in_generation d) \<and>
      map_option ic_duplicate out = Some False \<and>
      agrees (apply_intent (en_limits e) (stamped_intent d) (en_state e)) (en_state e'))"
proof -
  obtain committed s1 where put: "store_CommitIntent (stamped_intent d) (en_store e) = (committed, s1)" by force
  have lim: "st_limits (en_store e) = en_limits e" "\<not> st_read_only (en_store e)"
    using inv by (simp_all add: engine_inv_def)
  have valid: "status_ok (ValidateIntent d (en_limits e))"
    using run ok lim by (auto simp: engine_CommitIntent_def Let_def split: if_splits)
  have iok: "intent_ok (en_limits e) (stamped_intent d)" using stamped_intent_ok [OF typed valid] .
  let ?old = "map_find (in_scope d) (ds_intents (en_state e))"
  define fresh where "fresh \<longleftrightarrow> (\<forall>old. ?old = Some old \<longrightarrow> in_generation old < in_generation d)"
  define commit where "commit = (let e1 = e\<lparr>en_store := s1\<rparr> in
     if \<not> status_ok committed then (committed, e1)
     else (Status_Ok, MaybeCompactLocked ck (e1\<lparr>en_stats := (en_stats e)\<lparr>es_intents_committed :=
        es_intents_committed (en_stats e) + 1\<rparr>\<rparr>)))"
  have cases: "if fresh then (status, e') = commit \<and> map_option ic_duplicate out = Some False
     else \<exists>old. ?old = Some old \<and> in_generation old = in_generation d \<and>
        in_digest old = ComputeIntentDigest d \<and> map_option ic_duplicate out = Some True \<and> en_store e' = en_store e"
  proof (cases ?old)
    case None
    then show ?thesis
      using run put lim(2) valid
      by (simp add: engine_CommitIntent_def fresh_def commit_def stamped_intent_def Let_def split: if_splits) auto
  next
    case (Some old)
    show ?thesis
    proof (cases "in_generation old < in_generation d")
      case True
      then have order: "\<not> in_generation d < in_generation old" "in_generation d \<noteq> in_generation old" by auto
      show ?thesis
        using run put lim(2) valid Some True order
        by (simp add: engine_CommitIntent_def fresh_def commit_def stamped_intent_def Let_def split: if_splits) auto
    next
      case False
      then show ?thesis
        using run ok lim(2) valid Some
        by (auto simp: engine_CommitIntent_def fresh_def stamped_intent_def Let_def split: if_splits)
    qed
  qed
  show ?thesis
  proof (cases fresh)
    case True
    then have oks: "status_ok committed" and e': "e' = MaybeCompactLocked ck (e\<lparr>en_store := s1, en_stats := (en_stats e)
        \<lparr>es_intents_committed := es_intents_committed (en_stats e) + 1\<rparr>\<rparr>)"
      using cases ok by (auto simp: commit_def Let_def split: if_splits)
    have "mutation_valid (en_limits e) (Mut_CommitIntent (stamped_intent d))" 
      if "snd (mutation_record (Mut_CommitIntent (stamped_intent d))) \<noteq> []"
      using that iok buffer_nonempty_fits by (auto simp: intent_stored_def EncodeIntent_def)
    then have "state_becomes (en_store e) (apply_intent (en_limits e) (stamped_intent d)) s1"
      using perform_state [of "Mut_CommitIntent (stamped_intent d)" "en_store e" committed s1] put oks lim(1) by simp
    from state_becomes_agrees [OF this] show ?thesis
      using cases True by (auto simp: e' fresh_def intro!: agrees_compacted)
  qed (use cases in auto)
qed

lemma committed_intent_current:
  assumes "agrees (apply_intent limits d st) (en_state e')" "wf_map (ds_intents st)"
  shows "CurrentIntent (in_scope d) e' = Inr d"
    "scope \<noteq> in_scope d \<Longrightarrow> map_find scope (ds_intents (en_state e')) = map_find scope (ds_intents st)"
  using assms(2) by (simp_all add: agrees_tables(3) [OF assms(1)] CurrentIntent_def apply_intent_def map_find_set Let_def)

section \<open>Recording an observation\<close>

lemma RecordObservation_contract:
  assumes inv: "engine_inv e" and run: "RecordObservationAt ck s at_ms e = (status, out, e')" and ok: "status_ok status"
    and typed: "submission_typed s"
  shows "(\<exists>d \<in> set (retained (su_scope s) e). ob_reporter d = su_reporter s \<and> ob_observation d = su_observation s \<and>
        ob_generation d = su_generation s \<and> map_option ro_stamped out = Some d \<and> en_store e' = en_store e) \<or>
    ((\<forall>d \<in> set (retained (su_scope s) e). ob_reporter d = su_reporter s \<longrightarrow> ob_generation d \<le> su_generation s) \<and>
      agrees (apply_observation (en_limits e) (stamp_observation s (stamp_or at_ms (ck_now ck)) e) (en_state e)) (en_state e'))"
proof -
  let ?d = "stamp_observation s (stamp_or at_ms (ck_now ck)) e"
  obtain committed s1 where put: "store_CommitObservation ?d (en_store e) = (committed, s1)" by force
  have lim: "st_limits (en_store e) = en_limits e" "\<not> st_read_only (en_store e)"
    using inv by (simp_all add: engine_inv_def)
  have valid: "status_ok (ValidateSubmission s (en_limits e))"
    using run ok lim by (auto simp: RecordObservationAt_def Let_def split: if_splits)
  note dok = stamp_observation_ok [OF typed valid, of "stamp_or at_ms (ck_now ck)"]
  have dup: "d \<in> set ds \<and> ob_reporter d = su_reporter s \<and> ob_observation d = su_observation s \<and>
      ob_generation d = su_generation s" if "scan_stream s g ds h = Stream_Duplicate d" for g ds h d
    using that by (induction ds arbitrary: h) (auto simp: Let_def split: if_splits option.splits)
  have high: "(\<forall>d \<in> set ds. ob_reporter d = su_reporter s \<longrightarrow> (\<exists>m. r = Some m \<and> ob_generation d \<le> m)) \<and>
      (\<forall>x. h = Some x \<longrightarrow> (\<exists>m. r = Some m \<and> x \<le> m))"
    if "scan_stream s g ds h = Stream_Highest r" for g ds h r
    using that
  proof (induction ds arbitrary: h)
    case (Cons d ds)
    then show ?case by (fastforce simp: Let_def split: if_splits option.splits)
  qed simp
  show ?thesis
  proof (cases "scan_stream s (ob_digest ?d) (retained (su_scope s) e) None")
    case (Stream_Duplicate d)
    then show ?thesis
      using run lim(2) valid dup [OF Stream_Duplicate] by (auto simp: RecordObservationAt_def retained_def Let_def)
  next
    case Stream_Conflict
    then show ?thesis using run ok lim(2) valid by (auto simp: RecordObservationAt_def retained_def Let_def)
  next
    case (Stream_Highest r)
    define regress where "regress = (case r of None \<Rightarrow> False | Some h \<Rightarrow> su_generation s < h)"
    have res: "\<not> regress \<and> status_ok committed \<and> e' = MaybeCompactLocked ck (e\<lparr>en_store := s1, en_stats := (en_stats e)
        \<lparr>es_observations_recorded := es_observations_recorded (en_stats e) + 1\<rparr>\<rparr>)"
      using run ok lim(2) valid Stream_Highest put
      unfolding RecordObservationAt_def Let_def retained_def
      by (cases regress; cases "status_ok committed") (auto simp: regress_def [symmetric])
    have "\<forall>d \<in> set (retained (su_scope s) e). ob_reporter d = su_reporter s \<longrightarrow> ob_generation d \<le> su_generation s"
      using high [OF Stream_Highest] res by (fastforce simp: regress_def split: option.splits)
    moreover have "mutation_valid (en_limits e) (Mut_CommitObservation ?d)"
      if "snd (mutation_record (Mut_CommitObservation ?d)) \<noteq> []"
      using that dok buffer_nonempty_fits by (auto simp: observation_stored_def EncodeObservation_def)
    then have "state_becomes (en_store e) (apply_observation (en_limits e) ?d) s1"
      using perform_state [of "Mut_CommitObservation ?d" "en_store e" committed s1] put res lim(1) by simp
    from state_becomes_agrees [OF this]
    have "agrees (apply_observation (en_limits e) ?d (en_state e)) (en_state e')"
      using res by (auto intro!: agrees_compacted)
    ultimately show ?thesis by blast
  qed
qed

section \<open>Read-only engines\<close>

lemma read_only_refuses:
  assumes "st_read_only (en_store e)"
  shows "engine_PutPolicy p same e = (engine_read_only, e)" "engine_CommitIntent ck d e = (engine_read_only, None, e)"
    "RecordObservationAt ck s at_ms e = (engine_read_only, None, e)" "Dispatch ck plan e = (Inl engine_read_only, e)"
    "Complete ck rq e = (engine_read_only, None, e)" "Verify ck v e = (engine_read_only, None, e)"
    "engine_PutFence ck f e = (engine_read_only, e)" "engine_ClearFence i e = (engine_read_only, e)"
    "engine_Compact ck e = (engine_read_only, e)"
  using assms
  by (simp_all add: engine_PutPolicy_def engine_CommitIntent_def RecordObservationAt_def Dispatch_def plan_stale_def
      Complete_def Verify_def engine_PutFence_def engine_ClearFence_def engine_Compact_def)

end
