(* ===== verification/Progress.thy ===== *)
theory Progress
  imports Contracts
begin

text \<open>
  What the engine does when nothing stands in its way: on a store whose system calls succeed, an
  operation whose guards hold is acknowledged. The records it writes fit in the journal.
\<close>

section \<open>The size of records\<close>

lemma octets_concat: "length (octets (concat (map f xs))) = sum_list (map (\<lambda>x. length (octets (f x))) xs)"
  by (induction xs) simp_all

lemma id_bound: "wf_id i \<Longrightarrow> length (str i) \<le> kMaxIdentityLength" "valid_id i \<Longrightarrow> length (str i) \<le> kMaxIdentityLength"
  using wf_id_length by (auto simp: wf_id_def)

lemma authority_size: "authority_ok a \<Longrightarrow> length (octets (authority_Encode a)) \<le> 180 + 5 * (4 + kMaxIdentityLength)"
  using id_bound(1) [of "av_policy_id a"] id_bound(1) [of "av_definition a"] id_bound(1) [of "av_intent a"]
    id_bound(1) [of "av_observation a"] id_bound(1) [of "av_observation_reporter a"]
  by (simp add: authority_ok_def authority_Encode_def wf_boot_def wf_digest_def kSha256Bytes_def)

lemma transition_size: "transition_ok t \<Longrightarrow> length (octets (transition_puts t)) = 42"
  by (simp add: transition_ok_def transition_puts_def wf_boot_def)

lemma attempt_size:
  assumes "attempt_ok limits a"
  shows "length (octets (attempt_puts a)) \<le> 280 + 7 * (4 + kMaxIdentityLength) + 42 * max_attempt_transitions limits"
proof -
  have "sum_list (map (\<lambda>t. length (octets (transition_puts t))) ts) = 42 * length ts"
    if "list_all transition_ok ts" for ts
    using that by (induction ts) (simp_all add: transition_size)
  then show ?thesis
    using assms authority_size [of "at_authority a"] id_bound(2) [of "at_scope a"] id_bound(2) [of "at_subject a"]
    by (simp add: attempt_ok_def attempt_puts_def octets_concat wf_boot_def wf_digest_def kSha256Bytes_def)
qed

lemma outcome_size:
  assumes "outcome_ok x"
  shows "length (octets (outcome_puts x)) \<le> 120 + 2 * (4 + kMaxIdentityLength)"
  using assms id_bound(2) [of "oc_scope x"] id_bound(2) [of "oc_subject x"]
  by (simp add: outcome_ok_def outcome_puts_def wf_boot_def wf_digest_def kSha256Bytes_def)

section \<open>Stores that work\<close>

definition record_room :: "RuntimeLimits \<Rightarrow> bool" where
  "record_room limits \<longleftrightarrow> 2000 + 42 * max_attempt_transitions limits \<le> max_journal_payload_bytes limits \<and>
     max_journal_payload_bytes limits \<le> kMaxCanonicalBytes"

definition healthy :: "DurableStore \<Rightarrow> bool" where
  "healthy s \<longleftrightarrow> \<not> st_read_only s \<and> j_open (st_journal s) \<and> \<not> j_read_only (st_journal s) \<and>
     \<not> j_write_failed (st_journal s) \<and> j_faults (st_journal s) = [] \<and> j_limits (st_journal s) = st_limits s \<and>
     record_room (st_limits s)"

lemma Append_succeeds:
  assumes "healthy s" "length payload \<le> max_journal_payload_bytes (st_limits s)"
  shows "\<exists>j. Append ty payload (st_journal s) = (Status_Ok, j) \<and> healthy (s\<lparr>st_journal := j\<rparr>)"
proof -
  have "BuildRecordImage n ty payload \<noteq> []" for n by (simp add: BuildRecordImage_def record_fields_def Let_def length_0_conv [symmetric] del: length_0_conv)
  then show ?thesis
    using assms by (simp add: Append_def WriteAll_def FlushToDisk_def next_fault_def healthy_def Let_def)
qed

lemma durable_put_succeeds:
  assumes "healthy s" "mutation_valid (st_limits s) m"
    "length (snd (mutation_record m)) \<le> max_journal_payload_bytes (st_limits s)"
  shows "\<exists>s'. durable_put (fst (mutation_record m)) (snd (mutation_record m)) s = (Status_Ok, s') \<and> healthy s' \<and>
    state_becomes s (mutation_effect (st_limits s) m) s'"
proof -
  let ?ty = "fst (mutation_record m)" and ?p = "snd (mutation_record m)"
  obtain j where j: "Append ?ty ?p (st_journal s) = (Status_Ok, j)" "healthy (s\<lparr>st_journal := j\<rparr>)"
    using Append_succeeds [OF assms(1,3)] by blast
  obtain s' where s': "durable_put ?ty ?p s = (Status_Ok, s')"
      "s' = s\<lparr>st_journal := j, st_state := mutation_effect (st_limits s) m ((st_state s)\<lparr>ds_sequence := j_last_sequence j\<rparr>)\<rparr>"
    using assms(1) any_record.encoded [OF assms(2)] any_record.applies [OF assms(2)] j(1)
    by (simp add: durable_put_def AppendAndApply_def healthy_def)
  moreover have "healthy s'" using j(2) by (simp add: s'(2) healthy_def)
  moreover have "state_becomes s (mutation_effect (st_limits s) m) s'"
    by (auto simp: s'(2) state_becomes_def mutation_effect_sequence)
  ultimately show ?thesis by blast
qed

lemma record_room_ids: "record_room limits \<Longrightarrow> 280 + 7 * (4 + kMaxIdentityLength) + 42 * max_attempt_transitions limits \<le> max_journal_payload_bytes limits"
  by (simp add: record_room_def kMaxIdentityLength_def)

lemma attempt_fits:
  assumes "attempt_ok limits a" "record_room limits"
  shows "attempt_stored limits a" "length (EncodeAttemptRecord a) \<le> max_journal_payload_bytes limits"
proof -
  have n: "length (octets (attempt_puts a)) \<le> max_journal_payload_bytes limits"
    using attempt_size [OF assms(1)] record_room_ids [OF assms(2)] by linarith
  then have f: "fits (attempt_puts a)" using assms(2) by (simp add: fits_def record_room_def)
  show "attempt_stored limits a" using assms(1) f by (simp add: attempt_stored_def)
  show "length (EncodeAttemptRecord a) \<le> max_journal_payload_bytes limits"
    using n by (simp add: EncodeAttemptRecord_def fits_buffer [OF f])
qed

lemma outcome_fits:
  assumes "outcome_ok x" "record_room limits"
  shows "outcome_stored x" "length (EncodeOutcome x) \<le> max_journal_payload_bytes limits"
proof -
  have n: "length (octets (outcome_puts x)) \<le> max_journal_payload_bytes limits"
    using outcome_size [OF assms(1)] record_room_ids [OF assms(2)] by linarith
  then have f: "fits (outcome_puts x)" using assms(2) by (simp add: fits_def record_room_def)
  show "outcome_stored x" using assms(1) f by (simp add: outcome_stored_def)
  show "length (EncodeOutcome x) \<le> max_journal_payload_bytes limits"
    using n by (simp add: EncodeOutcome_def fits_buffer [OF f])
qed

lemma transition_succeeds:
  assumes "healthy s" "attempt_ok (st_limits s) b"
  shows "\<exists>s'. store_TransitionAttempt b s = (Status_Ok, s') \<and> healthy s' \<and>
    state_becomes s (apply_attempt (st_limits s) b) s'"
proof -
  have "record_room (st_limits s)" using assms(1) by (simp add: healthy_def)
  note f = attempt_fits [OF assms(2) this]
  show ?thesis
    using durable_put_succeeds [OF assms(1), of "Mut_TransitionAttempt b"] f by (simp add: store_TransitionAttempt_def)
qed

lemma outcome_succeeds:
  assumes "healthy s" "outcome_ok x"
  shows "\<exists>s'. store_CommitOutcome x s = (Status_Ok, s') \<and> healthy s' \<and> state_becomes s (apply_outcome (st_limits s) x) s'"
proof -
  have "record_room (st_limits s)" using assms(1) by (simp add: healthy_def)
  note f = outcome_fits [OF assms(2) this]
  show ?thesis
    using durable_put_succeeds [OF assms(1), of "Mut_CommitOutcome x"] f by (simp add: store_CommitOutcome_def)
qed

lemma issue_succeeds:
  assumes "healthy s" "attempt_ok (st_limits s) b"
  shows "\<exists>s'. store_IssueAttempt b s = (Status_Ok, s') \<and> healthy s' \<and> state_becomes s (apply_attempt (st_limits s) b) s'"
proof -
  have "record_room (st_limits s)" using assms(1) by (simp add: healthy_def)
  note f = attempt_fits [OF assms(2) this]
  show ?thesis
    using durable_put_succeeds [OF assms(1), of "Mut_IssueAttempt b"] f assms(2)
    by (simp add: store_IssueAttempt_def attempt_ok_def)
qed

section \<open>Completion\<close>

lemma Complete_succeeds:
  assumes inv: "engine_inv e" and ok: "healthy (en_store e)" and a: "completable rq e a"
    and reason: "cq_reason rq \<le> Reason_RestartLeasesNotRestored"
  shows "\<exists>e'. Complete ck rq e = (Status_Ok, Some (completed_outcome ck rq e a), e')"
proof -
  let ?b = "completed ck rq e a" and ?x = "completed_outcome ck rq e a"
  note c = a [unfolded completable_def]
  have lim: "st_limits (en_store e) = en_limits e" "\<not> st_read_only (en_store e)"
    using inv by (simp_all add: engine_inv_def)
  have found: "map_find (cval (cq_attempt rq)) (ds_attempts (en_state e)) = Some a"
    and legal: "TransitionLegal (at_state a) (cq_target rq)" using c by simp_all
  have target: "cq_target rq \<noteq> Attempt_Invalid" using legal by (cases "at_state a") auto
  have bok: "attempt_ok (st_limits (en_store e)) ?b"
    unfolding completed_def lim
    by (rule step_attempt_ok [OF inv engine_inv_attempts(1) [OF inv found] target complete_reason_ok [OF reason]])
      (simp add: word_le_nat_alt)
  have xok: "outcome_ok ?x"
    unfolding completed_outcome_def by (rule MakeOutcome_ok [OF bok complete_reason_ok [OF reason]])
  obtain s1 where s1: "store_TransitionAttempt ?b (en_store e) = (Status_Ok, s1)" "healthy s1"
    using transition_succeeds [OF ok bok] by blast
  obtain s2 where s2: "store_CommitOutcome ?x s1 = (Status_Ok, s2)" using outcome_succeeds [OF s1(2) xok] by blast
  have state: "at_state ?b = cq_target rq" by (simp add: completed_def step_attempt_def)
  have "complete_attempt ck rq a e = (Status_Ok, Some ?x,
      MaybeCompactLocked ck (if IsTerminalAttemptState (cq_target rq)
        then (bump_completions_accepted (e\<lparr>en_store := s1\<rparr>))\<lparr>en_store := s2\<rparr>
        else bump_completions_accepted (e\<lparr>en_store := s1\<rparr>)))"
    unfolding complete_attempt_def Let_def complete_reason_def [symmetric] completed_def [symmetric]
    using s1(1) s2 by (auto simp: state completed_outcome_def bump_completions_accepted_def)
  moreover have "Complete ck rq e = complete_attempt ck rq a e" using c lim(2) by (simp add: Complete_def)
  ultimately show ?thesis by metis
qed

section \<open>Dispatch\<close>

definition dispatchable :: "Engine \<Rightarrow> Decision \<Rightarrow> bool" where
  "dispatchable e d \<longleftrightarrow> de_disposition d = Disp_Actionable \<and>
     \<not> FenceHoldsFor (de_scope d) (de_subject d) (en_live_epoch e) e"

lemma same_scopes_dispatchable: "same_scopes e e' \<Longrightarrow> dispatchable e' d = dispatchable e d"
  using same_scopes_FenceHoldsFor by (simp add: dispatchable_def same_scopes_def FenceHoldsFor_def)

lemma find_issued_key: "find_issued key e = Some a \<Longrightarrow> at_idempotency_key a = key"
  by (auto simp: find_issued_def find_Some_iff)

lemma dispatch_loop_succeeds:
  assumes "engine_inv e" "healthy (en_store e)" "\<forall>d \<in> set ds. de_disposition d = Disp_Actionable \<longrightarrow> decision_ok d"
    "unat (cval (ds_next_attempt (en_state e))) + length ds < 2 ^ 64"
  shows "\<exists>r' e'. dispatch_loop now intent ds r e = (Inr r', e') \<and>
    map ai_idempotency_key (dp_intents r') =
      map ai_idempotency_key (dp_intents r) @ map de_idempotency_key (filter (dispatchable e) ds)"
  using assms
proof (induction ds arbitrary: r e)
  case (Cons d ds)
  note inv = Cons.prems(1)
  show ?case
  proof (cases "dispatchable e d")
    case False
    let ?r = "if de_disposition d = Disp_Actionable then r\<lparr>dp_fenced := dp_fenced r + 1\<rparr> else r"
    have "dispatch_loop now intent (d # ds) r e = dispatch_loop now intent ds ?r e"
      using False by (simp add: dispatchable_def)
    moreover have "\<exists>r' e'. dispatch_loop now intent ds ?r e = (Inr r', e') \<and>
        map ai_idempotency_key (dp_intents r') =
          map ai_idempotency_key (dp_intents ?r) @ map de_idempotency_key (filter (dispatchable e) ds)"
      by (rule Cons.IH) (use Cons.prems in auto)
    ultimately show ?thesis using False by (cases "de_disposition d = Disp_Actionable") auto
  next
    case True
    then have d: "de_disposition d = Disp_Actionable" "\<not> FenceHoldsFor (de_scope d) (de_subject d) (en_live_epoch e) e"
      and dok: "decision_ok d" using Cons.prems(3) by (auto simp: dispatchable_def)
    show ?thesis
    proof (cases "find_issued (de_idempotency_key d) e")
      case (Some a)
      let ?r = "r\<lparr>dp_intents := dp_intents r @ [action_of intent a], dp_already_issued := dp_already_issued r + 1\<rparr>"
      have "\<exists>r' e'. dispatch_loop now intent ds ?r e = (Inr r', e') \<and>
          map ai_idempotency_key (dp_intents r') =
            map ai_idempotency_key (dp_intents ?r) @ map de_idempotency_key (filter (dispatchable e) ds)"
        by (rule Cons.IH) (use Cons.prems in auto)
      then show ?thesis using d Some True find_issued_key [OF Some] by (auto simp: action_of_def)
    next
      case None
      have lim: "st_limits (en_store e) = en_limits e" using inv by (simp add: engine_inv_def)
      have room: "cval (ds_next_attempt (en_state e)) \<noteq> - 1"
        using Cons.prems(4) by (auto simp: word_eq_iff_unsigned unsigned_minus_1_eq_mask mask_eq_exp_minus_1)
      obtain s1 where put: "store_IssueAttempt (new_attempt now d e) (en_store e) = (Status_Ok, s1)" and h: "healthy s1"
        using issue_succeeds [OF Cons.prems(2)] new_attempt_ok(1) [OF inv dok] lim by metis
      note st = issue_step [OF inv dok room put]
      let ?r = "r\<lparr>dp_intents := dp_intents r @ [action_of intent (new_attempt now d e)]\<rparr>"
      let ?e = "e\<lparr>en_store := s1, en_stats := (en_stats e)\<lparr>es_actions_dispatched := es_actions_dispatched (en_stats e) + 1\<rparr>\<rparr>"
      have inv1: "engine_inv ?e" using st(1) inv by (simp add: moves_def engine_inv_def)
      have "same_scopes e ?e" using st(3) by (simp add: same_scopes_def)
      then have same: "dispatchable ?e = dispatchable e" using same_scopes_dispatchable by blast
      have "unat (cval (ds_next_attempt (en_state ?e))) = unat (cval (ds_next_attempt (en_state e))) + 1"
        using st(2) unatSuc [of "cval (ds_next_attempt (en_state e))"] room by (simp add: add.commute add_eq_0_iff)
      then have "\<exists>r' e'. dispatch_loop now intent ds ?r ?e = (Inr r', e') \<and>
          map ai_idempotency_key (dp_intents r') =
            map ai_idempotency_key (dp_intents ?r) @ map de_idempotency_key (filter (dispatchable ?e) ds)"
        by (intro Cons.IH [OF inv1]) (use Cons.prems h in auto)
      then show ?thesis
        using d None put True same new_attempt_ok(5) [OF inv dok, of now] by (auto simp: action_of_def)
    qed
  qed
qed simp

lemma Dispatch_succeeds:
  assumes "engine_inv e" "healthy (en_store e)" "plan_ok plan" "plan_stale plan e = None"
    "unat (cval (ds_next_attempt (en_state e))) + length (pl_decisions plan) < 2 ^ 64"
  shows "\<exists>r e'. Dispatch ck plan e = (Inr r, e') \<and>
    map ai_idempotency_key (dp_intents r) = map de_idempotency_key (filter (dispatchable e) (pl_decisions plan))"
proof -
  obtain intent where intent: "map_find (pl_scope plan) (ds_intents (en_state e)) = Some intent"
    using assms(4) by (auto simp: plan_stale_def Let_def split: option.splits if_splits)
  show ?thesis
    using dispatch_loop_succeeds [OF assms(1,2), of "pl_decisions plan" "ck_now ck" intent
        "\<lparr>dp_intents = [], dp_fenced = 0, dp_superseded = 0, dp_already_issued = 0\<rparr>"] assms(3-5) intent
    by (auto simp: Dispatch_def plan_ok_def)
qed

section \<open>Restart\<close>

context closing_loop
begin

lemma succeeds:
  assumes "healthy (en_store e)" "st_limits (en_store e) = en_limits e"
    "\<forall>a \<in> set as. attempt_ok (en_limits e) (close e a) \<and> outcome_ok (out e a)"
  shows "\<exists>e'. loop as e = (Status_Ok, e')"
  using assms
proof (induction as arbitrary: e)
  case Nil
  then show ?case by (simp add: stop)
next
  case (Cons a as)
  have ok: "attempt_ok (st_limits (en_store e)) (close e a)" "outcome_ok (out e a)" using Cons.prems by simp_all
  obtain s1 where s1: "store_TransitionAttempt (close e a) (en_store e) = (Status_Ok, s1)" "healthy s1"
      "state_becomes (en_store e) (apply_attempt (st_limits (en_store e)) (close e a)) s1"
    using transition_succeeds [OF Cons.prems(1) ok(1)] by blast
  obtain s2 where s2: "store_CommitOutcome (out e a) s1 = (Status_Ok, s2)" "healthy s2"
      "state_becomes s1 (apply_outcome (st_limits s1) (out e a)) s2"
    using outcome_succeeds [OF s1(2) ok(2)] by blast
  obtain report where run: "loop (a # as) e = loop as (e\<lparr>en_store := s2, en_boot_report := report\<rparr>)"
    using go [OF s1(1) s2(1)] by blast
  let ?e = "e\<lparr>en_store := s2, en_boot_report := report\<rparr>"
  have "same_incarnation e ?e" using s1(3) s2(3) by (simp add: same_incarnation_def state_becomes_def)
  then have "close ?e = close e" "out ?e = out e" "st_limits s2 = en_limits e"
    using incarnation Cons.prems(2) by (simp_all add: same_incarnation_def)
  then have "\<exists>e'. loop as ?e = (Status_Ok, e')" by (intro Cons.IH) (use Cons.prems(3) s2(2) in auto)
  then show ?case using run by simp
qed

end

lemma begin_epoch_succeeds:
  assumes "healthy (en_store e)" "resumable (en_limits e) (en_state e)" "st_limits (en_store e) = en_limits e"
    "wf_boot (en_live_boot e)" "max_attempt_transitions (en_limits e) < 2 ^ 32"
    "cval (ds_last_epoch (en_state e)) \<noteq> - 1"
  shows "\<exists>e'. begin_epoch clock e = (Status_Ok, e')"
proof -
  define nxt where "nxt = (Counter (cval (ds_last_epoch (en_state e)) + 1) :: CoordinatorEpoch)"
  have "TryNext (ds_last_epoch (en_state e)) = Some nxt" using assms(6) by (simp add: TryNext_def nxt_def)
  from TryNext_Some [OF this] have newer: "\<not> nxt \<le> ds_last_epoch (en_state e)" by (simp add: not_le)
  have "length (puts_buffer [PutU64 (cval nxt)]) \<le> 8" by (simp add: puts_buffer_octets)
  then have "length (puts_buffer [PutU64 (cval nxt)]) \<le> max_journal_payload_bytes (st_limits (en_store e))"
    using assms(1) by (simp add: healthy_def record_room_def)
  then obtain s1 where s1: "store_AdvanceEpoch nxt (en_store e) = (Status_Ok, s1)" "healthy s1"
      "state_becomes (en_store e) (apply_epoch (cval nxt)) s1"
    using durable_put_succeeds [OF assms(1), of "Mut_AdvanceEpoch nxt"] newer by (auto simp: store_AdvanceEpoch_def)
  have st1: "live_attempts (st_state s1) = live_attempts (en_state e)" "st_limits s1 = en_limits e"
    using s1(3) assms(3) by (auto simp: state_becomes_def apply_epoch_def live_attempts_def)
  have "attempt_ok (en_limits e) a" if "a \<in> set (live_attempts (en_state e))" for a
  proof -
    have "map_find (cval (at_id a)) (ds_attempts (en_state e)) = Some a"
      using that live_attempts_table assms(2) by (auto simp: resumable_def)
    from map_find_mem [OF this] show ?thesis
      using assms(2) by (auto simp: resumable_def durable_wf_def table_ok_def attempt_stored_def)
  qed
  then have ok: "attempt_ok (en_limits e') (restart_attempt clock e' a) \<and> outcome_ok (restart_outcome clock e' a)"
    if "a \<in> set (live_attempts (en_state e))" "en_options e' = en_options e" "en_live_boot e' = en_live_boot e" for a e'
    using that assms(4,5) restart_attempt_ok [of e' a clock] by simp
  have "\<exists>e'. restart_loop clock (live_attempts (en_state e)) (e\<lparr>en_store := s1, en_live_epoch := nxt, en_boot_report := rep\<rparr>) =
      (Status_Ok, e')" for rep
    by (rule restart_closing.succeeds) (use s1(2) st1(2) ok in simp_all)
  then obtain e2 where "restart_loop clock (live_attempts (en_state e))
      (e\<lparr>en_store := s1, en_live_epoch := nxt, en_boot_report := (en_boot_report e)\<lparr>br_epoch := nxt, br_boot := en_live_boot e,
        br_notes := br_notes (en_boot_report e) @ [Reason_RestartEpochAdvanced,
          Reason_RestartFreshnessNotRestored, Reason_RestartLeasesNotRestored]\<rparr>\<rparr>) = (Status_Ok, e2)"
    by blast
  then show ?thesis
    using s1(1) st1(1) by (simp add: begin_epoch_def nxt_def [symmetric] CommitRestartFencing_def Let_def)
qed

section \<open>Fences\<close>

lemma fence_fits:
  assumes "fence_ok f" "record_room limits"
  shows "fence_stored f" "length (EncodeFence f) \<le> max_journal_payload_bytes limits"
proof -
  have n: "length (octets (fence_puts f)) \<le> 2000"
    using assms(1) id_bound(2) [of "fe_id f"] id_bound(2) [of "fe_scope f"] id_bound(1) [of "fe_subject f"]
    by (simp add: fence_ok_def fence_puts_def kMaxIdentityLength_def)
  then have f: "fits (fence_puts f)" by (simp add: fits_def kMaxCanonicalBytes_def)
  show "fence_stored f" using assms(1) f by (simp add: fence_stored_def)
  show "length (EncodeFence f) \<le> max_journal_payload_bytes limits"
    using n assms(2) by (simp add: EncodeFence_def fits_buffer [OF f] record_room_def)
qed

lemma PutFence_succeeds:
  assumes inv: "engine_inv e" and ok: "healthy (en_store e)" and f: "fence_ok f" "cval (fe_fenced_below f) \<noteq> 0"
  shows "\<exists>e'. engine_PutFence ck f e = (Status_Ok, e')"
proof -
  let ?now = "stamp_or (fe_created_unix_ms f) (ck_now ck)"
  let ?f = "f\<lparr>fe_created_unix_ms := ?now\<rparr>"
  have fok: "fence_ok ?f" using f(1) by (simp add: fence_ok_def)
  have "record_room (st_limits (en_store e))" using ok by (simp add: healthy_def)
  then obtain s1 where s1: "store_PutFence ?f (en_store e) = (Status_Ok, s1)" "healthy s1"
    using durable_put_succeeds [OF ok, of "Mut_PutFence ?f"] fence_fits [OF fok] by (auto simp: store_PutFence_def)
  let ?e = "e\<lparr>en_store := s1\<rparr>"
  have inv1: "engine_inv ?e" using fence_stored_moves(1) [OF inv fok s1(1)] inv by (simp add: moves_def)
  have "attempt_ok (en_limits ?e) (fence_close ?now ?e a) \<and> outcome_ok (fence_outcome ?now ?e a)"
    if "a \<in> set (fence_victims ?f (en_state ?e))" for a
  proof -
    have "attempt_ok (en_limits ?e) a"
      using that fence_victims_table(1) [OF inv1] engine_inv_attempts(1) [OF inv1] by blast
    from fence_close_ok [OF inv1 this] show ?thesis by blast
  qed
  then obtain e2 where "fence_loop ?now (fence_victims ?f (en_state ?e)) ?e = (Status_Ok, e2)"
    using fence_closing.succeeds [of ?e "fence_victims ?f (en_state ?e)" ?now] s1(2) inv1 by (auto simp: engine_inv_def)
  moreover have "\<not> id_empty (fe_id f)" "\<not> id_empty (fe_scope f)"
    using f(1) by (auto simp: fence_ok_def id_empty_def valid_id_def IsValidIdentityText_def)
  ultimately show ?thesis
    using s1(1) inv f(2) by (simp add: engine_PutFence_def engine_inv_def Let_def)
qed

section \<open>Plans\<close>

text \<open>A plan just built is still the current one, when there was evidence to build it from.\<close>

lemma BuildPlanLocked_binds:
  assumes "BuildPlanLocked ck request e = (Inr plan, e')"
  obtains rep where "ClassifyScope (plan_input ck request e) = Inr rep"
    "pl_scope plan = pq_scope request" "pl_epoch plan = en_live_epoch e" "pl_boot plan = en_live_boot e"
    "pl_policy_digest plan = ComputePolicyDigest (plan_policy request e)"
    "pl_intent_generation plan = ev_intent_generation (cr_evidence rep)"
    "pl_intent_digest plan = ev_intent_digest (cr_evidence rep)"
    "pl_observation plan = ev_observation (cr_evidence rep)"
    "pl_observation_generation plan = ev_observation_generation (cr_evidence rep)"
    "pl_observation_digest plan = ev_observation_digest (cr_evidence rep)"
    "ds_has_policy (en_state e)"
  using assms
  by (auto simp: BuildPlanLocked_def plan_input_def plan_policy_def plan_now_def plan_start_def Seal_def Let_def
      split: if_splits sum.splits prod.splits)

lemma fresh_plan_not_stale:
  assumes plan: "BuildPlanLocked ck request e = (Inr plan, e')" and rw: "\<not> st_read_only (en_store e)"
    and policy: "ComputePolicyDigest (plan_policy request e) = ComputePolicyDigest (ds_policy (en_state e))"
    and intent: "map_find (pq_scope request) (ds_intents (en_state e)) = Some intent"
    and obs: "os_selected (SelectCurrentObservation (map Some (retained (pq_scope request) e))) = Some observation"
  shows "plan_stale plan e = None"
proof -
  obtain rep where rep: "ClassifyScope (plan_input ck request e) = Inr rep"
    and b: "pl_scope plan = pq_scope request" "pl_epoch plan = en_live_epoch e" "pl_boot plan = en_live_boot e"
    "pl_policy_digest plan = ComputePolicyDigest (plan_policy request e)"
    "pl_intent_generation plan = ev_intent_generation (cr_evidence rep)"
    "pl_intent_digest plan = ev_intent_digest (cr_evidence rep)"
    "pl_observation plan = ev_observation (cr_evidence rep)"
    "pl_observation_generation plan = ev_observation_generation (cr_evidence rep)"
    "pl_observation_digest plan = ev_observation_digest (cr_evidence rep)" "ds_has_policy (en_state e)"
    by (rule BuildPlanLocked_binds [OF plan])
  have "cr_evidence rep = scope_evidence (plan_input ck request e) (plan_policy request e) (Some intent) (Some observation)"
    using ClassifyScope_evidence [OF rep plan_input_fields(1)] intent obs
    by (simp add: plan_input_fields SelectCurrentIntent_single)
  then show ?thesis
    using b rw policy intent obs by (simp add: plan_stale_def scope_evidence_def retained_def Let_def)
qed

section \<open>Verification, intents and observations\<close>

lemma Verify_succeeds:
  assumes inv: "engine_inv e" and ok: "healthy (en_store e)" and a: "verifiable ck v e a d"
  shows "\<exists>e'. Verify ck v e = (Status_Ok, Some (verified_outcome ck v e a), e')"
proof -
  let ?b = "verified ck v e a" and ?x = "verified_outcome ck v e a"
  note c = a [unfolded verifiable_def]
  have lim: "st_limits (en_store e) = en_limits e" "\<not> st_read_only (en_store e)"
    using inv by (simp_all add: engine_inv_def)
  have "map_find (cval (at_id a)) (ds_attempts (en_state e)) = Some a"
    using c find_by_key_table(2) [OF _ inv] by blast
  then have aok: "attempt_ok (en_limits e) a" by (rule engine_inv_attempts(1) [OF inv])
  have bok: "attempt_ok (st_limits (en_store e)) ?b"
    unfolding verified_def lim by (rule step_attempt_ok [OF inv aok]) (simp_all add: word_le_nat_alt)
  have "outcome_ok (MakeOutcome ?b t r amb now)" if "r \<le> Reason_RestartLeasesNotRestored" for t r amb now
    by (rule MakeOutcome_ok [OF bok that])
  then have xok: "outcome_ok ?x" by (simp add: verified_outcome_def outcome_ok_def word_le_nat_alt)
  obtain s1 where s1: "store_TransitionAttempt ?b (en_store e) = (Status_Ok, s1)" "healthy s1"
    using transition_succeeds [OF ok bok] by blast
  obtain s2 where s2: "store_CommitOutcome ?x s1 = (Status_Ok, s2)" using outcome_succeeds [OF s1(2) xok] by blast
  have "verify_attempt ck v a e = (Status_Ok, Some ?x, MaybeCompactLocked ck (bump_verifications_accepted (e\<lparr>en_store := s2\<rparr>)))"
    unfolding verify_attempt_def Let_def verified_def [symmetric] verified_outcome_def [symmetric]
    using s1(1) s2 by simp
  moreover have "Verify ck v e = verify_attempt ck v a e" using c lim(2) by (auto simp: Verify_def Let_def)
  ultimately show ?thesis by metis
qed

lemma CommitIntent_succeeds:
  assumes inv: "engine_inv e" and ok: "healthy (en_store e)" and typed: "intent_typed d"
    and valid: "status_ok (ValidateIntent d (en_limits e))"
    and size: "fits (intent_puts (stamped_intent d))"
      "length (octets (intent_puts (stamped_intent d))) \<le> max_journal_payload_bytes (en_limits e)"
    and newer: "\<And>old. map_find (in_scope d) (ds_intents (en_state e)) = Some old \<Longrightarrow> in_generation old < in_generation d"
  shows "\<exists>x e'. engine_CommitIntent ck d e = (Status_Ok, Some x, e')"
proof -
  have lim: "st_limits (en_store e) = en_limits e" "\<not> st_read_only (en_store e)"
    using inv by (simp_all add: engine_inv_def)
  have "mutation_valid (st_limits (en_store e)) (Mut_CommitIntent (stamped_intent d))"
    using stamped_intent_ok [OF typed valid] size(1) lim by (simp add: intent_stored_def)
  then obtain s1 where s1: "store_CommitIntent (stamped_intent d) (en_store e) = (Status_Ok, s1)"
    using durable_put_succeeds [OF ok, of "Mut_CommitIntent (stamped_intent d)"] size lim
    by (auto simp: store_CommitIntent_def EncodeIntent_def fits_buffer)
  show ?thesis
  proof (cases "map_find (in_scope d) (ds_intents (en_state e))")
    case None
    then show ?thesis using s1 lim valid by (simp add: engine_CommitIntent_def stamped_intent_def Let_def)
  next
    case (Some old)
    then have "\<not> in_generation d < in_generation old" "in_generation d \<noteq> in_generation old"
      using newer [OF Some] by auto
    then show ?thesis using s1 lim valid Some by (simp add: engine_CommitIntent_def stamped_intent_def Let_def)
  qed
qed

lemma RecordObservation_succeeds:
  assumes inv: "engine_inv e" and ok: "healthy (en_store e)" and typed: "submission_typed s"
    and valid: "status_ok (ValidateSubmission s (en_limits e))"
    and size: "fits (observation_puts (stamp_observation s (stamp_or at_ms (ck_now ck)) e))"
      "length (octets (observation_puts (stamp_observation s (stamp_or at_ms (ck_now ck)) e)))
         \<le> max_journal_payload_bytes (en_limits e)"
    and first: "\<forall>d \<in> set (retained (su_scope s) e). ob_reporter d \<noteq> su_reporter s"
  shows "\<exists>x e'. RecordObservationAt ck s at_ms e = (Status_Ok, Some x, e')"
proof -
  let ?d = "stamp_observation s (stamp_or at_ms (ck_now ck)) e"
  have lim: "st_limits (en_store e) = en_limits e" "\<not> st_read_only (en_store e)"
    using inv by (simp_all add: engine_inv_def)
  have "mutation_valid (st_limits (en_store e)) (Mut_CommitObservation ?d)"
    using stamp_observation_ok [OF typed valid] size(1) lim by (simp add: observation_stored_def)
  then obtain s1 where s1: "store_CommitObservation ?d (en_store e) = (Status_Ok, s1)"
    using durable_put_succeeds [OF ok, of "Mut_CommitObservation ?d"] size lim
    by (auto simp: store_CommitObservation_def EncodeObservation_def fits_buffer)
  have "scan_stream s g ds None = Stream_Highest None" if "\<forall>d \<in> set ds. ob_reporter d \<noteq> su_reporter s" for g ds
    using that by (induction ds) simp_all
  then have "scan_stream s (ob_digest ?d) (lookup_or [] (map_find (su_scope s) (ds_observations (en_state e)))) None =
      Stream_Highest None"
    using first by (simp add: retained_def)
  then show ?thesis using s1 lim valid by (simp add: RecordObservationAt_def Let_def)
qed

text \<open>A store that works keeps working, whatever is appended to it and whether or not a compaction succeeds.\<close>

lemma Append_healthy: "Append ty payload (st_journal s) = (status, j) \<Longrightarrow> healthy s \<Longrightarrow> healthy (s\<lparr>st_journal := j\<rparr>)"
  by (auto simp: Append_def WriteAll_def FlushToDisk_def next_fault_def healthy_def Let_def split: if_splits)

lemma durable_put_healthy: "durable_put ty payload s = (status, s') \<Longrightarrow> healthy s \<Longrightarrow> healthy s'"
  using Append_healthy [of ty payload s]
  by (auto simp: durable_put_def AppendAndApply_def healthy_def Let_def split: if_splits sum.splits option.splits prod.splits)

lemma Compact_healthy: "Compact clock clock' clock'' s = (status, s') \<Longrightarrow> healthy s \<Longrightarrow> healthy s'"
  by (auto simp: Compact_def Reset_def Journal_Close_def WriteHeader_def WriteAll_def FlushToDisk_def next_fault_def
      healthy_def Let_def split: if_splits prod.splits)

lemma MaybeCompact_healthy: "healthy (en_store e) \<Longrightarrow> healthy (en_store (MaybeCompactLocked ck e))"
  by (auto simp: MaybeCompactLocked_def Let_def split: prod.split dest: Compact_healthy)

lemma CommitIntent_healthy: "engine_CommitIntent ck d e = (status, out, e') \<Longrightarrow> healthy (en_store e) \<Longrightarrow> healthy (en_store e')"
  by (auto simp: engine_CommitIntent_def store_CommitIntent_def Let_def MaybeCompact_healthy
      split: if_splits option.splits prod.splits dest: durable_put_healthy)

lemma RecordObservation_healthy:
  "RecordObservationAt ck x now e = (status, out, e') \<Longrightarrow> healthy (en_store e) \<Longrightarrow> healthy (en_store e')"
  by (auto simp: RecordObservationAt_def store_CommitObservation_def Let_def MaybeCompact_healthy
      split: if_splits option.splits prod.splits StreamVerdict.splits dest: durable_put_healthy)

end
