(* ===== verification/Scenario.thy ===== *)
theory Scenario
  imports Progress
begin

text \<open>
  A coordinator in the middle of its work, on which the theorems about engines are exercised: one
  scope with an intent and an observation that misses the declared subject, and three attempts, one
  verified, one dispatched and one applied.
\<close>

definition demo_scope :: ScopeId where "demo_scope = StringId ''s''"
definition demo_subject :: SubjectId where "demo_subject = StringId ''p''"
definition demo_boot :: BootId where "demo_boot = BootId (replicate 16 1)"
definition demo_clocks :: Clocks where
  "demo_clocks = \<lparr>ck_now = 5, ck_later = 6, ck_snapshot = 7, ck_header = 8, ck_report = 9\<rparr>"

definition demo_intent :: IntentDocument where
  "demo_intent = stamped_intent
     \<lparr>in_intent = StringId ''i'', in_scope = demo_scope, in_definition = StringId ''d'', in_generation = Counter 1,
      in_policy_version = Counter 1, in_evidence = Evidence_Unknown, in_complete = True,
      in_subjects = [(demo_subject, \<lparr>si_id = demo_subject, si_complete_attributes = True, si_desired = []\<rparr>)],
      in_digest = zero_digest\<rparr>"

definition demo_observation :: ObservationDocument where
  "demo_observation =
     (let d = \<lparr>ob_observation = StringId ''o'', ob_scope = demo_scope, ob_reporter = StringId ''r'',
        ob_generation = Counter 2, ob_evidence = Evidence_Unknown, ob_complete = True,
        ob_authoritative_absence = True, ob_received_epoch = Counter 1, ob_received_unix_ms = 0,
        ob_subjects = [], ob_digest = zero_digest\<rparr>
      in d\<lparr>ob_digest := ComputeObservationDigest d\<rparr>)"

definition demo_authority :: AuthorityVector where
  "demo_authority =
     \<lparr>av_coordinator_epoch = Counter 1, av_boot = demo_boot, av_policy_id = StringId [], av_policy_version = Counter 1,
      av_policy_digest = zero_digest, av_definition = StringId [], av_intent_generation = Counter 1,
      av_intent = StringId [], av_intent_digest = zero_digest, av_observation = StringId [],
      av_observation_generation = Counter 1, av_observation_reporter = StringId [],
      av_observation_digest = zero_digest, av_observation_epoch = Counter 1, av_observation_received_unix_ms = 0\<rparr>"

definition demo_attempt :: "u64 \<Rightarrow> AttemptState \<Rightarrow> AttemptRecord" where
  "demo_attempt n state =
     \<lparr>at_id = Counter n, at_idempotency_key = replicate 32 (ucast n), at_scope = demo_scope, at_subject = demo_subject,
      at_action = Action_ApplyDesired, at_epoch = Counter 1, at_boot = demo_boot, at_authority = demo_authority,
      at_state = state, at_issued_unix_ms = 0, at_transitions = []\<rparr>"

definition demo_state :: DurableState where
  "demo_state =
     \<lparr>ds_store = StoreId (replicate 16 1), ds_last_epoch = Counter 1, ds_sequence = Counter 7,
      ds_next_attempt = Counter 4, ds_has_policy = True, ds_policy = DefaultPolicy,
      ds_intents = [(demo_scope, demo_intent)],
      ds_intent_generations = [(demo_scope, [Counter 1])],
      ds_observations = [(demo_scope, [demo_observation])],
      ds_attempts = [(1, demo_attempt 1 Attempt_Verified), (2, demo_attempt 2 Attempt_Dispatched),
        (3, demo_attempt 3 Attempt_Applied)],
      ds_outcomes = [], ds_fences = [], ds_compactions = 0\<rparr>"

definition demo_store :: DurableStore where
  "demo_store =
     \<lparr>st_state = demo_state,
      st_journal = \<lparr>j_content = Some [], j_open = True, j_last_sequence = Counter 7, j_bytes_written = 0,
        j_limits = default_limits, j_read_only = False, j_write_failed = False, j_faults = []\<rparr>,
      st_files = \<lparr>sf_snapshot = None, sf_staging = None, sf_faults = []\<rparr>,
      st_limits = default_limits, st_read_only = False, st_locked = True\<rparr>"

definition demo_options :: EngineOptions where
  "demo_options =
     \<lparr>eo_store_dir = ''store'', eo_limits = default_limits, eo_create_if_missing = True, eo_read_only = False,
      eo_initial_policy = DefaultPolicy, eo_install_initial_policy = True, eo_auto_compact_after_records = 0\<rparr>"

definition demo_engine :: Engine where
  "demo_engine =
     \<lparr>en_store = demo_store, en_options = demo_options, en_boot_report = boot_report_new, en_stats = stats_new,
      en_live_epoch = Counter 1, en_live_boot = demo_boot, en_compaction_watermark = Counter 0\<rparr>"

text \<open>The parts of the scenario, so that proofs need not unfold it as a whole.\<close>

lemma demo_engine_fields [simp]:
  "en_state demo_engine = demo_state" "en_live_epoch demo_engine = Counter 1" "en_live_boot demo_engine = demo_boot"
  "eo_limits demo_options = default_limits" "en_options demo_engine = demo_options"
  "max_attempt_transitions default_limits = 16" "max_plan_actions default_limits = 262144"
  "st_limits (en_store demo_engine) = default_limits" "\<not> st_read_only (en_store demo_engine)"
  by (simp_all add: demo_engine_def demo_store_def demo_options_def default_limits_def)

lemma demo_state_fields [simp]:
  "ds_last_epoch demo_state = Counter 1" "ds_next_attempt demo_state = Counter 4" "ds_has_policy demo_state"
  "ds_policy demo_state = DefaultPolicy" "ds_intents demo_state = [(demo_scope, demo_intent)]"
  "ds_observations demo_state = [(demo_scope, [demo_observation])]" "ds_fences demo_state = []"
  "ds_outcomes demo_state = []"
  "ds_attempts demo_state = [(1, demo_attempt 1 Attempt_Verified), (2, demo_attempt 2 Attempt_Dispatched),
     (3, demo_attempt 3 Attempt_Applied)]"
  by (simp_all add: demo_state_def)

lemma demo_intent_fields [simp]:
  "in_intent demo_intent = StringId ''i''" "in_scope demo_intent = demo_scope" "in_definition demo_intent = StringId ''d''"
  "in_generation demo_intent = Counter 1" "in_complete demo_intent"
  "in_subjects demo_intent = [(demo_subject, \<lparr>si_id = demo_subject, si_complete_attributes = True, si_desired = []\<rparr>)]"
  by (simp_all add: demo_intent_def stamped_intent_def)

lemma demo_observation_fields [simp]:
  "ob_observation demo_observation = StringId ''o''" "ob_scope demo_observation = demo_scope"
  "ob_reporter demo_observation = StringId ''r''" "ob_generation demo_observation = Counter 2"
  "ob_complete demo_observation" "ob_authoritative_absence demo_observation"
  "ob_received_epoch demo_observation = Counter 1" "ob_received_unix_ms demo_observation = 0"
  "ob_subjects demo_observation = []"
  by (simp_all add: demo_observation_def Let_def)

lemma demo_attempt_fields [simp]:
  "at_id (demo_attempt n state) = Counter n" "at_state (demo_attempt n state) = state"
  "at_scope (demo_attempt n state) = demo_scope" "at_subject (demo_attempt n state) = demo_subject"
  "at_epoch (demo_attempt n state) = Counter 1" "at_boot (demo_attempt n state) = demo_boot"
  "at_idempotency_key (demo_attempt n state) = replicate 32 (ucast n)" "at_authority (demo_attempt n state) = demo_authority"
  by (simp_all add: demo_attempt_def)

lemma demo_ids [simp]: "valid_id demo_scope" "valid_id demo_subject" "wf_boot demo_boot"
  by (simp_all add: demo_scope_def demo_subject_def demo_boot_def valid_id_def wf_boot_def, code_simp, code_simp)

lemma demo_authority_ok [simp]: "authority_ok demo_authority"
  by (simp add: authority_ok_def demo_authority_def wf_id_def id_empty_def)

lemma demo_record_room [simp]: "record_room default_limits"
  by (simp add: record_room_def default_limits_def kMaxCanonicalBytes_def)

lemma demo_attempt_ok:
  assumes "n \<noteq> 0" "state \<noteq> Attempt_Invalid"
  shows "attempt_ok default_limits (demo_attempt n state)"
  using assms by (simp add: attempt_ok_def demo_attempt_def wf_digest_def kSha256Bytes_def)

lemma demo_attempts_stored: "n \<noteq> 0 \<Longrightarrow> state \<noteq> Attempt_Invalid \<Longrightarrow> attempt_stored default_limits (demo_attempt n state)"
  by (rule attempt_fits(1) [OF demo_attempt_ok demo_record_room])

lemma demo_documents:
  "valid_id (StringId ''i'' :: IntentId)" "valid_id (StringId ''d'' :: DefinitionId)"
  "valid_id (StringId ''o'' :: ObservationId)" "valid_id (StringId ''r'' :: ReporterId)"
  by (simp_all add: valid_id_def, code_simp+)

lemma demo_intent_stored: "intent_stored default_limits demo_intent"
proof -
  have "length (octets (intent_puts demo_intent)) \<le> 200"
    by (simp add: demo_intent_def stamped_intent_def intent_puts_def intent_content_puts_def subject_intent_puts_def
        EncodeState_def demo_scope_def demo_subject_def ComputeIntentDigest_def kSha256Bytes_def)
  moreover have "intent_ok default_limits demo_intent"
    by (simp add: intent_ok_def demo_intent_def stamped_intent_def demo_documents subjects_ok_def subject_intent_ok_def
        state_ok_def wf_map_def ComputeIntentDigest_def intent_content_puts_def default_limits_def)
  ultimately show ?thesis
    by (simp add: intent_stored_def fits_def kMaxCanonicalBytes_def)
qed

lemma demo_observation_stored: "observation_stored default_limits demo_observation"
proof -
  have "length (octets (observation_puts demo_observation)) \<le> 200"
    by (simp add: demo_observation_def observation_puts_def observation_content_puts_def
        demo_scope_def ComputeObservationDigest_def kSha256Bytes_def Let_def)
  moreover have "observation_ok default_limits demo_observation"
    by (simp add: demo_observation_def observation_ok_def demo_documents subjects_ok_def wf_map_def
        ComputeObservationDigest_def observation_content_puts_def Let_def)
  ultimately show ?thesis
    by (simp add: observation_stored_def fits_def kMaxCanonicalBytes_def)
qed

lemma demo_policy_stored: "policy_stored default_limits DefaultPolicy"
proof -
  have id: "TryParseId ''default/fail-closed'' = Some (StringId ''default/fail-closed'' :: PolicyId)"
    "valid_id (StringId ''default/fail-closed'' :: PolicyId)"
    by (simp_all add: TryParseId_def valid_id_def, code_simp, code_simp)
  have "policy_ok default_limits DefaultPolicy"
    by (simp add: policy_ok_def DefaultPolicy_def id canonical_policy_def default_limits_def id_empty_def)
  moreover have "length (octets (policy_puts DefaultPolicy)) \<le> 200"
    by (simp add: DefaultPolicy_def id policy_puts_def policy_content_puts_def key_list_puts_def ComputePolicyDigest_def
        kSha256Bytes_def)
  ultimately show ?thesis by (simp add: policy_stored_def fits_def kMaxCanonicalBytes_def)
qed

lemma demo_durable_wf: "durable_wf default_limits demo_state"
proof -
  have "scope_lists_ok default_limits (\<lambda>_. True) (ds_intent_generations demo_state)"
    by (simp add: scope_lists_ok_def demo_state_def) (simp add: default_limits_def)
  moreover have "scope_lists_ok default_limits (observation_stored default_limits) (ds_observations demo_state)"
    using demo_observation_stored by (simp add: scope_lists_ok_def) (simp add: default_limits_def)
  moreover have "table_ok in_scope (intent_stored default_limits) (ds_intents demo_state)"
    by (simp add: table_ok_def demo_intent_stored)
  moreover have "table_ok (\<lambda>a. cval (at_id a)) (attempt_stored default_limits) (ds_attempts demo_state)"
    by (simp add: table_ok_def demo_attempts_stored)
  ultimately show ?thesis
    using demo_policy_stored
    by (simp add: durable_wf_def) (simp add: demo_state_def wf_store_id_def table_ok_def)
qed

lemma demo_engine_inv: "engine_inv demo_engine"
proof -
  have "lineage_ok (Counter 1) demo_boot demo_state"
    by (auto simp: lineage_ok_def map_find_def lookup_or_def split: if_splits option.splits)
  then show ?thesis
    using demo_durable_wf by (simp add: engine_inv_def)
qed

lemma demo_healthy: "healthy (en_store demo_engine)"
  by (simp add: healthy_def demo_engine_def demo_store_def)

section \<open>Its plan\<close>

definition demo_request :: PlanRequest where
  "demo_request = \<lparr>pq_scope = demo_scope, pq_policy = None, pq_now_unix_ms = 5, pq_dry_run = False\<rparr>"

lemma demo_policy_id: "po_id DefaultPolicy = StringId ''default/fail-closed''"
  by (simp add: DefaultPolicy_def TryParseId_def) code_simp

text \<open>What the scope of the scenario is classified from.\<close>

lemma demo_input:
  defines "input \<equiv> plan_input demo_clocks demo_request demo_engine"
  shows "ci_scope input = demo_scope" "\<not> id_empty demo_scope"
    "ci_intents input = [Some demo_intent]" "ci_observations input = [Some demo_observation]"
    "ci_policy input = Some DefaultPolicy" "plan_policy demo_request demo_engine = DefaultPolicy"
    "full_classification input DefaultPolicy demo_intent demo_observation"
proof -
  show in_fields: "ci_scope input = demo_scope" "\<not> id_empty demo_scope"
    "ci_intents input = [Some demo_intent]" "ci_observations input = [Some demo_observation]"
    "ci_policy input = Some DefaultPolicy" "plan_policy demo_request demo_engine = DefaultPolicy"
    by (simp_all add: input_def plan_input_fields demo_request_def map_find_def demo_scope_def id_empty_def
        retained_def lookup_or_def plan_policy_def)
  have "EvaluateFreshness demo_observation (po_freshness DefaultPolicy) (Counter 1) 5 = Fresh_Fresh"
    by (simp add: EvaluateFreshness_def DefaultPolicy_def)
  moreover have "ci_live_epoch input = Counter 1" "ci_now_unix_ms input = 5"
    "ci_committed_intent_generation input = in_generation demo_intent"
    by (simp_all add: input_def plan_input_fields plan_now_def stamp_or_def demo_request_def plan_input_def
        scope_input_def map_find_def Let_def)
  ultimately show "full_classification input DefaultPolicy demo_intent demo_observation"
    using in_fields
    by (simp add: full_classification_def SelectCurrentIntent_def SelectCurrentObservation_def clash_def)
qed

lemma demo_classification:
  "\<exists>rep. ClassifyScope (plan_input demo_clocks demo_request demo_engine) = Inr rep \<and>
     cr_evidence rep = scope_evidence (plan_input demo_clocks demo_request demo_engine) DefaultPolicy
       (Some demo_intent) (Some demo_observation) \<and>
     map dr_drift (cr_records rep) = [Drift_Missing] \<and> map dr_scope (cr_records rep) = [demo_scope] \<and>
     map dr_subject (cr_records rep) = [demo_subject]"
proof -
  let ?in = "plan_input demo_clocks demo_request demo_engine"
  note full = demo_input(7) [unfolded full_classification_def]
  have sel: "is_selected (SelectCurrentIntent (ci_intents ?in)) = Some demo_intent"
    "os_selected (SelectCurrentObservation (ci_observations ?in)) = Some demo_observation"
    using full by simp_all
  have "\<exists>rep. ClassifyScope ?in = Inr rep"
    using sel demo_input(1-5) full selected_not_conflicted(1) [of "ci_intents ?in" demo_intent]
      selected_not_conflicted(2) [of "ci_observations ?in" demo_observation]
    by (simp add: ClassifyScope_def Let_def)
  then obtain rep where rep: "ClassifyScope ?in = Inr rep" by blast
  have keys: "merge_keys (in_subjects demo_intent) (ob_subjects demo_observation) = [demo_subject]"
    by (simp add: merge_keys_def map_keys_def)
  have "cr_records rep = [fst (reference_record ?in DefaultPolicy demo_intent demo_observation demo_subject)]"
    using ClassifyScope_compares [OF rep demo_input(7)] keys by simp
  moreover have "dr_drift (fst (reference_record ?in DefaultPolicy demo_intent demo_observation demo_subject)) = Drift_Missing"
    by (simp add: reference_record_def map_find_def MakeRecord_def)
  moreover have "dr_scope (fst (reference_record ?in DefaultPolicy demo_intent demo_observation demo_subject)) = demo_scope"
    "dr_subject (fst (reference_record ?in DefaultPolicy demo_intent demo_observation demo_subject)) = demo_subject"
    by (simp_all add: reference_record_def map_find_def MakeRecord_def demo_input)
  ultimately show ?thesis
    using rep ClassifyScope_evidence [OF rep demo_input(5)] sel by simp
qed

lemma BuildPlanLocked_succeeds:
  assumes "\<not> id_empty (pq_scope request)" "ds_has_policy (en_state e)"
    "ClassifyScope (plan_input ck request e) = Inr rep"
  shows "\<exists>plan e'. BuildPlanLocked ck request e = (Inr plan, e')"
  using assms
  by (simp add: BuildPlanLocked_def plan_input_def plan_policy_def plan_now_def Let_def split: prod.split)

lemma demo_plan:
  "\<exists>plan e'. BuildPlanLocked demo_clocks demo_request demo_engine = (Inr plan, e') \<and>
     map de_disposition (pl_decisions plan) = [Disp_Actionable]"
proof -
  let ?in = "plan_input demo_clocks demo_request demo_engine"
  obtain rep r where rep: "ClassifyScope ?in = Inr rep" "cr_records rep = [r]"
      "cr_evidence rep = scope_evidence ?in DefaultPolicy (Some demo_intent) (Some demo_observation)"
    and r: "dr_drift r = Drift_Missing" "dr_scope r = demo_scope" "dr_subject r = demo_subject"
    using demo_classification by auto
  let ?pc = "plan_context DefaultPolicy ?in (cr_evidence rep) demo_engine"
  have fresh: "ev_freshness (cr_evidence rep) = Fresh_Fresh"
    using demo_input(7) by (simp add: rep(3) scope_evidence_def full_classification_def Let_def)
  have "aa_proven (assess_subject ?pc demo_scope demo_subject demo_engine)"
    unfolding assess_subject_def AssessAuthority_proven
  proof
    fix c
    show "\<not> component_fails (pc_authority ?pc) (pc_live ?pc) (ev_freshness (pc_evidence ?pc) = Fresh_Fresh)
        (FenceHoldsFor demo_scope demo_subject (en_live_epoch demo_engine) demo_engine) c"
      using fresh demo_policy_id
      by (cases c) (simp_all add: plan_context_def BuildAuthority_def rep(3) scope_evidence_def id_empty_def
          FenceHoldsFor_def Let_def)
  qed
  then have act: "de_disposition (fst (decide ?pc demo_engine r)) = Disp_Actionable"
    using r by (simp add: decide_def plan_context_def DefaultPolicy_def Let_def)
  obtain plan e' where plan: "BuildPlanLocked demo_clocks demo_request demo_engine = (Inr plan, e')"
    using BuildPlanLocked_succeeds [OF _ _ rep(1)] demo_input(2) by (auto simp: demo_request_def)
  obtain rep' where "ClassifyScope ?in = Inr rep'" "pl_decisions plan =
       map (\<lambda>r. fst (decide (plan_context (plan_policy demo_request demo_engine) ?in (cr_evidence rep') demo_engine) demo_engine r))
         (take (max_plan_actions (en_limits demo_engine)) (cr_records rep'))"
    using BuildPlanLocked_parts [OF plan] by metis
  then have "map de_disposition (pl_decisions plan) = [Disp_Actionable]"
    using rep(1,2) act demo_input(6) by simp
  then show ?thesis using plan by metis
qed

section \<open>Booting from an empty directory\<close>

definition fresh_disk :: StoreDisk where
  "fresh_disk = \<lparr>dk_directory = Directory_Missing, dk_create_fails = False, dk_lock_held = False,
     dk_files = \<lparr>sf_snapshot = None, sf_staging = None, sf_faults = []\<rparr>, dk_journal = None, dk_journal_faults = []\<rparr>"

lemma fresh_store_opens:
  assumes "wf_store_id gen"
  shows "\<exists>report s. Store_Open limits True False gen clock clock' fresh_disk = (Status_Ok, report, s) \<and>
    length (file_bytes (st_journal s)) = kJournalHeaderBytes \<and> st_state s = durable_new\<lparr>ds_store := gen\<rparr> \<and>
    (record_room limits \<longrightarrow> healthy s)"
  using assms length_header_image [OF assms, of clock "Counter 0"]
  by (auto simp: Store_Open_def open_locked_def RemoveStagingFile_def remove_staging_def snapshot_fault_def fresh_disk_def
      ReadSnapshot_def Journal_Open_def open_fresh_def next_fault_def WriteHeader_def WriteAll_def
      FlushToDisk_def file_bytes_def load_snapshot_def report_new_def healthy_def durable_new_def Let_def journal_consts
      length_0_conv [symmetric] simp del: length_0_conv)

lemma demo_gen: "wf_store_id (StoreId (replicate 16 1))" by (simp add: wf_store_id_def)

lemma fresh_resumable: "wf_store_id gen \<Longrightarrow> resumable limits (durable_new\<lparr>ds_store := gen\<rparr>)"
  using durable_wf_new [of gen limits] by (simp add: resumable_def) (simp add: durable_new_def map_find_def lookup_or_def)

lemma begin_epoch_fresh:
  assumes run: "begin_epoch clock e = (Status_Ok, e')" and none: "ds_attempts (en_state e) = []" and ok: "healthy (en_store e)"
  defines "nxt \<equiv> Counter (cval (ds_last_epoch (en_state e)) + 1)"
  shows "\<exists>q. en_state e' = (en_state e)\<lparr>ds_last_epoch := nxt, ds_sequence := q\<rparr>" "healthy (en_store e')"
    "en_live_epoch e' = nxt" "en_live_boot e' = en_live_boot e" "en_options e' = en_options e"
proof -
  obtain advanced s1 where adv: "store_AdvanceEpoch nxt (en_store e) = (advanced, s1)" by force
  have a: "status_ok advanced" using run adv by (auto simp: begin_epoch_def nxt_def [symmetric] Let_def split: if_splits)
  have "cval (ds_last_epoch (en_state e)) < cval nxt" using AdvanceEpoch_state(1) [OF adv a] by (simp add: less_counter_def)
  then obtain q where q: "st_state s1 = (en_state e)\<lparr>ds_last_epoch := nxt, ds_sequence := q\<rparr>"
    using AdvanceEpoch_state(2) [OF adv a] by (auto simp: state_becomes_def apply_epoch_def)
  have "healthy s1" using adv a ok durable_put_healthy by (auto simp: store_AdvanceEpoch_def split: if_splits)
  then show "\<exists>q. en_state e' = (en_state e)\<lparr>ds_last_epoch := nxt, ds_sequence := q\<rparr>" "healthy (en_store e')"
    "en_live_epoch e' = nxt" "en_live_boot e' = en_live_boot e" "en_options e' = en_options e"
    using run adv a q none
    by (auto simp: begin_epoch_def nxt_def [symmetric] CommitRestartFencing_def live_attempts_def Let_def)
qed

text \<open>On an empty directory every boot that may create the store succeeds.\<close>

lemma fresh_boots:
  assumes gen: "wf_store_id gen" and boot: "wf_boot boot"
    and options: "eo_limits options = default_limits" "eo_create_if_missing options" "\<not> eo_read_only options"
      "eo_install_initial_policy options" "id_empty (po_id (eo_initial_policy options)) \<or> eo_initial_policy options = DefaultPolicy"
      "policy_typed (eo_initial_policy options)"
  shows "\<exists>report s e. Store_Open default_limits True False gen (ck_header ck) (ck_report ck) fresh_disk = (Status_Ok, report, s) \<and>
     resumable default_limits (st_state s) \<and> Boot options gen boot clock ck fresh_disk = (Status_Ok, e) \<and>
     (\<exists>q. en_state e = (apply_policy DefaultPolicy (durable_new\<lparr>ds_store := gen\<rparr>))\<lparr>ds_last_epoch := Counter 1, ds_sequence := q\<rparr>) \<and>
     healthy (en_store e) \<and> en_live_epoch e = Counter 1 \<and> en_live_boot e = boot \<and> en_options e = options"
proof -
  obtain report s where s: "Store_Open default_limits True False gen (ck_header ck) (ck_report ck)
      fresh_disk = (Status_Ok, report, s)" "st_state s = durable_new\<lparr>ds_store := gen\<rparr>" "healthy s"
    using fresh_store_opens [OF gen, of default_limits] demo_record_room by blast
  note f = Store_Open_fields [OF s(1)]
  have res: "resumable default_limits (st_state s)" unfolding s(2) by (rule fresh_resumable [OF gen])
  define e0 where "e0 = \<lparr>en_store = s, en_options = options, en_boot_report = boot_report_of report s,
               en_stats = stats_new, en_live_epoch = Counter 0, en_live_boot = boot,
               en_compaction_watermark = Counter 0\<rparr>"
  have "canonical_policy default_limits DefaultPolicy" using demo_policy_stored by (simp add: policy_stored_def policy_ok_def)
  note canon = CanonicalisePolicy_fixed [OF this]
  have "length (EncodePolicy DefaultPolicy) \<le> 200"
    using demo_policy_id by (simp add: EncodePolicy_def puts_buffer_octets policy_puts_def policy_content_puts_def key_list_puts_def
        ComputePolicyDigest_def kSha256Bytes_def) (simp add: DefaultPolicy_def)
  then obtain s1 where s1: "store_PutPolicy DefaultPolicy s = (Status_Ok, s1)" "healthy s1"
      "state_becomes s (apply_policy DefaultPolicy) s1"
    using durable_put_succeeds [OF s(3), of "Mut_PutPolicy DefaultPolicy"] demo_policy_stored f(1)
    by (auto simp: store_PutPolicy_def default_limits_def)
  have "(if id_empty (po_id (eo_initial_policy options)) then DefaultPolicy else eo_initial_policy options) = DefaultPolicy"
    using options(5) by auto
  then have inst: "install_policy e0 = (Status_Ok, e0\<lparr>en_store := s1\<rparr>)"
    using s1(1) options(1,4)
    by (simp add: install_policy_def e0_def s(2) Let_def canon) (simp add: durable_new_def)
  have I: "resumable default_limits (st_state s1)"
    using install_policy_effect(1) [OF inst] res f options(1,6) by (simp add: e0_def)
  obtain q1 where q1: "st_state s1 = (apply_policy DefaultPolicy (durable_new\<lparr>ds_store := gen\<rparr>))\<lparr>ds_sequence := q1\<rparr>"
    using s1(3) by (auto simp: state_becomes_def s(2))
  then have st1: "ds_last_epoch (st_state s1) = Counter 0" "st_limits s1 = default_limits" "ds_attempts (st_state s1) = []"
    using s1(3) f by (simp_all add: state_becomes_def apply_policy_def durable_new_def)
  then obtain e where e: "begin_epoch clock (e0\<lparr>en_store := s1\<rparr>) = (Status_Ok, e)"
    using begin_epoch_succeeds [of "e0\<lparr>en_store := s1\<rparr>" clock] I s1(2) options(1) boot by (auto simp: e0_def)
  have "Boot options gen boot clock ck fresh_disk = (Status_Ok, e)"
    using s(1) inst e options(1-3) by (simp add: Boot_def e0_def Let_def)
  moreover note b = begin_epoch_fresh [OF e]
  have "healthy (en_store e)" "en_live_epoch e = Counter 1" "en_live_boot e = boot" "en_options e = options"
    "\<exists>q. en_state e = (apply_policy DefaultPolicy (durable_new\<lparr>ds_store := gen\<rparr>))\<lparr>ds_last_epoch := Counter 1, ds_sequence := q\<rparr>"
    using b s1(2) st1 q1 by (simp_all add: e0_def)
  ultimately show ?thesis using s(1) res by blast
qed

lemma demo_boots:
  "\<exists>report s e. Store_Open default_limits True False (StoreId (replicate 16 1)) (ck_header demo_clocks) (ck_report demo_clocks)
     fresh_disk = (Status_Ok, report, s) \<and> resumable default_limits (st_state s) \<and>
     Boot demo_options (StoreId (replicate 16 1)) demo_boot 5 demo_clocks fresh_disk = (Status_Ok, e)"
proof -
  have "policy_typed DefaultPolicy"
    using demo_policy_stored by (simp add: policy_typed_def wf_id_def policy_stored_def policy_ok_def DefaultPolicy_def)
  then show ?thesis
    using fresh_boots [OF demo_gen demo_ids(3), of demo_options demo_clocks 5] by (auto simp: demo_options_def)
qed

section \<open>Requests against it\<close>

definition demo_completion :: "AttemptState \<Rightarrow> CompletionRequest" where
  "demo_completion target =
     \<lparr>cq_attempt = Counter 2, cq_epoch = Counter 1, cq_boot = demo_boot, cq_idempotency_key = replicate 32 2,
      cq_target = target, cq_at_unix_ms = 5, cq_reason = Reason_None, cq_detail = []\<rparr>"

lemma demo_completable:
  "TransitionLegal Attempt_Dispatched target \<Longrightarrow>
     completable (demo_completion target) demo_engine (demo_attempt 2 Attempt_Dispatched)"
  by (simp add: completable_def demo_completion_def map_find_def)

definition demo_evidence :: VerificationEvidence where
  "demo_evidence =
     \<lparr>ve_scope = demo_scope, ve_subject = demo_subject, ve_idempotency_key = replicate 32 3, ve_observation = StringId ''o'',
      ve_generation = Counter 2, ve_received_epoch = Counter 1, ve_verifier = StringId ''r'', ve_applier = StringId ''w'',
      ve_received_unix_ms = 5, ve_confirms_effect = True\<rparr>"

lemma demo_verifiable:
  "verifiable demo_clocks demo_evidence demo_engine (demo_attempt 3 Attempt_Applied) demo_observation"
proof -
  have keys: "replicate 32 (1 :: 8 word) \<noteq> replicate 32 3" "replicate 32 (2 :: 8 word) \<noteq> replicate 32 3"
    by (simp_all add: replicate_eq_replicate)
  then have "find_by_key (replicate 32 3) demo_state = Some (demo_attempt 3 Attempt_Applied)"
    by (simp add: find_by_key_def)
  then show ?thesis
    by (simp add: verifiable_def demo_evidence_def find_evidence_def map_find_def lookup_or_def less_counter_def
        demo_authority_def EvaluateFreshness_def DefaultPolicy_def demo_clocks_def)
qed

definition demo_next_intent :: IntentDocument where
  "demo_next_intent = demo_intent\<lparr>in_generation := Counter 2\<rparr>"

lemma demo_next_intent_ok:
  "intent_typed demo_next_intent" "status_ok (ValidateIntent demo_next_intent default_limits)"
  "fits (intent_puts (stamped_intent demo_next_intent))"
  "length (octets (intent_puts (stamped_intent demo_next_intent))) \<le> max_journal_payload_bytes default_limits"
  "map_find (in_scope demo_next_intent) (ds_intents (en_state demo_engine)) = Some old \<Longrightarrow>
     in_generation old < in_generation demo_next_intent"
proof -
  show "intent_typed demo_next_intent"
    using demo_ids by (simp add: intent_typed_def demo_next_intent_def wf_id_def demo_documents state_typed_def)
  show "status_ok (ValidateIntent demo_next_intent default_limits)"
    by (simp add: ValidateIntent_def demo_next_intent_def id_empty_def demo_scope_def demo_subject_def validate_subject_def
        ValidateState_def default_limits_def Let_def)
  have "length (octets (intent_puts (stamped_intent demo_next_intent))) \<le> 200"
    by (simp add: demo_next_intent_def stamped_intent_def intent_puts_def intent_content_puts_def subject_intent_puts_def
        EncodeState_def demo_scope_def demo_subject_def ComputeIntentDigest_def kSha256Bytes_def)
  then show "fits (intent_puts (stamped_intent demo_next_intent))"
    "length (octets (intent_puts (stamped_intent demo_next_intent))) \<le> max_journal_payload_bytes default_limits"
    by (simp_all add: fits_def kMaxCanonicalBytes_def default_limits_def)
  show "map_find (in_scope demo_next_intent) (ds_intents (en_state demo_engine)) = Some old \<Longrightarrow>
     in_generation old < in_generation demo_next_intent"
    by (auto simp: demo_next_intent_def map_find_def less_counter_def)
qed

definition demo_submission :: ObservationSubmission where
  "demo_submission =
     \<lparr>su_observation = StringId ''o'', su_scope = demo_scope, su_reporter = StringId ''w'', su_generation = Counter 1,
      su_evidence = Evidence_Unknown, su_complete = True, su_authoritative_absence = True, su_subjects = []\<rparr>"

lemma demo_submission_ok:
  "submission_typed demo_submission" "status_ok (ValidateSubmission demo_submission default_limits)"
  "fits (observation_puts (stamp_observation demo_submission t demo_engine))"
  "length (octets (observation_puts (stamp_observation demo_submission t demo_engine))) \<le> max_journal_payload_bytes default_limits"
  "\<forall>d \<in> set (retained (su_scope demo_submission) demo_engine). ob_reporter d \<noteq> su_reporter demo_submission"
proof -
  have "valid_id (StringId ''w'' :: ReporterId)" by (simp add: valid_id_def) code_simp
  then show "submission_typed demo_submission"
    using demo_ids by (simp add: submission_typed_def demo_submission_def wf_id_def demo_documents)
  show "status_ok (ValidateSubmission demo_submission default_limits)"
    by (simp add: ValidateSubmission_def demo_submission_def id_empty_def demo_scope_def default_limits_def)
  have "length (octets (observation_puts (stamp_observation demo_submission t demo_engine))) \<le> 200"
    by (simp add: stamp_observation_def demo_submission_def observation_puts_def observation_content_puts_def
        demo_scope_def ComputeObservationDigest_def kSha256Bytes_def Let_def)
  then show "fits (observation_puts (stamp_observation demo_submission t demo_engine))"
    "length (octets (observation_puts (stamp_observation demo_submission t demo_engine))) \<le> max_journal_payload_bytes default_limits"
    by (simp_all add: fits_def kMaxCanonicalBytes_def default_limits_def)
  show "\<forall>d \<in> set (retained (su_scope demo_submission) demo_engine). ob_reporter d \<noteq> su_reporter demo_submission"
    by (simp add: retained_def demo_submission_def map_find_def lookup_or_def)
qed

end
