(* ===== verification/Wire.thy ===== *)
theory Wire
  imports Journal
begin

text \<open>
  The framed wire protocol of \<open>wire.cpp\<close>: message types and operations, the 64-byte frame header
  with its digest, and the incremental frame reader. A reader fed with a byte stream in chunks of any
  size delivers the same frames as one fed with the whole stream; a frame is delivered only when the
  consumed bytes are its exact encoding; the first malformed frame stops the reader for good.
\<close>

section \<open>Message types and operations\<close>

definition kWireProtocolVersion :: u16 where "kWireProtocolVersion = 1"
definition kWireHeaderBytes :: nat where "kWireHeaderBytes = 64"
definition kWireDigestOffset :: nat where "kWireDigestOffset = 32"
definition kWireMagic :: bytes where "kWireMagic = [0x46, 0x52, 0x50, 0x31]"

lemmas wire_consts = kWireProtocolVersion_def kWireHeaderBytes_def kWireDigestOffset_def kWireMagic_def

datatype WireMessageType = Msg_Invalid | Msg_Hello | Msg_Welcome | Msg_Request | Msg_Response | Msg_Error
  | Msg_Ping | Msg_Pong | Msg_Goodbye

fun WireMessageType_u16 :: "WireMessageType \<Rightarrow> u16" where
  "WireMessageType_u16 Msg_Invalid = 0"
| "WireMessageType_u16 Msg_Hello = 1"
| "WireMessageType_u16 Msg_Welcome = 2"
| "WireMessageType_u16 Msg_Request = 3"
| "WireMessageType_u16 Msg_Response = 4"
| "WireMessageType_u16 Msg_Error = 5"
| "WireMessageType_u16 Msg_Ping = 6"
| "WireMessageType_u16 Msg_Pong = 7"
| "WireMessageType_u16 Msg_Goodbye = 8"

fun WireMessageType_text :: "WireMessageType \<Rightarrow> string" where
  "WireMessageType_text Msg_Invalid = ''INVALID''"
| "WireMessageType_text Msg_Hello = ''HELLO''"
| "WireMessageType_text Msg_Welcome = ''WELCOME''"
| "WireMessageType_text Msg_Request = ''REQUEST''"
| "WireMessageType_text Msg_Response = ''RESPONSE''"
| "WireMessageType_text Msg_Error = ''ERROR''"
| "WireMessageType_text Msg_Ping = ''PING''"
| "WireMessageType_text Msg_Pong = ''PONG''"
| "WireMessageType_text Msg_Goodbye = ''GOODBYE''"

text \<open>A \<open>static_cast\<close> to an enumeration is the value with that number.\<close>

definition TryParseWireMessageType :: "u16 \<Rightarrow> WireMessageType option" where
  "TryParseWireMessageType raw =
     (if raw < WireMessageType_u16 Msg_Hello \<or> raw > WireMessageType_u16 Msg_Goodbye then None
      else find (\<lambda>ty. WireMessageType_u16 ty = raw) [Msg_Hello, Msg_Welcome, Msg_Request, Msg_Response,
             Msg_Error, Msg_Ping, Msg_Pong, Msg_Goodbye])"

datatype WireOperation = Op_Invalid | Op_ActivePolicy | Op_PutPolicy | Op_CommitIntent | Op_RecordObservation
  | Op_Classify | Op_Plan | Op_Dispatch | Op_Complete | Op_Verify | Op_PutFence | Op_ClearFence
  | Op_KnownScopes | Op_Attempts | Op_Outcomes | Op_BootReport | Op_Compact

fun WireOperation_u16 :: "WireOperation \<Rightarrow> u16" where
  "WireOperation_u16 Op_Invalid = 0"
| "WireOperation_u16 Op_ActivePolicy = 1"
| "WireOperation_u16 Op_PutPolicy = 2"
| "WireOperation_u16 Op_CommitIntent = 3"
| "WireOperation_u16 Op_RecordObservation = 4"
| "WireOperation_u16 Op_Classify = 5"
| "WireOperation_u16 Op_Plan = 6"
| "WireOperation_u16 Op_Dispatch = 7"
| "WireOperation_u16 Op_Complete = 8"
| "WireOperation_u16 Op_Verify = 9"
| "WireOperation_u16 Op_PutFence = 10"
| "WireOperation_u16 Op_ClearFence = 11"
| "WireOperation_u16 Op_KnownScopes = 12"
| "WireOperation_u16 Op_Attempts = 13"
| "WireOperation_u16 Op_Outcomes = 14"
| "WireOperation_u16 Op_BootReport = 15"
| "WireOperation_u16 Op_Compact = 16"

fun WireOperation_text :: "WireOperation \<Rightarrow> string" where
  "WireOperation_text Op_Invalid = ''INVALID''"
| "WireOperation_text Op_ActivePolicy = ''ACTIVE_POLICY''"
| "WireOperation_text Op_PutPolicy = ''PUT_POLICY''"
| "WireOperation_text Op_CommitIntent = ''COMMIT_INTENT''"
| "WireOperation_text Op_RecordObservation = ''RECORD_OBSERVATION''"
| "WireOperation_text Op_Classify = ''CLASSIFY''"
| "WireOperation_text Op_Plan = ''PLAN''"
| "WireOperation_text Op_Dispatch = ''DISPATCH''"
| "WireOperation_text Op_Complete = ''COMPLETE''"
| "WireOperation_text Op_Verify = ''VERIFY''"
| "WireOperation_text Op_PutFence = ''PUT_FENCE''"
| "WireOperation_text Op_ClearFence = ''CLEAR_FENCE''"
| "WireOperation_text Op_KnownScopes = ''KNOWN_SCOPES''"
| "WireOperation_text Op_Attempts = ''ATTEMPTS''"
| "WireOperation_text Op_Outcomes = ''OUTCOMES''"
| "WireOperation_text Op_BootReport = ''BOOT_REPORT''"
| "WireOperation_text Op_Compact = ''COMPACT''"

definition TryParseWireOperation :: "u16 \<Rightarrow> WireOperation option" where
  "TryParseWireOperation raw =
     (if raw < WireOperation_u16 Op_ActivePolicy \<or> raw > WireOperation_u16 Op_Compact then None
      else find (\<lambda>op. WireOperation_u16 op = raw) [Op_ActivePolicy, Op_PutPolicy, Op_CommitIntent,
             Op_RecordObservation, Op_Classify, Op_Plan, Op_Dispatch, Op_Complete, Op_Verify, Op_PutFence,
             Op_ClearFence, Op_KnownScopes, Op_Attempts, Op_Outcomes, Op_BootReport, Op_Compact])"

section \<open>Frames\<close>

record FrameHeader =
  fh_protocol_version :: u16
  fh_type :: WireMessageType
  fh_flags :: u16
  fh_payload_len :: u32
  fh_session_id :: u64
  fh_sequence :: u64

definition FrameHeader_new :: FrameHeader where
  "FrameHeader_new = \<lparr>fh_protocol_version = kWireProtocolVersion, fh_type = Msg_Invalid, fh_flags = 0,
     fh_payload_len = 0, fh_session_id = 0, fh_sequence = 0\<rparr>"

text \<open>Writes into an image that is long enough: the bytes at the offset are replaced.\<close>

definition overwrite :: "nat \<Rightarrow> bytes \<Rightarrow> bytes \<Rightarrow> bytes" where
  "overwrite off bs img = take off img @ bs @ drop (off + length bs) img"

definition wire_StoreU16 :: "nat \<Rightarrow> u16 \<Rightarrow> bytes \<Rightarrow> bytes" where
  "wire_StoreU16 off v img = overwrite off (le_store 2 v) img"

definition wire_StoreU32 :: "nat \<Rightarrow> u32 \<Rightarrow> bytes \<Rightarrow> bytes" where
  "wire_StoreU32 off v img = overwrite off (le_store 4 v) img"

definition wire_StoreU64 :: "nat \<Rightarrow> u64 \<Rightarrow> bytes \<Rightarrow> bytes" where
  "wire_StoreU64 off v img = overwrite off (le_store 8 v) img"

definition wire_LoadU16 :: "bytes \<Rightarrow> nat \<Rightarrow> u16" where
  "wire_LoadU16 bs off = le_load (slice off 2 bs)"

definition wire_LoadU32 :: "bytes \<Rightarrow> nat \<Rightarrow> u32" where
  "wire_LoadU32 bs off = le_load (slice off 4 bs)"

definition wire_LoadU64 :: "bytes \<Rightarrow> nat \<Rightarrow> u64" where
  "wire_LoadU64 bs off = le_load (slice off 8 bs)"

definition EncodeFrame :: "FrameHeader \<Rightarrow> bytes \<Rightarrow> bytes" where
  "EncodeFrame h payload =
     (let img = replicate kWireHeaderBytes 0;
          img = overwrite 0 kWireMagic img;
          img = wire_StoreU16 4 (fh_protocol_version h) img;
          img = wire_StoreU16 6 (WireMessageType_u16 (fh_type h)) img;
          img = wire_StoreU16 8 (fh_flags h) img;
          img = wire_StoreU16 10 0 img;
          img = wire_StoreU32 12 (of_nat (length payload)) img;
          img = wire_StoreU64 16 (fh_session_id h) img;
          img = wire_StoreU64 24 (fh_sequence h) img;
          digest = Final (Update payload (Update (take kWireDigestOffset img) Sha256_new));
          img = overwrite kWireDigestOffset digest img
      in img @ payload)"

definition DecodeFrameHeader :: "bytes \<Rightarrow> u32 \<Rightarrow> Status + FrameHeader" where
  "DecodeFrameHeader data max_payload =
     (if length data < kWireHeaderBytes then Inl (Status Code_Indeterminate Reason_FrameTruncated)
      else if take 4 data \<noteq> kWireMagic then Inl (Status Code_Rejected Reason_FrameMagicInvalid)
      else if wire_LoadU16 data 4 \<noteq> kWireProtocolVersion
        then Inl (Status Code_Unsupported Reason_FrameVersionUnsupported)
      else case TryParseWireMessageType (wire_LoadU16 data 6) of
        None \<Rightarrow> Inl (Status Code_Rejected Reason_FrameTypeUnknown)
      | Some ty \<Rightarrow>
          if wire_LoadU16 data 10 \<noteq> 0 then Inl (Status Code_Rejected Reason_FrameTypeUnknown)
          else if wire_LoadU32 data 12 > max_payload
          then Inl (Status Code_LimitExceeded Reason_FramePayloadTooLarge)
          else Inr \<lparr>fh_protocol_version = wire_LoadU16 data 4, fh_type = ty, fh_flags = wire_LoadU16 data 8,
                    fh_payload_len = wire_LoadU32 data 12, fh_session_id = wire_LoadU64 data 16,
                    fh_sequence = wire_LoadU64 data 24\<rparr>)"

definition VerifyFrameImage :: "bytes \<Rightarrow> Status" where
  "VerifyFrameImage img =
     (if length img < kWireHeaderBytes then Status Code_Indeterminate Reason_FrameTruncated
      else if take 4 img \<noteq> kWireMagic then Status Code_Rejected Reason_FrameMagicInvalid
      else if length img \<noteq> kWireHeaderBytes + unat (wire_LoadU32 img 12)
        then Status Code_Rejected Reason_FrameTrailingBytes
      else let digest = Final (Update (slice kWireHeaderBytes (unat (wire_LoadU32 img 12)) img)
                         (Update (take kWireDigestOffset img) Sha256_new))
        in if slice kWireDigestOffset (length digest) img \<noteq> digest
           then Status Code_IntegrityFailure Reason_FrameDigestMismatch
           else Status_Ok)"

section \<open>The frame reader\<close>

record FrameReader =
  fr_buffer :: bytes
  fr_offset :: nat
  fr_max_payload :: u32
  fr_failed :: bool
  fr_failure :: Status

definition FrameReader_new :: "u32 \<Rightarrow> FrameReader" where
  "FrameReader_new max_payload = \<lparr>fr_buffer = [], fr_offset = 0, fr_max_payload = max_payload,
     fr_failed = False, fr_failure = Status_Ok\<rparr>"

definition Feed :: "bytes \<Rightarrow> FrameReader \<Rightarrow> FrameReader" where
  "Feed bs r = (if fr_failed r \<or> bs = [] then r else r\<lparr>fr_buffer := fr_buffer r @ bs\<rparr>)"

definition buffered :: "FrameReader \<Rightarrow> nat" where
  "buffered r = length (fr_buffer r) - fr_offset r"

definition reader_Compact :: "FrameReader \<Rightarrow> FrameReader" where
  "reader_Compact r =
     (if fr_offset r = 0 then r else r\<lparr>fr_buffer := drop (fr_offset r) (fr_buffer r), fr_offset := 0\<rparr>)"

definition reader_fail :: "Status \<Rightarrow> FrameReader \<Rightarrow> FrameReader" where
  "reader_fail status r = r\<lparr>fr_failed := True, fr_failure := status\<rparr>"

text \<open>The result \<^const>\<open>None\<close> is \<open>false\<close>; the out-parameters are the header and the payload.\<close>

definition Next :: "FrameReader \<Rightarrow> (FrameHeader \<times> bytes) option \<times> FrameReader" where
  "Next r =
     (if fr_failed r then (None, r)
      else if buffered r < kWireHeaderBytes then (None, r)
      else let base = drop (fr_offset r) (fr_buffer r)
      in case DecodeFrameHeader base (fr_max_payload r) of
        Inl status \<Rightarrow> (None, reader_fail status r)
      | Inr parsed \<Rightarrow>
          (let total = kWireHeaderBytes + unat (fh_payload_len parsed)
           in if buffered r < total then (None, r)
              else let img = take total base; verified = VerifyFrameImage img
              in if \<not> status_ok verified then (None, reader_fail verified r)
                 else (Some (parsed, slice kWireHeaderBytes (unat (fh_payload_len parsed)) img),
                       reader_Compact (r\<lparr>fr_offset := fr_offset r + total\<rparr>))))"

section \<open>Layout of a frame\<close>

definition frame_fields :: "FrameHeader \<Rightarrow> bytes \<Rightarrow> bytes" where
  "frame_fields h payload = kWireMagic @ le_store 2 (fh_protocol_version h) @
     le_store 2 (WireMessageType_u16 (fh_type h)) @ le_store 2 (fh_flags h) @ le_store 2 (0 :: u16) @
     le_store 4 (of_nat (length payload) :: u32) @ le_store 8 (fh_session_id h) @ le_store 8 (fh_sequence h)"

lemma length_frame_fields [simp]: "length (frame_fields h payload) = 32"
  by (simp add: frame_fields_def wire_consts)

lemma overwrite_append:
  "length a = off \<Longrightarrow> overwrite off bs (a @ rest) = (a @ bs) @ drop (length bs) rest"
  by (simp add: overwrite_def)

definition frame_digest :: "bytes \<Rightarrow> bytes \<Rightarrow> bytes" where
  "frame_digest front payload = Final (Update payload (Update front Sha256_new))"

lemma length_frame_digest [simp]: "length (frame_digest front payload) = 32"
  by (simp add: frame_digest_def)

lemma EncodeFrame_layout:
  "EncodeFrame h payload = frame_fields h payload @ frame_digest (frame_fields h payload) payload @ payload"
proof -
  define zeros where "zeros = (\<lambda>n. replicate n (0 :: u8))"
  have z: "replicate kWireHeaderBytes (0 :: u8) = [] @ zeros 64" by (simp add: zeros_def wire_consts)
  have d: "drop n (zeros m) = zeros (m - n)" for n m by (simp add: zeros_def)
  have filled: "wire_StoreU64 24 (fh_sequence h) (wire_StoreU64 16 (fh_session_id h)
      (wire_StoreU32 12 (of_nat (length payload)) (wire_StoreU16 10 0 (wire_StoreU16 8 (fh_flags h)
      (wire_StoreU16 6 (WireMessageType_u16 (fh_type h)) (wire_StoreU16 4 (fh_protocol_version h)
      (overwrite 0 kWireMagic (replicate kWireHeaderBytes 0)))))))) = frame_fields h payload @ zeros 32"
    unfolding wire_StoreU16_def wire_StoreU32_def wire_StoreU64_def z
    by (simp add: overwrite_def zeros_def kWireMagic_def frame_fields_def)
  show ?thesis
    unfolding EncodeFrame_def Let_def filled
    by (simp add: kWireDigestOffset_def overwrite_append d frame_digest_def zeros_def)
qed

lemma length_EncodeFrame [simp]: "length (EncodeFrame h payload) = kWireHeaderBytes + length payload"
  by (simp add: EncodeFrame_layout wire_consts)

lemma TryParseWireMessageType_u16:
  "TryParseWireMessageType (WireMessageType_u16 ty) = (if ty = Msg_Invalid then None else Some ty)"
  by (cases ty) (simp_all add: TryParseWireMessageType_def)

lemma TryParseWireMessageType_Some:
  "TryParseWireMessageType raw = Some ty \<Longrightarrow> WireMessageType_u16 ty = raw \<and> ty \<noteq> Msg_Invalid"
  by (auto simp: TryParseWireMessageType_def find_Some_iff split: if_splits)

lemma TryParseWireOperation_u16:
  "TryParseWireOperation (WireOperation_u16 op) = (if op = Op_Invalid then None else Some op)"
  by (cases op) (simp_all add: TryParseWireOperation_def)

text \<open>What the loads see in any bytes that start with the fields of a frame.\<close>

lemma frame_field_loads:
  assumes "take 32 bs = frame_fields h payload"
  shows "take 4 bs = kWireMagic" "wire_LoadU16 bs 4 = fh_protocol_version h"
    "wire_LoadU16 bs 6 = WireMessageType_u16 (fh_type h)" "wire_LoadU16 bs 8 = fh_flags h"
    "wire_LoadU16 bs 10 = 0" "wire_LoadU32 bs 12 = of_nat (length payload)"
    "wire_LoadU64 bs 16 = fh_session_id h" "wire_LoadU64 bs 24 = fh_sequence h"
proof -
  have in32: "slice off n bs = slice off n (frame_fields h payload)" if "off + n \<le> 32" for off n
    using that unfolding assms [symmetric] slice_def by (simp add: drop_take min_def)
  show "take 4 bs = kWireMagic"
    using in32 [of 0 4] by (simp add: slice_def frame_fields_def kWireMagic_def)
  show "wire_LoadU16 bs 4 = fh_protocol_version h"
    "wire_LoadU16 bs 6 = WireMessageType_u16 (fh_type h)" "wire_LoadU16 bs 8 = fh_flags h"
    "wire_LoadU16 bs 10 = 0" "wire_LoadU32 bs 12 = of_nat (length payload)"
    "wire_LoadU64 bs 16 = fh_session_id h" "wire_LoadU64 bs 24 = fh_sequence h"
    by (simp_all add: wire_LoadU16_def wire_LoadU32_def wire_LoadU64_def in32)
      (simp_all add: slice_def frame_fields_def kWireMagic_def)
qed

text \<open>Conversely, the first 32 bytes are the fields of the loaded values.\<close>

lemma slices_32:
  assumes "32 \<le> length bs"
  shows "take 32 bs = take 4 bs @ slice 4 2 bs @ slice 6 2 bs @ slice 8 2 bs @ slice 10 2 bs @ slice 12 4 bs @
    slice 16 8 bs @ slice 24 8 bs"
proof -
  have step: "take (n + k) bs = take n bs @ slice n k bs" for n k by (simp add: slice_def take_add)
  show ?thesis
    using step [of 24 8] step [of 16 8] step [of 12 4] step [of 10 2] step [of 8 2] step [of 6 2] step [of 4 2]
    by simp
qed

definition frame_ok :: "u32 \<Rightarrow> FrameHeader \<times> bytes \<Rightarrow> bool" where
  "frame_ok max_payload f \<longleftrightarrow> fh_protocol_version (fst f) = kWireProtocolVersion \<and> fh_type (fst f) \<noteq> Msg_Invalid \<and>
     length (snd f) \<le> unat max_payload \<and> fh_payload_len (fst f) = of_nat (length (snd f))"

lemma frame_ok_len:
  "frame_ok mx (h, p) \<Longrightarrow> unat (of_nat (length p) :: u32) = length p"
  "frame_ok mx (h, p) \<Longrightarrow> (of_nat (length p) :: u32) \<le> mx"
proof -
  assume ok: "frame_ok mx (h, p)"
  have "length p < 2 ^ 32" using ok unsigned_less [of mx, where ?'a = nat] by (simp add: frame_ok_def)
  then show len: "unat (of_nat (length p) :: u32) = length p" by (simp add: unat_of_nat)
  show "(of_nat (length p) :: u32) \<le> mx" using ok by (simp add: word_le_nat_alt len frame_ok_def)
qed

lemma DecodeFrameHeader_Encode:
  assumes "frame_ok mx (h, p)"
  shows "DecodeFrameHeader (EncodeFrame h p @ rest) mx = Inr h"
proof -
  define bs where "bs = EncodeFrame h p @ rest"
  have "take 32 bs = frame_fields h p" by (simp add: bs_def EncodeFrame_layout)
  note loads = frame_field_loads [OF this]
  have len: "\<not> length bs < kWireHeaderBytes" by (simp add: bs_def)
  have "h = \<lparr>fh_protocol_version = kWireProtocolVersion, fh_type = fh_type h, fh_flags = fh_flags h,
      fh_payload_len = of_nat (length p), fh_session_id = fh_session_id h, fh_sequence = fh_sequence h\<rparr>"
    using assms by (cases h) (simp add: frame_ok_def)
  then show ?thesis
    using assms frame_ok_len(2) [OF assms] len unfolding bs_def [symmetric]
    by (simp add: DecodeFrameHeader_def loads TryParseWireMessageType_u16 frame_ok_def not_less)
qed

lemma VerifyFrameImage_Encode:
  assumes "unat (of_nat (length p) :: u32) = length p"
  shows "VerifyFrameImage (EncodeFrame h p) = Status_Ok"
proof -
  have t: "take 32 (EncodeFrame h p) = frame_fields h p" by (simp add: EncodeFrame_layout)
  note loads = frame_field_loads [OF this]
  have "slice 32 32 (EncodeFrame h p) = frame_digest (frame_fields h p) p"
    "slice kWireHeaderBytes (length p) (EncodeFrame h p) = p"
    by (simp_all add: slice_def EncodeFrame_layout kWireHeaderBytes_def)
  then show ?thesis
    using assms by (simp add: VerifyFrameImage_def loads Let_def t kWireDigestOffset_def flip: frame_digest_def)
qed

text \<open>Bytes that pass both checks are the encoding of the frame they are read as.\<close>

lemma verified_is_encoded:
  assumes "DecodeFrameHeader bs mx = Inr h" "VerifyFrameImage img = Status_Ok"
    "img = take (kWireHeaderBytes + unat (fh_payload_len h)) bs"
    "kWireHeaderBytes + unat (fh_payload_len h) \<le> length bs"
    "p = slice kWireHeaderBytes (unat (fh_payload_len h)) img"
  shows "img = EncodeFrame h p" "frame_ok mx (h, p)"
proof -
  let ?n = "unat (fh_payload_len h)"
  have dec: "take 4 bs = kWireMagic" "wire_LoadU16 bs 4 = kWireProtocolVersion" "wire_LoadU16 bs 10 = 0"
    "wire_LoadU32 bs 12 \<le> mx" "TryParseWireMessageType (wire_LoadU16 bs 6) = Some (fh_type h)"
    and h: "fh_protocol_version h = wire_LoadU16 bs 4" "fh_flags h = wire_LoadU16 bs 8"
    "fh_payload_len h = wire_LoadU32 bs 12" "fh_session_id h = wire_LoadU64 bs 16" "fh_sequence h = wire_LoadU64 bs 24"
    using assms(1) by (auto simp: DecodeFrameHeader_def not_less split: if_splits option.splits)
  have len: "length img = 64 + ?n" using assms(3,4) by (simp add: kWireHeaderBytes_def)
  have plen: "length p = ?n" using assms(5) len by (simp add: slice_def kWireHeaderBytes_def)
  have t32: "take 32 img = take 32 bs" using assms(3) by (simp add: kWireHeaderBytes_def min_def)
  have big: "32 \<le> length bs" using assms(4) by (simp add: kWireHeaderBytes_def)
  have store: "slice off n bs = le_store n (le_load (slice off n bs) :: 'a::len word)"
    if "off + n \<le> 32" "8 * n = LENGTH('a)" for off n
    using that big by (simp add: le_store_le_load slice_def)
  have slices: "slice 4 2 bs = le_store 2 (wire_LoadU16 bs 4)" "slice 6 2 bs = le_store 2 (wire_LoadU16 bs 6)"
    "slice 8 2 bs = le_store 2 (wire_LoadU16 bs 8)" "slice 10 2 bs = le_store 2 (wire_LoadU16 bs 10)"
    "slice 12 4 bs = le_store 4 (wire_LoadU32 bs 12)" "slice 16 8 bs = le_store 8 (wire_LoadU64 bs 16)"
    "slice 24 8 bs = le_store 8 (wire_LoadU64 bs 24)"
    unfolding wire_LoadU16_def wire_LoadU32_def wire_LoadU64_def by (rule store; simp)+
  have "take 32 bs = frame_fields h p"
    unfolding slices_32 [OF big] frame_fields_def
    using dec(1) h plen conjunct1 [OF TryParseWireMessageType_Some [OF dec(5)]] dec(2,3)
    by (simp add: slices)
  then have fields: "take 32 img = frame_fields h p" using t32 by simp
  have "wire_LoadU32 img 12 = fh_payload_len h"
    using frame_field_loads(6) [OF fields] plen by simp
  then have "slice 32 32 img = frame_digest (frame_fields h p) p"
    using assms(2,5) fields by (simp add: VerifyFrameImage_def Let_def kWireDigestOffset_def frame_digest_def split: if_splits)
  moreover have "drop 64 img = p" using assms(5) len by (simp add: slice_def kWireHeaderBytes_def)
  moreover have "img = take 32 img @ slice 32 32 img @ drop 64 img"
    by (metis append_take_drop_id append.assoc drop_drop numeral_Bit0 slice_def take_add)
  ultimately show "img = EncodeFrame h p" using fields by (simp add: EncodeFrame_layout)
  show "frame_ok mx (h, p)"
    using dec h plen conjunct2 [OF TryParseWireMessageType_Some [OF dec(5)]]
    by (simp add: frame_ok_def word_le_nat_alt)
qed

section \<open>The stream of frames\<close>

text \<open>The reference: what the first bytes of a stream hold.\<close>

datatype stream_head = Need_More | Malformed Status | Frame "FrameHeader \<times> bytes" bytes

definition stream_first :: "u32 \<Rightarrow> bytes \<Rightarrow> stream_head" where
  "stream_first mx bs =
     (if length bs < kWireHeaderBytes then Need_More
      else case DecodeFrameHeader bs mx of
        Inl status \<Rightarrow> Malformed status
      | Inr h \<Rightarrow>
          (let total = kWireHeaderBytes + unat (fh_payload_len h)
           in if length bs < total then Need_More
              else if VerifyFrameImage (take total bs) \<noteq> Status_Ok then Malformed (VerifyFrameImage (take total bs))
              else Frame (h, slice kWireHeaderBytes (unat (fh_payload_len h)) (take total bs)) (drop total bs)))"

lemma VerifyFrameImage_ok: "status_ok (VerifyFrameImage img) \<longleftrightarrow> VerifyFrameImage img = Status_Ok"
  by (simp add: VerifyFrameImage_def Let_def)

lemma Next_first:
  assumes "fr_offset r = 0" "\<not> fr_failed r"
  shows "Next r = (case stream_first (fr_max_payload r) (fr_buffer r) of
      Need_More \<Rightarrow> (None, r)
    | Malformed status \<Rightarrow> (None, reader_fail status r)
    | Frame f rest \<Rightarrow> (Some f, r\<lparr>fr_buffer := rest\<rparr>))"
  using assms
  by (auto simp: Next_def stream_first_def buffered_def Let_def reader_Compact_def VerifyFrameImage_ok
      kWireHeaderBytes_def split: sum.splits)

lemma DecodeFrameHeader_prefix:
  assumes "kWireHeaderBytes \<le> length a"
  shows "DecodeFrameHeader (a @ b) mx = DecodeFrameHeader a mx"
proof -
  have s: "slice off n (a @ b) = slice off n a" if "off + n \<le> 64" for off n
    using that assms by (simp add: slice_def kWireHeaderBytes_def)
  show ?thesis
    using assms by (simp add: DecodeFrameHeader_def wire_LoadU16_def wire_LoadU32_def wire_LoadU64_def s kWireHeaderBytes_def
        split: option.splits)
qed

text \<open>More input never changes a verdict that has been reached.\<close>

lemma stream_first_append:
  "stream_first mx a = Malformed status \<Longrightarrow> stream_first mx (a @ b) = Malformed status"
  "stream_first mx a = Frame f rest \<Longrightarrow> stream_first mx (a @ b) = Frame f (rest @ b)"
  by (auto simp: stream_first_def Let_def DecodeFrameHeader_prefix not_less split: if_splits sum.splits)

lemma stream_first_Frame:
  assumes "stream_first mx bs = Frame f rest"
  shows "frame_ok mx f" "bs = EncodeFrame (fst f) (snd f) @ rest"
proof -
  obtain h where h: "DecodeFrameHeader bs mx = Inr h"
    and n: "kWireHeaderBytes + unat (fh_payload_len h) \<le> length bs"
      "VerifyFrameImage (take (kWireHeaderBytes + unat (fh_payload_len h)) bs) = Status_Ok"
      "rest = drop (kWireHeaderBytes + unat (fh_payload_len h)) bs"
    and f: "f = (h, slice kWireHeaderBytes (unat (fh_payload_len h)) (take (kWireHeaderBytes + unat (fh_payload_len h)) bs))"
    using assms by (auto simp: stream_first_def Let_def split: if_splits sum.splits)
  note enc = verified_is_encoded [OF h n(2) refl n(1) refl]
  show "frame_ok mx f" using enc(2) f by simp
  show "bs = EncodeFrame (fst f) (snd f) @ rest"
    unfolding f n(3) fst_conv snd_conv enc(1) [symmetric] by simp
qed

lemma stream_first_Encode:
  assumes "frame_ok mx f"
  shows "stream_first mx (EncodeFrame (fst f) (snd f) @ rest) = Frame f rest"
proof -
  obtain h p where f: "f = (h, p)" by (cases f)
  have ok: "frame_ok mx (h, p)" using assms f by simp
  have len: "unat (fh_payload_len h) = length p" using ok frame_ok_len(1) [OF ok] by (simp add: frame_ok_def)
  have "slice kWireHeaderBytes (length p) (EncodeFrame h p) = p"
    by (simp add: slice_def EncodeFrame_layout kWireHeaderBytes_def)
  then show ?thesis
    using DecodeFrameHeader_Encode [OF ok, of rest] VerifyFrameImage_Encode [OF frame_ok_len(1) [OF ok], of h]
    by (simp add: stream_first_def f len)
qed

lemma stream_first_shorter: "stream_first mx bs = Frame f rest \<Longrightarrow> length rest < length bs"
  by (drule stream_first_Frame(2)) (simp add: kWireHeaderBytes_def)

text \<open>All the frames of a stream, and how it ends: malformed, or with an incomplete frame.\<close>

function stream_frames :: "u32 \<Rightarrow> bytes \<Rightarrow> (FrameHeader \<times> bytes) list \<times> (Status + bytes)" where
  "stream_frames mx bs =
     (case stream_first mx bs of
        Need_More \<Rightarrow> ([], Inr bs)
      | Malformed status \<Rightarrow> ([], Inl status)
      | Frame f rest \<Rightarrow> (let (fs, outcome) = stream_frames mx rest in (f # fs, outcome)))"
  by pat_completeness auto
termination by (relation "measure (length \<circ> snd)") (auto dest: stream_first_shorter)

declare stream_frames.simps [simp del]

lemma stream_frames_append:
  "stream_frames mx (a @ b) = (case stream_frames mx a of
      (fs, Inl status) \<Rightarrow> (fs, Inl status)
    | (fs, Inr rest) \<Rightarrow> (let (gs, outcome) = stream_frames mx (rest @ b) in (fs @ gs, outcome)))"
proof (induction mx a rule: stream_frames.induct)
  case (1 mx a)
  show ?case
  proof (cases "stream_first mx a")
    case Need_More
    then have "stream_frames mx a = ([], Inr a)" by (simp add: stream_frames.simps [of mx a])
    then show ?thesis by simp
  next
    case (Malformed status)
    then show ?thesis
      by (simp add: stream_first_append(1) stream_frames.simps [of mx a] stream_frames.simps [of mx "a @ b"])
  next
    case (Frame f rest)
    then show ?thesis
      using 1 [OF Frame] by (simp add: stream_first_append(2) stream_frames.simps [of mx a]
          stream_frames.simps [of mx "a @ b"] Let_def split: prod.splits sum.splits)
  qed
qed

lemma stream_frames_accounts:
  assumes "stream_frames mx bs = (fs, outcome)"
  shows "\<forall>f \<in> set fs. frame_ok mx f"
    "\<exists>rest. bs = concat (map (\<lambda>f. EncodeFrame (fst f) (snd f)) fs) @ rest \<and>
       (case outcome of Inl status \<Rightarrow> stream_first mx rest = Malformed status
        | Inr rest' \<Rightarrow> rest = rest' \<and> stream_first mx rest = Need_More)"
proof -
  have "(\<forall>f \<in> set fs. frame_ok mx f) \<and>
    (\<exists>rest. bs = concat (map (\<lambda>f. EncodeFrame (fst f) (snd f)) fs) @ rest \<and>
       (case outcome of Inl status \<Rightarrow> stream_first mx rest = Malformed status
        | Inr rest' \<Rightarrow> rest = rest' \<and> stream_first mx rest = Need_More))"
    using assms
  proof (induction mx bs arbitrary: fs outcome rule: stream_frames.induct)
    case (1 mx bs)
    show ?case
    proof (cases "stream_first mx bs")
      case (Frame f rest)
      obtain gs where gs: "stream_frames mx rest = (gs, outcome)" "fs = f # gs"
        using 1(2) Frame by (auto simp: stream_frames.simps [of mx bs] split: prod.splits)
      show ?thesis
        using 1(1) [OF Frame gs(1)] stream_first_Frame [OF Frame] gs(2) by auto
    qed (use 1(2) in \<open>auto simp: stream_frames.simps [of mx bs]\<close>)
  qed
  then show "\<forall>f \<in> set fs. frame_ok mx f"
    "\<exists>rest. bs = concat (map (\<lambda>f. EncodeFrame (fst f) (snd f)) fs) @ rest \<and>
       (case outcome of Inl status \<Rightarrow> stream_first mx rest = Malformed status
        | Inr rest' \<Rightarrow> rest = rest' \<and> stream_first mx rest = Need_More)"
    by simp_all
qed

lemma stream_frames_Encode:
  assumes "\<forall>f \<in> set fs. frame_ok mx f"
  shows "stream_frames mx (concat (map (\<lambda>f. EncodeFrame (fst f) (snd f)) fs) @ rest) =
    (let (gs, outcome) = stream_frames mx rest in (fs @ gs, outcome))"
  using assms
proof (induction fs)
  case Nil
  then show ?case by simp
next
  case (Cons f fs)
  then show ?case
    using stream_first_Encode [of mx f]
    by (subst stream_frames.simps) (simp split: prod.splits)
qed

section \<open>Readers and chunks\<close>

text \<open>A caller that takes frames until there is none, and one that is fed chunk by chunk.\<close>

lemma Next_takes:
  assumes "Next r = (Some f, r')"
  shows "buffered r' < buffered r"
  using assms
  by (auto simp: Next_def Let_def reader_Compact_def buffered_def reader_fail_def kWireHeaderBytes_def
      split: if_splits sum.splits)

function drain :: "FrameReader \<Rightarrow> (FrameHeader \<times> bytes) list \<times> FrameReader" where
  "drain r =
     (case Next r of
        (None, r) \<Rightarrow> ([], r)
      | (Some f, r) \<Rightarrow> (let (fs, r) = drain r in (f # fs, r)))"
  by pat_completeness auto
termination by (relation "measure buffered") (auto dest: Next_takes [OF sym])

declare drain.simps [simp del]

fun deliver :: "bytes list \<Rightarrow> FrameReader \<Rightarrow> (FrameHeader \<times> bytes) list \<times> FrameReader" where
  "deliver [] r = ([], r)"
| "deliver (c # cs) r = (let (fs, r) = drain (Feed c r); (gs, r) = deliver cs r in (fs @ gs, r))"

text \<open>How a reader stands after a stream that ends in this way.\<close>

definition reader_after :: "u32 \<Rightarrow> Status + bytes \<Rightarrow> FrameReader \<Rightarrow> bool" where
  "reader_after mx outcome r \<longleftrightarrow> fr_offset r = 0 \<and> fr_max_payload r = mx \<and>
     (case outcome of Inl status \<Rightarrow> fr_failed r \<and> fr_failure r = status
      | Inr rest \<Rightarrow> \<not> fr_failed r \<and> fr_buffer r = rest)"

lemma drain_frames:
  assumes "fr_offset r = 0" "\<not> fr_failed r"
  shows "fst (drain r) = fst (stream_frames (fr_max_payload r) (fr_buffer r))"
    "reader_after (fr_max_payload r) (snd (stream_frames (fr_max_payload r) (fr_buffer r))) (snd (drain r))"
proof -
  have "fst (drain r) = fst (stream_frames (fr_max_payload r) (fr_buffer r)) \<and>
    reader_after (fr_max_payload r) (snd (stream_frames (fr_max_payload r) (fr_buffer r))) (snd (drain r))"
    using assms
  proof (induction r rule: drain.induct)
    case (1 r)
    let ?mx = "fr_max_payload r" and ?bs = "fr_buffer r"
    note eqs = Next_first [OF 1(2,3)] drain.simps [of r] stream_frames.simps [of ?mx ?bs]
    show ?case
    proof (cases "stream_first ?mx ?bs")
      case (Frame f rest)
      have "Next r = (Some f, r\<lparr>fr_buffer := rest\<rparr>)" using Frame by (simp add: eqs(1))
      note IH = 1(1) [OF this [symmetric] refl]
      show ?thesis using IH 1(2,3) Frame by (auto simp: eqs Let_def split: prod.splits)
    qed (use 1(2,3) in \<open>simp_all add: eqs reader_after_def reader_fail_def\<close>)
  qed
  then show "fst (drain r) = fst (stream_frames (fr_max_payload r) (fr_buffer r))"
    "reader_after (fr_max_payload r) (snd (stream_frames (fr_max_payload r) (fr_buffer r))) (snd (drain r))"
    by simp_all
qed

lemma failed_is_final:
  assumes "fr_failed r"
  shows "deliver cs r = ([], r)"
  using assms by (induction cs) (simp_all add: Feed_def drain.simps [of r] Next_def)

lemma Feed_after:
  assumes "reader_after mx (Inr rest) r"
  shows "fr_offset (Feed c r) = 0" "\<not> fr_failed (Feed c r)" "fr_max_payload (Feed c r) = mx" "fr_buffer (Feed c r) = rest @ c"
  using assms by (auto simp: reader_after_def Feed_def)

lemma deliver_frames:
  assumes "reader_after mx (Inr rest) r" "stream_first mx rest = Need_More"
  shows "fst (deliver cs r) = fst (stream_frames mx (rest @ concat cs)) \<and>
    reader_after mx (snd (stream_frames mx (rest @ concat cs))) (snd (deliver cs r))"
  using assms
proof (induction cs arbitrary: rest r)
  case Nil
  then show ?case by (simp add: stream_frames.simps [of mx rest])
next
  case (Cons c cs)
  obtain fs outcome where part: "stream_frames mx (rest @ c) = (fs, outcome)" by (cases "stream_frames mx (rest @ c)")
  note fed = Feed_after [OF Cons.prems(1), of c]
  obtain r' where r': "drain (Feed c r) = (fs, r')" "reader_after mx outcome r'"
    using drain_frames [OF fed(1,2)] part by (cases "drain (Feed c r)") (simp add: fed(3,4))
  have whole: "stream_frames mx (rest @ concat (c # cs)) = (case outcome of
      Inl status \<Rightarrow> (fs, Inl status)
    | Inr rest' \<Rightarrow> (let (gs, outcome) = stream_frames mx (rest' @ concat cs) in (fs @ gs, outcome)))"
    using stream_frames_append [of mx "rest @ c" "concat cs"] part by (simp split: sum.splits)
  show ?case
  proof (cases outcome)
    case (Inl status)
    then have "fr_failed r'" using r'(2) by (simp add: reader_after_def)
    then show ?thesis using whole r' Inl by (simp add: failed_is_final)
  next
    case (Inr rest')
    then have "stream_first mx rest' = Need_More" using stream_frames_accounts(2) [OF part] by auto
    then show ?thesis
      using Cons.IH [of rest' r'] whole r' Inr by (auto split: prod.splits)
  qed
qed

lemma reader_after_new: "reader_after mx (Inr []) (FrameReader_new mx)"
  by (simp add: reader_after_def FrameReader_new_def)

lemma stream_first_Nil [simp]: "stream_first mx [] = Need_More"
  by (simp add: stream_first_def kWireHeaderBytes_def)

lemmas deliver_new = deliver_frames [OF reader_after_new stream_first_Nil, simplified]

end
