(* ===== verification/Wire_Ops.thy ===== *)
theory Wire_Ops
  imports Wire
begin

text \<open>
  The envelopes of \<open>wire_ops.hpp\<close>: the handshake messages and the request and response payloads that
  service and client exchange in frames. Each envelope is a codec in the sense of \<open>Canonical\<close>: whatever
  is decoded is well formed, and an encoded envelope is decoded exactly.
\<close>

section \<open>Identities\<close>

definition PutBoot :: "BootId \<Rightarrow> put" where
  "PutBoot boot = PutBytes (boot_bytes boot)"

definition GetBoot :: "BootId reader" where
  "GetBoot r = do { (bytes, r) \<leftarrow> ReadBytes r; if length bytes \<noteq> 16 then None else Some (BootId bytes, r) }"

definition PutStore :: "StoreId \<Rightarrow> put" where
  "PutStore store = PutBytes (store_bytes store)"

definition GetStore :: "StoreId reader" where
  "GetStore r = do { (bytes, r) \<leftarrow> ReadBytes r; if length bytes \<noteq> 16 then None else Some (StoreId bytes, r) }"

lemma GetBoot_put [roundtrip, simp]: "wf_boot b \<Longrightarrow> GetBoot (put_bytes (PutBoot b) @ r) = Some (b, r)"
  by (cases b) (simp add: GetBoot_def PutBoot_def wf_boot_def ReadBytes_boot)

lemma GetStore_put [roundtrip, simp]: "wf_store_id s \<Longrightarrow> GetStore (put_bytes (PutStore s) @ r) = Some (s, r)"
  by (cases s) (simp add: GetStore_def PutStore_def wf_store_id_def ReadBytes_boot)

lemma GetBoot_wf: "GetBoot r = Some (b, s) \<Longrightarrow> wf_boot b"
  by (auto simp: GetBoot_def wf_boot_def split: if_splits)

lemma GetStore_wf: "GetStore r = Some (x, s) \<Longrightarrow> wf_store_id x"
  by (auto simp: GetStore_def wf_store_id_def split: if_splits)

section \<open>Hello\<close>

definition hello_puts :: "BootId \<times> bytes \<Rightarrow> put list" where
  "hello_puts h = [PutU16 kWireProtocolVersion, PutBoot (fst h), PutBytes (snd h)]"

definition EncodeHello :: "BootId \<Rightarrow> bytes \<Rightarrow> bytes" where
  "EncodeHello client_boot nonce = puts_buffer (hello_puts (client_boot, nonce))"

definition ReadHello :: "(BootId \<times> bytes) reader" where
  "ReadHello r =
     do { (version, r) \<leftarrow> ReadU16 r;
          if version \<noteq> kWireProtocolVersion then None
          else do { (client_boot, r) \<leftarrow> GetBoot r; (nonce, r) \<leftarrow> ReadBytes r;
                    Some ((client_boot, nonce), r) } }"

definition DecodeHello :: "bytes \<Rightarrow> (BootId \<times> bytes) option" where
  "DecodeHello payload = do { (h, r) \<leftarrow> ReadHello payload; if AtEnd r then Some h else None }"

definition hello_ok :: "BootId \<times> bytes \<Rightarrow> bool" where
  "hello_ok h \<longleftrightarrow> wf_boot (fst h) \<and> length (snd h) \<le> kMaxCanonicalBytes"

section \<open>Welcome\<close>

record Welcome =
  we_protocol_version :: u16
  we_session_id :: u64
  we_epoch :: CoordinatorEpoch
  we_server_boot :: BootId
  we_store :: StoreId
  we_nonce :: bytes
  we_max_payload :: u32

definition welcome_puts :: "Welcome \<Rightarrow> put list" where
  "welcome_puts w =
     [PutU16 (we_protocol_version w), PutU64 (we_session_id w), PutU64 (cval (we_epoch w)),
      PutBoot (we_server_boot w), PutStore (we_store w), PutBytes (we_nonce w), PutU32 (we_max_payload w)]"

definition EncodeWelcome :: "Welcome \<Rightarrow> bytes" where
  "EncodeWelcome w = puts_buffer (welcome_puts w)"

definition ReadWelcome :: "Welcome reader" where
  "ReadWelcome r =
     do { (version, r) \<leftarrow> ReadU16 r;
          if version \<noteq> kWireProtocolVersion then None
          else do {
            (session_id, r) \<leftarrow> ReadU64 r; (epoch, r) \<leftarrow> ReadU64 r;
            (server_boot, r) \<leftarrow> GetBoot r; (store, r) \<leftarrow> GetStore r;
            (nonce, r) \<leftarrow> ReadBytes r; (max_payload, r) \<leftarrow> ReadU32 r;
            Some (\<lparr>we_protocol_version = version, we_session_id = session_id, we_epoch = Counter epoch,
              we_server_boot = server_boot, we_store = store, we_nonce = nonce,
              we_max_payload = max_payload\<rparr>, r) } }"

definition DecodeWelcome :: "bytes \<Rightarrow> Welcome option" where
  "DecodeWelcome payload = do { (w, r) \<leftarrow> ReadWelcome payload; if AtEnd r then Some w else None }"

definition welcome_ok :: "Welcome \<Rightarrow> bool" where
  "welcome_ok w \<longleftrightarrow> we_protocol_version w = kWireProtocolVersion \<and> wf_boot (we_server_boot w) \<and>
     wf_store_id (we_store w) \<and> length (we_nonce w) \<le> kMaxCanonicalBytes"

section \<open>Request\<close>

record Request =
  rq_operation :: WireOperation
  rq_client_boot :: BootId
  rq_epoch :: CoordinatorEpoch
  rq_body :: bytes

definition request_puts :: "Request \<Rightarrow> put list" where
  "request_puts q =
     [PutU16 (WireOperation_u16 (rq_operation q)), PutBoot (rq_client_boot q), PutU64 (cval (rq_epoch q)),
      PutBytes (rq_body q)]"

definition EncodeRequest :: "Request \<Rightarrow> bytes" where
  "EncodeRequest q = puts_buffer (request_puts q)"

definition ReadRequest :: "Request reader" where
  "ReadRequest r =
     do { (raw, r) \<leftarrow> ReadU16 r; operation \<leftarrow> TryParseWireOperation raw;
          (client_boot, r) \<leftarrow> GetBoot r; (epoch, r) \<leftarrow> ReadU64 r; (body, r) \<leftarrow> ReadBytes r;
          Some (\<lparr>rq_operation = operation, rq_client_boot = client_boot, rq_epoch = Counter epoch,
                 rq_body = body\<rparr>, r) }"

definition DecodeRequest :: "bytes \<Rightarrow> Request option" where
  "DecodeRequest payload = do { (q, r) \<leftarrow> ReadRequest payload; if AtEnd r then Some q else None }"

definition request_ok :: "Request \<Rightarrow> bool" where
  "request_ok q \<longleftrightarrow> rq_operation q \<noteq> Op_Invalid \<and> wf_boot (rq_client_boot q) \<and>
     length (rq_body q) \<le> kMaxCanonicalBytes"

section \<open>Response\<close>

fun StatusCode_u16 :: "StatusCode \<Rightarrow> u16" where
  "StatusCode_u16 Code_Ok = 0"
| "StatusCode_u16 Code_Rejected = 1"
| "StatusCode_u16 Code_ConflictState = 2"
| "StatusCode_u16 Code_NotFound = 3"
| "StatusCode_u16 Code_StaleAuthority = 4"
| "StatusCode_u16 Code_LimitExceeded = 5"
| "StatusCode_u16 Code_IntegrityFailure = 6"
| "StatusCode_u16 Code_Unsupported = 7"
| "StatusCode_u16 Code_Indeterminate = 8"
| "StatusCode_u16 Code_PreconditionFailed = 9"
| "StatusCode_u16 Code_InternalError = 10"

text \<open>The \<open>static_cast\<close> of a number that passed the range check.\<close>

definition StatusCode_of_u16 :: "u16 \<Rightarrow> StatusCode option" where
  "StatusCode_of_u16 n =
     (if n > StatusCode_u16 Code_InternalError then None
      else find (\<lambda>c. StatusCode_u16 c = n) [Code_Ok, Code_Rejected, Code_ConflictState, Code_NotFound,
             Code_StaleAuthority, Code_LimitExceeded, Code_IntegrityFailure, Code_Unsupported,
             Code_Indeterminate, Code_PreconditionFailed, Code_InternalError])"

record Response =
  rs_code :: StatusCode
  rs_reason :: ReasonCode
  rs_detail :: string
  rs_body :: bytes

definition response_puts :: "Response \<Rightarrow> put list" where
  "response_puts p =
     [PutU16 (StatusCode_u16 (rs_code p)), PutU16 (rs_reason p), PutText (rs_detail p), PutBytes (rs_body p)]"

definition EncodeResponse :: "Response \<Rightarrow> bytes" where
  "EncodeResponse p = puts_buffer (response_puts p)"

definition ReadResponse :: "Response reader" where
  "ReadResponse r =
     do { (code, r) \<leftarrow> ReadU16 r; (reason, r) \<leftarrow> ReadU16 r; code \<leftarrow> StatusCode_of_u16 code;
          if reason > Reason_RestartLeasesNotRestored then None
          else do { (detail, r) \<leftarrow> ReadText r; (body, r) \<leftarrow> ReadBytes r;
                    Some (\<lparr>rs_code = code, rs_reason = reason, rs_detail = detail, rs_body = body\<rparr>, r) } }"

definition DecodeResponse :: "bytes \<Rightarrow> Response option" where
  "DecodeResponse payload = do { (p, r) \<leftarrow> ReadResponse payload; if AtEnd r then Some p else None }"

definition response_ok :: "Response \<Rightarrow> bool" where
  "response_ok p \<longleftrightarrow> rs_reason p \<le> Reason_RestartLeasesNotRestored \<and>
     length (rs_detail p) \<le> kMaxCanonicalBytes \<and> length (rs_body p) \<le> kMaxCanonicalBytes"

section \<open>The codec laws\<close>

lemma StatusCode_of_u16_of [simp]: "StatusCode_of_u16 (StatusCode_u16 c) = Some c"
  by (cases c) (simp_all add: StatusCode_of_u16_def)

lemma TryParseWireOperation_valid: "TryParseWireOperation raw = Some op \<Longrightarrow> op \<noteq> Op_Invalid"
  by (auto simp: TryParseWireOperation_def find_Some_iff split: if_splits)

lemma ReadText_bound: "ReadText r = Some (t, r') \<Longrightarrow> length t \<le> kMaxCanonicalBytes"
  by (auto simp: ReadText_def dest: ReadBytes_bound)

interpretation hello_codec: codec hello_puts ReadHello hello_ok
proof
  fix x r
  assume "hello_ok x"
  then show "ReadHello (octets (hello_puts x) @ r) = Some (x, r)"
    by (cases x) (simp add: hello_ok_def ReadHello_def hello_puts_def)
next
  fix r x s
  assume "ReadHello r = Some (x, s)"
  then show "hello_ok x"
    by (auto simp: ReadHello_def hello_ok_def dest: GetBoot_wf ReadBytes_bound split: if_splits)
qed

interpretation welcome_codec: codec welcome_puts ReadWelcome welcome_ok
proof
  fix x r
  assume "welcome_ok x"
  then show "ReadWelcome (octets (welcome_puts x) @ r) = Some (x, r)"
    by (cases x) (simp add: welcome_ok_def ReadWelcome_def welcome_puts_def)
next
  fix r x s
  assume "ReadWelcome r = Some (x, s)"
  then show "welcome_ok x"
    by (auto simp: ReadWelcome_def welcome_ok_def dest: GetBoot_wf GetStore_wf ReadBytes_bound split: if_splits)
qed

interpretation request_codec: codec request_puts ReadRequest request_ok
proof
  fix x r
  assume "request_ok x"
  then show "ReadRequest (octets (request_puts x) @ r) = Some (x, r)"
    by (cases x) (simp add: request_ok_def ReadRequest_def request_puts_def TryParseWireOperation_u16)
next
  fix r x s
  assume "ReadRequest r = Some (x, s)"
  then show "request_ok x"
    by (auto simp: ReadRequest_def request_ok_def dest: TryParseWireOperation_valid GetBoot_wf ReadBytes_bound)
qed

interpretation response_codec: codec response_puts ReadResponse response_ok
proof
  fix x r
  assume "response_ok x"
  then show "ReadResponse (octets (response_puts x) @ r) = Some (x, r)"
    by (cases x) (simp add: response_ok_def ReadResponse_def response_puts_def not_less)
next
  fix r x s
  assume "ReadResponse r = Some (x, s)"
  then show "response_ok x"
    by (auto simp: ReadResponse_def response_ok_def dest: ReadText_bound ReadBytes_bound split: if_splits)
qed

text \<open>An envelope whose octets fit the writer is decoded from its encoded form.\<close>

lemma DecodeHello_Encode:
  assumes "hello_ok (b, nonce)" "length (octets (hello_puts (b, nonce))) \<le> kMaxCanonicalBytes"
  shows "DecodeHello (EncodeHello b nonce) = Some (b, nonce)"
  using hello_codec.buffer_exact [OF assms] by (simp add: DecodeHello_def EncodeHello_def AtEnd_def)

lemma DecodeWelcome_Encode:
  assumes "welcome_ok w" "length (octets (welcome_puts w)) \<le> kMaxCanonicalBytes"
  shows "DecodeWelcome (EncodeWelcome w) = Some w"
  using welcome_codec.buffer_exact [OF assms] by (simp add: DecodeWelcome_def EncodeWelcome_def AtEnd_def)

lemma DecodeRequest_Encode:
  assumes "request_ok q" "length (octets (request_puts q)) \<le> kMaxCanonicalBytes"
  shows "DecodeRequest (EncodeRequest q) = Some q"
  using request_codec.buffer_exact [OF assms] by (simp add: DecodeRequest_def EncodeRequest_def AtEnd_def)

lemma DecodeResponse_Encode:
  assumes "response_ok p" "length (octets (response_puts p)) \<le> kMaxCanonicalBytes"
  shows "DecodeResponse (EncodeResponse p) = Some p"
  using response_codec.buffer_exact [OF assms] by (simp add: DecodeResponse_def EncodeResponse_def AtEnd_def)

end
