(* ===== verification/Render_Text.thy ===== *)
theory Render_Text
  imports Engine
begin

text \<open>
  The text renderings of \<open>engine.cpp\<close>: plans, classification reports, boot reports and attempts as the
  service and the command line show them.
\<close>

definition line_end :: string where "line_end = [CHR 0x0A]"

definition yes_no :: "bool \<Rightarrow> string" where
  "yes_no b = (if b then ''yes'' else ''no'')"

definition step_text :: "string \<Rightarrow> ExplanationStep \<Rightarrow> string" where
  "step_text indent s =
     indent @ ReasonCode_text (es_code s) @ (if es_detail s \<noteq> [] then '': '' @ es_detail s else []) @ line_end"

definition decision_text :: "Decision \<Rightarrow> string" where
  "decision_text d =
     ''  - '' @ str (de_subject d) @ '' drift='' @ DriftClass_text (de_drift d) @
     '' disposition='' @ DecisionDisposition_text (de_disposition d) @ '' action='' @ ActionKind_text (de_action d) @
     '' key='' @ take 16 (ToHex (de_idempotency_key d)) @ line_end @
     concat (map (step_text ''      '') (ex_steps (de_explanation d)))"

definition RenderPlanText :: "ReconciliationPlan \<Rightarrow> string" where
  "RenderPlanText p =
     ''plan scope='' @ str (pl_scope p) @ '' id='' @ pl_plan_id p @ line_end @
     ''  epoch='' @ to_string_u64 (cval (pl_epoch p)) @ '' boot='' @ take 8 (HexOf (boot_bytes (pl_boot p))) @
     '' verdict='' @ ConvergenceVerdict_text (pl_verdict p) @ '' evidence='' @ EvidenceClass_text (pl_evidence p) @
     line_end @
     ''  policy='' @ str (pl_policy_id p) @ ''/'' @ to_string_u64 (cval (pl_policy_version p)) @
     '' intent='' @ str (pl_intent p) @ ''/g'' @ to_string_u64 (cval (pl_intent_generation p)) @
     '' observation='' @ str (pl_observation p) @ ''/g'' @ to_string_u64 (cval (pl_observation_generation p)) @
     '' freshness='' @ FreshnessVerdict_text (pl_freshness p) @ line_end @
     ''  decisions='' @ decimal (length (pl_decisions p)) @ '' actions='' @ decimal (MutationCount p) @
     '' truncated='' @ yes_no (pl_truncated p) @ line_end @
     (if ex_steps (pl_scope_explanation p) \<noteq> []
      then ''  scope explanation:'' @ line_end @
           concat (map (step_text ''    '') (ex_steps (pl_scope_explanation p)))
      else []) @
     concat (map decision_text (pl_decisions p))"

definition delta_text :: "AttributeDelta \<Rightarrow> string" where
  "delta_text a =
     ''      '' @ str (ad_key a) @ '' '' @ AttributeDeltaKind_text (ad_kind a) @ '' intended='' @
     Render (ad_intended a) @ '' observed='' @ Render (ad_observed a) @ line_end"

definition drift_text :: "DriftRecord \<Rightarrow> string" where
  "drift_text r =
     ''  - '' @ str (dr_subject r) @ '' '' @ DriftClass_text (dr_drift r) @ '' ('' @ ReasonCode_text (dr_reason r) @
     '')'' @ line_end @ concat (map delta_text (dr_deltas r))"

definition RenderClassificationText :: "ClassificationReport \<Rightarrow> string" where
  "RenderClassificationText r =
     ''classification scope='' @ str (cr_scope r) @ '' subjects='' @ decimal (length (cr_records r)) @
     '' visits='' @ decimal (cr_subject_visits r) @
     '' attribute-comparisons='' @ decimal (cr_attribute_comparisons r) @ line_end @
     ''  intent='' @ (if ev_has_intent (cr_evidence r) then str (ev_intent (cr_evidence r)) else ''<none>'') @
     '' observation='' @
     (if ev_has_observation (cr_evidence r) then str (ev_observation (cr_evidence r)) else ''<none>'') @
     '' freshness='' @ FreshnessVerdict_text (ev_freshness (cr_evidence r)) @ line_end @
     concat (map drift_text (cr_records r))"

definition RenderBootReportText :: "BootReport \<Rightarrow> string" where
  "RenderBootReportText r =
     ''boot store='' @ take 8 (HexOf (store_bytes (br_store r))) @ '' boot='' @ take 8 (HexOf (boot_bytes (br_boot r))) @
     '' epoch='' @ to_string_u64 (cval (br_epoch r)) @
     '' previous-epoch='' @ to_string_u64 (cval (br_previous_epoch r)) @ line_end @
     ''  created='' @ yes_no (br_store_created r) @ '' snapshot='' @ yes_no (br_snapshot_loaded r) @
     '' torn-tail='' @ yes_no (br_recovered_torn_tail r) @ '' recovered-bytes='' @ decimal (br_recovered_bytes r) @
     '' replayed='' @ decimal (br_records_replayed r) @ line_end @
     ''  attempts restored='' @ decimal (br_attempts_restored r) @
     '' interrupted='' @ decimal (br_attempts_interrupted r) @ '' abandoned='' @ decimal (br_attempts_abandoned r) @
     '' fenced='' @ decimal (br_attempts_fenced r) @ line_end @
     ''  observations retained='' @ decimal (br_observations_retained r) @
     '' outcomes='' @ decimal (br_outcomes_retained r) @ '' fences='' @ decimal (br_fences_active r) @ line_end @
     ''  freshness-restored='' @ yes_no (br_freshness_restored r) @
     '' mutation-authority-restored='' @ yes_no (br_mutation_authority_restored r) @ line_end @
     concat (map (\<lambda>n. ''  note '' @ ReasonCode_text n @ line_end) (br_notes r))"

definition transition_text :: "AttemptTransition \<Rightarrow> string" where
  "transition_text t =
     ''  '' @ AttemptState_text (tr_from t) @ '' -> '' @ AttemptState_text (tr_to t) @
     '' epoch='' @ to_string_u64 (cval (tr_epoch t)) @ '' reason='' @ ReasonCode_text (tr_reason t) @ line_end"

definition RenderAttemptText :: "AttemptRecord \<Rightarrow> string" where
  "RenderAttemptText a =
     ''attempt id='' @ to_string_u64 (cval (at_id a)) @ '' scope='' @ str (at_scope a) @
     '' subject='' @ str (at_subject a) @ '' action='' @ ActionKind_text (at_action a) @
     '' state='' @ AttemptState_text (at_state a) @ '' epoch='' @ to_string_u64 (cval (at_epoch a)) @
     '' boot='' @ take 8 (HexOf (boot_bytes (at_boot a))) @ line_end @
     ''  key='' @ ToHex (at_idempotency_key a) @ line_end @
     concat (map transition_text (at_transitions a))"

end
