(* ===== verification/Server_Ops.thy ===== *)
theory Server_Ops
  imports Wire_Ops Render_Text
begin

text \<open>
  The request handler of \<open>server.cpp\<close>: \<open>Handle\<close> with its sixteen operations over the engine. A request is
  checked against the boot identity of its session and the live epoch, its body is decoded completely, and
  only then the engine is called. The detail texts of the engine's statuses are not part of the engine's
  model: the text of the call at hand is the argument \<open>detail\<close>. Between the two engine calls of a dispatch,
  \<open>Plan\<close> and \<open>Dispatch\<close>, no lock is held: \<open>others\<close> is what the other sessions make of the engine meanwhile.
\<close>

section \<open>Responses\<close>

definition MakeError :: "Status \<Rightarrow> string \<Rightarrow> Response" where
  "MakeError status detail =
     \<lparr>rs_code = status_code status, rs_reason = status_reason status, rs_detail = detail, rs_body = []\<rparr>"

definition FromStatus :: "Status \<Rightarrow> string \<Rightarrow> bytes \<Rightarrow> Response" where
  "FromStatus status detail body =
     \<lparr>rs_code = status_code status, rs_reason = status_reason status, rs_detail = detail, rs_body = body\<rparr>"

abbreviation ok_text :: "string \<Rightarrow> Response" where
  "ok_text t \<equiv> FromStatus Status_Ok [] (bytes_of_text t)"

abbreviation refused :: "string \<Rightarrow> Response" where
  "refused detail \<equiv> MakeError (Status Code_Rejected Reason_UnsupportedInput) detail"

text \<open>\<open>FromStatus(status, status.ok() ? "ok" : std::string())\<close>\<close>

definition acknowledged :: "Status \<Rightarrow> string \<Rightarrow> Response" where
  "acknowledged status detail =
     FromStatus status detail (bytes_of_text (if status_ok status then ''ok'' else []))"

section \<open>Operations\<close>

definition handle_ActivePolicy :: "string \<Rightarrow> Engine \<Rightarrow> Response" where
  "handle_ActivePolicy detail e =
     (case ActivePolicy e of
        Inl status \<Rightarrow> MakeError status detail
      | Inr policy \<Rightarrow> FromStatus Status_Ok [] (EncodePolicy policy))"

definition handle_PutPolicy :: "RuntimeLimits \<Rightarrow> string \<Rightarrow> bytes \<Rightarrow> Engine \<Rightarrow> Response \<times> Engine" where
  "handle_PutPolicy limits detail body e =
     (case decode_exactly (\<lambda>r. do { (same, r) \<leftarrow> ReadBool r; (bs, r) \<leftarrow> ReadBytes r; Some ((same, bs), r) }) body of
        None \<Rightarrow> (refused ''malformed PutPolicy request'', e)
      | Some (allow_same_version, policy_bytes) \<Rightarrow>
          (case DecodePolicyExact limits policy_bytes of
             None \<Rightarrow> (refused ''policy payload failed validation'', e)
           | Some policy \<Rightarrow>
               (let (status, e) = engine_PutPolicy policy allow_same_version e
                in (acknowledged status detail, e))))"

definition IntentCommitResult_new :: IntentCommitResult where
  "IntentCommitResult_new = \<lparr>ic_duplicate = False, ic_generation = Counter 0, ic_digest = zero_digest\<rparr>"

definition handle_CommitIntent :: "RuntimeLimits \<Rightarrow> Clocks \<Rightarrow> string \<Rightarrow> bytes \<Rightarrow> Engine \<Rightarrow> Response \<times> Engine" where
  "handle_CommitIntent limits ck detail body e =
     (case decode_exactly ReadBytes body of
        None \<Rightarrow> (refused ''malformed CommitIntent request'', e)
      | Some intent_bytes \<Rightarrow>
          (case DecodeIntentExact limits intent_bytes of
             None \<Rightarrow> (refused ''intent payload failed validation'', e)
           | Some document \<Rightarrow>
               (let (status, out, e) = engine_CommitIntent ck document e;
                    result = lookup_or IntentCommitResult_new out
                in (FromStatus status detail (puts_buffer [PutBool (ic_duplicate result),
                      PutU64 (cval (ic_generation result)), PutDigest (ic_digest result)]), e))))"

definition ObservationDocument_new :: ObservationDocument where
  "ObservationDocument_new =
     \<lparr>ob_observation = StringId [], ob_scope = StringId [], ob_reporter = StringId [], ob_generation = Counter 0,
      ob_evidence = Evidence_Unknown, ob_complete = True, ob_authoritative_absence = False,
      ob_received_epoch = Counter 0, ob_received_unix_ms = 0, ob_subjects = [], ob_digest = zero_digest\<rparr>"

definition ObservationCommitResult_new :: ObservationCommitResult where
  "ObservationCommitResult_new = \<lparr>ro_duplicate = False, ro_stamped = ObservationDocument_new\<rparr>"

definition handle_RecordObservation :: "RuntimeLimits \<Rightarrow> Clocks \<Rightarrow> string \<Rightarrow> bytes \<Rightarrow> Engine \<Rightarrow> Response \<times> Engine" where
  "handle_RecordObservation limits ck detail body e =
     (case decode_exactly (\<lambda>r. do { (bs, r) \<leftarrow> ReadBytes r; (stamp, r) \<leftarrow> ReadI64 r; Some ((bs, stamp), r) }) body of
        None \<Rightarrow> (refused ''malformed RecordObservation request'', e)
      | Some (submission_bytes, stamp) \<Rightarrow>
          (case DecodeSubmissionExact limits submission_bytes of
             None \<Rightarrow> (refused ''observation payload failed validation'', e)
           | Some submission \<Rightarrow>
               (let (status, out, e) = RecordObservationAt ck submission stamp e;
                    result = lookup_or ObservationCommitResult_new out
                in (FromStatus status detail (puts_buffer [PutBool (ro_duplicate result),
                      PutBytes (EncodeObservation (ro_stamped result))]), e))))"

definition read_scope_now :: "(string \<times> i64) reader" where
  "read_scope_now r = do { (scope, r) \<leftarrow> ReadText r; (now, r) \<leftarrow> ReadI64 r; Some ((scope, now), r) }"

definition handle_Classify :: "Clocks \<Rightarrow> string \<Rightarrow> bytes \<Rightarrow> Engine \<Rightarrow> Response \<times> Engine" where
  "handle_Classify ck detail body e =
     (case decode_exactly read_scope_now body of
        None \<Rightarrow> (refused ''malformed Classify request'', e)
      | Some (scope_text, now) \<Rightarrow>
          (case TryParseId scope_text of
             None \<Rightarrow> (refused ''invalid scope identity'', e)
           | Some scope \<Rightarrow>
               (case Classify ck scope now e of
                  (Inl status, e) \<Rightarrow> (MakeError status detail, e)
                | (Inr report, e) \<Rightarrow> (ok_text (RenderClassificationText report), e))))"

definition handle_Plan :: "Clocks \<Rightarrow> string \<Rightarrow> bytes \<Rightarrow> Engine \<Rightarrow> Response \<times> Engine" where
  "handle_Plan ck detail body e =
     (case decode_exactly (\<lambda>r. do { ((scope, now), r) \<leftarrow> read_scope_now r; (dry_run, r) \<leftarrow> ReadBool r;
                               Some ((scope, now, dry_run), r) }) body of
        None \<Rightarrow> (refused ''malformed Plan request'', e)
      | Some (scope_text, now, dry_run) \<Rightarrow>
          (case TryParseId scope_text of
             None \<Rightarrow> (refused ''invalid scope identity'', e)
           | Some scope \<Rightarrow>
               (case engine_Plan ck \<lparr>pq_scope = scope, pq_policy = None, pq_now_unix_ms = now, pq_dry_run = dry_run\<rparr> e of
                  (Inl status, e) \<Rightarrow> (MakeError status detail, e)
                | (Inr plan, e) \<Rightarrow> (ok_text (RenderPlanText plan), e))))"

definition action_text :: "ActionIntent \<Rightarrow> string" where
  "action_text a =
     ''attempt='' @ to_string_u64 (cval (ai_attempt a)) @ '' key='' @ ToHex (ai_idempotency_key a) @
     '' subject='' @ str (ai_subject a) @ '' action='' @ ActionKind_text (ai_action a) @ line_end"

definition dispatch_text :: "ReconciliationPlan \<Rightarrow> DispatchResult \<Rightarrow> string" where
  "dispatch_text plan d =
     ''plan='' @ pl_plan_id plan @ '' verdict='' @ ConvergenceVerdict_text (pl_verdict plan) @
     '' issued='' @ decimal (length (dp_intents d)) @ '' already-issued='' @ decimal (dp_already_issued d) @
     '' fenced='' @ decimal (dp_fenced d) @ line_end @ concat (map action_text (dp_intents d))"

definition handle_Dispatch ::
    "Clocks \<Rightarrow> string \<Rightarrow> (Engine \<Rightarrow> Engine) \<Rightarrow> bytes \<Rightarrow> Engine \<Rightarrow> Response \<times> Engine" where
  "handle_Dispatch ck detail others body e =
     (case decode_exactly (\<lambda>r. do { ((scope, now), r) \<leftarrow> read_scope_now r; (expected, r) \<leftarrow> ReadText r;
                               Some ((scope, now, expected), r) }) body of
        None \<Rightarrow> (refused ''malformed Dispatch request'', e)
      | Some (scope_text, now, expected_plan_id) \<Rightarrow>
          (case TryParseId scope_text of
             None \<Rightarrow> (refused ''invalid scope identity'', e)
           | Some scope \<Rightarrow>
               (case engine_Plan ck \<lparr>pq_scope = scope, pq_policy = None, pq_now_unix_ms = now, pq_dry_run = False\<rparr> e of
                  (Inl status, e) \<Rightarrow> (MakeError status detail, e)
                | (Inr plan, e) \<Rightarrow>
                    if expected_plan_id \<noteq> [] \<and> expected_plan_id \<noteq> pl_plan_id plan
                    then (MakeError (Status Code_StaleAuthority Reason_AuthorityIntentGenerationMismatch)
                            ''the plan changed since the caller observed it'', e)
                    else (case Dispatch ck plan (others e) of
                            (Inl status, e) \<Rightarrow> (MakeError status detail, e)
                          | (Inr dispatched, e) \<Rightarrow> (ok_text (dispatch_text plan dispatched), e)))))"

definition ReconciliationOutcome_new :: ReconciliationOutcome where
  "ReconciliationOutcome_new =
     \<lparr>oc_idempotency_key = zero_digest, oc_scope = StringId [], oc_subject = StringId [], oc_action = Action_None,
      oc_attempt = Counter 0, oc_epoch = Counter 0, oc_boot = BootId (replicate 16 0),
      oc_terminal_state = Attempt_Invalid, oc_reason = Reason_None, oc_committed_unix_ms = 0, oc_verified = False,
      oc_verified_generation = Counter 0, oc_ambiguous = False\<rparr>"

definition completion_text :: "ReconciliationOutcome \<Rightarrow> string" where
  "completion_text x =
     ''attempt='' @ to_string_u64 (cval (oc_attempt x)) @ '' state='' @ AttemptState_text (oc_terminal_state x) @
     '' reason='' @ ReasonCode_text (oc_reason x) @ '' verified='' @ yes_no (oc_verified x) @
     '' ambiguous='' @ yes_no (oc_ambiguous x) @ line_end"

definition read_completion :: "(u64 \<times> u64 \<times> BootId \<times> Sha256Digest \<times> u8 \<times> i64 \<times> u16) reader" where
  "read_completion r =
     do { (attempt, r) \<leftarrow> ReadU64 r; (epoch, r) \<leftarrow> ReadU64 r; (boot, r) \<leftarrow> GetBoot r; (key, r) \<leftarrow> ReadDigest r;
          (target, r) \<leftarrow> ReadU8 r; (at_ms, r) \<leftarrow> ReadI64 r; (reason, r) \<leftarrow> ReadU16 r;
          Some ((attempt, epoch, boot, key, target, at_ms, reason), r) }"

definition handle_Complete :: "Clocks \<Rightarrow> string \<Rightarrow> bytes \<Rightarrow> Engine \<Rightarrow> Response \<times> Engine" where
  "handle_Complete ck detail body e =
     (case decode_exactly read_completion body of
        None \<Rightarrow> (refused ''malformed Complete request'', e)
      | Some (attempt, epoch, boot, key, target, at_ms, reason) \<Rightarrow>
          (case AttemptState_of_u8 target of
             None \<Rightarrow> (refused ''completion carries an out-of-domain enumeration'', e)
           | Some target \<Rightarrow>
               if reason > Reason_RestartLeasesNotRestored
               then (refused ''completion carries an out-of-domain enumeration'', e)
               else (let (status, out, e) = Complete ck
                          \<lparr>cq_attempt = Counter attempt, cq_epoch = Counter epoch, cq_boot = boot,
                           cq_idempotency_key = key, cq_target = target, cq_at_unix_ms = at_ms,
                           cq_reason = reason, cq_detail = []\<rparr> e
                     in (FromStatus status detail
                           (bytes_of_text (completion_text (lookup_or ReconciliationOutcome_new out))), e))))"

definition verification_text :: "ReconciliationOutcome \<Rightarrow> string" where
  "verification_text x =
     ''attempt='' @ to_string_u64 (cval (oc_attempt x)) @ '' state='' @ AttemptState_text (oc_terminal_state x) @
     '' verified='' @ yes_no (oc_verified x) @ line_end"

definition read_verification ::
    "(string \<times> string \<times> Sha256Digest \<times> string \<times> u64 \<times> u64 \<times> string \<times> string \<times> i64 \<times> bool) reader" where
  "read_verification r =
     do { (scope, r) \<leftarrow> ReadText r; (subject, r) \<leftarrow> ReadText r; (key, r) \<leftarrow> ReadDigest r; (observation, r) \<leftarrow> ReadText r;
          (generation, r) \<leftarrow> ReadU64 r; (epoch, r) \<leftarrow> ReadU64 r; (verifier, r) \<leftarrow> ReadText r; (applier, r) \<leftarrow> ReadText r;
          (at_ms, r) \<leftarrow> ReadI64 r; (confirms, r) \<leftarrow> ReadBool r;
          Some ((scope, subject, key, observation, generation, epoch, verifier, applier, at_ms, confirms), r) }"

definition parse_verification ::
    "string \<times> string \<times> Sha256Digest \<times> string \<times> u64 \<times> u64 \<times> string \<times> string \<times> i64 \<times> bool \<Rightarrow>
     VerificationEvidence option" where
  "parse_verification parts =
     (case parts of (scope, subject, key, observation, generation, epoch, verifier, applier, at_ms, confirms) \<Rightarrow>
        do { scope \<leftarrow> TryParseId scope; subject \<leftarrow> TryParseId subject; observation \<leftarrow> TryParseId observation;
             verifier \<leftarrow> TryParseId verifier; applier \<leftarrow> TryParseId applier;
             Some \<lparr>ve_scope = scope, ve_subject = subject, ve_idempotency_key = key, ve_observation = observation,
               ve_generation = Counter generation, ve_received_epoch = Counter epoch, ve_verifier = verifier,
               ve_applier = applier, ve_received_unix_ms = at_ms, ve_confirms_effect = confirms\<rparr> })"

definition handle_Verify :: "Clocks \<Rightarrow> string \<Rightarrow> bytes \<Rightarrow> Engine \<Rightarrow> Response \<times> Engine" where
  "handle_Verify ck detail body e =
     (case decode_exactly read_verification body of
        None \<Rightarrow> (refused ''malformed Verify request'', e)
      | Some parts \<Rightarrow>
          (case parse_verification parts of
             None \<Rightarrow> (refused ''verification carries an invalid identity'', e)
           | Some evidence \<Rightarrow>
               (let (status, out, e) = Verify ck evidence e
                in (FromStatus status detail
                      (bytes_of_text (verification_text (lookup_or ReconciliationOutcome_new out))), e))))"

definition handle_PutFence :: "Clocks \<Rightarrow> string \<Rightarrow> bytes \<Rightarrow> Engine \<Rightarrow> Response \<times> Engine" where
  "handle_PutFence ck detail body e =
     (case decode_exactly ReadBytes body of
        None \<Rightarrow> (refused ''malformed PutFence request'', e)
      | Some fence_bytes \<Rightarrow>
          (case decode_exactly DecodeFence fence_bytes of
             None \<Rightarrow> (refused ''fence payload failed validation'', e)
           | Some fence \<Rightarrow>
               (let (status, e) = engine_PutFence ck fence e in (acknowledged status detail, e))))"

definition handle_ClearFence :: "string \<Rightarrow> bytes \<Rightarrow> Engine \<Rightarrow> Response \<times> Engine" where
  "handle_ClearFence detail body e =
     (case decode_exactly ReadText body of
        None \<Rightarrow> (refused ''malformed ClearFence request'', e)
      | Some id_text \<Rightarrow>
          (case TryParseId id_text of
             None \<Rightarrow> (refused ''invalid fence identity'', e)
           | Some fence \<Rightarrow>
               (let (status, e) = engine_ClearFence fence e in (acknowledged status detail, e))))"

text \<open>The queries of scopes, attempts and outcomes never fail in the engine.\<close>

definition handle_KnownScopes :: "Engine \<Rightarrow> Response" where
  "handle_KnownScopes e = ok_text (concat (map (\<lambda>scope. str scope @ line_end) (KnownScopes e)))"

definition parse_scope_filter :: "string \<Rightarrow> ScopeId option" where
  "parse_scope_filter scope_text = (if scope_text \<noteq> [] then TryParseId scope_text else Some (StringId []))"

definition handle_Attempts :: "bytes \<Rightarrow> Engine \<Rightarrow> Response" where
  "handle_Attempts body e =
     (case decode_exactly ReadText body of
        None \<Rightarrow> refused ''malformed Attempts request''
      | Some scope_text \<Rightarrow>
          (case parse_scope_filter scope_text of
             None \<Rightarrow> refused ''invalid scope identity''
           | Some scope \<Rightarrow> ok_text (concat (map RenderAttemptText (Attempts scope e)))))"

definition outcome_text :: "ReconciliationOutcome \<Rightarrow> string" where
  "outcome_text x =
     ''attempt='' @ to_string_u64 (cval (oc_attempt x)) @ '' subject='' @ str (oc_subject x) @
     '' state='' @ AttemptState_text (oc_terminal_state x) @ '' verified='' @ yes_no (oc_verified x) @
     '' ambiguous='' @ yes_no (oc_ambiguous x) @ '' key='' @ ToHex (oc_idempotency_key x) @ line_end"

definition handle_Outcomes :: "bytes \<Rightarrow> Engine \<Rightarrow> Response" where
  "handle_Outcomes body e =
     (case decode_exactly ReadText body of
        None \<Rightarrow> refused ''malformed Outcomes request''
      | Some scope_text \<Rightarrow>
          (case parse_scope_filter scope_text of
             None \<Rightarrow> refused ''invalid scope identity''
           | Some scope \<Rightarrow> ok_text (concat (map outcome_text (Outcomes scope e)))))"

definition handle_Compact :: "Clocks \<Rightarrow> string \<Rightarrow> Engine \<Rightarrow> Response \<times> Engine" where
  "handle_Compact ck detail e =
     (let (status, e) = engine_Compact ck e in (acknowledged status detail, e))"

section \<open>Handle\<close>

definition dispatch_operation ::
    "RuntimeLimits \<Rightarrow> Clocks \<Rightarrow> string \<Rightarrow> (Engine \<Rightarrow> Engine) \<Rightarrow> WireOperation \<Rightarrow> bytes \<Rightarrow> Engine \<Rightarrow> Response \<times> Engine" where
  "dispatch_operation limits ck detail others operation body e =
     (case operation of
        Op_ActivePolicy \<Rightarrow> (handle_ActivePolicy detail e, e)
      | Op_PutPolicy \<Rightarrow> handle_PutPolicy limits detail body e
      | Op_CommitIntent \<Rightarrow> handle_CommitIntent limits ck detail body e
      | Op_RecordObservation \<Rightarrow> handle_RecordObservation limits ck detail body e
      | Op_Classify \<Rightarrow> handle_Classify ck detail body e
      | Op_Plan \<Rightarrow> handle_Plan ck detail body e
      | Op_Dispatch \<Rightarrow> handle_Dispatch ck detail others body e
      | Op_Complete \<Rightarrow> handle_Complete ck detail body e
      | Op_Verify \<Rightarrow> handle_Verify ck detail body e
      | Op_PutFence \<Rightarrow> handle_PutFence ck detail body e
      | Op_ClearFence \<Rightarrow> handle_ClearFence detail body e
      | Op_KnownScopes \<Rightarrow> (handle_KnownScopes e, e)
      | Op_Attempts \<Rightarrow> (handle_Attempts body e, e)
      | Op_Outcomes \<Rightarrow> (handle_Outcomes body e, e)
      | Op_BootReport \<Rightarrow> (ok_text (RenderBootReportText (en_boot_report e)), e)
      | Op_Compact \<Rightarrow> handle_Compact ck detail e
      | Op_Invalid \<Rightarrow> (MakeError (Status Code_Unsupported Reason_FrameTypeUnknown) ''unsupported operation'', e))"

definition Handle ::
    "RuntimeLimits \<Rightarrow> Clocks \<Rightarrow> string \<Rightarrow> (Engine \<Rightarrow> Engine) \<Rightarrow> BootId \<Rightarrow> Request \<Rightarrow> Engine \<Rightarrow> Response \<times> Engine" where
  "Handle limits ck detail others client_boot request e =
     (if rq_client_boot request \<noteq> client_boot
      then (MakeError (Status Code_StaleAuthority Reason_SessionBootMismatch)
              ''request carries a boot identity this session did not establish'', e)
      else if rq_epoch request \<noteq> en_live_epoch e
      then (MakeError (Status Code_StaleAuthority Reason_SessionEpochMismatch)
              ''request carries an epoch that is no longer current'', e)
      else dispatch_operation limits ck detail others (rq_operation request) (rq_body request) e)"

end
