(* ===== verification/Net.thy ===== *)
theory Net
  imports Status_Model "HOL-Library.Sublist"
begin

text \<open>
  The blocking socket wrapper of \<open>net.cpp\<close>, in its POSIX form. The operating system is a parameter: the
  results of its calls are lists that the wrapper consumes in order. A connection carries what
  \<open>select\<close> and \<open>recv\<close> will report, what each \<open>send\<close> will accept, and the bytes that were accepted; a
  call that would wait for ever is \<^const>\<open>None\<close>. For the calls that create descriptors, the kernel's
  table of open descriptors is kept, so that the error paths can be seen not to leak any.
\<close>

section \<open>Connections\<close>

datatype recv_result = Recv_Error | Recv_Closed | Recv_Bytes bytes

datatype net_event = Select_Error | Select_Woken | Select_Nothing | Readable recv_result

record Socket =
  so_open :: bool
  so_shut :: bool
  so_events :: "net_event list"
  so_writes :: "int list"
  so_sent :: bytes

definition net_Close :: "Socket \<Rightarrow> Socket" where
  "net_Close s = (if \<not> so_open s then s else s\<lparr>so_open := False\<rparr>)"

definition net_Shutdown :: "Socket \<Rightarrow> Socket" where
  "net_Shutdown s = (if \<not> so_open s then s else s\<lparr>so_shut := True\<rparr>)"

text \<open>
  The \<open>send\<close> loop: each call accepts a positive number of the remaining bytes, or fails. The last
  component lists the results that were not needed; without results, a call accepts everything.
\<close>

fun send_loop :: "bytes \<Rightarrow> int list \<Rightarrow> bool \<times> bytes \<times> int list" where
  "send_loop [] ws = (True, [], ws)"
| "send_loop data [] = (True, data, [])"
| "send_loop data (w # ws) =
     (if w \<le> 0 then (False, [], ws)
      else let (ok, sent, ws) = send_loop (drop (nat w) data) ws in (ok, take (nat w) data @ sent, ws))"

definition SendAll :: "bytes \<Rightarrow> Socket \<Rightarrow> Status \<times> Socket" where
  "SendAll data s =
     (if \<not> so_open s then (Status Code_PreconditionFailed Reason_SessionClosed, s)
      else let (ok, sent, ws) = send_loop data (so_writes s);
               s = s\<lparr>so_writes := ws, so_sent := so_sent s @ sent\<rparr>
      in if ok then (Status_Ok, s) else (Status Code_Indeterminate Reason_SessionClosed, s))"

definition Receive :: "Socket \<Rightarrow> ((Status \<times> bytes) \<times> Socket) option" where
  "Receive s =
     (if \<not> so_open s then Some ((Status Code_NotFound Reason_SessionClosed, []), s)
      else case so_events s of
        Readable Recv_Closed # events \<Rightarrow> Some ((Status Code_NotFound Reason_SessionClosed, []), s\<lparr>so_events := events\<rparr>)
      | Readable Recv_Error # events \<Rightarrow>
          Some ((Status Code_Indeterminate Reason_SessionClosed, []), s\<lparr>so_events := events\<rparr>)
      | Readable (Recv_Bytes bs) # events \<Rightarrow> Some ((Status_Ok, bs), s\<lparr>so_events := events\<rparr>)
      | _ \<Rightarrow> None)"

text \<open>\<open>WaitReadable\<close> leaves a readable socket as it is: the bytes are taken by \<open>Receive\<close>.\<close>

definition WaitReadable :: "Socket \<Rightarrow> ((Status \<times> bool) \<times> Socket) option" where
  "WaitReadable s =
     (if \<not> so_open s then Some ((Status Code_NotFound Reason_SessionClosed, False), s)
      else case so_events s of
        [] \<Rightarrow> None
      | Select_Error # events \<Rightarrow> Some ((Status Code_NotFound Reason_SessionClosed, False), s\<lparr>so_events := events\<rparr>)
      | Select_Woken # events \<Rightarrow> Some ((Status Code_NotFound Reason_SessionClosed, False), s\<lparr>so_events := events\<rparr>)
      | Select_Nothing # events \<Rightarrow> Some ((Status Code_NotFound Reason_SessionClosed, False), s\<lparr>so_events := events\<rparr>)
      | Readable r # events \<Rightarrow> Some ((Status_Ok, True), s))"

lemma send_loop_prefix:
  "send_loop data ws = (ok, sent, ws') \<Longrightarrow> prefix sent data \<and> (ok \<longrightarrow> sent = data)"
proof (induction data ws arbitrary: ok sent ws' rule: send_loop.induct)
  case (3 b bs w ws)
  show ?case
  proof (cases "w \<le> 0")
    case False
    define data where "data = b # bs"
    obtain k t vs where r: "send_loop (drop (nat w) data) ws = (k, t, vs)" by (metis prod_cases3)
    have ih: "prefix t (drop (nat w) data) \<and> (k \<longrightarrow> t = drop (nat w) data)"
      using "3.IH" [OF False] r by (simp add: data_def)
    have res: "ok = k" "sent = take (nat w) data @ t"
      using "3.prems" False r by (simp_all add: data_def)
    have "prefix sent (take (nat w) data @ drop (nat w) data)"
      unfolding res(2) using ih by (simp only: same_prefix_prefix)
    moreover have "ok \<longrightarrow> sent = take (nat w) data @ drop (nat w) data" using ih res by simp
    ultimately show ?thesis by (simp add: data_def)
  qed (use "3.prems" in auto)
qed auto

text \<open>A connection has accepted what it had accepted before, followed by a prefix of the data; all of it on success.\<close>

lemma SendAll_sent:
  assumes "SendAll data s = (status, s')"
  shows "\<exists>p. prefix p data \<and> so_sent s' = so_sent s @ p \<and> (status_ok status \<longrightarrow> p = data)"
    "so_open s' = so_open s" "so_events s' = so_events s"
proof -
  obtain ok sent ws where r: "send_loop data (so_writes s) = (ok, sent, ws)" by (metis prod_cases3)
  show "\<exists>p. prefix p data \<and> so_sent s' = so_sent s @ p \<and> (status_ok status \<longrightarrow> p = data)"
    using assms r send_loop_prefix [OF r] by (auto simp: SendAll_def Let_def split: if_splits)
  show "so_open s' = so_open s" "so_events s' = so_events s"
    using assms r by (auto simp: SendAll_def Let_def split: if_splits)
qed

lemma SendAll_open: "so_open s \<Longrightarrow> so_writes s = [] \<Longrightarrow> SendAll data s = (Status_Ok, s\<lparr>so_sent := so_sent s @ data\<rparr>)"
  by (cases data) (simp_all add: SendAll_def)

lemma WaitReadable_ok:
  assumes "WaitReadable s = Some ((status, ready), s')" "status_ok status"
  shows "ready \<and> s' = s \<and> (\<exists>r events. so_events s = Readable r # events) \<and> so_open s"
  using assms by (auto simp: WaitReadable_def split: if_splits list.splits net_event.splits)

lemma Receive_consumes:
  assumes "Receive s = Some ((status, bs), s')" "so_open s"
  shows "length (so_events s') < length (so_events s)"
  using assms by (auto simp: Receive_def split: if_splits list.splits net_event.splits recv_result.splits)

section \<open>Descriptors\<close>

text \<open>The open descriptors, and whether each of the next system calls succeeds.\<close>

record Kernel =
  k_open :: "nat list"
  k_calls :: "bool list"

definition k_next :: "Kernel \<Rightarrow> bool \<times> Kernel" where
  "k_next k = (case k_calls k of [] \<Rightarrow> (True, k) | ok # oks \<Rightarrow> (ok, k\<lparr>k_calls := oks\<rparr>))"

definition k_fresh :: "Kernel \<Rightarrow> nat" where
  "k_fresh k = Suc (fold max (k_open k) 0)"

text \<open>\<open>socket\<close>, \<open>accept\<close>: a new descriptor, or failure.\<close>

definition k_socket :: "Kernel \<Rightarrow> nat option \<times> Kernel" where
  "k_socket k =
     (let (ok, k) = k_next k in if ok then (Some (k_fresh k), k\<lparr>k_open := k_fresh k # k_open k\<rparr>) else (None, k))"

definition k_close :: "nat \<Rightarrow> Kernel \<Rightarrow> Kernel" where
  "k_close fd k = k\<lparr>k_open := removeAll fd (k_open k)\<rparr>"

text \<open>\<open>inet_pton\<close>, \<open>bind\<close>, \<open>listen\<close>, \<open>getsockname\<close>, \<open>connect\<close> on an open descriptor: the first that fails ends the call.\<close>

fun k_steps :: "nat \<Rightarrow> Kernel \<Rightarrow> bool \<times> Kernel" where
  "k_steps 0 k = (True, k)"
| "k_steps (Suc n) k = (let (ok, k) = k_next k in if ok then k_steps n k else (False, k))"

definition Listen :: "Kernel \<Rightarrow> (Status + nat) \<times> Kernel" where
  "Listen k =
     (case k_socket k of
        (None, k) \<Rightarrow> (Inl (Status Code_Rejected Reason_SessionLimitReached), k)
      | (Some fd, k) \<Rightarrow>
          (let (ok, k) = k_steps 4 k
           in if ok then (Inr fd, k) else (Inl (Status Code_Rejected Reason_SessionLimitReached), k_close fd k)))"

definition net_Accept :: "bool \<Rightarrow> Kernel \<Rightarrow> (Status + nat) \<times> Kernel" where
  "net_Accept listener_valid k =
     (if \<not> listener_valid then (Inl (Status Code_PreconditionFailed Reason_SessionClosed), k)
      else case k_socket k of
        (None, k) \<Rightarrow> (Inl (Status Code_NotFound Reason_SessionClosed), k)
      | (Some fd, k) \<Rightarrow> (Inr fd, k))"

definition net_Connect :: "Kernel \<Rightarrow> (Status + nat) \<times> Kernel" where
  "net_Connect k =
     (case k_socket k of
        (None, k) \<Rightarrow> (Inl (Status Code_Rejected Reason_SessionClosed), k)
      | (Some fd, k) \<Rightarrow>
          (let (parsed, k) = k_next k
           in if \<not> parsed then (Inl (Status Code_Rejected Reason_SessionClosed), k_close fd k)
              else let (connected, k) = k_next k
              in if \<not> connected then (Inl (Status Code_NotFound Reason_SessionClosed), k_close fd k)
                 else (Inr fd, k)))"

text \<open>The receiving and the sending end of a wakeup channel.\<close>

definition WakeupChannel_Create :: "Kernel \<Rightarrow> (Status + nat \<times> nat) \<times> Kernel" where
  "WakeupChannel_Create k =
     (let refused = Inl (Status Code_Rejected Reason_SessionLimitReached)
      in case k_socket k of
        (None, k) \<Rightarrow> (refused, k)
      | (Some receiver, k) \<Rightarrow>
          (let (bound, k) = k_steps 2 k
           in if \<not> bound then (refused, k_close receiver k)
              else case k_socket k of
                (None, k) \<Rightarrow> (refused, k_close receiver k)
              | (Some sender, k) \<Rightarrow>
                  (let (connected, k) = k_next k
                   in if \<not> connected then (refused, k_close sender (k_close receiver k))
                      else (Inr (receiver, sender), k))))"

definition WakeupChannel_Close :: "nat \<times> nat \<Rightarrow> Kernel \<Rightarrow> Kernel" where
  "WakeupChannel_Close c k = k_close (fst c) (k_close (snd c) k)"

lemma fold_max_ge: "a \<le> fold max xs (a :: nat) \<and> (x \<in> set xs \<longrightarrow> x \<le> fold max xs a)"
proof (induction xs arbitrary: a)
  case (Cons y ys)
  from Cons [of "max y a"] show ?case by auto
qed simp

lemma k_fresh_new: "k_fresh k \<notin> set (k_open k)"
proof
  assume "k_fresh k \<in> set (k_open k)"
  then have "k_fresh k \<le> fold max (k_open k) 0" using fold_max_ge by blast
  then show False by (simp add: k_fresh_def)
qed

lemma k_next_open [simp]: "k_next k = (ok, k') \<Longrightarrow> k_open k' = k_open k"
  by (auto simp: k_next_def split: list.splits)

lemma k_steps_open [simp]: "k_steps n k = (ok, k') \<Longrightarrow> k_open k' = k_open k"
  by (induction n arbitrary: k) (auto split: prod.splits if_splits)

lemma k_socket_open:
  "k_socket k = (r, k') \<Longrightarrow> k_open k' = (case r of None \<Rightarrow> k_open k | Some fd \<Rightarrow> fd # k_open k) \<and>
     (\<forall>fd. r = Some fd \<longrightarrow> fd \<notin> set (k_open k))"
proof -
  assume r: "k_socket k = (r, k')"
  obtain ok kn where n: "k_next k = (ok, kn)" by force
  have "k_open kn = k_open k" using n by simp
  then show ?thesis
    using r n k_fresh_new [of kn] by (auto simp: k_socket_def split: if_splits)
qed

text \<open>
  No path leaks a descriptor: a refused call leaves the table as it was, an accepted one adds exactly the
  descriptors it returns.
\<close>

lemma Listen_open:
  "Listen k = (r, k') \<Longrightarrow> k_open k' = (case r of Inl _ \<Rightarrow> k_open k | Inr fd \<Rightarrow> fd # k_open k)"
  by (auto simp: Listen_def k_close_def dest!: k_socket_open simp: removeAll_id split: option.splits prod.splits if_splits)

lemma net_Connect_open:
  "net_Connect k = (r, k') \<Longrightarrow> k_open k' = (case r of Inl _ \<Rightarrow> k_open k | Inr fd \<Rightarrow> fd # k_open k)"
  by (auto simp: net_Connect_def k_close_def dest!: k_socket_open simp: removeAll_id split: option.splits prod.splits if_splits)

lemma WakeupChannel_Create_open:
  assumes "WakeupChannel_Create k = (r, k')"
  shows "k_open k' = (case r of Inl _ \<Rightarrow> k_open k | Inr (receiver, sender) \<Rightarrow> sender # receiver # k_open k)"
  using assms unfolding WakeupChannel_Create_def Let_def
  by (auto simp: k_close_def dest!: k_socket_open simp: removeAll_id split: option.splits prod.splits if_splits)

end
