(* ===== verification/Server.thy ===== *)
theory Server
  imports Server_Ops Net Restart
begin

text \<open>
  The loopback service of \<open>server.cpp\<close>: sessions, the accept loop, shutdown. A session thread shares with the
  others only the engine, whose operations are atomic, and the counters of the service, which are atomic; one
  pass of its loop is therefore one step, and the interleavings of the threads are the runs of the step
  relation \<open>server_step\<close>. What the network delivers and what each \<open>send\<close> accepts is part of the sockets.
\<close>

section \<open>State\<close>

record ServerOptions =
  vo_bind_address :: string
  vo_port :: u16
  vo_limits :: RuntimeLimits
  vo_max_sessions :: nat
  vo_single_session :: bool

text \<open>Where the thread of a session stands in \<open>ServeSession\<close>.\<close>

datatype SessionPhase = Handshaking | Serving | Ended

text \<open>A \<open>SessionState\<close> together with the local variables of its thread.\<close>

record SessionState =
  ss_socket :: Socket
  ss_session_id :: u64
  ss_client_boot :: BootId
  ss_handshake_epoch :: CoordinatorEpoch
  ss_requests :: u64
  ss_rejected :: u64
  ss_live :: bool
  ss_phase :: SessionPhase
  ss_reader :: FrameReader
  ss_expected_incoming :: u64
  ss_outgoing_sequence :: u64

text \<open>Where the accept thread stands: before its wait, with an accepted connection, or finished.\<close>

datatype AcceptPhase = Accept_Waiting | Accept_Connected Socket bool | Accept_Finished

record Server =
  sv_engine :: Engine
  sv_options :: ServerOptions
  sv_port :: u16
  sv_sessions :: "SessionState list"
  sv_stopping :: bool
  sv_accept :: AcceptPhase
  sv_accepted :: u64
  sv_rejected :: u64
  sv_next_session :: u64

definition MakeHeader :: "WireMessageType \<Rightarrow> u64 \<Rightarrow> u64 \<Rightarrow> FrameHeader" where
  "MakeHeader ty session_id sequence =
     FrameHeader_new\<lparr>fh_protocol_version := kWireProtocolVersion, fh_type := ty, fh_flags := 0,
       fh_session_id := session_id, fh_sequence := sequence\<rparr>"

definition SendFrame :: "FrameHeader \<Rightarrow> bytes \<Rightarrow> Socket \<Rightarrow> Status \<times> Socket" where
  "SendFrame header payload socket = SendAll (EncodeFrame header payload) socket"

section \<open>Receiving\<close>

text \<open>\<open>Waiting\<close> is a receive that has not returned yet: it keeps what it has read so far.\<close>

datatype ReceiveOutcome = Received_Frame FrameHeader bytes | PeerClosed | Released | ProtocolError | Waiting

function ReceiveFrame :: "FrameReader \<Rightarrow> Socket \<Rightarrow> ReceiveOutcome \<times> FrameReader \<times> Socket" where
  "ReceiveFrame reader socket =
     (if fr_failed reader then (ProtocolError, reader, socket)
      else case Next reader of
        (Some (header, payload), reader) \<Rightarrow> (Received_Frame header payload, reader, socket)
      | (None, reader) \<Rightarrow>
          if fr_failed reader then (ProtocolError, reader, socket)
          else case WaitReadable socket of
            None \<Rightarrow> (Waiting, reader, socket)
          | Some ((waited, ready), socket) \<Rightarrow>
              if \<not> status_ok waited then (Released, reader, socket)
              else if \<not> ready then ReceiveFrame reader socket
              else case Receive socket of
                None \<Rightarrow> (Waiting, reader, socket)
              | Some ((status, received), socket) \<Rightarrow>
                  if \<not> status_ok status \<or> received = [] then (PeerClosed, reader, socket)
                  else ReceiveFrame (Feed received reader) socket)"
  by pat_completeness auto

termination
proof (relation "measure (\<lambda>(reader, socket). length (so_events socket))", goal_cases)
  case (2 reader socket x1 x2 w y st ready s')
  then show ?case using WaitReadable_ok by blast
next
  case (3 reader socket x1 x2 w y s' st ready x ya status received s'')
  then show ?case using WaitReadable_ok Receive_consumes by (metis in_measure case_prod_conv)
qed simp

declare ReceiveFrame.simps [simp del]

section \<open>Sessions\<close>

definition CloseSession :: "SessionState \<Rightarrow> SessionState" where
  "CloseSession session =
     session\<lparr>ss_live := False, ss_socket := net_Close (net_Shutdown (ss_socket session)), ss_phase := Ended\<rparr>"

definition count_rejected :: "Server \<Rightarrow> Server" where
  "count_rejected server = server\<lparr>sv_rejected := sv_rejected server + 1\<rparr>"

text \<open>An answer of the session, under its next outgoing sequence number.\<close>

definition answer :: "WireMessageType \<Rightarrow> bytes \<Rightarrow> SessionState \<Rightarrow> Status \<times> SessionState" where
  "answer ty payload session =
     (let (status, socket) = SendFrame (MakeHeader ty (ss_session_id session) (ss_outgoing_sequence session)) payload
            (ss_socket session)
      in (status, session\<lparr>ss_socket := socket, ss_outgoing_sequence := ss_outgoing_sequence session + 1\<rparr>))"

definition answer_error :: "Status \<Rightarrow> string \<Rightarrow> SessionState \<Rightarrow> SessionState" where
  "answer_error status detail session = snd (answer Msg_Error (EncodeResponse (MakeError status detail)) session)"

definition welcome_for :: "u64 \<Rightarrow> bytes \<Rightarrow> Server \<Rightarrow> Welcome" where
  "welcome_for session_id nonce server =
     \<lparr>we_protocol_version = kWireProtocolVersion, we_session_id = session_id,
      we_epoch = en_live_epoch (sv_engine server), we_server_boot = en_live_boot (sv_engine server),
      we_store = ds_store (en_state (sv_engine server)), we_nonce = nonce,
      we_max_payload = of_nat (max_wire_payload_bytes (vo_limits (sv_options server)))\<rparr>"

text \<open>The handshake, from the first frame of the connection to the welcome.\<close>

definition greet :: "BootId \<times> bytes \<Rightarrow> SessionState \<Rightarrow> Server \<Rightarrow> SessionState \<times> Server" where
  "greet hello session server =
     (let session_id = sv_next_session server;
          server = server\<lparr>sv_next_session := session_id + 1\<rparr>;
          session = session\<lparr>ss_session_id := session_id, ss_client_boot := fst hello,
            ss_handshake_epoch := en_live_epoch (sv_engine server)\<rparr>;
          welcome_payload = EncodeWelcome (welcome_for session_id (snd hello) server)
      in if welcome_payload = [] then (CloseSession session, server)
         else let (sent, socket) = SendFrame (MakeHeader Msg_Welcome 0 1) welcome_payload (ss_socket session);
                  session = session\<lparr>ss_socket := socket\<rparr>
         in if \<not> status_ok sent then (CloseSession session, server)
            else (session\<lparr>ss_live := True, ss_phase := Serving, ss_expected_incoming := 2\<rparr>, server))"

definition serve_handshake :: "SessionState \<Rightarrow> Server \<Rightarrow> SessionState \<times> Server" where
  "serve_handshake session server =
     (let (outcome, reader, socket) = ReceiveFrame (ss_reader session) (ss_socket session);
          session = session\<lparr>ss_reader := reader, ss_socket := socket\<rparr>
      in case outcome of
        Waiting \<Rightarrow> (session, server)
      | ProtocolError \<Rightarrow>
          (let (_, socket) = SendFrame (MakeHeader Msg_Error 0 (ss_outgoing_sequence session))
                 (EncodeResponse (MakeError (Status Code_Rejected Reason_FrameTypeUnknown)
                    ''the opening frame is not a decodable handshake frame'')) (ss_socket session)
           in (CloseSession (session\<lparr>ss_socket := socket\<rparr>), count_rejected server))
      | PeerClosed \<Rightarrow> (CloseSession session, server)
      | Released \<Rightarrow> (CloseSession session, server)
      | Received_Frame header payload \<Rightarrow>
          if fh_type header \<noteq> Msg_Hello \<or> fh_sequence header \<noteq> 1 \<or> fh_session_id header \<noteq> 0
          then (CloseSession session, count_rejected server)
          else case DecodeHello payload of
            None \<Rightarrow> (CloseSession session, count_rejected server)
          | Some hello \<Rightarrow> greet hello session server)"

text \<open>A decoded request: the engine is called, and its answer sent.\<close>

definition serve_request ::
    "Clocks \<Rightarrow> string \<Rightarrow> (Engine \<Rightarrow> Engine) \<Rightarrow> Request \<Rightarrow> SessionState \<Rightarrow> Server \<Rightarrow> SessionState \<times> Server" where
  "serve_request ck detail others request session server =
     (let session = session\<lparr>ss_requests := ss_requests session + 1\<rparr>;
          (response, e) = Handle (vo_limits (sv_options server)) ck detail others (ss_client_boot session) request
            (sv_engine server);
          (sent, session) = answer Msg_Response (EncodeResponse response) session;
          server = server\<lparr>sv_engine := e\<rparr>
      in (if status_ok sent then session else CloseSession session, server))"

text \<open>One pass of the loop over the frames of an established session.\<close>

definition serve_frame ::
    "Clocks \<Rightarrow> string \<Rightarrow> (Engine \<Rightarrow> Engine) \<Rightarrow> FrameHeader \<Rightarrow> bytes \<Rightarrow> SessionState \<Rightarrow> Server \<Rightarrow> SessionState \<times> Server" where
  "serve_frame ck detail others header payload session server =
     (if fh_session_id header \<noteq> ss_session_id session
      then (answer_error (Status Code_StaleAuthority Reason_SessionIdentityMismatch)
              ''frame carries a session identity that is not this session's'' session, count_rejected server)
      else if fh_type header = Msg_Goodbye then (CloseSession session, server)
      else if fh_sequence header \<noteq> ss_expected_incoming session
      then (CloseSession (answer_error (Status Code_ConflictState Reason_SessionSequenceRegression)
              ''frame sequence is not contiguous'' session), count_rejected server)
      else let session = session\<lparr>ss_expected_incoming := ss_expected_incoming session + 1\<rparr>
      in if fh_type header = Msg_Ping
         then (let (sent, session) = answer Msg_Pong [] session
               in (if status_ok sent then session else CloseSession session, server))
         else if fh_type header \<noteq> Msg_Request
         then (answer_error (Status Code_Rejected Reason_FrameTypeUnknown)
                 ''only request frames are accepted after the handshake'' session, count_rejected server)
         else case DecodeRequest payload of
           None \<Rightarrow> (answer_error (Status Code_Rejected Reason_FrameTypeUnknown)
                      ''request payload failed decoding'' session, count_rejected server)
         | Some request \<Rightarrow> serve_request ck detail others request session server)"

definition serve_iteration ::
    "Clocks \<Rightarrow> string \<Rightarrow> (Engine \<Rightarrow> Engine) \<Rightarrow> SessionState \<Rightarrow> Server \<Rightarrow> SessionState \<times> Server" where
  "serve_iteration ck detail others session server =
     (let (outcome, reader, socket) = ReceiveFrame (ss_reader session) (ss_socket session);
          session = session\<lparr>ss_reader := reader, ss_socket := socket\<rparr>
      in case outcome of
        Waiting \<Rightarrow> (session, server)
      | ProtocolError \<Rightarrow>
          (CloseSession (answer_error (Status Code_Rejected Reason_FrameTypeUnknown)
             ''the frame stream violated the protocol and cannot be trusted'' session), count_rejected server)
      | PeerClosed \<Rightarrow> (CloseSession session, server)
      | Released \<Rightarrow> (CloseSession session, server)
      | Received_Frame header payload \<Rightarrow> serve_frame ck detail others header payload session server)"

text \<open>The next step of a session's thread.\<close>

definition ServeSession ::
    "Clocks \<Rightarrow> string \<Rightarrow> (Engine \<Rightarrow> Engine) \<Rightarrow> SessionState \<Rightarrow> Server \<Rightarrow> SessionState \<times> Server" where
  "ServeSession ck detail others session server =
     (case ss_phase session of
        Handshaking \<Rightarrow> serve_handshake session server
      | Serving \<Rightarrow> serve_iteration ck detail others session server
      | Ended \<Rightarrow> (session, server))"

section \<open>Accepting and stopping\<close>

definition SessionState_new :: "ServerOptions \<Rightarrow> Socket \<Rightarrow> SessionState" where
  "SessionState_new options socket =
     \<lparr>ss_socket = socket, ss_session_id = 0, ss_client_boot = BootId (replicate 16 0), ss_handshake_epoch = Counter 0,
      ss_requests = 0, ss_rejected = 0, ss_live = False, ss_phase = Handshaking,
      ss_reader = FrameReader_new (of_nat (max_wire_payload_bytes (vo_limits options))),
      ss_expected_incoming = 1, ss_outgoing_sequence = 1\<rparr>"

text \<open>
  What a wait of the accept thread ends with: released by shutdown or failure, a spurious return, a
  failed \<open>accept\<close>, or a connection, whose wakeup channel can be created or not.
\<close>

datatype AcceptEvent = Wait_Released | Wait_Not_Ready | Accept_Refused | Accept_Connection Socket bool

text \<open>The first half of the accept loop: the test of \<open>stopping\<close>, the wait, and the \<open>accept\<close>.\<close>

definition accept_wait :: "AcceptEvent \<Rightarrow> Server \<Rightarrow> Server" where
  "accept_wait event server =
     (if sv_stopping server then server\<lparr>sv_accept := Accept_Finished\<rparr>
      else case event of
        Wait_Released \<Rightarrow> server\<lparr>sv_accept := Accept_Finished\<rparr>
      | Wait_Not_Ready \<Rightarrow> server
      | Accept_Refused \<Rightarrow> server
      | Accept_Connection socket channel \<Rightarrow> server\<lparr>sv_accept := Accept_Connected socket channel\<rparr>)"

text \<open>The second half: the bound on sessions, the wakeup channel, the new session and its thread.\<close>

definition accept_admit :: "Socket \<Rightarrow> bool \<Rightarrow> Server \<Rightarrow> Server" where
  "accept_admit socket channel server =
     (if length (sv_sessions server) \<ge> vo_max_sessions (sv_options server)
      then count_rejected (server\<lparr>sv_accept := Accept_Waiting\<rparr>)
      else if \<not> channel then count_rejected (server\<lparr>sv_accept := Accept_Waiting\<rparr>)
      else server\<lparr>sv_sessions := sv_sessions server @ [SessionState_new (sv_options server) socket],
             sv_accepted := sv_accepted server + 1,
             sv_accept := (if vo_single_session (sv_options server) then Accept_Finished else Accept_Waiting)\<rparr>)"

text \<open>A signalled session finds its wakeup channel readable at its next wait.\<close>

definition release_session :: "SessionState \<Rightarrow> SessionState" where
  "release_session session =
     session\<lparr>ss_socket := net_Shutdown ((ss_socket session)\<lparr>so_events := Select_Woken # so_events (ss_socket session)\<rparr>)\<rparr>"

text \<open>\<open>Stop\<close> up to its joins, and after them; it passes the joins when every thread has finished.\<close>

definition stop_signal :: "Server \<Rightarrow> Server" where
  "stop_signal server =
     (if sv_stopping server then server
      else server\<lparr>sv_stopping := True, sv_sessions := map release_session (sv_sessions server)\<rparr>)"

definition threads_finished :: "Server \<Rightarrow> bool" where
  "threads_finished server \<longleftrightarrow> sv_accept server = Accept_Finished \<and>
     list_all (\<lambda>s. ss_phase s = Ended) (sv_sessions server)"

definition stop_finish :: "Server \<Rightarrow> Server" where
  "stop_finish server = server\<lparr>sv_sessions := []\<rparr>"

definition Start :: "ServerOptions \<Rightarrow> Engine \<Rightarrow> u16 \<Rightarrow> Kernel \<Rightarrow> (Status + Server) \<times> Kernel" where
  "Start options engine bound_port k =
     (case WakeupChannel_Create k of
        (Inl status, k) \<Rightarrow> (Inl status, k)
      | (Inr wake, k) \<Rightarrow>
          (case Listen k of
             (Inl status, k) \<Rightarrow> (Inl status, WakeupChannel_Close wake k)
           | (Inr listener, k) \<Rightarrow>
               (Inr \<lparr>sv_engine = engine, sv_options = options, sv_port = bound_port, sv_sessions = [],
                     sv_stopping = False, sv_accept = Accept_Waiting, sv_accepted = 0, sv_rejected = 0,
                     sv_next_session = 1\<rparr>, k)))"

section \<open>Introspection\<close>

record SessionSnapshot =
  sn_session_id :: u64
  sn_client_boot :: BootId
  sn_handshake_epoch :: CoordinatorEpoch
  sn_requests_served :: u64
  sn_rejected_frames :: u64

definition snapshot_of :: "SessionState \<Rightarrow> SessionSnapshot" where
  "snapshot_of s =
     \<lparr>sn_session_id = ss_session_id s, sn_client_boot = ss_client_boot s, sn_handshake_epoch = ss_handshake_epoch s,
      sn_requests_served = ss_requests s, sn_rejected_frames = ss_rejected s\<rparr>"

definition sessions :: "Server \<Rightarrow> SessionSnapshot list" where
  "sessions server = map snapshot_of (sv_sessions server)"

definition endpoint :: "Server \<Rightarrow> string" where
  "endpoint server = vo_bind_address (sv_options server) @ '':'' @ decimal (unat (sv_port server))"

definition connections_accepted :: "Server \<Rightarrow> u64" where
  "connections_accepted server = sv_accepted server"

definition frames_rejected :: "Server \<Rightarrow> u64" where
  "frames_rejected server = sv_rejected server"

section \<open>Runs of the service\<close>

text \<open>
  What may happen to the engine between the two calls of a dispatch: any operations of other callers, as
  long as attempt identities are not about to run out.
\<close>

definition interferes :: "Engine \<Rightarrow> (Engine \<Rightarrow> Engine) \<Rightarrow> bool" where
  "interferes e others \<longleftrightarrow> (\<forall>x. en_store x = en_store e \<longrightarrow> engine_step\<^sup>*\<^sup>* x (others x) \<and>
     unat (cval (ds_next_attempt (en_state (others x)))) + max_plan_actions (en_limits e) < 2 ^ 64)"

text \<open>
  A step of the service: the thread of one session, either half of the accept loop, either half of \<open>Stop\<close>, or
  the network delivering something to a session that is waiting for it.
\<close>

inductive server_step :: "Server \<Rightarrow> Server \<Rightarrow> bool" where
  step_session: "i < length (sv_sessions server) \<Longrightarrow> interferes (sv_engine server) others \<Longrightarrow>
    ServeSession ck detail others (sv_sessions server ! i) server = (session, server') \<Longrightarrow>
    server_step server (server'\<lparr>sv_sessions := (sv_sessions server')[i := session]\<rparr>)"
| step_accept_wait: "sv_accept server = Accept_Waiting \<Longrightarrow> server_step server (accept_wait event server)"
| step_accept_admit: "sv_accept server = Accept_Connected socket channel \<Longrightarrow>
    server_step server (accept_admit socket channel server)"
| step_stop_signal: "server_step server (stop_signal server)"
| step_stop_finish: "sv_stopping server \<Longrightarrow> threads_finished server \<Longrightarrow> server_step server (stop_finish server)"
| step_network: "i < length (sv_sessions server) \<Longrightarrow> session = sv_sessions server ! i \<Longrightarrow>
    session' = session\<lparr>ss_socket := (ss_socket session)\<lparr>so_events := so_events (ss_socket session) @ events\<rparr>\<rparr> \<Longrightarrow>
    server_step server (server\<lparr>sv_sessions := (sv_sessions server)[i := session']\<rparr>)"

inductive_cases server_stepE: "server_step server server'"

end
