(* ===== verification/Client.thy ===== *)
theory Client
  imports Server
begin

text \<open>
  The blocking client of \<open>client.cpp\<close>: connection, handshake, and one request and response exchange per call.
  The randomness of the client, what connecting yields, and what the network delivers are arguments; a call
  that is still waiting for the service is \<^const>\<open>None\<close>.
\<close>

section \<open>State\<close>

record Client =
  cl_socket :: "Socket option"
  cl_session_id :: u64
  cl_sequence :: u64
  cl_server_epoch :: CoordinatorEpoch
  cl_server_boot :: BootId
  cl_server_store :: StoreId
  cl_client_boot :: BootId
  cl_rehandshakes :: u64
  cl_limits :: RuntimeLimits
  cl_host :: string
  cl_port :: u16

definition Client_new :: Client where
  "Client_new =
     \<lparr>cl_socket = None, cl_session_id = 0, cl_sequence = 0, cl_server_epoch = Counter 0,
      cl_server_boot = BootId (replicate 16 0), cl_server_store = StoreId (replicate 16 0),
      cl_client_boot = BootId (replicate 16 0), cl_rehandshakes = 0, cl_limits = default_limits, cl_host = [],
      cl_port = 0\<rparr>"

definition connected :: "Client \<Rightarrow> bool" where
  "connected c \<longleftrightarrow> cl_socket c \<noteq> None"

text \<open>The socket and its wakeup channel are set and reset together; closing signals the one and shuts down the other.\<close>

definition client_Close :: "Client \<Rightarrow> Client" where
  "client_Close c = c\<lparr>cl_socket := None, cl_session_id := 0, cl_sequence := 0\<rparr>"

abbreviation client_reader :: "Client \<Rightarrow> FrameReader" where
  "client_reader c \<equiv> FrameReader_new (of_nat (max_wire_payload_bytes (cl_limits c)))"

section \<open>Exchanges\<close>

text \<open>The inner \<^const>\<open>None\<close> is \<open>false\<close>; the loop of \<open>ReceiveOne\<close> is the one of the service's \<open>ReceiveFrame\<close>.\<close>

definition ReceiveOne :: "Client \<Rightarrow> ((FrameHeader \<times> bytes) option \<times> Client) option" where
  "ReceiveOne c =
     (case cl_socket c of
        None \<Rightarrow> Some (None, c)
      | Some socket \<Rightarrow>
          (let (outcome, reader, socket) = ReceiveFrame (client_reader c) socket;
               c = c\<lparr>cl_socket := Some socket\<rparr>
           in case outcome of
             Waiting \<Rightarrow> None
           | Received_Frame header payload \<Rightarrow> Some (Some (header, payload), c)
           | _ \<Rightarrow> Some (None, c)))"

definition not_connected :: Status where
  "not_connected = Status Code_PreconditionFailed Reason_SessionClosed"

definition client_Send :: "FrameHeader \<Rightarrow> bytes \<Rightarrow> Socket \<Rightarrow> Client \<Rightarrow> Status \<times> Client" where
  "client_Send header payload socket c =
     (let (sent, socket) = SendAll (EncodeFrame header payload) socket in (sent, c\<lparr>cl_socket := Some socket\<rparr>))"

definition accept_welcome :: "(FrameHeader \<times> bytes) option \<Rightarrow> Client \<Rightarrow> Status \<times> Client" where
  "accept_welcome received c =
     (case received of
        None \<Rightarrow> (Status Code_Indeterminate Reason_SessionClosed, c)
      | Some (header, payload) \<Rightarrow>
          if fh_type header \<noteq> Msg_Welcome then (Status Code_Rejected Reason_FrameTypeUnknown, c)
          else case DecodeWelcome payload of
            None \<Rightarrow> (Status Code_Rejected Reason_FrameTypeUnknown, c)
          | Some welcome \<Rightarrow>
              (Status_Ok, c\<lparr>cl_session_id := we_session_id welcome, cl_sequence := 1,
                 cl_server_epoch := we_epoch welcome, cl_server_boot := we_server_boot welcome,
                 cl_server_store := we_store welcome\<rparr>))"

definition client_Handshake :: "bytes \<Rightarrow> Client \<Rightarrow> (Status \<times> Client) option" where
  "client_Handshake nonce c =
     (case cl_socket c of
        None \<Rightarrow> Some (not_connected, c)
      | Some socket \<Rightarrow>
          (let hello = EncodeHello (cl_client_boot c) nonce
           in if hello = [] then Some (Status Code_InternalError Reason_SessionClosed, c)
              else let (sent, c) = client_Send (MakeHeader Msg_Hello 0 1) hello socket c
              in if \<not> status_ok sent then Some (sent, c)
                 else do { (received, c) \<leftarrow> ReceiveOne c; Some (accept_welcome received c) }))"

definition Exchange ::
    "WireMessageType \<Rightarrow> bytes \<Rightarrow> Client \<Rightarrow> ((Status + FrameHeader \<times> bytes) \<times> Client) option" where
  "Exchange ty payload c =
     (case cl_socket c of
        None \<Rightarrow> Some (Inl not_connected, c)
      | Some socket \<Rightarrow>
          (let (sent, c) = client_Send (MakeHeader ty (cl_session_id c) (cl_sequence c + 1)) payload socket c
           in if \<not> status_ok sent then Some (Inl sent, c)
              else do { (received, c) \<leftarrow> ReceiveOne (c\<lparr>cl_sequence := cl_sequence c + 1\<rparr>);
                        case received of
                          None \<Rightarrow> Some (Inl (Status Code_Indeterminate Reason_SessionClosed), c)
                        | Some frame \<Rightarrow> Some (Inr frame, c) }))"

section \<open>Calls\<close>

text \<open>What one pass of the retry loop decides: return, with the body on success, or handshake again.\<close>

datatype CallVerdict = Call_Returns Status "bytes option" | Call_Again

definition judge_frame :: "bool \<Rightarrow> FrameHeader \<Rightarrow> bytes \<Rightarrow> CallVerdict" where
  "judge_frame first_attempt header frame_payload =
     (let undecodable = Call_Returns (Status Code_Rejected Reason_FrameTypeUnknown) None
      in if fh_type header = Msg_Error
         then (case DecodeResponse frame_payload of
                 None \<Rightarrow> undecodable
               | Some error \<Rightarrow>
                   if rs_reason error = Reason_SessionEpochMismatch \<and> first_attempt then Call_Again
                   else Call_Returns (Status (rs_code error) (rs_reason error)) None)
         else if fh_type header \<noteq> Msg_Response then undecodable
         else case DecodeResponse frame_payload of
           None \<Rightarrow> undecodable
         | Some decoded \<Rightarrow>
             if rs_code decoded \<noteq> Code_Ok then Call_Returns (Status (rs_code decoded) (rs_reason decoded)) None
             else Call_Returns Status_Ok (Some (rs_body decoded)))"

definition call_attempt :: "bool \<Rightarrow> WireOperation \<Rightarrow> bytes \<Rightarrow> Client \<Rightarrow> (CallVerdict \<times> Client) option" where
  "call_attempt first_attempt operation payload c =
     (if cl_socket c = None then Some (Call_Returns not_connected None, c)
      else let encoded = EncodeRequest \<lparr>rq_operation = operation, rq_client_boot = cl_client_boot c,
                   rq_epoch = cl_server_epoch c, rq_body = payload\<rparr>
      in if encoded = [] then Some (Call_Returns (Status Code_Rejected Reason_UnsupportedInput) None, c)
         else do { (exchanged, c) \<leftarrow> Exchange Msg_Request encoded c;
                   case exchanged of
                     Inl status \<Rightarrow> Some (Call_Returns status None, c)
                   | Inr (header, frame_payload) \<Rightarrow> Some (judge_frame first_attempt header frame_payload, c) })"

text \<open>
  What a reconnection meets: the result of \<open>net::Connect\<close>, that of creating the wakeup channel, and the nonce
  that is drawn.
\<close>

record Reconnect =
  rc_connect :: "Status + Socket"
  rc_wake :: Status
  rc_nonce :: bytes

definition reconnect :: "Reconnect \<Rightarrow> Client \<Rightarrow> (Status \<times> Client) option" where
  "reconnect rc c =
     (let c = client_Close c
      in case rc_connect rc of
        Inl status \<Rightarrow> Some (status, c)
      | Inr socket \<Rightarrow>
          if \<not> status_ok (rc_wake rc) then Some (rc_wake rc, c)
          else do { (handshake, c) \<leftarrow> client_Handshake (rc_nonce rc) (c\<lparr>cl_socket := Some socket\<rparr>);
                    Some (handshake, if status_ok handshake then c\<lparr>cl_rehandshakes := cl_rehandshakes c + 1\<rparr> else c) })"

text \<open>The second attempt always returns, so the status after the loop is never reached.\<close>

definition Call ::
    "Reconnect \<Rightarrow> WireOperation \<Rightarrow> bytes \<Rightarrow> Client \<Rightarrow> (Status \<times> bytes option \<times> Client) option" where
  "Call rc operation payload c =
     do { (verdict, c) \<leftarrow> call_attempt True operation payload c;
          case verdict of
            Call_Returns status response \<Rightarrow> Some (status, response, c)
          | Call_Again \<Rightarrow>
              do { (reconnected, c) \<leftarrow> reconnect rc c;
                   if \<not> status_ok reconnected then Some (reconnected, None, c)
                   else do { (verdict, c) \<leftarrow> call_attempt False operation payload c;
                             case verdict of
                               Call_Returns status response \<Rightarrow> Some (status, response, c)
                             | Call_Again \<Rightarrow> Some (Status Code_StaleAuthority Reason_SessionEpochMismatch, None, c) } } }"

definition client_Connect ::
    "Reconnect \<Rightarrow> BootId \<Rightarrow> string \<Rightarrow> u16 \<Rightarrow> RuntimeLimits \<Rightarrow> (Status \<times> Client option) option" where
  "client_Connect rc boot host port limits =
     (let c = Client_new\<lparr>cl_limits := limits, cl_host := host, cl_port := port, cl_client_boot := boot\<rparr>
      in case rc_connect rc of
        Inl status \<Rightarrow> Some (status, None)
      | Inr socket \<Rightarrow>
          if \<not> status_ok (rc_wake rc) then Some (rc_wake rc, None)
          else do { (handshake, c) \<leftarrow> client_Handshake (rc_nonce rc) (c\<lparr>cl_socket := Some socket\<rparr>);
                    if \<not> status_ok handshake then Some (handshake, None) else Some (Status_Ok, Some c) })"

end
