(* ===== verification/Server_Laws.thy ===== *)
theory Server_Laws
  imports Server "HOL-Library.Multiset"
begin

text \<open>
  What the service guarantees. Every answer comes from engine operations that the engine's own theory covers,
  so that any run of the service keeps the engine's invariant; sessions have distinct identities and act on the
  engine only through their own authenticated, contiguous requests; a released session ends.
\<close>

section \<open>Decoded arguments are well typed\<close>

lemma DecodePolicyExact_typed: "DecodePolicyExact limits bs = Some p \<Longrightarrow> policy_typed p"
  using policy_codec.decode_ok [of limits bs p "[]"]
  by (auto simp: DecodePolicyExact_def decode_exactly_Some policy_ok_def policy_typed_def wf_id_def list_all_iff)

lemma DecodeIntentExact_typed: "DecodeIntentExact limits bs = Some d \<Longrightarrow> intent_typed d"
  using intent_codec.decode_ok [of limits bs d "[]"]
  by (auto simp: DecodeIntentExact_def decode_exactly_Some intro: intent_ok_typed)

lemma DecodeSubmissionExact_typed: "DecodeSubmissionExact limits bs = Some d \<Longrightarrow> submission_typed d"
  using submission_codec.decode_ok [of limits bs d "[]"]
  by (auto simp: DecodeSubmissionExact_def decode_exactly_Some intro: submission_ok_typed)

lemma DecodeFence_exact_ok: "decode_exactly DecodeFence bs = Some f \<Longrightarrow> fence_ok f"
  using fence_codec.decode_ok by (auto simp: decode_exactly_Some)

section \<open>Requests are engine operations\<close>

lemma plan_decisions_bound:
  assumes "engine_Plan ck request e = (Inr plan, e')"
  shows "length (pl_decisions plan) \<le> max_plan_actions (en_limits e)" "en_store e' = en_store e"
  using BuildPlanLocked_parts [OF assms [unfolded engine_Plan_def]] by (metis length_map length_take min.cobounded2)+

lemma handle_Dispatch_calls:
  assumes "handle_Dispatch ck detail others body e = (response, e')" "engine_inv e" "interferes e others"
  shows "engine_step\<^sup>*\<^sup>* e e'"
proof -
  have same: "?thesis" if "e' = e" using that by simp
  consider "e' = e" | scope now status where "engine_Plan ck
      \<lparr>pq_scope = scope, pq_policy = None, pq_now_unix_ms = now, pq_dry_run = False\<rparr> e = (Inl status, e')"
    | scope now plan e1 where "engine_Plan ck
      \<lparr>pq_scope = scope, pq_policy = None, pq_now_unix_ms = now, pq_dry_run = False\<rparr> e = (Inr plan, e1)"
      "e' = e1 \<or> (\<exists>out. Dispatch ck plan (others e1) = (out, e'))"
    using assms(1) unfolding handle_Dispatch_def
    by (auto split: option.splits prod.splits sum.splits if_splits)
  then show ?thesis
  proof cases
    case (2 scope now status)
    then show ?thesis using engine_step.step_Plan by blast
  next
    case (3 scope now plan e1)
    have planned: "engine_step e e1" using 3(1) engine_step.step_Plan by blast
    show ?thesis
    proof (cases "e' = e1")
      case False
      then obtain out where d: "Dispatch ck plan (others e1) = (out, e')" using 3(2) by blast
      have o: "engine_step\<^sup>*\<^sup>* e1 (others e1)"
        "unat (cval (ds_next_attempt (en_state (others e1)))) + length (pl_decisions plan) < 2 ^ 64"
        using assms(3) plan_decisions_bound [OF 3(1)] by (auto simp: interferes_def intro: le_less_trans)
      have "plan_ok plan" using BuildPlanLocked_plan_ok [OF assms(2)] 3(1) by (simp add: engine_Plan_def)
      then have "engine_step (others e1) e'" using engine_step.step_Dispatch [OF d _ o(2)] by blast
      then show ?thesis using planned o(1) by (meson converse_rtranclp_into_rtranclp rtranclp.rtrancl_into_rtrancl)
    qed (use planned in blast)
  qed (simp add: same)
qed

lemma calls_step: "engine_step e e' \<Longrightarrow> engine_step\<^sup>*\<^sup>* e e'" by blast

lemma dispatch_operation_calls:
  assumes "dispatch_operation limits ck detail others operation body e = (response, e')" "engine_inv e" "interferes e others"
  shows "engine_step\<^sup>*\<^sup>* e e'"
proof (cases operation)
  case Op_PutPolicy
  then show ?thesis
    using assms(1) unfolding dispatch_operation_def handle_PutPolicy_def
    by (auto split: option.splits prod.splits dest!: DecodePolicyExact_typed intro: calls_step engine_step.step_PutPolicy)
next
  case Op_CommitIntent
  then show ?thesis
    using assms(1) unfolding dispatch_operation_def handle_CommitIntent_def
    by (auto simp: Let_def split: option.splits prod.splits dest!: DecodeIntentExact_typed
        intro: calls_step engine_step.step_CommitIntent)
next
  case Op_RecordObservation
  then show ?thesis
    using assms(1) unfolding dispatch_operation_def handle_RecordObservation_def
    by (auto simp: Let_def split: option.splits prod.splits dest!: DecodeSubmissionExact_typed
        intro: calls_step engine_step.step_RecordObservationAt)
next
  case Op_Classify
  then show ?thesis
    using assms(1) unfolding dispatch_operation_def handle_Classify_def
    by (auto split: option.splits prod.splits sum.splits intro: calls_step engine_step.step_Classify)
next
  case Op_Plan
  then show ?thesis
    using assms(1) unfolding dispatch_operation_def handle_Plan_def
    by (auto split: option.splits prod.splits sum.splits intro: calls_step engine_step.step_Plan)
next
  case Op_Dispatch
  then show ?thesis using assms handle_Dispatch_calls by (simp add: dispatch_operation_def)
next
  case Op_Complete
  then show ?thesis
    using assms(1) unfolding dispatch_operation_def handle_Complete_def
    by (auto simp: Let_def split: option.splits prod.splits if_splits intro!: calls_step elim!: engine_step.step_Complete)
next
  case Op_Verify
  then show ?thesis
    using assms(1) unfolding dispatch_operation_def handle_Verify_def
    by (auto simp: Let_def split: option.splits prod.splits intro: calls_step engine_step.step_Verify)
next
  case Op_PutFence
  then show ?thesis
    using assms(1) unfolding dispatch_operation_def handle_PutFence_def
    by (auto split: option.splits prod.splits dest!: DecodeFence_exact_ok intro: calls_step engine_step.step_PutFence)
next
  case Op_ClearFence
  then show ?thesis
    using assms(1) unfolding dispatch_operation_def handle_ClearFence_def
    by (auto split: option.splits prod.splits intro: calls_step engine_step.step_ClearFence)
next
  case Op_Compact
  then show ?thesis
    using assms(1) unfolding dispatch_operation_def handle_Compact_def
    by (auto split: prod.splits intro: calls_step engine_step.step_Compact)
qed (use assms(1) in \<open>simp_all add: dispatch_operation_def\<close>)

lemma Handle_calls:
  assumes "Handle limits ck detail others boot request e = (response, e')" "engine_inv e" "interferes e others"
  shows "engine_step\<^sup>*\<^sup>* e e'"
  using assms dispatch_operation_calls by (auto simp: Handle_def split: if_splits)

section \<open>One step of a session\<close>

lemma answer_fields:
  assumes "answer ty payload s = (status, s')"
  shows "ss_phase s' = ss_phase s" "ss_session_id s' = ss_session_id s" "ss_client_boot s' = ss_client_boot s"
    "ss_reader s' = ss_reader s" "ss_expected_incoming s' = ss_expected_incoming s"
    "so_events (ss_socket s') = so_events (ss_socket s)" "so_open (ss_socket s') = so_open (ss_socket s)"
  using assms SendAll_sent(2,3) by (fastforce simp: answer_def SendFrame_def Let_def split: prod.splits)+

lemma answer_error_fields [simp]:
  "ss_phase (answer_error status detail s) = ss_phase s" "ss_session_id (answer_error status detail s) = ss_session_id s"
  "ss_client_boot (answer_error status detail s) = ss_client_boot s" "ss_reader (answer_error status detail s) = ss_reader s"
  "ss_expected_incoming (answer_error status detail s) = ss_expected_incoming s"
  "so_events (ss_socket (answer_error status detail s)) = so_events (ss_socket s)"
  "so_open (ss_socket (answer_error status detail s)) = so_open (ss_socket s)"
  by (simp_all add: answer_error_def answer_fields [OF prod.collapse [symmetric]])

lemma CloseSession_fields [simp]:
  "ss_phase (CloseSession s) = Ended" "ss_session_id (CloseSession s) = ss_session_id s"
  "ss_expected_incoming (CloseSession s) = ss_expected_incoming s" "\<not> ss_live (CloseSession s)"
  "\<not> so_open (ss_socket (CloseSession s))"
  by (simp_all add: CloseSession_def net_Close_def net_Shutdown_def)

lemma count_rejected_fields [simp]:
  "sv_engine (count_rejected v) = sv_engine v" "sv_options (count_rejected v) = sv_options v"
  "sv_sessions (count_rejected v) = sv_sessions v" "sv_stopping (count_rejected v) = sv_stopping v"
  "sv_accept (count_rejected v) = sv_accept v" "sv_accepted (count_rejected v) = sv_accepted v"
  "sv_next_session (count_rejected v) = sv_next_session v"
  by (simp_all add: count_rejected_def)

text \<open>What a pass of a session's thread leaves of the service, and what it makes of the identity of the session.\<close>

definition session_moves :: "SessionState \<Rightarrow> SessionState \<Rightarrow> Server \<Rightarrow> Server \<Rightarrow> bool" where
  "session_moves s s' v v' \<longleftrightarrow>
     sv_sessions v' = sv_sessions v \<and> sv_options v' = sv_options v \<and> sv_stopping v' = sv_stopping v \<and>
     sv_accept v' = sv_accept v \<and> sv_accepted v' = sv_accepted v \<and>
     (sv_next_session v' = sv_next_session v \<and> ss_session_id s' = ss_session_id s \<and> (ss_phase s' = ss_phase s \<or> ss_phase s' = Ended) \<or>
      sv_next_session v' = sv_next_session v + 1 \<and> ss_phase s = Handshaking \<and> ss_session_id s' = sv_next_session v \<and>
        ss_phase s' \<noteq> Handshaking)"

lemma serve_handshake_moves:
  "serve_handshake s v = (s', v') \<Longrightarrow> ss_phase s = Handshaking \<Longrightarrow> session_moves s s' v v' \<and> sv_engine v' = sv_engine v"
  unfolding serve_handshake_def greet_def session_moves_def Let_def
  by (auto split: prod.splits ReceiveOutcome.splits if_splits option.splits)

lemma serve_request_moves:
  "serve_request ck detail others request s v = (s', v') \<Longrightarrow> session_moves s s' v v'"
  unfolding serve_request_def session_moves_def Let_def
  by (auto split: prod.splits if_splits dest: answer_fields)

lemma serve_frame_moves:
  "serve_frame ck detail others header payload s v = (s', v') \<Longrightarrow> session_moves s s' v v'"
  unfolding serve_frame_def Let_def
  by (auto simp: session_moves_def split: prod.splits if_splits option.splits
      dest: answer_fields dest!: serve_request_moves)

lemma ServeSession_moves:
  assumes "ServeSession ck detail others s v = (s', v')"
  shows "session_moves s s' v v'"
proof (cases "ss_phase s")
  case Serving
  then show ?thesis
    using assms unfolding ServeSession_def serve_iteration_def Let_def
    by (auto simp: session_moves_def split: prod.splits ReceiveOutcome.splits dest!: serve_frame_moves)
qed (use assms serve_handshake_moves in \<open>auto simp: ServeSession_def session_moves_def\<close>)

section \<open>Only bound requests act\<close>

text \<open>
  The pass of an established session that hands a request to the engine: the next frame is a request under
  the identity and the next sequence number of the session, from the client that opened it, for the live epoch.
\<close>

definition handles ::
    "Clocks \<Rightarrow> string \<Rightarrow> (Engine \<Rightarrow> Engine) \<Rightarrow> SessionState \<Rightarrow> SessionState \<Rightarrow> Server \<Rightarrow> Engine \<Rightarrow> Request \<Rightarrow> bool" where
  "handles ck detail others s s' v e' request \<longleftrightarrow> ss_phase s = Serving \<and>
     (\<exists>header payload reader socket response.
        ReceiveFrame (ss_reader s) (ss_socket s) = (Received_Frame header payload, reader, socket) \<and>
        fh_type header = Msg_Request \<and> fh_session_id header = ss_session_id s \<and>
        fh_sequence header = ss_expected_incoming s \<and> ss_expected_incoming s' = ss_expected_incoming s + 1 \<and>
        DecodeRequest payload = Some request \<and> rq_client_boot request = ss_client_boot s \<and>
        rq_epoch request = en_live_epoch (sv_engine v) \<and>
        dispatch_operation (vo_limits (sv_options v)) ck detail others (rq_operation request) (rq_body request)
          (sv_engine v) = (response, e'))"

lemma Handle_acts:
  assumes "Handle limits ck detail others boot request e = (response, e')" "e' \<noteq> e"
  shows "rq_client_boot request = boot" "rq_epoch request = en_live_epoch e"
    "dispatch_operation limits ck detail others (rq_operation request) (rq_body request) e = (response, e')"
  using assms by (auto simp: Handle_def split: if_splits)

lemma serve_request_acts:
  assumes "serve_request ck detail others request s v = (s', v')" "sv_engine v' \<noteq> sv_engine v"
  shows "rq_client_boot request = ss_client_boot s \<and> rq_epoch request = en_live_epoch (sv_engine v) \<and>
    ss_expected_incoming s' = ss_expected_incoming s \<and>
    (\<exists>response. dispatch_operation (vo_limits (sv_options v)) ck detail others (rq_operation request) (rq_body request)
       (sv_engine v) = (response, sv_engine v'))"
  using assms unfolding serve_request_def Let_def
  by (auto split: prod.splits if_splits dest: answer_fields Handle_acts)

lemma ServeSession_acts:
  assumes "ServeSession ck detail others s v = (s', v')" "sv_engine v' \<noteq> sv_engine v"
  shows "\<exists>request. handles ck detail others s s' v (sv_engine v') request"
proof -
  have phase: "ss_phase s = Serving"
    using assms serve_handshake_moves by (cases "ss_phase s") (auto simp: ServeSession_def)
  obtain outcome reader socket where r: "ReceiveFrame (ss_reader s) (ss_socket s) = (outcome, reader, socket)"
    by (metis prod_cases3)
  let ?s = "s\<lparr>ss_reader := reader, ss_socket := socket\<rparr>"
  obtain header payload where h: "outcome = Received_Frame header payload"
    and f: "serve_frame ck detail others header payload ?s v = (s', v')"
    using assms phase r by (cases outcome) (auto simp: ServeSession_def serve_iteration_def Let_def)
  let ?t = "?s\<lparr>ss_expected_incoming := ss_expected_incoming s + 1\<rparr>"
  obtain request where q: "DecodeRequest payload = Some request" "fh_type header = Msg_Request"
    "fh_session_id header = ss_session_id s" "fh_sequence header = ss_expected_incoming s"
    "serve_request ck detail others request ?t v = (s', v')"
    using f assms(2) unfolding serve_frame_def Let_def
    by (auto split: prod.splits if_splits option.splits)
  show ?thesis
    using serve_request_acts [OF q(5) assms(2)] phase r h q(1-4) unfolding handles_def by auto
qed

lemma server_step_acts:
  assumes "server_step v v'" "sv_engine v' \<noteq> sv_engine v"
  shows "\<exists>i ck detail others s' request. i < length (sv_sessions v) \<and> interferes (sv_engine v) others \<and>
    sv_sessions v' = (sv_sessions v)[i := s'] \<and> handles ck detail others (sv_sessions v ! i) s' v (sv_engine v') request"
  using assms(1)
proof cases
  case (step_session i others ck detail s' w)
  have act: "sv_engine w \<noteq> sv_engine v" and same: "sv_engine v' = sv_engine w" using assms(2) step_session(1) by simp_all
  obtain request where "handles ck detail others (sv_sessions v ! i) s' v (sv_engine v') request"
    using ServeSession_acts [OF step_session(4) act] same by auto
  moreover have "sv_sessions v' = (sv_sessions v)[i := s']"
    using ServeSession_moves [OF step_session(4)] step_session(1) by (simp add: session_moves_def)
  ultimately show ?thesis using step_session(2,3) by blast
qed (use assms(2) in \<open>auto simp: accept_wait_def accept_admit_def stop_signal_def stop_finish_def
      split: if_splits AcceptEvent.splits\<close>)

section \<open>Runs of the service\<close>

lemma calls_life: "engine_step\<^sup>*\<^sup>* e e' \<Longrightarrow> life e e'"
  by (induction rule: rtranclp_induct) (auto intro: life.intros)

lemma server_step_calls:
  assumes "server_step v v'" "engine_inv (sv_engine v)"
  shows "engine_step\<^sup>*\<^sup>* (sv_engine v) (sv_engine v')"
proof (cases "sv_engine v' = sv_engine v")
  case False
  obtain ck detail others limits op body response where "interferes (sv_engine v) others"
    "dispatch_operation limits ck detail others op body (sv_engine v) = (response, sv_engine v')"
    using server_step_acts [OF assms(1) False] by (auto simp: handles_def)
  then show ?thesis using dispatch_operation_calls [OF _ assms(2)] by blast
qed simp

lemma calls_moves: "engine_step\<^sup>*\<^sup>* e e' \<Longrightarrow> moves e e'"
  by (induction rule: rtranclp_induct) (auto intro: moves_trans engine_step_moves)

lemma server_run_calls:
  "server_step\<^sup>*\<^sup>* v v' \<Longrightarrow> engine_inv (sv_engine v) \<Longrightarrow>
     engine_step\<^sup>*\<^sup>* (sv_engine v) (sv_engine v') \<and> engine_inv (sv_engine v')"
proof (induction rule: rtranclp_induct)
  case (step w w')
  then have "engine_step\<^sup>*\<^sup>* (sv_engine w) (sv_engine w')" "engine_step\<^sup>*\<^sup>* (sv_engine v) (sv_engine w)"
    using server_step_calls by blast+
  moreover have "engine_inv (sv_engine w')"
    using calls_moves [OF calculation(1)] step.IH step.prems by (simp add: moves_def)
  ultimately show ?case by auto
qed simp

text \<open>
  The bookkeeping of sessions: no more of them than allowed, identities given out one by one, so that no two
  established sessions share one.
\<close>

definition established :: "Server \<Rightarrow> u64 list" where
  "established v = map ss_session_id (filter (\<lambda>s. ss_session_id s \<noteq> 0) (sv_sessions v))"

definition session_ok :: "SessionState \<Rightarrow> bool" where
  "session_ok s \<longleftrightarrow> (ss_phase s = Handshaking \<longrightarrow> ss_session_id s = 0) \<and> (ss_phase s = Serving \<longrightarrow> ss_session_id s \<noteq> 0)"

definition sessions_inv :: "Server \<Rightarrow> bool" where
  "sessions_inv v \<longleftrightarrow> vo_max_sessions (sv_options v) < 2 ^ 64 - 1 \<and>
     length (sv_sessions v) \<le> vo_max_sessions (sv_options v) \<and> list_all session_ok (sv_sessions v) \<and>
     distinct (established v) \<and> (\<forall>x \<in> set (established v). x < sv_next_session v) \<and>
     (unat (sv_next_session v) = Suc (length (established v)) \<and> sv_accepted v = of_nat (length (sv_sessions v)) \<or>
      sv_sessions v = [] \<and> sv_accept v = Accept_Finished)"

lemma established_update:
  assumes "i < length (sv_sessions v)" "ss_session_id (sv_sessions v ! i) = ss_session_id s'"
  shows "established (v\<lparr>sv_sessions := (sv_sessions v)[i := s']\<rparr>) = established v"
proof -
  have "established w = filter (\<lambda>x. x \<noteq> 0) (map ss_session_id (sv_sessions w))" for w
    by (simp add: established_def filter_map comp_def)
  moreover have "map ss_session_id ((sv_sessions v)[i := s']) = map ss_session_id (sv_sessions v)"
    using assms by (simp add: map_update list_update_same_conv)
  ultimately show ?thesis by simp
qed

lemma established_new:
  assumes "i < length (sv_sessions v)" "ss_session_id (sv_sessions v ! i) = 0" "ss_session_id s' \<noteq> 0"
  shows "mset (established (v\<lparr>sv_sessions := (sv_sessions v)[i := s']\<rparr>)) = add_mset (ss_session_id s') (mset (established v))"
proof -
  have split: "sv_sessions v = take i (sv_sessions v) @ sv_sessions v ! i # drop (Suc i) (sv_sessions v)"
    using assms(1) by (rule id_take_nth_drop)
  define front where "front = take i (sv_sessions v)"
  define rest where "rest = drop (Suc i) (sv_sessions v)"
  have old: "sv_sessions v = front @ sv_sessions v ! i # rest" using split by (simp add: front_def rest_def)
  have new: "(sv_sessions v)[i := s'] = front @ s' # rest"
    using upd_conv_take_nth_drop [OF assms(1)] by (simp add: front_def rest_def)
  have "established v = map ss_session_id (filter (\<lambda>s. ss_session_id s \<noteq> 0) front) @
      map ss_session_id (filter (\<lambda>s. ss_session_id s \<noteq> 0) rest)"
    unfolding established_def by (subst old) (simp add: assms(2))
  then show ?thesis using assms(3) by (simp add: established_def new)
qed

lemma session_step_inv:
  assumes inv: "sessions_inv v" and i: "i < length (sv_sessions v)"
    and moves: "session_moves (sv_sessions v ! i) s' v w"
  shows "sessions_inv (w\<lparr>sv_sessions := (sv_sessions w)[i := s']\<rparr>)"
proof -
  let ?s = "sv_sessions v ! i" and ?w = "w\<lparr>sv_sessions := (sv_sessions w)[i := s']\<rparr>"
  let ?v = "v\<lparr>sv_sessions := (sv_sessions v)[i := s']\<rparr>"
  have w: "sv_sessions w = sv_sessions v" "sv_options w = sv_options v" "sv_accept w = sv_accept v" "sv_accepted w = sv_accepted v"
    using moves by (simp_all add: session_moves_def)
  have est: "established ?w = established ?v" by (simp add: established_def w)
  have ok: "session_ok ?s" using inv i by (simp add: sessions_inv_def list_all_length)
  have n: "unat (sv_next_session v) = Suc (length (established v))" "sv_accepted v = of_nat (length (sv_sessions v))"
    using inv i by (auto simp: sessions_inv_def)
  have lim: "vo_max_sessions (sv_options v) < 2 ^ 64 - 1" "length (sv_sessions v) \<le> vo_max_sessions (sv_options v)"
    and dist: "distinct (established v)" "\<forall>x \<in> set (established v). x < sv_next_session v"
    and oks: "list_all session_ok (sv_sessions v)"
    using inv by (auto simp: sessions_inv_def)
  have all: "session_ok s' \<Longrightarrow> list_all session_ok ((sv_sessions v)[i := s'])"
    using oks i by (auto simp: list_all_length nth_list_update)
  consider (same) "sv_next_session w = sv_next_session v" "ss_session_id s' = ss_session_id ?s" "ss_phase s' = ss_phase ?s \<or> ss_phase s' = Ended"
    | (new) "sv_next_session w = sv_next_session v + 1" "ss_phase ?s = Handshaking" "ss_session_id s' = sv_next_session v" "ss_phase s' \<noteq> Handshaking"
    using moves by (auto simp: session_moves_def)
  then show ?thesis
  proof cases
    case same
    then have "session_ok s'" using ok by (auto simp: session_ok_def)
    moreover have "established ?w = established v" unfolding est using same i by (intro established_update) simp_all
    ultimately show ?thesis using lim dist n all w same(1) by (simp add: sessions_inv_def)
  next
    case new
    have zero: "ss_session_id ?s = 0" using ok new(2) by (simp add: session_ok_def)
    have id: "ss_session_id s' \<noteq> 0" using new(3) n(1) by (metis nat.distinct(1) unsigned_0)
    have m: "mset (established ?w) = mset (sv_next_session v # established v)"
      unfolding est using established_new [OF i zero id] new(3) by simp
    have "length (established v) < length (sv_sessions v)"
      unfolding established_def length_map using i zero by (intro length_filter_less [of ?s]) simp_all
    then have succ: "unat (sv_next_session v + 1) = Suc (unat (sv_next_session v))"
      using n(1) lim by (simp add: unat_word_ariths)
    have "set (established ?w) = insert (sv_next_session v) (set (established v))"
      using mset_eq_setD [OF m] by simp
    then have below: "\<forall>x \<in> set (established ?w). x < sv_next_session v + 1"
      using dist(2) succ by (auto simp: word_less_nat_alt less_Suc_eq)
    have d: "distinct (established ?w)"
      using mset_eq_imp_distinct_iff [OF m] dist by auto
    have "session_ok s'" using id new(4) by (simp add: session_ok_def)
    then show ?thesis
      using lim d below n(2) all w new(1) succ n(1) mset_eq_length [OF m] by (simp add: sessions_inv_def)
  qed
qed

lemma server_step_sessions_inv:
  assumes "server_step v v'" "sessions_inv v"
  shows "sessions_inv v'"
  using assms(1)
proof cases
  case (step_session i others ck detail s' w)
  then show ?thesis using session_step_inv [OF assms(2) step_session(2) ServeSession_moves [OF step_session(4)]] by simp
next
  case (step_accept_wait event)
  then show ?thesis
    using assms(2) by (auto simp: sessions_inv_def accept_wait_def established_def split: AcceptEvent.splits)
next
  case (step_accept_admit socket channel)
  then show ?thesis
    using assms(2)
    by (auto simp: sessions_inv_def accept_admit_def established_def SessionState_new_def session_ok_def)
next
  case step_stop_signal
  have "map ss_session_id (filter (\<lambda>s. ss_session_id s \<noteq> 0) (map release_session ss)) =
      map ss_session_id (filter (\<lambda>s. ss_session_id s \<noteq> 0) ss)" for ss
    by (induction ss) (simp_all add: release_session_def)
  then have "established (stop_signal v) = established v" by (simp add: stop_signal_def established_def del: filter_map)
  moreover have "list_all session_ok ss \<Longrightarrow> list_all session_ok (map release_session ss)" for ss
    by (simp add: list_all_iff release_session_def session_ok_def)
  ultimately show ?thesis
    using assms(2) step_stop_signal by (auto simp: sessions_inv_def) (simp_all add: stop_signal_def split: if_splits)
next
  case step_stop_finish
  then show ?thesis using assms(2) by (simp add: sessions_inv_def stop_finish_def established_def threads_finished_def)
next
  case (step_network i s s' events)
  then have "established v' = established v" using established_update [of i v s'] by simp
  moreover have "list_all session_ok (sv_sessions v')"
    using assms(2) step_network by (auto simp: sessions_inv_def list_all_length nth_list_update session_ok_def)
  ultimately show ?thesis using assms(2) step_network by (simp add: sessions_inv_def)
qed

lemma server_run_sessions_inv: "server_step\<^sup>*\<^sup>* v v' \<Longrightarrow> sessions_inv v \<Longrightarrow> sessions_inv v'"
  by (induction rule: rtranclp_induct) (auto intro: server_step_sessions_inv)

lemma Start_inv:
  "Start options engine port k = (Inr v, k') \<Longrightarrow> vo_max_sessions options < 2 ^ 64 - 1 \<Longrightarrow> sessions_inv v \<and> sv_engine v = engine \<and> sv_options v = options"
  by (auto simp: Start_def sessions_inv_def established_def split: prod.splits sum.splits)

lemma distinct_filter_nth:
  "distinct (filter P xs) \<Longrightarrow> i < length xs \<Longrightarrow> j < length xs \<Longrightarrow> P (xs ! i) \<Longrightarrow> xs ! i = xs ! j \<Longrightarrow> i = j"
proof (induction xs arbitrary: i j)
  case (Cons x xs)
  then show ?case by (cases i; cases j) (auto simp: nth_mem split: if_splits)
qed simp

lemma serving_distinct:
  assumes "sessions_inv v" "i < length (sv_sessions v)" "j < length (sv_sessions v)" "i \<noteq> j"
    "ss_phase (sv_sessions v ! i) = Serving"
  shows "ss_session_id (sv_sessions v ! i) \<noteq> ss_session_id (sv_sessions v ! j)"
proof
  assume eq: "ss_session_id (sv_sessions v ! i) = ss_session_id (sv_sessions v ! j)"
  have "ss_session_id (sv_sessions v ! i) \<noteq> 0"
    using assms(1,2,5) by (auto simp: sessions_inv_def list_all_length session_ok_def)
  moreover have "distinct (filter (\<lambda>x. x \<noteq> 0) (map ss_session_id (sv_sessions v)))"
    using assms(1) by (simp add: sessions_inv_def established_def filter_map comp_def)
  ultimately show False
    using distinct_filter_nth [of "\<lambda>x. x \<noteq> 0" "map ss_session_id (sv_sessions v)" i j] assms(2-4) eq by simp
qed

lemma server_run_options: "server_step\<^sup>*\<^sup>* v v' \<Longrightarrow> sv_options v' = sv_options v"
proof (induction rule: rtranclp_induct)
  case (step w w')
  have "sv_options w' = sv_options w"
    using step.hyps(2)
    by cases (auto simp: accept_wait_def accept_admit_def stop_signal_def stop_finish_def session_moves_def
        dest!: ServeSession_moves split: AcceptEvent.splits)
  then show ?case using step.IH by simp
qed simp

text \<open>What holds in every reachable state of a service that was started on an engine.\<close>

lemma service_run:
  assumes "Start options engine port k = (Inr v0, k')" "server_step\<^sup>*\<^sup>* v0 v" "engine_inv engine"
    and "vo_max_sessions options < 2 ^ 64 - 1"
  shows "engine_step\<^sup>*\<^sup>* engine (sv_engine v)" "engine_inv (sv_engine v)" "distinct (established v)"
    "\<forall>s \<in> set (sv_sessions v). ss_phase s = Serving \<longrightarrow> ss_session_id s \<in> set (established v)"
    "length (sv_sessions v) \<le> vo_max_sessions options"
proof -
  have start: "sessions_inv v0" "sv_engine v0 = engine" "sv_options v0 = options"
    using Start_inv [OF assms(1,4)] by auto
  show "engine_step\<^sup>*\<^sup>* engine (sv_engine v)" "engine_inv (sv_engine v)"
    using server_run_calls [OF assms(2)] assms(3) start(2) by auto
  have inv: "sessions_inv v" by (rule server_run_sessions_inv [OF assms(2) start(1)])
  then show "distinct (established v)" by (simp add: sessions_inv_def)
  show "\<forall>s \<in> set (sv_sessions v). ss_phase s = Serving \<longrightarrow> ss_session_id s \<in> set (established v)"
    using inv by (auto simp: sessions_inv_def established_def list_all_iff session_ok_def)
  show "length (sv_sessions v) \<le> vo_max_sessions options"
    using inv server_run_options [OF assms(2)] start(3) by (simp add: sessions_inv_def)
qed

end
