(* ===== verification/Server_Stop.thy ===== *)
theory Server_Stop
  imports Server_Laws
begin

text \<open>
  Shutting the service down: a session that is released ends after a bounded number of passes, whatever the
  other threads do; a session that is admitted while the service stops may be missed.
\<close>

section \<open>Shutdown\<close>

lemma Next_consumes: "Next r = (Some f, r') \<Longrightarrow> buffered r' + kWireHeaderBytes \<le> buffered r"
  by (auto simp: Next_def Let_def buffered_def reader_Compact_def split: if_splits sum.splits)

lemma Next_keeps: "Next r = (None, r') \<Longrightarrow> buffered r' = buffered r"
  by (auto simp: Next_def Let_def buffered_def reader_fail_def split: if_splits sum.splits)

text \<open>The wakeup channel of the session is readable, or its socket closed: its next wait fails.\<close>

definition released :: "Socket \<Rightarrow> bool" where
  "released socket \<longleftrightarrow> (\<exists>events. so_events socket = Select_Woken # events) \<or> \<not> so_open socket"

lemma released_WaitReadable:
  assumes "released socket"
  obtains status socket' where "WaitReadable socket = Some ((status, False), socket')" "\<not> status_ok status"
  using assms by (cases "so_open socket") (auto simp: released_def WaitReadable_def)

lemma released_ReceiveFrame:
  assumes "released socket" "ReceiveFrame reader socket = (outcome, reader', socket')"
  shows "outcome \<noteq> Waiting"
    "outcome = Received_Frame header payload \<Longrightarrow> socket' = socket \<and> buffered reader' + kWireHeaderBytes \<le> buffered reader"
proof -
  obtain status socket1 where w: "WaitReadable socket = Some ((status, False), socket1)" "\<not> status_ok status"
    using released_WaitReadable [OF assms(1)] by blast
  have r: "ReceiveFrame reader socket =
      (if fr_failed reader then (ProtocolError, reader, socket)
       else case Next reader of
         (Some (header, payload), reader) \<Rightarrow> (Received_Frame header payload, reader, socket)
       | (None, reader) \<Rightarrow> if fr_failed reader then (ProtocolError, reader, socket) else (Released, reader, socket1))"
    by (subst ReceiveFrame.simps) (simp add: w split: prod.split option.split)
  show "outcome \<noteq> Waiting"
    using assms(2) unfolding r by (auto split: if_splits prod.splits option.splits)
  show "outcome = Received_Frame header payload \<Longrightarrow> socket' = socket \<and> buffered reader' + kWireHeaderBytes \<le> buffered reader"
    using assms(2) unfolding r by (auto split: if_splits prod.splits option.splits dest: Next_consumes)
qed

lemma released_same: "so_events t = so_events s \<Longrightarrow> so_open t = so_open s \<Longrightarrow> released t = released s"
  by (simp add: released_def)

lemma answer_released:
  "answer ty payload s = (status, s') \<Longrightarrow> ss_reader s' = ss_reader s \<and> released (ss_socket s') = released (ss_socket s)"
  using answer_fields(4,6,7) released_same by metis

text \<open>A pass over a frame ends the session, or leaves its reader alone and its socket released.\<close>

definition ends_or_keeps :: "SessionState \<Rightarrow> SessionState \<Rightarrow> bool" where
  "ends_or_keeps s s' \<longleftrightarrow> ss_phase s' = Ended \<or> ss_reader s' = ss_reader s \<and> released (ss_socket s') = released (ss_socket s)"

lemma serve_request_keeps:
  "serve_request ck detail others request s v = (s', v') \<Longrightarrow> ends_or_keeps s s'"
  unfolding serve_request_def Let_def ends_or_keeps_def
  by (auto split: prod.splits if_splits dest!: answer_released)

lemma serve_frame_keeps:
  assumes "serve_frame ck detail others header payload s v = (s', v')"
  shows "ends_or_keeps s s'"
proof -
  have err: "ends_or_keeps s (answer_error st d t)" if "ss_reader t = ss_reader s" "ss_socket t = ss_socket s" for st d t
    using that by (simp add: ends_or_keeps_def released_def)
  show ?thesis
    using assms unfolding serve_frame_def Let_def
    by (auto intro: err split: prod.splits if_splits option.splits dest!: answer_released serve_request_keeps)
      (auto simp: ends_or_keeps_def)
qed

lemma SendFrame_released: "SendFrame header payload socket = (status, socket') \<Longrightarrow> released socket' = released socket"
  unfolding SendFrame_def using SendAll_sent(2,3) released_same by metis

lemma greet_keeps: "greet hello s v = (s', v') \<Longrightarrow> ends_or_keeps s s'"
  unfolding greet_def ends_or_keeps_def Let_def
  by (auto split: prod.splits if_splits dest: SendFrame_released)

lemma released_session_progress:
  assumes "ServeSession ck detail others s v = (s', v')" "released (ss_socket s)"
  shows "ss_phase s' = Ended \<or> released (ss_socket s') \<and> buffered (ss_reader s') + kWireHeaderBytes \<le> buffered (ss_reader s)"
proof -
  obtain outcome reader socket where r: "ReceiveFrame (ss_reader s) (ss_socket s) = (outcome, reader, socket)"
    by (metis prod_cases3)
  let ?s = "s\<lparr>ss_reader := reader, ss_socket := socket\<rparr>"
  show ?thesis
  proof (cases "ss_phase s = Ended \<or> (\<exists>header payload. outcome = Received_Frame header payload)")
    case False
    then show ?thesis
      using assms(1) r released_ReceiveFrame(1) [OF assms(2) r]
      by (cases outcome; cases "ss_phase s")
        (auto simp: ServeSession_def serve_handshake_def serve_iteration_def Let_def split: prod.splits)
  next
    case True
    show ?thesis
    proof (cases "ss_phase s")
      case Ended
      then show ?thesis using assms(1) by (simp add: ServeSession_def)
    next
      case Handshaking
      then obtain header payload where h: "outcome = Received_Frame header payload" using True by auto
      have "ends_or_keeps ?s s'"
        using assms(1) r h Handshaking
        by (auto simp: ServeSession_def serve_handshake_def Let_def ends_or_keeps_def [of _ "CloseSession _"]
            split: if_splits option.splits dest: greet_keeps)
      then show ?thesis using released_ReceiveFrame(2) [OF assms(2) r h] assms(2) by (auto simp: ends_or_keeps_def)
    next
      case Serving
      then obtain header payload where h: "outcome = Received_Frame header payload" using True by auto
      have "ends_or_keeps ?s s'"
        using assms(1) r h Serving serve_frame_keeps by (auto simp: ServeSession_def serve_iteration_def Let_def)
      then show ?thesis using released_ReceiveFrame(2) [OF assms(2) r h] assms(2) by (auto simp: ends_or_keeps_def)
    qed
  qed
qed

text \<open>
  The thread of a released session ends after at most one pass per buffered frame and one more, whatever the
  other threads make of the service between its passes.
\<close>

lemma released_session_ends:
  assumes "\<And>n. session (Suc n) = fst (ServeSession (ck n) (detail n) (others n) (session n) (server n))"
    and "released (ss_socket (session 0))"
  shows "\<exists>n \<le> Suc (buffered (ss_reader (session 0)) div kWireHeaderBytes). ss_phase (session n) = Ended"
  using assms
proof (induction "buffered (ss_reader (session 0))" arbitrary: session ck detail others server rule: less_induct)
  case less
  obtain v' where s1: "ServeSession (ck 0) (detail 0) (others 0) (session 0) (server 0) = (session 1, v')"
    using less.prems(1) [of 0] by (metis One_nat_def prod.collapse)
  show ?case
  proof (cases "ss_phase (session 1) = Ended")
    case True
    then show ?thesis by (intro exI [of _ 1]) simp
  next
    case False
    have p: "released (ss_socket (session 1))" "buffered (ss_reader (session 1)) + kWireHeaderBytes \<le> buffered (ss_reader (session 0))"
      using released_session_progress [OF s1 less.prems(2)] False by simp_all
    have "0 < kWireHeaderBytes" by (simp add: kWireHeaderBytes_def)
    then have fewer: "buffered (ss_reader (session 1)) < buffered (ss_reader (session 0))" using p(2) by linarith
    have "\<exists>n \<le> Suc (buffered (ss_reader (session (Suc 0))) div kWireHeaderBytes). ss_phase (session (Suc n)) = Ended"
      using less.hyps [of "\<lambda>n. session (Suc n)" "\<lambda>n. ck (Suc n)" "\<lambda>n. detail (Suc n)" "\<lambda>n. others (Suc n)"
          "\<lambda>n. server (Suc n)"] less.prems(1) p(1) fewer by simp
    then obtain n where n: "n \<le> Suc (buffered (ss_reader (session 1)) div kWireHeaderBytes)" "ss_phase (session (Suc n)) = Ended"
      by auto
    have "(buffered (ss_reader (session 1)) + kWireHeaderBytes) div kWireHeaderBytes \<le> buffered (ss_reader (session 0)) div kWireHeaderBytes"
      using p(2) by (rule div_le_mono)
    then have "Suc (buffered (ss_reader (session 1)) div kWireHeaderBytes) \<le> buffered (ss_reader (session 0)) div kWireHeaderBytes"
      by (simp add: kWireHeaderBytes_def)
    then show ?thesis using n by (intro exI [of _ "Suc n"]) simp
  qed
qed

lemma idle_session_waits:
  assumes "so_open socket" "so_events socket = []"
  shows "ServeSession ck detail others (SessionState_new options socket) v = (SessionState_new options socket, v)"
proof -
  have "Next (FrameReader_new n) = (None, FrameReader_new n)" "\<not> fr_failed (FrameReader_new n)" for n
    by (simp_all add: Next_def FrameReader_new_def buffered_def kWireHeaderBytes_def)
  moreover have "WaitReadable socket = None" using assms by (simp add: WaitReadable_def)
  ultimately have "ReceiveFrame (FrameReader_new n) socket = (Waiting, FrameReader_new n, socket)" for n
    by (subst ReceiveFrame.simps) simp
  then show ?thesis
    by (simp add: ServeSession_def serve_handshake_def SessionState_new_def)
qed

text \<open>
  A connection that was accepted before the stop is admitted after it: nothing signals its session, so that
  its thread waits for the peer, and with it the join in \<open>Stop\<close>.
\<close>

lemma stop_misses_session:
  assumes "sv_accept v = Accept_Connected socket True" "\<not> sv_stopping v"
    "length (sv_sessions v) < vo_max_sessions (sv_options v)" "so_open socket" "so_events socket = []"
  defines "w \<equiv> accept_admit socket True (stop_signal v)"
  shows "server_step\<^sup>*\<^sup>* v w" "sv_stopping w" "\<not> threads_finished w"
    "ServeSession ck detail others (last (sv_sessions w)) w = (last (sv_sessions w), w)"
proof -
  have "sv_accept (stop_signal v) = Accept_Connected socket True" using assms(1) by (simp add: stop_signal_def)
  then show "server_step\<^sup>*\<^sup>* v w"
    unfolding w_def
    by (meson converse_rtranclp_into_rtranclp rtranclp.rtrancl_refl step_accept_admit step_stop_signal)
  have w: "sv_stopping w" "sv_sessions w = map release_session (sv_sessions v) @ [SessionState_new (sv_options v) socket]"
    using assms(2,3) by (simp_all add: w_def accept_admit_def stop_signal_def)
  then show "sv_stopping w" by blast
  show "\<not> threads_finished w" by (simp add: w(2) threads_finished_def SessionState_new_def)
  show "ServeSession ck detail others (last (sv_sessions w)) w = (last (sv_sessions w), w)"
    using idle_session_waits [OF assms(4,5)] by (simp add: w(2))
qed

text \<open>Every connection the service ever accepts counts against \<open>max_sessions\<close>: ended sessions are not removed.\<close>

lemma accepted_bounded:
  assumes "sessions_inv v" "sv_sessions v \<noteq> [] \<or> sv_accept v \<noteq> Accept_Finished"
  shows "unat (sv_accepted v) \<le> vo_max_sessions (sv_options v)"
  using assms by (auto simp: sessions_inv_def unat_of_nat)

end
