(* ===== verification/Protocol.thy ===== *)
theory Protocol
  imports Client Server_Stop
begin

text \<open>
  Client and service together: whatever way the network cuts the bytes of a request and of its answer, the
  engine is called with exactly the request of the client, and the call returns exactly the engine's answer.
\<close>

section \<open>Receiving a frame in pieces\<close>

definition framed :: "FrameHeader \<Rightarrow> bytes \<Rightarrow> FrameHeader" where
  "framed header payload = header\<lparr>fh_payload_len := of_nat (length payload)\<rparr>"

lemma EncodeFrame_framed: "EncodeFrame (framed header payload) payload = EncodeFrame header payload"
  by (simp add: framed_def EncodeFrame_layout frame_fields_def)

lemma framed_fields [simp]:
  "fh_type (framed h p) = fh_type h" "fh_session_id (framed h p) = fh_session_id h" "fh_sequence (framed h p) = fh_sequence h"
  by (simp_all add: framed_def)

lemma MakeHeader_fields [simp]:
  "fh_type (MakeHeader ty session_id sequence) = ty" "fh_session_id (MakeHeader ty session_id sequence) = session_id"
  "fh_sequence (MakeHeader ty session_id sequence) = sequence"
  by (simp_all add: MakeHeader_def)

lemma MakeHeader_frame_ok:
  "ty \<noteq> Msg_Invalid \<Longrightarrow> length payload \<le> unat mx \<Longrightarrow> frame_ok mx (framed (MakeHeader ty session_id sequence) payload, payload)"
  by (simp add: frame_ok_def framed_def MakeHeader_def)

text \<open>A proper part of a frame is incomplete, never malformed.\<close>

lemma stream_first_proper:
  assumes "frame_ok mx (h, p)" "front @ rest = EncodeFrame h p" "rest \<noteq> []"
  shows "stream_first mx front = Need_More"
proof -
  have whole: "stream_first mx (front @ rest) = Frame (h, p) []"
    using stream_first_Encode [OF assms(1), of "[]"] assms(2) by simp
  show ?thesis
  proof (cases "stream_first mx front")
    case (Malformed status)
    then show ?thesis using whole stream_first_append(1) [OF Malformed, of rest] by simp
  next
    case (Frame f r)
    then show ?thesis using whole stream_first_append(2) [OF Frame, of rest] assms(3) by simp
  qed
qed

text \<open>What the network delivers when it hands over these chunks.\<close>

definition chunk_events :: "bytes list \<Rightarrow> net_event list" where
  "chunk_events cs = map (\<lambda>c. Readable (Recv_Bytes c)) cs"

lemma ReceiveFrame_chunks:
  assumes "frame_ok mx (h, p)" "reader_after mx (Inr front) reader" "front @ concat cs = EncodeFrame h p"
    "[] \<notin> set cs" "so_open socket" "so_events socket = chunk_events cs @ events"
  shows "\<exists>reader'. ReceiveFrame reader socket = (Received_Frame h p, reader', socket\<lparr>so_events := events\<rparr>) \<and>
    reader_after mx (Inr []) reader'"
  using assms
proof (induction cs arbitrary: front reader socket)
  case Nil
  have r: "fr_offset reader = 0" "\<not> fr_failed reader" "fr_max_payload reader = mx" "fr_buffer reader = EncodeFrame h p"
    using Nil.prems by (simp_all add: reader_after_def)
  have "Next reader = (Some (h, p), reader\<lparr>fr_buffer := []\<rparr>)"
    using Next_first [OF r(1,2)] stream_first_Encode [OF Nil.prems(1), of "[]"] by (simp add: r)
  then have "ReceiveFrame reader socket = (Received_Frame h p, reader\<lparr>fr_buffer := []\<rparr>, socket)"
    using r(2) by (subst ReceiveFrame.simps) simp
  moreover have "socket\<lparr>so_events := events\<rparr> = socket" using Nil.prems(6) by (simp add: chunk_events_def)
  ultimately show ?case using r by (simp add: reader_after_def)
next
  case (Cons c cs)
  have c: "c \<noteq> []" using Cons.prems(4) by auto
  have r: "fr_offset reader = 0" "\<not> fr_failed reader" "fr_max_payload reader = mx" "fr_buffer reader = front"
    using Cons.prems(2) by (simp_all add: reader_after_def)
  have "stream_first mx front = Need_More"
    using stream_first_proper [OF Cons.prems(1), of front "concat (c # cs)"] Cons.prems(3) c by simp
  then have n: "Next reader = (None, reader)" using Next_first [OF r(1,2)] by (simp add: r)
  have ev: "so_events socket = Readable (Recv_Bytes c) # chunk_events cs @ events"
    using Cons.prems(6) by (simp add: chunk_events_def)
  have w: "WaitReadable socket = Some ((Status_Ok, True), socket)"
    and rc: "Receive socket = Some ((Status_Ok, c), socket\<lparr>so_events := chunk_events cs @ events\<rparr>)"
    using Cons.prems(5) ev by (simp_all add: WaitReadable_def Receive_def)
  have step: "ReceiveFrame reader socket = ReceiveFrame (Feed c reader) (socket\<lparr>so_events := chunk_events cs @ events\<rparr>)"
    by (subst ReceiveFrame.simps) (simp add: r(2) n w rc c)
  have "reader_after mx (Inr (front @ c)) (Feed c reader)"
    using Feed_after [OF Cons.prems(2)] by (simp add: reader_after_def)
  then show ?case
    unfolding step
    using Cons.IH [of "front @ c" "Feed c reader" "socket\<lparr>so_events := chunk_events cs @ events\<rparr>"] Cons.prems by simp
qed

section \<open>A call\<close>

text \<open>
  The client and its session agree: on the identity of the session, the next sequence number and the boot
  identity of the client, with nothing left over from earlier exchanges.
\<close>

definition paired :: "Client \<Rightarrow> Socket \<Rightarrow> SessionState \<Rightarrow> Server \<Rightarrow> bool" where
  "paired c socket s v \<longleftrightarrow>
     cl_socket c = Some socket \<and> so_open socket \<and> so_writes socket = [] \<and>
     ss_phase s = Serving \<and> so_open (ss_socket s) \<and> so_writes (ss_socket s) = [] \<and>
     cl_session_id c = ss_session_id s \<and> cl_sequence c + 1 = ss_expected_incoming s \<and>
     cl_client_boot c = ss_client_boot s \<and> wf_boot (cl_client_boot c) \<and>
     reader_after (of_nat (max_wire_payload_bytes (vo_limits (sv_options v)))) (Inr []) (ss_reader s)"

definition call_request :: "WireOperation \<Rightarrow> bytes \<Rightarrow> Client \<Rightarrow> Request" where
  "call_request operation payload c =
     \<lparr>rq_operation = operation, rq_client_boot = cl_client_boot c, rq_epoch = cl_server_epoch c, rq_body = payload\<rparr>"

text \<open>What the client sends for a request, and the service for its answer.\<close>

definition request_frame :: "Request \<Rightarrow> Client \<Rightarrow> bytes" where
  "request_frame q c = EncodeFrame (MakeHeader Msg_Request (cl_session_id c) (cl_sequence c + 1)) (EncodeRequest q)"

definition response_frame :: "Response \<Rightarrow> SessionState \<Rightarrow> bytes" where
  "response_frame p s = EncodeFrame (MakeHeader Msg_Response (ss_session_id s) (ss_outgoing_sequence s)) (EncodeResponse p)"

text \<open>An envelope fits when the writer and the receiver's bound on payloads allow it.\<close>

definition envelope_fits :: "put list \<Rightarrow> RuntimeLimits \<Rightarrow> bool" where
  "envelope_fits ps limits \<longleftrightarrow> length (octets ps) \<le> kMaxCanonicalBytes \<and>
     length (octets ps) \<le> unat (of_nat (max_wire_payload_bytes limits) :: u32)"

lemma envelope_length: "envelope_fits ps limits \<Longrightarrow> length (puts_buffer ps) \<le> unat (of_nat (max_wire_payload_bytes limits) :: u32)"
  by (simp add: envelope_fits_def puts_buffer_octets)

text \<open>The service: it takes the request from the chunks, calls the engine with it, and answers.\<close>

lemma session_answers:
  assumes pair: "paired c socket s v"
    and q: "q = call_request operation payload c" "operation \<noteq> Op_Invalid" "envelope_fits (request_puts q) (vo_limits (sv_options v))"
    and cs: "[] \<notin> set cs" "concat cs = request_frame q c" "so_events (ss_socket s) = chunk_events cs @ events"
    and handled: "Handle (vo_limits (sv_options v)) ck detail others (ss_client_boot s) q (sv_engine v) = (r, e')"
  shows "\<exists>s'. ServeSession ck detail others s v = (s', v\<lparr>sv_engine := e'\<rparr>) \<and>
    so_sent (ss_socket s') = so_sent (ss_socket s) @ response_frame r s \<and> so_events (ss_socket s') = events \<and>
    ss_outgoing_sequence s' = ss_outgoing_sequence s + 1 \<and>
    (\<forall>socket'. so_open socket' \<longrightarrow> so_writes socket' = [] \<longrightarrow>
       paired (c\<lparr>cl_socket := Some socket', cl_sequence := cl_sequence c + 1\<rparr>) socket' s' (v\<lparr>sv_engine := e'\<rparr>))"
proof -
  let ?mx = "of_nat (max_wire_payload_bytes (vo_limits (sv_options v))) :: u32"
  let ?h = "MakeHeader Msg_Request (cl_session_id c) (cl_sequence c + 1)" and ?p = "EncodeRequest q"
  have ok: "frame_ok ?mx (framed ?h ?p, ?p)"
    using MakeHeader_frame_ok envelope_length [OF q(3)] by (simp add: EncodeRequest_def)
  have rd: "reader_after ?mx (Inr []) (ss_reader s)" and op: "so_open (ss_socket s)" "so_writes (ss_socket s) = []"
    using pair by (simp_all add: paired_def)
  obtain reader' where rf: "ReceiveFrame (ss_reader s) (ss_socket s) =
      (Received_Frame (framed ?h ?p) ?p, reader', (ss_socket s)\<lparr>so_events := events\<rparr>)" "reader_after ?mx (Inr []) reader'"
    using ReceiveFrame_chunks [OF ok rd _ cs(1) op(1) cs(3)] cs(2) by (auto simp: request_frame_def EncodeFrame_framed)
  have "length payload \<le> length (octets (request_puts q))" by (simp add: q(1) call_request_def request_puts_def)
  then have "length payload \<le> kMaxCanonicalBytes" using q(3) by (simp add: envelope_fits_def)
  then have "request_ok q" using q(1,2) pair unfolding request_ok_def call_request_def paired_def by auto
  then have dec: "DecodeRequest ?p = Some q"
    using DecodeRequest_Encode q(3) by (simp add: envelope_fits_def)
  let ?t = "s\<lparr>ss_reader := reader', ss_socket := (ss_socket s)\<lparr>so_events := events\<rparr>,
      ss_expected_incoming := ss_expected_incoming s + 1, ss_requests := ss_requests s + 1\<rparr>"
  let ?s = "?t\<lparr>ss_socket := (ss_socket s)\<lparr>so_events := events, so_sent := so_sent (ss_socket s) @ response_frame r s\<rparr>,
      ss_outgoing_sequence := ss_outgoing_sequence s + 1\<rparr>"
  have ans: "answer Msg_Response (EncodeResponse r) ?t = (Status_Ok, ?s)"
    using op by (simp add: answer_def SendFrame_def SendAll_open response_frame_def)
  have phase: "ss_phase s = Serving" "cl_session_id c = ss_session_id s" "cl_sequence c + 1 = ss_expected_incoming s"
    using pair by (simp_all add: paired_def)
  have "ServeSession ck detail others s v = serve_request ck detail others q
      (s\<lparr>ss_reader := reader', ss_socket := (ss_socket s)\<lparr>so_events := events\<rparr>,
         ss_expected_incoming := ss_expected_incoming s + 1\<rparr>) v"
    using phase dec by (simp add: ServeSession_def serve_iteration_def rf(1) serve_frame_def)
  also have "\<dots> = (?s, v\<lparr>sv_engine := e'\<rparr>)"
    using ans handled by (simp add: serve_request_def)
  finally have "ServeSession ck detail others s v = (?s, v\<lparr>sv_engine := e'\<rparr>)" .
  then show ?thesis using pair rf(2) by (auto simp: paired_def)
qed

text \<open>The client: the answer it takes from the chunks is what the call returns.\<close>

definition call_result :: "Response \<Rightarrow> Status \<times> bytes option" where
  "call_result p = (if rs_code p = Code_Ok then (Status_Ok, Some (rs_body p)) else (Status (rs_code p) (rs_reason p), None))"

lemma call_returns:
  assumes c: "cl_socket c = Some socket" "so_open socket" "so_writes socket = []"
    and q: "q = call_request operation payload c" "envelope_fits (request_puts q) (cl_limits c)"
    and ds: "[] \<notin> set ds" "concat ds = EncodeFrame (MakeHeader Msg_Response session_id sequence) (EncodeResponse r)"
      "so_events socket = chunk_events ds @ events"
    and r: "response_ok r" "envelope_fits (response_puts r) (cl_limits c)"
  shows "\<exists>socket'. Call rc operation payload c =
      Some (fst (call_result r), snd (call_result r), c\<lparr>cl_socket := Some socket', cl_sequence := cl_sequence c + 1\<rparr>) \<and>
    so_open socket' \<and> so_writes socket' = [] \<and> so_events socket' = events \<and> so_sent socket' = so_sent socket @ request_frame q c"
proof -
  let ?mx = "of_nat (max_wire_payload_bytes (cl_limits c)) :: u32"
  let ?h = "MakeHeader Msg_Response session_id sequence" and ?p = "EncodeResponse r"
  let ?k = "socket\<lparr>so_sent := so_sent socket @ request_frame q c\<rparr>"
  have ok: "frame_ok ?mx (framed ?h ?p, ?p)"
    using MakeHeader_frame_ok envelope_length [OF r(2)] by (simp add: EncodeResponse_def)
  have op: "so_open ?k" "so_events ?k = chunk_events ds @ events" using c(2) ds(3) by simp_all
  obtain reader' where rf: "ReceiveFrame (FrameReader_new ?mx) ?k =
      (Received_Frame (framed ?h ?p) ?p, reader', ?k\<lparr>so_events := events\<rparr>)"
    using ReceiveFrame_chunks [OF ok reader_after_new _ ds(1) op] ds(2) by (auto simp: EncodeFrame_framed)
  let ?c = "c\<lparr>cl_socket := Some (?k\<lparr>so_events := events\<rparr>), cl_sequence := cl_sequence c + 1\<rparr>"
  have ex: "Exchange Msg_Request (EncodeRequest q) c = Some (Inr (framed ?h ?p, ?p), ?c)"
    using c rf by (simp add: Exchange_def client_Send_def SendAll_open request_frame_def ReceiveOne_def)
  have dec: "DecodeResponse ?p = Some r"
    using DecodeResponse_Encode [OF r(1)] r(2) by (simp add: envelope_fits_def)
  have enc: "EncodeRequest q \<noteq> []"
    using q(2) by (simp add: EncodeRequest_def puts_buffer_octets envelope_fits_def request_puts_def le_store_2)
  have "call_attempt True operation payload c = Some (Call_Returns (fst (call_result r)) (snd (call_result r)), ?c)"
    using c(1) ex enc dec q(1) by (simp add: call_attempt_def call_request_def judge_frame_def call_result_def)
  then show ?thesis using c by (intro exI [of _ "?k\<lparr>so_events := events\<rparr>"]) (simp add: Call_def)
qed

text \<open>
  A whole call: the bytes the client sends reach the session in any chunks, the bytes the session sends reach
  the client in any chunks; the engine is called once, with the request, and the call returns its answer.
\<close>

lemma call_round_trip:
  assumes pair: "paired c socket s v"
    and q: "q = call_request operation payload c" "operation \<noteq> Op_Invalid"
      "envelope_fits (request_puts q) (vo_limits (sv_options v))" "envelope_fits (request_puts q) (cl_limits c)"
    and handled: "Handle (vo_limits (sv_options v)) ck detail others (ss_client_boot s) q (sv_engine v) = (r, e')"
    and r: "response_ok r" "envelope_fits (response_puts r) (cl_limits c)"
    and cs: "[] \<notin> set cs" "concat cs = request_frame q c" "so_events (ss_socket s) = chunk_events cs @ events"
    and ds: "[] \<notin> set ds" "concat ds = response_frame r s" "so_events socket = chunk_events ds @ events'"
  shows "\<exists>s' socket' c'. ServeSession ck detail others s v = (s', v\<lparr>sv_engine := e'\<rparr>) \<and>
    so_sent (ss_socket s') = so_sent (ss_socket s) @ concat ds \<and>
    Call rc operation payload c = Some (fst (call_result r), snd (call_result r), c') \<and>
    so_sent socket' = so_sent socket @ concat cs \<and> cl_rehandshakes c' = cl_rehandshakes c \<and>
    paired c' socket' s' (v\<lparr>sv_engine := e'\<rparr>)"
proof -
  have c: "cl_socket c = Some socket" "so_open socket" "so_writes socket = []" using pair by (simp_all add: paired_def)
  obtain socket' where call: "Call rc operation payload c =
      Some (fst (call_result r), snd (call_result r), c\<lparr>cl_socket := Some socket', cl_sequence := cl_sequence c + 1\<rparr>)"
    "so_open socket'" "so_writes socket' = []" "so_sent socket' = so_sent socket @ request_frame q c"
    using call_returns [OF c q(1,4) ds(1) _ ds(3) r] ds(2) unfolding response_frame_def by metis
  obtain s' where serve: "ServeSession ck detail others s v = (s', v\<lparr>sv_engine := e'\<rparr>)"
    "so_sent (ss_socket s') = so_sent (ss_socket s) @ response_frame r s"
    "paired (c\<lparr>cl_socket := Some socket', cl_sequence := cl_sequence c + 1\<rparr>) socket' s' (v\<lparr>sv_engine := e'\<rparr>)"
    using session_answers [OF pair q(1-3) cs handled] call(2,3) by blast
  show ?thesis
    by (rule exI [of _ s'], rule exI [of _ socket'], rule exI, intro conjI, rule serve(1), simp add: serve(2) ds(2),
        rule call(1), simp add: call(4) cs(2), simp, rule serve(3))
qed

text \<open>
  A request for another epoch is answered by a response frame, not by an error frame: the call reports the
  mismatch and does not handshake again.
\<close>

lemma stale_epoch_response:
  assumes "rq_client_boot q = boot" "rq_epoch q \<noteq> en_live_epoch e"
  shows "Handle limits ck detail others boot q e =
    (MakeError (Status Code_StaleAuthority Reason_SessionEpochMismatch) ''request carries an epoch that is no longer current'', e)"
  using assms by (simp add: Handle_def)

lemma stale_call_not_repeated:
  assumes "paired c socket s v" "cl_server_epoch c \<noteq> en_live_epoch (sv_engine v)"
    and "q = call_request operation payload c" "operation \<noteq> Op_Invalid"
      "envelope_fits (request_puts q) (vo_limits (sv_options v))" "envelope_fits (request_puts q) (cl_limits c)"
      "1000 \<le> unat (of_nat (max_wire_payload_bytes (cl_limits c)) :: u32)"
    and "r = MakeError (Status Code_StaleAuthority Reason_SessionEpochMismatch)
      ''request carries an epoch that is no longer current''"
    and "[] \<notin> set cs" "concat cs = request_frame q c" "so_events (ss_socket s) = chunk_events cs @ events"
    and "[] \<notin> set ds" "concat ds = response_frame r s" "so_events socket = chunk_events ds @ events'"
  shows "\<exists>s' c'. ServeSession ck detail others s v = (s', v) \<and>
    Call rc operation payload c = Some (Status Code_StaleAuthority Reason_SessionEpochMismatch, None, c') \<and>
    cl_rehandshakes c' = cl_rehandshakes c"
proof -
  have boot: "rq_client_boot q = ss_client_boot s" "rq_epoch q \<noteq> en_live_epoch (sv_engine v)"
    using assms(1-3) by (simp_all add: paired_def call_request_def)
  have small: "length (octets (response_puts r)) < 100" unfolding assms(8) by (simp add: response_puts_def MakeError_def)
  have ok: "response_ok r" "envelope_fits (response_puts r) (cl_limits c)"
    using small assms(7) by (simp_all add: assms(8) response_ok_def MakeError_def kMaxCanonicalBytes_def envelope_fits_def
        word_le_nat_alt)
  have same: "v\<lparr>sv_engine := sv_engine v\<rparr> = v" by simp
  show ?thesis
    using call_round_trip [OF assms(1,3-6) stale_epoch_response [OF boot, folded assms(8)] ok assms(9-14), of ck detail others rc]
    unfolding same by (auto simp: assms(8) call_result_def MakeError_def)
qed

section \<open>The handshake\<close>

definition hello_frame :: "bytes \<Rightarrow> Client \<Rightarrow> bytes" where
  "hello_frame nonce c = EncodeFrame (MakeHeader Msg_Hello 0 1) (EncodeHello (cl_client_boot c) nonce)"

definition welcome_frame :: "bytes \<Rightarrow> Server \<Rightarrow> bytes" where
  "welcome_frame nonce v = EncodeFrame (MakeHeader Msg_Welcome 0 1) (EncodeWelcome (welcome_for (sv_next_session v) nonce v))"

lemma welcome_for_next [simp]: "welcome_for i nonce (v\<lparr>sv_next_session := n\<rparr>) = welcome_for i nonce v"
  by (simp add: welcome_for_def)

lemma session_welcomes:
  assumes boot: "wf_boot (cl_client_boot c)"
    and s: "so_open socket" "so_writes socket = []" "so_events socket = chunk_events cs @ events"
    and cs: "[] \<notin> set cs" "concat cs = hello_frame nonce c"
    and fits: "envelope_fits (hello_puts (cl_client_boot c, nonce)) (vo_limits (sv_options v))"
      "envelope_fits (welcome_puts (welcome_for (sv_next_session v) nonce v)) limits"
  shows "\<exists>s'. ServeSession ck detail others (SessionState_new (sv_options v) socket) v =
      (s', v\<lparr>sv_next_session := sv_next_session v + 1\<rparr>) \<and> ss_phase s' = Serving \<and>
    ss_session_id s' = sv_next_session v \<and> ss_client_boot s' = cl_client_boot c \<and> ss_expected_incoming s' = 2 \<and>
    reader_after (of_nat (max_wire_payload_bytes (vo_limits (sv_options v)))) (Inr []) (ss_reader s') \<and>
    so_open (ss_socket s') \<and> so_writes (ss_socket s') = [] \<and> so_sent (ss_socket s') = so_sent socket @ welcome_frame nonce v"
proof -
  let ?mx = "of_nat (max_wire_payload_bytes (vo_limits (sv_options v))) :: u32"
  let ?h = "MakeHeader Msg_Hello 0 1" and ?p = "EncodeHello (cl_client_boot c) nonce"
  have ok: "frame_ok ?mx (framed ?h ?p, ?p)"
    using MakeHeader_frame_ok envelope_length [OF fits(1)] by (simp add: EncodeHello_def)
  obtain reader' where rf: "ReceiveFrame (FrameReader_new ?mx) socket =
      (Received_Frame (framed ?h ?p) ?p, reader', socket\<lparr>so_events := events\<rparr>)" "reader_after ?mx (Inr []) reader'"
    using ReceiveFrame_chunks [OF ok reader_after_new _ cs(1) s(1,3)] cs(2) by (auto simp: hello_frame_def EncodeFrame_framed)
  have "length nonce \<le> length (octets (hello_puts (cl_client_boot c, nonce)))" by (simp add: hello_puts_def)
  then have "hello_ok (cl_client_boot c, nonce)" using boot fits(1) by (simp add: hello_ok_def envelope_fits_def)
  then have dec: "DecodeHello ?p = Some (cl_client_boot c, nonce)"
    using DecodeHello_Encode fits(1) by (simp add: envelope_fits_def)
  have enc: "EncodeWelcome (welcome_for (sv_next_session v) nonce v) \<noteq> []"
    using fits(2) by (simp add: EncodeWelcome_def puts_buffer_octets envelope_fits_def welcome_puts_def le_store_2)
  show ?thesis
    using rf(2) s(1,2)
    by (simp add: ServeSession_def serve_handshake_def SessionState_new_def rf(1) dec greet_def enc SendFrame_def SendAll_open
        welcome_frame_def Let_def)
qed

lemma handshake_pairs:
  assumes c: "cl_socket c = Some socket" "so_open socket" "so_writes socket = []" "wf_boot (cl_client_boot c)"
    and s: "so_open peer" "so_writes peer = []" "so_events peer = chunk_events cs @ events"
    and cs: "[] \<notin> set cs" "concat cs = hello_frame nonce c"
    and ds: "[] \<notin> set ds" "concat ds = welcome_frame nonce v" "so_events socket = chunk_events ds @ events'"
    and fits: "envelope_fits (hello_puts (cl_client_boot c, nonce)) (vo_limits (sv_options v))"
      "envelope_fits (welcome_puts (welcome_for (sv_next_session v) nonce v)) (cl_limits c)"
    and greeting: "welcome_ok (welcome_for (sv_next_session v) nonce v)"
  shows "\<exists>s' socket' c'. ServeSession ck detail others (SessionState_new (sv_options v) peer) v =
      (s', v\<lparr>sv_next_session := sv_next_session v + 1\<rparr>) \<and>
    client_Handshake nonce c = Some (Status_Ok, c') \<and> cl_session_id c' = sv_next_session v \<and>
    cl_server_epoch c' = en_live_epoch (sv_engine v) \<and>
    paired c' socket' s' (v\<lparr>sv_next_session := sv_next_session v + 1\<rparr>)"
proof -
  let ?w = "welcome_for (sv_next_session v) nonce v"
  let ?mx = "of_nat (max_wire_payload_bytes (cl_limits c)) :: u32"
  let ?h = "MakeHeader Msg_Welcome 0 1" and ?p = "EncodeWelcome ?w"
  let ?k = "socket\<lparr>so_sent := so_sent socket @ hello_frame nonce c\<rparr>"
  have ok: "frame_ok ?mx (framed ?h ?p, ?p)"
    using MakeHeader_frame_ok envelope_length [OF fits(2)] by (simp add: EncodeWelcome_def)
  have k: "so_open ?k" "so_events ?k = chunk_events ds @ events'" using c(2) ds(3) by simp_all
  obtain reader' where rf: "ReceiveFrame (FrameReader_new ?mx) ?k =
      (Received_Frame (framed ?h ?p) ?p, reader', ?k\<lparr>so_events := events'\<rparr>)"
    using ReceiveFrame_chunks [OF ok reader_after_new _ ds(1) k] ds(2) by (auto simp: welcome_frame_def EncodeFrame_framed)
  have dec: "DecodeWelcome ?p = Some ?w"
    using DecodeWelcome_Encode [OF greeting] fits(2) by (simp add: envelope_fits_def)
  have enc: "EncodeHello (cl_client_boot c) nonce \<noteq> []"
    using fits(1) by (simp add: EncodeHello_def puts_buffer_octets envelope_fits_def hello_puts_def le_store_2)
  let ?k' = "?k\<lparr>so_events := events'\<rparr>"
  let ?c = "c\<lparr>cl_socket := Some ?k', cl_session_id := sv_next_session v, cl_sequence := 1,
      cl_server_epoch := en_live_epoch (sv_engine v), cl_server_boot := en_live_boot (sv_engine v),
      cl_server_store := ds_store (en_state (sv_engine v))\<rparr>"
  have shake: "client_Handshake nonce c = Some (Status_Ok, ?c)"
    using c enc rf dec by (simp add: client_Handshake_def client_Send_def SendAll_open hello_frame_def ReceiveOne_def
        accept_welcome_def welcome_for_def)
  obtain s' where s': "ServeSession ck detail others (SessionState_new (sv_options v) peer) v =
      (s', v\<lparr>sv_next_session := sv_next_session v + 1\<rparr>)" "ss_phase s' = Serving"
    "ss_session_id s' = sv_next_session v" "ss_client_boot s' = cl_client_boot c" "ss_expected_incoming s' = 2"
    "reader_after (of_nat (max_wire_payload_bytes (vo_limits (sv_options v)))) (Inr []) (ss_reader s')"
    "so_open (ss_socket s')" "so_writes (ss_socket s') = []"
    using session_welcomes [OF c(4) s cs fits] by blast
  have "paired ?c ?k' s' (v\<lparr>sv_next_session := sv_next_session v + 1\<rparr>)"
    using s' c by (simp add: paired_def)
  then show ?thesis
    using s'(1) shake by (intro exI [of _ s'] exI [of _ ?k'] exI [of _ ?c]) simp
qed

end
