(* ===== verification/Service_Scenario.thy ===== *)
theory Service_Scenario
  imports Scenario Protocol
begin

text \<open>
  The coordinator of the scenario behind a service with one established session, and the client at its other
  end: what the theorems about the service and the client are exercised on.
\<close>

definition demo_server_options :: ServerOptions where
  "demo_server_options =
     \<lparr>vo_bind_address = ''127.0.0.1'', vo_port = 0, vo_limits = default_limits, vo_max_sessions = 64,
      vo_single_session = False\<rparr>"

definition demo_socket :: "net_event list \<Rightarrow> Socket" where
  "demo_socket events = \<lparr>so_open = True, so_shut = False, so_events = events, so_writes = [], so_sent = []\<rparr>"

definition demo_peer :: BootId where "demo_peer = BootId (replicate 16 2)"

definition demo_session :: "net_event list \<Rightarrow> SessionState" where
  "demo_session events =
     (SessionState_new demo_server_options (demo_socket events))\<lparr>ss_session_id := 1, ss_client_boot := demo_peer,
        ss_handshake_epoch := Counter 1, ss_live := True, ss_phase := Serving, ss_expected_incoming := 2\<rparr>"

definition demo_server :: "net_event list \<Rightarrow> Server" where
  "demo_server events =
     \<lparr>sv_engine = demo_engine, sv_options = demo_server_options, sv_port = 9000, sv_sessions = [demo_session events],
      sv_stopping = False, sv_accept = Accept_Waiting, sv_accepted = 1, sv_rejected = 0, sv_next_session = 2\<rparr>"

definition demo_client :: "net_event list \<Rightarrow> Client" where
  "demo_client events =
     Client_new\<lparr>cl_socket := Some (demo_socket events), cl_session_id := 1, cl_sequence := 1,
       cl_server_epoch := Counter 1, cl_client_boot := demo_peer\<rparr>"

lemma demo_paired: "paired (demo_client events) (demo_socket events) (demo_session events') (demo_server events')"
  using reader_after_new
  by (simp add: paired_def demo_client_def demo_socket_def demo_session_def demo_server_def demo_server_options_def
      SessionState_new_def wf_boot_def demo_peer_def)

lemma demo_wire_limit: "unat (of_nat (max_wire_payload_bytes default_limits) :: u32) = 16 * 1024 * 1024"
  by (simp add: default_limits_def)

lemma small_envelope_fits: "length (octets ps) \<le> 4000 \<Longrightarrow> envelope_fits ps default_limits"
  unfolding envelope_fits_def demo_wire_limit by (simp add: kMaxCanonicalBytes_def)

lemma frame_nonempty [simp]: "request_frame q c \<noteq> []" "response_frame r s \<noteq> []"
  unfolding request_frame_def response_frame_def length_0_conv [symmetric] length_EncodeFrame
  by (simp_all add: kWireHeaderBytes_def)

section \<open>A query and a plan\<close>

definition demo_query :: Request where
  "demo_query = call_request Op_KnownScopes [] (demo_client [])"

definition demo_answer :: Response where
  "demo_answer = ok_text (''s'' @ line_end)"

lemma demo_query_handled:
  "Handle default_limits ck detail others demo_peer demo_query demo_engine = (demo_answer, demo_engine)"
  by (simp add: Handle_def demo_query_def call_request_def demo_client_def dispatch_operation_def handle_KnownScopes_def
      KnownScopes_def demo_answer_def demo_scope_def)

lemma demo_query_fits: "envelope_fits (request_puts demo_query) default_limits" "envelope_fits (response_puts demo_answer) default_limits"
  "response_ok demo_answer"
proof -
  show "envelope_fits (request_puts demo_query) default_limits"
    by (rule small_envelope_fits) (simp add: request_puts_def demo_query_def call_request_def demo_client_def PutBoot_def demo_peer_def)
  show "envelope_fits (response_puts demo_answer) default_limits"
    by (rule small_envelope_fits) (simp add: response_puts_def demo_answer_def FromStatus_def line_end_def)
  show "response_ok demo_answer"
    by (simp add: response_ok_def demo_answer_def FromStatus_def line_end_def kMaxCanonicalBytes_def)
qed

text \<open>A plan counts in the statistics, so the engine is another one after it.\<close>

lemma plan_counted:
  "engine_Plan ck request e = (Inr plan, e') \<Longrightarrow> es_plans_built (en_stats e') = es_plans_built (en_stats e) + 1"
  by (auto simp: engine_Plan_def BuildPlanLocked_def count_work_def Let_def split: if_splits sum.splits prod.splits)

definition demo_plan_request :: Request where
  "demo_plan_request = call_request Op_Plan (octets [PutText ''s'', PutI64 5, PutBool False]) (demo_client [])"

lemma demo_plan_handled:
  "\<exists>r e'. Handle default_limits demo_clocks detail others demo_peer demo_plan_request demo_engine = (r, e') \<and> e' \<noteq> demo_engine"
proof -
  obtain plan e' where p: "engine_Plan demo_clocks demo_request demo_engine = (Inr plan, e')"
    using demo_plan by (auto simp: engine_Plan_def)
  have ne: "e' \<noteq> demo_engine" using plan_counted [OF p] by auto
  have scope: "TryParseId ''s'' = Some demo_scope" using TryParseId_str [OF demo_ids(1)] by (simp add: demo_scope_def)
  let ?rd = "\<lambda>r. do { ((scope, now), r) \<leftarrow> read_scope_now r; (dry_run, r) \<leftarrow> ReadBool r; Some ((scope, now, dry_run), r) }"
  have "?rd (octets [PutText ''s'', PutI64 5, PutBool False]) = Some ((''s'', 5, False), [])"
    using ReadText_put [of "''s''" "le_store 8 (5 :: i64) @ [0]"] ReadBool_put [of False "[]"]
    by (simp add: read_scope_now_def kMaxCanonicalBytes_def)
  then have body: "decode_exactly ?rd (octets [PutText ''s'', PutI64 5, PutBool False]) = Some (''s'', 5, False)"
    by (simp add: decode_exactly_Some)
  have "handle_Plan demo_clocks detail (octets [PutText ''s'', PutI64 5, PutBool False]) demo_engine =
      (ok_text (RenderPlanText plan), e')"
    unfolding handle_Plan_def body using p scope by (simp add: demo_request_def)
  then have "Handle default_limits demo_clocks detail others demo_peer demo_plan_request demo_engine =
      (ok_text (RenderPlanText plan), e')"
    by (simp add: Handle_def demo_plan_request_def call_request_def demo_client_def dispatch_operation_def)
  then show ?thesis using ne by blast
qed

lemma demo_interferes: "interferes demo_engine id"
  by (auto simp: interferes_def)

end
