(* ===== verification/Entropy.thy ===== *)
theory Entropy
  imports Identity
begin

unbundle bit_operations_syntax

text \<open>
  The generation of boot and store identities, \<open>FillEntropy\<close> and the \<open>Generate\<close> functions of \<open>identity.cpp\<close>: the
  values of a random device, mixed with a counter of the process, a time stamp and the process identity. The
  mixing is what keeps identities apart where the random device is deterministic.
\<close>

section \<open>Generation\<close>

text \<open>The bytes drawn from a random device: two of each 32-bit value, one of the last for an odd size.\<close>

fun device_bytes :: "(nat \<Rightarrow> u32) \<Rightarrow> nat \<Rightarrow> nat \<Rightarrow> bytes" where
  "device_bytes device k 0 = []"
| "device_bytes device k (Suc 0) = [ucast (device k AND 0xff)]"
| "device_bytes device k (Suc (Suc n)) =
     ucast (device k AND 0xff) # ucast (drop_bit 8 (device k) AND 0xff) # device_bytes device (Suc k) n"

definition mix_byte :: "u64 list \<Rightarrow> nat \<Rightarrow> u8" where
  "mix_byte words index = ucast (drop_bit (((index div 3) mod 8) * 8) (words ! (index mod 3)) AND 0xff)"

text \<open>The bytes and the counter after them; the values of the device, the stamp and the process are arguments.\<close>

definition FillEntropy :: "(nat \<Rightarrow> u32) \<Rightarrow> u64 \<Rightarrow> u64 \<Rightarrow> u64 \<Rightarrow> nat \<Rightarrow> bytes \<times> u64" where
  "FillEntropy device counter stamp process n =
     (map2 (\<lambda>index b. b XOR mix_byte [counter, stamp, process] index) [0 ..< n] (device_bytes device 0 n),
      counter + 1)"

definition BootId_Generate :: "(nat \<Rightarrow> u32) \<Rightarrow> u64 \<Rightarrow> u64 \<Rightarrow> u64 \<Rightarrow> BootId \<times> u64" where
  "BootId_Generate device counter stamp process =
     (let (bs, counter) = FillEntropy device counter stamp process 16 in (BootId bs, counter))"

definition StoreId_Generate :: "(nat \<Rightarrow> u32) \<Rightarrow> u64 \<Rightarrow> u64 \<Rightarrow> u64 \<Rightarrow> StoreId \<times> u64" where
  "StoreId_Generate device counter stamp process =
     (let (bs, counter) = FillEntropy device counter stamp process 16 in (StoreId bs, counter))"

section \<open>Distinctness\<close>

lemma length_device_bytes [simp]: "length (device_bytes device k n) = n"
  by (induction device k n rule: device_bytes.induct) simp_all

lemma length_FillEntropy [simp]: "length (fst (FillEntropy device counter stamp process n)) = n"
  by (simp add: FillEntropy_def)

lemma generated_well_formed:
  "wf_boot (fst (BootId_Generate device counter stamp process))"
  "wf_store_id (fst (StoreId_Generate device counter stamp process))"
  by (simp_all add: BootId_Generate_def StoreId_Generate_def wf_boot_def wf_store_id_def case_prod_beta)

lemma xor_cancel: "(b :: u8) XOR x = b XOR y \<longleftrightarrow> x = y"
  by (auto simp: bit_eq_iff bit_simps)

text \<open>Under the same device the bytes agree exactly when the mixed-in bytes do.\<close>

lemma FillEntropy_same:
  "fst (FillEntropy device c s p n) = fst (FillEntropy device c' s' p' n) \<longleftrightarrow>
   (\<forall>i < n. mix_byte [c, s, p] i = mix_byte [c', s', p'] i)"
  by (auto simp: FillEntropy_def list_eq_iff_nth_eq xor_cancel)

lemma byte_eq_iff: "(ucast (drop_bit n (x :: u64) AND 0xff) :: u8) = ucast (drop_bit n (y :: u64) AND 0xff) \<longleftrightarrow>
    (\<forall>i < 8. bit x (n + i) = bit y (n + i))"
proof -
  have ff: "(0xff :: u64) = mask 8" by (simp add: mask_eq_exp_minus_1)
  show ?thesis
    unfolding ff by (auto simp: bit_eq_iff bit_simps)
qed

text \<open>The low bytes of two words agree exactly when the words agree modulo the power.\<close>

lemma low_bytes: "(\<forall>k < n. (ucast (drop_bit (k * 8) (x :: u64) AND 0xff) :: u8) = ucast (drop_bit (k * 8) (y :: u64) AND 0xff)) \<longleftrightarrow>
    take_bit (n * 8) x = take_bit (n * 8) y"
proof -
  have "(\<forall>k < n. \<forall>i < 8. bit x (k * 8 + i) = bit y (k * 8 + i)) \<longleftrightarrow> (\<forall>j < n * 8. bit x j = bit y j)"
  proof (rule iffI; intro allI impI)
    fix j assume a: "\<forall>k < n. \<forall>i < 8. bit x (k * 8 + i) = bit y (k * 8 + i)" and j: "j < n * 8"
    have "j div 8 < n" "j mod 8 < 8" using j by (simp_all add: less_mult_imp_div_less)
    then show "bit x j = bit y j" using a div_mult_mod_eq [of j 8] by metis
  next
    fix k i assume "\<forall>j < n * 8. bit x j = bit y j" "k < n" "i < (8 :: nat)"
    then show "bit x (k * 8 + i) = bit y (k * 8 + i)" by simp
  qed
  moreover have "take_bit (n * 8) x = take_bit (n * 8) y \<longleftrightarrow> (\<forall>j < n * 8. bit x j = bit y j)"
    using bit_imp_le_length [of x] bit_imp_le_length [of y] by (auto simp: bit_eq_iff bit_take_bit_iff)
  ultimately show ?thesis by (simp add: byte_eq_iff)
qed

lemma three: "(3 * k + 1) div 3 = k" "(3 * k + 2) div 3 = k" "(3 * k + 1) mod 3 = 1" "(3 * k + 2) mod 3 = (2 :: nat)"
  by presburger+

lemma mixed_words:
  "(\<forall>i < 16. mix_byte [c, s, p] i = mix_byte [c', s', p'] i) \<longleftrightarrow>
   take_bit 48 c = take_bit 48 c' \<and> take_bit 40 s = take_bit 40 s' \<and> take_bit 40 p = take_bit 40 p'"
proof -
  have "(\<forall>i < 16. mix_byte [c, s, p] i = mix_byte [c', s', p'] i) \<longleftrightarrow>
      (\<forall>k < 6. mix_byte [c, s, p] (3 * k) = mix_byte [c', s', p'] (3 * k)) \<and>
      (\<forall>k < 5. mix_byte [c, s, p] (3 * k + 1) = mix_byte [c', s', p'] (3 * k + 1)) \<and>
      (\<forall>k < 5. mix_byte [c, s, p] (3 * k + 2) = mix_byte [c', s', p'] (3 * k + 2))"
    by (simp add: numeral_eq_Suc All_less_Suc2 conj_ac)
  moreover have "mix_byte [a, b, d] (3 * k) = ucast (drop_bit (k * 8) a AND 0xff)"
    "mix_byte [a, b, d] (3 * k + 1) = ucast (drop_bit (k * 8) b AND 0xff)"
    "mix_byte [a, b, d] (3 * k + 2) = ucast (drop_bit (k * 8) d AND 0xff)" if "k < 8" for a b d k
    using that three [of k] by (simp_all add: mix_byte_def)
  ultimately show ?thesis
    using low_bytes [of 6 c c'] low_bytes [of 5 s s'] low_bytes [of 5 p p'] by simp
qed

lemma generated_same:
  "fst (BootId_Generate device c s p) = fst (BootId_Generate device c' s' p') \<longleftrightarrow>
   take_bit 48 c = take_bit 48 c' \<and> take_bit 40 s = take_bit 40 s' \<and> take_bit 40 p = take_bit 40 p'"
  using FillEntropy_same [of device c s p 16 c' s' p'] by (simp add: BootId_Generate_def case_prod_beta mixed_words)

end
