(* ===== verification/Process.thy ===== *)
theory Process
  imports Document_Json Server
begin

text \<open>
  What the two tools under \<open>tools/\<close> share: the world a process runs in, what it leaves behind, the
  pieces of the C++ library they use on texts and files, and the opening of an engine with the default
  options. A process reads files, opens the durable store of a directory, and ends with an exit code, what
  it printed, what it wrote to other files, and the engine it had open; the store's files are those of the
  engine's store. Detail texts of statuses are not modelled, so an error line is the status it prints.
\<close>

section \<open>The world\<close>

text \<open>How the writing of a file goes: refused before it is touched, cut short, or complete.\<close>

datatype write_result = Write_Refused | Write_Short nat | Write_Complete

record World =
  wo_files :: "string \<Rightarrow> string option"
  wo_write :: "string \<Rightarrow> write_result"
  wo_disk :: "string \<Rightarrow> StoreDisk"
  wo_store_id :: StoreId
  wo_boot :: BootId
  wo_boot_clock :: UnixMillis
  wo_boot_clocks :: Clocks
  wo_clocks :: "nat \<Rightarrow> Clocks"
  wo_other_boot :: BootId
  wo_kernel :: Kernel
  wo_bound_port :: u16
  wo_stdin :: "(string \<times> (Server \<Rightarrow> Server)) list"
  wo_stopping :: "Server \<Rightarrow> Server"

text \<open>
  \<^const>\<open>wo_store_id\<close> and \<^const>\<open>wo_boot\<close> are the identities drawn when a store is opened, and
  \<^term>\<open>wo_clocks w n\<close> the clock readings of the \<open>n\<close>-th engine operation after the opening; \<^const>\<open>wo_other_boot\<close>
  is a second drawn boot identity. For a process that serves: the descriptors and the port its service gets, the
  lines of its standard input, each with what the threads of the service did until the line was read, and what
  they do between the signals and the joins of \<open>Stop\<close>.
\<close>

datatype error_line = Error_Text string | Error_Status string Status

record Process =
  pr_exit :: int
  pr_out :: string
  pr_err :: "error_line list"
  pr_files :: "string \<Rightarrow> string option"
  pr_engine :: "Engine option"

definition exits :: "int \<Rightarrow> string \<Rightarrow> error_line list \<Rightarrow> (string \<Rightarrow> string option) \<Rightarrow> Engine option \<Rightarrow> Process" where
  "exits code out err files engine =
     \<lparr>pr_exit = code, pr_out = out, pr_err = err, pr_files = files, pr_engine = engine\<rparr>"

lemma exits_fields [simp]:
  "pr_exit (exits code out err files engine) = code" "pr_out (exits code out err files engine) = out"
  "pr_err (exits code out err files engine) = err" "pr_files (exits code out err files engine) = files"
  "pr_engine (exits code out err files engine) = engine"
  by (simp_all add: exits_def)

section \<open>Texts\<close>

text \<open>\<open>std::printf("%s", text.c_str())\<close>: the text up to its first null character.\<close>

definition c_str :: "string \<Rightarrow> string" where
  "c_str t = takeWhile (\<lambda>c. c \<noteq> CHR 0x00) t"

definition c_isspace :: "char \<Rightarrow> bool" where
  "c_isspace c \<longleftrightarrow> c \<in> {CHR 0x20, CHR 0x09, CHR 0x0A, CHR 0x0B, CHR 0x0C, CHR 0x0D}"

text \<open>
  \<open>std::strtoll(text, nullptr, 10)\<close>, and \<open>std::strtol\<close> where \<open>long\<close> has 64 bits: leading white space, a sign,
  the longest run of digits, 0 when there is none, and the nearest bound when the value is out of range.
\<close>

definition strtoll_prefix :: "string \<Rightarrow> i64" where
  "strtoll_prefix t =
     (let t = dropWhile c_isspace t;
          negative = (t \<noteq> [] \<and> hd t = CHR ''-'');
          digits = takeWhile is_digit (if t \<noteq> [] \<and> hd t \<in> {CHR ''-'', CHR ''+''} then tl t else t);
          v = (if negative then - int (digits_value digits) else int (digits_value digits))
      in word_of_int (max (- (2 ^ 63)) (min (2 ^ 63 - 1) v)))"

section \<open>Files and the engine\<close>

text \<open>\<open>map.emplace(k, v)\<close> whose result is not read.\<close>

definition emplace_or_keep :: "'k::linorder \<Rightarrow> 'v \<Rightarrow> ('k, 'v) omap \<Rightarrow> ('k, 'v) omap" where
  "emplace_or_keep k v m = (case map_emplace k v m of None \<Rightarrow> m | Some m' \<Rightarrow> m')"

definition ReadFile :: "World \<Rightarrow> string \<Rightarrow> string" where
  "ReadFile w path = (case wo_files w path of None \<Rightarrow> [] | Some content \<Rightarrow> content)"

definition WriteFile :: "World \<Rightarrow> string \<Rightarrow> string \<Rightarrow> int \<times> (string \<Rightarrow> string option)" where
  "WriteFile w path content =
     (case wo_write w path of
        Write_Refused \<Rightarrow> (1, wo_files w)
      | Write_Short n \<Rightarrow> (1, (wo_files w)(path \<mapsto> take n content))
      | Write_Complete \<Rightarrow> (0, (wo_files w)(path \<mapsto> content)))"

definition default_engine_options :: EngineOptions where
  "default_engine_options =
     \<lparr>eo_store_dir = [], eo_limits = default_limits, eo_create_if_missing = True, eo_read_only = False,
      eo_initial_policy = policy_new, eo_install_initial_policy = True, eo_auto_compact_after_records = 8192\<rparr>"

definition open_store :: "World \<Rightarrow> string \<Rightarrow> Status \<times> Engine option" where
  "open_store w dir =
     engine_Open (default_engine_options\<lparr>eo_store_dir := dir\<rparr>) (wo_store_id w) (wo_boot w) (wo_boot_clock w)
       (wo_boot_clocks w) (wo_disk w dir)"

text \<open>Default-constructed requests.\<close>

definition PlanRequest_new :: PlanRequest where
  "PlanRequest_new = \<lparr>pq_scope = StringId [], pq_policy = None, pq_now_unix_ms = 0, pq_dry_run = False\<rparr>"

definition CompletionRequest_new :: CompletionRequest where
  "CompletionRequest_new =
     \<lparr>cq_attempt = Counter 0, cq_epoch = Counter 0, cq_boot = BootId (replicate 16 0),
      cq_idempotency_key = zero_digest, cq_target = Attempt_Invalid, cq_at_unix_ms = 0, cq_reason = Reason_None,
      cq_detail = []\<rparr>"

end
