(* ===== verification/Cli.thy ===== *)
theory Cli
  imports Process
begin

text \<open>
  The command line tool, \<open>tools/fabric_reconciliation_cli.cpp\<close>: its options and their parsing, one definition
  per command, and \<open>main\<close>. Every command but \<open>selftest\<close> opens the engine of the store directory, which begins a
  new coordinator epoch, and ends with the process.
\<close>

section \<open>Options\<close>

record Options =
  cl_command :: string
  cl_store :: string
  cl_scope :: string
  cl_subject :: string
  cl_file :: string
  cl_out :: string
  cl_address :: string
  cl_plan_id :: string
  cl_state :: string
  cl_key :: string
  cl_ready_file :: string
  cl_now :: i64
  cl_port :: i64
  cl_attempt :: i64
  cl_below :: i64
  cl_json :: bool
  cl_dry_run :: bool
  cl_quiet :: bool
  cl_stdin_control :: bool

definition Options_new :: Options where
  "Options_new =
     \<lparr>cl_command = [], cl_store = ''fabric-store'', cl_scope = [], cl_subject = [], cl_file = [], cl_out = [],
      cl_address = ''127.0.0.1'', cl_plan_id = [], cl_state = [], cl_key = [], cl_ready_file = [], cl_now = 0,
      cl_port = 0, cl_attempt = 0, cl_below = 0, cl_json = False, cl_dry_run = False, cl_quiet = False,
      cl_stdin_control = False\<rparr>"

section \<open>Helpers\<close>

definition Fail :: "string \<Rightarrow> string \<Rightarrow> (string \<Rightarrow> string option) \<Rightarrow> Engine option \<Rightarrow> Process" where
  "Fail message out files engine = exits 1 out [Error_Text (''error: '' @ c_str message @ line_end)] files engine"

text \<open>\<open>Fail(status.ToString())\<close>\<close>

definition Fail_status :: "Status \<Rightarrow> string \<Rightarrow> (string \<Rightarrow> string option) \<Rightarrow> Engine option \<Rightarrow> Process" where
  "Fail_status status out files engine = exits 1 out [Error_Status ''error: '' status] files engine"

definition OpenEngine :: "Options \<Rightarrow> World \<Rightarrow> Status \<times> Engine option" where
  "OpenEngine options w = open_store w (cl_store options)"

text \<open>The opening every command starts its work with: it fails, or the rest runs on the engine.\<close>

definition with_engine :: "Options \<Rightarrow> World \<Rightarrow> (Engine \<Rightarrow> Process) \<Rightarrow> Process" where
  "with_engine options w run =
     (case OpenEngine options w of
        (opened, None) \<Rightarrow> Fail_status opened [] (wo_files w) None
      | (opened, Some e) \<Rightarrow> run e)"

definition CommitPolicy :: "Options \<Rightarrow> World \<Rightarrow> Engine \<Rightarrow> Status \<times> Engine" where
  "CommitPolicy options w e =
     (if cl_file options = [] then engine_PutPolicy DefaultPolicy True e
      else let content = ReadFile w (cl_file options)
      in if content = [] then (Status Code_Rejected Reason_MalformedPayload, e)
         else case ParseJson_policy content default_limits of
           Inl parsed \<Rightarrow> (parsed, e)
         | Inr policy \<Rightarrow> engine_PutPolicy policy True e)"

section \<open>Commands\<close>

definition CommandInit :: "Options \<Rightarrow> World \<Rightarrow> Process" where
  "CommandInit options w =
     with_engine options w (\<lambda>e.
       exits 0 (if \<not> cl_quiet options then c_str (RenderBootReportText (en_boot_report e)) else [])
         [] (wo_files w) (Some e))"

definition CommandStatus :: "Options \<Rightarrow> World \<Rightarrow> Process" where
  "CommandStatus options w =
     with_engine options w (\<lambda>e.
       if cl_json options
       then exits 0 (c_str (ToJson (boot_report_json (en_boot_report e))) @ line_end) [] (wo_files w) (Some e)
       else exits 0
         (c_str (RenderBootReportText (en_boot_report e)) @
          (case ActivePolicy e of Inl _ \<Rightarrow> [] | Inr policy \<Rightarrow> c_str (ToJson (policy_json policy)) @ line_end) @
          concat (map (\<lambda>scope. ''scope '' @ c_str (str scope) @ line_end) (KnownScopes e)))
         [] (wo_files w) (Some e))"

definition CommandPolicy :: "Options \<Rightarrow> World \<Rightarrow> Process" where
  "CommandPolicy options w =
     with_engine options w (\<lambda>e.
       let (committed, e) = CommitPolicy options w e
       in if \<not> status_ok committed then Fail_status committed [] (wo_files w) (Some e)
          else case ActivePolicy e of
            Inl status \<Rightarrow> Fail_status status [] (wo_files w) (Some e)
          | Inr policy \<Rightarrow> exits 0 (c_str (ToJson (policy_json policy)) @ line_end) [] (wo_files w) (Some e))"

definition CommandIntent :: "Options \<Rightarrow> World \<Rightarrow> Process" where
  "CommandIntent options w =
     (let content = ReadFile w (cl_file options)
      in if content = [] then Fail ''intent file is empty or unreadable'' [] (wo_files w) None
      else case ParseJson_intent content default_limits of
        Inl parsed \<Rightarrow> Fail_status parsed [] (wo_files w) None
      | Inr document \<Rightarrow>
          with_engine options w (\<lambda>e.
            let (committed, result, e) = engine_CommitIntent (wo_clocks w 0) document e;
                result = lookup_or IntentCommitResult_new result
            in if \<not> status_ok committed then Fail_status committed [] (wo_files w) (Some e)
               else exits 0
                 (''intent scope='' @ c_str (str (in_scope document)) @
                  '' generation='' @ to_string_u64 (cval (ic_generation result)) @
                  '' duplicate='' @ yes_no (ic_duplicate result) @ '' digest='' @ ToHex (ic_digest result) @ line_end)
                 [] (wo_files w) (Some e)))"

definition CommandObserve :: "Options \<Rightarrow> World \<Rightarrow> Process" where
  "CommandObserve options w =
     (let content = ReadFile w (cl_file options)
      in if content = [] then Fail ''observation file is empty or unreadable'' [] (wo_files w) None
      else case ParseJson_submission content default_limits of
        Inl parsed \<Rightarrow> Fail_status parsed [] (wo_files w) None
      | Inr submission \<Rightarrow>
          with_engine options w (\<lambda>e.
            let (committed, result, e) = RecordObservationAt (wo_clocks w 0) submission (cl_now options) e;
                result = lookup_or ObservationCommitResult_new result
            in if \<not> status_ok committed then Fail_status committed [] (wo_files w) (Some e)
               else if cl_json options
               then exits 0 (c_str (ToJson (observation_json (ro_stamped result))) @ line_end) [] (wo_files w) (Some e)
               else exits 0
                 (''observation scope='' @ c_str (str (su_scope submission)) @
                  '' reporter='' @ c_str (str (su_reporter submission)) @
                  '' generation='' @ to_string_u64 (cval (su_generation submission)) @
                  '' duplicate='' @ yes_no (ro_duplicate result) @
                  '' epoch='' @ to_string_u64 (cval (ob_received_epoch (ro_stamped result))) @ line_end)
                 [] (wo_files w) (Some e)))"

abbreviation scope_required :: string where
  "scope_required \<equiv> ''--scope is required and must be a valid identity''"

text \<open>The \<open>explain\<close> command is \<open>plan\<close> with \<open>explain_only\<close>; both branches of that test print the same text.\<close>

definition CommandPlan :: "Options \<Rightarrow> bool \<Rightarrow> World \<Rightarrow> Process" where
  "CommandPlan options explain_only w =
     with_engine options w (\<lambda>e.
       case TryParseId (cl_scope options) of
         None \<Rightarrow> Fail scope_required [] (wo_files w) (Some e)
       | Some scope \<Rightarrow>
           (case engine_Plan (wo_clocks w 0)
                   (PlanRequest_new\<lparr>pq_scope := scope, pq_now_unix_ms := cl_now options, pq_dry_run := cl_dry_run options\<rparr>) e of
              (Inl status, e) \<Rightarrow> Fail_status status [] (wo_files w) (Some e)
            | (Inr plan, e) \<Rightarrow>
                (let out = (if cl_json options then c_str (ToJson (plan_json plan)) @ line_end
                            else if explain_only then c_str (RenderPlanText plan)
                            else c_str (RenderPlanText plan))
                 in if cl_out options = [] then exits 0 out [] (wo_files w) (Some e)
                    else let (written, files) = WriteFile w (cl_out options) (ToJson (plan_json plan) @ line_end)
                    in if written \<noteq> 0 then Fail ''could not write the plan document'' out files (Some e)
                       else exits 0 out [] files (Some e))))"

definition CommandClassify :: "Options \<Rightarrow> World \<Rightarrow> Process" where
  "CommandClassify options w =
     with_engine options w (\<lambda>e.
       case TryParseId (cl_scope options) of
         None \<Rightarrow> Fail scope_required [] (wo_files w) (Some e)
       | Some scope \<Rightarrow>
           (case Classify (wo_clocks w 0) scope (cl_now options) e of
              (Inl status, e) \<Rightarrow> Fail_status status [] (wo_files w) (Some e)
            | (Inr report, e) \<Rightarrow>
                exits 0 (if cl_json options then c_str (ToJson (classification_json report)) @ line_end
                         else c_str (RenderClassificationText report)) [] (wo_files w) (Some e)))"

text \<open>A line of an issued action.\<close>

definition issued_text :: "ActionIntent \<Rightarrow> string" where
  "issued_text a =
     ''attempt='' @ to_string_u64 (cval (ai_attempt a)) @ '' key='' @ ToHex (ai_idempotency_key a) @
     '' subject='' @ c_str (str (ai_subject a)) @ '' action='' @ ActionKind_text (ai_action a) @ line_end"

definition dispatch_opened :: "Options \<Rightarrow> World \<Rightarrow> Engine \<Rightarrow> Process" where
  "dispatch_opened options w e =
     (case TryParseId (cl_scope options) of
         None \<Rightarrow> Fail scope_required [] (wo_files w) (Some e)
       | Some scope \<Rightarrow>
           (case engine_Plan (wo_clocks w 0)
                   (PlanRequest_new\<lparr>pq_scope := scope, pq_now_unix_ms := cl_now options\<rparr>) e of
              (Inl status, e) \<Rightarrow> Fail_status status [] (wo_files w) (Some e)
            | (Inr plan, e) \<Rightarrow>
                if cl_plan_id options \<noteq> [] \<and> cl_plan_id options \<noteq> pl_plan_id plan
                then Fail ''the plan changed since the supplied plan id was observed'' [] (wo_files w) (Some e)
                else (case Dispatch (wo_clocks w 1) plan e of
                   (Inl status, e) \<Rightarrow> Fail_status status [] (wo_files w) (Some e)
                 | (Inr issued, e) \<Rightarrow>
                     exits 0
                       (''plan='' @ c_str (pl_plan_id plan) @ '' verdict='' @ ConvergenceVerdict_text (pl_verdict plan) @
                        '' issued='' @ decimal (length (dp_intents issued)) @
                        '' already-issued='' @ decimal (dp_already_issued issued) @
                        '' fenced='' @ decimal (dp_fenced issued) @ line_end @
                        concat (map issued_text (dp_intents issued))) [] (wo_files w) (Some e))))"

definition CommandDispatch :: "Options \<Rightarrow> World \<Rightarrow> Process" where
  "CommandDispatch options w = with_engine options w (dispatch_opened options w)"

definition CommandComplete :: "Options \<Rightarrow> World \<Rightarrow> Process" where
  "CommandComplete options w =
     with_engine options w (\<lambda>e.
       case TryParseAttemptState (cl_state options) of
         None \<Rightarrow> Fail ''--state must be one of ACKNOWLEDGED, APPLIED, FAILED, ABANDONED'' [] (wo_files w) (Some e)
       | Some target \<Rightarrow>
           (let request = CompletionRequest_new\<lparr>cq_attempt := Counter (ucast (cl_attempt options)),
                  cq_epoch := en_live_epoch e, cq_boot := en_live_boot e\<rparr>
            in case TryParseHexDigest (cl_key options) of
              None \<Rightarrow> Fail ''--key must be 64 hexadecimal characters'' [] (wo_files w) (Some e)
            | Some key \<Rightarrow>
                (let request = request\<lparr>cq_idempotency_key := key, cq_target := target, cq_at_unix_ms := cl_now options\<rparr>;
                     (completed, outcome, e) = Complete (wo_clocks w 0) request e
                 in if \<not> status_ok completed then Fail_status completed [] (wo_files w) (Some e)
                    else exits 0 (c_str (ToJson (outcome_json (lookup_or ReconciliationOutcome_new outcome))) @ line_end)
                      [] (wo_files w) (Some e))))"

definition CommandVerify :: "Options \<Rightarrow> World \<Rightarrow> Process" where
  "CommandVerify options w =
     (let content = ReadFile w (cl_file options)
      in if content = [] then Fail ''verification file is empty or unreadable'' [] (wo_files w) None
      else case ParseJson_verification content default_limits of
        Inl parsed \<Rightarrow> Fail_status parsed [] (wo_files w) None
      | Inr evidence \<Rightarrow>
          with_engine options w (\<lambda>e.
            let (verified, outcome, e) = Verify (wo_clocks w 0) evidence e
            in if \<not> status_ok verified then Fail_status verified [] (wo_files w) (Some e)
               else exits 0 (c_str (ToJson (outcome_json (lookup_or ReconciliationOutcome_new outcome))) @ line_end)
                 [] (wo_files w) (Some e)))"

text \<open>The fence an operator asks for; its identity is made of the epoch bound alone.\<close>

definition cli_fence :: "Options \<Rightarrow> (string + FenceEntry)" where
  "cli_fence options =
     (case (TryParseId (''fence/cli/'' @ to_string_i64 (cl_below options)), TryParseId (cl_scope options)) of
        (Some fence_id, Some scope) \<Rightarrow>
          (case (if cl_subject options = [] then Some (StringId []) else TryParseId (cl_subject options)) of
             None \<Rightarrow> Inl ''--subject must be a valid identity''
           | Some subject \<Rightarrow>
               Inr \<lparr>fe_id = fence_id, fe_scope = scope, fe_subject = subject,
                    fe_fenced_below = Counter (ucast (cl_below options)), fe_reason = Reason_ScopeFenced,
                    fe_detail = ''operator fence'', fe_created_unix_ms = 0\<rparr>)
      | _ \<Rightarrow> Inl scope_required)"

definition CommandFence :: "Options \<Rightarrow> World \<Rightarrow> Process" where
  "CommandFence options w =
     with_engine options w (\<lambda>e.
       case cli_fence options of
         Inl message \<Rightarrow> Fail message [] (wo_files w) (Some e)
       | Inr fence \<Rightarrow>
           (let (status, e) = engine_PutFence (wo_clocks w 0) fence e
            in if \<not> status_ok status then Fail_status status [] (wo_files w) (Some e)
               else exits 0 (c_str (ToJson (fence_json fence)) @ line_end) [] (wo_files w) (Some e)))"

text \<open>The optional scope of the listings.\<close>

definition listing_scope :: "Options \<Rightarrow> ScopeId option" where
  "listing_scope options = (if cl_scope options = [] then Some (StringId []) else TryParseId (cl_scope options))"

definition CommandAttempts :: "Options \<Rightarrow> World \<Rightarrow> Process" where
  "CommandAttempts options w =
     with_engine options w (\<lambda>e.
       case listing_scope options of
         None \<Rightarrow> Fail ''--scope must be a valid identity'' [] (wo_files w) (Some e)
       | Some scope \<Rightarrow>
           exits 0 (concat (map (\<lambda>a. if cl_json options then c_str (ToJson (attempt_json a)) @ line_end
                                     else c_str (RenderAttemptText a)) (Attempts scope e)))
             [] (wo_files w) (Some e))"

definition CommandOutcomes :: "Options \<Rightarrow> World \<Rightarrow> Process" where
  "CommandOutcomes options w =
     with_engine options w (\<lambda>e.
       case listing_scope options of
         None \<Rightarrow> Fail ''--scope must be a valid identity'' [] (wo_files w) (Some e)
       | Some scope \<Rightarrow>
           exits 0 (concat (map (\<lambda>x. c_str (ToJson (outcome_json x)) @ line_end) (Outcomes scope e)))
             [] (wo_files w) (Some e))"

section \<open>Serving\<close>

definition ServerOptions_new :: ServerOptions where
  "ServerOptions_new =
     \<lparr>vo_bind_address = ''127.0.0.1'', vo_port = 0, vo_limits = default_limits, vo_max_sessions = 64,
      vo_single_session = False\<rparr>"

text \<open>The control loop on standard input: what it printed, and the service as it found it last.\<close>

fun control_loop :: "(string \<times> (Server \<Rightarrow> Server)) list \<Rightarrow> Server \<Rightarrow> string \<times> Server" where
  "control_loop [] server = ([], server)"
| "control_loop ((line, meanwhile) # lines) server =
     (let server = meanwhile server
      in if line = ''stop'' then ([], server)
         else let (printed, final) = control_loop lines server
         in ((if line = ''status''
              then ''accepted='' @ to_string_u64 (connections_accepted server) @
                   '' rejected='' @ to_string_u64 (frames_rejected server) @
                   '' epoch='' @ to_string_u64 (cval (en_live_epoch (sv_engine server))) @ line_end
              else []) @ printed, final))"

text \<open>\<open>Stop\<close>, explicit or in the destructor of the service: it returns when every thread has finished.\<close>

definition serve_stop :: "World \<Rightarrow> Server \<Rightarrow> Server option" where
  "serve_stop w server =
     (let server = wo_stopping w (stop_signal server)
      in if threads_finished server then Some (stop_finish server) else None)"

text \<open>The command once the service has started; \<^const>\<open>None\<close>: it does not return.\<close>

definition serve_started :: "Options \<Rightarrow> World \<Rightarrow> Engine \<Rightarrow> Server \<Rightarrow> Process option" where
  "serve_started options w e server =
     (let epoch = to_string_u64 (cval (en_live_epoch e)); boot = HexOf (boot_bytes (en_live_boot e));
          out = ''listening '' @ c_str (endpoint server) @ '' epoch='' @ epoch @ '' boot='' @ boot @ line_end;
          (written, files) = (if cl_ready_file options = [] then (0, wo_files w)
             else WriteFile w (cl_ready_file options)
                    (endpoint server @ line_end @ ''epoch='' @ epoch @ line_end @ ''boot='' @ boot @ line_end))
      in if written \<noteq> 0
         then map_option (\<lambda>server. Fail ''could not write the readiness file'' out files (Some (sv_engine server)))
                (serve_stop w server)
         else if \<not> cl_stdin_control options then None
         else let (printed, server) = control_loop (wo_stdin w) server
         in map_option (\<lambda>server. exits 0 (out @ printed @ ''stopped'' @ line_end) [] files (Some (sv_engine server)))
              (serve_stop w server))"

definition CommandServe :: "Options \<Rightarrow> World \<Rightarrow> Process option" where
  "CommandServe options w =
     (case OpenEngine options w of
        (opened, None) \<Rightarrow> Some (Fail_status opened [] (wo_files w) None)
      | (opened, Some e) \<Rightarrow>
          (case Start (ServerOptions_new\<lparr>vo_bind_address := cl_address options, vo_port := ucast (cl_port options)\<rparr>)
                  e (wo_bound_port w) (wo_kernel w) of
             (Inl started, k) \<Rightarrow> Some (Fail_status started [] (wo_files w) (Some e))
           | (Inr server, k) \<Rightarrow> serve_started options w e server))"

section \<open>The synthetic scenario\<close>

definition IntentDocument_new :: IntentDocument where
  "IntentDocument_new =
     \<lparr>in_intent = StringId [], in_scope = StringId [], in_definition = StringId [], in_generation = Counter 0,
      in_policy_version = Counter 0, in_evidence = Evidence_Unknown, in_complete = True, in_subjects = [],
      in_digest = zero_digest\<rparr>"

definition ObservationSubmission_new :: ObservationSubmission where
  "ObservationSubmission_new =
     \<lparr>su_observation = StringId [], su_scope = StringId [], su_reporter = StringId [], su_generation = Counter 0,
      su_evidence = Evidence_Unknown, su_complete = True, su_authoritative_absence = False, su_subjects = []\<rparr>"

definition declared_mtu :: "SubjectId \<Rightarrow> AttributeKey \<Rightarrow> u64 \<Rightarrow> SubjectIntent" where
  "declared_mtu subject key mtu =
     \<lparr>si_id = subject, si_complete_attributes = True, si_desired = emplace_or_keep key (Value_Unsigned mtu) []\<rparr>"

definition seen_mtu :: "SubjectId \<Rightarrow> AttributeKey \<Rightarrow> u64 \<Rightarrow> SubjectObservation" where
  "seen_mtu subject key mtu =
     \<lparr>so_id = subject, so_complete_attributes = True, so_observed = emplace_or_keep key (Value_Unsigned mtu) []\<rparr>"

record Fixture =
  fx_subject :: string
  fx_desired_mtu :: u64
  fx_observed_mtu :: u64
  fx_present :: bool

definition fixtures :: "Fixture list" where
  "fixtures =
     [\<lparr>fx_subject = ''node/n1/port/eth0'', fx_desired_mtu = 9000, fx_observed_mtu = 9000, fx_present = True\<rparr>,
      \<lparr>fx_subject = ''node/n2/port/eth0'', fx_desired_mtu = 9000, fx_observed_mtu = 1500, fx_present = True\<rparr>,
      \<lparr>fx_subject = ''node/n3/port/eth0'', fx_desired_mtu = 9000, fx_observed_mtu = 0, fx_present = False\<rparr>]"

text \<open>The loop over the fixtures; \<^const>\<open>None\<close> when an identity of the fixture is not valid.\<close>

fun add_fixtures ::
    "Fixture list \<Rightarrow> IntentDocument \<Rightarrow> ObservationSubmission \<Rightarrow> (IntentDocument \<times> ObservationSubmission) option" where
  "add_fixtures [] intent observation = Some (intent, observation)"
| "add_fixtures (f # fs) intent observation =
     (case (TryParseId (fx_subject f), TryParseId ''mtu'') of
        (Some subject, Some key) \<Rightarrow>
          add_fixtures fs
            (intent\<lparr>in_subjects := emplace_or_keep subject (declared_mtu subject key (fx_desired_mtu f)) (in_subjects intent)\<rparr>)
            (if fx_present f
             then observation\<lparr>su_subjects := emplace_or_keep subject (seen_mtu subject key (fx_observed_mtu f))
                    (su_subjects observation)\<rparr>
             else observation)
      | _ \<Rightarrow> None)"

definition add_extra :: "ObservationSubmission \<Rightarrow> ObservationSubmission" where
  "add_extra observation =
     (case (TryParseId ''node/n9/port/eth0'', TryParseId ''mtu'') of
        (Some extra, Some key) \<Rightarrow>
          observation\<lparr>su_subjects := emplace_or_keep extra (seen_mtu extra key 9000) (su_subjects observation)\<rparr>
      | _ \<Rightarrow> observation)"

definition scenario_documents :: "(IntentDocument \<times> ObservationSubmission) option" where
  "scenario_documents =
     (case (TryParseId ''fabric/rack-7'', TryParseId ''intent/rack-7'', TryParseId ''definition/rack-7'',
            TryParseId ''reporter/synthetic-probe'', TryParseId ''observation/rack-7/1'') of
        (Some scope, Some intent_id, Some definition_id, Some observer, Some observation_id) \<Rightarrow>
          (case add_fixtures fixtures
                  (IntentDocument_new\<lparr>in_intent := intent_id, in_scope := scope, in_definition := definition_id,
                     in_generation := Counter 1, in_policy_version := Counter 1, in_evidence := Evidence_Synthetic,
                     in_complete := True\<rparr>)
                  (ObservationSubmission_new\<lparr>su_observation := observation_id, su_scope := scope, su_reporter := observer,
                     su_generation := Counter 1, su_evidence := Evidence_Synthetic, su_complete := True,
                     su_authoritative_absence := True\<rparr>) of
             None \<Rightarrow> None
           | Some (intent, observation) \<Rightarrow> Some (intent, add_extra observation))
      | _ \<Rightarrow> None)"

text \<open>The end of the scenario: the same request must reproduce the same plan identifier.\<close>

definition scenario_replay ::
    "World \<Rightarrow> PlanRequest \<Rightarrow> ReconciliationPlan \<Rightarrow> string \<Rightarrow> (string \<Rightarrow> string option) \<Rightarrow> Engine \<Rightarrow> Process" where
  "scenario_replay w request plan out files e =
     (case engine_Plan (wo_clocks w 3) request e of
        (Inl status, e) \<Rightarrow> Fail_status status out files (Some e)
      | (Inr again, e) \<Rightarrow>
          if pl_plan_id again \<noteq> pl_plan_id plan
          then Fail ''plan identity is not deterministic across identical requests'' out files (Some e)
          else exits 0 (out @ ''scenario deterministic=yes'' @ line_end) [] files (Some e))"

text \<open>The scenario from the plan on, and the whole of it on an opened engine.\<close>

definition scenario_plan :: "Options \<Rightarrow> World \<Rightarrow> PlanRequest \<Rightarrow> Engine \<Rightarrow> Process" where
  "scenario_plan options w request e =
     (case engine_Plan (wo_clocks w 2) request e of
        (Inl status, e) \<Rightarrow> Fail_status status [] (wo_files w) (Some e)
      | (Inr plan, e) \<Rightarrow>
          (let out = c_str (RenderPlanText plan) @ ''scenario plan-id='' @ c_str (pl_plan_id plan) @ line_end;
               (written, files) = (if cl_out options = [] then (0, wo_files w)
                 else WriteFile w (cl_out options) (ToJson (plan_json plan) @ line_end))
           in if written \<noteq> 0 then Fail ''could not write the scenario plan'' out files (Some e)
              else scenario_replay w request plan out files e))"

definition scenario_opened :: "Options \<Rightarrow> World \<Rightarrow> Engine \<Rightarrow> Process" where
  "scenario_opened options w e =
     (case scenario_documents of
        None \<Rightarrow> Fail ''synthetic fixture identities are invalid'' [] (wo_files w) (Some e)
      | Some (intent, observation) \<Rightarrow>
          (let (committed, _, e) = engine_CommitIntent (wo_clocks w 0) intent e
           in if \<not> status_ok committed then Fail_status committed [] (wo_files w) (Some e)
           else let (recorded, _, e) = RecordObservationAt (wo_clocks w 1) observation (cl_now options) e
           in if \<not> status_ok recorded then Fail_status recorded [] (wo_files w) (Some e)
           else scenario_plan options w
             (PlanRequest_new\<lparr>pq_scope := in_scope intent, pq_now_unix_ms := cl_now options, pq_dry_run := True\<rparr>) e))"

definition CommandScenario :: "Options \<Rightarrow> World \<Rightarrow> Process" where
  "CommandScenario options w = with_engine options w (scenario_opened options w)"

definition kVersionString :: string where
  "kVersionString = ''1.0.0''"

definition kProductName :: string where
  "kProductName = ''Fabric Reconciliation''"

definition CommandSelftest :: "Options \<Rightarrow> World \<Rightarrow> Process" where
  "CommandSelftest options w =
     (let digest = Sha256Of (bytes_of_text ''abc'')
      in if ToHex digest \<noteq> ''ba7816bf8f01cfea414140de5dae2223b00361a396177a9cb410ff61f20015ad''
         then Fail ''SHA-256 self test failed'' [] (wo_files w) None
         else if wo_boot w = wo_other_boot w then Fail ''boot identities are not unique'' [] (wo_files w) None
         else exits 0 (''selftest ok version='' @ kVersionString @ line_end) [] (wo_files w) None)"

section \<open>The program\<close>

definition PrintUsage :: string where
  "PrintUsage =
     kProductName @ '' '' @ kVersionString @ line_end @
     concat (map (\<lambda>line. line @ line_end)
       [''usage: fabric-reconciliation <command> [options]'', '''', ''commands:'',
        ''  init      --store DIR [--quiet]'',
        ''  status    --store DIR [--json]'',
        ''  policy    --store DIR [--file POLICY.json]'',
        ''  intent    --store DIR --file INTENT.json'',
        ''  observe   --store DIR --file OBSERVATION.json [--now MS] [--json]'',
        ''  classify  --store DIR --scope SCOPE [--now MS] [--json]'',
        ''  plan      --store DIR --scope SCOPE [--now MS] [--dry-run] [--json] [--out FILE]'',
        ''  explain   --store DIR --scope SCOPE [--now MS]'',
        ''  dispatch  --store DIR --scope SCOPE [--now MS] [--plan-id ID]'',
        ''  complete  --store DIR --attempt N --key HEX --state STATE [--now MS]'',
        ''  verify    --store DIR --file VERIFICATION.json'',
        ''  fence     --store DIR --scope SCOPE --below EPOCH [--subject ID]'',
        ''  attempts  --store DIR [--scope SCOPE] [--json]'',
        ''  outcomes  --store DIR [--scope SCOPE]'',
        ''  serve     --store DIR [--address A] [--port N] [--ready-file F] [--stdin-control]'',
        ''  scenario  --store DIR [--now MS] [--out FILE]'',
        ''  selftest''])"


text \<open>The value of an option: the next argument, or nothing at the end of the arguments.\<close>

definition Next_value :: "string list \<Rightarrow> string \<times> string list" where
  "Next_value args = (case args of [] \<Rightarrow> ([], []) | v # rest \<Rightarrow> (v, rest))"

datatype Parsed = Parsed Options | Version_Wanted | Usage_Wanted | Unknown_Argument string

definition text_option :: "string \<Rightarrow> ((string \<Rightarrow> Options \<Rightarrow> Options) option)" where
  "text_option token =
     (if token = ''--store'' then Some (\<lambda>v. cl_store_update (\<lambda>_. v))
      else if token = ''--scope'' then Some (\<lambda>v. cl_scope_update (\<lambda>_. v))
      else if token = ''--subject'' then Some (\<lambda>v. cl_subject_update (\<lambda>_. v))
      else if token = ''--file'' then Some (\<lambda>v. cl_file_update (\<lambda>_. v))
      else if token = ''--out'' then Some (\<lambda>v. cl_out_update (\<lambda>_. v))
      else if token = ''--address'' then Some (\<lambda>v. cl_address_update (\<lambda>_. v))
      else if token = ''--plan-id'' then Some (\<lambda>v. cl_plan_id_update (\<lambda>_. v))
      else if token = ''--state'' then Some (\<lambda>v. cl_state_update (\<lambda>_. v))
      else if token = ''--key'' then Some (\<lambda>v. cl_key_update (\<lambda>_. v))
      else if token = ''--ready-file'' then Some (\<lambda>v. cl_ready_file_update (\<lambda>_. v))
      else if token = ''--now'' then Some (\<lambda>v. cl_now_update (\<lambda>_. strtoll_prefix v))
      else if token = ''--port'' then Some (\<lambda>v. cl_port_update (\<lambda>_. strtoll_prefix v))
      else if token = ''--attempt'' then Some (\<lambda>v. cl_attempt_update (\<lambda>_. strtoll_prefix v))
      else if token = ''--below'' then Some (\<lambda>v. cl_below_update (\<lambda>_. strtoll_prefix v))
      else None)"

definition flag_option :: "string \<Rightarrow> (Options \<Rightarrow> Options) option" where
  "flag_option token =
     (if token = ''--json'' then Some (cl_json_update (\<lambda>_. True))
      else if token = ''--dry-run'' then Some (cl_dry_run_update (\<lambda>_. True))
      else if token = ''--quiet'' then Some (cl_quiet_update (\<lambda>_. True))
      else if token = ''--stdin-control'' then Some (cl_stdin_control_update (\<lambda>_. True))
      else None)"

lemma length_Next: "length (snd (Next_value args)) \<le> length args"
  by (simp add: Next_value_def split: list.split)

function parse_options :: "string list \<Rightarrow> Options \<Rightarrow> Parsed" where
  "parse_options [] options = Parsed options"
| "parse_options (token # rest) options =
     (case text_option token of
        Some assign \<Rightarrow> parse_options (snd (Next_value rest)) (assign (fst (Next_value rest)) options)
      | None \<Rightarrow>
          (case flag_option token of
             Some set_flag \<Rightarrow> parse_options rest (set_flag options)
           | None \<Rightarrow>
               if token = ''--version'' then Version_Wanted
               else if token \<in> {''--help'', ''-h''} then Usage_Wanted
               else Unknown_Argument token))"
  by pat_completeness auto
termination
  by (relation "measure (\<lambda>(args, options). length args)") (auto simp: le_imp_less_Suc length_Next)

text \<open>The commands but \<open>serve\<close>, by name.\<close>

definition command_named :: "string \<Rightarrow> (Options \<Rightarrow> World \<Rightarrow> Process) option" where
  "command_named name =
     (if name = ''init'' then Some CommandInit
      else if name = ''status'' then Some CommandStatus
      else if name = ''policy'' then Some CommandPolicy
      else if name = ''intent'' then Some CommandIntent
      else if name = ''observe'' then Some CommandObserve
      else if name = ''classify'' then Some CommandClassify
      else if name = ''plan'' then Some (\<lambda>options. CommandPlan options False)
      else if name = ''explain'' then Some (\<lambda>options. CommandPlan options True)
      else if name = ''dispatch'' then Some CommandDispatch
      else if name = ''complete'' then Some CommandComplete
      else if name = ''verify'' then Some CommandVerify
      else if name = ''fence'' then Some CommandFence
      else if name = ''attempts'' then Some CommandAttempts
      else if name = ''outcomes'' then Some CommandOutcomes
      else if name = ''scenario'' then Some CommandScenario
      else if name = ''selftest'' then Some CommandSelftest
      else None)"

definition run_command :: "Options \<Rightarrow> World \<Rightarrow> Process option" where
  "run_command options w =
     (if cl_command options = ''serve'' then CommandServe options w
      else case command_named (cl_command options) of
        Some command \<Rightarrow> Some (command options w)
      | None \<Rightarrow> Some (Fail (''unknown command: '' @ cl_command options) PrintUsage (wo_files w) None))"

text \<open>\<open>main\<close> on the arguments after the program name.\<close>

definition cli_main :: "string list \<Rightarrow> World \<Rightarrow> Process option" where
  "cli_main raw w =
     (let version = exits 0 (kVersionString @ line_end) [] (wo_files w) None;
          usage = (\<lambda>code. exits code PrintUsage [] (wo_files w) None)
      in case raw of
        [] \<Rightarrow> Some (usage 2)
      | command # args \<Rightarrow>
          if command = ''--version'' then Some version
          else if command \<in> {''--help'', ''-h''} then Some (usage 0)
          else case parse_options args (Options_new\<lparr>cl_command := command\<rparr>) of
            Version_Wanted \<Rightarrow> Some version
          | Usage_Wanted \<Rightarrow> Some (usage 0)
          | Unknown_Argument token \<Rightarrow> Some (Fail (''unknown argument: '' @ token) [] (wo_files w) None)
          | Parsed options \<Rightarrow> run_command options w)"

end
