(* ===== verification/Worker.thy ===== *)
theory Worker
  imports Cli
begin

text \<open>
  The multiprocess proof worker, \<open>tools/fabric_reconcile_worker.cpp\<close>: a process that opens a store, runs one
  mode and may terminate itself at a named durable boundary. The exit codes 69 to 73 are the terminations.
\<close>

section \<open>Arguments\<close>

record Arguments =
  ar_store :: string
  ar_mode :: string
  ar_scope :: string
  ar_kill_at :: string
  ar_subjects :: i64
  ar_seed :: i64
  ar_now :: i64
  ar_verbose :: bool

definition Arguments_new :: Arguments where
  "Arguments_new =
     \<lparr>ar_store = [], ar_mode = [], ar_scope = ''fabric/rack-7'', ar_kill_at = [], ar_subjects = 8, ar_seed = 1,
      ar_now = 1000, ar_verbose = False\<rparr>"

definition Die :: "string \<Rightarrow> int \<Rightarrow> string \<Rightarrow> World \<Rightarrow> Engine option \<Rightarrow> Process" where
  "Die message code out w engine = exits code out [Error_Text (message @ line_end)] (wo_files w) engine"

text \<open>A termination without unwinding: what was printed is flushed, nothing else happens.\<close>

definition HardExit :: "int \<Rightarrow> string \<Rightarrow> World \<Rightarrow> Engine \<Rightarrow> Process" where
  "HardExit code out w engine = exits code out [] (wo_files w) (Some engine)"

definition worker_fail :: "string \<Rightarrow> Status \<Rightarrow> int \<Rightarrow> string \<Rightarrow> World \<Rightarrow> Engine option \<Rightarrow> Process" where
  "worker_fail what status code out w engine = exits code out [Error_Status what status] (wo_files w) engine"

definition argument_option :: "string \<Rightarrow> ((string \<Rightarrow> Arguments \<Rightarrow> Arguments) option)" where
  "argument_option token =
     (if token = ''--store'' then Some (\<lambda>v. ar_store_update (\<lambda>_. v))
      else if token = ''--mode'' then Some (\<lambda>v. ar_mode_update (\<lambda>_. v))
      else if token = ''--scope'' then Some (\<lambda>v. ar_scope_update (\<lambda>_. v))
      else if token = ''--kill-at'' then Some (\<lambda>v. ar_kill_at_update (\<lambda>_. v))
      else if token = ''--subjects'' then Some (\<lambda>v. ar_subjects_update (\<lambda>_. strtoll_prefix v))
      else if token = ''--seed'' then Some (\<lambda>v. ar_seed_update (\<lambda>_. strtoll_prefix v))
      else if token = ''--now'' then Some (\<lambda>v. ar_now_update (\<lambda>_. strtoll_prefix v))
      else None)"

text \<open>The argument loop; \<^const>\<open>Inl\<close> is the message it dies with.\<close>

fun parse_arguments :: "string list \<Rightarrow> Arguments \<Rightarrow> string + Arguments" where
  "parse_arguments [] arguments = Inr arguments"
| "parse_arguments [token] arguments =
     (if argument_option token \<noteq> None then Inl ''missing value for argument''
      else if token = ''--verbose'' then Inr (arguments\<lparr>ar_verbose := True\<rparr>)
      else Inl ''unknown argument'')"
| "parse_arguments (token # v # rest) arguments =
     (case argument_option token of
        Some assign \<Rightarrow> parse_arguments rest (assign v arguments)
      | None \<Rightarrow>
          if token = ''--verbose'' then parse_arguments (v # rest) (arguments\<lparr>ar_verbose := True\<rparr>)
          else Inl ''unknown argument'')"

section \<open>The documents it publishes\<close>

definition build_subject :: "nat \<Rightarrow> string" where
  "build_subject index = ''node/n'' @ decimal index @ ''/port/eth0''"

definition subject_indices :: "Arguments \<Rightarrow> nat list" where
  "subject_indices arguments = [0 ..< nat (sint (ar_subjects arguments))]"

text \<open>\<open>*AttributeKey::TryParse("mtu")\<close>\<close>

definition mtu_key :: AttributeKey where
  "mtu_key = StringId ''mtu''"

definition worker_mtu :: "nat \<Rightarrow> u64" where
  "worker_mtu index = (if index mod 3 = 0 then 1500 else 9000)"

text \<open>The loops over the subjects; \<^const>\<open>None\<close> when a subject identity is not valid.\<close>

fun declare_subjects :: "nat list \<Rightarrow> IntentDocument \<Rightarrow> IntentDocument option" where
  "declare_subjects [] document = Some document"
| "declare_subjects (i # is) document =
     (case TryParseId (build_subject i) of
        None \<Rightarrow> None
      | Some subject \<Rightarrow>
          declare_subjects is
            (document\<lparr>in_subjects := emplace_or_keep subject (declared_mtu subject mtu_key 9000) (in_subjects document)\<rparr>))"

fun observe_subjects :: "nat list \<Rightarrow> ObservationSubmission \<Rightarrow> ObservationSubmission option" where
  "observe_subjects [] submission = Some submission"
| "observe_subjects (i # is) submission =
     (case TryParseId (build_subject i) of
        None \<Rightarrow> None
      | Some subject \<Rightarrow>
          observe_subjects is
            (submission\<lparr>su_subjects := emplace_or_keep subject (seen_mtu subject mtu_key (worker_mtu i))
               (su_subjects submission)\<rparr>))"

definition worker_intent :: "IntentId \<Rightarrow> DefinitionId \<Rightarrow> ScopeId \<Rightarrow> IntentDocument" where
  "worker_intent intent_id definition_id scope =
     IntentDocument_new\<lparr>in_intent := intent_id, in_scope := scope, in_definition := definition_id,
       in_generation := Counter 1, in_policy_version := Counter 1, in_evidence := Evidence_Synthetic,
       in_complete := True\<rparr>"

definition worker_submission :: "ObservationId \<Rightarrow> ReporterId \<Rightarrow> ScopeId \<Rightarrow> ObservationSubmission" where
  "worker_submission observation_id reporter scope =
     ObservationSubmission_new\<lparr>su_observation := observation_id, su_scope := scope, su_reporter := reporter,
       su_evidence := Evidence_Synthetic, su_complete := True, su_authoritative_absence := True\<rparr>"

section \<open>Modes\<close>

definition mode_seed :: "Arguments \<Rightarrow> World \<Rightarrow> ScopeId \<Rightarrow> Engine \<Rightarrow> Process" where
  "mode_seed arguments w scope e =
     (case (TryParseId ''intent/worker-seed'', TryParseId ''definition/worker'') of
        (Some intent_id, Some definition_id) \<Rightarrow>
          (case declare_subjects (subject_indices arguments) (worker_intent intent_id definition_id scope) of
             None \<Rightarrow> Die ''invalid subject'' 2 [] w (Some e)
           | Some document \<Rightarrow>
               (let (status, result, e) = engine_CommitIntent (wo_clocks w 0) document e
                in if \<not> status_ok status then worker_fail ''commit intent failed: '' status 4 [] w (Some e)
                   else exits 0 (''seeded subjects='' @ to_string_i64 (ar_subjects arguments) @ '' digest='' @
                          ToHex (ic_digest (lookup_or IntentCommitResult_new result)) @ line_end)
                     [] (wo_files w) (Some e)))
      | _ \<Rightarrow> Die ''invalid identity'' 2 [] w (Some e))"

definition mode_observe :: "Arguments \<Rightarrow> World \<Rightarrow> ScopeId \<Rightarrow> Engine \<Rightarrow> Process" where
  "mode_observe arguments w scope e =
     (case (TryParseId ''observation/worker/1'', TryParseId ''reporter/worker'') of
        (Some observation_id, Some reporter) \<Rightarrow>
          (case observe_subjects (subject_indices arguments) (worker_submission observation_id reporter scope) of
             None \<Rightarrow> Die ''invalid subject'' 2 [] w (Some e)
           | Some submission \<Rightarrow>
               (let (status, result, e) = RecordObservationAt (wo_clocks w 0) submission (ar_now arguments) e
                in if \<not> status_ok status then worker_fail ''record observation failed: '' status 5 [] w (Some e)
                   else exits 0 (''observed subjects='' @ to_string_i64 (ar_subjects arguments) @ '' epoch='' @
                          to_string_u64 (cval (en_live_epoch e)) @ line_end) [] (wo_files w) (Some e)))
      | _ \<Rightarrow> Die ''invalid identity'' 2 [] w (Some e))"

text \<open>
  The part \<open>reconcile\<close> and \<open>scenario\<close> have in common, from the dispatch on, given the plan and what was printed:
  the dispatch, the boundaries around the completion of the first action, and the completion. \<open>failed\<close> is the
  error line of a failed completion.
\<close>

definition completion_of :: "Arguments \<Rightarrow> ActionIntent \<Rightarrow> Engine \<Rightarrow> CompletionRequest" where
  "completion_of arguments action e =
     CompletionRequest_new\<lparr>cq_attempt := ai_attempt action, cq_epoch := en_live_epoch e, cq_boot := en_live_boot e,
       cq_idempotency_key := ai_idempotency_key action, cq_target := Attempt_Applied,
       cq_at_unix_ms := ar_now arguments + 10\<rparr>"

definition worker_complete ::
    "(Status \<Rightarrow> error_line) \<Rightarrow> Arguments \<Rightarrow> World \<Rightarrow> nat \<Rightarrow> string \<Rightarrow> ActionIntent \<Rightarrow> Engine \<Rightarrow> Process" where
  "worker_complete failed arguments w n out action e =
     (if ar_kill_at arguments = ''after_dispatch_before_ack'' then HardExit 71 out w e
      else if ar_kill_at arguments = ''before_completion_commit'' then HardExit 72 out w e
      else let (completed, outcome, e) = Complete (wo_clocks w n) (completion_of arguments action e) e
      in if \<not> status_ok completed then exits 8 out [failed completed] (wo_files w) (Some e)
         else let out = out @ ''applied attempt='' @
                    to_string_u64 (cval (oc_attempt (lookup_or ReconciliationOutcome_new outcome))) @ line_end
         in if ar_kill_at arguments = ''after_apply_before_verify'' then HardExit 73 out w e
            else exits 0 out [] (wo_files w) (Some e))"

definition worker_dispatch ::
    "(Status \<Rightarrow> error_line) \<Rightarrow> Arguments \<Rightarrow> World \<Rightarrow> nat \<Rightarrow> string \<Rightarrow> ReconciliationPlan \<Rightarrow> Engine \<Rightarrow> Process" where
  "worker_dispatch failed arguments w n out plan e =
     (if ar_kill_at arguments = ''before_dispatch'' then HardExit 70 out w e
      else case Dispatch (wo_clocks w n) plan e of
        (Inl status, e) \<Rightarrow> worker_fail ''dispatch failed: '' status 7 out w (Some e)
      | (Inr issued, e) \<Rightarrow>
          (let out = out @ ''dispatched='' @ decimal (length (dp_intents issued)) @ line_end
           in case dp_intents issued of
             [] \<Rightarrow> exits 0 out [] (wo_files w) (Some e)
           | action # _ \<Rightarrow> worker_complete failed arguments w (n + 1) out action e))"

definition plan_line :: "ReconciliationPlan \<Rightarrow> string" where
  "plan_line plan =
     ''plan id='' @ c_str (pl_plan_id plan) @ '' verdict='' @ ConvergenceVerdict_text (pl_verdict plan) @
     '' actions='' @ decimal (MutationCount plan) @ line_end"

definition mode_reconcile :: "Arguments \<Rightarrow> World \<Rightarrow> ScopeId \<Rightarrow> Engine \<Rightarrow> Process" where
  "mode_reconcile arguments w scope e =
     (case engine_Plan (wo_clocks w 0) (PlanRequest_new\<lparr>pq_scope := scope, pq_now_unix_ms := ar_now arguments\<rparr>) e of
        (Inl status, e) \<Rightarrow> worker_fail ''plan failed: '' status 6 [] w (Some e)
      | (Inr plan, e) \<Rightarrow> worker_dispatch (Error_Status ''complete failed: '') arguments w 1 (plan_line plan) plan e)"

text \<open>The next generation of the worker's reporter: one above the highest one retained.\<close>

definition next_generation :: "ReporterId \<Rightarrow> ScopeId \<Rightarrow> Engine \<Rightarrow> ObservationGeneration" where
  "next_generation reporter scope e =
     fold (\<lambda>d generation.
         if ob_reporter d \<noteq> reporter then generation
         else let nxt = Counter (cval (ob_generation d) + 1) in if generation < nxt then nxt else generation)
       (ObservationEvidence scope e) (Counter 1)"

text \<open>From the plan on, the scenario is a reconciliation with one more boundary.\<close>

definition scenario_planned :: "Arguments \<Rightarrow> World \<Rightarrow> ScopeId \<Rightarrow> Engine \<Rightarrow> Process" where
  "scenario_planned arguments w scope e =
     (case engine_Plan (wo_clocks w 2) (PlanRequest_new\<lparr>pq_scope := scope, pq_now_unix_ms := ar_now arguments\<rparr>) e of
        (Inl status, e) \<Rightarrow> worker_fail ''plan failed: '' status 6 [] w (Some e)
      | (Inr plan, e) \<Rightarrow>
          if ar_kill_at arguments = ''before_plan'' then HardExit 69 (plan_line plan) w e
          else worker_dispatch (\<lambda>_. Error_Text (''scenario completion failed'' @ line_end)) arguments w 3
                 (plan_line plan) plan e)"

definition mode_scenario :: "Arguments \<Rightarrow> World \<Rightarrow> ScopeId \<Rightarrow> Engine \<Rightarrow> Process" where
  "mode_scenario arguments w scope e =
     (case (TryParseId ''intent/worker-scenario'', TryParseId ''definition/worker'', TryParseId ''reporter/worker'',
            TryParseId ''observation/worker/scenario'') of
        (Some intent_id, Some definition_id, Some reporter, Some observation_id) \<Rightarrow>
          (case (declare_subjects (subject_indices arguments) (worker_intent intent_id definition_id scope),
                 observe_subjects (subject_indices arguments) (worker_submission observation_id reporter scope)) of
             (Some document, Some submission) \<Rightarrow>
               (let (committed, _, e) = engine_CommitIntent (wo_clocks w 0) document e
                in if \<not> status_ok committed then Die ''scenario intent commit failed'' 4 [] w (Some e)
                else let submission = submission\<lparr>su_generation := next_generation reporter scope e\<rparr>;
                         (recorded, _, e) = RecordObservationAt (wo_clocks w 1) submission (ar_now arguments) e
                in if \<not> status_ok recorded then Die ''scenario observation failed'' 5 [] w (Some e)
                else scenario_planned arguments w scope e)
           | _ \<Rightarrow> Die ''invalid subject'' 2 [] w (Some e))
      | _ \<Rightarrow> Die ''invalid identity'' 2 [] w (Some e))"

definition outcome_line :: "ReconciliationOutcome \<Rightarrow> string" where
  "outcome_line x =
     ''outcome attempt='' @ to_string_u64 (cval (oc_attempt x)) @ '' state='' @ AttemptState_text (oc_terminal_state x) @
     '' verified='' @ yes_no (oc_verified x) @ '' ambiguous='' @ yes_no (oc_ambiguous x) @ line_end"

definition mode_report :: "World \<Rightarrow> ScopeId \<Rightarrow> Engine \<Rightarrow> Process" where
  "mode_report w scope e =
     exits 0 (c_str (RenderBootReportText (en_boot_report e)) @
       concat (map (\<lambda>a. c_str (RenderAttemptText a)) (Attempts scope e)) @
       concat (map outcome_line (Outcomes scope e))) [] (wo_files w) (Some e)"

definition mode_compact :: "World \<Rightarrow> Engine \<Rightarrow> Process" where
  "mode_compact w e =
     (let (status, e) = engine_Compact (wo_clocks w 0) e
      in if \<not> status_ok status then worker_fail ''compact failed: '' status 9 [] w (Some e)
         else exits 0 (''compacted'' @ line_end) [] (wo_files w) (Some e))"

section \<open>The program\<close>

definition worker_run :: "Arguments \<Rightarrow> World \<Rightarrow> Process" where
  "worker_run arguments w =
     (case open_store w (ar_store arguments) of
        (opened, None) \<Rightarrow> worker_fail ''open failed: '' opened 3 [] w None
      | (opened, Some e) \<Rightarrow>
          (case TryParseId (ar_scope arguments) of
             None \<Rightarrow> Die ''invalid scope'' 2 [] w (Some e)
           | Some scope \<Rightarrow>
               if ar_mode arguments = ''seed'' then mode_seed arguments w scope e
               else if ar_mode arguments = ''observe'' then mode_observe arguments w scope e
               else if ar_mode arguments = ''reconcile'' then mode_reconcile arguments w scope e
               else if ar_mode arguments = ''scenario'' then mode_scenario arguments w scope e
               else if ar_mode arguments = ''report'' then mode_report w scope e
               else if ar_mode arguments = ''compact'' then mode_compact w e
               else Die ''unknown mode'' 2 [] w (Some e)))"

definition worker_main :: "string list \<Rightarrow> World \<Rightarrow> Process" where
  "worker_main raw w =
     (case parse_arguments raw Arguments_new of
        Inl message \<Rightarrow> Die message 2 [] w None
      | Inr arguments \<Rightarrow>
          if ar_store arguments = [] \<or> ar_mode arguments = []
          then Die ''--store and --mode are required'' 2 [] w None
          else worker_run arguments w)"

end
