(* ===== verification/Tool_Documents.thy ===== *)
theory Tool_Documents
  imports Worker Document_Json_Laws
begin

text \<open>
  The documents the tools pass to the engine are well typed: those parsed from files, and those the scenario of
  the command line tool and the worker build themselves.
\<close>

section \<open>Parsed documents\<close>

definition keyed :: "('k string_id \<Rightarrow> 'v \<Rightarrow> bool) \<Rightarrow> ('k string_id, 'v) omap \<Rightarrow> bool" where
  "keyed P m \<longleftrightarrow> wf_map m \<and> (\<forall>(k, v) \<in> set m. valid_id k \<and> P k v)"

lemma keyed_Nil [simp]: "keyed P []" by (simp add: keyed_def)

lemma keyed_emplace: "map_emplace k v m = Some m' \<Longrightarrow> keyed P m \<Longrightarrow> valid_id k \<Longrightarrow> P k v \<Longrightarrow>
    keyed P m' \<and> length m' = Suc (length m)"
  using set_map_set [of k v m]
  by (auto simp: keyed_def map_emplace_def wf_map_set map_set_fresh_length split: if_splits)

lemma keyed_emplace_or_keep: "keyed P m \<Longrightarrow> valid_id k \<Longrightarrow> P k v \<Longrightarrow>
    keyed P (emplace_or_keep k v m) \<and> length (emplace_or_keep k v m) \<le> Suc (length m)"
  by (auto simp: emplace_or_keep_def dest: keyed_emplace split: option.split)

lemma ParseAttributes_keyed:
  "ParseAttributes ms st = Inr st' \<Longrightarrow> keyed (\<lambda>_ _. True) st \<Longrightarrow>
   keyed (\<lambda>_ _. True) st' \<and> length st' \<le> length st + length ms"
proof (induction ms st rule: ParseAttributes.induct)
  case (2 m ms st)
  then show ?case
    by (fastforce simp: next_step_Inr split: option.splits dest: keyed_emplace [where P = "\<lambda>_ _. True"])
qed simp

lemma state_keyed: "keyed (\<lambda>_ _. True) st \<Longrightarrow> length st < 2 ^ 32 \<Longrightarrow> state_typed st"
  by (auto simp: keyed_def state_typed_def wf_id_def)

lemma ParseState_typed:
  assumes "ParseState default_limits node = Inr st"
  shows "state_typed st"
proof (cases node)
  case (JObject ms)
  then show ?thesis
    using assms ParseAttributes_keyed [of ms "[]" st]
    by (auto simp: ParseState_def default_limits_def split: if_splits intro!: state_keyed)
qed (use assms in \<open>simp_all add: ParseState_def state_typed_def split: if_splits\<close>)

lemma state_typed_Nil [simp]: "state_typed []" by (simp add: state_typed_def)

lemma ParseSubject_typed: "ParseSubject default_limits node = Inr (complete, st) \<Longrightarrow> state_typed st"
  by (auto simp: ParseSubject_def next_step_Inr split: if_splits option.splits dest: ParseState_typed)

lemma ParseSubjectList_keyed:
  assumes "\<And>s b st. state_typed st \<Longrightarrow> P s (mk s b st)"
  shows "ParseSubjectList default_limits mk ms m = Inr m' \<Longrightarrow> keyed P m \<Longrightarrow>
    keyed P m' \<and> length m' \<le> length m + length ms"
proof (induction ms arbitrary: m)
  case (Cons x ms)
  then obtain subject complete st m1 where
      "TryParseId (fst x) = Some subject" "ParseSubject default_limits (snd x) = Inr (complete, st)"
      "map_emplace subject (mk subject complete st) m = Some m1" "ParseSubjectList default_limits mk ms m1 = Inr m'"
    by (auto simp: next_step_Inr split: option.splits)
  then show ?case
    using keyed_emplace [of subject _ m m1 P] Cons.IH [of m1] Cons.prems(2) assms ParseSubject_typed by fastforce
qed simp

lemma ParseSubjects_keyed:
  assumes "ParseSubjects default_limits mk root = Inr m" "\<And>s b st. state_typed st \<Longrightarrow> P s (mk s b st)"
  shows "keyed P m" "length m < 2 ^ 32"
proof -
  have "keyed P m \<and> length m < 2 ^ 32"
  proof (cases "Find ''subjects'' root")
    case None
    then show ?thesis using assms(1) by (simp add: ParseSubjects_def)
  next
    case (Some node)
    then obtain ms where ms: "node = JObject ms"
      using assms(1) by (cases node) (simp_all add: ParseSubjects_def)
    have run: "ParseSubjectList default_limits mk ms [] = Inr m" "length ms \<le> max_subjects_per_document default_limits"
      using assms(1) Some ms by (auto simp: ParseSubjects_def split: if_splits)
    then show ?thesis
      using ParseSubjectList_keyed [of P mk ms "[]" m] assms(2) by (simp add: default_limits_def)
  qed
  then show "keyed P m" "length m < 2 ^ 32" by auto
qed

abbreviation declared_ok :: "SubjectId \<Rightarrow> SubjectIntent \<Rightarrow> bool" where
  "declared_ok k e \<equiv> si_id e = k \<and> state_typed (si_desired e)"

abbreviation seen_ok :: "SubjectId \<Rightarrow> SubjectObservation \<Rightarrow> bool" where
  "seen_ok k e \<equiv> so_id e = k \<and> state_typed (so_observed e)"

lemma keyed_intent_typed:
  "keyed declared_ok (in_subjects d) \<Longrightarrow> length (in_subjects d) < 2 ^ 32 \<Longrightarrow> valid_id (in_intent d) \<Longrightarrow>
   valid_id (in_scope d) \<Longrightarrow> valid_id (in_definition d) \<Longrightarrow> intent_typed d"
  by (auto simp: keyed_def intent_typed_def wf_id_def)

lemma keyed_submission_typed:
  "keyed seen_ok (su_subjects d) \<Longrightarrow> length (su_subjects d) < 2 ^ 32 \<Longrightarrow> valid_id (su_observation d) \<Longrightarrow>
   valid_id (su_scope d) \<Longrightarrow> valid_id (su_reporter d) \<Longrightarrow> submission_typed d"
  by (auto simp: keyed_def submission_typed_def wf_id_def)

lemma parsed_option: "(case x of None \<Rightarrow> Inl r | Some y \<Rightarrow> f y) = Inr d \<longleftrightarrow> (\<exists>y. x = Some y \<and> f y = Inr d)"
  by (cases x) simp_all

lemma parsed_valid: "TryParseId t = Some i \<Longrightarrow> valid_id i" by blast

lemma ParseJson_intent_typed:
  assumes "ParseJson_intent content default_limits = Inr d"
  shows "intent_typed d"
proof -
  obtain root subjects where
    "ParseSubjects default_limits mk_intent root = Inr subjects" and d: "in_subjects d = subjects"
    "valid_id (in_intent d)" "valid_id (in_scope d)" "valid_id (in_definition d)"
    using assms unfolding ParseJson_intent_def
    by (auto simp: next_step_Inr parsed_option check_valid_def Let_def split: if_splits dest!: parsed_valid)
  then show ?thesis
    using ParseSubjects_keyed [of mk_intent root subjects declared_ok] by (intro keyed_intent_typed) (simp_all add: mk_intent_def)
qed

lemma ParseJson_submission_typed:
  assumes "ParseJson_submission content default_limits = Inr d"
  shows "submission_typed d"
proof -
  obtain root subjects where
    "ParseSubjects default_limits mk_observation root = Inr subjects" and d: "su_subjects d = subjects"
    "valid_id (su_observation d)" "valid_id (su_scope d)" "valid_id (su_reporter d)"
    using assms unfolding ParseJson_submission_def
    by (auto simp: next_step_Inr parsed_option check_valid_def Let_def split: if_splits dest!: parsed_valid)
  then show ?thesis
    using ParseSubjects_keyed [of mk_observation root subjects seen_ok]
    by (intro keyed_submission_typed) (simp_all add: mk_observation_def)
qed

lemma ParseKeys_valid: "ParseKeys vs keys = Inr keys' \<Longrightarrow> list_all valid_id keys \<Longrightarrow> list_all valid_id keys'"
  by (induction vs keys rule: ParseKeys.induct) (auto split: if_splits option.splits)

lemma ParseKeyList_valid: "ParseKeyList field target root = Inr keys \<Longrightarrow> list_all valid_id target \<Longrightarrow> list_all valid_id keys"
  by (auto simp: ParseKeyList_def split: option.splits if_splits dest: ParseKeys_valid)

lemma canonical_policy_typed:
  assumes "CanonicalisePolicy default_limits p = (s, q)" "status_ok s" "valid_id (po_id p)"
    "list_all valid_id (unmanaged_attributes p)" "list_all valid_id (observe_only_attributes p)"
  shows "policy_typed q"
proof -
  have "canonical_policy default_limits q" by (rule CanonicalisePolicy_canonical [OF assms(1,2)])
  moreover have "policy_list_bound default_limits < 2 ^ 32" by (simp add: policy_list_bound_def default_limits_def)
  moreover have "po_id q = po_id p" "set (unmanaged_attributes q) = set (unmanaged_attributes p)"
    "set (observe_only_attributes q) = set (observe_only_attributes p)"
    using assms(1,2) by (auto simp: CanonicalisePolicy_def Let_def split: if_splits)
  ultimately show ?thesis
    using assms(3-5) by (auto simp: policy_typed_def canonical_policy_def wf_id_def list_all_iff)
qed

lemma DefaultPolicy_parts:
  "po_id DefaultPolicy = StringId ''default/fail-closed''" "valid_id (po_id DefaultPolicy)"
  "unmanaged_attributes DefaultPolicy = []" "observe_only_attributes DefaultPolicy = []"
proof -
  have "TryParseId ''default/fail-closed'' = Some (StringId ''default/fail-closed'' :: PolicyId)"
    by (simp add: TryParseId_def) code_simp
  then show "po_id DefaultPolicy = StringId ''default/fail-closed''" "valid_id (po_id DefaultPolicy)"
    "unmanaged_attributes DefaultPolicy = []" "observe_only_attributes DefaultPolicy = []"
    by (auto simp: DefaultPolicy_def)
qed

lemma DefaultPolicy_typed: "policy_typed DefaultPolicy"
  using DefaultPolicy_parts by (simp add: policy_typed_def wf_id_def)

lemma checked_pair: "(case x of (c, p) \<Rightarrow> check_valid c p) = Inr q \<longleftrightarrow> (\<exists>s. x = (s, q) \<and> status_ok s)"
  by (cases x) (auto simp: check_valid_def)

lemma ParseJson_policy_typed:
  assumes "ParseJson_policy content default_limits = Inr q"
  shows "policy_typed q"
proof -
  obtain root id_text pid us os v fr m1 m2 m3 m4 m5 s where
    keys: "ParseKeyList ''unmanaged_attributes'' (unmanaged_attributes DefaultPolicy) root = Inr us"
      "ParseKeyList ''observe_only_attributes'' (observe_only_attributes DefaultPolicy) root = Inr os"
    and pid: "(if id_text = [] then Inr (po_id DefaultPolicy)
        else case TryParseId id_text of None \<Rightarrow> Inl (document_Reject ''invalid policy identity'') | Some i \<Rightarrow> Inr i) = Inr pid"
    and c: "CanonicalisePolicy default_limits \<lparr>po_id = pid, po_version = v, po_freshness = fr, permit_apply_missing = m1,
        permit_apply_mismatched = m2, permit_withdraw_unexpected = m3,
        require_complete_coverage_for_convergence_proof = m4, require_independent_verification = m5,
        unmanaged_attributes = us, observe_only_attributes = os\<rparr> = (s, q)" "status_ok s"
    using assms unfolding ParseJson_policy_def Let_def next_step_Inr checked_pair by (elim exE conjE) blast
  have "valid_id pid" using pid DefaultPolicy_parts(2) by (auto split: if_splits option.splits)
  then show ?thesis
    using keys DefaultPolicy_parts(3,4) by (intro canonical_policy_typed [OF c]) (auto dest: ParseKeyList_valid)
qed


section \<open>Documents the tools build\<close>

lemma mtu_state_typed: "valid_id key \<Longrightarrow> state_typed (emplace_or_keep key v [])"
  by (simp add: emplace_or_keep_def map_emplace_def state_typed_def wf_id_def)

lemma declared_mtu_ok: "valid_id key \<Longrightarrow> declared_ok subject (declared_mtu subject key mtu)"
  by (simp add: declared_mtu_def mtu_state_typed)

lemma seen_mtu_ok: "valid_id key \<Longrightarrow> seen_ok subject (seen_mtu subject key mtu)"
  by (simp add: seen_mtu_def mtu_state_typed)

text \<open>What the loops keep of a document under construction.\<close>

definition intent_grows :: "nat \<Rightarrow> IntentDocument \<Rightarrow> IntentDocument \<Rightarrow> bool" where
  "intent_grows n i i' \<longleftrightarrow> keyed declared_ok (in_subjects i') \<and> length (in_subjects i') \<le> length (in_subjects i) + n \<and>
     in_intent i' = in_intent i \<and> in_scope i' = in_scope i \<and> in_definition i' = in_definition i"

definition submission_grows :: "nat \<Rightarrow> ObservationSubmission \<Rightarrow> ObservationSubmission \<Rightarrow> bool" where
  "submission_grows n x x' \<longleftrightarrow> keyed seen_ok (su_subjects x') \<and> length (su_subjects x') \<le> length (su_subjects x) + n \<and>
     su_observation x' = su_observation x \<and> su_scope x' = su_scope x \<and> su_reporter x' = su_reporter x"

lemma intent_grows_emplace:
  assumes "keyed declared_ok (in_subjects i)" "valid_id subject" "valid_id key"
    "intent_grows n (i\<lparr>in_subjects := emplace_or_keep subject (declared_mtu subject key mtu) (in_subjects i)\<rparr>) i'"
  shows "intent_grows (Suc n) i i'"
  using assms keyed_emplace_or_keep [OF assms(1,2) declared_mtu_ok [OF assms(3), where mtu = mtu]] by (auto simp: intent_grows_def)

lemma submission_grows_emplace:
  assumes "keyed seen_ok (su_subjects x)" "valid_id subject" "valid_id key"
    "submission_grows n (x\<lparr>su_subjects := emplace_or_keep subject (seen_mtu subject key mtu) (su_subjects x)\<rparr>) x'"
  shows "submission_grows (Suc n) x x'"
  using assms keyed_emplace_or_keep [OF assms(1,2) seen_mtu_ok [OF assms(3), where mtu = mtu]] by (auto simp: submission_grows_def)

lemma grows_Suc: "intent_grows n i i' \<Longrightarrow> intent_grows (Suc n) i i'"
  "submission_grows n x x' \<Longrightarrow> submission_grows (Suc n) x x'"
  by (auto simp: intent_grows_def submission_grows_def)

lemma keyed_subjects_emplace:
  "keyed declared_ok m \<Longrightarrow> valid_id subject \<Longrightarrow> valid_id key \<Longrightarrow>
   keyed declared_ok (emplace_or_keep subject (declared_mtu subject key mtu) m)"
  "keyed seen_ok n \<Longrightarrow> valid_id subject \<Longrightarrow> valid_id key \<Longrightarrow>
   keyed seen_ok (emplace_or_keep subject (seen_mtu subject key mtu) n)"
  using keyed_emplace_or_keep [of declared_ok m subject] keyed_emplace_or_keep [of seen_ok n subject]
    declared_mtu_ok seen_mtu_ok by blast+

lemma add_fixtures_grows:
  "add_fixtures fs i x = Some (i', x') \<Longrightarrow> keyed declared_ok (in_subjects i) \<Longrightarrow> keyed seen_ok (su_subjects x) \<Longrightarrow>
   intent_grows (length fs) i i' \<and> submission_grows (length fs) x x'"
proof (induction fs arbitrary: i x)
  case Nil
  then show ?case by (simp add: intent_grows_def submission_grows_def)
next
  case (Cons f fs)
  obtain subject :: SubjectId and key :: AttributeKey
    where ids: "TryParseId (fx_subject f) = Some subject" "TryParseId ''mtu'' = Some key"
    using Cons.prems(1) by (auto split: option.splits)
  then have valid: "valid_id subject" "valid_id key" by blast+
  let ?i = "i\<lparr>in_subjects := emplace_or_keep subject (declared_mtu subject key (fx_desired_mtu f)) (in_subjects i)\<rparr>"
  let ?x = "x\<lparr>su_subjects := emplace_or_keep subject (seen_mtu subject key (fx_observed_mtu f)) (su_subjects x)\<rparr>"
  have run: "add_fixtures fs ?i (if fx_present f then ?x else x) = Some (i', x')" using Cons.prems(1) ids by simp
  have keyed: "keyed declared_ok (in_subjects ?i)" "keyed seen_ok (su_subjects ?x)"
    using keyed_subjects_emplace [OF _ valid] Cons.prems(2,3) by simp_all
  have "intent_grows (length fs) ?i i' \<and> submission_grows (length fs) (if fx_present f then ?x else x) x'"
    using Cons.IH [OF run] keyed Cons.prems(3) by (simp split: if_splits)
  then show ?case
    using intent_grows_emplace [OF Cons.prems(2) valid] submission_grows_emplace [OF Cons.prems(3) valid] grows_Suc(2)
    by (fastforce split: if_splits)
qed

lemma add_extra_grows:
  assumes "submission_grows n x0 x"
  shows "submission_grows (Suc n) x0 (add_extra x)"
proof (cases "\<exists>(extra :: SubjectId) (key :: AttributeKey). TryParseId ''node/n9/port/eth0'' = Some extra \<and> TryParseId ''mtu'' = Some key")
  case True
  then obtain extra :: SubjectId and key :: AttributeKey
    where ids: "TryParseId ''node/n9/port/eth0'' = Some extra" "TryParseId ''mtu'' = Some key" by blast
  have "keyed seen_ok (su_subjects x)" using assms by (simp add: submission_grows_def)
  from keyed_emplace_or_keep [OF this parsed_valid [OF ids(1)] seen_mtu_ok [OF parsed_valid [OF ids(2)], where mtu = 9000]]
  show ?thesis using assms ids by (simp add: add_extra_def submission_grows_def)
next
  case False
  then have "add_extra x = x" by (auto simp: add_extra_def split: option.splits)
  then show ?thesis using grows_Suc(2) [OF assms] by simp
qed

lemma scenario_documents_typed:
  assumes "scenario_documents = Some (i, x)"
  shows "intent_typed i" "submission_typed x" "in_scope i = su_scope x"
proof -
  obtain scope :: ScopeId and intent_id :: IntentId and definition_id :: DefinitionId and observer :: ReporterId
    and observation_id :: ObservationId
    where ids: "TryParseId ''fabric/rack-7'' = Some scope" "TryParseId ''intent/rack-7'' = Some intent_id"
      "TryParseId ''definition/rack-7'' = Some definition_id" "TryParseId ''reporter/synthetic-probe'' = Some observer"
      "TryParseId ''observation/rack-7/1'' = Some observation_id"
    using assms unfolding scenario_documents_def by (auto split: option.splits)
  define i0 where "i0 = IntentDocument_new\<lparr>in_intent := intent_id, in_scope := scope, in_definition := definition_id,
    in_generation := Counter 1, in_policy_version := Counter 1, in_evidence := Evidence_Synthetic, in_complete := True\<rparr>"
  define x0 where "x0 = ObservationSubmission_new\<lparr>su_observation := observation_id, su_scope := scope, su_reporter := observer,
    su_generation := Counter 1, su_evidence := Evidence_Synthetic, su_complete := True, su_authoritative_absence := True\<rparr>"
  obtain x1 where run: "add_fixtures fixtures i0 x0 = Some (i, x1)" and x: "x = add_extra x1"
    using assms ids by (auto simp: scenario_documents_def i0_def x0_def split: option.splits)
  have start: "in_subjects i0 = []" "su_subjects x0 = []" "valid_id (in_intent i0)" "valid_id (in_scope i0)"
      "valid_id (in_definition i0)" "valid_id (su_observation x0)" "valid_id (su_scope x0)" "valid_id (su_reporter x0)"
      "in_scope i0 = su_scope x0"
    using ids [THEN parsed_valid]
    by (simp_all add: i0_def x0_def IntentDocument_new_def ObservationSubmission_new_def)
  have g: "intent_grows 3 i0 i" "submission_grows 3 x0 x1"
    using add_fixtures_grows [OF run] start(1,2) by (simp_all add: fixtures_def eval_nat_numeral)
  then have "submission_grows (Suc 3) x0 x" using add_extra_grows x by blast
  then show "intent_typed i" "submission_typed x" "in_scope i = su_scope x"
    using g start by (auto simp: intent_grows_def submission_grows_def intro!: keyed_intent_typed keyed_submission_typed)
qed

lemma scenario_documents_valid: "scenario_documents \<noteq> None"
  by code_simp


lemma mtu_key_valid: "valid_id mtu_key" "TryParseId ''mtu'' = Some mtu_key"
  by (simp_all add: mtu_key_def valid_id_def TryParseId_def, code_simp, code_simp)

lemma declare_subjects_grows:
  "declare_subjects is i = Some i' \<Longrightarrow> keyed declared_ok (in_subjects i) \<Longrightarrow> intent_grows (length is) i i'"
proof (induction "is" arbitrary: i)
  case Nil
  then show ?case by (simp add: intent_grows_def)
next
  case (Cons n "is")
  obtain subject :: SubjectId where s: "TryParseId (build_subject n) = Some subject"
    using Cons.prems(1) by (auto split: option.splits)
  note valid = parsed_valid [OF s] mtu_key_valid(1)
  let ?i = "i\<lparr>in_subjects := emplace_or_keep subject (declared_mtu subject mtu_key 9000) (in_subjects i)\<rparr>"
  have "intent_grows (length is) ?i i'"
    using Cons.IH [of ?i] Cons.prems s keyed_subjects_emplace(1) [OF Cons.prems(2) valid] by simp
  then show ?case using intent_grows_emplace [OF Cons.prems(2) valid] by simp
qed

lemma observe_subjects_grows:
  "observe_subjects is x = Some x' \<Longrightarrow> keyed seen_ok (su_subjects x) \<Longrightarrow> submission_grows (length is) x x'"
proof (induction "is" arbitrary: x)
  case Nil
  then show ?case by (simp add: submission_grows_def)
next
  case (Cons n "is")
  obtain subject :: SubjectId where s: "TryParseId (build_subject n) = Some subject"
    using Cons.prems(1) by (auto split: option.splits)
  note valid = parsed_valid [OF s] mtu_key_valid(1)
  let ?x = "x\<lparr>su_subjects := emplace_or_keep subject (seen_mtu subject mtu_key (worker_mtu n)) (su_subjects x)\<rparr>"
  have "submission_grows (length is) ?x x'"
    using Cons.IH [of ?x] Cons.prems s keyed_subjects_emplace(2) [OF Cons.prems(2) valid] by simp
  then show ?case using submission_grows_emplace [OF Cons.prems(2) valid] by simp
qed

section \<open>What the engine does with them\<close>

text \<open>
  A document with more subjects than a count of 32 bits is refused before it is looked at, so the worker's
  documents are safe whatever number of subjects it is asked for.
\<close>

abbreviation engine_calls :: "Engine \<Rightarrow> Engine \<Rightarrow> bool" where
  "engine_calls \<equiv> engine_step\<^sup>*\<^sup>*"

lemma CommitIntent_calls:
  assumes "engine_CommitIntent ck d e = (status, r, e')" "keyed declared_ok (in_subjects d)" "valid_id (in_intent d)"
    "valid_id (in_scope d)" "valid_id (in_definition d)" "max_subjects_per_document (en_limits e) < 2 ^ 32"
  shows "engine_calls e e'"
proof (cases "length (in_subjects d) < 2 ^ 32")
  case True
  then show ?thesis using keyed_intent_typed assms(1-5) step_CommitIntent by blast
next
  case False
  then have "\<not> status_ok (ValidateIntent d (en_limits e))" using assms(6) by (simp add: ValidateIntent_def)
  then have "e' = e" using assms(1) by (auto simp: engine_CommitIntent_def Let_def split: if_splits)
  then show ?thesis by simp
qed

lemma RecordObservationAt_calls:
  assumes "RecordObservationAt ck x now e = (status, r, e')" "keyed seen_ok (su_subjects x)" "valid_id (su_observation x)"
    "valid_id (su_scope x)" "valid_id (su_reporter x)" "max_subjects_per_document (en_limits e) < 2 ^ 32"
  shows "engine_calls e e'"
proof (cases "length (su_subjects x) < 2 ^ 32")
  case True
  then show ?thesis using keyed_submission_typed assms(1-5) step_RecordObservationAt by blast
next
  case False
  then have "\<not> status_ok (ValidateSubmission x (en_limits e))" using assms(6) by (simp add: ValidateSubmission_def)
  then have "e' = e" using assms(1) by (auto simp: RecordObservationAt_def Let_def split: if_splits)
  then show ?thesis by simp
qed

end
