(* ===== verification/Reproducible.thy ===== *)
theory Reproducible
  imports Planning
begin

text \<open>
  Plans are reproducible: a plan is a function of the documents of its scope, the policy, the fences, the
  coordinator incarnation, the limits and the clock reading it is asked for. Statistics, other scopes, attempts
  and outcomes do not enter it.
\<close>

text \<open>What two engines have in common when a plan of a scope cannot tell them apart.\<close>

definition same_view :: "ScopeId \<Rightarrow> Engine \<Rightarrow> Engine \<Rightarrow> bool" where
  "same_view scope e e' \<longleftrightarrow> en_live_epoch e' = en_live_epoch e \<and> en_live_boot e' = en_live_boot e \<and>
     en_limits e' = en_limits e \<and> ds_has_policy (en_state e') = ds_has_policy (en_state e) \<and>
     ds_policy (en_state e') = ds_policy (en_state e) \<and> ds_fences (en_state e') = ds_fences (en_state e) \<and>
     map_find scope (ds_intents (en_state e')) = map_find scope (ds_intents (en_state e)) \<and>
     map_find scope (ds_observations (en_state e')) = map_find scope (ds_observations (en_state e))"

lemma same_view_refl [simp]: "same_view scope e e" by (simp add: same_view_def)

lemma same_view_sym: "same_view scope e e' \<Longrightarrow> same_view scope e' e" by (simp add: same_view_def)

lemma same_view_inputs:
  assumes "same_view scope e e'"
  shows "scope_input scope policy now e' = scope_input scope policy now e"
    "plan_context policy input evidence e' = plan_context policy input evidence e"
    "plan_start scope policy evidence e' = plan_start scope policy evidence e"
    "decide pc e' r = decide pc e r"
  using assms
  by (simp_all add: same_view_def scope_input_def plan_context_def BuildAuthority_def plan_start_def decide_def
      assess_subject_def FenceHoldsFor_def)

text \<open>The decisions do not depend on the count of fenced ones so far.\<close>

lemma decide_all_same:
  assumes "same_view scope e e'"
  shows "fst (decide_all pc e' rs ds n') = fst (decide_all pc e rs ds n)"
    "snd (snd (decide_all pc e' rs ds n')) = snd (snd (decide_all pc e rs ds n))"
proof -
  have lim: "en_limits e' = en_limits e" using assms by (simp add: same_view_def)
  have "fst (decide_all pc e' rs ds n') = fst (decide_all pc e rs ds n) \<and>
      snd (snd (decide_all pc e' rs ds n')) = snd (snd (decide_all pc e rs ds n))"
    by (induction rs arbitrary: ds n n') (auto simp: lim same_view_inputs(4) [OF assms] Let_def split: prod.split)
  then show "fst (decide_all pc e' rs ds n') = fst (decide_all pc e rs ds n)"
    "snd (snd (decide_all pc e' rs ds n')) = snd (snd (decide_all pc e rs ds n))" by auto
qed

lemma same_view_stats: "same_view scope e e' \<Longrightarrow> same_view scope (e\<lparr>en_stats := s\<rparr>) (e'\<lparr>en_stats := s'\<rparr>)"
  by (simp add: same_view_def)

text \<open>The plan a classification leads to, with the work counters left out.\<close>

definition planned :: "ScopeId \<Rightarrow> ReconciliationPolicy \<Rightarrow> ClassificationInput \<Rightarrow> ClassificationReport \<Rightarrow> Engine \<Rightarrow>
    ReconciliationPlan" where
  "planned scope policy input report e =
     (let evidence = cr_evidence report;
          (decisions, _, truncated) = decide_all (plan_context policy input evidence e) e (cr_records report) [] 0;
          plan = (plan_start scope policy evidence e)\<lparr>pl_decisions := decisions\<rparr>;
          (verdict, scope_reason, step, detail) = scope_verdict (en_limits e) evidence truncated plan
      in Seal (plan\<lparr>pl_verdict := verdict, pl_scope_reason := scope_reason,
           pl_scope_explanation := explain_Add step detail (pl_scope_explanation plan), pl_truncated := truncated\<rparr>))"

lemma planned_same: "same_view scope e e' \<Longrightarrow> planned scope policy input report e' = planned scope policy input report e"
proof -
  assume same: "same_view scope e e'"
  let ?a = "decide_all (plan_context policy input (cr_evidence report) e) e (cr_records report) [] 0"
  let ?b = "decide_all (plan_context policy input (cr_evidence report) e) e' (cr_records report) [] 0"
  have "fst ?b = fst ?a" "snd (snd ?b) = snd (snd ?a)" by (rule decide_all_same [OF same])+
  moreover have "en_limits e' = en_limits e" using same by (simp add: same_view_def)
  ultimately show ?thesis
    by (simp add: planned_def same_view_inputs [OF same] split_beta Let_def)
qed

lemma engine_Plan_planned:
  "fst (engine_Plan ck request e) =
     (if id_empty (pq_scope request) then Inl (Status Code_Rejected Reason_UnsupportedInput)
      else if \<not> ds_has_policy (en_state e) then Inl (Status Code_PreconditionFailed Reason_NoIntentForScope)
      else let policy = lookup_or (ds_policy (en_state e)) (pq_policy request);
               input = scope_input (pq_scope request) policy (stamp_or (pq_now_unix_ms request) (ck_now ck)) e
      in case ClassifyScope input of
           Inl status \<Rightarrow> Inl status
         | Inr report \<Rightarrow> Inr (planned (pq_scope request) policy input report e))"
proof -
  have "fst (BuildPlanLocked ck request e) = Inr (planned (pq_scope request) policy input report e)"
    if "ClassifyScope input = Inr report" "\<not> id_empty (pq_scope request)" "ds_has_policy (en_state e)"
      "policy = lookup_or (ds_policy (en_state e)) (pq_policy request)"
      "input = scope_input (pq_scope request) policy (stamp_or (pq_now_unix_ms request) (ck_now ck)) e"
    for policy input report
  proof -
    let ?e = "e\<lparr>en_stats := count_work report (en_stats e)\<rparr>"
    have same: "same_view (pq_scope request) e ?e" by (simp add: same_view_def)
    let ?a = "decide_all (plan_context policy input (cr_evidence report) e) e (cr_records report) [] 0"
    let ?b = "decide_all (plan_context policy input (cr_evidence report) e) ?e (cr_records report) []
      (es_fenced_decisions (en_stats ?e))"
    have "fst ?b = fst ?a" "snd (snd ?b) = snd (snd ?a)" by (rule decide_all_same [OF same])+
    then show ?thesis
      using that by (simp add: BuildPlanLocked_def planned_def same_view_inputs(2,3) [OF same] split_beta Let_def)
  qed
  then show ?thesis by (auto simp: engine_Plan_def BuildPlanLocked_def Let_def split: sum.split)
qed

lemma engine_Plan_reproducible:
  assumes "same_view (pq_scope request) e e'"
    "stamp_or (pq_now_unix_ms request) (ck_now ck') = stamp_or (pq_now_unix_ms request) (ck_now ck)"
  shows "fst (engine_Plan ck' request e') = fst (engine_Plan ck request e)"
proof -
  have "ds_has_policy (en_state e') = ds_has_policy (en_state e)" "ds_policy (en_state e') = ds_policy (en_state e)"
    using assms(1) by (simp_all add: same_view_def)
  then show ?thesis
    using assms(2) by (simp add: engine_Plan_planned same_view_inputs(1) [OF assms(1)] planned_same [OF assms(1)]
        Let_def split: sum.split)
qed

end
