(* ===== verification/Hash_Vector.thy ===== *)
theory Hash_Vector
  imports Hash
begin

text \<open>
  The model of SHA-256 on the message \<open>abc\<close>: the digest the standard publishes, computed in the kernel. This
  is the check the \<open>selftest\<close> command makes of the code. The message schedule and the rounds are evaluated
  eight words at a time.
\<close>

unbundle bit_operations_syntax

lemmas word_functions = BigSigma0_def BigSigma1_def SmallSigma0_def SmallSigma1_def Choose_def Majority_def
  RotateRight_def

definition next_word :: "u32 \<Rightarrow> u32 \<Rightarrow> u32 \<Rightarrow> u32 \<Rightarrow> u32" where
  "next_word p q r s = SmallSigma1 p + q + SmallSigma0 r + s"

text \<open>Eight words of the schedule from the last sixteen.\<close>

fun next_words :: "nat \<Rightarrow> u32 list \<Rightarrow> u32 list" where
  "next_words (Suc n) (a # b # c # d # e # f # g # h # i # j # k # l # m # n' # p # q # []) =
     (let w = next_word p j b a in w # next_words n [b, c, d, e, f, g, h, i, j, k, l, m, n', p, q, w])"
| "next_words _ _ = []"

lemma schedule_extend_next:
  assumes "length s \<ge> 16"
  shows "schedule_extend n s = s @ next_words n (drop (length s - 16) s)"
  using assms
proof (induction n arbitrary: s)
  case (Suc n)
  define t where "t = drop (length s - 16) s"
  have "length t = 16" using Suc.prems by (simp add: t_def)
  then obtain a b c d e f g h i j k l m n' p q where t: "t = [a, b, c, d, e, f, g, h, i, j, k, l, m, n', p, q]"
    by (auto simp: numeral_eq_Suc length_Suc_conv)
  have nth: "s ! (length s - 16 + x) = t ! x" if "x < 16" for x
    using that Suc.prems by (simp add: t_def)
  have "s ! (length s - 2) = p" "s ! (length s - 7) = j" "s ! (length s - 15) = b" "s ! (length s - 16) = a"
    using nth [of 14] nth [of 9] nth [of 1] nth [of 0] Suc.prems Suc_diff_le [of 16 "length s"] by (simp_all add: t)
  moreover have "drop (Suc (length s) - 16) (s @ [w]) = [b, c, d, e, f, g, h, i, j, k, l, m, n', p, q, w]" for w
  proof -
    have "Suc (length s) - 16 = Suc (length s - 16)" using Suc.prems by simp
    then have "drop (Suc (length s) - 16) s = tl t" unfolding t_def by (simp only: drop_Suc tl_drop)
    then show ?thesis using Suc.prems by (simp add: t)
  qed
  ultimately show ?case
    using Suc.IH [of "s @ [next_word p j b a]"] Suc.prems
    by (simp add: Let_def next_word_def t_def [symmetric] t)
qed simp

lemma next_words_numeral:
  "next_words (numeral k) (a # b # c # d # e # f # g # h # i # j # k' # l # m # n # p # q # []) =
     (let w = next_word p j b a in w # next_words (pred_numeral k) [b, c, d, e, f, g, h, i, j, k', l, m, n, p, q, w])"
  by (simp add: numeral_eq_Suc)

lemma next_words_append:
  assumes "length s = 16"
  shows "next_words (m + n) s = next_words m s @ next_words n (drop m (s @ next_words m s))"
  using assms
proof (induction m arbitrary: s)
  case (Suc m)
  then obtain a b c d e f g h i j k l m' n' p q where s: "s = [a, b, c, d, e, f, g, h, i, j, k, l, m', n', p, q]"
    by (auto simp: numeral_eq_Suc length_Suc_conv)
  show ?case using Suc.IH [of "tl s @ [next_word p j b a]"] by (simp add: s Let_def)
qed simp

definition abc_words :: "u32 list" where
  "abc_words = concat
     [[0x61626380, 0, 0, 0, 0, 0, 0, 0],
      [0, 0, 0, 0, 0, 0, 0, 0x18],
      [0x61626380, 0xf0000, 0x7da86405, 0x600003c6, 0x3e9d7b78, 0x183fc00, 0x12dcbfdb, 0xe2e2c38e],
      [0xc8215c1a, 0xb73679a2, 0xe5bc3909, 0x32663c5b, 0x9d209d67, 0xec8726cb, 0x702138a4, 0xd3b7973b],
      [0x93f5997f, 0x3b68ba73, 0xaff4ffc1, 0xf10a5c62, 0xa8b3996, 0x72af830a, 0x9409e33e, 0x24641522],
      [0x9f47bf94, 0xf0a64f5a, 0x3e246a79, 0x27333ba3, 0xc4763f2, 0x840abf27, 0x7a290d5d, 0x65c43da],
      [0xfb3e89cb, 0xcc7617db, 0xb9e66c34, 0xa9993667, 0x84badedd, 0xc21462bc, 0x1487472c, 0xb20f7a99],
      [0xef57b9cd, 0xebe6b238, 0x9fe3095e, 0x78bc8d4b, 0xa43fcf15, 0x668b2ff8, 0xeeaba2cc, 0x12b1edeb]]"

lemma abc_words_2:
  "next_words 8
     [0x61626380, 0, 0, 0, 0, 0, 0, 0,
      0, 0, 0, 0, 0, 0, 0, 0x18] =
     [0x61626380, 0xf0000, 0x7da86405, 0x600003c6, 0x3e9d7b78, 0x183fc00, 0x12dcbfdb, 0xe2e2c38e]"
  by (simp add: next_words_numeral next_word_def word_functions)

lemma abc_words_3:
  "next_words 8
     [0, 0, 0, 0, 0, 0, 0, 0x18,
      0x61626380, 0xf0000, 0x7da86405, 0x600003c6, 0x3e9d7b78, 0x183fc00, 0x12dcbfdb, 0xe2e2c38e] =
     [0xc8215c1a, 0xb73679a2, 0xe5bc3909, 0x32663c5b, 0x9d209d67, 0xec8726cb, 0x702138a4, 0xd3b7973b]"
  by (simp add: next_words_numeral next_word_def word_functions)

lemma abc_words_4:
  "next_words 8
     [0x61626380, 0xf0000, 0x7da86405, 0x600003c6, 0x3e9d7b78, 0x183fc00, 0x12dcbfdb, 0xe2e2c38e,
      0xc8215c1a, 0xb73679a2, 0xe5bc3909, 0x32663c5b, 0x9d209d67, 0xec8726cb, 0x702138a4, 0xd3b7973b] =
     [0x93f5997f, 0x3b68ba73, 0xaff4ffc1, 0xf10a5c62, 0xa8b3996, 0x72af830a, 0x9409e33e, 0x24641522]"
  by (simp add: next_words_numeral next_word_def word_functions)

lemma abc_words_5:
  "next_words 8
     [0xc8215c1a, 0xb73679a2, 0xe5bc3909, 0x32663c5b, 0x9d209d67, 0xec8726cb, 0x702138a4, 0xd3b7973b,
      0x93f5997f, 0x3b68ba73, 0xaff4ffc1, 0xf10a5c62, 0xa8b3996, 0x72af830a, 0x9409e33e, 0x24641522] =
     [0x9f47bf94, 0xf0a64f5a, 0x3e246a79, 0x27333ba3, 0xc4763f2, 0x840abf27, 0x7a290d5d, 0x65c43da]"
  by (simp add: next_words_numeral next_word_def word_functions)

lemma abc_words_6:
  "next_words 8
     [0x93f5997f, 0x3b68ba73, 0xaff4ffc1, 0xf10a5c62, 0xa8b3996, 0x72af830a, 0x9409e33e, 0x24641522,
      0x9f47bf94, 0xf0a64f5a, 0x3e246a79, 0x27333ba3, 0xc4763f2, 0x840abf27, 0x7a290d5d, 0x65c43da] =
     [0xfb3e89cb, 0xcc7617db, 0xb9e66c34, 0xa9993667, 0x84badedd, 0xc21462bc, 0x1487472c, 0xb20f7a99]"
  by (simp add: next_words_numeral next_word_def word_functions)

lemma abc_words_7:
  "next_words 8
     [0x9f47bf94, 0xf0a64f5a, 0x3e246a79, 0x27333ba3, 0xc4763f2, 0x840abf27, 0x7a290d5d, 0x65c43da,
      0xfb3e89cb, 0xcc7617db, 0xb9e66c34, 0xa9993667, 0x84badedd, 0xc21462bc, 0x1487472c, 0xb20f7a99] =
     [0xef57b9cd, 0xebe6b238, 0x9fe3095e, 0x78bc8d4b, 0xa43fcf15, 0x668b2ff8, 0xeeaba2cc, 0x12b1edeb]"
  by (simp add: next_words_numeral next_word_def word_functions)

text \<open>A round with its two temporaries computed once.\<close>

fun shifted :: "u32 \<Rightarrow> u32 \<Rightarrow> sha_words \<Rightarrow> sha_words" where
  "shifted temp1 temp2 (a, b, c, d, e, f, g, h) = (temp1 + temp2, a, b, c, d + temp1, e, f, g)"

lemma compress_round_shifted:
  "compress_round (k, w) (a, b, c, d, e, f, g, h) =
     shifted (h + BigSigma1 e + Choose e f g + k + w) (BigSigma0 a + Majority a b c) (a, b, c, d, e, f, g, h)"
  by (simp add: Let_def)

lemma abc_rounds_0:
  "fold compress_round
     (zip [0x428a2f98, 0x71374491, 0xb5c0fbcf, 0xe9b5dba5, 0x3956c25b, 0x59f111f1, 0x923f82a4, 0xab1c5ed5]
          [0x61626380, 0, 0, 0, 0, 0, 0, 0])
     (0x6a09e667, 0xbb67ae85, 0x3c6ef372, 0xa54ff53a, 0x510e527f, 0x9b05688c, 0x1f83d9ab, 0x5be0cd19) =
     (0x85a07b5f, 0xe5030380, 0x2b4209f5, 0x4409a6a, 0xc657a79, 0x9b27a401, 0x714260ad, 0x43ada245)"
  by (simp add: compress_round_shifted word_functions del: compress_round.simps)

lemma abc_rounds_1:
  "fold compress_round
     (zip [0xd807aa98, 0x12835b01, 0x243185be, 0x550c7dc3, 0x72be5d74, 0x80deb1fe, 0x9bdc06a7, 0xc19bf174]
          [0, 0, 0, 0, 0, 0, 0, 0x18])
     (0x85a07b5f, 0xe5030380, 0x2b4209f5, 0x4409a6a, 0xc657a79, 0x9b27a401, 0x714260ad, 0x43ada245) =
     (0xb0fa238e, 0xc0645fde, 0xd932eb16, 0x87912990, 0x7590dcd, 0xb92f20c, 0x745a48de, 0x1e578218)"
  by (simp add: compress_round_shifted word_functions del: compress_round.simps)

lemma abc_rounds_2:
  "fold compress_round
     (zip [0xe49b69c1, 0xefbe4786, 0xfc19dc6, 0x240ca1cc, 0x2de92c6f, 0x4a7484aa, 0x5cb0a9dc, 0x76f988da]
          [0x61626380, 0xf0000, 0x7da86405, 0x600003c6, 0x3e9d7b78, 0x183fc00, 0x12dcbfdb, 0xe2e2c38e])
     (0xb0fa238e, 0xc0645fde, 0xd932eb16, 0x87912990, 0x7590dcd, 0xb92f20c, 0x745a48de, 0x1e578218) =
     (0xc5d53d8d, 0xa7a3623f, 0xc2606d6d, 0x9dc68b63, 0xaa47c347, 0x49f5114a, 0xe1257970, 0x8ada8930)"
  by (simp add: compress_round_shifted word_functions del: compress_round.simps)

lemma abc_rounds_3:
  "fold compress_round
     (zip [0x983e5152, 0xa831c66d, 0xb00327c8, 0xbf597fc7, 0xc6e00bf3, 0xd5a79147, 0x6ca6351, 0x14292967]
          [0xc8215c1a, 0xb73679a2, 0xe5bc3909, 0x32663c5b, 0x9d209d67, 0xec8726cb, 0x702138a4, 0xd3b7973b])
     (0xc5d53d8d, 0xa7a3623f, 0xc2606d6d, 0x9dc68b63, 0xaa47c347, 0x49f5114a, 0xe1257970, 0x8ada8930) =
     (0x73b33bf5, 0xea992a22, 0xa0060b30, 0x363482c9, 0xba591112, 0x109ab3a, 0xade79437, 0x6112a3b7)"
  by (simp add: compress_round_shifted word_functions del: compress_round.simps)

lemma abc_rounds_4:
  "fold compress_round
     (zip [0x27b70a85, 0x2e1b2138, 0x4d2c6dfc, 0x53380d13, 0x650a7354, 0x766a0abb, 0x81c2c92e, 0x92722c85]
          [0x93f5997f, 0x3b68ba73, 0xaff4ffc1, 0xf10a5c62, 0xa8b3996, 0x72af830a, 0x9409e33e, 0x24641522])
     (0x73b33bf5, 0xea992a22, 0xa0060b30, 0x363482c9, 0xba591112, 0x109ab3a, 0xade79437, 0x6112a3b7) =
     (0x79ea687a, 0x6dc57a8a, 0x34df1604, 0x41a65cb1, 0x1efbc0a0, 0xf0781bc8, 0xa507a53d, 0x772a26b)"
  by (simp add: compress_round_shifted word_functions del: compress_round.simps)

lemma abc_rounds_5:
  "fold compress_round
     (zip [0xa2bfe8a1, 0xa81a664b, 0xc24b8b70, 0xc76c51a3, 0xd192e819, 0xd6990624, 0xf40e3585, 0x106aa070]
          [0x9f47bf94, 0xf0a64f5a, 0x3e246a79, 0x27333ba3, 0xc4763f2, 0x840abf27, 0x7a290d5d, 0x65c43da])
     (0x79ea687a, 0x6dc57a8a, 0x34df1604, 0x41a65cb1, 0x1efbc0a0, 0xf0781bc8, 0xa507a53d, 0x772a26b) =
     (0x4172328d, 0xa14c14b0, 0x72ab4b91, 0x26628815, 0xfecf0bc6, 0xd57b94a9, 0xb7755da1, 0xa80f11f0)"
  by (simp add: compress_round_shifted word_functions del: compress_round.simps)

lemma abc_rounds_6:
  "fold compress_round
     (zip [0x19a4c116, 0x1e376c08, 0x2748774c, 0x34b0bcb5, 0x391c0cb3, 0x4ed8aa4a, 0x5b9cca4f, 0x682e6ff3]
          [0xfb3e89cb, 0xcc7617db, 0xb9e66c34, 0xa9993667, 0x84badedd, 0xc21462bc, 0x1487472c, 0xb20f7a99])
     (0x4172328d, 0xa14c14b0, 0x72ab4b91, 0x26628815, 0xfecf0bc6, 0xd57b94a9, 0xb7755da1, 0xa80f11f0) =
     (0x38cc9913, 0x3ec45cdb, 0xf5702fdb, 0x101fd28f, 0x54cb266b, 0xe50e1b4f, 0x9f4787c3, 0x529e7d00)"
  by (simp add: compress_round_shifted word_functions del: compress_round.simps)

lemma abc_rounds_7:
  "fold compress_round
     (zip [0x748f82ee, 0x78a5636f, 0x84c87814, 0x8cc70208, 0x90befffa, 0xa4506ceb, 0xbef9a3f7, 0xc67178f2]
          [0xef57b9cd, 0xebe6b238, 0x9fe3095e, 0x78bc8d4b, 0xa43fcf15, 0x668b2ff8, 0xeeaba2cc, 0x12b1edeb])
     (0x38cc9913, 0x3ec45cdb, 0xf5702fdb, 0x101fd28f, 0x54cb266b, 0xe50e1b4f, 0x9f4787c3, 0x529e7d00) =
     (0x506e3058, 0xd39a2165, 0x4d24d6c, 0xb85e2ce9, 0x5ef50f24, 0xfb121210, 0x948d25b6, 0x961f4894)"
  by (simp add: compress_round_shifted word_functions del: compress_round.simps)

lemma abc_words_from_2:
  "next_words 48
     [0x61626380, 0, 0, 0, 0, 0, 0, 0,
      0, 0, 0, 0, 0, 0, 0, 0x18] =
   [0x61626380, 0xf0000, 0x7da86405, 0x600003c6, 0x3e9d7b78, 0x183fc00, 0x12dcbfdb, 0xe2e2c38e] @ next_words 40
     [0, 0, 0, 0, 0, 0, 0, 0x18,
      0x61626380, 0xf0000, 0x7da86405, 0x600003c6, 0x3e9d7b78, 0x183fc00, 0x12dcbfdb, 0xe2e2c38e]"
  using next_words_append [of "[0x61626380, 0, 0, 0, 0, 0, 0, 0,
      0, 0, 0, 0, 0, 0, 0, 0x18]" 8 40] by (simp add: abc_words_2)

lemma abc_words_from_3:
  "next_words 40
     [0, 0, 0, 0, 0, 0, 0, 0x18,
      0x61626380, 0xf0000, 0x7da86405, 0x600003c6, 0x3e9d7b78, 0x183fc00, 0x12dcbfdb, 0xe2e2c38e] =
   [0xc8215c1a, 0xb73679a2, 0xe5bc3909, 0x32663c5b, 0x9d209d67, 0xec8726cb, 0x702138a4, 0xd3b7973b] @ next_words 32
     [0x61626380, 0xf0000, 0x7da86405, 0x600003c6, 0x3e9d7b78, 0x183fc00, 0x12dcbfdb, 0xe2e2c38e,
      0xc8215c1a, 0xb73679a2, 0xe5bc3909, 0x32663c5b, 0x9d209d67, 0xec8726cb, 0x702138a4, 0xd3b7973b]"
  using next_words_append [of "[0, 0, 0, 0, 0, 0, 0, 0x18,
      0x61626380, 0xf0000, 0x7da86405, 0x600003c6, 0x3e9d7b78, 0x183fc00, 0x12dcbfdb, 0xe2e2c38e]" 8 32] by (simp add: abc_words_3)

lemma abc_words_from_4:
  "next_words 32
     [0x61626380, 0xf0000, 0x7da86405, 0x600003c6, 0x3e9d7b78, 0x183fc00, 0x12dcbfdb, 0xe2e2c38e,
      0xc8215c1a, 0xb73679a2, 0xe5bc3909, 0x32663c5b, 0x9d209d67, 0xec8726cb, 0x702138a4, 0xd3b7973b] =
   [0x93f5997f, 0x3b68ba73, 0xaff4ffc1, 0xf10a5c62, 0xa8b3996, 0x72af830a, 0x9409e33e, 0x24641522] @ next_words 24
     [0xc8215c1a, 0xb73679a2, 0xe5bc3909, 0x32663c5b, 0x9d209d67, 0xec8726cb, 0x702138a4, 0xd3b7973b,
      0x93f5997f, 0x3b68ba73, 0xaff4ffc1, 0xf10a5c62, 0xa8b3996, 0x72af830a, 0x9409e33e, 0x24641522]"
  using next_words_append [of "[0x61626380, 0xf0000, 0x7da86405, 0x600003c6, 0x3e9d7b78, 0x183fc00, 0x12dcbfdb, 0xe2e2c38e,
      0xc8215c1a, 0xb73679a2, 0xe5bc3909, 0x32663c5b, 0x9d209d67, 0xec8726cb, 0x702138a4, 0xd3b7973b]" 8 24] by (simp add: abc_words_4)

lemma abc_words_from_5:
  "next_words 24
     [0xc8215c1a, 0xb73679a2, 0xe5bc3909, 0x32663c5b, 0x9d209d67, 0xec8726cb, 0x702138a4, 0xd3b7973b,
      0x93f5997f, 0x3b68ba73, 0xaff4ffc1, 0xf10a5c62, 0xa8b3996, 0x72af830a, 0x9409e33e, 0x24641522] =
   [0x9f47bf94, 0xf0a64f5a, 0x3e246a79, 0x27333ba3, 0xc4763f2, 0x840abf27, 0x7a290d5d, 0x65c43da] @ next_words 16
     [0x93f5997f, 0x3b68ba73, 0xaff4ffc1, 0xf10a5c62, 0xa8b3996, 0x72af830a, 0x9409e33e, 0x24641522,
      0x9f47bf94, 0xf0a64f5a, 0x3e246a79, 0x27333ba3, 0xc4763f2, 0x840abf27, 0x7a290d5d, 0x65c43da]"
  using next_words_append [of "[0xc8215c1a, 0xb73679a2, 0xe5bc3909, 0x32663c5b, 0x9d209d67, 0xec8726cb, 0x702138a4, 0xd3b7973b,
      0x93f5997f, 0x3b68ba73, 0xaff4ffc1, 0xf10a5c62, 0xa8b3996, 0x72af830a, 0x9409e33e, 0x24641522]" 8 16] by (simp add: abc_words_5)

lemma abc_words_from_6:
  "next_words 16
     [0x93f5997f, 0x3b68ba73, 0xaff4ffc1, 0xf10a5c62, 0xa8b3996, 0x72af830a, 0x9409e33e, 0x24641522,
      0x9f47bf94, 0xf0a64f5a, 0x3e246a79, 0x27333ba3, 0xc4763f2, 0x840abf27, 0x7a290d5d, 0x65c43da] =
   [0xfb3e89cb, 0xcc7617db, 0xb9e66c34, 0xa9993667, 0x84badedd, 0xc21462bc, 0x1487472c, 0xb20f7a99] @ next_words 8
     [0x9f47bf94, 0xf0a64f5a, 0x3e246a79, 0x27333ba3, 0xc4763f2, 0x840abf27, 0x7a290d5d, 0x65c43da,
      0xfb3e89cb, 0xcc7617db, 0xb9e66c34, 0xa9993667, 0x84badedd, 0xc21462bc, 0x1487472c, 0xb20f7a99]"
  using next_words_append [of "[0x93f5997f, 0x3b68ba73, 0xaff4ffc1, 0xf10a5c62, 0xa8b3996, 0x72af830a, 0x9409e33e, 0x24641522,
      0x9f47bf94, 0xf0a64f5a, 0x3e246a79, 0x27333ba3, 0xc4763f2, 0x840abf27, 0x7a290d5d, 0x65c43da]" 8 8] by (simp add: abc_words_6)

lemma abc_schedule:
  "schedule_extend 48
     [0x61626380, 0, 0, 0, 0, 0, 0, 0,
      0, 0, 0, 0, 0, 0, 0, 0x18] = abc_words"
  by (simp add: schedule_extend_next abc_words_from_2 abc_words_from_3 abc_words_from_4 abc_words_from_5 abc_words_from_6
      abc_words_7 abc_words_def)

lemma fold_zip_append:
  "length xs = length us \<Longrightarrow> fold f (zip (xs @ ys) (us @ vs)) s = fold f (zip ys vs) (fold f (zip xs us) s)"
  by simp

lemma abc_rounds:
  "fold compress_round (zip kRoundConstants abc_words)
     (0x6a09e667, 0xbb67ae85, 0x3c6ef372, 0xa54ff53a, 0x510e527f, 0x9b05688c, 0x1f83d9ab, 0x5be0cd19) =
     (0x506e3058, 0xd39a2165, 0x4d24d6c, 0xb85e2ce9, 0x5ef50f24, 0xfb121210, 0x948d25b6, 0x961f4894)"
  unfolding kRoundConstants_def abc_words_def concat.simps
  by (simp add: fold_zip_append abc_rounds_0 abc_rounds_1 abc_rounds_2 abc_rounds_3 abc_rounds_4 abc_rounds_5
      abc_rounds_6 abc_rounds_7 del: fold_simps zip_Cons_Cons append_Cons compress_round.simps)

definition abc_block :: bytes where
  "abc_block = [0x61, 0x62, 0x63, 0x80] @ replicate 59 0 @ [24]"

lemma abc_block_words:
  "map (schedule_word abc_block) [0..<16] =
     [0x61626380, 0, 0, 0, 0, 0, 0, 0,
      0, 0, 0, 0, 0, 0, 0, 0x18]"
  by (simp add: abc_block_def schedule_word_def upt_rec nth_append nth_Cons_numeral)

lemma abc_compressed:
  "Compress abc_block (sha_state Sha256_new) =
     (0xba7816bf, 0x8f01cfea, 0x414140de, 0x5dae2223, 0xb00361a3, 0x96177a9c, 0xb410ff61, 0xf20015ad)"
  by (simp add: Compress_def abc_block_words abc_schedule abc_rounds Sha256_new_def)

lemma abc_padded: "bytes_of_text ''abc'' @ sha_padding (length (bytes_of_text ''abc'')) = abc_block"
proof -
  have "bytes_of_text ''abc'' = [0x61, 0x62, 0x63]" by code_simp
  moreover have "be_bytes64 24 = replicate 7 0 @ [24]" by code_simp
  moreover have "replicate 59 (0 :: u8) = replicate 52 0 @ replicate 7 0" by (simp flip: replicate_add)
  ultimately show ?thesis by (simp add: sha_padding_def zeros_needed_def abc_block_def)
qed

lemma Sha256Of_abc:
  "ToHex (Sha256Of (bytes_of_text ''abc'')) = ''ba7816bf8f01cfea414140de5dae2223b00361a396177a9cb410ff61f20015ad''"
proof -
  have "absorb_blocks abc_block (sha_state Sha256_new) = absorb_blocks [] (Compress abc_block (sha_state Sha256_new))"
    by (subst absorb_blocks.simps) (simp add: abc_block_def)
  then have "Sha256Of (bytes_of_text ''abc'') = words_bytes
     (0xba7816bf, 0x8f01cfea, 0x414140de, 0x5dae2223, 0xb00361a3, 0x96177a9c, 0xb410ff61, 0xf20015ad)"
    unfolding Sha256Of_reference sha256_reference_def abc_padded by (simp add: abc_compressed absorb_blocks_short)
  also have "\<dots> =
     [0xba, 0x78, 0x16, 0xbf, 0x8f, 0x01, 0xcf, 0xea, 0x41, 0x41, 0x40, 0xde, 0x5d, 0xae, 0x22, 0x23,
      0xb0, 0x03, 0x61, 0xa3, 0x96, 0x17, 0x7a, 0x9c, 0xb4, 0x10, 0xff, 0x61, 0xf2, 0x00, 0x15, 0xad]"
    by (simp add: be_bytes32_def)
  finally show ?thesis by (simp add: ToHex_def kDigits_def)
qed

end
