(* ===== verification/Cli_Laws.thy ===== *)
theory Cli_Laws
  imports Tool_Documents Server_Laws Reproducible Hash_Vector
begin

text \<open>
  What a process of the command line tool can do: it begins a new epoch and then only applies engine operations,
  whatever its arguments and files are. Since the epoch is new, what earlier processes observed and issued gives
  it no authority.
\<close>

section \<open>Opening\<close>

lemma Store_Open_ok:
  assumes "Store_Open limits create ro gen clock clock' disk = (status, report, s)" "status_ok status"
  shows "status = Status_Ok"
  using assms
  by (auto simp: Store_Open_def open_locked_def load_snapshot_def Let_def split: if_splits prod.splits sum.splits option.splits)

text \<open>The files of a store directory hold what some coordinator may have left.\<close>

definition store_sound :: "World \<Rightarrow> string \<Rightarrow> bool" where
  "store_sound w dir \<longleftrightarrow> wf_boot (wo_boot w) \<and>
     (\<forall>report s. Store_Open default_limits True False (wo_store_id w) (ck_header (wo_boot_clocks w))
        (ck_report (wo_boot_clocks w)) (wo_disk w dir) = (Status_Ok, report, s) \<longrightarrow> resumable default_limits (st_state s))"

definition begun :: "World \<Rightarrow> Engine \<Rightarrow> bool" where
  "begun w e \<longleftrightarrow> (\<exists>st. epoch_begun st e \<and> resumable default_limits st) \<and> en_limits e = default_limits \<and>
     en_live_boot e = wo_boot w"

lemma open_store_begun:
  assumes run: "open_store w dir = (opened, Some e)" and sound: "store_sound w dir"
  shows "begun w e"
proof -
  let ?options = "default_engine_options\<lparr>eo_store_dir := dir\<rparr>"
  obtain status where boot: "Boot ?options (wo_store_id w) (wo_boot w) (wo_boot_clock w) (wo_boot_clocks w) (wo_disk w dir) =
      (status, e)" "status_ok status"
    using run by (auto simp: open_store_def engine_Open_def Let_def split: if_splits prod.splits)
  obtain status' report s where opened: "Store_Open default_limits True False (wo_store_id w) (ck_header (wo_boot_clocks w))
      (ck_report (wo_boot_clocks w)) (wo_disk w dir) = (status', report, s)" by (cases rule: prod_cases3)
  have "status_ok status'"
    using boot opened by (auto simp: Boot_def default_engine_options_def Let_def split: if_splits)
  then have ok: "status' = Status_Ok" using Store_Open_ok [OF opened] by blast
  have options: "eo_limits ?options = default_limits" "eo_create_if_missing ?options" "\<not> eo_read_only ?options"
    "eo_initial_policy ?options = policy_new"
    by (simp_all add: default_engine_options_def)
  have "resumable default_limits (st_state s)" using sound opened ok by (simp add: store_sound_def)
  moreover have "policy_typed policy_new" by (simp add: policy_typed_def policy_new_def wf_id_def id_empty_def)
  ultimately show ?thesis
    using Boot_begins_epoch [OF boot(1,2), of report s] opened ok options sound
    unfolding begun_def store_sound_def by (auto simp: default_limits_def)
qed

lemma begun_parts: "begun w e \<Longrightarrow> engine_inv e" by (auto simp: begun_def epoch_begun_def)

section \<open>Nothing to act on\<close>

text \<open>Without an actionable decision, a dispatch issues nothing.\<close>

lemma idle_dispatch_loop:
  "\<forall>d \<in> set ds. de_disposition d \<noteq> Disp_Actionable \<Longrightarrow> dispatch_loop now intent ds result e = (Inr result, e)"
  by (induction ds) simp_all

lemma idle_dispatch:
  assumes "Dispatch ck plan e = (out, e')" "\<forall>d \<in> set (pl_decisions plan). de_disposition d \<noteq> Disp_Actionable"
  shows "moves e e'" "ds_attempts (en_state e') = ds_attempts (en_state e)" "out = Inr r \<Longrightarrow> dp_intents r = []"
  using assms(1) by (auto simp: Dispatch_def idle_dispatch_loop [OF assms(2)] split: option.splits)

lemma begun_plan_idle:
  assumes "begun w e" "engine_Plan ck request e = (Inr plan, e')"
  shows "\<forall>d \<in> set (pl_decisions plan). de_disposition d \<noteq> Disp_Actionable" "en_store e' = en_store e" "begun w e'"
proof -
  obtain st where st: "epoch_begun st e" "resumable default_limits st" using assms(1) by (auto simp: begun_def)
  show "\<forall>d \<in> set (pl_decisions plan). de_disposition d \<noteq> Disp_Actionable"
    using restart_no_actions [OF st] assms(2) by (simp add: engine_Plan_def)
  show same: "en_store e' = en_store e" by (rule plan_decisions_bound(2) [OF assms(2)])
  have m: "moves e e'" by (rule classification_moves(2) [OF assms(2)])
  then have "engine_inv e'" "en_live_epoch e' = en_live_epoch e" "en_live_boot e' = en_live_boot e" "en_options e' = en_options e"
    using begun_parts [OF assms(1)] by (simp_all add: moves_def)
  moreover have "epoch_begun st e'" using st(1) calculation same unfolding epoch_begun_def by (elim conjE) simp
  ultimately show "begun w e'" using assms(1) st(2) by (auto simp: begun_def)
qed

lemma begun_completes_nothing:
  assumes "begun w e" "Complete ck request e = (status, out, e')"
  shows "\<not> status_ok status"
proof -
  have "IsTerminalAttemptState (at_state a)" if "map_find k (ds_attempts (en_state e)) = Some a" for k a
    using assms(1) that by (auto simp: begun_def epoch_begun_def)
  then show ?thesis using assms(2) by (auto simp: Complete_def split: if_splits option.splits)
qed

lemma begun_verifies_nothing:
  assumes "begun w e" "Verify ck evidence e = (status, out, e')"
  shows "\<not> status_ok status"
proof -
  have inv: "engine_inv e" by (rule begun_parts [OF assms(1)])
  have live: "IsTerminalAttemptState (at_state a)" if "map_find k (ds_attempts (en_state e)) = Some a" for k a
    using assms(1) that by (auto simp: begun_def epoch_begun_def)
  have "at_state a \<noteq> Attempt_Applied" if "find_by_key key (en_state e) = Some a" for key a
  proof -
    have "a \<in> set (map snd (ds_attempts (en_state e)))"
      using that unfolding find_by_key_def by (metis find_Some_iff nth_mem)
    then obtain k where "map_find k (ds_attempts (en_state e)) = Some a"
      using map_find_iff_mem [OF engine_inv_wf_map [OF inv]] by auto
    then show ?thesis using live by fastforce
  qed
  then show ?thesis using assms(2) by (auto simp: Verify_def Let_def split: if_splits option.splits)
qed


section \<open>Commands\<close>

text \<open>The engine a process ends with has come from the one it opened by engine operations alone.\<close>

definition runs_from :: "Options \<Rightarrow> World \<Rightarrow> Engine \<Rightarrow> bool" where
  "runs_from options w e' \<longleftrightarrow> (\<exists>opened e. OpenEngine options w = (opened, Some e) \<and> moves e e')"

lemma Fail_fields [simp]:
  "pr_exit (Fail message out files engine) = 1" "pr_err (Fail message out files engine) \<noteq> []"
  "pr_engine (Fail message out files engine) = engine" "pr_files (Fail message out files engine) = files"
  "pr_exit (Fail_status status out files engine) = 1" "pr_err (Fail_status status out files engine) \<noteq> []"
  "pr_engine (Fail_status status out files engine) = engine" "pr_files (Fail_status status out files engine) = files"
  by (simp_all add: Fail_def Fail_status_def)

lemma with_engine_runs:
  assumes "pr_engine (with_engine options w run) = Some e'"
    and "\<And>e opened. OpenEngine options w = (opened, Some e) \<Longrightarrow> pr_engine (run e) = Some e' \<Longrightarrow> moves e e'"
  shows "runs_from options w e'"
  using assms by (auto simp: with_engine_def runs_from_def split: prod.splits option.splits)

lemma CommitPolicy_moves:
  assumes "CommitPolicy options w e = (status, e')"
  shows "moves e e'"
  using assms
  by (auto simp: CommitPolicy_def Let_def split: if_splits sum.splits
      intro: engine_PutPolicy_moves ParseJson_policy_typed DefaultPolicy_typed)

lemma reading_commands_run:
  "pr_engine (CommandInit options w) = Some e \<Longrightarrow> runs_from options w e"
  "pr_engine (CommandStatus options w) = Some e \<Longrightarrow> runs_from options w e"
  "pr_engine (CommandAttempts options w) = Some e \<Longrightarrow> runs_from options w e"
  "pr_engine (CommandOutcomes options w) = Some e \<Longrightarrow> runs_from options w e"
  unfolding CommandInit_def CommandStatus_def CommandAttempts_def CommandOutcomes_def
  by (erule with_engine_runs; simp split: if_splits option.splits)+

lemma CommandPolicy_runs: "pr_engine (CommandPolicy options w) = Some e' \<Longrightarrow> runs_from options w e'"
  unfolding CommandPolicy_def
  by (erule with_engine_runs) (auto split: prod.splits if_splits sum.splits dest: CommitPolicy_moves)

lemma file_moves:
  "ParseJson_intent content default_limits = Inr d \<Longrightarrow> engine_CommitIntent ck d e = (status, i, e') \<Longrightarrow> moves e e'"
  "ParseJson_submission content default_limits = Inr x \<Longrightarrow> RecordObservationAt ck x now e = (status, o', e') \<Longrightarrow> moves e e'"
  by (erule engine_CommitIntent_moves, erule ParseJson_intent_typed)
    (erule RecordObservationAt_moves, erule ParseJson_submission_typed)

lemma CommandIntent_runs: "pr_engine (CommandIntent options w) = Some e' \<Longrightarrow> runs_from options w e'"
  unfolding CommandIntent_def Let_def
  by (auto split: if_splits sum.splits prod.splits elim!: with_engine_runs dest: file_moves)

lemma CommandObserve_runs: "pr_engine (CommandObserve options w) = Some e' \<Longrightarrow> runs_from options w e'"
  unfolding CommandObserve_def Let_def
  by (auto split: if_splits sum.splits prod.splits elim!: with_engine_runs dest: file_moves)

lemma CommandPlan_runs: "pr_engine (CommandPlan options explain w) = Some e' \<Longrightarrow> runs_from options w e'"
  unfolding CommandPlan_def Let_def
  by (erule with_engine_runs) (auto split: if_splits sum.splits prod.splits option.splits dest: classification_moves)

lemma CommandClassify_runs: "pr_engine (CommandClassify options w) = Some e' \<Longrightarrow> runs_from options w e'"
  unfolding CommandClassify_def
  by (erule with_engine_runs) (auto split: if_splits sum.splits prod.splits option.splits dest: classification_moves)

lemma CommandVerify_runs: "pr_engine (CommandVerify options w) = Some e' \<Longrightarrow> runs_from options w e'"
  unfolding CommandVerify_def Let_def
  by (auto split: if_splits sum.splits prod.splits elim!: with_engine_runs dest: Verify_moves)

lemma CommandComplete_runs: "pr_engine (CommandComplete options w) = Some e' \<Longrightarrow> runs_from options w e'"
  unfolding CommandComplete_def Let_def
  by (erule with_engine_runs)
    (auto simp: CompletionRequest_new_def split: if_splits option.splits prod.splits dest!: Complete_moves)


lemma cli_fence_ok:
  assumes "cli_fence options = Inr fence"
  shows "fence_ok fence"
proof -
  have "valid_id (fe_id fence)" "valid_id (fe_scope fence)" "wf_id (fe_subject fence)"
    using assms by (auto simp: cli_fence_def wf_id_def id_empty_def split: option.splits if_splits dest!: parsed_valid)
  moreover have "fe_reason fence = Reason_ScopeFenced" "fe_detail fence = ''operator fence''"
    using assms by (auto simp: cli_fence_def split: option.splits if_splits)
  ultimately show ?thesis by (simp add: fence_ok_def kMaxIdentityLength_def word_le_nat_alt)
qed

lemma CommandFence_runs: "pr_engine (CommandFence options w) = Some e' \<Longrightarrow> runs_from options w e'"
  unfolding CommandFence_def Let_def
  by (erule with_engine_runs)
    (auto split: if_splits sum.splits prod.splits intro: engine_PutFence_moves cli_fence_ok)

text \<open>In a new epoch a dispatch finds nothing to issue.\<close>

lemma CommandDispatch_idle:
  assumes "begun w e" "engine_Plan ck request e = (Inr plan, e1)" "Dispatch ck' plan e1 = (out, e')"
  shows "moves e e'" "ds_attempts (en_state e') = ds_attempts (en_state e)" "out = Inr r \<Longrightarrow> dp_intents r = []"
  using idle_dispatch [OF assms(3) begun_plan_idle(1) [OF assms(1,2)]] begun_plan_idle(2) [OF assms(1,2)]
    classification_moves(2) [OF assms(2)] moves_trans by auto

lemma CommandDispatch_runs:
  assumes "pr_engine (CommandDispatch options w) = Some e'" "store_sound w (cl_store options)"
  shows "runs_from options w e'"
  using assms(1) unfolding CommandDispatch_def
proof (rule with_engine_runs)
  fix e opened
  assume "OpenEngine options w = (opened, Some e)"
  then have b: "begun w e" using open_store_begun [OF _ assms(2)] by (simp add: OpenEngine_def)
  show "moves e e'" if "pr_engine (dispatch_opened options w e) = Some e'"
    using that CommandDispatch_idle(1) [OF b] classification_moves(2)
    unfolding dispatch_opened_def by (auto split: option.splits prod.splits sum.splits if_splits)
qed

lemma scenario_plan_moves: "pr_engine (scenario_plan options w request e) = Some e' \<Longrightarrow> moves e e'"
  unfolding scenario_plan_def scenario_replay_def Let_def
  by (auto split: if_splits sum.splits prod.splits dest!: classification_moves(2) intro: moves_trans)

lemma scenario_opened_moves:
  assumes "pr_engine (scenario_opened options w e) = Some e'"
  shows "moves e e'"
proof -
  obtain i x where docs: "scenario_documents = Some (i, x)" using scenario_documents_valid by auto
  obtain c r1 e1 where c: "engine_CommitIntent (wo_clocks w 0) i e = (c, r1, e1)" by (cases rule: prod_cases3)
  obtain r r2 e2 where r: "RecordObservationAt (wo_clocks w 1) x (cl_now options) e1 = (r, r2, e2)" by (cases rule: prod_cases3)
  have m: "moves e e1" "moves e1 e2"
    using engine_CommitIntent_moves [OF c] RecordObservationAt_moves [OF r] scenario_documents_typed [OF docs] by blast+
  then have "moves e e2" by (rule moves_trans)
  then show ?thesis
    using assms m(1) by (auto simp: scenario_opened_def docs c r [unfolded One_nat_def] split: if_splits dest!: scenario_plan_moves elim: moves_trans)
qed

lemma CommandScenario_runs: "pr_engine (CommandScenario options w) = Some e' \<Longrightarrow> runs_from options w e'"
  unfolding CommandScenario_def by (erule with_engine_runs) (rule scenario_opened_moves)


section \<open>The program\<close>

text \<open>What the threads of the service do while the tool serves are steps of the service.\<close>

definition threads_run :: "World \<Rightarrow> bool" where
  "threads_run w \<longleftrightarrow> (\<forall>entry \<in> set (wo_stdin w). \<forall>v. server_step\<^sup>*\<^sup>* v (snd entry v)) \<and>
     (\<forall>v. server_step\<^sup>*\<^sup>* v (wo_stopping w v))"

lemma control_loop_steps:
  "control_loop lines v = (out, v') \<Longrightarrow> \<forall>entry \<in> set lines. \<forall>v. server_step\<^sup>*\<^sup>* v (snd entry v) \<Longrightarrow> server_step\<^sup>*\<^sup>* v v'"
proof (induction lines v arbitrary: out rule: control_loop.induct)
  case (2 line meanwhile lines server)
  have first: "server_step\<^sup>*\<^sup>* server (meanwhile server)" using "2.prems"(2) by simp
  show ?case
  proof (cases "line = ''stop''")
    case False
    then have "server_step\<^sup>*\<^sup>* (meanwhile server) v'"
      using "2.IH" "2.prems" by (auto simp: Let_def split: prod.splits)
    then show ?thesis using first by (rule rtranclp_trans [rotated])
  qed (use first "2.prems"(1) in \<open>simp add: Let_def\<close>)
qed simp

lemma serve_stop_steps:
  assumes "serve_stop w v = Some v'" "threads_run w"
  shows "\<exists>u. server_step\<^sup>*\<^sup>* v u \<and> sv_engine v' = sv_engine u"
proof -
  have "server_step v (stop_signal v)" "server_step\<^sup>*\<^sup>* (stop_signal v) (wo_stopping w (stop_signal v))"
    using assms(2) step_stop_signal by (auto simp: threads_run_def)
  then have "server_step\<^sup>*\<^sup>* v (wo_stopping w (stop_signal v))" by (rule converse_rtranclp_into_rtranclp)
  moreover have "sv_engine v' = sv_engine (wo_stopping w (stop_signal v))"
    using assms(1) by (auto simp: serve_stop_def stop_finish_def Let_def split: if_splits)
  ultimately show ?thesis by blast
qed

lemma serve_started_steps:
  assumes "serve_started options w e v = Some p" "pr_engine p = Some e'" "threads_run w"
  shows "\<exists>u. server_step\<^sup>*\<^sup>* v u \<and> e' = sv_engine u"
proof -
  obtain out v1 where loop: "control_loop (wo_stdin w) v = (out, v1)" by force
  have "server_step\<^sup>*\<^sup>* v v1" using control_loop_steps [OF loop] assms(3) by (simp add: threads_run_def)
  moreover have "\<exists>v2. (serve_stop w v = Some v2 \<or> serve_stop w v1 = Some v2) \<and> e' = sv_engine v2"
    using assms(1,2) loop by (auto simp: serve_started_def Let_def split: if_splits prod.splits)
  ultimately show ?thesis using serve_stop_steps [OF _ assms(3)] by (metis rtranclp_trans)
qed

lemma Start_engine: "Start options e port k = (Inr v, k') \<Longrightarrow> sv_engine v = e"
  by (auto simp: Start_def split: prod.splits sum.splits)

lemma CommandServe_runs:
  assumes "CommandServe options w = Some p" "pr_engine p = Some e'" "threads_run w" "store_sound w (cl_store options)"
  shows "runs_from options w e'"
proof -
  obtain opened e where o: "OpenEngine options w = (opened, Some e)"
    using assms(1,2) by (auto simp: CommandServe_def split: prod.splits option.splits)
  have inv: "engine_inv e"
    using begun_parts open_store_begun [OF _ assms(4)] o by (simp add: OpenEngine_def)
  obtain started k where start: "Start (ServerOptions_new\<lparr>vo_bind_address := cl_address options,
      vo_port := ucast (cl_port options)\<rparr>) e (wo_bound_port w) (wo_kernel w) = (started, k)" by force
  have "moves e e'"
  proof (cases started)
    case (Inl status)
    then show ?thesis using assms(1,2) o start by (auto simp: CommandServe_def)
  next
    case (Inr v)
    then have "serve_started options w e v = Some p" using assms(1) o start by (simp add: CommandServe_def)
    then obtain u where "server_step\<^sup>*\<^sup>* v u" "e' = sv_engine u" using serve_started_steps assms(2,3) by blast
    then show ?thesis
      using server_run_calls [of v u] inv calls_moves Start_engine [of _ e _ _ v k] start Inr by auto
  qed
  then show ?thesis using o by (auto simp: runs_from_def)
qed

lemma CommandSelftest_engine: "pr_engine (CommandSelftest options w) = None"
  by (simp add: CommandSelftest_def Let_def)

lemma command_cases:
  assumes "command_named name = Some command"
  shows "command \<in> {CommandInit, CommandStatus, CommandAttempts, CommandOutcomes, CommandPolicy, CommandIntent, CommandObserve,
      CommandClassify, \<lambda>options. CommandPlan options False, \<lambda>options. CommandPlan options True, CommandDispatch,
      CommandComplete, CommandVerify, CommandFence, CommandScenario, CommandSelftest}"
  using assms unfolding command_named_def by (simp split: if_splits)

lemma command_runs:
  assumes "command_named name = Some command" "pr_engine (command options w) = Some e'" "store_sound w (cl_store options)"
  shows "runs_from options w e'"
  using command_cases [OF assms(1)] assms(2,3) CommandSelftest_engine [of options w]
  by (elim insertE emptyE)
    (auto intro: reading_commands_run CommandPolicy_runs CommandIntent_runs CommandObserve_runs CommandClassify_runs
      CommandPlan_runs CommandDispatch_runs CommandComplete_runs CommandVerify_runs CommandFence_runs CommandScenario_runs)

lemma run_command_runs:
  assumes "run_command options w = Some p" "pr_engine p = Some e'" "threads_run w" "store_sound w (cl_store options)"
  shows "runs_from options w e'"
  using assms CommandServe_runs command_runs by (auto simp: run_command_def split: if_splits option.splits)

lemma cli_main_runs:
  assumes "cli_main raw w = Some p" "pr_engine p = Some e'" "threads_run w" "\<And>dir. store_sound w dir"
  shows "\<exists>dir opened e. open_store w dir = (opened, Some e) \<and> begun w e \<and> moves e e'"
proof -
  obtain options where "run_command options w = Some p"
    using assms(1,2) by (auto simp: cli_main_def Let_def split: list.splits if_splits Parsed.splits)
  then have "runs_from options w e'" using run_command_runs assms(2-4) by blast
  then obtain opened e where "open_store w (cl_store options) = (opened, Some e)" "moves e e'"
    by (auto simp: runs_from_def OpenEngine_def)
  then show ?thesis using open_store_begun [OF _ assms(4)] by blast
qed

text \<open>A process succeeds exactly when it prints no error; without a command it ends with 2.\<close>

definition tidy :: "Process \<Rightarrow> bool" where
  "tidy p \<longleftrightarrow> pr_exit p = 0 \<and> pr_err p = [] \<or> pr_exit p = 1 \<and> pr_err p \<noteq> []"

lemma tidy_ends [simp]: "tidy (exits 0 out [] files engine)" "tidy (Fail message out files engine)"
  "tidy (Fail_status status out files engine)"
  by (simp_all add: tidy_def)

lemma tidy_with_engine: "(\<And>e. tidy (run e)) \<Longrightarrow> tidy (with_engine options w run)"
  by (auto simp: with_engine_def split: prod.splits option.splits)

lemma commands_tidy:
  "tidy (CommandInit options w)" "tidy (CommandStatus options w)" "tidy (CommandAttempts options w)"
  "tidy (CommandOutcomes options w)" "tidy (CommandPolicy options w)" "tidy (CommandIntent options w)"
  "tidy (CommandObserve options w)" "tidy (CommandClassify options w)" "tidy (CommandPlan options b w)"
  "tidy (CommandComplete options w)" "tidy (CommandVerify options w)" "tidy (CommandFence options w)"
  "tidy (CommandSelftest options w)"
  unfolding CommandInit_def CommandStatus_def CommandAttempts_def CommandOutcomes_def CommandPolicy_def CommandIntent_def
    CommandObserve_def CommandClassify_def CommandPlan_def CommandComplete_def CommandVerify_def CommandFence_def
    CommandSelftest_def Let_def
  by (simp_all split: option.split sum.split prod.split add: tidy_with_engine)

lemma long_commands_tidy: "tidy (CommandDispatch options w)" "tidy (CommandScenario options w)"
  unfolding CommandDispatch_def CommandScenario_def
  by (rule tidy_with_engine, simp add: dispatch_opened_def scenario_opened_def scenario_plan_def scenario_replay_def Let_def
      split: option.split sum.split prod.split)+

lemma serve_tidy: "CommandServe options w = Some p \<Longrightarrow> tidy p"
  by (auto simp: CommandServe_def serve_started_def Let_def split: prod.splits option.splits sum.splits if_splits)

lemma run_command_tidy:
  assumes "run_command options w = Some p"
  shows "tidy p"
proof (cases "cl_command options = ''serve''")
  case True
  then show ?thesis using assms serve_tidy by (simp add: run_command_def)
next
  case False
  show ?thesis
  proof (cases "command_named (cl_command options)")
    case None
    then show ?thesis using assms False by (auto simp: run_command_def)
  next
    case (Some command)
    then have "p = command options w" using assms False by (simp add: run_command_def)
    then show ?thesis
      using command_cases [OF Some] by (elim insertE emptyE) (simp_all only: commands_tidy long_commands_tidy)
  qed
qed


section \<open>Actions across processes\<close>

lemma opened_begun: "store_sound w (cl_store options) \<Longrightarrow> OpenEngine options w = (opened, Some e) \<Longrightarrow> begun w e"
  using open_store_begun by (simp add: OpenEngine_def)

lemma CommandComplete_fails:
  assumes "store_sound w (cl_store options)"
  shows "pr_exit (CommandComplete options w) = 1"
  using begun_completes_nothing [OF opened_begun [OF assms]]
  by (auto simp: CommandComplete_def with_engine_def Let_def split: prod.split option.split if_split)

lemma CommandVerify_fails:
  assumes "store_sound w (cl_store options)"
  shows "pr_exit (CommandVerify options w) = 1"
  using begun_verifies_nothing [OF opened_begun [OF assms]]
  by (auto simp: CommandVerify_def with_engine_def Let_def split: prod.split option.split if_split sum.split)

lemma Plan_store: "engine_Plan ck request e = (out, e') \<Longrightarrow> en_store e' = en_store e"
  by (auto simp: engine_Plan_def BuildPlanLocked_def Let_def split: if_splits sum.splits prod.splits)

lemma CommandDispatch_attempts:
  assumes "store_sound w (cl_store options)" "OpenEngine options w = (opened, Some e)"
    "pr_engine (CommandDispatch options w) = Some e'"
  shows "ds_attempts (en_state e') = ds_attempts (en_state e)"
proof -
  have b: "begun w e" using opened_begun assms(1,2) by blast
  have "pr_engine (dispatch_opened options w e) = Some e'" using assms(2,3) by (simp add: CommandDispatch_def with_engine_def)
  then show ?thesis
    using CommandDispatch_idle(2) [OF b] Plan_store
    unfolding dispatch_opened_def by (auto split: option.splits prod.splits sum.splits if_splits)
qed

section \<open>Operator fences\<close>

text \<open>
  An acknowledged fence is stored under its identity. The tool makes the identity of the epoch bound alone, so a
  fence for another scope under the same bound takes the place of the first one.
\<close>

lemma engine_PutFence_fences:
  assumes inv: "engine_inv e" and run: "engine_PutFence ck f e = (status, e')" and ok: "status_ok status" and fok: "fence_ok f"
  shows "ds_fences (en_state e') =
    map_set (fe_id f) (f\<lparr>fe_created_unix_ms := stamp_or (fe_created_unix_ms f) (ck_now ck)\<rparr>) (ds_fences (en_state e))"
proof -
  let ?now = "stamp_or (fe_created_unix_ms f) (ck_now ck)"
  let ?f = "f\<lparr>fe_created_unix_ms := ?now\<rparr>"
  obtain stored s1 where put: "store_PutFence ?f (en_store e) = (stored, s1)" by force
  let ?e = "e\<lparr>en_store := s1\<rparr>"
  obtain fenced e2 where loop: "fence_loop ?now (fence_victims ?f (en_state ?e)) ?e = (fenced, e2)" by force
  have st: "status_ok stored" "status_ok fenced" "e' = MaybeCompactLocked ck e2"
    using run ok put loop by (simp_all add: engine_PutFence_def Let_def split: if_splits) force+
  have fok': "fence_ok ?f" using fok by (simp add: fence_ok_def)
  have "ds_fences (st_state s1) = map_set (fe_id f) ?f (ds_fences (en_state e))"
    using fence_stored_moves(2) [OF inv fok' put st(1)] by (auto simp: state_becomes_def apply_fence_def)
  moreover have inv1: "engine_inv ?e" using fence_stored_moves(1) [OF inv fok' put] inv by (simp add: moves_def)
  have "\<forall>a \<in> set (fence_victims ?f (en_state ?e)).
      attempt_ok (en_limits ?e) (fence_close ?now ?e a) \<and> outcome_ok (fence_outcome ?now ?e a)"
    using fence_victims_table(1) [OF inv1] engine_inv_attempts(1) [OF inv1] fence_close_ok [OF inv1] by blast
  then obtain q where "en_state e2 = (close_all (en_limits ?e) (fence_close ?now ?e) (fence_outcome ?now ?e)
      (fence_victims ?f (en_state ?e)) (en_state ?e))\<lparr>ds_sequence := q\<rparr>"
    using fence_closing.closes(1) [OF loop st(2)] inv1 by (auto simp: engine_inv_def)
  then have "ds_fences (en_state e2) = ds_fences (en_state ?e)" by (simp add: close_all_other)
  ultimately show ?thesis using st(3) by simp
qed

lemma cli_fences_same_id:
  assumes "cli_fence a = Inr f" "cli_fence b = Inr g" "cl_below a = cl_below b"
  shows "fe_id f = fe_id g"
  using assms by (auto simp: cli_fence_def split: option.splits if_splits)

lemma operator_fence_replaces:
  assumes "cli_fence a = Inr f" "cli_fence b = Inr g" "cl_below a = cl_below b" "engine_inv e"
    "engine_PutFence ck g e = (status, e')" "status_ok status"
  shows "\<exists>h. map_find (fe_id f) (ds_fences (en_state e')) = Some h \<and> fe_scope h = fe_scope g"
  using engine_PutFence_fences [OF assms(4-6) cli_fence_ok [OF assms(2)]] cli_fences_same_id [OF assms(1-3)]
  by (simp add: map_find_set)

section \<open>Self checks\<close>

text \<open>The self test fails exactly when the same boot identity is drawn twice.\<close>

lemma selftest_exit: "pr_exit (CommandSelftest options w) = 0 \<longleftrightarrow> wo_boot w \<noteq> wo_other_boot w"
  by (simp add: CommandSelftest_def Sha256Of_abc)

text \<open>With a given clock reading, the scenario never finds its plan irreproducible.\<close>

lemma scenario_replay_agrees:
  assumes "engine_Plan ck request e = (Inr plan, e1)" "pq_now_unix_ms request \<noteq> 0"
  shows "pr_exit (scenario_replay w request plan out files e1) = 0"
proof -
  have m: "en_live_epoch e1 = en_live_epoch e" "en_live_boot e1 = en_live_boot e" "en_options e1 = en_options e"
    using assms(1) by (auto simp: engine_Plan_def BuildPlanLocked_def Let_def split: if_splits sum.splits prod.splits)
  then have "same_view (pq_scope request) e e1" using Plan_store [OF assms(1)] by (simp add: same_view_def)
  then have "fst (engine_Plan (wo_clocks w 3) request e1) = Inr plan"
    using engine_Plan_reproducible [of request e e1 "wo_clocks w 3" ck] assms by (simp add: stamp_or_def)
  then show ?thesis by (cases "engine_Plan (wo_clocks w 3) request e1") (simp add: scenario_replay_def)
qed

text \<open>Without the control channel, a started service is served until the process is terminated.\<close>

lemma serve_never_returns:
  "\<not> cl_stdin_control options \<Longrightarrow> cl_ready_file options = [] \<Longrightarrow> serve_started options w e server = None"
  by (simp add: serve_started_def Let_def)

section \<open>Arguments\<close>

lemma decimal_start:
  "takeWhile is_digit (decimal n) = decimal n" "\<not> c_isspace (hd (decimal n))" "hd (decimal n) \<noteq> CHR ''-''"
  "hd (decimal n) \<noteq> CHR ''+''" "dropWhile c_isspace (decimal n) = decimal n"
proof -
  have d: "\<forall>c \<in> set (decimal n). is_digit c" by (rule decimal_digits)
  then show "takeWhile is_digit (decimal n) = decimal n" by (simp add: takeWhile_eq_all_conv)
  obtain c t where c: "decimal n = c # t" by (cases "decimal n") auto
  then show "\<not> c_isspace (hd (decimal n))" "hd (decimal n) \<noteq> CHR ''-''" "hd (decimal n) \<noteq> CHR ''+''"
    "dropWhile c_isspace (decimal n) = decimal n"
    using d by (auto simp: is_digit_def c_isspace_def)
qed

text \<open>A number an operator prints and passes on is read back.\<close>

lemma strtoll_prefix_back: "strtoll_prefix (to_string_i64 v) = v"
proof (cases "sint v < 0")
  case True
  have b: "- (2 ^ 63) \<le> sint v" using sint_range_size [of v] by (simp add: word_size)
  have "strtoll_prefix (to_string_i64 v) = word_of_int (max (- (2 ^ 63)) (min (2 ^ 63 - 1) (sint v)))"
    using True by (simp add: strtoll_prefix_def to_string_i64_def c_isspace_def decimal_start decimal_value)
  then show ?thesis using True b by (simp add: min_def max_def)
next
  case False
  have b: "sint v \<le> 2 ^ 63 - 1" using sint_range_size [of v] by (simp add: word_size)
  have "strtoll_prefix (to_string_i64 v) = word_of_int (max (- (2 ^ 63)) (min (2 ^ 63 - 1) (sint v)))"
    using False by (simp add: strtoll_prefix_def to_string_i64_def Let_def decimal_start decimal_value)
  then show ?thesis using False b by (simp add: min_def max_def)
qed

definition flag :: "string \<Rightarrow> bool \<Rightarrow> string list" where
  "flag token b = (if b then [token] else [])"

definition option_arguments :: "Options \<Rightarrow> string list" where
  "option_arguments p =
     [''--store'', cl_store p, ''--scope'', cl_scope p, ''--subject'', cl_subject p, ''--file'', cl_file p,
      ''--out'', cl_out p, ''--address'', cl_address p, ''--plan-id'', cl_plan_id p, ''--state'', cl_state p,
      ''--key'', cl_key p, ''--ready-file'', cl_ready_file p, ''--now'', to_string_i64 (cl_now p),
      ''--port'', to_string_i64 (cl_port p), ''--attempt'', to_string_i64 (cl_attempt p),
      ''--below'', to_string_i64 (cl_below p)] @
     flag ''--json'' (cl_json p) @ flag ''--dry-run'' (cl_dry_run p) @ flag ''--quiet'' (cl_quiet p) @
     flag ''--stdin-control'' (cl_stdin_control p)"

lemma parse_flag:
  assumes "flag_option token = Some set_flag" "text_option token = None"
  shows "parse_options (flag token b @ rest) p = parse_options rest (if b then set_flag p else p)"
  using assms by (simp add: flag_def)

lemma parse_value:
  assumes "text_option token = Some assign"
  shows "parse_options (token # v # rest) p = parse_options rest (assign v p)"
  using assms by (simp add: Next_value_def)

lemma parse_flags: "parse_options (flag ''--json'' a @ flag ''--dry-run'' b @ flag ''--quiet'' c @ flag ''--stdin-control'' d) p =
    Parsed (p\<lparr>cl_json := a \<or> cl_json p, cl_dry_run := b \<or> cl_dry_run p, cl_quiet := c \<or> cl_quiet p,
      cl_stdin_control := d \<or> cl_stdin_control p\<rparr>)"
proof -
  have t: "text_option ''--json'' = None" "text_option ''--dry-run'' = None" "text_option ''--quiet'' = None"
    "text_option ''--stdin-control'' = None"
    by (simp_all add: text_option_def)
  have f: "flag_option ''--json'' = Some (cl_json_update (\<lambda>_. True))" "flag_option ''--dry-run'' = Some (cl_dry_run_update (\<lambda>_. True))"
    "flag_option ''--quiet'' = Some (cl_quiet_update (\<lambda>_. True))"
    "flag_option ''--stdin-control'' = Some (cl_stdin_control_update (\<lambda>_. True))"
    by (simp_all add: flag_option_def)
  show ?thesis
    using parse_flag [OF f(4) t(4), of d "[]"]
    by (cases a; cases b; cases c; cases d) (simp_all add: parse_flag [OF f(1) t(1)] parse_flag [OF f(2) t(2)] parse_flag [OF f(3) t(3)])
qed

lemma option_arguments_back:
  "parse_options (option_arguments p) (Options_new\<lparr>cl_command := cl_command p\<rparr>) = Parsed p"
proof -
  have v: "text_option ''--store'' = Some (\<lambda>v. cl_store_update (\<lambda>_. v))" "text_option ''--scope'' = Some (\<lambda>v. cl_scope_update (\<lambda>_. v))"
    "text_option ''--subject'' = Some (\<lambda>v. cl_subject_update (\<lambda>_. v))" "text_option ''--file'' = Some (\<lambda>v. cl_file_update (\<lambda>_. v))"
    "text_option ''--out'' = Some (\<lambda>v. cl_out_update (\<lambda>_. v))" "text_option ''--address'' = Some (\<lambda>v. cl_address_update (\<lambda>_. v))"
    "text_option ''--plan-id'' = Some (\<lambda>v. cl_plan_id_update (\<lambda>_. v))" "text_option ''--state'' = Some (\<lambda>v. cl_state_update (\<lambda>_. v))"
    "text_option ''--key'' = Some (\<lambda>v. cl_key_update (\<lambda>_. v))" "text_option ''--ready-file'' = Some (\<lambda>v. cl_ready_file_update (\<lambda>_. v))"
    "text_option ''--now'' = Some (\<lambda>v. cl_now_update (\<lambda>_. strtoll_prefix v))"
    "text_option ''--port'' = Some (\<lambda>v. cl_port_update (\<lambda>_. strtoll_prefix v))"
    "text_option ''--attempt'' = Some (\<lambda>v. cl_attempt_update (\<lambda>_. strtoll_prefix v))"
    "text_option ''--below'' = Some (\<lambda>v. cl_below_update (\<lambda>_. strtoll_prefix v))"
    by (simp_all add: text_option_def)
  show ?thesis
    unfolding option_arguments_def append_Cons append_Nil v [THEN parse_value] parse_flags strtoll_prefix_back
    by (simp add: Options_new_def)
qed


lemma options_keep_command:
  "text_option token = Some assign \<Longrightarrow> cl_command (assign v p) = cl_command p"
  "flag_option token = Some set_flag \<Longrightarrow> cl_command (set_flag p) = cl_command p"
  by (auto simp: text_option_def flag_option_def split: if_splits)

lemma parse_options_command: "parse_options args p = Parsed q \<Longrightarrow> cl_command q = cl_command p"
  by (induction args p rule: parse_options.induct)
    (auto simp: options_keep_command split: option.splits if_splits)

lemma cli_main_command:
  assumes "cli_main (command # args) w = Some p" "pr_engine p = Some e"
  shows "\<exists>options. run_command options w = Some p \<and> cl_command options = command"
  using assms parse_options_command
  by (fastforce simp: cli_main_def Let_def split: if_splits Parsed.splits)

end
