(* ===== verification/Worker_Laws.thy ===== *)
theory Worker_Laws
  imports Cli_Laws Contracts
begin

text \<open>
  What the terminations of the worker leave behind. Each named boundary lies where its name says: before the
  dispatch no attempt is issued, between dispatch and completion an issued attempt is durable and live, after the
  completion an applied one is.
\<close>

section \<open>Issued actions\<close>

text \<open>Every action a dispatch hands out names a live attempt, which is new or was handed out before.\<close>

definition issued_for :: "IntentDocument \<Rightarrow> Engine \<Rightarrow> Engine \<Rightarrow> ActionIntent \<Rightarrow> bool" where
  "issued_for intent e e' x \<longleftrightarrow> (\<exists>key a. find_issued key e' = Some a \<and> x = action_of intent a \<and>
     (find_issued key e = Some a \<or> at_state a = Attempt_Dispatched))"

lemma find_Some_holds: "find P xs = Some x \<Longrightarrow> x \<in> set xs \<and> P x"
  by (auto simp: find_Some_iff)

lemma issued_later:
  assumes "issued_for intent e1 e' x" and found: "\<And>key. find_issued key e1 = (case find_issued key e of
      None \<Rightarrow> if key = k then Some n else None | Some a \<Rightarrow> Some a)" and "at_state n = Attempt_Dispatched"
  shows "issued_for intent e e' x"
proof -
  obtain key a where a: "find_issued key e' = Some a" "x = action_of intent a"
    "find_issued key e1 = Some a \<or> at_state a = Attempt_Dispatched"
    using assms(1) by (auto simp: issued_for_def)
  have "find_issued key e = Some a \<or> at_state a = Attempt_Dispatched"
    using a(3) assms(3) by (auto simp: found split: option.splits if_splits)
  then show ?thesis using a(1,2) unfolding issued_for_def by blast
qed

lemma dispatch_loop_keeps:
  assumes "dispatch_loop now intent ds r e = (Inr r', e')" "engine_inv e"
    "\<forall>d \<in> set ds. de_disposition d = Disp_Actionable \<longrightarrow> decision_ok d"
    "unat (cval (ds_next_attempt (en_state e))) + length ds < 2 ^ 64" "find_issued key e = Some a"
  shows "find_issued key e' = Some a"
  using dispatch_loop_effect [OF assms(1-4)] assms(5) by (auto simp: dispatched_def)

lemma dispatch_loop_issued:
  assumes "dispatch_loop now intent ds r e = (Inr r', e')" "engine_inv e"
    "\<forall>d \<in> set ds. de_disposition d = Disp_Actionable \<longrightarrow> decision_ok d"
    "unat (cval (ds_next_attempt (en_state e))) + length ds < 2 ^ 64"
  shows "\<forall>x \<in> set (dp_intents r'). x \<in> set (dp_intents r) \<or> issued_for intent e e' x"
  using assms
proof (induction ds arbitrary: r e)
  case (Cons d ds)
  note inv = Cons.prems(2)
  show ?case
  proof (cases "de_disposition d \<noteq> Disp_Actionable \<or> FenceHoldsFor (de_scope d) (de_subject d) (en_live_epoch e) e")
    case True
    let ?r = "if de_disposition d = Disp_Actionable then r\<lparr>dp_fenced := dp_fenced r + 1\<rparr> else r"
    have "dispatch_loop now intent ds ?r e = (Inr r', e')" using Cons.prems(1) True by (auto split: if_splits)
    from Cons.IH [OF this inv] show ?thesis using Cons.prems(3,4) by (auto split: if_splits)
  next
    case False
    then have d: "de_disposition d = Disp_Actionable" "\<not> FenceHoldsFor (de_scope d) (de_subject d) (en_live_epoch e) e"
      and dok: "decision_ok d" using Cons.prems(3) by auto
    show ?thesis
    proof (cases "find_issued (de_idempotency_key d) e")
      case (Some a)
      let ?r = "r\<lparr>dp_intents := dp_intents r @ [action_of intent a], dp_already_issued := dp_already_issued r + 1\<rparr>"
      have run: "dispatch_loop now intent ds ?r e = (Inr r', e')" using Cons.prems(1) d Some by simp
      have "find_issued (de_idempotency_key d) e' = Some a"
        by (rule dispatch_loop_keeps [OF run inv _ _ Some]) (use Cons.prems(3,4) in simp_all)
      then have "issued_for intent e e' (action_of intent a)" using Some by (auto simp: issued_for_def)
      then show ?thesis using Cons.IH [OF run inv] Cons.prems(3,4) by auto
    next
      case None
      let ?n = "new_attempt now d e"
      obtain issued s1 where put: "store_IssueAttempt ?n (en_store e) = (issued, s1)" by force
      let ?r = "r\<lparr>dp_intents := dp_intents r @ [action_of intent ?n]\<rparr>"
      let ?e = "e\<lparr>en_store := s1, en_stats := (en_stats e)\<lparr>es_actions_dispatched := es_actions_dispatched (en_stats e) + 1\<rparr>\<rparr>"
      have ok: "status_ok issued" and run: "dispatch_loop now intent ds ?r ?e = (Inr r', e')"
        using Cons.prems(1) d None put by (auto simp: Let_def split: if_splits)
      have room: "cval (ds_next_attempt (en_state e)) \<noteq> - 1"
        using Cons.prems(4) by (auto simp: word_eq_iff_unsigned unsigned_minus_1_eq_mask mask_eq_exp_minus_1)
      note st = issue_step [OF inv dok room put]
      have inv1: "engine_inv ?e" using st(1) inv by (simp add: moves_def engine_inv_def)
      have found: "find_issued key ?e = (case find_issued key e of
          None \<Rightarrow> if key = de_idempotency_key d then Some ?n else None | Some a \<Rightarrow> Some a)" for key
        using st(4) [OF ok, of key] by (simp add: find_issued_def)
      have "unat (cval (ds_next_attempt (en_state ?e))) = unat (cval (ds_next_attempt (en_state e))) + 1"
        using st(2) [OF ok] unatSuc [of "cval (ds_next_attempt (en_state e))"] room
        by (simp add: add.commute add_eq_0_iff)
      then have rest: "\<forall>d \<in> set ds. de_disposition d = Disp_Actionable \<longrightarrow> decision_ok d"
        "unat (cval (ds_next_attempt (en_state ?e))) + length ds < 2 ^ 64"
        using Cons.prems(3,4) by simp_all
      have "at_state ?n = Attempt_Dispatched" by (simp add: new_attempt_def Let_def)
      moreover have "find_issued (de_idempotency_key d) e' = Some ?n"
        by (rule dispatch_loop_keeps [OF run inv1 rest]) (simp add: found None)
      ultimately have "issued_for intent e e' (action_of intent ?n)" by (auto simp: issued_for_def)
      moreover have "issued_for intent e e' x" if "issued_for intent ?e e' x" for x
        using that \<open>at_state ?n = Attempt_Dispatched\<close> by (rule issued_later [OF _ found])
      ultimately show ?thesis using Cons.IH [OF run inv1 rest] by auto
    qed
  qed
qed simp

lemma find_issued_table:
  assumes "engine_inv e" "find_issued key e = Some a"
  shows "map_find (cval (at_id a)) (ds_attempts (en_state e)) = Some a" "at_epoch a = en_live_epoch e"
    "at_idempotency_key a = key" "\<not> IsTerminalAttemptState (at_state a)"
proof -
  have "a \<in> set (map snd (ds_attempts (en_state e)))"
    by (rule find_Some_holds [OF assms(2) [unfolded find_issued_def], THEN conjunct1])
  then obtain k where k: "map_find k (ds_attempts (en_state e)) = Some a"
    using map_find_iff_mem [OF engine_inv_wf_map [OF assms(1)]] by auto
  then show "map_find (cval (at_id a)) (ds_attempts (en_state e)) = Some a"
    using engine_inv_attempts(2) [OF assms(1) k] by simp
  show "at_epoch a = en_live_epoch e" "at_idempotency_key a = key" "\<not> IsTerminalAttemptState (at_state a)"
    using find_Some_holds [OF assms(2) [unfolded find_issued_def]] by blast+
qed

text \<open>When no attempt is live, everything handed out is new.\<close>

lemma Dispatch_issues:
  assumes inv: "engine_inv e" and plan: "plan_ok plan"
    and room: "unat (cval (ds_next_attempt (en_state e))) + length (pl_decisions plan) < 2 ^ 64"
    and run: "Dispatch ck plan e = (Inr r, e')" and x: "x \<in> set (dp_intents r)"
    and closed: "\<forall>k a. map_find k (ds_attempts (en_state e)) = Some a \<longrightarrow> IsTerminalAttemptState (at_state a)"
  shows "\<exists>a. map_find (cval (ai_attempt x)) (ds_attempts (en_state e')) = Some a \<and> at_state a = Attempt_Dispatched \<and>
    at_epoch a = en_live_epoch e' \<and> at_idempotency_key a = ai_idempotency_key x"
proof -
  obtain intent e1 where loop: "dispatch_loop (ck_now ck) intent (pl_decisions plan)
      \<lparr>dp_intents = [], dp_fenced = 0, dp_superseded = 0, dp_already_issued = 0\<rparr> e = (Inr r, e1)"
    and e': "e' = MaybeCompactLocked ck e1"
    using run by (auto simp: Dispatch_def split: option.splits prod.splits sum.splits)
  have ok: "\<forall>d \<in> set (pl_decisions plan). de_disposition d = Disp_Actionable \<longrightarrow> decision_ok d"
    using plan by (simp add: plan_ok_def)
  have inv1: "engine_inv e1" using dispatch_loop_effect [OF loop inv ok room] inv by (simp add: moves_def)
  obtain key a where a: "find_issued key e1 = Some a" "x = action_of intent a"
    "find_issued key e = Some a \<or> at_state a = Attempt_Dispatched"
    using dispatch_loop_issued [OF loop inv ok room] x by (auto simp: issued_for_def)
  have "find_issued key e \<noteq> Some a" using find_issued_table(1,4) [OF inv] closed by blast
  then show ?thesis
    using a find_issued_table [OF inv1 a(1)] by (auto simp: e' action_of_def)
qed


section \<open>Boundaries\<close>

text \<open>What the durable tables hold when the worker has terminated itself with an exit code.\<close>

definition live_attempt :: "AttemptState \<Rightarrow> Engine \<Rightarrow> bool" where
  "live_attempt state e \<longleftrightarrow> (\<exists>k a. map_find k (ds_attempts (en_state e)) = Some a \<and> at_state a = state \<and>
     at_epoch a = en_live_epoch e)"

definition left_by :: "int \<Rightarrow> Engine \<Rightarrow> Engine \<Rightarrow> bool" where
  "left_by code e e' \<longleftrightarrow> (code \<in> {69, 70} \<longrightarrow> ds_attempts (en_state e') = ds_attempts (en_state e)) \<and>
     (code \<in> {71, 72} \<longrightarrow> live_attempt Attempt_Dispatched e') \<and> (code = 73 \<longrightarrow> live_attempt Attempt_Applied e')"

lemma left_by_other [simp]: "code < 69 \<Longrightarrow> left_by code e e'"
  by (simp add: left_by_def)

lemma Complete_applies:
  assumes inv: "engine_inv e" and run: "Complete ck (completion_of arguments action e) e = (status, out, e')"
    and ok: "status_ok status"
  shows "live_attempt Attempt_Applied e'"
proof -
  let ?rq = "completion_of arguments action e"
  have target: "cq_target ?rq = Attempt_Applied" "cq_reason ?rq \<le> Reason_RestartLeasesNotRestored"
    by (simp_all add: completion_of_def CompletionRequest_new_def word_le_nat_alt)
  obtain a where a: "completable ?rq e a"
    and st: "agrees (apply_attempt (en_limits e) (completed ck ?rq e a) (en_state e)) (en_state e')"
    using Complete_contract [OF inv run ok target(2)] target(1) by auto
  let ?b = "completed ck ?rq e a"
  have b: "at_state ?b = Attempt_Applied" "at_epoch ?b = en_live_epoch e"
    using a target(1) by (simp_all add: completed_def step_attempt_def completable_def)
  have "map_find (cval (at_id ?b)) (ds_attempts (en_state e')) = Some ?b"
    using apply_attempt_find(4) [OF engine_inv_parts(1) [OF inv], of ?b "en_limits e"] b(1) agrees_tables(1) [OF st] by simp
  moreover have "en_live_epoch e' = en_live_epoch e" using Complete_moves [OF run target(2)] inv by (simp add: moves_def)
  ultimately show ?thesis using b unfolding live_attempt_def by auto
qed

lemma worker_complete_leaves:
  assumes inv: "engine_inv e" and live: "live_attempt Attempt_Dispatched e"
    and p: "worker_complete failed arguments w n out action e = p" "pr_engine p = Some e'"
  shows "moves e e'" "left_by (pr_exit p) e0 e'"
proof -
  obtain status x e1 where c: "Complete (wo_clocks w n) (completion_of arguments action e) e = (status, x, e1)"
    by (cases rule: prod_cases3)
  have m: "moves e e1"
    by (rule Complete_moves [OF c]) (simp add: completion_of_def CompletionRequest_new_def word_le_nat_alt)
  then show "moves e e'" using p c by (auto simp: worker_complete_def HardExit_def Let_def split: if_splits)
  show "left_by (pr_exit p) e0 e'"
    using p c live Complete_applies [OF inv c]
    by (auto simp: worker_complete_def HardExit_def Let_def left_by_def split: if_splits)
qed

text \<open>No attempt of the table is open, and there are identities left for a whole plan.\<close>

definition settled :: "Engine \<Rightarrow> bool" where
  "settled e \<longleftrightarrow> engine_inv e \<and> en_limits e = default_limits \<and>
     (\<forall>k a. map_find k (ds_attempts (en_state e)) = Some a \<longrightarrow> IsTerminalAttemptState (at_state a)) \<and>
     unat (cval (ds_next_attempt (en_state e))) + max_plan_actions default_limits < 2 ^ 64"

definition unattempted :: "Engine \<Rightarrow> Engine \<Rightarrow> bool" where
  "unattempted e e' \<longleftrightarrow> moves e e' \<and> ds_attempts (en_state e') = ds_attempts (en_state e) \<and>
     ds_next_attempt (en_state e') = ds_next_attempt (en_state e)"

lemma unattempted_settled: "unattempted e e' \<Longrightarrow> settled e \<Longrightarrow> settled e'"
  by (auto simp: unattempted_def settled_def moves_def)

lemma unattempted_trans: "unattempted e e' \<Longrightarrow> unattempted e' e'' \<Longrightarrow> unattempted e e''"
  using moves_trans by (auto simp: unattempted_def)

lemma unattempted_plan: "engine_Plan ck request e = (out, e') \<Longrightarrow> unattempted e e'"
  using classification_moves(2) Plan_store by (simp add: unattempted_def)

lemma settled_plan:
  assumes "settled e" "engine_Plan ck request e = (Inr plan, e')"
  shows "plan_ok plan" "settled e'" "unat (cval (ds_next_attempt (en_state e'))) + length (pl_decisions plan) < 2 ^ 64"
proof -
  have inv: "engine_inv e" using assms(1) by (simp add: settled_def)
  show "plan_ok plan" by (rule BuildPlanLocked_plan_ok [OF inv assms(2) [unfolded engine_Plan_def]])
  show s: "settled e'" by (rule unattempted_settled [OF unattempted_plan [OF assms(2)] assms(1)])
  have "length (pl_decisions plan) \<le> max_plan_actions default_limits"
    using plan_decisions_bound(1) [OF assms(2)] assms(1) by (simp add: settled_def)
  then show "unat (cval (ds_next_attempt (en_state e'))) + length (pl_decisions plan) < 2 ^ 64"
    using s unfolding settled_def by linarith
qed

lemma worker_dispatch_leaves:
  assumes s: "settled e" and plan: "plan_ok plan"
    and room: "unat (cval (ds_next_attempt (en_state e))) + length (pl_decisions plan) < 2 ^ 64"
    and p: "worker_dispatch failed arguments w n out plan e = p" "pr_engine p = Some e'"
    and same: "ds_attempts (en_state e) = ds_attempts (en_state e0)"
  shows "moves e e'" "left_by (pr_exit p) e0 e'"
proof -
  have inv: "engine_inv e" and closed: "\<forall>k a. map_find k (ds_attempts (en_state e)) = Some a \<longrightarrow> IsTerminalAttemptState (at_state a)"
    using s by (simp_all add: settled_def)
  have "moves e e' \<and> left_by (pr_exit p) e0 e'"
  proof (cases "ar_kill_at arguments = ''before_dispatch''")
    case True
    then show ?thesis using p same by (auto simp: worker_dispatch_def HardExit_def left_by_def)
  next
    case False
    obtain d e1 where run: "Dispatch (wo_clocks w n) plan e = (d, e1)" by force
    have m: "moves e e1" by (rule Dispatch_moves [OF run plan room])
    show ?thesis
    proof (cases "\<exists>issued action rest. d = Inr issued \<and> dp_intents issued = action # rest")
      case True
      then obtain issued action rest where d: "d = Inr issued" "dp_intents issued = action # rest" by blast
      have "live_attempt Attempt_Dispatched e1"
        using Dispatch_issues [OF inv plan room run [unfolded d(1)] _ closed, of action] d(2)
        unfolding live_attempt_def by auto
      moreover have "engine_inv e1" using m inv by (simp add: moves_def)
      moreover obtain out' where "worker_complete failed arguments w (n + 1) out' action e1 = p"
        using p(1) False run d by (simp add: worker_dispatch_def Let_def)
      ultimately show ?thesis using worker_complete_leaves [OF _ _ _ p(2)] m moves_trans by blast
    next
      case none: False
      then show ?thesis
        using p False run m by (auto simp: worker_dispatch_def worker_fail_def Let_def split: sum.splits list.splits)
    qed
  qed
  then show "moves e e'" "left_by (pr_exit p) e0 e'" by auto
qed

section \<open>Publishing\<close>

lemma agrees_attempts: "agrees st st' \<Longrightarrow> ds_attempts st' = ds_attempts st \<and> ds_next_attempt st' = ds_next_attempt st"
  using agrees_tables(1,6) by blast

lemma documents_unattempted:
  "ds_attempts (apply_intent limits d st) = ds_attempts st" "ds_next_attempt (apply_intent limits d st) = ds_next_attempt st"
  "ds_attempts (apply_observation limits x st) = ds_attempts st"
  "ds_next_attempt (apply_observation limits x st) = ds_next_attempt st"
  by (simp_all add: apply_intent_def apply_observation_def TrimObservations_def Let_def split: option.split)

lemma CommitIntent_unattempted:
  assumes inv: "engine_inv e" "en_limits e = default_limits"
    and run: "engine_CommitIntent ck d e = (status, out, e')" and ok: "status_ok status"
    and doc: "keyed declared_ok (in_subjects d)" "valid_id (in_intent d)" "valid_id (in_scope d)" "valid_id (in_definition d)"
  shows "unattempted e e'"
proof -
  have "status_ok (ValidateIntent d (en_limits e))"
    using run ok by (auto simp: engine_CommitIntent_def Let_def split: if_splits)
  then have "length (in_subjects d) < 2 ^ 32"
    using inv(2) by (auto simp: ValidateIntent_def default_limits_def split: if_splits)
  then have typed: "intent_typed d" using keyed_intent_typed doc by blast
  show ?thesis
    using CommitIntent_contract [OF inv(1) run ok typed] engine_CommitIntent_moves [OF run typed]
    by (auto simp: unattempted_def documents_unattempted dest!: agrees_attempts)
qed

lemma RecordObservation_unattempted:
  assumes inv: "engine_inv e" "en_limits e = default_limits"
    and run: "RecordObservationAt ck x now e = (status, out, e')" and ok: "status_ok status"
    and doc: "keyed seen_ok (su_subjects x)" "valid_id (su_observation x)" "valid_id (su_scope x)" "valid_id (su_reporter x)"
  shows "unattempted e e'"
proof -
  have "status_ok (ValidateSubmission x (en_limits e))"
    using run ok by (auto simp: RecordObservationAt_def Let_def split: if_splits)
  then have "length (su_subjects x) < 2 ^ 32"
    using inv(2) by (auto simp: ValidateSubmission_def default_limits_def split: if_splits)
  then have typed: "submission_typed x" using keyed_submission_typed doc by blast
  show ?thesis
    using RecordObservation_contract [OF inv(1) run ok typed] RecordObservationAt_moves [OF run typed]
    by (auto simp: unattempted_def documents_unattempted dest!: agrees_attempts)
qed


text \<open>The documents of the worker.\<close>

definition worker_document :: "IntentDocument \<Rightarrow> bool" where
  "worker_document d \<longleftrightarrow> keyed declared_ok (in_subjects d) \<and> valid_id (in_intent d) \<and> valid_id (in_scope d) \<and>
     valid_id (in_definition d)"

definition worker_report :: "ObservationSubmission \<Rightarrow> bool" where
  "worker_report x \<longleftrightarrow> keyed seen_ok (su_subjects x) \<and> valid_id (su_observation x) \<and> valid_id (su_scope x) \<and>
     valid_id (su_reporter x)"

lemma declared_document:
  assumes "declare_subjects is (worker_intent intent_id definition_id scope) = Some d"
    "valid_id intent_id" "valid_id definition_id" "valid_id scope"
  shows "worker_document d"
  using declare_subjects_grows [OF assms(1)] assms(2-4)
  by (simp add: worker_document_def intent_grows_def worker_intent_def IntentDocument_new_def keyed_def)

lemma observed_report:
  assumes "observe_subjects is (worker_submission observation_id reporter scope) = Some x"
    "valid_id observation_id" "valid_id reporter" "valid_id scope"
  shows "worker_report x"
  using observe_subjects_grows [OF assms(1)] assms(2-4)
  by (simp add: worker_report_def submission_grows_def worker_submission_def ObservationSubmission_new_def keyed_def)

lemma worker_commit:
  assumes "settled e" "worker_document d" "engine_CommitIntent ck d e = (status, out, e')"
  shows "moves e e'" "status_ok status \<Longrightarrow> unattempted e e'"
  using CommitIntent_calls [OF assms(3), THEN calls_moves] CommitIntent_unattempted [OF _ _ assms(3)] assms(1,2)
  by (auto simp: settled_def worker_document_def default_limits_def)

lemma worker_record:
  assumes "settled e" "worker_report x" "RecordObservationAt ck x now e = (status, out, e')"
  shows "moves e e'" "status_ok status \<Longrightarrow> unattempted e e'"
  using RecordObservationAt_calls [OF assms(3), THEN calls_moves] RecordObservation_unattempted [OF _ _ assms(3)] assms(1,2)
  by (auto simp: settled_def worker_report_def default_limits_def)


section \<open>Modes\<close>

lemma mode_seed_leaves:
  assumes "settled e" "valid_id scope" "mode_seed arguments w scope e = p" "pr_engine p = Some e'"
  shows "moves e e' \<and> pr_exit p < 69"
  using assms(3,4) worker_commit(1) [OF assms(1) declared_document [OF _ _ _ assms(2)]]
  by (auto simp: mode_seed_def Die_def worker_fail_def Let_def split: option.splits prod.splits if_splits
      dest!: parsed_valid)

lemma mode_observe_leaves:
  assumes "settled e" "valid_id scope" "mode_observe arguments w scope e = p" "pr_engine p = Some e'"
  shows "moves e e' \<and> pr_exit p < 69"
  using assms(3,4) worker_record(1) [OF assms(1) observed_report [OF _ _ _ assms(2)]]
  by (auto simp: mode_observe_def Die_def worker_fail_def Let_def split: option.splits prod.splits if_splits
      dest!: parsed_valid)

lemma mode_compact_leaves:
  assumes "mode_compact w e = p" "pr_engine p = Some e'"
  shows "moves e e' \<and> pr_exit p < 69"
  using assms by (auto simp: mode_compact_def worker_fail_def Let_def split: prod.splits if_splits dest: engine_Compact_moves)

lemma mode_reconcile_leaves:
  assumes s: "settled e" and p: "mode_reconcile arguments w scope e = p" "pr_engine p = Some e'"
  shows "moves e e' \<and> left_by (pr_exit p) e e'"
proof -
  obtain out e1 where run: "engine_Plan (wo_clocks w 0)
      (PlanRequest_new\<lparr>pq_scope := scope, pq_now_unix_ms := ar_now arguments\<rparr>) e = (out, e1)" by force
  have u: "unattempted e e1" by (rule unattempted_plan [OF run])
  show ?thesis
  proof (cases out)
    case (Inl status)
    then show ?thesis using p run u by (auto simp: mode_reconcile_def worker_fail_def unattempted_def)
  next
    case (Inr plan)
    note sp = settled_plan [OF s run [unfolded Inr]]
    have "worker_dispatch (Error_Status ''complete failed: '') arguments w 1 (plan_line plan) plan e1 = p"
      using p(1) run Inr by (simp add: mode_reconcile_def)
    note l = worker_dispatch_leaves [OF sp(2,1,3) this p(2), of e]
    then show ?thesis using u moves_trans by (auto simp: unattempted_def)
  qed
qed

lemma scenario_planned_leaves:
  assumes s: "settled e" and p: "scenario_planned arguments w scope e = p" "pr_engine p = Some e'"
    and same: "ds_attempts (en_state e) = ds_attempts (en_state e0)"
  shows "moves e e' \<and> left_by (pr_exit p) e0 e'"
proof -
  obtain out e1 where run: "engine_Plan (wo_clocks w 2)
      (PlanRequest_new\<lparr>pq_scope := scope, pq_now_unix_ms := ar_now arguments\<rparr>) e = (out, e1)" by force
  have u: "unattempted e e1" by (rule unattempted_plan [OF run])
  show ?thesis
  proof (cases out)
    case (Inl status)
    then show ?thesis using p run u by (auto simp: scenario_planned_def worker_fail_def unattempted_def)
  next
    case (Inr plan)
    note sp = settled_plan [OF s run [unfolded Inr]]
    show ?thesis
    proof (cases "ar_kill_at arguments = ''before_plan''")
      case True
      then show ?thesis
        using p run Inr u same by (auto simp: scenario_planned_def HardExit_def left_by_def unattempted_def)
    next
      case False
      then have "worker_dispatch (\<lambda>_. Error_Text (''scenario completion failed'' @ line_end)) arguments w 3
          (plan_line plan) plan e1 = p"
        using p(1) run Inr by (simp add: scenario_planned_def)
      note l = worker_dispatch_leaves [OF sp(2,1,3) this p(2), of e0]
      then show ?thesis using u same moves_trans by (auto simp: unattempted_def)
    qed
  qed
qed


lemma mode_scenario_leaves:
  assumes s: "settled e" and scope: "valid_id scope" and p: "mode_scenario arguments w scope e = p" "pr_engine p = Some e'"
  shows "moves e e' \<and> left_by (pr_exit p) e e'"
proof (cases "\<exists>code message. p = Die message code [] w (Some e) \<and> code < 69")
  case True
  then show ?thesis using p(2) by (auto simp: Die_def)
next
  case False
  then obtain intent_id :: IntentId and definition_id :: DefinitionId and reporter :: ReporterId
    and observation_id :: ObservationId and d x0
    where ids: "TryParseId ''intent/worker-scenario'' = Some intent_id" "TryParseId ''definition/worker'' = Some definition_id"
      "TryParseId ''reporter/worker'' = Some reporter" "TryParseId ''observation/worker/scenario'' = Some observation_id"
      and docs: "declare_subjects (subject_indices arguments) (worker_intent intent_id definition_id scope) = Some d"
      "observe_subjects (subject_indices arguments) (worker_submission observation_id reporter scope) = Some x0"
    using p(1) by (fastforce simp: mode_scenario_def split: option.splits)
  let ?x = "\<lambda>e. x0\<lparr>su_generation := next_generation reporter scope e\<rparr>"
  have doc: "worker_document d" by (rule declared_document [OF docs(1) ids(1,2) [THEN parsed_valid] scope])
  have "worker_report x0" by (rule observed_report [OF docs(2) ids(4,3) [THEN parsed_valid] scope])
  then have report: "worker_report (?x e)" for e by (simp add: worker_report_def)
  obtain c r1 e1 where c: "engine_CommitIntent (wo_clocks w 0) d e = (c, r1, e1)" by (cases rule: prod_cases3)
  obtain r r2 e2 where r: "RecordObservationAt (wo_clocks w 1) (?x e1) (ar_now arguments) e1 = (r, r2, e2)"
    by (cases rule: prod_cases3)
  have run: "p = (if \<not> status_ok c then Die ''scenario intent commit failed'' 4 [] w (Some e1)
      else if \<not> status_ok r then Die ''scenario observation failed'' 5 [] w (Some e2) else scenario_planned arguments w scope e2)"
    unfolding p(1) [symmetric] by (simp add: mode_scenario_def Let_def ids docs c r [unfolded One_nat_def])
  note m1 = worker_commit [OF s doc c]
  show ?thesis
  proof (cases "status_ok c")
    case False
    then show ?thesis using run p(2) m1(1) by (simp add: Die_def)
  next
    case True
    have s1: "settled e1" by (rule unattempted_settled [OF m1(2) [OF True] s])
    note m2 = worker_record [OF s1 report r]
    show ?thesis
    proof (cases "status_ok r")
      case False
      then show ?thesis using True run p(2) m1(1) m2(1) moves_trans by (auto simp: Die_def)
    next
      case ok: True
      have u: "unattempted e e2" using m1(2) [OF True] m2(2) [OF ok] unattempted_trans by blast
      have "scenario_planned arguments w scope e2 = p" using run True ok by simp
      from scenario_planned_leaves [OF unattempted_settled [OF u s] this p(2), of e]
      show ?thesis using u moves_trans by (auto simp: unattempted_def)
    qed
  qed
qed

text \<open>The process as a whole, on a store that an earlier incarnation may have left.\<close>

lemma begun_settled:
  assumes "begun w e" "unat (cval (ds_next_attempt (en_state e))) + max_plan_actions default_limits < 2 ^ 64"
  shows "settled e"
  using assms by (auto simp: begun_def epoch_begun_def settled_def)

lemma worker_run_leaves:
  assumes p: "worker_run arguments w = p" "pr_engine p = Some e'" and sound: "store_sound w (ar_store arguments)"
    and e: "open_store w (ar_store arguments) = (opened, Some e)"
    and room: "unat (cval (ds_next_attempt (en_state e))) + max_plan_actions default_limits < 2 ^ 64"
  shows "moves e e' \<and> left_by (pr_exit p) e e'"
proof -
  have s: "settled e" by (rule begun_settled [OF open_store_begun [OF e sound] room])
  show ?thesis
  proof (cases "TryParseId (ar_scope arguments) :: ScopeId option")
    case None
    then show ?thesis using p e by (auto simp: worker_run_def Die_def)
  next
    case (Some scope)
    note valid = parsed_valid [OF Some]
    show ?thesis
      using p e Some mode_seed_leaves [OF s valid _ p(2)] mode_observe_leaves [OF s valid _ p(2)] mode_compact_leaves [OF _ p(2)]
        mode_reconcile_leaves [OF s _ p(2)] mode_scenario_leaves [OF s valid _ p(2)]
      by (auto simp: worker_run_def Die_def mode_report_def split: if_splits)
  qed
qed

end
