(* ===== verification/Tool_Scenario.thy ===== *)
theory Tool_Scenario
  imports Worker_Laws Service_Scenario
begin

text \<open>
  A machine on which the theorems about the tools are exercised: every directory is empty, every file can be
  written, and nothing interferes with a process.
\<close>

definition demo_world :: World where
  "demo_world =
     \<lparr>wo_files = (\<lambda>_. None), wo_write = (\<lambda>_. Write_Complete), wo_disk = (\<lambda>_. fresh_disk),
      wo_store_id = StoreId (replicate 16 1), wo_boot = demo_boot, wo_boot_clock = 5, wo_boot_clocks = demo_clocks,
      wo_clocks = (\<lambda>_. demo_clocks), wo_other_boot = demo_peer, wo_kernel = \<lparr>k_open = [], k_calls = []\<rparr>,
      wo_bound_port = 9000, wo_stdin = [(''stop'', \<lambda>v. v)], wo_stopping = (\<lambda>v. v)\<rparr>"

text \<open>An engine in its first epoch that holds these intents and observations and nothing else.\<close>

definition holding ::
    "(ScopeId, IntentDocument) omap \<Rightarrow> (ScopeId, ObservationDocument list) omap \<Rightarrow> Engine \<Rightarrow> bool" where
  "holding intents observations e \<longleftrightarrow> healthy (en_store e) \<and> en_live_epoch e = Counter 1 \<and> en_live_boot e = demo_boot \<and>
     en_limits e = default_limits \<and> ds_has_policy (en_state e) \<and> ds_policy (en_state e) = DefaultPolicy \<and>
     ds_fences (en_state e) = [] \<and> ds_next_attempt (en_state e) = Counter 1 \<and> ds_intents (en_state e) = intents \<and>
     ds_observations (en_state e) = observations"

abbreviation newborn :: "Engine \<Rightarrow> bool" where
  "newborn \<equiv> holding [] []"

lemma demo_world_boots:
  "\<exists>report s e. Store_Open default_limits True False (StoreId (replicate 16 1)) (ck_header demo_clocks)
      (ck_report demo_clocks) fresh_disk = (Status_Ok, report, s) \<and> resumable default_limits (st_state s) \<and>
    Boot (default_engine_options\<lparr>eo_store_dir := dir\<rparr>) (StoreId (replicate 16 1)) demo_boot 5 demo_clocks fresh_disk = (Status_Ok, e) \<and>
    newborn e"
proof -
  let ?options = "default_engine_options\<lparr>eo_store_dir := dir\<rparr>"
  have "policy_typed policy_new" "id_empty (po_id policy_new)"
    by (simp_all add: policy_typed_def policy_new_def wf_id_def id_empty_def)
  then have "policy_typed (eo_initial_policy ?options)" "id_empty (po_id (eo_initial_policy ?options))"
    "eo_limits ?options = default_limits" "eo_create_if_missing ?options" "\<not> eo_read_only ?options" "eo_install_initial_policy ?options"
    by (simp_all add: default_engine_options_def)
  then obtain report s e where b: "Store_Open default_limits True False (StoreId (replicate 16 1)) (ck_header demo_clocks)
      (ck_report demo_clocks) fresh_disk = (Status_Ok, report, s)" "resumable default_limits (st_state s)"
    "Boot ?options (StoreId (replicate 16 1)) demo_boot 5 demo_clocks fresh_disk = (Status_Ok, e)"
    "\<exists>q. en_state e = (apply_policy DefaultPolicy (durable_new\<lparr>ds_store := StoreId (replicate 16 1)\<rparr>))
      \<lparr>ds_last_epoch := Counter 1, ds_sequence := q\<rparr>"
    "healthy (en_store e)" "en_live_epoch e = Counter 1" "en_live_boot e = demo_boot" "en_options e = ?options"
    using fresh_boots [OF demo_gen demo_ids(3), of ?options demo_clocks 5] by blast
  then have "newborn e" by (auto simp: holding_def apply_policy_def durable_new_def default_engine_options_def)
  then show ?thesis using b(1-3) by blast
qed

lemma demo_world_opens:
  "dir \<noteq> [] \<Longrightarrow> \<exists>e. open_store demo_world dir = (Status_Ok, Some e) \<and> newborn e"
  "open_store demo_world dir = (opened, Some e) \<Longrightarrow> newborn e"
  "store_sound demo_world dir"
proof -
  obtain report s e where b: "Store_Open default_limits True False (StoreId (replicate 16 1)) (ck_header demo_clocks)
      (ck_report demo_clocks) fresh_disk = (Status_Ok, report, s)" "resumable default_limits (st_state s)"
    "Boot (default_engine_options\<lparr>eo_store_dir := dir\<rparr>) (StoreId (replicate 16 1)) demo_boot 5 demo_clocks fresh_disk = (Status_Ok, e)"
    "newborn e"
    using demo_world_boots by blast
  then show "dir \<noteq> [] \<Longrightarrow> \<exists>e. open_store demo_world dir = (Status_Ok, Some e) \<and> newborn e"
    "open_store demo_world dir = (opened, Some e) \<Longrightarrow> newborn e" for opened e
    by (auto simp: open_store_def engine_Open_def demo_world_def Let_def default_engine_options_def split: if_splits)
  show "store_sound demo_world dir"
    using b(1,2) by (simp add: store_sound_def demo_world_def)
qed

lemma newborn_room: "newborn e \<Longrightarrow> unat (cval (ds_next_attempt (en_state e))) + max_plan_actions default_limits < 2 ^ 64"
  by (simp add: holding_def)

lemma demo_world_threads: "threads_run demo_world"
  by (simp add: threads_run_def demo_world_def)


lemma cli_main_named:
  assumes "parse_options args (Options_new\<lparr>cl_command := command\<rparr>) = Parsed options" "command_named command = Some run"
    "command \<notin> {''--version'', ''--help'', ''-h'', ''serve''}"
  shows "cli_main (command # args) w = Some (run options w)"
  using assms parse_options_command [OF assms(1)] by (simp add: cli_main_def run_command_def)

lemma CommandComplete_engine:
  assumes "OpenEngine options w = (opened, Some e)"
  shows "\<exists>e'. pr_engine (CommandComplete options w) = Some e'"
  using assms by (simp add: CommandComplete_def with_engine_def Let_def split: option.split prod.split)


section \<open>A reconciliation by the worker\<close>

text \<open>What the worker publishes when it is asked for one subject.\<close>

abbreviation rack :: ScopeId where "rack \<equiv> StringId ''fabric/rack-7''"

definition first_subject :: SubjectId where "first_subject = StringId ''node/n0/port/eth0''"

definition first_intent :: IntentDocument where
  "first_intent = (worker_intent (StringId ''intent/worker-scenario'') (StringId ''definition/worker'') rack)
     \<lparr>in_subjects := [(first_subject, declared_mtu first_subject mtu_key 9000)]\<rparr>"

definition first_submission :: ObservationSubmission where
  "first_submission = (worker_submission (StringId ''observation/worker/scenario'') (StringId ''reporter/worker'') rack)
     \<lparr>su_subjects := [(first_subject, seen_mtu first_subject mtu_key 1500)]\<rparr>"

lemma worker_ids:
  "TryParseId ''intent/worker-scenario'' = Some (StringId ''intent/worker-scenario'' :: IntentId)"
  "TryParseId ''definition/worker'' = Some (StringId ''definition/worker'' :: DefinitionId)"
  "TryParseId ''reporter/worker'' = Some (StringId ''reporter/worker'' :: ReporterId)"
  "TryParseId ''observation/worker/scenario'' = Some (StringId ''observation/worker/scenario'' :: ObservationId)"
  "TryParseId ''fabric/rack-7'' = Some rack" "TryParseId (build_subject 0) = Some first_subject"
  by (simp_all only: TryParseId_def first_subject_def) code_simp+

lemmas worker_valid = worker_ids [THEN parsed_valid]

lemma first_documents:
  "declare_subjects [0] (worker_intent (StringId ''intent/worker-scenario'') (StringId ''definition/worker'') rack) = Some first_intent"
  "observe_subjects [0] (worker_submission (StringId ''observation/worker/scenario'') (StringId ''reporter/worker'') rack) =
     Some first_submission"
  by (simp_all add: worker_ids(6) first_intent_def first_submission_def worker_intent_def worker_submission_def
      IntentDocument_new_def ObservationSubmission_new_def emplace_or_keep_def map_emplace_def worker_mtu_def)

lemma mtu_map: "emplace_or_keep key v [] = [(key, v)]"
  by (simp add: emplace_or_keep_def map_emplace_def)

lemma first_intent_ok:
  "worker_document first_intent" "intent_typed first_intent" "status_ok (ValidateIntent first_intent default_limits)"
  "fits (intent_puts (stamped_intent first_intent))"
  "length (octets (intent_puts (stamped_intent first_intent))) \<le> max_journal_payload_bytes default_limits"
proof -
  show d: "worker_document first_intent" by (rule declared_document [OF first_documents(1) worker_valid(1,2,5)])
  then show "intent_typed first_intent" by (intro keyed_intent_typed) (simp_all add: worker_document_def first_intent_def)
  show "status_ok (ValidateIntent first_intent default_limits)"
    by (simp add: ValidateIntent_def first_intent_def worker_intent_def declared_mtu_def mtu_map id_empty_def first_subject_def
        validate_subject_def validate_attribute_def ValidateState_def default_limits_def Let_def mtu_key_def)
  have "length (octets (intent_puts (stamped_intent first_intent))) \<le> 400"
    by (simp add: first_intent_def worker_intent_def stamped_intent_def intent_puts_def intent_content_puts_def
        subject_intent_puts_def declared_mtu_def mtu_map EncodeState_def state_entry_Encode_def first_subject_def ComputeIntentDigest_def kSha256Bytes_def mtu_key_def)
  then show "fits (intent_puts (stamped_intent first_intent))"
    "length (octets (intent_puts (stamped_intent first_intent))) \<le> max_journal_payload_bytes default_limits"
    by (simp_all add: fits_def kMaxCanonicalBytes_def default_limits_def)
qed


lemma first_submission_ok:
  "worker_report (first_submission\<lparr>su_generation := g\<rparr>)" "submission_typed (first_submission\<lparr>su_generation := g\<rparr>)"
  "status_ok (ValidateSubmission (first_submission\<lparr>su_generation := g\<rparr>) default_limits)"
  "fits (observation_puts (stamp_observation (first_submission\<lparr>su_generation := g\<rparr>) t e))"
  "length (octets (observation_puts (stamp_observation (first_submission\<lparr>su_generation := g\<rparr>) t e))) \<le>
     max_journal_payload_bytes default_limits"
proof -
  have "worker_report first_submission" by (rule observed_report [OF first_documents(2) worker_valid(4,3,5)])
  then show r: "worker_report (first_submission\<lparr>su_generation := g\<rparr>)" by (simp add: worker_report_def)
  then show "submission_typed (first_submission\<lparr>su_generation := g\<rparr>)"
    by (intro keyed_submission_typed) (simp_all add: worker_report_def first_submission_def)
  show "status_ok (ValidateSubmission (first_submission\<lparr>su_generation := g\<rparr>) default_limits)"
    by (simp add: ValidateSubmission_def first_submission_def worker_submission_def seen_mtu_def mtu_map id_empty_def first_subject_def
        validate_subject_def validate_attribute_def ValidateState_def default_limits_def Let_def mtu_key_def)
  have "length (octets (observation_puts (stamp_observation (first_submission\<lparr>su_generation := g\<rparr>) t e))) \<le> 400"
    by (simp add: first_submission_def worker_submission_def stamp_observation_def observation_puts_def observation_content_puts_def
        subject_observation_puts_def seen_mtu_def mtu_map EncodeState_def state_entry_Encode_def first_subject_def ComputeObservationDigest_def
        kSha256Bytes_def mtu_key_def Let_def)
  then show "fits (observation_puts (stamp_observation (first_submission\<lparr>su_generation := g\<rparr>) t e))"
    "length (octets (observation_puts (stamp_observation (first_submission\<lparr>su_generation := g\<rparr>) t e))) \<le>
     max_journal_payload_bytes default_limits"
    by (simp_all add: fits_def kMaxCanonicalBytes_def default_limits_def)
qed

lemma published_tables:
  "ds_has_policy (apply_intent limits d st) = ds_has_policy st" "ds_policy (apply_intent limits d st) = ds_policy st"
  "ds_fences (apply_intent limits d st) = ds_fences st" "ds_observations (apply_intent limits d st) = ds_observations st"
  "ds_intents (apply_intent limits d st) = map_set (in_scope d) d (ds_intents st)"
  "ds_has_policy (apply_observation limits x st) = ds_has_policy st" "ds_policy (apply_observation limits x st) = ds_policy st"
  "ds_fences (apply_observation limits x st) = ds_fences st" "ds_intents (apply_observation limits x st) = ds_intents st"
  by (simp_all add: apply_intent_def apply_observation_def TrimObservations_def Let_def split: option.split)

lemma newborn_commits:
  assumes inv: "engine_inv e" and new: "newborn e"
  shows "\<exists>x e1. engine_CommitIntent ck first_intent e = (Status_Ok, Some x, e1) \<and> engine_inv e1 \<and>
    holding [(rack, stamped_intent first_intent)] [] e1"
proof -
  have lim: "en_limits e = default_limits" "ds_intents (en_state e) = []" "healthy (en_store e)" using new by (simp_all add: holding_def)
  obtain x e1 where run: "engine_CommitIntent ck first_intent e = (Status_Ok, Some x, e1)"
    using CommitIntent_succeeds [OF inv lim(3) first_intent_ok(2), of ck] first_intent_ok(3-5) lim(1,2) by (auto simp: map_find_def)
  have m: "moves e e1" by (rule engine_CommitIntent_moves [OF run first_intent_ok(2)])
  then have same: "engine_inv e1" "en_live_epoch e1 = en_live_epoch e" "en_live_boot e1 = en_live_boot e" "en_limits e1 = en_limits e"
    using inv by (simp_all add: moves_def)
  have st: "agrees (apply_intent (en_limits e) (stamped_intent first_intent) (en_state e)) (en_state e1)"
    using CommitIntent_contract [OF inv run _ first_intent_ok(2)] lim(2) by (auto simp: map_find_def)
  have "in_scope (stamped_intent first_intent) = rack" by (simp add: stamped_intent_def first_intent_def worker_intent_def)
  then have "ds_intents (en_state e1) = [(rack, stamped_intent first_intent)]"
    using agrees_tables(3) [OF st] lim(2) by (simp add: published_tables)
  moreover have "healthy (en_store e1)" by (rule CommitIntent_healthy [OF run lim(3)])
  ultimately have "holding [(rack, stamped_intent first_intent)] [] e1"
    using same new agrees_tables [OF st] documents_unattempted by (simp add: holding_def published_tables)
  then show ?thesis using run same(1) by blast
qed

text \<open>What the engine records of the submission.\<close>

definition first_observation :: "UnixMillis \<Rightarrow> Engine \<Rightarrow> ObservationDocument" where
  "first_observation now e = stamp_observation (first_submission\<lparr>su_generation := Counter 1\<rparr>) now e"

lemma newborn_records:
  assumes inv: "engine_inv e" and new: "holding [(rack, stamped_intent first_intent)] [] e" and now: "now \<noteq> 0"
  shows "next_generation (StringId ''reporter/worker'') rack e = Counter 1"
    "\<exists>x e1. RecordObservationAt ck (first_submission\<lparr>su_generation := Counter 1\<rparr>) now e = (Status_Ok, Some x, e1) \<and> engine_inv e1 \<and>
      holding [(rack, stamped_intent first_intent)] [(rack, [first_observation now e])] e1"
proof -
  let ?x = "first_submission\<lparr>su_generation := Counter 1\<rparr>"
  have lim: "en_limits e = default_limits" "ds_observations (en_state e) = []" "healthy (en_store e)" using new by (simp_all add: holding_def)
  then show "next_generation (StringId ''reporter/worker'') rack e = Counter 1"
    by (simp add: next_generation_def ObservationEvidence_def map_find_def lookup_or_def)
  obtain x e1 where run: "RecordObservationAt ck ?x now e = (Status_Ok, Some x, e1)"
    using RecordObservation_succeeds [OF inv lim(3) first_submission_ok(2), of "Counter 1" now ck] first_submission_ok(3-5) lim(1,2)
    by (auto simp: retained_def map_find_def lookup_or_def)
  have m: "moves e e1" by (rule RecordObservationAt_moves [OF run first_submission_ok(2)])
  then have same: "engine_inv e1" "en_live_epoch e1 = en_live_epoch e" "en_live_boot e1 = en_live_boot e" "en_limits e1 = en_limits e"
    using inv by (simp_all add: moves_def)
  have stamp: "stamp_observation ?x (stamp_or now (ck_now ck)) e = first_observation now e" "ob_scope (first_observation now e) = rack"
    using now by (simp_all add: first_observation_def stamp_or_def stamp_observation_def first_submission_def worker_submission_def Let_def)
  have st: "agrees (apply_observation (en_limits e) (first_observation now e) (en_state e)) (en_state e1)"
    using RecordObservation_contract [OF inv run _ first_submission_ok(2)] lim(2) stamp(1)
    by (auto simp: retained_def map_find_def lookup_or_def)
  have "ds_observations (en_state e1) = [(rack, [first_observation now e])]"
    using agrees_tables(4) [OF st] lim stamp(2)
    by (simp add: apply_observation_def TrimObservations_def map_find_def lookup_or_def trim_front_drop default_limits_def Let_def)
  moreover have "healthy (en_store e1)" by (rule RecordObservation_healthy [OF run lim(3)])
  ultimately have "holding [(rack, stamped_intent first_intent)] [(rack, [first_observation now e])] e1"
    using same new agrees_tables [OF st] documents_unattempted by (simp add: holding_def published_tables)
  then show "\<exists>x e1. RecordObservationAt ck ?x now e = (Status_Ok, Some x, e1) \<and> engine_inv e1 \<and>
      holding [(rack, stamped_intent first_intent)] [(rack, [first_observation now e])] e1"
    using run same(1) by blast
qed


text \<open>The observation differs from the intent in the one attribute, so the plan has the one action.\<close>

abbreviation rack_request :: PlanRequest where
  "rack_request \<equiv> PlanRequest_new\<lparr>pq_scope := rack, pq_now_unix_ms := 1000\<rparr>"

lemma first_observation_fields:
  assumes "en_live_epoch e = Counter 1"
  shows "ob_observation (first_observation now e) = StringId ''observation/worker/scenario''"
    "ob_reporter (first_observation now e) = StringId ''reporter/worker''" "ob_generation (first_observation now e) = Counter 1"
    "ob_received_epoch (first_observation now e) = Counter 1" "ob_received_unix_ms (first_observation now e) = now"
    "ob_scope (first_observation now e) = rack" "ob_subjects (first_observation now e) = [(first_subject, seen_mtu first_subject mtu_key 1500)]"
  using assms by (simp_all add: first_observation_def stamp_observation_def first_submission_def worker_submission_def Let_def)

lemma stamped_fields:
  "in_intent (stamped_intent first_intent) = StringId ''intent/worker-scenario''"
  "in_definition (stamped_intent first_intent) = StringId ''definition/worker''"
  "in_generation (stamped_intent first_intent) = Counter 1" "in_scope (stamped_intent first_intent) = rack"
  "in_subjects (stamped_intent first_intent) = [(first_subject, declared_mtu first_subject mtu_key 9000)]"
  by (simp_all add: stamped_intent_def first_intent_def worker_intent_def)

lemma mtu_drift:
  defines "walk \<equiv> WalkAttributes [(mtu_key, Value_Unsigned 9000)] [(mtu_key, Value_Unsigned 1500)] True True DefaultPolicy"
  shows "dr_drift (compared_record scope k ec walk) = Drift_Mismatched"
    "map ad_kind (dr_deltas (compared_record scope k ec walk)) = [Delta_ValueMismatch]"
  by (simp_all add: walk_def WalkAttributes_def compared_record_def MakeRecord_def push_delta_def walk_new_def HasActionableDelta_def
      IsAttributeUnmanaged_def IsAttributeObserveOnly_def DefaultPolicy_def ComparableWith_def binary_search_def lower_bound.simps Let_def)

lemma published_input:
  fixes ck :: Clocks
  assumes hold: "holding [(rack, stamped_intent first_intent)] [(rack, [first_observation 1000 e0])] e" and e0: "en_live_epoch e0 = Counter 1"
  defines "input \<equiv> plan_input ck rack_request e"
  shows "full_classification input DefaultPolicy (stamped_intent first_intent) (first_observation 1000 e0)"
    "ci_scope input = rack" "ci_intents input = [Some (stamped_intent first_intent)]"
    "ci_observations input = [Some (first_observation 1000 e0)]" "plan_policy rack_request e = DefaultPolicy"
proof -
  show policy: "plan_policy rack_request e = DefaultPolicy"
    using hold by (simp add: plan_policy_def holding_def PlanRequest_new_def lookup_or_def)
  show "ci_scope input = rack" by (simp add: input_def plan_input_fields)
  have "EvaluateFreshness (first_observation 1000 e0) (po_freshness DefaultPolicy) (Counter 1) 1000 = Fresh_Fresh"
    using first_observation_fields [OF e0] by (simp add: EvaluateFreshness_def DefaultPolicy_def)
  moreover show lists: "ci_intents input = [Some (stamped_intent first_intent)]" "ci_observations input = [Some (first_observation 1000 e0)]"
    using hold by (simp_all add: input_def plan_input_fields holding_def retained_def map_find_def lookup_or_def)
  moreover have "ci_live_epoch input = Counter 1" "ci_now_unix_ms input = 1000" "ci_policy input = Some DefaultPolicy"
    "ci_committed_intent_generation input = in_generation (stamped_intent first_intent)"
    using hold policy
    by (simp_all add: input_def plan_input_fields plan_now_def stamp_or_def holding_def retained_def map_find_def lookup_or_def
        plan_input_def scope_input_def Let_def)
  ultimately show "full_classification input DefaultPolicy (stamped_intent first_intent) (first_observation 1000 e0)"
    by (simp add: full_classification_def SelectCurrentIntent_def SelectCurrentObservation_def clash_def)
qed


lemma published_classification:
  assumes hold: "holding [(rack, stamped_intent first_intent)] [(rack, [first_observation 1000 e0])] e" and e0: "en_live_epoch e0 = Counter 1"
  shows "\<exists>rep r. ClassifyScope (plan_input ck rack_request e) = Inr rep \<and>
    cr_evidence rep = scope_evidence (plan_input ck rack_request e) DefaultPolicy (Some (stamped_intent first_intent))
      (Some (first_observation 1000 e0)) \<and>
    cr_records rep = [r] \<and> dr_drift r = Drift_Mismatched \<and> map ad_kind (dr_deltas r) = [Delta_ValueMismatch] \<and>
    dr_scope r = rack \<and> dr_subject r = first_subject"
proof -
  let ?in = "plan_input ck rack_request e" and ?i = "stamped_intent first_intent" and ?o = "first_observation 1000 e0"
  note input = published_input(1-4) [OF hold e0, of ck]
  note full = input(1) [unfolded full_classification_def]
  have sel: "is_selected (SelectCurrentIntent (ci_intents ?in)) = Some ?i"
    "os_selected (SelectCurrentObservation (ci_observations ?in)) = Some ?o"
    using full by simp_all
  have "\<exists>rep. ClassifyScope ?in = Inr rep"
    using sel input full selected_not_conflicted(1) [of "ci_intents ?in" ?i] selected_not_conflicted(2) [of "ci_observations ?in" ?o]
    by (simp add: ClassifyScope_def Let_def id_empty_def stamped_fields first_observation_fields [OF e0])
  then obtain rep where rep: "ClassifyScope ?in = Inr rep" by blast
  let ?r = "fst (reference_record ?in DefaultPolicy ?i ?o first_subject)"
  have "cr_records rep = [?r]"
    using ClassifyScope_compares [OF rep input(1)]
    by (simp add: stamped_fields first_observation_fields [OF e0] merge_keys_def map_keys_def)
  moreover have r: "?r = compared_record rack first_subject (ev_evidence (scope_evidence ?in DefaultPolicy (Some ?i) (Some ?o)))
      (WalkAttributes [(mtu_key, Value_Unsigned 9000)] [(mtu_key, Value_Unsigned 1500)] True True DefaultPolicy)"
    by (simp add: reference_record_def map_find_def stamped_fields first_observation_fields [OF e0] input(2)
        declared_mtu_def seen_mtu_def mtu_map Let_def)
  have "dr_drift ?r = Drift_Mismatched" "map ad_kind (dr_deltas ?r) = [Delta_ValueMismatch]" unfolding r by (rule mtu_drift)+
  moreover have "dr_scope ?r = rack" "dr_subject ?r = first_subject"
    unfolding r by (simp_all add: compared_record_def MakeRecord_def Let_def)
  ultimately show ?thesis using rep ClassifyScope_evidence [OF rep, of DefaultPolicy] full sel by simp
qed

lemma permitted: "permit_apply_mismatched DefaultPolicy"
  by (simp add: DefaultPolicy_def)

lemma published_plan:
  assumes inv: "engine_inv e" and hold: "holding [(rack, stamped_intent first_intent)] [(rack, [first_observation 1000 e0])] e"
    and e0: "en_live_epoch e0 = Counter 1"
  shows "\<exists>plan e' d. engine_Plan ck rack_request e = (Inr plan, e') \<and> pl_decisions plan = [d] \<and> dispatchable e' d \<and> plan_stale plan e' = None"
proof -
  let ?in = "plan_input ck rack_request e"
  obtain rep r where rep: "ClassifyScope ?in = Inr rep" "cr_records rep = [r]"
      "cr_evidence rep = scope_evidence ?in DefaultPolicy (Some (stamped_intent first_intent)) (Some (first_observation 1000 e0))"
    and r: "dr_drift r = Drift_Mismatched" "map ad_kind (dr_deltas r) = [Delta_ValueMismatch]" "dr_scope r = rack"
      "dr_subject r = first_subject"
    using published_classification [OF hold e0, of ck] by (elim exE conjE)
  note h = hold [unfolded holding_def]
  let ?pc = "plan_context DefaultPolicy ?in (cr_evidence rep) e"
  have fresh: "ev_freshness (cr_evidence rep) = Fresh_Fresh"
    using published_input(1) [OF hold e0, of ck] by (simp add: rep(3) scope_evidence_def full_classification_def Let_def)
  have "aa_proven (assess_subject ?pc rack first_subject e)"
    unfolding assess_subject_def AssessAuthority_proven
  proof
    fix c
    show "\<not> component_fails (pc_authority ?pc) (pc_live ?pc) (ev_freshness (pc_evidence ?pc) = Fresh_Fresh)
        (FenceHoldsFor rack first_subject (en_live_epoch e) e) c"
      using fresh demo_policy_id h
      by (cases c) (simp_all add: plan_context_def BuildAuthority_def rep(3) scope_evidence_def id_empty_def
          FenceHoldsFor_def stamped_fields first_observation_fields [OF e0] Let_def)
  qed
  then have act: "de_disposition (fst (decide ?pc e r)) = Disp_Actionable"
    using r by (auto simp: decide_def plan_context_def choose_mismatched_def permitted Let_def)
  obtain plan e' where plan: "BuildPlanLocked ck rack_request e = (Inr plan, e')"
    using BuildPlanLocked_succeeds [OF _ _ rep(1)] h by (auto simp: id_empty_def)
  obtain rep' where "ClassifyScope ?in = Inr rep'" "pl_decisions plan =
       map (\<lambda>r. fst (decide (plan_context (plan_policy rack_request e) ?in (cr_evidence rep') e) e r))
         (take (max_plan_actions (en_limits e)) (cr_records rep'))" "en_store e' = en_store e" "en_live_epoch e' = en_live_epoch e"
      "en_live_boot e' = en_live_boot e"
    by (rule BuildPlanLocked_parts [OF plan]) (rule that; assumption)
  then have d: "pl_decisions plan = [fst (decide ?pc e r)]" and same: "en_store e' = en_store e" "en_live_epoch e' = en_live_epoch e"
    "en_live_boot e' = en_live_boot e"
    using rep(1,2) h published_input(5) [OF hold e0] by simp_all
  have "plan_stale plan e = None"
    using published_input(1) [OF hold e0, of ck] published_input(5) [OF hold e0] h inv
    by (intro fresh_plan_not_stale [OF plan])
      (simp_all add: engine_inv_def map_find_def full_classification_def plan_input_fields)
  moreover have "plan_stale plan e' = plan_stale plan e" by (simp only: plan_stale_def same)
  ultimately have "plan_stale plan e' = None" by simp
  moreover have "dispatchable e' (fst (decide ?pc e r))" using act h same by (simp add: dispatchable_def FenceHoldsFor_def)
  ultimately show ?thesis using plan d unfolding engine_Plan_def by blast
qed


text \<open>
  The run of the worker up to its termination after the dispatch: it publishes the two documents in an empty
  directory, plans the one action, and hands it out.
\<close>

definition scenario_arguments :: Arguments where
  "scenario_arguments =
     Arguments_new\<lparr>ar_store := ''s'', ar_mode := ''scenario'', ar_subjects := 1, ar_kill_at := ''after_dispatch_before_ack''\<rparr>"

lemma published_dispatches:
  assumes inv: "engine_inv e" and hold: "holding [(rack, stamped_intent first_intent)] [(rack, [first_observation 1000 e0])] e"
    and e0: "en_live_epoch e0 = Counter 1"
  shows "\<exists>e'. pr_engine (scenario_planned scenario_arguments w rack e) = Some e' \<and> pr_exit (scenario_planned scenario_arguments w rack e) = 71"
proof -
  obtain plan e1 d where plan: "engine_Plan (wo_clocks w 2) rack_request e = (Inr plan, e1)" "pl_decisions plan = [d]" "dispatchable e1 d"
    "plan_stale plan e1 = None"
    using published_plan [OF inv hold e0] by blast
  have same: "en_store e1 = en_store e" by (rule plan_decisions_bound(2) [OF plan(1)])
  have inv1: "engine_inv e1" using classification_moves(2) [OF plan(1)] inv by (simp add: moves_def)
  have ok: "plan_ok plan" by (rule BuildPlanLocked_plan_ok [OF inv plan(1) [unfolded engine_Plan_def]])
  have room: "unat (cval (ds_next_attempt (en_state e1))) + length (pl_decisions plan) < 2 ^ 64"
    using hold plan(2) same by (simp add: holding_def)
  have "healthy (en_store e1)" using hold same by (simp add: holding_def)
  then obtain r e2 where run: "Dispatch (wo_clocks w 3) plan e1 = (Inr r, e2)"
    "map ai_idempotency_key (dp_intents r) = map de_idempotency_key (filter (dispatchable e1) (pl_decisions plan))"
    using Dispatch_succeeds [OF inv1 _ ok plan(4) room] by blast
  then obtain action rest where "dp_intents r = action # rest" using plan(2,3) by (cases "dp_intents r") auto
  then show ?thesis
    using plan(1) run(1)
    by (simp add: scenario_planned_def scenario_arguments_def Arguments_new_def worker_dispatch_def worker_complete_def HardExit_def Let_def)
qed

lemma newborn_scenario:
  assumes inv: "engine_inv e" and new: "newborn e"
  shows "\<exists>e'. pr_engine (mode_scenario scenario_arguments w rack e) = Some e' \<and> pr_exit (mode_scenario scenario_arguments w rack e) = 71"
proof -
  obtain x1 e1 where c: "engine_CommitIntent (wo_clocks w 0) first_intent e = (Status_Ok, Some x1, e1)" "engine_inv e1"
    "holding [(rack, stamped_intent first_intent)] [] e1"
    using newborn_commits [OF inv new] by blast
  obtain x2 e2 where r: "RecordObservationAt (wo_clocks w 1) (first_submission\<lparr>su_generation := Counter 1\<rparr>) 1000 e1 = (Status_Ok, Some x2, e2)"
    "engine_inv e2" "holding [(rack, stamped_intent first_intent)] [(rack, [first_observation 1000 e1])] e2"
    using newborn_records(2) [OF c(2,3), of 1000 "wo_clocks w 1"] by auto
  have "subject_indices scenario_arguments = [0]" "ar_now scenario_arguments = 1000"
    by (simp_all add: subject_indices_def scenario_arguments_def Arguments_new_def)
  then have "mode_scenario scenario_arguments w rack e = scenario_planned scenario_arguments w rack e2"
    by (simp add: mode_scenario_def worker_ids first_documents c(1) newborn_records(1) [OF c(2,3), of 1000]
        r(1) [unfolded One_nat_def] Let_def del: declare_subjects.simps observe_subjects.simps)
  moreover have "en_live_epoch e1 = Counter 1" using c(3) by (simp add: holding_def)
  ultimately show ?thesis using published_dispatches [OF r(2,3)] by simp
qed

end
