(* ===== verification/Spec2Isabelle.thy ===== *)
theory Spec2Isabelle
  imports Document_Json_Laws Service_Scenario Entropy Tool_Scenario
begin

text \<open>
  A verification library of Fabric Reconciliation, a C++ coordinator that compares declared intent
  with observed state of scopes, classifies the drift between them, plans corrective actions, hands
  them out as attempts and keeps the lineage of all of it in a crash-safe store. Paths below are
  relative to \<open>src/src\<close>, headers to \<open>src/include/summon/fabric_reconciliation\<close>.

  \<^bold>\<open>Parts of the program and how they interact.\<close> Workers and operators talk to an engine
  (\<open>engine.cpp\<close>). The engine owns a durable store (\<open>store.cpp\<close>), which is a journal of records
  (\<open>journal.cpp\<close>) and an atomically replaced snapshot (\<open>snapshot.cpp\<close>); everything stored is
  encoded by the canonical codec (\<open>canonical.cpp\<close>) and bound by SHA-256 digests (\<open>hash.cpp\<close>). A plan
  is made from the newest intent and observation of a scope (\<open>document.cpp\<close>), classified by
  \<open>drift.cpp\<close> under a policy (\<open>policy.cpp\<close>), guarded by an authority vector (\<open>authority.cpp\<close>) and
  explained step by step (\<open>explain.cpp\<close>); decisions, actions and outcomes are those of \<open>plan.cpp\<close> and
  \<open>lineage.cpp\<close>. Outside processes reach the engine through a loopback service (\<open>server.cpp\<close>) and its
  client (\<open>client.cpp\<close>), which exchange requests and responses (\<open>wire_ops.hpp\<close>) in digest-protected frames
  (\<open>wire.cpp\<close>) over blocking sockets (\<open>net.cpp\<close>). Operators see documents as JSON (\<open>json.cpp\<close>,
  \<open>document_json.cpp\<close>) and as text. Two programs under \<open>src/tools\<close> drive the library: the command line tool of the
  operators and a worker that terminates itself at chosen points of a reconciliation.

  \<^bold>\<open>Theories and the code they model.\<close> One theory per source file, its definitions in the order of the
  code and under the code's names (a prefix \<open>engine_\<close>, \<open>store_\<close>, \<open>journal_\<close> where two files share a
  name, field prefixes such as \<open>at_\<close> for \<open>AttemptRecord\<close>).
  \<^item> \<open>Prelude\<close>: bytes, text, little-endian loads and stores, \<open>std::map\<close> as a strictly sorted association
    list behind the locale \<open>ordered_map\<close>.
  \<^item> \<open>Identity\<close>, \<open>Status_Model\<close>: identifiers, checked 64-bit counters, status and reason codes, limits.
    \<open>Entropy\<close>: the generation of boot and store identities.
    A \<open>Status\<close> carries its code and reason; the free detail text is left out. \<open>Result<T>\<close> is a sum.
  \<^item> \<open>Hash\<close>: the streaming SHA-256 hasher with its buffer and length counter, and the one-pass
    reference it equals.
  \<^item> \<open>Canonical\<close>: writer and reader of the canonical encoding, with the locales \<open>codec\<close> and
    \<open>map_codec\<close> that every encoder and decoder of the other theories interprets.
  \<^item> \<open>Attr_Value\<close>, \<open>Document\<close>, \<open>Policy\<close>, \<open>Authority\<close>, \<open>Plan\<close>, \<open>Lineage\<close>: the data of the program, its
    validation, encodings and digests.
  \<^item> \<open>Drift\<close>: selection of the current intent and observation (locale \<open>selection\<close>), freshness, the
    lock-step attribute walk and the merge over subjects.
  \<^item> \<open>Journal\<close>, \<open>Snapshot\<close>, \<open>Store\<close>: files are byte lists; each system call takes its outcome from a list of
    faults in the state, so a short write, a failed flush or a failed rename is a branch of the model.
    A failed open returns the closed store with what it left on disk.
  \<^item> \<open>Engine\<close>: the whole \<open>ReconciliationEngine\<close>: boot, policy, intents, observations, plans,
    dispatch, completion, verification, fences, compaction and queries. Clock reads and
    entropy are arguments; the mutex makes each operation one step, so operations are functions on
    the engine record. \<open>Render_Text\<close> has its text renderings.
  \<^item> \<open>Wire\<close>, \<open>Wire_Ops\<close>: frames with the incremental reader, and the four envelopes.
  \<^item> \<open>Json\<close>, \<open>Document_Json\<close>: the JSON value, parser and printer, and every \<open>ToJson\<close> and \<open>ParseJson\<close>. Doubles
    are exact signed binary fractions with the rounding of \<open>strtod\<close> and the digits of \<open>%.17g\<close>.
  \<^item> \<open>Net\<close>: connections over the results of \<open>select\<close>, \<open>recv\<close> and \<open>send\<close>, and the descriptors of the calls that
    create sockets.
  \<^item> \<open>Server_Ops\<close>, \<open>Server\<close>: \<open>Handle\<close> with one definition per operation, \<open>ReceiveFrame\<close>, the handshake and
    one pass of the frame loop of \<open>ServeSession\<close>, the two halves of the accept loop and of \<open>Stop\<close>. The
    threads share only the engine, whose operations are atomic, and atomic counters, so a pass is a step
    and \<open>server_step\<close> has all the interleavings. The two engine calls of a dispatch are not
    atomic: what other threads do between them is an argument of the handler.
  \<^item> \<open>Client\<close>: handshake, exchange and call with its retry; a call that still waits is \<^const>\<open>None\<close>.
  \<^item> \<open>Process\<close>, \<open>Cli\<close>, \<open>Worker\<close>: the tools as functions from arguments and a \<open>World\<close> (files, store directories,
    clocks, drawn identities, standard input, what the threads of a service do meanwhile) to the exit code, the
    printed text, the written files and the engine they end with; \<^const>\<open>None\<close> is a process that serves for ever.

  \<^bold>\<open>What is proved.\<close>
  \<^item> \<open>Durability\<close>: the invariant \<open>store_inv\<close> (memory equals what a reopen computes), the locale \<open>journalled\<close>
    interpreted for every kind of record, and the refinement of an abstract log by the store under
    failures and crashes.
  \<^item> \<open>Planning\<close>: what an actionable decision and a proven convergence mean.
  \<^item> \<open>Lifecycle\<close>, \<open>Evolution\<close>: every operation keeps \<open>engine_inv\<close> and moves the durable state only
    forwards (locales \<open>closing\<close> and \<open>closing_loop\<close> for the restart and fence loops).
  \<^item> \<open>Guarantees\<close>, \<open>Restart\<close>, \<open>Contracts\<close>: fences revoke, dispatch is idempotent, a boot begins a newer
    epoch and closes live attempts, and the exact table changes behind each acknowledgement.
  \<^item> \<open>Progress\<close>: on a store whose system calls succeed, an operation whose guards hold is acknowledged.
  \<^item> \<open>Wire\<close>: a reader delivers exactly the frames of a stream, in chunks of any size, and only authentic
    ones. \<open>Json_Laws\<close>, \<open>Document_Json_Laws\<close>: printed documents are read back, accepted ones
    respect every limit, and which exports are refused on import.
  \<^item> \<open>Server_Laws\<close>, \<open>Server_Stop\<close>: every run of the service is a run of engine operations, requests act only
    when bound to their session, identities of sessions are distinct, released sessions end, and
    which session a stop can miss. \<open>Protocol\<close>: client and service together, from the handshake to the answer.
  \<^item> \<open>Reproducible\<close>: what a plan depends on. \<open>Hash_Vector\<close>: the published digest of \<open>abc\<close>, evaluated in the kernel.
  \<^item> \<open>Tool_Documents\<close>, \<open>Cli_Laws\<close>, \<open>Worker_Laws\<close>: the documents the tools build are well typed, a process only applies
    engine operations to the epoch it began, its exit codes, its options read back, what it cannot do across
    processes, and what each termination of the worker leaves in the store.
  \<^item> \<open>Scenario\<close>, \<open>Service_Scenario\<close>, \<open>Tool_Scenario\<close>: a concrete coordinator, a service and client around it, and a
    machine for the tools, on which the theorems with hypotheses are exercised.
  This theory states the properties of the manifest over those lemmas.

  \<^bold>\<open>Bounds and hypotheses.\<close> No definition needs fuel: loops are structural, or functions with a
  termination proof (the frame loop by the events of its socket, the JSON parser by the remaining text). Where
  a theorem needs room it says so: attempt identities that are not about to run out (2^64), fewer than
  2^64 - 1 allowed sessions, records and envelopes that fit the writer (64 MiB) and the receiver. Progress is
  claimed for stores whose system calls succeed; everything else holds for any failures.

  \<^bold>\<open>Not modelled.\<close> The detail texts of the engine's statuses (they decide nothing; the service's own
  are kept), peer descriptions and error texts of sockets, the Windows branches, the move operations of the
  client, and benchmarks, examples and tests, which only drive the
  library. The operating system, the network, clocks and entropy are parameters.
\<close>

section \<open>The durable store\<close>



section \<open>The life of a coordinator\<close>





text \<open>
  C5. A successful boot begins a strictly newer epoch over exactly the state that was on disk:
  no attempt is left live, every attempt that was live is closed by an outcome, marked ambiguous
  exactly when the attempt had been handed out, and intents, observations, policy and fences are kept.
\<close>

theorem restart_begins_epoch:
  assumes "Boot options gen boot clock ck disk = (status, e)" "status_ok status" "\<not> eo_read_only options"
    "Store_Open (eo_limits options) (eo_create_if_missing options) False gen (ck_header ck) (ck_report ck) disk =
      (Status_Ok, report, s)"
    "resumable (eo_limits options) (st_state s)" "policy_typed (eo_initial_policy options)" "wf_boot boot"
    "0 < max_attempt_transitions (eo_limits options)" "max_attempt_transitions (eo_limits options) < 2 ^ 32"
  shows "\<exists>st. epoch_begun st e \<and> resumable (eo_limits options) st \<and> progresses (st_state s) st \<and>
      ds_attempts st = ds_attempts (st_state s) \<and> ds_last_epoch st = ds_last_epoch (st_state s) \<and>
      (ds_has_policy (st_state s) \<longrightarrow> st = st_state s)"
  by (rule Boot_begins_epoch(1) [OF assms])

theorem restart_begins_epoch_witness:
  "\<exists>e st. Boot demo_options (StoreId (replicate 16 1)) demo_boot 5 demo_clocks fresh_disk = (Status_Ok, e) \<and> epoch_begun st e"
proof -
  obtain report s e where b: "Store_Open default_limits True False (StoreId (replicate 16 1)) (ck_header demo_clocks)
      (ck_report demo_clocks) fresh_disk = (Status_Ok, report, s)" "resumable default_limits (st_state s)"
      "Boot demo_options (StoreId (replicate 16 1)) demo_boot 5 demo_clocks fresh_disk = (Status_Ok, e)"
    using demo_boots by blast
  have o: "\<not> eo_read_only demo_options" "eo_create_if_missing demo_options" "policy_typed (eo_initial_policy demo_options)"
    using demo_policy_stored
    by (simp_all add: demo_options_def policy_typed_def wf_id_def policy_stored_def policy_ok_def DefaultPolicy_def)
  obtain st where "epoch_begun st e"
    using restart_begins_epoch [of demo_options "StoreId (replicate 16 1)" demo_boot 5 demo_clocks fresh_disk Status_Ok e report s]
      b o by auto
  then show ?thesis using b(3) by blast
qed

text \<open>
  C6. Neither freshness nor the authority to act survives a restart: until a new observation is
  recorded, no plan of the new incarnation contains an actionable decision.
\<close>

theorem restart_grants_no_authority:
  assumes "epoch_begun st e" "resumable limits st" "BuildPlanLocked ck request e = (Inr plan, e')"
  shows "\<forall>d \<in> set (pl_decisions plan). de_disposition d \<noteq> Disp_Actionable"
  using restart_no_actions [OF assms] by blast

theorem restart_grants_no_authority_witness:
  "\<exists>e plan e'. epoch_begun (en_state demo_engine) e \<and> BuildPlanLocked demo_clocks demo_request e = (Inr plan, e') \<and>
     pl_decisions plan \<noteq> [] \<and> (\<forall>d \<in> set (pl_decisions plan). de_disposition d \<noteq> Disp_Actionable)"
proof -
  have res: "resumable default_limits (en_state demo_engine)" using engine_inv_resumable [OF demo_engine_inv] by simp
  obtain e where run: "begin_epoch 5 demo_engine = (Status_Ok, e)"
    using begin_epoch_succeeds [OF demo_healthy, of 5] res by auto
  have begun: "epoch_begun (en_state demo_engine) e" "en_options e = demo_options"
    using begin_epoch_begun [OF run] res by simp_all
  then have st: "ds_intents (en_state e) = ds_intents demo_state" "ds_observations (en_state e) = ds_observations demo_state"
    "ds_has_policy (en_state e)" "ds_policy (en_state e) = DefaultPolicy" "en_live_epoch e = Counter 2"
    by (simp_all add: epoch_begun_def)
  let ?in = "plan_input demo_clocks demo_request e"
  have f: "ci_scope ?in = demo_scope" "ci_intents ?in = [Some demo_intent]" "ci_observations ?in = [Some demo_observation]"
    "ci_policy ?in = Some DefaultPolicy" "ci_live_epoch ?in = Counter 2" "ci_has_committed_intent ?in"
    "ci_committed_intent_generation ?in = Counter 1"
    by (simp_all add: plan_input_fields demo_request_def retained_def st map_find_def lookup_or_def plan_policy_def
        plan_input_def scope_input_def Let_def)
  have "EvaluateFreshness demo_observation (po_freshness DefaultPolicy) (Counter 2) t = Fresh_ForeignEpoch" for t
    by (simp add: EvaluateFreshness_def DefaultPolicy_def)
  then have "\<exists>rep. ClassifyScope ?in = Inr rep \<and> length (cr_records rep) = 1"
    using f demo_input(2)
    by (simp add: ClassifyScope_def SelectCurrentIntent_def SelectCurrentObservation_def clash_def scope_evidence_def
        evidence_new_def collect_all_def CollectSubjects_def insort_insert_key_def uniform_records_def Let_def)
  then obtain rep where rep: "ClassifyScope ?in = Inr rep" "length (cr_records rep) = 1" by blast
  obtain plan e' where plan: "BuildPlanLocked demo_clocks demo_request e = (Inr plan, e')"
    using BuildPlanLocked_succeeds [OF _ _ rep(1)] demo_input(2) st(3) by (auto simp: demo_request_def)
  obtain rep' where rep': "ClassifyScope ?in = Inr rep'" "length (pl_decisions plan) =
      length (take (max_plan_actions (en_limits e)) (cr_records rep'))"
    by (rule BuildPlanLocked_parts [OF plan]) (metis length_map)
  have "pl_decisions plan \<noteq> []" using rep rep' begun(2) by auto
  then show ?thesis using begun(1) plan restart_grants_no_authority [OF begun(1) res plan] by blast
qed

section \<open>Fences, plans and dispatch\<close>

text \<open>
  C7. An acknowledged fence revokes: no attempt it covers, issued below the fenced epoch, is live
  afterwards.
\<close>

theorem fence_revokes:
  assumes "engine_inv e" "engine_PutFence ck f e = (status, e')" "status_ok status" "fence_ok f"
  shows "\<forall>k a. map_find k (ds_attempts (en_state e')) = Some a \<longrightarrow> fence_covers f (at_scope a) (at_subject a) \<longrightarrow>
    at_epoch a < fe_fenced_below f \<longrightarrow> IsTerminalAttemptState (at_state a)"
  using engine_PutFence_revokes [OF assms] by blast

theorem fence_revokes_witness:
  "\<exists>f e'. engine_PutFence demo_clocks f demo_engine = (Status_Ok, e') \<and>
     (\<forall>a. map_find 2 (ds_attempts (en_state e')) = Some a \<longrightarrow> fence_covers f (at_scope a) (at_subject a) \<longrightarrow>
        at_epoch a < fe_fenced_below f \<longrightarrow> IsTerminalAttemptState (at_state a))"
proof -
  let ?f = "\<lparr>fe_id = StringId ''f'', fe_scope = demo_scope, fe_subject = StringId [], fe_fenced_below = Counter 2,
    fe_reason = Reason_None, fe_detail = [], fe_created_unix_ms = 0\<rparr> :: FenceEntry"
  have "valid_id (StringId ''f'' :: FenceId)" by (simp add: valid_id_def) code_simp
  then have f: "fence_ok ?f" by (simp add: fence_ok_def wf_id_def id_empty_def word_le_nat_alt)
  obtain e where put: "engine_PutFence demo_clocks ?f demo_engine = (Status_Ok, e)"
    using PutFence_succeeds [OF demo_engine_inv demo_healthy f] by auto
  have "status_ok Status_Ok" by simp
  from fence_revokes [OF demo_engine_inv put this f] show ?thesis using put by blast
qed

text \<open>
  C9. A plan acts only on evidence: every actionable decision rests on the committed intent and on
  the selected observation of the scope, which is fresh, was received in this epoch and is contradicted by no other
  document of its generation; the subject really drifted in the way the decision says, by the
  reference comparison; the policy permits the action and is the active one; no fence covers the subject.
\<close>

theorem plan_acts_only_on_evidence:
  assumes "durable_wf limits (en_state e)" "BuildPlanLocked ck request e = (Inr plan, e')"
    "d \<in> set (pl_decisions plan)" "de_disposition d = Disp_Actionable"
  shows "\<exists>intent observation. plan_evidence ck request e intent observation \<and>
    ob_received_epoch observation = en_live_epoch e \<and>
    permitted (plan_policy request e)
      (fst (reference_record (plan_input ck request e) (plan_policy request e) intent observation (de_subject d))) (de_action d) \<and>
    ComputePolicyDigest (plan_policy request e) = ComputePolicyDigest (ds_policy (en_state e)) \<and>
    \<not> FenceHoldsFor (pq_scope request) (de_subject d) (en_live_epoch e) e"
  by (rule actionable_decision [OF assms]) metis

theorem plan_acts_only_on_evidence_witness:
  "\<exists>plan e' d. BuildPlanLocked demo_clocks demo_request demo_engine = (Inr plan, e') \<and> d \<in> set (pl_decisions plan) \<and>
     de_disposition d = Disp_Actionable \<and>
     (\<exists>intent observation. plan_evidence demo_clocks demo_request demo_engine intent observation)"
proof -
  obtain plan e' where plan: "BuildPlanLocked demo_clocks demo_request demo_engine = (Inr plan, e')"
    and ds: "map de_disposition (pl_decisions plan) = [Disp_Actionable]"
    using demo_plan by metis
  then obtain d where d: "d \<in> set (pl_decisions plan)" "de_disposition d = Disp_Actionable" by auto
  have wf: "durable_wf default_limits (en_state demo_engine)" using demo_durable_wf by simp
  show ?thesis using plan d plan_acts_only_on_evidence [OF wf plan d] by blast
qed



text \<open>
  C11. Dispatching is idempotent: after a plan was dispatched, dispatching it again hands out exactly
  the same actions, all of them already issued, and issues no attempt.
\<close>

theorem dispatch_is_idempotent:
  assumes "engine_inv e" "plan_ok plan" "unat (cval (ds_next_attempt (en_state e))) + length (pl_decisions plan) < 2 ^ 64"
    "Dispatch ck plan e = (Inr r, e1)"
  shows "\<exists>r2 e2. Dispatch ck2 plan e1 = (Inr r2, e2) \<and> dp_intents r2 = dp_intents r \<and>
    dp_already_issued r2 = length (dp_intents r) \<and> ds_attempts (en_state e2) = ds_attempts (en_state e1) \<and>
    ds_next_attempt (en_state e2) = ds_next_attempt (en_state e1)"
  using Dispatch_twice [OF assms, of ck2] by auto

theorem dispatch_is_idempotent_witness:
  "\<exists>plan r e1 r2 e2. Dispatch demo_clocks plan demo_engine = (Inr r, e1) \<and> dp_intents r \<noteq> [] \<and>
     Dispatch demo_clocks plan e1 = (Inr r2, e2) \<and> dp_intents r2 = dp_intents r"
proof -
  obtain plan e' where plan: "BuildPlanLocked demo_clocks demo_request demo_engine = (Inr plan, e')"
    and ds: "map de_disposition (pl_decisions plan) = [Disp_Actionable]"
    using demo_plan by metis
  have ok: "plan_ok plan" by (rule BuildPlanLocked_plan_ok [OF demo_engine_inv plan])
  have stale: "plan_stale plan demo_engine = None"
    by (rule fresh_plan_not_stale [OF plan])
      (simp_all add: demo_request_def plan_policy_def map_find_def retained_def lookup_or_def
        SelectCurrentObservation_def clash_def)
  have len: "length (pl_decisions plan) = 1" using ds by (metis length_map length_Cons list.size(3) One_nat_def)
  have room: "unat (cval (ds_next_attempt (en_state demo_engine))) + length (pl_decisions plan) < 2 ^ 64"
    by (simp add: len)
  obtain r e1 where run: "Dispatch demo_clocks plan demo_engine = (Inr r, e1)"
    and keys: "map ai_idempotency_key (dp_intents r) = map de_idempotency_key (filter (dispatchable demo_engine) (pl_decisions plan))"
    using Dispatch_succeeds [OF demo_engine_inv demo_healthy ok stale room] by blast
  have "filter (dispatchable demo_engine) (pl_decisions plan) = pl_decisions plan"
    using ds by (auto simp: dispatchable_def FenceHoldsFor_def)
  then have "dp_intents r \<noteq> []" using keys len by auto
  then show ?thesis using run dispatch_is_idempotent [OF demo_engine_inv ok room run] by blast
qed

text \<open>
  C12. Dispatching makes progress: on a store whose system calls succeed, a current plan is
  dispatched, and the actions handed out are, in order, those of all actionable decisions that no fence covers.
\<close>

theorem dispatch_hands_out_every_action:
  assumes "engine_inv e" "healthy (en_store e)" "plan_ok plan" "plan_stale plan e = None"
    "unat (cval (ds_next_attempt (en_state e))) + length (pl_decisions plan) < 2 ^ 64"
  shows "\<exists>r e'. Dispatch ck plan e = (Inr r, e') \<and>
    map ai_idempotency_key (dp_intents r) = map de_idempotency_key (filter (dispatchable e) (pl_decisions plan))"
  by (rule Dispatch_succeeds [OF assms])

theorem dispatch_hands_out_every_action_witness:
  "\<exists>plan r e'. plan_ok plan \<and> Dispatch demo_clocks plan demo_engine = (Inr r, e') \<and>
     map ai_idempotency_key (dp_intents r) = map de_idempotency_key (filter (dispatchable demo_engine) (pl_decisions plan))"
proof -
  obtain plan e' where plan: "BuildPlanLocked demo_clocks demo_request demo_engine = (Inr plan, e')"
    and ds: "map de_disposition (pl_decisions plan) = [Disp_Actionable]"
    using demo_plan by metis
  have ok: "plan_ok plan" by (rule BuildPlanLocked_plan_ok [OF demo_engine_inv plan])
  have stale: "plan_stale plan demo_engine = None"
    by (rule fresh_plan_not_stale [OF plan])
      (simp_all add: demo_request_def plan_policy_def map_find_def retained_def lookup_or_def
        SelectCurrentObservation_def clash_def)
  have "length (pl_decisions plan) = 1" using ds by (metis length_map length_Cons list.size(3) One_nat_def)
  then show ?thesis
    using ok dispatch_hands_out_every_action [OF demo_engine_inv demo_healthy ok stale, of demo_clocks] by auto
qed

text \<open>
  C19. The plans an engine builds are well-typed: every actionable decision carries a
  digest-sized key, valid identities and an authority vector that survives being stored.
\<close>

theorem built_plans_are_dispatchable:
  assumes "engine_inv e" "BuildPlanLocked ck request e = (Inr plan, e')"
  shows "plan_ok plan"
  by (rule BuildPlanLocked_plan_ok [OF assms])

theorem built_plans_are_dispatchable_witness:
  "\<exists>plan e'. BuildPlanLocked demo_clocks demo_request demo_engine = (Inr plan, e') \<and> pl_decisions plan \<noteq> [] \<and> plan_ok plan"
proof -
  obtain plan e' where plan: "BuildPlanLocked demo_clocks demo_request demo_engine = (Inr plan, e')"
    and ds: "map de_disposition (pl_decisions plan) = [Disp_Actionable]"
    using demo_plan by metis
  then show ?thesis using built_plans_are_dispatchable [OF demo_engine_inv plan] by force
qed

section \<open>Completion and verification\<close>

text \<open>
  C20. An acknowledged completion is exact: the attempt is the one named, with the same key, of the
  running epoch and boot, still live, and the step is legal; the durable tables change by exactly that
  transition, and by its outcome when the step closes the attempt.
\<close>

theorem completion_contract:
  assumes "engine_inv e" "Complete ck rq e = (status, out, e')" "status_ok status"
    "cq_reason rq \<le> Reason_RestartLeasesNotRestored"
  shows "\<exists>a. completable rq e a \<and> out = Some (completed_outcome ck rq e a) \<and>
    agrees (if IsTerminalAttemptState (cq_target rq)
            then apply_outcome (en_limits e) (completed_outcome ck rq e a)
                   (apply_attempt (en_limits e) (completed ck rq e a) (en_state e))
            else apply_attempt (en_limits e) (completed ck rq e a) (en_state e)) (en_state e')"
  by (rule Complete_contract [OF assms])

theorem completion_contract_witness:
  "\<exists>e' a. Complete demo_clocks (demo_completion Attempt_Applied) demo_engine =
       (Status_Ok, Some (completed_outcome demo_clocks (demo_completion Attempt_Applied) demo_engine a), e') \<and>
     completable (demo_completion Attempt_Applied) demo_engine a"
proof -
  let ?rq = "demo_completion Attempt_Applied" and ?a = "demo_attempt 2 Attempt_Dispatched"
  have a: "completable ?rq demo_engine ?a" by (rule demo_completable) simp
  have r: "cq_reason ?rq \<le> Reason_RestartLeasesNotRestored" by (simp add: demo_completion_def word_le_nat_alt)
  obtain e' where run: "Complete demo_clocks ?rq demo_engine = (Status_Ok, Some (completed_outcome demo_clocks ?rq demo_engine ?a), e')"
    using Complete_succeeds [OF demo_engine_inv demo_healthy a r] by blast
  show ?thesis using run completion_contract [OF demo_engine_inv run _ r] by auto
qed

text \<open>
  C21. An attempt is closed at most once: after a completion that closes it, every other
  completion of the same attempt is refused and leaves the store as it is.
\<close>

theorem completion_happens_once:
  assumes "engine_inv e" "Complete ck rq e = (status, out, e')" "status_ok status"
    "cq_reason rq \<le> Reason_RestartLeasesNotRestored" "IsTerminalAttemptState (cq_target rq)"
    "cq_attempt rq' = cq_attempt rq" "Complete ck' rq' e' = (status', out', e'')"
  shows "\<not> status_ok status' \<and> en_store e'' = en_store e'"
  using Complete_once [OF assms] by blast

theorem completion_happens_once_witness:
  "\<exists>e' out status' out' e''. Complete demo_clocks (demo_completion Attempt_Failed) demo_engine = (Status_Ok, out, e') \<and>
     Complete demo_clocks (demo_completion Attempt_Applied) e' = (status', out', e'') \<and>
     \<not> status_ok status' \<and> en_store e'' = en_store e'"
proof -
  let ?rq = "demo_completion Attempt_Failed" and ?rq' = "demo_completion Attempt_Applied"
  have a: "completable ?rq demo_engine (demo_attempt 2 Attempt_Dispatched)" by (rule demo_completable) simp
  have r: "cq_reason ?rq \<le> Reason_RestartLeasesNotRestored" "IsTerminalAttemptState (cq_target ?rq)"
    "cq_attempt ?rq' = cq_attempt ?rq" by (simp_all add: demo_completion_def word_le_nat_alt)
  obtain out e' where run: "Complete demo_clocks ?rq demo_engine = (Status_Ok, out, e')"
    using Complete_succeeds [OF demo_engine_inv demo_healthy a r(1)] by blast
  obtain status' out' e'' where run': "Complete demo_clocks ?rq' e' = (status', out', e'')" by (metis prod_cases3)
  show ?thesis using run run' completion_happens_once [OF demo_engine_inv run _ r run'] by auto
qed

text \<open>
  Completion makes progress: on a store whose system calls succeed, every completion whose
  guards hold is acknowledged, with the outcome of that attempt.
\<close>

theorem completion_is_accepted:
  assumes "engine_inv e" "healthy (en_store e)" "completable rq e a" "cq_reason rq \<le> Reason_RestartLeasesNotRestored"
  shows "\<exists>e'. Complete ck rq e = (Status_Ok, Some (completed_outcome ck rq e a), e')"
  by (rule Complete_succeeds [OF assms])

theorem completion_is_accepted_witness:
  "\<exists>out e'. Complete demo_clocks (demo_completion Attempt_Applied) demo_engine = (Status_Ok, Some out, e')"
proof -
  let ?rq = "demo_completion Attempt_Applied"
  have a: "completable ?rq demo_engine (demo_attempt 2 Attempt_Dispatched)" by (rule demo_completable) simp
  have r: "cq_reason ?rq \<le> Reason_RestartLeasesNotRestored" by (simp add: demo_completion_def word_le_nat_alt)
  show ?thesis using completion_is_accepted [OF demo_engine_inv demo_healthy a r] by blast
qed

text \<open>
  C22. An acknowledged verification is exact: the attempt was applied in this incarnation, the verifier
  is not the applier where the policy asks for independence, and the evidence is an observation the
  coordinator itself has retained from that verifier, fresh, and of a later generation than the plan
  was made from; the tables change by exactly the closing transition and its outcome.
\<close>

theorem verification_contract:
  assumes "engine_inv e" "Verify ck v e = (status, out, e')" "status_ok status"
  shows "\<exists>a d. verifiable ck v e a d \<and> out = Some (verified_outcome ck v e a) \<and>
    agrees (apply_outcome (en_limits e) (verified_outcome ck v e a)
              (apply_attempt (en_limits e) (verified ck v e a) (en_state e))) (en_state e')"
  by (rule Verify_contract [OF assms])

theorem verification_contract_witness:
  "\<exists>out e' a d. Verify demo_clocks demo_evidence demo_engine = (Status_Ok, Some out, e') \<and>
     verifiable demo_clocks demo_evidence demo_engine a d"
proof -
  obtain out e' where run: "Verify demo_clocks demo_evidence demo_engine = (Status_Ok, Some out, e')"
    using Verify_succeeds [OF demo_engine_inv demo_healthy demo_verifiable] by blast
  show ?thesis using run verification_contract [OF demo_engine_inv run] by auto
qed

section \<open>Intents and observations\<close>

text \<open>
  C23. An acknowledged intent is either the very document already committed, recognised by generation
  and digest and then not written again, or of a strictly later generation than the committed one, and
  then it is the committed intent afterwards.
\<close>

theorem intent_commit_contract:
  assumes "engine_inv e" "engine_CommitIntent ck d e = (status, out, e')" "status_ok status" "intent_typed d"
  shows "(\<exists>old. map_find (in_scope d) (ds_intents (en_state e)) = Some old \<and> in_generation old = in_generation d \<and>
        in_digest old = ComputeIntentDigest d \<and> map_option ic_duplicate out = Some True \<and> en_store e' = en_store e) \<or>
    ((\<forall>old. map_find (in_scope d) (ds_intents (en_state e)) = Some old \<longrightarrow> in_generation old < in_generation d) \<and>
      map_option ic_duplicate out = Some False \<and>
      agrees (apply_intent (en_limits e) (stamped_intent d) (en_state e)) (en_state e'))"
  by (rule CommitIntent_contract [OF assms])

theorem intent_commit_contract_witness:
  "\<exists>out e'. engine_CommitIntent demo_clocks demo_next_intent demo_engine = (Status_Ok, Some out, e') \<and>
     agrees (apply_intent (en_limits demo_engine) (stamped_intent demo_next_intent) (en_state demo_engine)) (en_state e')"
proof -
  have "\<exists>x e'. engine_CommitIntent demo_clocks demo_next_intent demo_engine = (Status_Ok, Some x, e')"
    by (rule CommitIntent_succeeds [OF demo_engine_inv demo_healthy demo_next_intent_ok(1)])
      (use demo_next_intent_ok in simp_all)
  then obtain out e' where run: "engine_CommitIntent demo_clocks demo_next_intent demo_engine = (Status_Ok, Some out, e')"
    by blast
  have "\<not> (\<exists>old. map_find (in_scope demo_next_intent) (ds_intents (en_state demo_engine)) = Some old \<and>
      in_generation old = in_generation demo_next_intent)"
    using demo_next_intent_ok(5) by (auto simp: less_counter_def)
  then show ?thesis
    using run intent_commit_contract [OF demo_engine_inv run _ demo_next_intent_ok(1)] by auto
qed



text \<open>
  C25. A read-only engine refuses every mutation and changes nothing.
\<close>

theorem read_only_engine_refuses:
  assumes "st_read_only (en_store e)"
  shows "engine_PutPolicy p same e = (engine_read_only, e) \<and> engine_CommitIntent ck d e = (engine_read_only, None, e) \<and>
    RecordObservationAt ck s at_ms e = (engine_read_only, None, e) \<and> Dispatch ck plan e = (Inl engine_read_only, e) \<and>
    Complete ck rq e = (engine_read_only, None, e) \<and> Verify ck v e = (engine_read_only, None, e) \<and>
    engine_PutFence ck f e = (engine_read_only, e) \<and> engine_ClearFence i e = (engine_read_only, e) \<and>
    engine_Compact ck e = (engine_read_only, e) \<and> \<not> status_ok engine_read_only"
  using read_only_refuses [OF assms] by simp

theorem read_only_engine_refuses_witness:
  "\<exists>e. st_read_only (en_store e) \<and> engine_Compact demo_clocks e = (engine_read_only, e)"
proof -
  let ?e = "demo_engine\<lparr>en_store := (en_store demo_engine)\<lparr>st_read_only := True\<rparr>\<rparr>"
  have "st_read_only (en_store ?e)" by simp
  then show ?thesis using read_only_engine_refuses [of ?e] by blast
qed

section \<open>Classification and authority\<close>

text \<open>
  C26. Where a scope has a current intent and a fresh unconflicted observation, the single merge
  pass over both documents gives, for every subject of either, exactly the record of the
  subject-by-subject reference, in identity order, and looks at each subject once.
\<close>

theorem classification_reference:
  assumes "ClassifyScope input = Inr rep" "full_classification input policy intent observation"
    "wf_map (in_subjects intent)" "wf_map (ob_subjects observation)"
  shows "cr_records rep = map (fst \<circ> reference_record input policy intent observation)
    (sorted_list_of_set (map_keys (in_subjects intent) \<union> map_keys (ob_subjects observation)))"
  using ClassifyScope_compares [OF assms] by (simp add: merge_keys_def)

theorem classification_reference_witness:
  "\<exists>rep. ClassifyScope (plan_input demo_clocks demo_request demo_engine) = Inr rep \<and> cr_records rep \<noteq> [] \<and>
     cr_records rep = map (fst \<circ> reference_record (plan_input demo_clocks demo_request demo_engine) DefaultPolicy
         demo_intent demo_observation)
       (sorted_list_of_set (map_keys (in_subjects demo_intent) \<union> map_keys (ob_subjects demo_observation)))"
proof -
  obtain rep where rep: "ClassifyScope (plan_input demo_clocks demo_request demo_engine) = Inr rep"
      "map dr_drift (cr_records rep) = [Drift_Missing]"
    using demo_classification by metis
  have "cr_records rep \<noteq> []" using rep(2) by auto
  moreover have "wf_map (in_subjects demo_intent)" "wf_map (ob_subjects demo_observation)" by simp_all
  ultimately show ?thesis using rep(1) classification_reference [OF rep(1) demo_input(7)] by blast
qed

text \<open>
  A declared subject is reported missing exactly when the observation does not have it and, where
  the policy insists, the observation is complete and speaks for absence; an undeclared one is
  reported unexpected exactly when it is seen and the intent is complete.
\<close>

theorem absence_needs_authority:
  "(dr_drift (fst (reference_record input policy intent observation k)) = Drift_Missing \<longleftrightarrow>
     k \<in> map_keys (in_subjects intent) \<and> k \<notin> map_keys (ob_subjects observation) \<and>
     (if require_complete_coverage_for_absence (po_freshness policy)
      then ob_complete observation \<and> ob_authoritative_absence observation else True)) \<and>
   (dr_drift (fst (reference_record input policy intent observation k)) = Drift_Unexpected \<longleftrightarrow>
     k \<notin> map_keys (in_subjects intent) \<and> k \<in> map_keys (ob_subjects observation) \<and> in_complete intent)"
  using reference_record_missing reference_record_unexpected by simp



text \<open>
  Authority is proven exactly when every one of its components binds: epoch and boot, the three
  policy components, definition, intent and observation identity, freshness, and no fence.
\<close>

theorem authority_is_complete:
  "aa_proven (AssessAuthority v live freshness_reason fresh fenced) \<longleftrightarrow> (\<forall>c. \<not> component_fails v live fresh fenced c)"
  by (rule AssessAuthority_proven)

text \<open>
  The selected observation is one of the candidates, the greatest in the documented order, and no
  other candidate of its generation says anything different.
\<close>

theorem selection_is_unambiguous:
  assumes "os_selected (SelectCurrentObservation cs) = Some s"
  shows "Some s \<in> set cs \<and> (\<forall>d. Some d \<in> set cs \<longrightarrow> observation_key d \<le> observation_key s \<and>
    (ob_generation d = ob_generation s \<longrightarrow> ob_digest d = ob_digest s))"
  using SelectCurrentObservation_selected [OF assms] by blast

theorem selection_is_unambiguous_witness:
  "os_selected (SelectCurrentObservation [None, Some demo_observation]) = Some demo_observation \<and>
     Some demo_observation \<in> set [None, Some demo_observation]"
proof -
  have "os_selected (SelectCurrentObservation [None, Some demo_observation]) = Some demo_observation"
    by (simp add: SelectCurrentObservation_def clash_def)
  then show ?thesis using selection_is_unambiguous by blast
qed

text \<open>
  An accepted policy is canonical, canonicalising it again changes nothing, and the canonical
  policy treats exactly the listed attributes as unmanaged and observe-only.
\<close>

theorem policy_canonicalisation:
  assumes "CanonicalisePolicy limits p = (s, q)" "status_ok s"
  shows "canonical_policy limits q \<and> CanonicalisePolicy limits q = (Status_Ok, q) \<and>
    (\<forall>k. IsAttributeUnmanaged q k \<longleftrightarrow> k \<in> set (unmanaged_attributes p)) \<and>
    (\<forall>k. IsAttributeObserveOnly q k \<longleftrightarrow> k \<in> set (observe_only_attributes p))"
  using CanonicalisePolicy_canonical [OF assms] CanonicalisePolicy_fixed CanonicalisePolicy_lookup [OF assms] by blast

theorem policy_canonicalisation_witness:
  "\<exists>q. CanonicalisePolicy default_limits DefaultPolicy = (Status_Ok, q) \<and> canonical_policy default_limits q"
proof -
  have "canonical_policy default_limits DefaultPolicy" using demo_policy_stored by (simp add: policy_stored_def policy_ok_def)
  note c = CanonicalisePolicy_fixed [OF this]
  show ?thesis using c policy_canonicalisation [OF c] by simp
qed

section \<open>Encodings\<close>

text \<open>
  C29. What the validator accepts and the size limit allows comes back from its canonical encoding
  unchanged: intents, stamped observations and attempt records.
\<close>

theorem document_round_trip:
  "(intent_stored limits i \<longrightarrow> DecodeIntentExact limits (EncodeIntent i) = Some i) \<and>
   (observation_stored limits x \<longrightarrow> DecodeObservationExact limits (EncodeObservation x) = Some x) \<and>
   (attempt_stored limits a \<longrightarrow> decode_exactly (DecodeAttempt limits) (EncodeAttemptRecord a) = Some a)"
  by (auto simp: intent_stored_def observation_stored_def attempt_stored_def DecodeIntentExact_def DecodeObservationExact_def
      EncodeIntent_def EncodeObservation_def EncodeAttemptRecord_def fits_buffer decode_exactly_def AtEnd_def
      intent_codec.decode_exact observation_codec.decode_exact attempt_codec.decode_exact)

theorem document_round_trip_witness:
  "DecodeIntentExact default_limits (EncodeIntent demo_intent) = Some demo_intent \<and>
   DecodeObservationExact default_limits (EncodeObservation demo_observation) = Some demo_observation"
  using document_round_trip [of default_limits demo_intent demo_observation] demo_intent_stored demo_observation_stored
  by blast

text \<open>
  C30. A snapshot payload holds the whole durable state: decoding what was encoded gives it back, with
  only the journal position to be set by the caller.
\<close>

theorem snapshot_round_trip:
  assumes "durable_wf limits st" "durable_capped limits st"
  shows "snapshot_Decode limits (durable_new\<lparr>ds_store := ds_store st, ds_last_epoch := e\<rparr>)
    (octets (snapshot_puts st) @ r) = Some (st\<lparr>ds_sequence := Counter 0\<rparr>, r)"
  by (rule snapshot_decode_encode [OF assms])

theorem snapshot_round_trip_witness:
  "\<exists>limits. durable_capped limits demo_state \<and> snapshot_Decode limits (durable_new\<lparr>ds_store := ds_store demo_state, ds_last_epoch := Counter 0\<rparr>)
    (octets (snapshot_puts demo_state) @ []) = Some (demo_state\<lparr>ds_sequence := Counter 0\<rparr>, [])"
proof -
  have "durable_capped default_limits demo_state"
    by (simp add: durable_capped_def default_limits_def) (simp add: demo_state_def)
  then show ?thesis using snapshot_round_trip [OF demo_durable_wf] by blast
qed



section \<open>Journal, snapshot and retention\<close>

text \<open>
  C32. Opening a journal whose last record was cut short by a crash recovers every complete record and
  removes exactly the torn bytes.
\<close>

theorem journal_recovers:
  assumes "journal_holds (jo_limits options) store base rs content" "torn_part (jo_limits options) t"
    "limits_ok (jo_limits options)" "length (content @ t) \<le> max_journal_bytes (jo_limits options)"
    "\<not> jo_read_only options"
  shows "\<exists>report j. Journal_Open options gen clock clock' (Some (content @ t)) [] = (Status_Ok, rs, report, j) \<and>
    file_bytes j = content \<and> j_last_sequence j = last_of base rs \<and>
    jr_recovered_torn_tail report = (t \<noteq> []) \<and> jr_recovered_bytes report = length t"
  using Journal_reopen [OF assms, of gen clock clock'] by blast

theorem journal_recovers_witness:
  "\<exists>t report j. length t = 1 \<and> Journal_Open \<lparr>jo_limits = default_limits, jo_create_if_missing = True, jo_read_only = False\<rparr>
       (StoreId (replicate 16 1)) 0 0 (Some (BuildJournalHeaderImage (StoreId (replicate 16 1)) 0 (Counter 0) @ t)) [] =
       (Status_Ok, [], report, j) \<and> jr_recovered_bytes report = 1"
proof -
  let ?gen = "StoreId (replicate 16 1)"
  let ?o = "\<lparr>jo_limits = default_limits, jo_create_if_missing = True, jo_read_only = False\<rparr>"
  let ?h = "BuildJournalHeaderImage ?gen 0 (Counter 0)"
  let ?r = "\<lparr>jrec_sequence = Counter 1, jrec_type = Rec_EpochAdvance, jrec_payload = []\<rparr>"
  let ?t = "take 1 (rec_image ?r)"
  have h: "journal_holds default_limits ?gen (Counter 0) [] ?h"
    using demo_gen by (auto simp: journal_holds_def log_bytes_def intro: exI [of _ 0])
  have len: "length (rec_image ?r) = kRecordHeaderBytes" by (simp add: rec_image_def)
  then have l1: "length ?t = 1" by (simp add: journal_consts)
  then have "?t \<noteq> rec_image ?r" using len by (metis journal_consts(2) numeral_One numeral_eq_iff semiring_norm(83))
  then have t: "torn_part default_limits ?t"
    unfolding torn_part_def by (intro disjI2 exI [of _ ?r]) (simp add: record_ok_def take_is_prefix)
  have lim: "limits_ok default_limits" by (simp add: limits_ok_def default_limits_def)
  have "length (?h @ ?t) \<le> max_journal_bytes default_limits"
    using length_header_image [OF demo_gen, of 0 "Counter 0"] l1 by (simp add: journal_consts default_limits_def)
  then obtain report j where "Journal_Open ?o ?gen 0 0 (Some (?h @ ?t)) [] = (Status_Ok, [], report, j)"
      "jr_recovered_bytes report = length ?t"
    using journal_recovers [of ?o ?gen "Counter 0" "[]" ?h ?t ?gen 0 0] h t lim by auto
  then show ?thesis using l1 by (intro exI [of _ ?t] exI [of _ report] exI [of _ j]) simp
qed

text \<open>
  C33. A failed append never damages the log: the file keeps every byte it had, followed by a prefix of
  the new record, and the sequence does not advance; an acknowledged append adds the whole record.
\<close>

theorem append_is_all_or_prefix:
  assumes "Append ty payload j = (s, j')"
  shows "\<exists>p. prefix p (rec_image (next_record j ty payload)) \<and> file_bytes j' = file_bytes j @ p \<and>
    (if status_ok s then p = rec_image (next_record j ty payload) \<and> j_last_sequence j' = jrec_sequence (next_record j ty payload)
     else j_last_sequence j' = j_last_sequence j)"
  using Append_effect(1-3) [OF assms] by auto

theorem append_is_all_or_prefix_witness:
  "\<exists>s j'. Append Rec_EpochAdvance [] ((st_journal demo_store)\<lparr>j_faults := [Some 5]\<rparr>) = (s, j') \<and> \<not> status_ok s \<and>
     j_last_sequence j' = Counter 7"
proof -
  let ?j = "(st_journal demo_store)\<lparr>j_faults := [Some 5]\<rparr>"
  obtain s j' where run: "Append Rec_EpochAdvance [] ?j = (s, j')" by force
  have "BuildRecordImage n ty payload \<noteq> []" for n ty payload
    by (simp add: BuildRecordImage_def record_fields_def Let_def length_0_conv [symmetric] del: length_0_conv)
  then have "\<not> status_ok s"
    using run by (auto simp: Append_def WriteAll_def next_fault_def demo_store_def Let_def)
  then show ?thesis using run append_is_all_or_prefix [OF run] by (auto simp: demo_store_def)
qed

text \<open>
  C34. Publishing a snapshot is atomic: whichever system call fails, the published snapshot is either
  the new image or the old one, and an acknowledged one is read back as written.
\<close>

theorem snapshot_is_atomic:
  assumes "WriteSnapshotAtomic header payload d = (s, d')"
  shows "(if status_ok s then sf_snapshot d' = Some (BuildSnapshotImage header payload) else sf_snapshot d' = sf_snapshot d) \<and>
    (snapshot_header_ok header payload \<longrightarrow> ParseSnapshotImage (BuildSnapshotImage header payload) = Some (header, payload))"
  using WriteSnapshotAtomic_effect [OF assms] Parse_snapshot_image by auto

theorem snapshot_is_atomic_witness:
  "\<exists>s d'. WriteSnapshotAtomic (fst (compact_snapshot 0 demo_state)) [] \<lparr>sf_snapshot = Some [1], sf_staging = None, sf_faults = [Some 0]\<rparr> = (s, d') \<and>
     (sf_snapshot d' = Some (BuildSnapshotImage (fst (compact_snapshot 0 demo_state)) []) \<or> sf_snapshot d' = Some [1])"
proof -
  let ?h = "fst (compact_snapshot 0 demo_state)" and ?d = "\<lparr>sf_snapshot = Some [1], sf_staging = None, sf_faults = [Some 0]\<rparr>"
  obtain s d' where run: "WriteSnapshotAtomic ?h [] ?d = (s, d')" by force
  then show ?thesis using snapshot_is_atomic [OF run] by (auto split: if_splits)
qed

text \<open>
  C35. Retention terminates and is safe: trimming the attempt table keeps every live attempt, invents none,
  brings the table within its bound unless only live attempts are left, and drops the oldest closed
  attempts first.
\<close>

theorem retention_keeps_live_attempts:
  assumes "wf_map m"
  shows "wf_map (trim_attempts bound m) \<and> set (trim_attempts bound m) \<subseteq> set m \<and>
    (\<forall>e \<in> set m. live_entry e \<longrightarrow> e \<in> set (trim_attempts bound m)) \<and>
    (length (trim_attempts bound m) \<le> bound \<or> (\<forall>e \<in> set (trim_attempts bound m). live_entry e)) \<and>
    (\<forall>e \<in> set m - set (trim_attempts bound m). \<forall>f \<in> set (trim_attempts bound m).
       \<not> live_entry f \<longrightarrow> fst e < fst f)"
  by (rule trim_attempts_spec [OF assms])

theorem retention_keeps_live_attempts_witness:
  "wf_map (ds_attempts demo_state) \<and> length (trim_attempts 2 (ds_attempts demo_state)) \<le> 2 \<or>
     (\<forall>e \<in> set (trim_attempts 2 (ds_attempts demo_state)). live_entry e)"
proof -
  have wf: "wf_map (ds_attempts demo_state)" by simp
  show ?thesis using retention_keeps_live_attempts [OF wf, of 2] wf by blast
qed

text \<open>
  Every attempt and outcome the engine writes fits: with room for the configured lineage, the
  encoding of a well-formed attempt or outcome is never refused and never exceeds the payload bound of the journal.
\<close>

theorem records_fit:
  assumes "record_room limits" "attempt_ok limits a" "outcome_ok x"
  shows "EncodeAttemptRecord a \<noteq> [] \<and> length (EncodeAttemptRecord a) \<le> max_journal_payload_bytes limits \<and>
    EncodeOutcome x \<noteq> [] \<and> length (EncodeOutcome x) \<le> max_journal_payload_bytes limits"
  using attempt_fits [OF assms(2,1)] outcome_fits [OF assms(3,1)] transition_record.encoded outcome_record.encoded by blast

theorem records_fit_witness:
  "\<exists>x. length (EncodeAttemptRecord (demo_attempt 2 Attempt_Dispatched)) \<le> max_journal_payload_bytes default_limits \<and>
     length (EncodeOutcome x) \<le> max_journal_payload_bytes default_limits"
proof -
  have a: "attempt_ok default_limits (demo_attempt 2 Attempt_Dispatched)" by (rule demo_attempt_ok) simp_all
  have x: "outcome_ok (MakeOutcome (demo_attempt 2 Attempt_Dispatched) Attempt_Failed Reason_None False 0)"
    by (rule MakeOutcome_ok [OF a]) (simp add: word_le_nat_alt)
  show ?thesis using records_fit [OF demo_record_room a x] by blast
qed

section \<open>Identities and digests\<close>

text \<open>
  Identity validation accepts exactly the documented grammar.
\<close>

theorem identity_text_exact: "IsValidIdentityText t \<longleftrightarrow> identity_spec t"
  by (rule IsValidIdentityText_iff)

text \<open>
  The streaming hasher equals the one-pass definition of SHA-256: padding, then
  compression of every block in turn.
\<close>

theorem sha256_streaming: "Sha256Of m = sha256_reference m"
  by (rule Sha256Of_reference)

text \<open>
  Counters never wrap: the successor of a counter is the next natural number and strictly greater,
  and it is refused exactly at the largest value.
\<close>

theorem counters_never_wrap:
  "(TryNext c = None \<longleftrightarrow> unat (cval c) = 2 ^ 64 - 1) \<and>
   (\<forall>d. TryNext c = Some d \<longrightarrow> unat (cval d) = unat (cval c) + 1 \<and> c < d)"
proof -
  have "cval c = - 1 \<longleftrightarrow> unat (cval c) = 2 ^ 64 - 1"
    by (simp add: word_unat_eq_iff unsigned_minus_1_eq_mask mask_eq_exp_minus_1)
  then have "TryNext c = None \<longleftrightarrow> unat (cval c) = 2 ^ 64 - 1" by (simp add: TryNext_def)
  then show ?thesis using TryNext_Some by blast
qed

theorem counters_never_wrap_witness: "TryNext (Counter 7 :: AttemptId) = Some (Counter 8) \<and> (Counter 7 :: AttemptId) < Counter 8"
proof -
  have "TryNext (Counter 7 :: AttemptId) = Some (Counter 8)" by (simp add: TryNext_def)
  then show ?thesis using counters_never_wrap [of "Counter 7 :: AttemptId"] by blast
qed

section \<open>The wire\<close>

text \<open>
  C36. Frames survive the transport: whatever well-formed frames are encoded one after the other, and
  however the stream is cut into chunks, a reader delivers exactly these frames with their payloads, in
  order, without failing and with nothing left in its buffer.
\<close>

theorem frame_stream_round_trip:
  assumes "\<forall>f \<in> set fs. frame_ok mx f"
    and "concat chunks = concat (map (\<lambda>f. EncodeFrame (fst f) (snd f)) fs)"
  shows "\<exists>r. deliver chunks (FrameReader_new mx) = (fs, r) \<and> \<not> fr_failed r \<and> buffered r = 0"
proof -
  have "stream_frames mx (concat chunks) = (fs, Inr [])"
    using stream_frames_Encode [OF assms(1), of "[]"] assms(2) by (simp add: stream_frames.simps [of mx "[]"])
  then show ?thesis
    using deliver_new [of chunks mx]
    by (cases "deliver chunks (FrameReader_new mx)") (auto simp: reader_after_def buffered_def)
qed

theorem frame_stream_round_trip_witness:
  "let h = FrameHeader_new\<lparr>fh_type := Msg_Request, fh_payload_len := 2, fh_session_id := 7, fh_sequence := 2\<rparr>;
       fs = [(h, [1, 2]), (h, [3, 4])];
       stream = concat (map (\<lambda>f. EncodeFrame (fst f) (snd f)) fs)
   in \<exists>r. deliver [take 10 stream, drop 10 stream] (FrameReader_new 100) = (fs, r) \<and> \<not> fr_failed r \<and> buffered r = 0"
proof -
  have cut: "concat [take 10 x, drop 10 x] = x" for x :: bytes by simp
  show ?thesis
    unfolding Let_def by (rule frame_stream_round_trip [OF _ cut]) (simp add: frame_ok_def FrameHeader_new_def)
qed

text \<open>
  C37. A reader delivers nothing else: the delivered frames are well-formed, their encodings are exactly
  the bytes consumed from the front of the stream, and what follows them is either an incomplete
  frame, kept, or a malformed one, whose first reported reason the reader keeps for good.
\<close>

theorem delivered_frames_are_authentic:
  assumes "deliver chunks (FrameReader_new mx) = (fs, r)"
  shows "(\<forall>f \<in> set fs. frame_ok mx f) \<and>
    (\<exists>rest. concat chunks = concat (map (\<lambda>f. EncodeFrame (fst f) (snd f)) fs) @ rest \<and>
      (if fr_failed r then stream_first mx rest = Malformed (fr_failure r) \<and> (\<forall>more. deliver more r = ([], r))
       else fr_buffer r = rest \<and> stream_first mx rest = Need_More))"
proof -
  obtain outcome where part: "stream_frames mx (concat chunks) = (fs, outcome)" "reader_after mx outcome r"
    using deliver_new [of chunks mx] assms by (cases "stream_frames mx (concat chunks)") simp
  show ?thesis
    using stream_frames_accounts [OF part(1)] part(2) failed_is_final [of r]
    by (cases outcome) (auto simp: reader_after_def)
qed

theorem delivered_frames_are_authentic_witness:
  "let stream = replicate 70 (0 :: u8)
   in \<exists>fs r rest. deliver [stream] (FrameReader_new 100) = (fs, r) \<and> (\<forall>f \<in> set fs. frame_ok 100 f) \<and>
      stream = concat (map (\<lambda>f. EncodeFrame (fst f) (snd f)) fs) @ rest \<and>
      (if fr_failed r then stream_first 100 rest = Malformed (fr_failure r) \<and> (\<forall>more. deliver more r = ([], r))
       else fr_buffer r = rest \<and> stream_first 100 rest = Need_More)"
proof -
  obtain fs r where d: "deliver [replicate 70 (0 :: u8)] (FrameReader_new 100) = (fs, r)"
    by (cases "deliver [replicate 70 (0 :: u8)] (FrameReader_new 100)")
  show ?thesis
    unfolding Let_def using d delivered_frames_are_authentic [OF d] by (simp only: concat.simps append_Nil2) blast
qed

section \<open>JSON\<close>

text \<open>
  C38. Printing and parsing are inverse: a document without reals, within the limits of the printer and the
  parser, is accepted from its printed form, whatever the indentation and with or without sorted
  keys, and gives the same document with its members in the printed order and unsigned numbers that
  fit a signed one as integers.
\<close>

theorem json_reads_back:
  assumes "printable limits 0 v" "json_count v \<le> jl_max_items limits"
    and "length (DumpValue v indent 0 sort_keys) \<le> jl_max_bytes limits"
  shows "json_Parse (DumpValue v indent 0 sort_keys) limits = Inr (read_back sort_keys v)"
  by (rule json_round_trip [OF assms])

theorem json_reads_back_witness:
  "json_Parse (DumpValue (JObject [(''b'', JArray [JInteger 7, JNull]), (''a'', JText [quote])]) 2 0 True) ParseLimits_new =
     Inr (JObject [(''a'', JText [quote]), (''b'', JArray [JInteger 7, JNull])])"
proof -
  let ?v = "JObject [(''b'', JArray [JInteger 7, JNull]), (''a'', JText [quote])]"
  have "length (DumpValue ?v 2 0 True) = 45" by code_simp
  then have len: "length (DumpValue ?v 2 0 True) \<le> jl_max_bytes ParseLimits_new" by (simp add: ParseLimits_new_def)
  show ?thesis
    using json_reads_back [of ParseLimits_new ?v 2 True, OF _ _ len]
    by (simp add: printable.simps ParseLimits_new_def kDumpDepthLimit_def member_order_def read_back.simps)
qed

text \<open>
  C39. Parsing always ends, and every document it accepts respects every limit: the size of the text, the
  number of values, the depth, the length of strings and keys, the sizes of arrays and objects, with
  distinct keys and finite numbers only.
\<close>

theorem json_parser_is_bounded:
  assumes "json_Parse input limits = Inr v"
  shows "length input \<le> jl_max_bytes limits \<and> within limits 0 v \<and> json_count v \<le> jl_max_items limits"
  by (rule json_Parse_within [OF assms])

theorem json_parser_is_bounded_witness:
  "json_Parse ''[1,true]'' ParseLimits_new = Inr (JArray [JInteger 1, JBoolean True]) \<and>
     within ParseLimits_new 0 (JArray [JInteger 1, JBoolean True])"
proof -
  let ?v = "JArray [JInteger 1, JBoolean True]"
  have shown: "DumpValue ?v 0 0 False = ''[1,true]''" by code_simp
  have parsed: "json_Parse ''[1,true]'' ParseLimits_new = Inr ?v"
    using json_round_trip [of ParseLimits_new ?v 0 False]
    by (simp add: shown printable.simps ParseLimits_new_def kDumpDepthLimit_def)
  then show ?thesis using json_parser_is_bounded [OF parsed] by blast
qed

text \<open>
  C40. An observation submission printed as JSON is read back unchanged: every well-formed submission
  within the reader's limits, with whatever subjects, attributes and evidence class, comes back from
  \<open>ParseJson\<close> exactly as it was given to \<open>ToJson\<close>.
\<close>

theorem submission_reads_back:
  assumes "submission_ok limits d" "max_attributes_per_subject limits \<le> 1000000" "length (su_subjects d) \<le> 1000000"
    and "json_count (submission_json d) \<le> 4000000" "length (ToJson (submission_json d)) \<le> 16777216"
  shows "ParseJson_submission (ToJson (submission_json d)) limits = Inr d"
  by (rule submission_back [OF assms])

theorem submission_reads_back_witness:
  "ParseJson_submission (ToJson (submission_json (demo_submission\<lparr>su_subjects :=
      [(StringId ''port/1'', \<lparr>so_id = StringId ''port/1'', so_complete_attributes = True,
          so_observed = [(StringId ''mtu'', Value_Token ''jumbo'')]\<rparr>)]\<rparr>))) default_limits =
    Inr (demo_submission\<lparr>su_subjects :=
      [(StringId ''port/1'', \<lparr>so_id = StringId ''port/1'', so_complete_attributes = True,
          so_observed = [(StringId ''mtu'', Value_Token ''jumbo'')]\<rparr>)]\<rparr>)"
proof -
  let ?d = "demo_submission\<lparr>su_subjects :=
      [(StringId ''port/1'', \<lparr>so_id = StringId ''port/1'', so_complete_attributes = True,
          so_observed = [(StringId ''mtu'', Value_Token ''jumbo'')]\<rparr>)]\<rparr>"
  have ids: "valid_id (StringId ''port/1'' :: SubjectId)" "valid_id (StringId ''mtu'' :: AttributeKey)"
    "valid_id (su_observation ?d)" "valid_id (su_reporter ?d)"
    by (simp_all add: valid_id_def demo_submission_def) code_simp+
  have ok: "submission_ok default_limits ?d"
    using ids demo_ids by (simp add: submission_ok_def demo_submission_def subjects_ok_def subject_observation_ok_def
        state_ok_def state_entry_ok_def default_limits_def kMaxAttributeTextLength_def)
  have "length (ToJson (submission_json ?d)) < 400" "json_count (submission_json ?d) < 20" by code_simp+
  then have small: "length (ToJson (submission_json ?d)) \<le> 16777216" "json_count (submission_json ?d) \<le> 4000000"
    by linarith+
  show ?thesis
    by (rule submission_reads_back [OF ok _ _ small(2,1)]) (simp_all add: default_limits_def)
qed

section \<open>The service and its clients\<close>

text \<open>
  C3. Whatever the clients send and however the threads interleave, a started service only applies
  operations of the engine: its engine keeps the engine invariant and has come from the given one by
  engine operations alone. No two sessions are given the same identity, every session that is served has
  one, and there are never more sessions than allowed.
\<close>

theorem service_run_invariant:
  assumes "Start options engine port k = (Inr v0, k')" "server_step\<^sup>*\<^sup>* v0 v" "engine_inv engine"
    and "vo_max_sessions options < 2 ^ 64 - 1"
  shows "engine_step\<^sup>*\<^sup>* engine (sv_engine v) \<and> engine_inv (sv_engine v) \<and> distinct (established v) \<and>
    (\<forall>s \<in> set (sv_sessions v). ss_phase s = Serving \<longrightarrow> ss_session_id s \<in> set (established v)) \<and>
    length (sv_sessions v) \<le> vo_max_sessions options"
  using service_run [OF assms] by blast

theorem service_run_invariant_witness:
  "\<exists>v0 v k'. Start demo_server_options demo_engine 9000 \<lparr>k_open = [], k_calls = []\<rparr> = (Inr v0, k') \<and>
     server_step\<^sup>*\<^sup>* v0 v \<and> length (sv_sessions v) = 1 \<and> engine_inv (sv_engine v) \<and> distinct (established v)"
proof -
  let ?k = "\<lparr>k_open = [], k_calls = []\<rparr>"
  obtain v0 k' where start: "Start demo_server_options demo_engine 9000 ?k = (Inr v0, k')" "sv_accept v0 = Accept_Waiting"
    "sv_stopping v0 = False" "sv_sessions v0 = []" "sv_options v0 = demo_server_options"
    by (simp add: Start_def WakeupChannel_Create_def Listen_def k_socket_def k_next_def numeral_eq_Suc Let_def)
  define v1 where "v1 = accept_wait (Accept_Connection (demo_socket []) True) v0"
  define v where "v = accept_admit (demo_socket []) True v1"
  have "server_step v0 v1" unfolding v1_def by (rule step_accept_wait [OF start(2)])
  moreover have c: "sv_accept v1 = Accept_Connected (demo_socket []) True" "sv_sessions v1 = []" "sv_options v1 = demo_server_options"
    using start by (simp_all add: v1_def accept_wait_def)
  then have "server_step v1 v" unfolding v_def by (intro step_accept_admit)
  ultimately have run: "server_step\<^sup>*\<^sup>* v0 v" by auto
  have "length (sv_sessions v) = 1" using c by (simp add: v_def accept_admit_def demo_server_options_def)
  then show ?thesis
    using service_run_invariant [OF start(1) run demo_engine_inv] start(1) run by (auto simp: demo_server_options_def)
qed

text \<open>
  C8. A step of the service changes the engine only by handling a request: the next frame of an
  established session is a request frame under the identity of that session and exactly its next
  sequence number, decoded completely, from the client boot that opened the session and for the live
  epoch; the new engine is the one the requested operation yields, and the sequence number is used up.
\<close>

theorem only_bound_requests_act:
  assumes "server_step v v'" "sv_engine v' \<noteq> sv_engine v"
  shows "\<exists>i ck detail others s' request. i < length (sv_sessions v) \<and> interferes (sv_engine v) others \<and>
    sv_sessions v' = (sv_sessions v)[i := s'] \<and> handles ck detail others (sv_sessions v ! i) s' v (sv_engine v') request"
  by (rule server_step_acts [OF assms])

theorem only_bound_requests_act_witness:
  "\<exists>v v'. server_step v v' \<and> sv_engine v' \<noteq> sv_engine v \<and> (\<exists>ck detail others s' request.
     handles ck detail others (sv_sessions v ! 0) s' v (sv_engine v') request)"
proof -
  let ?events = "chunk_events [request_frame demo_plan_request (demo_client [])]"
  let ?v = "demo_server ?events" and ?s = "demo_session ?events"
  obtain r e' where h: "Handle (vo_limits (sv_options ?v)) demo_clocks [] id (ss_client_boot ?s) demo_plan_request (sv_engine ?v) = (r, e')"
    "e' \<noteq> demo_engine"
    using demo_plan_handled [of "[]" id] unfolding demo_server_def demo_server_options_def demo_session_def
    by (simp del: id_apply) blast
  have fits: "envelope_fits (request_puts demo_plan_request) (vo_limits (sv_options ?v))"
    unfolding demo_server_def demo_server_options_def
    by (simp, rule small_envelope_fits) (simp add: request_puts_def demo_plan_request_def call_request_def demo_client_def PutBoot_def demo_peer_def)
  have part: "[] \<notin> set [request_frame demo_plan_request (demo_client [])]" "Op_Plan \<noteq> Op_Invalid"
    "concat [request_frame demo_plan_request (demo_client [])] = request_frame demo_plan_request (demo_client [])"
    "so_events (ss_socket ?s) = ?events @ []"
    by (simp_all add: frame_nonempty [THEN not_sym] demo_session_def demo_socket_def SessionState_new_def)
  obtain s' where serve: "ServeSession demo_clocks [] id ?s ?v = (s', ?v\<lparr>sv_engine := e'\<rparr>)"
    using session_answers [OF demo_paired demo_plan_request_def part(2) fits part(1,3,4) h(1)] by blast
  define v' where "v' = (?v\<lparr>sv_engine := e'\<rparr>)\<lparr>sv_sessions := (sv_sessions (?v\<lparr>sv_engine := e'\<rparr>))[0 := s']\<rparr>"
  have step: "server_step ?v v'"
    unfolding v'_def using serve demo_interferes by (intro step_session [where others = id]) (simp_all add: demo_server_def)
  have act: "sv_engine v' \<noteq> sv_engine ?v" using h(2) by (simp add: v'_def demo_server_def)
  have one: "length (sv_sessions ?v) = 1" by (simp add: demo_server_def)
  obtain i ck detail others t request where i: "i < length (sv_sessions ?v)"
    and hd: "handles ck detail others (sv_sessions ?v ! i) t ?v (sv_engine v') request"
    using only_bound_requests_act [OF step act] by blast
  have "i = 0" using i one by simp
  then show ?thesis using hd step act by blast
qed



text \<open>
  C14. Shutdown is bounded: once a session is released, its thread ends after at most one pass per
  buffered frame and one more, whatever requests those frames hold and whatever the other threads
  make of the service and its engine between the passes.
\<close>

theorem released_sessions_end:
  assumes "\<And>n. session (Suc n) = fst (ServeSession (ck n) (detail n) (others n) (session n) (server n))"
    and "released (ss_socket (session 0))"
  shows "\<exists>n \<le> Suc (buffered (ss_reader (session 0)) div kWireHeaderBytes). ss_phase (session n) = Ended"
  by (rule released_session_ends [OF assms])

theorem released_sessions_end_witness:
  "\<exists>n \<le> 1. ss_phase (((\<lambda>s. fst (ServeSession demo_clocks [] id s (demo_server []))) ^^ n)
     (release_session (demo_session []))) = Ended"
proof -
  let ?step = "\<lambda>s. fst (ServeSession demo_clocks [] id s (demo_server []))"
  let ?s = "release_session (demo_session [])"
  have "released (ss_socket ?s)"
    by (simp add: released_def release_session_def net_Shutdown_def demo_session_def SessionState_new_def demo_socket_def)
  moreover have "buffered (ss_reader ?s) = 0"
    by (simp add: release_session_def demo_session_def SessionState_new_def FrameReader_new_def buffered_def)
  ultimately show ?thesis
    using released_sessions_end [of "\<lambda>n. (?step ^^ n) ?s" "\<lambda>_. demo_clocks" "\<lambda>_. []" "\<lambda>_. id" "\<lambda>_. demo_server []"]
    by (simp add: kWireHeaderBytes_def)
qed

section \<open>Identities\<close>


section \<open>The tools\<close>

text \<open>
  C16. Whatever its arguments, its files and what its service is asked, a process of the command
  line tool that opened a store begins a new epoch of it and then only moves the engine forwards: the engine it
  ends with keeps the invariant, and attempts, intents, policy and epoch have not gone back.
\<close>

theorem tool_only_applies_operations:
  assumes "cli_main raw w = Some p" "pr_engine p = Some e'" "threads_run w" "\<And>dir. store_sound w dir"
  shows "\<exists>dir opened st e. open_store w dir = (opened, Some e) \<and> epoch_begun st e \<and> resumable default_limits st \<and>
    en_live_boot e = wo_boot w \<and> moves e e' \<and> engine_inv e'"
proof -
  obtain dir opened e where e: "open_store w dir = (opened, Some e)" "begun w e" "moves e e'"
    using cli_main_runs [OF assms] by blast
  then have "engine_inv e'" using begun_parts by (auto simp: moves_def)
  then show ?thesis using e by (auto simp: begun_def)
qed

theorem tool_only_applies_operations_witness:
  "\<exists>p e'. cli_main [''init'', ''--store'', ''s''] demo_world = Some p \<and> pr_engine p = Some e' \<and> engine_inv e' \<and>
     en_live_epoch e' \<noteq> Counter 0"
proof -
  obtain e where e: "open_store demo_world ''s'' = (Status_Ok, Some e)" using demo_world_opens(1) by blast
  have "parse_options [''--store'', ''s''] p = Parsed (p\<lparr>cl_store := ''s''\<rparr>)" for p
    by (simp add: text_option_def Next_value_def)
  then obtain p where p: "cli_main [''init'', ''--store'', ''s''] demo_world = Some p" "pr_engine p = Some e"
    using e by (simp add: cli_main_def run_command_def command_named_def CommandInit_def with_engine_def OpenEngine_def Let_def)
  obtain dir opened st e0 where st: "epoch_begun st e0" "moves e0 e" "engine_inv e"
    using tool_only_applies_operations [OF p demo_world_threads demo_world_opens(3)] by blast
  have "en_live_epoch e = en_live_epoch e0" using st(1,2) by (simp add: moves_def epoch_begun_def)
  then show ?thesis using p st(1,3) unfolding epoch_begun_def by (auto simp: less_counter_def)
qed

text \<open>
  C18. Every process of the command line tool is a new epoch, so its commands on actions have nothing
  to act on: \<open>complete\<close> and \<open>verify\<close> always fail once a store is open, and \<open>dispatch\<close> leaves the attempts as
  they were.
\<close>

theorem tool_cannot_finish_actions:
  assumes "cli_main (command # args) w = Some p" "pr_engine p = Some e'" "\<And>dir. store_sound w dir"
  shows "(command \<in> {''complete'', ''verify''} \<longrightarrow> pr_exit p = 1) \<and>
    (command = ''dispatch'' \<longrightarrow> (\<exists>dir opened e. open_store w dir = (opened, Some e) \<and>
       ds_attempts (en_state e') = ds_attempts (en_state e)))"
proof -
  obtain options where run: "run_command options w = Some p" "cl_command options = command"
    using cli_main_command [OF assms(1,2)] by blast
  have "p = CommandComplete options w" if "command = ''complete''" using run that by (simp add: run_command_def command_named_def)
  moreover have "p = CommandVerify options w" if "command = ''verify''" using run that by (simp add: run_command_def command_named_def)
  moreover have "\<exists>opened e. open_store w (cl_store options) = (opened, Some e) \<and> ds_attempts (en_state e') = ds_attempts (en_state e)"
    if "command = ''dispatch''"
  proof -
    have "p = CommandDispatch options w" using run that by (simp add: run_command_def command_named_def)
    then show ?thesis
      using CommandDispatch_runs [OF _ assms(3)] CommandDispatch_attempts [OF assms(3)] assms(2)
      by (fastforce simp: runs_from_def OpenEngine_def)
  qed
  ultimately show ?thesis using CommandComplete_fails [OF assms(3)] CommandVerify_fails [OF assms(3)] by blast
qed

theorem tool_cannot_finish_actions_witness:
  "\<exists>p e'. cli_main [''complete'', ''--store'', ''s'', ''--state'', ''APPLIED'', ''--key'', replicate 64 CHR ''0''] demo_world = Some p \<and>
     pr_engine p = Some e' \<and> pr_exit p = 1"
proof -
  let ?args = "[''--store'', ''s'', ''--state'', ''APPLIED'', ''--key'', replicate 64 CHR ''0'']"
  obtain e where e: "open_store demo_world ''s'' = (Status_Ok, Some e)" using demo_world_opens(1) by blast
  define options where "options =
    Options_new\<lparr>cl_command := ''complete'', cl_store := ''s'', cl_state := ''APPLIED'', cl_key := replicate 64 CHR ''0''\<rparr>"
  have "parse_options ?args (Options_new\<lparr>cl_command := ''complete''\<rparr>) = Parsed options"
    by (simp add: text_option_def Next_value_def options_def)
  then have p: "cli_main (''complete'' # ?args) demo_world = Some (CommandComplete options demo_world)"
    by (rule cli_main_named) (simp_all add: command_named_def)
  have "OpenEngine options demo_world = (Status_Ok, Some e)" using e by (simp add: OpenEngine_def options_def)
  then obtain e' where e': "pr_engine (CommandComplete options demo_world) = Some e'" using CommandComplete_engine by blast
  then show ?thesis using tool_cannot_finish_actions [OF p e' demo_world_opens(3)] p by blast
qed

text \<open>
  C17. Two coordinators of the same epoch and boot that hold the same policy, intent, observations and
  fences of a scope and plan it at the same time build the same plan, whatever else their stores hold.
\<close>

theorem plans_are_reproducible:
  assumes "same_view (pq_scope request) e e'" "stamp_or (pq_now_unix_ms request) (ck_now ck) = stamp_or (pq_now_unix_ms request) (ck_now ck')"
  shows "fst (engine_Plan ck request e) = fst (engine_Plan ck' request e')"
  using engine_Plan_reproducible [OF assms(1), of ck' ck] assms(2) by simp

theorem plans_are_reproducible_witness:
  "fst (engine_Plan demo_clocks demo_request demo_engine) = fst (engine_Plan demo_clocks demo_request
     (demo_engine\<lparr>en_store := demo_store\<lparr>st_state := demo_state\<lparr>ds_attempts := [], ds_sequence := Counter 1\<rparr>\<rparr>, en_stats := stats_new\<rparr>))"
  by (rule plans_are_reproducible) (simp_all add: same_view_def)

text \<open>
  C15. The boundaries at which the worker terminates itself are where their names say. Before the
  dispatch the attempts are those of the opened store; between dispatch and completion there is a dispatched attempt
  of the running epoch; after the completion there is an applied one. The engine only moved forwards.
\<close>

theorem worker_boundaries:
  assumes "worker_main raw w = p" "pr_engine p = Some e'" "\<And>dir. store_sound w dir"
    and "\<And>dir opened e. open_store w dir = (opened, Some e) \<Longrightarrow>
      unat (cval (ds_next_attempt (en_state e))) + max_plan_actions default_limits < 2 ^ 64"
  shows "\<exists>dir opened e. open_store w dir = (opened, Some e) \<and> moves e e' \<and>
    (pr_exit p \<in> {69, 70} \<longrightarrow> ds_attempts (en_state e') = ds_attempts (en_state e)) \<and>
    (pr_exit p \<in> {71, 72} \<longrightarrow> live_attempt Attempt_Dispatched e') \<and>
    (pr_exit p = 73 \<longrightarrow> live_attempt Attempt_Applied e')"
proof -
  obtain arguments where run: "worker_run arguments w = p"
    using assms(1,2) by (auto simp: worker_main_def Die_def split: sum.splits if_splits)
  then obtain opened e where "open_store w (ar_store arguments) = (opened, Some e)"
    using assms(2) by (auto simp: worker_run_def worker_fail_def split: prod.splits option.splits)
  then show ?thesis using worker_run_leaves [OF run assms(2,3)] assms(4) by (fastforce simp: left_by_def)
qed

theorem worker_boundaries_witness:
  "\<exists>p e'. worker_main [''--store'', ''s'', ''--mode'', ''scenario'', ''--subjects'', ''1'', ''--kill-at'', ''after_dispatch_before_ack''] demo_world = p \<and>
     pr_engine p = Some e' \<and> pr_exit p = 71 \<and> live_attempt Attempt_Dispatched e'"
proof -
  let ?raw = "[''--store'', ''s'', ''--mode'', ''scenario'', ''--subjects'', ''1'', ''--kill-at'', ''after_dispatch_before_ack'']"
  obtain e where e: "open_store demo_world ''s'' = (Status_Ok, Some e)" "newborn e" using demo_world_opens(1) by blast
  have inv: "engine_inv e" by (rule begun_parts [OF open_store_begun [OF e(1) demo_world_opens(3)]])
  have room: "unat (cval (ds_next_attempt (en_state x))) + max_plan_actions default_limits < 2 ^ 64"
    if "open_store demo_world dir = (opened, Some x)" for dir opened x
    by (rule newborn_room [OF demo_world_opens(2) [OF that]])
  have "to_string_i64 1 = ''1''" by code_simp
  then have "strtoll_prefix ''1'' = 1" using strtoll_prefix_back [of 1] by simp
  then have "parse_arguments ?raw Arguments_new = Inr scenario_arguments"
    by (simp add: argument_option_def scenario_arguments_def)
  moreover have "ar_store scenario_arguments = ''s''" "ar_mode scenario_arguments = ''scenario''" "ar_scope scenario_arguments = ''fabric/rack-7''"
    by (simp_all add: scenario_arguments_def Arguments_new_def)
  ultimately have p: "worker_main ?raw demo_world = mode_scenario scenario_arguments demo_world rack e"
    using e(1) worker_ids(5) by (simp add: worker_main_def worker_run_def)
  obtain e' where e': "pr_engine (mode_scenario scenario_arguments demo_world rack e) = Some e'"
    "pr_exit (mode_scenario scenario_arguments demo_world rack e) = 71"
    using newborn_scenario [OF inv e(2)] by blast
  from worker_boundaries [OF p e'(1) demo_world_opens(3)] room have "live_attempt Attempt_Dispatched e'" using e'(2) by blast
  then show ?thesis using p e' by simp
qed

end
